(* ===== verification/Prelude.thy ===== *)
theory Prelude
  imports Complex_Main "HOL-Library.Sublist" "HOL-Library.Char_ord"
begin

text \<open>
  Prelude of the Herdr Schengen development: the text model (a Python \<open>str\<close> is a
  \<open>string\<close>, that is, a list of characters; commands are ASCII text), the string methods of
  Python that the program uses (\<open>strip\<close>, \<open>split\<close>, \<open>splitlines\<close>,
  \<open>replace\<close>, \<open>count\<close>, \<open>join\<close>, \<open>lower\<close>, \<open>startswith\<close>), and the combinators
  that compose a guard pipeline out of stages that may or may not answer.  The lemma
  collections declared here carry the proofs of the components.
\<close>

named_theorems str_simps \<open>facts about the Python string methods\<close>
named_theorems stage_simps \<open>facts that run a guard pipeline\<close>

type_synonym str = string

subsection \<open>Characters\<close>

definition is_digit :: "char \<Rightarrow> bool" where
  "is_digit c \<longleftrightarrow> CHR ''0'' \<le> c \<and> c \<le> CHR ''9''"

definition is_lower :: "char \<Rightarrow> bool" where
  "is_lower c \<longleftrightarrow> CHR ''a'' \<le> c \<and> c \<le> CHR ''z''"

definition is_upper :: "char \<Rightarrow> bool" where
  "is_upper c \<longleftrightarrow> CHR ''A'' \<le> c \<and> c \<le> CHR ''Z''"

definition is_alnum :: "char \<Rightarrow> bool" where
  "is_alnum c \<longleftrightarrow> is_lower c \<or> is_upper c \<or> is_digit c"

definition is_word :: "char \<Rightarrow> bool" where
  "is_word c \<longleftrightarrow> is_lower c \<or> is_upper c \<or> is_digit c \<or> c = CHR ''_''"

definition is_space :: "char \<Rightarrow> bool" where
  "is_space c \<longleftrightarrow> c = CHR '' '' \<or> (CHR 0x09 \<le> c \<and> c \<le> CHR 0x0D) \<or> (CHR 0x1C \<le> c \<and> c \<le> CHR 0x1F)"

text \<open>\<open>str.lower\<close> and \<open>str.upper\<close> on one character: bit 5 of an ASCII letter.\<close>

definition to_lower :: "char \<Rightarrow> char" where
  "to_lower c = (if is_upper c then
     (case c of Char b0 b1 b2 b3 b4 b5 b6 b7 \<Rightarrow> Char b0 b1 b2 b3 b4 True b6 b7) else c)"

definition to_upper :: "char \<Rightarrow> char" where
  "to_upper c = (if is_lower c then
     (case c of Char b0 b1 b2 b3 b4 b5 b6 b7 \<Rightarrow> Char b0 b1 b2 b3 b4 False b6 b7) else c)"

abbreviation bslash :: char where "bslash \<equiv> CHR 0x5C"
abbreviation dquote :: char where "dquote \<equiv> CHR 0x22"
abbreviation squote :: char where "squote \<equiv> CHR 0x27"
abbreviation nl :: char where "nl \<equiv> CHR 0x0A"
abbreviation cr :: char where "cr \<equiv> CHR 0x0D"
abbreviation btick :: char where "btick \<equiv> CHR 0x60"

subsection \<open>String methods\<close>

definition starts_with :: "str \<Rightarrow> str \<Rightarrow> bool" where
  "starts_with s p \<longleftrightarrow> prefix p s"

definition ends_with :: "str \<Rightarrow> str \<Rightarrow> bool" where
  "ends_with s p \<longleftrightarrow> suffix p s"

text \<open>The operator \<open>sub in s\<close> of Python strings.\<close>

definition contains :: "str \<Rightarrow> str \<Rightarrow> bool" where
  "contains sub s \<longleftrightarrow> sublist sub s"

definition str_lower :: "str \<Rightarrow> str" where
  "str_lower s = map to_lower s"

definition lstrip :: "str \<Rightarrow> str" where
  "lstrip s = dropWhile is_space s"

definition rstrip :: "str \<Rightarrow> str" where
  "rstrip s = rev (dropWhile is_space (rev s))"

definition strip :: "str \<Rightarrow> str" where
  "strip s = rstrip (lstrip s)"

text \<open>\<open>s.rstrip(cs)\<close> and \<open>s.strip(cs)\<close> with an explicit set of characters.\<close>

definition rstrip_chars :: "str \<Rightarrow> str \<Rightarrow> str" where
  "rstrip_chars cs s = rev (dropWhile (\<lambda>c. c \<in> set cs) (rev s))"

definition strip_chars :: "str \<Rightarrow> str \<Rightarrow> str" where
  "strip_chars cs s = rstrip_chars cs (dropWhile (\<lambda>c. c \<in> set cs) s)"

text \<open>\<open>s.split(c)\<close> for a one-character separator.\<close>

fun split_char :: "char \<Rightarrow> str \<Rightarrow> str list" where
  "split_char c [] = [[]]"
| "split_char c (x # xs) =
     (if x = c then [] # split_char c xs
      else (case split_char c xs of [] \<Rightarrow> [[x]] | w # ws \<Rightarrow> (x # w) # ws))"

text \<open>\<open>s.split()\<close>: the maximal runs of non-whitespace; \<open>w\<close> is the current run, reversed.\<close>

fun split_ws_from :: "str \<Rightarrow> str \<Rightarrow> str list" where
  "split_ws_from w [] = (if w = [] then [] else [rev w])"
| "split_ws_from w (x # xs) =
     (if is_space x then (if w = [] then split_ws_from [] xs else rev w # split_ws_from [] xs)
      else split_ws_from (x # w) xs)"

definition split_ws :: "str \<Rightarrow> str list" where
  "split_ws s = split_ws_from [] s"

text \<open>\<open>s.split(c, 1)\<close> and \<open>s.partition(c)\<close>: the text before and after the first separator.\<close>

fun split_once :: "char \<Rightarrow> str \<Rightarrow> (str \<times> str) option" where
  "split_once c [] = None"
| "split_once c (x # xs) =
     (if x = c then Some ([], xs) else map_option (\<lambda>(a, b). (x # a, b)) (split_once c xs))"

text \<open>\<open>s.splitlines()\<close>: no empty last line, and a carriage return with a newline is one break.\<close>

definition is_line_break :: "char \<Rightarrow> bool" where
  "is_line_break c \<longleftrightarrow> (CHR 0x0A \<le> c \<and> c \<le> CHR 0x0D) \<or> (CHR 0x1C \<le> c \<and> c \<le> CHR 0x1E)"

fun splitlines_from :: "str \<Rightarrow> str \<Rightarrow> str list" where
  "splitlines_from w [] = (if w = [] then [] else [rev w])"
| "splitlines_from w (x # xs) =
     (if x = CHR 0x0D \<and> xs \<noteq> [] \<and> hd xs = CHR 0x0A then splitlines_from w xs
      else if is_line_break x then rev w # splitlines_from [] xs
      else splitlines_from (x # w) xs)"

definition splitlines :: "str \<Rightarrow> str list" where
  "splitlines s = splitlines_from [] s"

text \<open>\<open>sep.join(xs)\<close>.\<close>

fun str_join :: "str \<Rightarrow> str list \<Rightarrow> str" where
  "str_join sep [] = []"
| "str_join sep [x] = x"
| "str_join sep (x # y # ys) = x @ sep @ str_join sep (y # ys)"

text \<open>
  \<open>s.replace(old, new)\<close> and \<open>s.count(sub)\<close> for a non-empty first argument; the recursion
  skips the characters of a match (\<open>n\<close> of them are still to be skipped), so matches do not
  overlap.
\<close>

fun replace_from :: "nat \<Rightarrow> str \<Rightarrow> str \<Rightarrow> str \<Rightarrow> str" where
  "replace_from n old new [] = []"
| "replace_from (Suc n) old new (x # xs) = replace_from n old new xs"
| "replace_from 0 old new (x # xs) =
     (if prefix old (x # xs) then new @ replace_from (length old - 1) old new xs
      else x # replace_from 0 old new xs)"

definition str_replace :: "str \<Rightarrow> str \<Rightarrow> str \<Rightarrow> str" where
  "str_replace old new s = replace_from 0 old new s"

fun count_from :: "nat \<Rightarrow> str \<Rightarrow> str \<Rightarrow> int" where
  "count_from n sub [] = 0"
| "count_from (Suc n) sub (x # xs) = count_from n sub xs"
| "count_from 0 sub (x # xs) =
     (if prefix sub (x # xs) then 1 + count_from (length sub - 1) sub xs
      else count_from 0 sub xs)"

definition str_count :: "str \<Rightarrow> str \<Rightarrow> int" where
  "str_count sub s = count_from 0 sub s"

text \<open>Decimal numerals, as \<open>str(n)\<close> prints them and \<open>int(s)\<close> reads them.\<close>

definition digit_char :: "nat \<Rightarrow> char" where
  "digit_char d = ''0123456789'' ! d"

fun show_nat :: "nat \<Rightarrow> str" where
  "show_nat n = (if n < 10 then [digit_char n] else show_nat (n div 10) @ [digit_char (n mod 10)])"

declare show_nat.simps [simp del]

definition show_int :: "int \<Rightarrow> str" where
  "show_int i = (if i < 0 then CHR ''-'' # show_nat (nat (- i)) else show_nat (nat i))"

definition digit_val :: "char \<Rightarrow> nat" where
  "digit_val c = of_char c - 48"

definition read_nat :: "str \<Rightarrow> nat" where
  "read_nat s = foldl (\<lambda>n c. 10 * n + digit_val c) 0 s"

subsection \<open>Facts about the string methods\<close>

lemma contains_Nil [str_simps]: "contains sub [] \<longleftrightarrow> sub = []"
  by (auto simp: contains_def)

lemma contains_char [str_simps]: "contains [c] s \<longleftrightarrow> c \<in> set s"
proof -
  have "sublist [c] s \<longleftrightarrow> (\<exists>ps ss. s = ps @ c # ss)"
    by (auto simp: sublist_def)
  also have "\<dots> \<longleftrightarrow> c \<in> set s"
    by (metis in_set_conv_decomp)
  finally show ?thesis by (simp add: contains_def)
qed

lemma contains_mid [str_simps, intro]: "contains sub (a @ sub @ b)"
  by (auto simp: contains_def sublist_def)

lemma contains_append_left: "contains sub a \<Longrightarrow> contains sub (a @ b)"
  unfolding contains_def by (rule sublist_order.order_trans) auto

lemma starts_with_append [str_simps, simp]: "starts_with (p @ s) p"
  by (simp add: starts_with_def)

lemma starts_with_split: "starts_with s p \<Longrightarrow> \<exists>r. s = p @ r"
  by (auto simp: starts_with_def prefix_def)

lemma split_char_nonempty [simp]: "split_char c s \<noteq> []"
  by (induction s) (auto split: list.splits)

lemma split_char_join: "str_join [c] (split_char c s) = s"
proof (induction s)
  case Nil
  show ?case by simp
next
  case (Cons x xs)
  obtain w ws where "split_char c xs = w # ws"
    by (cases "split_char c xs") auto
  with Cons show ?case by (cases ws) auto
qed

lemma split_char_no_sep: "w \<in> set (split_char c s) \<Longrightarrow> c \<notin> set w"
proof (induction s arbitrary: w)
  case Nil
  then show ?case by simp
next
  case (Cons x xs)
  obtain v vs where "split_char c xs = v # vs"
    by (cases "split_char c xs") auto
  with Cons show ?case by (auto split: if_splits)
qed

lemma split_ws_from_clean:
  "list_all (Not \<circ> is_space) w \<Longrightarrow> list_all (\<lambda>t. t \<noteq> [] \<and> list_all (Not \<circ> is_space) t) (split_ws_from w s)"
proof (induction s arbitrary: w)
  case Nil
  then show ?case by simp
next
  case (Cons x xs)
  show ?case
  proof (cases "is_space x")
    case True
    with Cons.prems Cons.IH [of "[]"] show ?thesis by simp
  next
    case False
    with Cons.prems Cons.IH [of "x # w"] show ?thesis by simp
  qed
qed

lemma split_ws_clean: "t \<in> set (split_ws s) \<Longrightarrow> t \<noteq> [] \<and> (\<forall>c \<in> set t. \<not> is_space c)"
  using split_ws_from_clean [of "[]" s] by (auto simp: split_ws_def list_all_iff)

lemma split_ws_from_space: "list_all is_space sp \<Longrightarrow> split_ws_from [] (sp @ s) = split_ws_from [] s"
  by (induction sp) auto

lemma split_ws_from_word:
  "list_all (\<lambda>c. \<not> is_space c) v \<Longrightarrow> split_ws_from w (v @ s) = split_ws_from (rev v @ w) s"
  by (induction v arbitrary: w) auto

lemma split_ws_space [str_simps]: "list_all is_space sp \<Longrightarrow> split_ws (sp @ s) = split_ws s"
  by (simp add: split_ws_def split_ws_from_space)

lemma split_ws_spaces [str_simps]: "list_all is_space sp \<Longrightarrow> split_ws sp = []"
  using split_ws_space [of sp "[]"] by (simp add: split_ws_def)

lemma split_ws_word:
  assumes "v \<noteq> []" "list_all (\<lambda>c. \<not> is_space c) v" "s = [] \<or> is_space (hd s)"
  shows "split_ws (v @ s) = v # split_ws s"
proof (cases s)
  case Nil
  with assms show ?thesis using split_ws_from_word [of v "[]" "[]"] by (simp add: split_ws_def)
next
  case (Cons c cs)
  with assms show ?thesis using split_ws_from_word [of v "[]" s] by (simp add: split_ws_def)
qed

lemma split_once_Some: "split_once c s = Some (a, b) \<Longrightarrow> s = a @ c # b \<and> c \<notin> set a"
  by (induction s arbitrary: a) (auto split: if_splits)

lemma split_once_None: "split_once c s = None \<longleftrightarrow> c \<notin> set s"
  by (induction s) auto

lemma strip_Nil [simp]: "strip [] = []"
  by (simp add: strip_def lstrip_def rstrip_def)

lemma set_lstrip: "set (lstrip s) \<subseteq> set s"
  by (auto simp: lstrip_def dest: set_dropWhileD)

lemma set_rstrip: "set (rstrip s) \<subseteq> set s"
  by (auto simp: rstrip_def dest: set_dropWhileD)

lemma set_strip: "set (strip s) \<subseteq> set s"
  unfolding strip_def using set_lstrip set_rstrip by blast

lemma lstrip_hd: "lstrip s \<noteq> [] \<Longrightarrow> \<not> is_space (hd (lstrip s))"
  unfolding lstrip_def by (rule hd_dropWhile)

lemma rstrip_last: "rstrip s \<noteq> [] \<Longrightarrow> \<not> is_space (last (rstrip s))"
  unfolding rstrip_def
  by (simp add: last_rev hd_dropWhile)

lemma rstrip_append_last: "\<not> is_space c \<Longrightarrow> rstrip (s @ [c]) = s @ [c]"
  by (simp add: rstrip_def)

lemma rstrip_prefix: "prefix (rstrip s) s"
  unfolding rstrip_def by (metis suffix_dropWhile suffix_to_prefix rev_rev_ident)

lemma strip_ends:
  assumes "strip s \<noteq> []"
  shows "\<not> is_space (hd (strip s)) \<and> \<not> is_space (last (strip s))"
proof -
  have p: "prefix (strip s) (lstrip s)"
    unfolding strip_def by (rule rstrip_prefix)
  from p obtain r where r: "lstrip s = strip s @ r" by (auto simp: prefix_def)
  with assms have "hd (lstrip s) = hd (strip s)" and "lstrip s \<noteq> []" by auto
  then have "\<not> is_space (hd (strip s))" using lstrip_hd by metis
  moreover have "\<not> is_space (last (strip s))"
    using assms rstrip_last unfolding strip_def by blast
  ultimately show ?thesis ..
qed

lemma strip_id:
  assumes "s \<noteq> []" "\<not> is_space (hd s)" "\<not> is_space (last s)"
  shows "strip s = s"
proof -
  from assms(1,2) have "lstrip s = s" by (cases s) (auto simp: lstrip_def)
  moreover from assms(1,3) have "rstrip s = s"
    by (metis append_butlast_last_id rstrip_append_last)
  ultimately show ?thesis by (simp add: strip_def)
qed

lemma strip_idem [simp]: "strip (strip s) = strip s"
  using strip_ends strip_id by (cases "strip s = []") auto

lemma str_join_Cons: "xs \<noteq> [] \<Longrightarrow> str_join sep (x # xs) = x @ sep @ str_join sep xs"
  by (cases xs) auto

lemma count_from_nonneg: "0 \<le> count_from n sub s"
  by (induction n sub s rule: count_from.induct) auto

lemma str_count_nonneg [simp]: "0 \<le> str_count sub s"
  by (simp add: str_count_def count_from_nonneg)

subsection \<open>Guard pipelines\<close>

text \<open>
  A guard of the program looks at a request and either answers or lets the next guard look:
  an early \<open>return\<close> is \<open>Some\<close> answer, falling through is \<open>None\<close>.  \<open>first_answer\<close> runs a
  list of guards in order; its last resort is the answer that stands at the end of the
  function.  Guards that also change state are composed by \<open>run_stages\<close>.
\<close>

fun first_answer :: "'v option list \<Rightarrow> 'v \<Rightarrow> 'v" where
  "first_answer [] d = d"
| "first_answer (Some v # gs) d = v"
| "first_answer (None # gs) d = first_answer gs d"

type_synonym ('s, 'v) stage = "'s \<Rightarrow> 'v option \<times> 's"

fun run_stages :: "('s, 'v) stage list \<Rightarrow> 'v \<Rightarrow> 's \<Rightarrow> 'v \<times> 's" where
  "run_stages [] d s = (d, s)"
| "run_stages (g # gs) d s =
     (case g s of (Some v, s') \<Rightarrow> (v, s') | (None, s') \<Rightarrow> run_stages gs d s')"

definition pure_stage :: "'v option \<Rightarrow> ('s, 'v) stage" where
  "pure_stage a s = (a, s)"

text \<open>A loop over guards that returns from inside: the first element that answers.\<close>

fun first_some :: "('a \<Rightarrow> 'v option) \<Rightarrow> 'a list \<Rightarrow> 'v option" where
  "first_some f [] = None"
| "first_some f (x # xs) = (case f x of None \<Rightarrow> first_some f xs | Some v \<Rightarrow> Some v)"

lemma first_some_SomeD: "first_some f xs = Some v \<Longrightarrow> \<exists>x \<in> set xs. f x = Some v"
  by (induction xs) (auto split: option.splits)

lemma first_some_None: "first_some f xs = None \<longleftrightarrow> (\<forall>x \<in> set xs. f x = None)"
  by (induction xs) (auto split: option.splits)

lemma run_stages_pure_None [stage_simps]:
  "run_stages (pure_stage None # gs) d s = run_stages gs d s"
  by (simp add: pure_stage_def [of None])

lemma run_stages_pure_Some [stage_simps]:
  "run_stages (pure_stage (Some v) # gs) d s = (v, s)"
  by (simp add: pure_stage_def)

text \<open>
  What a pipeline can answer: every answer comes from one of its guards or is the default.
\<close>

lemma run_stages_invariant:
  assumes "run_stages gs d s = (v, s')"
    and "P d" and "\<And>g t w t'. g \<in> set gs \<Longrightarrow> g t = (Some w, t') \<Longrightarrow> P w"
  shows "P v"
  using assms
proof (induction gs arbitrary: s)
  case Nil
  then show ?case by simp
next
  case (Cons g gs)
  show ?case
  proof (cases "g s")
    case (Pair a t)
    show ?thesis
    proof (cases a)
      case None
      with Pair Cons.prems(1) have "run_stages gs d t = (v, s')" by simp
      then show ?thesis
        by (rule Cons.IH) (use Cons.prems in auto)
    next
      case (Some w)
      with Pair Cons.prems(1) have "w = v" by simp
      with Some Pair Cons.prems(3) show ?thesis by auto
    qed
  qed
qed

text \<open>A state invariant that every guard keeps is kept by the pipeline.\<close>

lemma run_stages_state_invariant:
  assumes "run_stages gs d s = (v, s')" and "I s"
    and "\<And>g t a t'. g \<in> set gs \<Longrightarrow> I t \<Longrightarrow> g t = (a, t') \<Longrightarrow> I t'"
  shows "I s'"
  using assms
proof (induction gs arbitrary: s)
  case Nil
  then show ?case by simp
next
  case (Cons g gs)
  show ?case
  proof (cases "g s")
    case (Pair a t)
    with Cons.prems have t: "I t" by auto
    show ?thesis
      using Cons.prems(1) Pair t Cons.IH [of t] Cons.prems(3)
      by (cases a) auto
  qed
qed

text \<open>One step of a pipeline, and a block of guards that do not touch the state.\<close>

lemma run_stages_step:
  assumes "run_stages (g # gs) d s = (v, s')"
  obtains (answer) "g s = (Some v, s')" | (pass) t where "g s = (None, t)" "run_stages gs d t = (v, s')"
  using assms by (cases "g s"; cases "fst (g s)") auto

lemma run_stages_pure_step:
  assumes "run_stages (pure_stage a # gs) d s = (v, s')"
  obtains (answer) "a = Some v" "s' = s" | (pass) "a = None" "run_stages gs d s = (v, s')"
  using assms by (cases a) (simp_all add: pure_stage_def)

lemma run_stages_guards:
  assumes "run_stages (map pure_stage gs @ rest) d s = (v, s')"
  obtains (answer) "Some v \<in> set gs" "s' = s" | (pass) "\<forall>a \<in> set gs. a = None" "run_stages rest d s = (v, s')"
  using assms
proof (induction gs arbitrary: thesis)
  case Nil
  then show ?case by simp
next
  case (Cons a gs)
  show ?case
  proof (cases a)
    case None
    with Cons.prems(3) have "run_stages (map pure_stage gs @ rest) d s = (v, s')" by (simp add: pure_stage_def [of None])
    then show ?thesis by (rule Cons.IH [rotated 2]) (use Cons.prems None in auto)
  next
    case (Some u)
    with Cons.prems(3) have "u = v" "s' = s" by (simp_all add: pure_stage_def [of "Some u"])
    with Some Cons.prems(1) show ?thesis by simp
  qed
qed

text \<open>A block of guards one of which answers decides the pipeline.\<close>

lemma run_stages_decided:
  assumes "\<exists>a \<in> set gs. a \<noteq> None"
  obtains v where "Some v \<in> set gs" "run_stages (map pure_stage gs @ rest) d s = (v, s)"
proof -
  obtain v s' where r: "run_stages (map pure_stage gs @ rest) d s = (v, s')"
    by (cases "run_stages (map pure_stage gs @ rest) d s")
  then show ?thesis
    by (rule run_stages_guards) (use that r assms in auto)
qed

end
