(* ===== verification/PyRegex.thy ===== *)
theory PyRegex
  imports Prelude
begin

text \<open>
  The part of Python's \<open>re\<close> module that the program uses: a pattern is read by \<open>rx_parse\<close>
  into a syntax tree, \<open>rx_ends\<close> is the backtracking matcher (the list of all ways to
  match, in the order in which the engine tries them, so its head is the match that Python
  reports), and \<open>re_search\<close>, \<open>re_match\<close>, \<open>re_fullmatch\<close>, \<open>re_finditer\<close>,
  \<open>re_sub\<close> and \<open>re_split\<close> are the library functions.

  A string literal of the logic cannot hold a backslash, so in the patterns of this
  development the escape character is the per cent sign: the pattern \<open>%bsudo%b\<close> is the
  one the code writes with backslashes, and \<open>%%\<close> is a literal per cent sign.  Apart from that the
  patterns are the source's, character by character; an escaped backslash is written \<open>%&\<close>.
\<close>

subsection \<open>Patterns and states\<close>

datatype citem =
    CLit char | CRange char char
  | CDigit | CNDigit | CSpace | CNSpace | CWord | CNWord

datatype rx =
    REps
  | RSet bool "citem list"
  | RDot
  | RSeq rx rx
  | RAlt rx rx
  | RRep rx nat "nat option" bool
  | RGrp nat rx
  | RBack nat
  | RBol | REol | REndZ | RWordB | RNWordB
  | RAhead bool rx
  | RBehind bool nat rx

text \<open>A state of the matcher: the text before the position (reversed), the text after it, and
  the groups captured so far.\<close>

type_synonym mst = "str \<times> str \<times> (nat \<times> str) list"

record regex =
  rg_rx :: rx
  rg_ic :: bool
  rg_ml :: bool

fun item_has :: "citem \<Rightarrow> char \<Rightarrow> bool" where
  "item_has (CLit d) c \<longleftrightarrow> c = d"
| "item_has (CRange l h) c \<longleftrightarrow> l \<le> c \<and> c \<le> h"
| "item_has CDigit c \<longleftrightarrow> is_digit c"
| "item_has CNDigit c \<longleftrightarrow> \<not> is_digit c"
| "item_has CSpace c \<longleftrightarrow> is_space c"
| "item_has CNSpace c \<longleftrightarrow> \<not> is_space c"
| "item_has CWord c \<longleftrightarrow> is_word c"
| "item_has CNWord c \<longleftrightarrow> \<not> is_word c"

text \<open>With \<open>IGNORECASE\<close> a character stands for its lower- and upper-case forms.\<close>

definition set_has :: "bool \<Rightarrow> bool \<Rightarrow> citem list \<Rightarrow> char \<Rightarrow> bool" where
  "set_has ic neg is c \<longleftrightarrow> neg \<noteq>
     (if ic then list_ex (\<lambda>i. item_has i (to_lower c)) is \<or> list_ex (\<lambda>i. item_has i (to_upper c)) is
      else list_ex (\<lambda>i. item_has i c) is)"

fun word_at :: "str \<Rightarrow> bool" where
  "word_at [] = False"
| "word_at (c # cs) = is_word c"

definition same_text :: "bool \<Rightarrow> str \<Rightarrow> str \<Rightarrow> bool" where
  "same_text ic a b \<longleftrightarrow> (if ic then str_lower a = str_lower b else a = b)"

subsection \<open>The matcher\<close>

text \<open>
  The optional rounds of a repetition: every round must consume text, so the text that is
  left when they begin bounds their number; it is passed as the fuel of the recursion.
\<close>

fun rep_opt :: "(mst \<Rightarrow> mst list) \<Rightarrow> str \<Rightarrow> nat option \<Rightarrow> bool \<Rightarrow> mst \<Rightarrow> mst list" where
  "rep_opt f [] hi g st = [st]"
| "rep_opt f (_ # fl) hi g st =
     (if hi = Some 0 then [st]
      else (let more = concat (map (rep_opt f fl (map_option (\<lambda>n. n - 1) hi) g)
                                   (filter (\<lambda>st'. fst (snd st') \<noteq> fst (snd st)) (f st)))
            in if g then more @ [st] else st # more))"

fun rep_req :: "(mst \<Rightarrow> mst list) \<Rightarrow> nat \<Rightarrow> mst \<Rightarrow> mst list" where
  "rep_req f 0 st = [st]"
| "rep_req f (Suc n) st = concat (map (rep_req f n) (f st))"

definition rep_all :: "(mst \<Rightarrow> mst list) \<Rightarrow> nat \<Rightarrow> nat option \<Rightarrow> bool \<Rightarrow> mst \<Rightarrow> mst list" where
  "rep_all f lo hi g st =
     concat (map (\<lambda>st'. rep_opt f (fst (snd st')) (map_option (\<lambda>n. n - lo) hi) g st') (rep_req f lo st))"

primrec rx_ends :: "bool \<Rightarrow> bool \<Rightarrow> rx \<Rightarrow> mst \<Rightarrow> mst list" where
  "rx_ends ic ml REps st = [st]"
| "rx_ends ic ml (RSet neg is) st =
     (case st of (b, r, cp) \<Rightarrow> (case r of [] \<Rightarrow> [] | c # cs \<Rightarrow> if set_has ic neg is c then [(c # b, cs, cp)] else []))"
| "rx_ends ic ml RDot st =
     (case st of (b, r, cp) \<Rightarrow> (case r of [] \<Rightarrow> [] | c # cs \<Rightarrow> if c \<noteq> nl then [(c # b, cs, cp)] else []))"
| "rx_ends ic ml (RSeq p q) st = concat (map (rx_ends ic ml q) (rx_ends ic ml p st))"
| "rx_ends ic ml (RAlt p q) st = rx_ends ic ml p st @ rx_ends ic ml q st"
| "rx_ends ic ml (RRep p lo hi g) st = rep_all (rx_ends ic ml p) lo hi g st"
| "rx_ends ic ml (RGrp n p) st =
     map (\<lambda>(b', r', cp'). (b', r', (n, take (length (fst (snd st)) - length r') (fst (snd st))) # cp'))
         (rx_ends ic ml p st)"
| "rx_ends ic ml (RBack n) st =
     (case st of (b, r, cp) \<Rightarrow> (case map_of cp n of None \<Rightarrow> []
        | Some t \<Rightarrow> if length t \<le> length r \<and> same_text ic (take (length t) r) t
                    then [(rev (take (length t) r) @ b, drop (length t) r, cp)] else []))"
| "rx_ends ic ml RBol st =
     (case st of (b, r, cp) \<Rightarrow> if b = [] \<or> (ml \<and> hd b = nl) then [st] else [])"
| "rx_ends ic ml REol st =
     (case st of (b, r, cp) \<Rightarrow> if r = [] \<or> r = [nl] \<or> (ml \<and> hd r = nl) then [st] else [])"
| "rx_ends ic ml REndZ st = (case st of (b, r, cp) \<Rightarrow> if r = [] then [st] else [])"
| "rx_ends ic ml RWordB st = (case st of (b, r, cp) \<Rightarrow> if word_at b \<noteq> word_at r then [st] else [])"
| "rx_ends ic ml RNWordB st = (case st of (b, r, cp) \<Rightarrow> if word_at b = word_at r then [st] else [])"
| "rx_ends ic ml (RAhead neg p) st =
     (case st of (b, r, cp) \<Rightarrow> (case rx_ends ic ml p st of
         [] \<Rightarrow> if neg then [st] else []
       | (b', r', cp') # _ \<Rightarrow> if neg then [] else [(b, r, cp')]))"
| "rx_ends ic ml (RBehind neg w p) st =
     (case st of (b, r, cp) \<Rightarrow>
       (if length b < w then (if neg then [st] else [])
        else (case rx_ends ic ml p (drop w b, rev (take w b) @ r, cp) of
                [] \<Rightarrow> if neg then [st] else []
              | _ # _ \<Rightarrow> if neg then [] else [st])))"

subsection \<open>Reading a pattern\<close>

fun mk_seq :: "rx \<Rightarrow> rx \<Rightarrow> rx" where
  "mk_seq p REps = p"
| "mk_seq p q = RSeq p q"

text \<open>The width of a look-behind body (Python accepts only fixed widths).\<close>

fun rx_width :: "rx \<Rightarrow> nat option" where
  "rx_width REps = Some 0"
| "rx_width (RSet neg is) = Some 1"
| "rx_width RDot = Some 1"
| "rx_width (RSeq p q) = (case (rx_width p, rx_width q) of (Some a, Some b) \<Rightarrow> Some (a + b) | _ \<Rightarrow> None)"
| "rx_width (RAlt p q) = (case (rx_width p, rx_width q) of (Some a, Some b) \<Rightarrow> if a = b then Some a else None | _ \<Rightarrow> None)"
| "rx_width (RRep p lo hi g) = (case rx_width p of Some a \<Rightarrow> if hi = Some lo then Some (a * lo) else None | None \<Rightarrow> None)"
| "rx_width (RGrp n p) = rx_width p"
| "rx_width (RBack n) = None"
| "rx_width (RAhead neg p) = Some 0"
| "rx_width (RBehind neg w p) = Some 0"
| "rx_width RBol = Some 0" | "rx_width REol = Some 0" | "rx_width REndZ = Some 0"
| "rx_width RWordB = Some 0" | "rx_width RNWordB = Some 0"

text \<open>An escape that stands for a class or for one character.\<close>

definition esc_item :: "char \<Rightarrow> citem" where
  "esc_item c =
     (if c = CHR ''d'' then CDigit else if c = CHR ''D'' then CNDigit
      else if c = CHR ''s'' then CSpace else if c = CHR ''S'' then CNSpace
      else if c = CHR ''w'' then CWord else if c = CHR ''W'' then CNWord
      else if c = CHR ''n'' then CLit nl else if c = CHR ''r'' then CLit cr
      else if c = CHR ''t'' then CLit (CHR 0x09) else CLit c)"

text \<open>The items of a class, up to the closing bracket.  The source's escaped backslash is
  written \<open>%&\<close>.\<close>

definition lit_of :: "char \<Rightarrow> char" where
  "lit_of c = (if c = CHR ''&'' then bslash else c)"

definition class_item :: "char \<Rightarrow> citem" where
  "class_item c = (case esc_item c of CLit d \<Rightarrow> CLit (lit_of d) | i \<Rightarrow> i)"

fun p_class :: "str \<Rightarrow> (citem list \<times> str) option" where
  "p_class [] = None"
| "p_class (c # cs) =
     (if c = CHR '']'' then Some ([], cs)
      else (case cs of [] \<Rightarrow> None
        | d # ds \<Rightarrow>
            if c = CHR ''%'' then map_option (\<lambda>(is, r). (class_item d # is, r)) (p_class ds)
            else if d = CHR ''-'' \<and> ds \<noteq> [] \<and> hd ds \<noteq> CHR '']''
              then map_option (\<lambda>(is, r). (CRange c (hd ds) # is, r)) (p_class (tl ds))
            else map_option (\<lambda>(is, r). (CLit c # is, r)) (p_class (d # ds))))"

fun p_digits :: "nat \<Rightarrow> str \<Rightarrow> nat \<times> str" where
  "p_digits n [] = (n, [])"
| "p_digits n (c # cs) = (if is_digit c then p_digits (10 * n + digit_val c) cs else (n, c # cs))"

text \<open>A quantifier, if one follows: the bounds and the rest of the pattern.\<close>

definition p_braces :: "str \<Rightarrow> (nat \<times> nat option \<times> str) option" where
  "p_braces s =
     (if s = [] \<or> \<not> is_digit (hd s) then None
      else (case p_digits 0 s of (lo, r) \<Rightarrow>
        (case r of [] \<Rightarrow> None
         | c # cs \<Rightarrow>
             if c = CHR ''}'' then Some (lo, Some lo, cs)
             else if c = CHR '','' \<and> cs \<noteq> [] then
               (if hd cs = CHR ''}'' then Some (lo, None, tl cs)
                else if is_digit (hd cs) then
                  (case p_digits 0 cs of (hi, r') \<Rightarrow>
                     if r' \<noteq> [] \<and> hd r' = CHR ''}'' then Some (lo, Some hi, tl r') else None)
                else None)
             else None)))"

definition p_quant :: "str \<Rightarrow> (nat \<times> nat option \<times> str) option" where
  "p_quant s = (case s of [] \<Rightarrow> None
     | c # cs \<Rightarrow> if c = CHR ''*'' then Some (0, None, cs)
                 else if c = CHR ''+'' then Some (1, None, cs)
                 else if c = CHR ''?'' then Some (0, Some 1, cs)
                 else if c = CHR ''{'' then p_braces cs else None)"

definition with_quant :: "rx \<Rightarrow> str \<Rightarrow> rx \<times> str" where
  "with_quant p s = (case p_quant s of None \<Rightarrow> (p, s)
     | Some (lo, hi, r) \<Rightarrow>
         if r \<noteq> [] \<and> hd r = CHR ''?'' then (RRep p lo hi False, tl r) else (RRep p lo hi True, r))"

text \<open>The kinds of group, told apart by what follows the opening parenthesis.\<close>

datatype gkind = GPlain | GCap | GNamed str | GRef str | GAhead bool | GBehind bool

definition p_gkind :: "str \<Rightarrow> (gkind \<times> str) option" where
  "p_gkind s =
     (if prefix ''?:'' s then Some (GPlain, drop 2 s)
      else if prefix ''?='' s then Some (GAhead False, drop 2 s)
      else if prefix ''?!'' s then Some (GAhead True, drop 2 s)
      else if prefix ''?<='' s then Some (GBehind False, drop 3 s)
      else if prefix ''?<!'' s then Some (GBehind True, drop 3 s)
      else if prefix ''?P<'' s then
        (case split_once (CHR ''>'') (drop 3 s) of None \<Rightarrow> None | Some (n, r) \<Rightarrow> Some (GNamed n, r))
      else if prefix ''?P='' s then
        (case split_once (CHR '')'') (drop 3 s) of None \<Rightarrow> None | Some (n, r) \<Rightarrow> Some (GRef n, r))
      else if prefix ''?'' s then None
      else Some (GCap, s))"

definition close_group :: "gkind \<Rightarrow> nat \<Rightarrow> rx \<Rightarrow> rx option" where
  "close_group k g p = (case k of
      GPlain \<Rightarrow> Some p | GCap \<Rightarrow> Some (RGrp g p) | GNamed n \<Rightarrow> Some (RGrp g p)
    | GRef n \<Rightarrow> None | GAhead b \<Rightarrow> Some (RAhead b p)
    | GBehind b \<Rightarrow> map_option (\<lambda>w. RBehind b w p) (rx_width p))"

text \<open>An atom that is not a group: a character, a class, an anchor or an escape.\<close>

definition p_escape :: "char \<Rightarrow> rx" where
  "p_escape c =
     (if c = CHR ''b'' then RWordB else if c = CHR ''B'' then RNWordB
      else if c = CHR ''Z'' then REndZ
      else if c = CHR ''&'' then RSet False [CLit bslash]
      else if is_digit c then RBack (digit_val c)
      else RSet False [esc_item c])"

definition p_simple :: "str \<Rightarrow> (rx \<times> str) option" where
  "p_simple s = (case s of [] \<Rightarrow> None
     | c # cs \<Rightarrow>
         if c = CHR ''%'' then (case cs of [] \<Rightarrow> None | d # ds \<Rightarrow> Some (p_escape d, ds))
         else if c = CHR ''['' then
           (if cs \<noteq> [] \<and> hd cs = CHR ''^''
            then map_option (\<lambda>(is, r). (RSet True is, r)) (p_class (tl cs))
            else map_option (\<lambda>(is, r). (RSet False is, r)) (p_class cs))
         else if c = CHR ''.'' then Some (RDot, cs)
         else if c = CHR ''^'' then Some (RBol, cs)
         else if c = CHR ''$'' then Some (REol, cs)
         else if c \<in> set ''*+?'' then None
         else Some (RSet False [CLit c], cs))"

text \<open>
  Recursive descent over alternatives, sequences and groups.  The fuel bounds the number of
  nested and consecutive calls; twice the length of the pattern is enough.  \<open>g\<close> is the number
  of the next capturing group and \<open>ns\<close> the named groups.
\<close>

type_synonym pctx = "nat \<times> (str \<times> nat) list"

fun p_alt :: "nat \<Rightarrow> pctx \<Rightarrow> str \<Rightarrow> (rx \<times> str \<times> pctx) option"
and p_seq :: "nat \<Rightarrow> pctx \<Rightarrow> str \<Rightarrow> (rx \<times> str \<times> pctx) option"
where
  "p_alt 0 cx s = None"
| "p_alt (Suc n) cx s =
     (case p_seq n cx s of None \<Rightarrow> None
      | Some (p, r, cx') \<Rightarrow>
          if r \<noteq> [] \<and> hd r = CHR ''|''
          then (case p_alt n cx' (tl r) of None \<Rightarrow> None | Some (q, r', cx'') \<Rightarrow> Some (RAlt p q, r', cx''))
          else Some (p, r, cx'))"
| "p_seq 0 cx s = None"
| "p_seq (Suc n) cx s =
     (if s = [] \<or> hd s = CHR ''|'' \<or> hd s = CHR '')'' then Some (REps, s, cx)
      else (case (if hd s = CHR ''('' then
                (case p_gkind (tl s) of None \<Rightarrow> None
                 | Some (GRef nm, r) \<Rightarrow>
                     (case map_of (snd cx) nm of None \<Rightarrow> None | Some i \<Rightarrow> Some (RBack i, r, cx))
                 | Some (k, r) \<Rightarrow>
                     (let cx1 = (case k of GCap \<Rightarrow> (Suc (fst cx), snd cx)
                                  | GNamed nm \<Rightarrow> (Suc (fst cx), (nm, fst cx) # snd cx) | _ \<Rightarrow> cx)
                      in (case p_alt n cx1 r of None \<Rightarrow> None
                          | Some (p, r', cx2) \<Rightarrow>
                              if r' \<noteq> [] \<and> hd r' = CHR '')''
                              then map_option (\<lambda>q. (q, tl r', cx2)) (close_group k (fst cx) p) else None)))
              else map_option (\<lambda>(p, r). (p, r, cx)) (p_simple s))
            of None \<Rightarrow> None
             | Some (p, r, cx') \<Rightarrow>
                 (case with_quant p r of (p', r') \<Rightarrow>
                    (case p_seq n cx' r' of None \<Rightarrow> None
                     | Some (q, r'', cx'') \<Rightarrow> Some (mk_seq p' q, r'', cx'')))))"

definition rx_parse :: "str \<Rightarrow> rx option" where
  "rx_parse s = (case p_alt (2 * length s + 2) (1, []) s of
     Some (p, [], cx) \<Rightarrow> Some p | _ \<Rightarrow> None)"

text \<open>\<open>re.VERBOSE\<close>: white space and comments outside classes do not count.\<close>

fun strip_verbose :: "bool \<Rightarrow> str \<Rightarrow> str" where
  "strip_verbose k [] = []"
| "strip_verbose k [c] = (if \<not> k \<and> is_space c then [] else [c])"
| "strip_verbose k (c # d # cs) =
     (if c = CHR ''%'' then c # d # strip_verbose k cs
      else if k then c # strip_verbose (c \<noteq> CHR '']'') (d # cs)
      else if is_space c then strip_verbose False (d # cs)
      else c # strip_verbose (c = CHR ''['') (d # cs))"

text \<open>
  Compilation with the flags used by the program.  Every constant pattern of the program
  parses (the matcher would see \<open>RSet False []\<close>, which matches nothing, in place of a
  malformed pattern, where Python raises at import time).
\<close>

definition rx_or_fail :: "str \<Rightarrow> rx" where
  "rx_or_fail s = (case rx_parse s of Some p \<Rightarrow> p | None \<Rightarrow> RSet False [])"

definition re_c :: "str \<Rightarrow> regex" where
  "re_c s = \<lparr>rg_rx = rx_or_fail s, rg_ic = False, rg_ml = False\<rparr>"

definition re_ci :: "str \<Rightarrow> regex" where
  "re_ci s = \<lparr>rg_rx = rx_or_fail s, rg_ic = True, rg_ml = False\<rparr>"

definition re_cm :: "str \<Rightarrow> regex" where
  "re_cm s = \<lparr>rg_rx = rx_or_fail s, rg_ic = False, rg_ml = True\<rparr>"

definition re_cvi :: "str \<Rightarrow> regex" where
  "re_cvi s = \<lparr>rg_rx = rx_or_fail (strip_verbose False s), rg_ic = True, rg_ml = False\<rparr>"

text \<open>\<open>re.escape\<close>, for the characters that occur in patterns built at run time.\<close>

definition re_escape :: "str \<Rightarrow> str" where
  "re_escape s = concat (map (\<lambda>c. if is_word c then [c] else if c = bslash then ''%&'' else [CHR ''%'', c]) s)"

subsection \<open>Library functions\<close>

record mtch =
  m_pre :: str
  m_text :: str
  m_post :: str
  m_caps :: "(nat \<times> str) list"

text \<open>\<open>m_pre\<close> is the text before the match, in reading order.\<close>

definition m_start :: "mtch \<Rightarrow> nat" where
  "m_start m = length (m_pre m)"

definition m_end :: "mtch \<Rightarrow> nat" where
  "m_end m = length (m_pre m) + length (m_text m)"

definition m_group :: "mtch \<Rightarrow> nat \<Rightarrow> str option" where
  "m_group m n = (if n = 0 then Some (m_text m) else map_of (m_caps m) n)"

definition mk_mtch :: "str \<Rightarrow> str \<Rightarrow> mst \<Rightarrow> mtch" where
  "mk_mtch b r st = (case st of (b', r', cp) \<Rightarrow>
     \<lparr>m_pre = rev b, m_text = take (length r - length r') r, m_post = r', m_caps = cp\<rparr>)"

definition rx_at :: "regex \<Rightarrow> str \<Rightarrow> str \<Rightarrow> mst list" where
  "rx_at p b r = rx_ends (rg_ic p) (rg_ml p) (rg_rx p) (b, r, [])"

text \<open>A search from a position; \<open>adv\<close> asks that a match at the first position is not empty.\<close>

fun search_from :: "regex \<Rightarrow> bool \<Rightarrow> str \<Rightarrow> str \<Rightarrow> mtch option" where
  "search_from p adv b r =
     (case (if adv then filter (\<lambda>st. fst (snd st) \<noteq> r) (rx_at p b r) else rx_at p b r) of
        st # _ \<Rightarrow> Some (mk_mtch b r st)
      | [] \<Rightarrow> (case r of [] \<Rightarrow> None | c # cs \<Rightarrow> search_from p False (c # b) cs))"

declare search_from.simps [simp del]

definition re_search :: "regex \<Rightarrow> str \<Rightarrow> mtch option" where
  "re_search p s = search_from p False [] s"

definition re_found :: "regex \<Rightarrow> str \<Rightarrow> bool" where
  "re_found p s \<longleftrightarrow> re_search p s \<noteq> None"

definition re_match :: "regex \<Rightarrow> str \<Rightarrow> mtch option" where
  "re_match p s = (case rx_at p [] s of [] \<Rightarrow> None | st # _ \<Rightarrow> Some (mk_mtch [] s st))"

definition re_fullmatch :: "regex \<Rightarrow> str \<Rightarrow> mtch option" where
  "re_fullmatch p s = (case filter (\<lambda>st. fst (snd st) = []) (rx_at p [] s) of
     [] \<Rightarrow> None | st # _ \<Rightarrow> Some (mk_mtch [] s st))"

definition re_full :: "regex \<Rightarrow> str \<Rightarrow> bool" where
  "re_full p s \<longleftrightarrow> re_fullmatch p s \<noteq> None"

definition re_matches :: "regex \<Rightarrow> str \<Rightarrow> bool" where
  "re_matches p s \<longleftrightarrow> re_match p s \<noteq> None"

subsection \<open>The matcher only splits its text\<close>

text \<open>
  \<open>reaches st st'\<close>: the state \<open>st'\<close> lies further on in the same text.  Every way to match a
  pattern leads to such a state; this is what makes the iteration over all matches stop.
\<close>

definition reaches :: "mst \<Rightarrow> mst \<Rightarrow> bool" where
  "reaches st st' \<longleftrightarrow> (\<exists>t. fst (snd st) = t @ fst (snd st') \<and> fst st' = rev t @ fst st)"

lemma reaches_refl [simp, intro]: "reaches st st"
  by (simp add: reaches_def)

lemma reaches_trans: "reaches a b \<Longrightarrow> reaches b c \<Longrightarrow> reaches a c"
  by (auto simp: reaches_def)

lemma reaches_caps [simp]: "reaches (b, r, cp) (b, r, cp')"
  by (simp add: reaches_def)

lemma reaches_step [simp]: "reaches (b, c # cs, cp) (c # b, cs, cp')"
  by (simp add: reaches_def)

lemma reaches_drop: "reaches (b, r, cp) (rev (take n r) @ b, drop n r, cp')"
  unfolding reaches_def by (rule exI [of _ "take n r"]) simp

lemma rep_opt_reaches:
  assumes f: "\<And>st st'. st' \<in> set (f st) \<Longrightarrow> reaches st st'"
  shows "st' \<in> set (rep_opt f fl hi g st) \<Longrightarrow> reaches st st'"
proof (induction fl arbitrary: hi st)
  case Nil
  then show ?case by simp
next
  case (Cons x fl)
  show ?case
  proof (cases "st' = st")
    case True
    then show ?thesis by simp
  next
    case False
    with Cons.prems obtain st1 where "st1 \<in> set (f st)"
      and "st' \<in> set (rep_opt f fl (map_option (\<lambda>n. n - 1) hi) g st1)"
      by (auto simp: Let_def split: if_splits)
    with Cons.IH f show ?thesis by (blast intro: reaches_trans)
  qed
qed

lemma rep_req_reaches:
  assumes "\<And>st st'. st' \<in> set (f st) \<Longrightarrow> reaches st st'"
  shows "st' \<in> set (rep_req f n st) \<Longrightarrow> reaches st st'"
  by (induction n arbitrary: st) (auto dest: assms intro: reaches_trans)

lemma rep_all_reaches:
  assumes "\<And>st st'. st' \<in> set (f st) \<Longrightarrow> reaches st st'"
    and "st' \<in> set (rep_all f lo hi g st)"
  shows "reaches st st'"
proof -
  from assms(2) obtain st1 where "st1 \<in> set (rep_req f lo st)"
    and "st' \<in> set (rep_opt f (fst (snd st1)) (map_option (\<lambda>n. n - lo) hi) g st1)"
    by (auto simp: rep_all_def)
  with rep_req_reaches [OF assms(1)] rep_opt_reaches [OF assms(1)] show ?thesis
    by (blast intro: reaches_trans)
qed

lemma rx_ends_reaches: "st' \<in> set (rx_ends ic ml p st) \<Longrightarrow> reaches st st'"
proof (induction p arbitrary: st st')
  case (RSet neg "is")
  then show ?case by (auto split: prod.splits list.splits if_splits)
next
  case RDot
  then show ?case by (auto split: prod.splits list.splits if_splits)
next
  case (RSeq p q)
  from RSeq.prems obtain st1 where "st1 \<in> set (rx_ends ic ml p st)"
    and "st' \<in> set (rx_ends ic ml q st1)" by (auto simp del: split_paired_All)
  with RSeq.IH show ?case by (blast intro: reaches_trans)
next
  case (RAlt p q)
  from RAlt.prems have "st' \<in> set (rx_ends ic ml p st) \<or> st' \<in> set (rx_ends ic ml q st)" by simp
  with RAlt.IH show ?case by blast
next
  case (RRep p lo hi g)
  from RRep.prems have "st' \<in> set (rep_all (rx_ends ic ml p) lo hi g st)" by simp
  with RRep.IH show ?case by (blast intro: rep_all_reaches)
next
  case (RGrp n p)
  from RGrp.prems obtain st1 where "st1 \<in> set (rx_ends ic ml p st)"
    and "fst st' = fst st1" and "fst (snd st') = fst (snd st1)"
    by (auto simp del: split_paired_All)
  with RGrp.IH show ?case by (simp add: reaches_def)
next
  case (RBack n)
  then show ?case by (auto split: prod.splits option.splits if_splits intro: reaches_drop)
next
  case (RAhead neg p)
  obtain b r cp where "st = (b, r, cp)" by (cases st) auto
  with RAhead.prems show ?case
    by (cases "rx_ends ic ml p (b, r, cp)") (auto split: if_splits)
next
  case (RBehind neg w p)
  obtain b r cp where "st = (b, r, cp)" by (cases st) auto
  with RBehind.prems show ?case
    by (cases "rx_ends ic ml p (drop w b, rev (take w b) @ r, cp)") (auto split: if_splits)
qed (auto split: prod.splits if_splits)

lemma rx_at_suffix:
  "(b', r', cp') \<in> set (rx_at p b r) \<Longrightarrow> \<exists>t. r = t @ r' \<and> b' = rev t @ b"
  unfolding rx_at_def by (auto dest: rx_ends_reaches simp: reaches_def)

text \<open>A match is a split of the text into what precedes it, the match and what follows it.\<close>

lemma mk_mtch_parts:
  assumes "(b', r', cp') \<in> set (rx_at p b r)"
  shows "m_pre (mk_mtch b r (b', r', cp')) @ m_text (mk_mtch b r (b', r', cp'))
           @ m_post (mk_mtch b r (b', r', cp')) = rev b @ r"
  using rx_at_suffix [OF assms] by (auto simp: mk_mtch_def)

lemma search_from_parts:
  "search_from p adv b r = Some m \<Longrightarrow> m_pre m @ m_text m @ m_post m = rev b @ r"
proof (induction p adv b r rule: search_from.induct)
  case (1 p adv b r)
  let ?xs = "if adv then filter (\<lambda>st. fst (snd st) \<noteq> r) (rx_at p b r) else rx_at p b r"
  show ?case
  proof (cases ?xs)
    case Nil
    with "1.prems" obtain c cs where "r = c # cs" and "search_from p False (c # b) cs = Some m"
      by (auto simp: search_from.simps [of p adv b r] split: list.splits)
    with "1.IH" [OF Nil] show ?thesis by simp
  next
    case (Cons st rest)
    then have "st \<in> set ?xs" by simp
    then have st: "st \<in> set (rx_at p b r)" by (auto split: if_splits)
    from "1.prems" Cons have m: "m = mk_mtch b r st"
      by (simp add: search_from.simps [of p adv b r])
    obtain b' r' cp' where "st = (b', r', cp')" by (cases st) auto
    with st m mk_mtch_parts [of b' r' cp' p b r] show ?thesis by simp
  qed
qed

lemma search_from_pre:
  "search_from p adv b r = Some m \<Longrightarrow> \<exists>t. m_pre m = rev b @ t"
proof (induction p adv b r rule: search_from.induct)
  case (1 p adv b r)
  let ?xs = "if adv then filter (\<lambda>st. fst (snd st) \<noteq> r) (rx_at p b r) else rx_at p b r"
  show ?case
  proof (cases ?xs)
    case Nil
    with "1.prems" obtain c cs where "r = c # cs" and "search_from p False (c # b) cs = Some m"
      by (auto simp: search_from.simps [of p adv b r] split: list.splits)
    with "1.IH" [OF Nil] show ?thesis by auto
  next
    case (Cons st rest)
    with "1.prems" have "m = mk_mtch b r st"
      by (simp add: search_from.simps [of p adv b r])
    then show ?thesis by (simp add: mk_mtch_def split: prod.splits)
  qed
qed

lemma re_search_parts: "re_search p s = Some m \<Longrightarrow> m_pre m @ m_text m @ m_post m = s"
  unfolding re_search_def using search_from_parts by force

lemma re_match_parts:
  assumes "re_match p s = Some m"
  shows "m_pre m = [] \<and> m_text m @ m_post m = s"
proof -
  from assms obtain b' r' cp' zs where at: "rx_at p [] s = (b', r', cp') # zs"
    and m: "m = mk_mtch [] s (b', r', cp')"
    by (auto simp: re_match_def split: list.splits)
  then have "(b', r', cp') \<in> set (rx_at p [] s)" by simp
  from mk_mtch_parts [OF this] m show ?thesis by (simp add: mk_mtch_def)
qed

subsection \<open>All matches, substitution, splitting\<close>

lemma search_from_progress:
  assumes "search_from p adv b r = Some m"
  shows "2 * length (m_post m) + (if m_text m = [] then 0 else 1)
           < 2 * length r + (if adv then 0 else 1 :: nat)"
  using assms
proof (induction p adv b r rule: search_from.induct)
  case (1 p adv b r)
  let ?xs = "if adv then filter (\<lambda>st. fst (snd st) \<noteq> r) (rx_at p b r) else rx_at p b r"
  show ?case
  proof (cases ?xs)
    case Nil
    with "1.prems" obtain c cs where r: "r = c # cs" and "search_from p False (c # b) cs = Some m"
      by (auto simp: search_from.simps [of p adv b r] split: list.splits)
    with "1.IH" [OF Nil r] show ?thesis by (simp split: if_splits)
  next
    case (Cons st rest)
    obtain b' r' cp' where st: "st = (b', r', cp')" by (cases st) auto
    from Cons have "st \<in> set ?xs" by simp
    then have mem: "(b', r', cp') \<in> set (rx_at p b r)" and "adv \<longrightarrow> r' \<noteq> r"
      by (auto simp: st split: if_splits)
    moreover obtain t where "r = t @ r'" using rx_at_suffix [OF mem] by blast
    moreover from "1.prems" Cons have "m = mk_mtch b r (b', r', cp')"
      by (simp add: search_from.simps [of p adv b r] st)
    ultimately show ?thesis by (cases t) (auto simp: mk_mtch_def)
  qed
qed

function finditer_from :: "regex \<Rightarrow> bool \<Rightarrow> str \<Rightarrow> str \<Rightarrow> mtch list" where
  "finditer_from p adv b r =
     (case search_from p adv b r of None \<Rightarrow> []
      | Some m \<Rightarrow> m # finditer_from p (m_text m = []) (rev (m_pre m @ m_text m)) (m_post m))"
  by pat_completeness auto
termination
  by (relation "measure (\<lambda>(p, adv, b, r). 2 * length r + (if adv then 0 else 1))")
     (auto dest!: search_from_progress split: if_splits)

declare finditer_from.simps [simp del]

definition re_finditer :: "regex \<Rightarrow> str \<Rightarrow> mtch list" where
  "re_finditer p s = finditer_from p False [] s"

text \<open>
  The pieces of the text between consecutive matches, each with the match that follows it;
  \<open>k\<close> characters of the text have been consumed.
\<close>

fun gaps :: "nat \<Rightarrow> mtch list \<Rightarrow> (str \<times> mtch) list" where
  "gaps k [] = []"
| "gaps k (m # ms) = (drop k (m_pre m), m) # gaps (m_end m) ms"

definition tail_after :: "mtch list \<Rightarrow> str \<Rightarrow> str" where
  "tail_after ms s = (if ms = [] then s else m_post (last ms))"

definition re_sub :: "regex \<Rightarrow> (mtch \<Rightarrow> str) \<Rightarrow> str \<Rightarrow> str" where
  "re_sub p f s = (let ms = re_finditer p s in
     concat (map (\<lambda>(t, m). t @ f m) (gaps 0 ms)) @ tail_after ms s)"

definition re_split :: "regex \<Rightarrow> str \<Rightarrow> str list" where
  "re_split p s = (let ms = re_finditer p s in map fst (gaps 0 ms) @ [tail_after ms s])"

text \<open>\<open>re.split\<close> with a pattern that is one capturing group: the separators are kept.\<close>

definition re_split_keep :: "regex \<Rightarrow> str \<Rightarrow> str list" where
  "re_split_keep p s = (let ms = re_finditer p s in
     concat (map (\<lambda>(t, m). [t, m_text m]) (gaps 0 ms)) @ [tail_after ms s])"

text \<open>Splitting loses nothing: the kept pieces are the text.\<close>

lemma finditer_rebuild:
  "concat (map (\<lambda>(t, m). t @ m_text m) (gaps (length b) (finditer_from p adv b r)))
     @ (if finditer_from p adv b r = [] then r else m_post (last (finditer_from p adv b r))) = r"
proof (induction p adv b r rule: finditer_from.induct)
  case (1 p adv b r)
  show ?case
  proof (cases "search_from p adv b r")
    case None
    then show ?thesis by (simp add: finditer_from.simps [of p adv b r])
  next
    case (Some m)
    let ?ms = "finditer_from p (m_text m = []) (rev (m_pre m @ m_text m)) (m_post m)"
    have len: "length (rev (m_pre m @ m_text m)) = m_end m"
      by (simp add: m_end_def)
    from search_from_parts [OF Some] search_from_pre [OF Some] obtain t where
      "m_pre m = rev b @ t" and "t @ m_text m @ m_post m = r" by auto
    with Some "1.IH" [OF Some, unfolded len] show ?thesis
      by (cases "?ms = []") (simp_all add: finditer_from.simps [of p adv b r])
  qed
qed

lemma re_split_keep_concat: "concat (re_split_keep p s) = s"
proof -
  have eq: "concat (concat (map (\<lambda>(t, m). [t, m_text m]) gs)) = concat (map (\<lambda>(t, m). t @ m_text m) gs)" for gs
    by (induction gs) auto
  show ?thesis
    using finditer_rebuild [of "[]" p False s]
    by (simp add: re_split_keep_def re_finditer_def Let_def eq tail_after_def)
qed

lemma re_sub_id: "(\<And>m. m \<in> set (re_finditer p s) \<Longrightarrow> f m = m_text m) \<Longrightarrow> re_sub p f s = s"
proof -
  assume f: "\<And>m. m \<in> set (re_finditer p s) \<Longrightarrow> f m = m_text m"
  have in_gaps: "snd ` set (gaps k ms) \<subseteq> set ms" for k ms
    by (induction ms arbitrary: k) auto
  have eq: "map (\<lambda>(t, m). t @ f m) (gaps 0 (re_finditer p s))
      = map (\<lambda>(t, m). t @ m_text m) (gaps 0 (re_finditer p s))"
    using f in_gaps [of 0 "re_finditer p s"] by (auto simp: image_subset_iff)
  show ?thesis
    unfolding re_sub_def Let_def eq using finditer_rebuild [of "[]" p False s]
    by (simp add: re_finditer_def tail_after_def)
qed

lemma re_found_finditer: "re_found p s \<longleftrightarrow> re_finditer p s \<noteq> []"
  by (auto simp: re_found_def re_search_def re_finditer_def finditer_from.simps [of p False "[]" s]
      split: option.splits)

lemma re_sub_absent: "\<not> re_found p s \<Longrightarrow> re_sub p f s = s"
  by (rule re_sub_id) (auto simp: re_found_finditer)

subsection \<open>Runs of a character class\<close>

text \<open>
  Most of the program's separators are one or more characters of a class.  For such a
  pattern the engine finds the first maximal run of the class.
\<close>

definition class_plus :: "citem list \<Rightarrow> regex" where
  "class_plus is = \<lparr>rg_rx = RRep (RSet False is) 1 None True, rg_ic = False, rg_ml = False\<rparr>"

abbreviation in_class :: "citem list \<Rightarrow> char \<Rightarrow> bool" where
  "in_class is \<equiv> set_has False False is"

lemma rep_opt_class:
  "\<exists>zs. rep_opt (rx_ends False False (RSet False is)) r None True (b, r, cp)
        = (rev (takeWhile (in_class is) r) @ b, dropWhile (in_class is) r, cp) # zs"
proof (induction r arbitrary: b)
  case Nil
  show ?case by simp
next
  case (Cons c cs)
  let ?f = "rx_ends False False (RSet False is)"
  have step: "?f (b, c # cs, cp) = (if in_class is c then [(c # b, cs, cp)] else [])" by simp
  show ?case
  proof (cases "in_class is c")
    case True
    from Cons [of "c # b"] obtain zs where
      "rep_opt ?f cs None True (c # b, cs, cp)
         = (rev (takeWhile (in_class is) cs) @ c # b, dropWhile (in_class is) cs, cp) # zs" by blast
    with True step show ?thesis by (simp add: Let_def del: rx_ends.simps)
  next
    case False
    with step show ?thesis by (simp add: Let_def del: rx_ends.simps)
  qed
qed

lemma rx_at_class_plus:
  "rx_at (class_plus is) b [] = []"
  "\<not> in_class is c \<Longrightarrow> rx_at (class_plus is) b (c # cs) = []"
  "in_class is c \<Longrightarrow> \<exists>zs. rx_at (class_plus is) b (c # cs)
     = (rev (takeWhile (in_class is) (c # cs)) @ b, dropWhile (in_class is) (c # cs), []) # zs"
  using rep_opt_class [of "is" cs "c # b" "[]"]
  by (auto simp: rx_at_def class_plus_def rep_all_def)

lemma search_class_plus:
  "search_from (class_plus is) False b r =
     (if list_ex (in_class is) r then
        Some \<lparr>m_pre = rev b @ takeWhile (\<lambda>c. \<not> in_class is c) r,
              m_text = takeWhile (in_class is) (dropWhile (\<lambda>c. \<not> in_class is c) r),
              m_post = dropWhile (in_class is) (dropWhile (\<lambda>c. \<not> in_class is c) r), m_caps = []\<rparr>
      else None)"
proof (induction r arbitrary: b)
  case Nil
  show ?case by (simp add: search_from.simps rx_at_class_plus)
next
  case (Cons c cs)
  show ?case
  proof (cases "in_class is c")
    case True
    have "take (length (c # cs) - length (dropWhile (in_class is) (c # cs))) (c # cs)
        = takeWhile (in_class is) (c # cs)"
      by (metis append_eq_conv_conj length_append add_diff_cancel_right' takeWhile_dropWhile_id)
    with True rx_at_class_plus(3) [OF True, of b cs] show ?thesis
      by (auto simp: search_from.simps [of _ _ b "c # cs"] mk_mtch_def)
  next
    case False
    with Cons.IH [of "c # b"] show ?thesis
      by (simp add: search_from.simps [of _ _ b "c # cs"] rx_at_class_plus)
  qed
qed

lemma finditer_class_pieces:
  assumes "b = rev (take (length b) s)" and "r = drop (length b) s"
  shows "\<forall>(t, m) \<in> set (gaps (length b) (finditer_from (class_plus is) False b r)). list_all (\<lambda>c. \<not> in_class is c) t"
    and "list_all (\<lambda>c. \<not> in_class is c) (tail_after (finditer_from (class_plus is) False b r) r)"
proof -
  have both: "(\<forall>(t, m) \<in> set (gaps (length b) (finditer_from (class_plus is) False b r)). list_all (\<lambda>c. \<not> in_class is c) t)
      \<and> list_all (\<lambda>c. \<not> in_class is c) (tail_after (finditer_from (class_plus is) False b r) r)"
  proof (induction "length r" arbitrary: b r rule: less_induct)
    case less
    let ?p = "class_plus is"
    show ?case
    proof (cases "list_ex (in_class is) r")
      case False
      then show ?thesis
        by (simp add: finditer_from.simps [of ?p False b r] search_class_plus tail_after_def
            list_ex_iff list_all_iff)
    next
      case True
      let ?u = "dropWhile (\<lambda>c. \<not> in_class is c) r"
      let ?m = "\<lparr>m_pre = rev b @ takeWhile (\<lambda>c. \<not> in_class is c) r,
                 m_text = takeWhile (in_class is) ?u, m_post = dropWhile (in_class is) ?u, m_caps = []\<rparr>"
      let ?b = "rev (m_pre ?m @ m_text ?m)" and ?r = "m_post ?m"
      have s: "search_from ?p False b r = Some ?m"
        using True by (simp add: search_class_plus)
      from True have "?u \<noteq> []" and "in_class is (hd ?u)"
        using hd_dropWhile [of "\<lambda>c. \<not> in_class is c" r] by (auto simp: list_ex_iff dropWhile_eq_Nil_conv)
      then have ne: "m_text ?m \<noteq> []" by (cases ?u) auto
      from search_from_progress [OF s] ne have "length ?r < length r" by auto
      from less [OF this, of ?b] have IH:
        "(\<forall>(t, m) \<in> set (gaps (length ?b) (finditer_from ?p False ?b ?r)). list_all (\<lambda>c. \<not> in_class is c) t)"
        "list_all (\<lambda>c. \<not> in_class is c) (tail_after (finditer_from ?p False ?b ?r) ?r)" by auto
      have unf: "finditer_from ?p False b r = ?m # finditer_from ?p False ?b ?r"
        using s ne by (simp add: finditer_from.simps [of ?p False b r])
      have len: "m_end ?m = length ?b" by (simp add: m_end_def)
      have "list_all (\<lambda>c. \<not> in_class is c) (takeWhile (\<lambda>c. \<not> in_class is c) r)"
        by (auto simp: list_all_iff dest: set_takeWhileD)
      with IH unf len show ?thesis
        by (cases "finditer_from ?p False ?b ?r = []") (auto simp: tail_after_def)
    qed
  qed
  from both show "\<forall>(t, m) \<in> set (gaps (length b) (finditer_from (class_plus is) False b r)). list_all (\<lambda>c. \<not> in_class is c) t"
    and "list_all (\<lambda>c. \<not> in_class is c) (tail_after (finditer_from (class_plus is) False b r) r)"
    by auto
qed

lemma re_split_class_plus:
  assumes "t \<in> set (re_split (class_plus is) s)"
  shows "list_all (\<lambda>c. \<not> in_class is c) t"
  using assms finditer_class_pieces [of "[]" s s "is"]
  by (auto simp: re_split_def re_finditer_def Let_def)

lemma re_found_class_plus: "re_found (class_plus is) s \<longleftrightarrow> list_ex (in_class is) s"
  by (simp add: re_found_def re_search_def search_class_plus)

lemma re_split_absent: "\<not> re_found p s \<Longrightarrow> re_split p s = [s]"
  by (simp add: re_found_finditer re_split_def tail_after_def Let_def)

subsection \<open>The texts that a pattern can match\<close>

text \<open>
  \<open>rx_lang\<close> over-approximates the texts a pattern matches: anchors and look-around match the
  empty text and back references any text.  Every match of the engine is in it, so what a
  closed pattern accepts can be read off its language.
\<close>

primrec rx_lang :: "bool \<Rightarrow> rx \<Rightarrow> str \<Rightarrow> bool" where
  "rx_lang ic REps w \<longleftrightarrow> w = []"
| "rx_lang ic (RSet neg is) w \<longleftrightarrow> (\<exists>c. w = [c] \<and> set_has ic neg is c)"
| "rx_lang ic RDot w \<longleftrightarrow> (\<exists>c. w = [c] \<and> c \<noteq> nl)"
| "rx_lang ic (RSeq p q) w \<longleftrightarrow> (\<exists>u v. w = u @ v \<and> rx_lang ic p u \<and> rx_lang ic q v)"
| "rx_lang ic (RAlt p q) w \<longleftrightarrow> rx_lang ic p w \<or> rx_lang ic q w"
| "rx_lang ic (RRep p lo hi g) w \<longleftrightarrow> (\<exists>ws. w = concat ws \<and> lo \<le> length ws \<and> list_all (rx_lang ic p) ws)"
| "rx_lang ic (RGrp n p) w \<longleftrightarrow> rx_lang ic p w"
| "rx_lang ic (RBack n) w \<longleftrightarrow> True"
| "rx_lang ic RBol w \<longleftrightarrow> w = []"
| "rx_lang ic REol w \<longleftrightarrow> w = []"
| "rx_lang ic REndZ w \<longleftrightarrow> w = []"
| "rx_lang ic RWordB w \<longleftrightarrow> w = []"
| "rx_lang ic RNWordB w \<longleftrightarrow> w = []"
| "rx_lang ic (RAhead neg p) w \<longleftrightarrow> w = []"
| "rx_lang ic (RBehind neg k p) w \<longleftrightarrow> w = []"

text \<open>A state reached by consuming a text that satisfies a predicate.\<close>

definition steps :: "(str \<Rightarrow> bool) \<Rightarrow> mst \<Rightarrow> mst \<Rightarrow> bool" where
  "steps P st st' \<longleftrightarrow> (\<exists>w. fst (snd st) = w @ fst (snd st') \<and> fst st' = rev w @ fst st \<and> P w)"

lemma steps_refl: "P [] \<Longrightarrow> steps P st st"
  by (simp add: steps_def)

lemma steps_trans:
  assumes "steps P a b" and "steps Q b c" and "\<And>u v. P u \<Longrightarrow> Q v \<Longrightarrow> R (u @ v)"
  shows "steps R a c"
proof -
  from assms(1) obtain u where u: "fst (snd a) = u @ fst (snd b)" "fst b = rev u @ fst a" "P u"
    by (auto simp: steps_def)
  from assms(2) obtain v where v: "fst (snd b) = v @ fst (snd c)" "fst c = rev v @ fst b" "Q v"
    by (auto simp: steps_def)
  from u v assms(3) [of u v] show ?thesis
    unfolding steps_def by (intro exI [of _ "u @ v"]) simp
qed

lemma steps_mono: "steps P a b \<Longrightarrow> (\<And>w. P w \<Longrightarrow> Q w) \<Longrightarrow> steps Q a b"
  by (auto simp: steps_def)

definition star_of :: "(str \<Rightarrow> bool) \<Rightarrow> nat \<Rightarrow> str \<Rightarrow> bool" where
  "star_of P n w \<longleftrightarrow> (\<exists>ws. w = concat ws \<and> n \<le> length ws \<and> list_all P ws)"

lemma star_of_Nil: "star_of P 0 []"
  unfolding star_of_def by (intro exI [of _ "[]"]) simp

lemma star_of_append: "star_of P n u \<Longrightarrow> star_of P m v \<Longrightarrow> star_of P (n + m) (u @ v)"
  unfolding star_of_def
proof (elim exE conjE)
  fix xs ys
  assume "u = concat xs" "n \<le> length xs" "list_all P xs" "v = concat ys" "m \<le> length ys" "list_all P ys"
  then show "\<exists>ws. u @ v = concat ws \<and> n + m \<le> length ws \<and> list_all P ws"
    by (intro exI [of _ "xs @ ys"]) simp
qed

lemma star_of_single: "P u \<Longrightarrow> star_of P 1 u"
  unfolding star_of_def by (intro exI [of _ "[u]"]) simp

lemma star_of_Cons: "P u \<Longrightarrow> star_of P n v \<Longrightarrow> star_of P (Suc n) (u @ v)"
  using star_of_append [OF star_of_single] by simp

lemma rep_opt_lang:
  assumes f: "\<And>st st'. st' \<in> set (f st) \<Longrightarrow> steps P st st'"
  shows "st' \<in> set (rep_opt f fl hi g st) \<Longrightarrow> steps (star_of P 0) st st'"
proof (induction fl arbitrary: hi st)
  case Nil
  then show ?case by (simp add: steps_refl star_of_Nil)
next
  case (Cons x fl)
  show ?case
  proof (cases "st' = st")
    case True
    then show ?thesis by (simp add: steps_refl star_of_Nil)
  next
    case False
    with Cons.prems obtain st1 where "st1 \<in> set (f st)"
      and "st' \<in> set (rep_opt f fl (map_option (\<lambda>n. n - 1) hi) g st1)"
      by (auto simp: Let_def split: if_splits)
    with Cons.IH f have "steps P st st1" "steps (star_of P 0) st1 st'" by blast+
    then show ?thesis
    proof (rule steps_trans)
      fix u v
      assume "P u" "star_of P 0 v"
      then have "star_of P (Suc 0) (u @ v)" by (rule star_of_Cons)
      then show "star_of P 0 (u @ v)" by (auto simp: star_of_def)
    qed
  qed
qed

lemma rep_req_lang:
  assumes f: "\<And>st st'. st' \<in> set (f st) \<Longrightarrow> steps P st st'"
  shows "st' \<in> set (rep_req f n st) \<Longrightarrow> steps (star_of P n) st st'"
proof (induction n arbitrary: st)
  case 0
  then show ?case by (simp add: steps_refl star_of_Nil)
next
  case (Suc n)
  then obtain st1 where "st1 \<in> set (f st)" and "st' \<in> set (rep_req f n st1)" by auto
  with Suc.IH f have "steps P st st1" "steps (star_of P n) st1 st'" by blast+
  then show ?case by (rule steps_trans) (rule star_of_Cons)
qed

lemma rep_all_lang:
  assumes f: "\<And>st st'. st' \<in> set (f st) \<Longrightarrow> steps P st st'"
    and "st' \<in> set (rep_all f lo hi g st)"
  shows "steps (star_of P lo) st st'"
proof -
  from assms(2) obtain st1 where "st1 \<in> set (rep_req f lo st)"
    and "st' \<in> set (rep_opt f (fst (snd st1)) (map_option (\<lambda>n. n - lo) hi) g st1)"
    by (auto simp: rep_all_def)
  from rep_req_lang [OF f this(1)] rep_opt_lang [OF f this(2)]
  show ?thesis
    by (rule steps_trans) (auto dest: star_of_append)
qed

lemma rx_ends_lang: "st' \<in> set (rx_ends ic ml p st) \<Longrightarrow> steps (rx_lang ic p) st st'"
proof (induction p arbitrary: st st')
  case (RSet neg "is")
  then show ?case by (auto simp: steps_def split: prod.splits list.splits if_splits)
next
  case RDot
  then show ?case by (auto simp: steps_def split: prod.splits list.splits if_splits)
next
  case (RSeq p q)
  from RSeq.prems obtain st1 where "st1 \<in> set (rx_ends ic ml p st)"
    and "st' \<in> set (rx_ends ic ml q st1)" by (auto simp del: split_paired_All)
  with RSeq.IH have "steps (rx_lang ic p) st st1" "steps (rx_lang ic q) st1 st'" by blast+
  then show ?case by (rule steps_trans) auto
next
  case (RAlt p q)
  from RAlt.prems have "st' \<in> set (rx_ends ic ml p st) \<or> st' \<in> set (rx_ends ic ml q st)" by simp
  then show ?case
  proof
    assume "st' \<in> set (rx_ends ic ml p st)"
    from RAlt.IH(1) [OF this] show ?thesis by (rule steps_mono) simp
  next
    assume "st' \<in> set (rx_ends ic ml q st)"
    from RAlt.IH(2) [OF this] show ?thesis by (rule steps_mono) simp
  qed
next
  case (RRep p lo hi g)
  from RRep.prems have "st' \<in> set (rep_all (rx_ends ic ml p) lo hi g st)" by simp
  with RRep.IH have "steps (star_of (rx_lang ic p) lo) st st'" by (blast intro: rep_all_lang)
  then show ?case by (rule steps_mono) (simp add: star_of_def)
next
  case (RGrp n p)
  from RGrp.prems obtain st1 where "st1 \<in> set (rx_ends ic ml p st)"
    and "fst st' = fst st1" and "fst (snd st') = fst (snd st1)"
    by (auto simp del: split_paired_All)
  with RGrp.IH show ?case by (simp add: steps_def)
next
  case (RBack n)
  have "reaches st st'" using RBack.prems by (rule rx_ends_reaches)
  then show ?case by (auto simp: reaches_def steps_def)
next
  case (RAhead neg p)
  obtain b r cp where "st = (b, r, cp)" by (cases st) auto
  with RAhead.prems show ?case
    by (cases "rx_ends ic ml p (b, r, cp)") (auto simp: steps_def split: if_splits)
next
  case (RBehind neg w p)
  obtain b r cp where "st = (b, r, cp)" by (cases st) auto
  with RBehind.prems show ?case
    by (cases "rx_ends ic ml p (drop w b, rev (take w b) @ r, cp)") (auto simp: steps_def split: if_splits)
qed (auto simp: steps_def split: prod.splits if_splits)

text \<open>A pattern that ends with \<open>$\<close> leaves nothing but a final newline.\<close>

fun ends_with_eol :: "rx \<Rightarrow> bool" where
  "ends_with_eol REol = True"
| "ends_with_eol (RSeq p q) = ends_with_eol q"
| "ends_with_eol _ = False"

lemma ends_with_eol_rest:
  "ends_with_eol p \<Longrightarrow> st' \<in> set (rx_ends ic False p st) \<Longrightarrow> fst (snd st') = [] \<or> fst (snd st') = [nl]"
proof (induction p arbitrary: st rule: ends_with_eol.induct)
  case (2 p q)
  then obtain st1 where "st' \<in> set (rx_ends ic False q st1)" by (auto simp del: split_paired_All)
  with 2 show ?case by simp
qed (auto split: prod.splits if_splits)

lemma re_match_lang:
  assumes "re_matches p s"
  obtains w r where "s = w @ r" and "rx_lang (rg_ic p) (rg_rx p) w"
    and "ends_with_eol (rg_rx p) \<and> \<not> rg_ml p \<longrightarrow> r = [] \<or> r = [nl]"
proof -
  from assms obtain st where st: "st \<in> set (rx_ends (rg_ic p) (rg_ml p) (rg_rx p) ([], s, []))"
    by (cases "rx_at p [] s") (auto simp: re_matches_def re_match_def rx_at_def)
  from rx_ends_lang [OF st] obtain w where "s = w @ fst (snd st)" and "rx_lang (rg_ic p) (rg_rx p) w"
    by (auto simp: steps_def)
  moreover have "ends_with_eol (rg_rx p) \<and> \<not> rg_ml p \<longrightarrow> fst (snd st) = [] \<or> fst (snd st) = [nl]"
    using ends_with_eol_rest st by (cases "rg_ml p") auto
  ultimately show ?thesis using that by blast
qed

lemma re_full_lang:
  assumes "re_full p s"
  shows "rx_lang (rg_ic p) (rg_rx p) s"
proof -
  from assms have "filter (\<lambda>st. fst (snd st) = []) (rx_at p [] s) \<noteq> []"
    by (auto simp: re_full_def re_fullmatch_def)
  then obtain st where st: "st \<in> set (rx_ends (rg_ic p) (rg_ml p) (rg_rx p) ([], s, []))" "fst (snd st) = []"
    unfolding filter_empty_conv rx_at_def by blast
  from rx_ends_lang [OF st(1)] st(2) show ?thesis by (auto simp: steps_def)
qed

text \<open>The characters of a text that a pattern without escapes to other groups matches.\<close>

fun rx_over :: "bool \<Rightarrow> (char \<Rightarrow> bool) \<Rightarrow> rx \<Rightarrow> bool" where
  "rx_over ic Q (RSet neg is) \<longleftrightarrow> (\<forall>c. set_has ic neg is c \<longrightarrow> Q c)"
| "rx_over ic Q (RSeq p q) \<longleftrightarrow> rx_over ic Q p \<and> rx_over ic Q q"
| "rx_over ic Q (RAlt p q) \<longleftrightarrow> rx_over ic Q p \<and> rx_over ic Q q"
| "rx_over ic Q (RRep p lo hi g) \<longleftrightarrow> rx_over ic Q p"
| "rx_over ic Q (RGrp n p) \<longleftrightarrow> rx_over ic Q p"
| "rx_over ic Q REps \<longleftrightarrow> True"
| "rx_over ic Q _ \<longleftrightarrow> False"

lemma rx_over_lang: "rx_over ic Q p \<Longrightarrow> rx_lang ic p w \<Longrightarrow> list_all Q w"
proof (induction ic Q p arbitrary: w rule: rx_over.induct)
  case (4 ic Q p lo hi g)
  from "4.prems"(2) obtain ws where "w = concat ws" "list_all (rx_lang ic p) ws" by auto
  with "4.IH" "4.prems"(1) show ?case by (auto simp: list_all_iff)
qed auto

text \<open>One or more characters of a class.\<close>

lemma star_chars: "list_all (\<lambda>w. \<exists>c. w = [c] \<and> Q c) ws \<Longrightarrow> list_all Q (concat ws) \<and> length (concat ws) = length ws"
  by (induction ws) auto

lemma rx_lang_class:
  assumes "rx_lang ic (RRep (RSet neg is) lo hi g) w"
  shows "list_all (set_has ic neg is) w \<and> lo \<le> length w"
proof -
  from assms obtain ws where "w = concat ws" "lo \<le> length ws" "list_all (rx_lang ic (RSet neg is)) ws" by auto
  then have "list_all (\<lambda>w. \<exists>c. w = [c] \<and> set_has ic neg is c) ws" by (simp add: list_all_iff)
  from star_chars [OF this] \<open>w = concat ws\<close> \<open>lo \<le> length ws\<close> show ?thesis by simp
qed

lemma re_found_char:
  "re_found \<lparr>rg_rx = RSet neg is, rg_ic = ic, rg_ml = ml\<rparr> s \<longleftrightarrow> list_ex (set_has ic neg is) s"
proof -
  have "search_from \<lparr>rg_rx = RSet neg is, rg_ic = ic, rg_ml = ml\<rparr> False b s \<noteq> None \<longleftrightarrow> list_ex (set_has ic neg is) s" for b
    by (induction s arbitrary: b) (auto simp: search_from.simps rx_at_def)
  then show ?thesis by (simp add: re_found_def re_search_def)
qed

text \<open>The words of a pattern that is built from literals, sequences and alternatives only.\<close>

fun rx_words :: "rx \<Rightarrow> str list option" where
  "rx_words REps = Some [[]]"
| "rx_words (RSet False [CLit c]) = Some [[c]]"
| "rx_words (RSeq p q) = (case (rx_words p, rx_words q) of
     (Some us, Some vs) \<Rightarrow> Some (concat (map (\<lambda>u. map (\<lambda>v. u @ v) vs) us)) | _ \<Rightarrow> None)"
| "rx_words (RAlt p q) = (case (rx_words p, rx_words q) of (Some us, Some vs) \<Rightarrow> Some (us @ vs) | _ \<Rightarrow> None)"
| "rx_words (RGrp n p) = rx_words p"
| "rx_words _ = None"

lemma rx_words_lang: "rx_words p = Some ws \<Longrightarrow> rx_lang False p w \<Longrightarrow> w \<in> set ws"
proof (induction p arbitrary: ws w rule: rx_words.induct)
  case (2 c)
  then show ?case by (auto simp: set_has_def)
next
  case (3 p q)
  then obtain us vs where *: "rx_words p = Some us" "rx_words q = Some vs"
      "ws = concat (map (\<lambda>u. map (\<lambda>v. u @ v) vs) us)"
    by (auto split: option.splits)
  from "3.prems"(2) obtain u v where "w = u @ v" "rx_lang False p u" "rx_lang False q v" by auto
  with "3.IH" * show ?case by fastforce
next
  case (4 p q)
  then show ?case by (fastforce split: option.splits)
qed auto

end
