(* ===== verification/PyShlex.thy ===== *)
theory PyShlex
  imports Prelude
begin

text \<open>
  The shell lexer of Python's standard library as the program uses it (\<open>posix=True\<close>,
  \<open>whitespace_split=True\<close>): \<open>shlex.split\<close>, \<open>shlex.shlex\<close> with punctuation characters, and
  \<open>shlex.join\<close>; and the two pathlib projections the program applies to tokens.
  The main result is that splitting a joined argument vector gives the vector back.
\<close>

subsection \<open>The lexer\<close>

text \<open>
  The states of \<open>read_token\<close>: between tokens, inside a quotation, after a backslash (with the
  state to return to: a word or a double quotation), inside a word, inside a run of
  punctuation, and inside a comment (\<open>instream.readline()\<close>).
\<close>

datatype lex_state = LWs | LQuote char | LEsc "char option" | LWord | LPunct | LComment

definition is_lex_space :: "char \<Rightarrow> bool" where
  "is_lex_space c \<longleftrightarrow> c = CHR '' '' \<or> c = CHR 0x09 \<or> c = cr \<or> c = nl"

definition is_quote :: "char \<Rightarrow> bool" where
  "is_quote c \<longleftrightarrow> c = squote \<or> c = dquote"

text \<open>The token is emitted when it is not empty or when a quotation was seen in it.\<close>

definition emit :: "bool \<Rightarrow> str \<Rightarrow> str list" where
  "emit q tok = (if tok \<noteq> [] \<or> q then [rev tok] else [])"

text \<open>What a character does between tokens: the next state and the token begun.\<close>

definition lex_start :: "str \<Rightarrow> str \<Rightarrow> char \<Rightarrow> lex_state \<times> str" where
  "lex_start pu cm c =
     (if is_lex_space c then (LWs, [])
      else if c \<in> set cm then (LComment, [])
      else if c = bslash then (LEsc None, [])
      else if c \<in> set pu then (LPunct, [c])
      else if is_quote c then (LQuote c, [])
      else (LWord, [c]))"

fun lex_go :: "str \<Rightarrow> str \<Rightarrow> lex_state \<Rightarrow> bool \<Rightarrow> str \<Rightarrow> str \<Rightarrow> str list option" where
  "lex_go pu cm LWs q tok [] = Some []"
| "lex_go pu cm LComment q tok [] = Some []"
| "lex_go pu cm (LQuote d) q tok [] = None"
| "lex_go pu cm (LEsc e) q tok [] = None"
| "lex_go pu cm LWord q tok [] = Some (emit q tok)"
| "lex_go pu cm LPunct q tok [] = Some (emit q tok)"
| "lex_go pu cm LWs q tok (c # cs) =
     (case lex_start pu cm c of (st, t) \<Rightarrow> lex_go pu cm st False t cs)"
| "lex_go pu cm LComment q tok (c # cs) =
     (if c = nl then lex_go pu cm LWs False [] cs else lex_go pu cm LComment False [] cs)"
| "lex_go pu cm (LQuote d) q tok (c # cs) =
     (if c = d then lex_go pu cm LWord True tok cs
      else if c = bslash \<and> d = dquote then lex_go pu cm (LEsc (Some d)) True tok cs
      else lex_go pu cm (LQuote d) True (c # tok) cs)"
| "lex_go pu cm (LEsc e) q tok (c # cs) =
     (case e of None \<Rightarrow> lex_go pu cm LWord q (c # tok) cs
      | Some d \<Rightarrow> lex_go pu cm (LQuote d) q
                    (if c \<noteq> bslash \<and> c \<noteq> d then c # bslash # tok else c # tok) cs)"
| "lex_go pu cm LWord q tok (c # cs) =
     (if is_lex_space c then map_option ((@) (emit q tok)) (lex_go pu cm LWs False [] cs)
      else if c \<in> set cm then map_option ((@) (emit q tok)) (lex_go pu cm LComment False [] cs)
      else if is_quote c then lex_go pu cm (LQuote c) q tok cs
      else if c = bslash then lex_go pu cm (LEsc None) q tok cs
      else if c \<notin> set pu then lex_go pu cm LWord q (c # tok) cs
      else map_option ((@) (emit q tok)) (lex_go pu cm LPunct False [c] cs))"
| "lex_go pu cm LPunct q tok (c # cs) =
     (if is_lex_space c then map_option ((@) (emit q tok)) (lex_go pu cm LWs False [] cs)
      else if c \<in> set cm then map_option ((@) (emit q tok)) (lex_go pu cm LComment False [] cs)
      else if c \<in> set pu then lex_go pu cm LPunct q (c # tok) cs
      else (case lex_start pu cm c of (st, t) \<Rightarrow>
              map_option ((@) (emit q tok)) (lex_go pu cm st False t cs)))"

text \<open>\<open>None\<close> is the \<open>ValueError\<close> of an open quotation or a dangling backslash.\<close>

definition shlex_split :: "str \<Rightarrow> str list option" where
  "shlex_split s = lex_go [] [] LWs False [] s"

definition shlex_punct :: "str \<Rightarrow> str \<Rightarrow> str \<Rightarrow> str list option" where
  "shlex_punct pu cm s = lex_go pu cm LWs False [] s"

subsection \<open>Quoting\<close>

definition is_shell_safe :: "char \<Rightarrow> bool" where
  "is_shell_safe c \<longleftrightarrow> is_word c \<or> c \<in> set ''@%+=:,./-''"

definition shlex_quote :: "str \<Rightarrow> str" where
  "shlex_quote s =
     (if s = [] then [squote, squote]
      else if list_all is_shell_safe s then s
      else [squote] @ str_replace [squote] [squote, dquote, squote, dquote, squote] s @ [squote])"

definition shlex_join :: "str list \<Rightarrow> str" where
  "shlex_join ts = str_join '' '' (map shlex_quote ts)"

subsection \<open>Path projections\<close>

text \<open>\<open>Path(s).parts\<close> without the root, \<open>Path(s).name\<close> and \<open>os.path.basename(s)\<close>.\<close>

definition path_parts :: "str \<Rightarrow> str list" where
  "path_parts s = filter (\<lambda>p. p \<noteq> [] \<and> p \<noteq> ''.'') (split_char (CHR ''/'') s)"

definition path_name :: "str \<Rightarrow> str" where
  "path_name s = (if path_parts s = [] then [] else last (path_parts s))"

definition basename :: "str \<Rightarrow> str" where
  "basename s = last (split_char (CHR ''/'') s)"

subsection \<open>Splitting a joined vector\<close>

lemma replace_one: "str_replace [d] w s = concat (map (\<lambda>c. if c = d then w else [c]) s)"
proof -
  have "replace_from 0 [d] w s = concat (map (\<lambda>c. if c = d then w else [c]) s)"
    by (induction s) auto
  then show ?thesis by (simp add: str_replace_def)
qed

lemma safe_plain:
  assumes "is_shell_safe c"
  shows "\<not> is_lex_space c" "\<not> is_quote c" "c \<noteq> bslash" "c \<noteq> CHR '' ''" "c \<noteq> squote" "c \<noteq> dquote"
  using assms
  by (auto simp: is_shell_safe_def is_word_def is_lower_def is_upper_def is_digit_def
      is_lex_space_def is_quote_def less_eq_char_def)

lemma lex_quoted_body:
  "lex_go [] [] (LQuote squote) q tok
     (concat (map (\<lambda>c. if c = squote then [squote, dquote, squote, dquote, squote] else [c]) s) @ squote # r)
   = lex_go [] [] LWord True (rev s @ tok) r"
proof (induction s arbitrary: q tok)
  case Nil
  show ?case by simp
next
  case (Cons c cs)
  show ?case
  proof (cases "c = squote")
    case True
    with Cons.IH [of True "squote # tok"] show ?thesis
      by (simp add: is_lex_space_def is_quote_def)
  next
    case False
    with Cons.IH [of True "c # tok"] show ?thesis by simp
  qed
qed

lemma lex_safe_word:
  "list_all is_shell_safe s \<Longrightarrow>
     lex_go [] [] LWord q tok (s @ r) = lex_go [] [] LWord q (rev s @ tok) r"
  by (induction s arbitrary: tok) (auto simp: safe_plain)

lemma lex_quote_word:
  "lex_go [] [] LWs q tok (shlex_quote t @ r) =
     lex_go [] [] LWord (\<not> (t \<noteq> [] \<and> list_all is_shell_safe t)) (rev t) r"
proof (cases "t \<noteq> [] \<and> list_all is_shell_safe t")
  case True
  then obtain c cs where t: "t = c # cs" by (cases t) auto
  with True have c: "is_shell_safe c" and cs: "list_all is_shell_safe cs" by auto
  show ?thesis
    using True lex_safe_word [OF cs, of False "[c]" r]
    by (simp add: shlex_quote_def t lex_start_def safe_plain [OF c])
next
  case False
  have "lex_go [] [] LWs q tok (squote # rest) = lex_go [] [] (LQuote squote) False [] rest" for rest
    by (simp add: lex_start_def is_lex_space_def is_quote_def)
  then show ?thesis
    using False lex_quoted_body [of False "[]" t r]
    by (auto simp: shlex_quote_def replace_one)
qed

lemma emit_quoted [simp]: "emit (t = [] \<or> P) (rev t) = [t]"
  by (auto simp: emit_def)

text \<open>The round trip: \<open>shlex.split(shlex.join(argv)) == argv\<close>.\<close>

lemma shlex_split_join: "shlex_split (shlex_join ts) = Some ts"
proof -
  have "lex_go [] [] LWs q tok (str_join '' '' (map shlex_quote ts)) = Some ts" for q tok
  proof (induction ts arbitrary: q tok)
    case Nil
    show ?case by simp
  next
    case (Cons t ts)
    show ?case
    proof (cases ts)
      case Nil
      then show ?thesis
        using lex_quote_word [of q tok t "[]"] by simp
    next
      case (Cons u us)
      then have "lex_go [] [] LWs q tok (str_join '' '' (map shlex_quote (t # ts)))
          = lex_go [] [] LWs q tok (shlex_quote t @ CHR '' '' # str_join '' '' (map shlex_quote ts))"
        by simp
      also have "\<dots> = map_option ((@) [t]) (lex_go [] [] LWs False [] (str_join '' '' (map shlex_quote ts)))"
        by (simp add: lex_quote_word is_lex_space_def)
      finally show ?thesis using Cons.IH by simp
    qed
  qed
  then show ?thesis by (simp add: shlex_split_def shlex_join_def)
qed

lemma path_name_no_slash: "CHR ''/'' \<notin> set (path_name s)"
proof (cases "path_parts s = []")
  case True
  then show ?thesis by (simp add: path_name_def)
next
  case False
  then have "path_name s \<in> set (path_parts s)" by (simp add: path_name_def)
  then show ?thesis by (auto simp: path_parts_def dest: split_char_no_sep)
qed

end
