(* ===== verification/ShellStructure.thy ===== *)
theory ShellStructure
  imports PyRegex PyShlex
begin

text \<open>
  The shell-structure helpers of \<open>scripts/core/security_evaluator.py\<close>: the view of a command
  in which quoted and escaped data are masked, the splitting at unquoted controls, the
  masking of heredocs and quotations, and the structural and semantic complexity metric
  (INV-16) that gates the unproven auto-approve paths.
\<close>

subsection \<open>The structure view\<close>

text \<open>
  The loop of \<open>_shell_structure_view\<close>: the open quotation, and since its start the original
  characters (reversed), which are restored when the quotation never closes, and their masks.
\<close>

fun view_go :: "char option \<Rightarrow> str \<Rightarrow> str \<Rightarrow> str \<Rightarrow> str" where
  "view_go None raw m [] = []"
| "view_go (Some q) raw m [] = rev raw"
| "view_go None raw m (c # cs) =
     (if c = bslash
      then (case cs of [] \<Rightarrow> [CHR '' ''] | d # ds \<Rightarrow> CHR '' '' # CHR '' '' # view_go None [] [] ds)
      else if c = squote \<or> c = dquote then view_go (Some c) [c] [CHR '' ''] cs
      else c # view_go None [] [] cs)"
| "view_go (Some q) raw m (c # cs) =
     (if c = bslash \<and> q \<noteq> squote
      then (case cs of [] \<Rightarrow> rev (c # raw)
            | d # ds \<Rightarrow> view_go (Some q) (d # c # raw) (CHR '' '' # CHR '' '' # m) ds)
      else if c = q then rev (CHR '' '' # m) @ view_go None [] [] cs
      else view_go (Some q) (c # raw) (CHR '' '' # m) cs)"

definition shell_structure_view :: "str \<Rightarrow> str" where
  "shell_structure_view cmd = view_go None [] [] cmd"

definition CONTROL_RE :: regex where
  "CONTROL_RE = re_c ''[|&;]+''"

text \<open>The segments of the original text between the matches found in the view.\<close>

fun cut_at :: "nat \<Rightarrow> mtch list \<Rightarrow> str \<Rightarrow> str list" where
  "cut_at start [] s = [drop start s]"
| "cut_at start (m # ms) s = take (m_start m - start) (drop start s) # cut_at (m_end m) ms s"

definition split_shell_control_segments :: "str \<Rightarrow> str list" where
  "split_shell_control_segments cmd =
     cut_at 0 (re_finditer CONTROL_RE (shell_structure_view cmd)) cmd"

subsection \<open>Masking heredocs and quotations\<close>

definition COMPLEXITY_CONTROL_RE :: regex where
  "COMPLEXITY_CONTROL_RE = re_c ''[|&;%n%r]+''"

definition COMPLEXITY_REDIR_RE :: regex where
  "COMPLEXITY_REDIR_RE = re_c ''<<<|(?<![<>])[<>]{1,2}(?![<>])''"

text \<open>The groups are \<open>dash\<close> (1), \<open>q\<close> (2) and \<open>delim\<close> (3).\<close>

definition HEREDOC_OPENER_RE :: regex where
  \<open>HEREDOC_OPENER_RE = re_c ''<<(?P<dash>-)?%s*(?P<q>['"]?)(?P<delim>[A-Za-z_][A-Za-z0-9_]*)(?P=q)''\<close>

definition count_subst :: "str \<Rightarrow> int" where
  "count_subst s = str_count ''$('' s - str_count ''$(('' s + str_count [btick] s"

definition heredoc_term :: "mtch \<Rightarrow> regex" where
  "heredoc_term m =
     (let lead = (if m_group m 1 \<noteq> None then ''%t*'' else ''[ %t]*'');
          delim = (case m_group m 3 of None \<Rightarrow> [] | Some d \<Rightarrow> d)
      in re_cm (''^'' @ lead @ re_escape delim @ ''%s*$''))"

fun mask_heredocs_from :: "str \<Rightarrow> nat \<Rightarrow> mtch list \<Rightarrow> str \<times> int" where
  "mask_heredocs_from s cursor [] = (drop cursor s, 0)"
| "mask_heredocs_from s cursor (m # ms) =
     (if m_start m < cursor then mask_heredocs_from s cursor ms
      else (case search_from (heredoc_term m) False (rev (take (m_end m) s)) (drop (m_end m) s) of
          None \<Rightarrow> mask_heredocs_from s cursor ms
        | Some t \<Rightarrow>
            (let quoted = (m_group m 2 = Some [squote] \<or> m_group m 2 = Some [dquote]);
                 body = take (m_start t - m_end m) (drop (m_end m) s);
                 extra = (if quoted then 0 else count_subst body);
                 rest = mask_heredocs_from s (m_end t) ms
             in (take (m_start m - cursor) (drop cursor s) @ ''<<'' @ fst rest, extra + snd rest))))"

definition mask_heredocs :: "str \<Rightarrow> str \<times> int" where
  "mask_heredocs s = mask_heredocs_from s 0 (re_finditer HEREDOC_OPENER_RE s)"

definition QUOTED_REGION_RE :: regex where
  \<open>QUOTED_REGION_RE = re_c (''"(?:[^"%&]|%&.)*"|'[^']*'|%$'(?:[^'%&]|%&.)*'' @ [squote])\<close>

fun mask_quotes_from :: "str \<Rightarrow> nat \<Rightarrow> mtch list \<Rightarrow> str \<times> int" where
  "mask_quotes_from s cursor [] = (drop cursor s, 0)"
| "mask_quotes_from s cursor (m # ms) =
     (if m_start m < cursor then mask_quotes_from s cursor ms
      else (let body = m_text m;
                extra = (if starts_with body [dquote]
                         then count_subst (butlast (tl body)) else 0);
                rest = mask_quotes_from s (m_end m) ms
            in (take (m_start m - cursor) (drop cursor s) @ ''Q'' @ fst rest, extra + snd rest)))"

definition mask_quotes :: "str \<Rightarrow> str \<times> int" where
  "mask_quotes s = mask_quotes_from s 0 (re_finditer QUOTED_REGION_RE s)"

definition normalize_newlines :: "str \<Rightarrow> str" where
  "normalize_newlines s = str_replace [cr] [nl] (str_replace [cr, nl] [nl] s)"

definition isolate_heredocs :: "str \<Rightarrow> str \<times> int" where
  "isolate_heredocs cmd =
     (let s = re_sub (re_c ''>&|&>'') (\<lambda>_. ''>'') (normalize_newlines cmd);
          (masked, extra_heredoc) = mask_heredocs s;
          (masked', extra_quotes) = mask_quotes masked
      in (shell_structure_view masked', extra_heredoc + extra_quotes))"

subsection \<open>The structural score\<close>

definition n_segments_of :: "str \<Rightarrow> int" where
  "n_segments_of s = int (length (filter (\<lambda>seg. strip seg \<noteq> []) (re_split COMPLEXITY_CONTROL_RE s)))"

definition n_redir_of :: "str \<Rightarrow> int" where
  "n_redir_of s = int (length (re_finditer COMPLEXITY_REDIR_RE s))"

definition compute_complexity :: "str \<Rightarrow> int" where
  "compute_complexity cmd =
     (let (s, extra_subst) = isolate_heredocs cmd;
          n_segments = n_segments_of s;
          n_subst = count_subst s + extra_subst;
          n_redir = n_redir_of s
      in n_segments + n_subst + n_redir)"

subsection \<open>The semantic classification of segments\<close>

definition SEM_READ_ONLY_VERBS :: "str list" where
  "SEM_READ_ONLY_VERBS = [''cd'', ''echo'', ''printf'', ''pwd'', ''shasum'', ''true'', ''false'', ''wait'', ''sleep'']"

definition SEM_GIT_READ_ONLY_SUBS :: "str list" where
  "SEM_GIT_READ_ONLY_SUBS = [''status'', ''log'', ''diff'', ''shortlog'', ''show'']"

definition SEM_GIT_VCS_SYNC_SUBS :: "str list" where
  "SEM_GIT_VCS_SYNC_SUBS = [''checkout'', ''commit'', ''fetch'', ''add'', ''stash'']"

definition SEM_MUTATING_VERBS :: "str list" where
  "SEM_MUTATING_VERBS =
     [''mkdir'', ''touch''] @ [''cp'', ''mv'', ''make'', ''kubectl'', ''magick''] @
     [''rsync'', ''scp'', ''kill'', ''pkill'', ''killall''] @
     [''rm'', ''rmdir'', ''chmod'', ''chown'', ''chgrp''] @ [''eval'', ''xargs'', ''for'', ''while'']"

definition SEM_PIPE_TAIL_EXEMPT :: "str list" where
  "SEM_PIPE_TAIL_EXEMPT =
     [''tail'', ''head'', ''grep'', ''rg'', ''sort'', ''uniq'', ''wc'', ''sed'', ''cut'', ''tr'', ''column'']"

definition SUBST_RE :: regex where
  "SUBST_RE = re_c ''%$%(|`''"

definition bare_word :: "str \<Rightarrow> str" where
  "bare_word t = str_lower (strip_chars [dquote, squote] t)"

text \<open>True when the segment is mutating; an unknown first verb is (fail-closed).\<close>

definition classify_semantic_segment :: "str \<Rightarrow> bool \<Rightarrow> bool" where
  "classify_semantic_segment seg0 pipe_tail =
     (let seg = strip seg0 in
      if seg = [] then False
      else if re_found SUBST_RE seg then True
      else (case split_ws seg of [] \<Rightarrow> True
        | t0 # ts \<Rightarrow>
          (let verb = bare_word t0 in
           if verb = ''git'' then
             (let sub = (case ts of [] \<Rightarrow> [] | t1 # _ \<Rightarrow> bare_word t1) in
              if sub \<in> set SEM_GIT_READ_ONLY_SUBS then False
              else if sub \<in> set SEM_GIT_VCS_SYNC_SUBS then False
              else if sub = ''pull'' \<or> sub = ''merge'' then ''--ff-only'' \<notin> set (t0 # ts)
              else True)
           else if verb = ''python3'' \<or> ends_with verb ''/bin/python3'' then
             \<not> (length ts \<ge> 2 \<and> ts ! 0 = ''-m'' \<and> ts ! 1 = ''unittest'')
           else if verb = ''pytest'' \<or> ends_with verb ''/bin/pytest'' then False
           else if verb \<in> set SEM_READ_ONLY_VERBS then False
           else if verb \<in> set SEM_MUTATING_VERBS then True
           else if pipe_tail \<and> verb \<in> set SEM_PIPE_TAIL_EXEMPT then False
           else True)))"

record semantic_complexity =
  structural :: int
  n_segments :: int
  n_substitutions :: int
  n_redirections :: int
  mutating_segments :: "str list"
  has_mutation :: bool

definition strip_fd_redirections :: "str \<Rightarrow> str" where
  "strip_fd_redirections s =
     strip (re_sub (re_c ''%s*&>%s*/dev/null%b'') (\<lambda>_. '' '')
             (re_sub (re_c ''%s+[12]%s*>&[12]%b'') (\<lambda>_. '' '') s))"

text \<open>The loop over the pieces: how many segments, and the mutating ones.\<close>

fun sem_pieces :: "str \<Rightarrow> str list \<Rightarrow> int \<times> str list" where
  "sem_pieces prev [] = (0, [])"
| "sem_pieces prev (p # ps) =
     (if p = [] then sem_pieces prev ps
      else if re_full COMPLEXITY_CONTROL_RE p then sem_pieces p ps
      else (case sem_pieces [] ps of (n, ms) \<Rightarrow>
        (n + 1, if classify_semantic_segment p (ends_with prev ''|'') then strip p # ms else ms)))"

definition compute_semantic_complexity :: "str \<Rightarrow> semantic_complexity" where
  "compute_semantic_complexity cmd =
     (let (s, extra_subst) = isolate_heredocs cmd;
          n_seg_structural = n_segments_of s;
          n_subst = count_subst s + extra_subst;
          n_redir = n_redir_of s;
          stripped = strip_fd_redirections s;
          (n, ms) = sem_pieces [] (re_split_keep COMPLEXITY_CONTROL_RE stripped);
          mutating = (if extra_subst > 0 then ms @ [''(unquoted heredoc substitution)''] else ms)
      in \<lparr>structural = n_seg_structural + n_subst + n_redir,
          n_segments = n, n_substitutions = n_subst, n_redirections = n_redir,
          mutating_segments = mutating, has_mutation = (ms \<noteq> [] \<or> extra_subst > 0)\<rparr>)"

subsection \<open>The view keeps offsets and masks only\<close>

text \<open>A masked text: the same characters, some of them replaced by blanks.\<close>

definition masks :: "str \<Rightarrow> str \<Rightarrow> bool" where
  "masks v s \<longleftrightarrow> list_all2 (\<lambda>x c. x = c \<or> x = CHR '' '') v s"

lemma masks_refl [simp]: "masks s s"
  by (simp add: masks_def list_all2_refl)

lemma masks_append: "masks v s \<Longrightarrow> masks v' s' \<Longrightarrow> masks (v @ v') (s @ s')"
  by (simp add: masks_def list_all2_appendI)

lemma masks_Cons [simp]: "masks (x # v) (c # s) \<longleftrightarrow> (x = c \<or> x = CHR '' '') \<and> masks v s"
  by (simp add: masks_def)

lemma masks_length: "masks v s \<Longrightarrow> length v = length s"
  by (simp add: masks_def list_all2_lengthD)

lemma masks_take: "masks v s \<Longrightarrow> masks (take n v) (take n s)"
  by (simp add: masks_def list_all2_takeI)

lemma masks_drop: "masks v s \<Longrightarrow> masks (drop n v) (drop n s)"
  by (simp add: masks_def list_all2_dropI)

lemma masks_snoc: "masks (rev m) (rev raw) \<Longrightarrow> masks (rev m @ [CHR '' '']) (rev raw @ [c])"
  by (simp add: masks_append)

lemma view_go_masks:
  "masks (rev m) (rev raw) \<Longrightarrow>
     masks (view_go qo raw m s) ((case qo of None \<Rightarrow> [] | Some q \<Rightarrow> rev raw) @ s)"
proof (induction qo raw m s rule: view_go.induct)
  case (3 raw m c cs)
  then show ?case by (cases cs) auto
next
  case (4 q raw m c cs)
  show ?case
  proof (cases "c = bslash \<and> q \<noteq> squote")
    case True
    with 4 masks_append [OF "4.prems", of "[CHR '' '', CHR '' '']"] show ?thesis
      by (cases cs) (auto simp: masks_snoc)
  next
    case False
    with 4 masks_append [OF masks_snoc [OF "4.prems"], of "view_go None [] [] cs" cs c] show ?thesis
      by (auto simp: masks_snoc)
  qed
qed auto

lemma structure_view_masks: "masks (shell_structure_view s) s"
  using view_go_masks [of "[]" "[]" None s] by (simp add: shell_structure_view_def)

lemma structure_view_length [simp]: "length (shell_structure_view s) = length s"
  by (rule masks_length [OF structure_view_masks])

lemma view_go_plain:
  "squote \<notin> set p \<Longrightarrow> dquote \<notin> set p \<Longrightarrow> bslash \<notin> set p \<Longrightarrow>
     view_go None [] [] (p @ s) = p @ view_go None [] [] s"
  by (induction p) auto

lemma view_go_single:
  "squote \<notin> set body \<Longrightarrow>
     view_go (Some squote) raw m (body @ squote # s)
       = rev m @ replicate (Suc (length body)) (CHR '' '') @ view_go None [] [] s"
proof (induction body arbitrary: raw m)
  case Nil
  show ?case by simp
next
  case (Cons c cs)
  then have "c \<noteq> squote" and "squote \<notin> set cs" by auto
  with Cons.IH [of "c # raw" "CHR '' '' # m"] show ?case by simp
qed

lemma view_go_unclosed: "squote \<notin> set s \<Longrightarrow> view_go (Some squote) raw m s = rev raw @ s"
  by (induction s arbitrary: raw m) auto

lemma structure_view_plain:
  "squote \<notin> set s \<Longrightarrow> dquote \<notin> set s \<Longrightarrow> bslash \<notin> set s \<Longrightarrow> shell_structure_view s = s"
  using view_go_plain [of s "[]"] by (simp add: shell_structure_view_def)

lemma structure_view_single_quoted:
  assumes "squote \<notin> set p" "dquote \<notin> set p" "bslash \<notin> set p" "squote \<notin> set body"
  shows "shell_structure_view (p @ [squote] @ body @ [squote] @ s)
    = p @ replicate (length body + 2) (CHR '' '') @ shell_structure_view s"
  using view_go_plain [OF assms(1-3), of "squote # body @ squote # s"] view_go_single [OF assms(4)]
  by (simp add: shell_structure_view_def)

lemma structure_view_unterminated:
  assumes "squote \<notin> set p" "dquote \<notin> set p" "bslash \<notin> set p" "squote \<notin> set body"
  shows "shell_structure_view (p @ [squote] @ body) = p @ [squote] @ body"
  using view_go_plain [OF assms(1-3), of "squote # body"] view_go_unclosed [OF assms(4)]
  by (simp add: shell_structure_view_def)

subsection \<open>Segments contain no unquoted control\<close>

lemma CONTROL_RE_class:
  "CONTROL_RE = class_plus [CLit (CHR ''|''), CLit (CHR ''&''), CLit (CHR '';'')]"
proof -
  have "rx_parse ''[|&;]+''
      = Some (RRep (RSet False [CLit (CHR ''|''), CLit (CHR ''&''), CLit (CHR '';'')]) 1 None True)"
    by code_simp
  then show ?thesis by (simp add: CONTROL_RE_def re_c_def rx_or_fail_def class_plus_def)
qed

definition has_control :: "str \<Rightarrow> bool" where
  "has_control s \<longleftrightarrow> (\<exists>c \<in> set s. c \<in> set ''|&;'')"

text \<open>Cutting the command and splitting its view give pieces of the same lengths.\<close>

lemma cut_at_masks:
  assumes "masks v s"
  shows "list_all2 masks
           (map fst (gaps k ms) @ [drop (if ms = [] then k else m_end (last ms)) v]) (cut_at k ms s)
      \<or> \<not> list_all (\<lambda>m. m_pre m = take (m_start m) v) ms"
proof (induction ms arbitrary: k)
  case Nil
  show ?case using assms by (simp add: masks_drop)
next
  case (Cons m ms)
  have *: "m_pre m = take (m_start m) v \<Longrightarrow> drop k (m_pre m) = take (m_start m - k) (drop k v)"
    by (metis drop_take)
  have "masks (take (m_start m - k) (drop k v)) (take (m_start m - k) (drop k s))"
    by (intro masks_take masks_drop assms)
  with Cons [of "m_end m"] * show ?case by (cases "ms = []") auto
qed

lemma finditer_offsets:
  assumes "rev b @ r = v"
  shows "list_all (\<lambda>m. m_pre m = take (m_start m) v \<and> m_post m = drop (m_end m) v) (finditer_from p adv b r)"
  using assms
proof (induction p adv b r rule: finditer_from.induct)
  case (1 p adv b r)
  show ?case
  proof (cases "search_from p adv b r")
    case None
    then show ?thesis by (simp add: finditer_from.simps [of p adv b r])
  next
    case (Some m)
    from search_from_parts [OF Some] "1.prems" have v: "m_pre m @ m_text m @ m_post m = v" by simp
    with "1.IH" [OF Some] Some show ?thesis
      by (auto simp: finditer_from.simps [of p adv b r] m_start_def m_end_def)
  qed
qed

text \<open>
  Every segment of the splitter is masked to a piece of the structure view that contains no
  control: each control character left in a segment was quoted or escaped.
\<close>

lemma segments_mask_pieces:
  "list_all2 masks (re_split CONTROL_RE (shell_structure_view s)) (split_shell_control_segments s)"
proof -
  let ?v = "shell_structure_view s" and ?ms = "re_finditer CONTROL_RE (shell_structure_view s)"
  have off: "list_all (\<lambda>m. m_pre m = take (m_start m) ?v \<and> m_post m = drop (m_end m) ?v) ?ms"
    unfolding re_finditer_def by (rule finditer_offsets) simp
  then have "list_all (\<lambda>m. m_pre m = take (m_start m) ?v) ?ms"
    by (auto simp: list_all_iff)
  moreover have "drop (if ?ms = [] then 0 else m_end (last ?ms)) ?v = tail_after ?ms ?v"
    using off by (auto simp: tail_after_def list_all_iff)
  ultimately show ?thesis
    using cut_at_masks [OF structure_view_masks, of 0 ?ms s]
    by (simp add: re_split_def split_shell_control_segments_def Let_def)
qed

lemma pieces_no_control: "t \<in> set (re_split CONTROL_RE s) \<Longrightarrow> \<not> has_control t"
  unfolding CONTROL_RE_class
  by (drule re_split_class_plus) (auto simp: has_control_def list_all_iff set_has_def)

subsection \<open>Facts about the score\<close>

lemma compute_complexity_structural:
  "structural (compute_semantic_complexity s) = compute_complexity s"
  by (simp add: compute_semantic_complexity_def compute_complexity_def Let_def split: prod.splits)

lemma has_mutation_iff:
  "has_mutation (compute_semantic_complexity s) \<longleftrightarrow> mutating_segments (compute_semantic_complexity s) \<noteq> []"
  by (simp add: compute_semantic_complexity_def Let_def split: prod.splits)

text \<open>The first verbs that may lead a segment that does not count as mutating.\<close>

definition non_mutating_verb :: "str \<Rightarrow> bool" where
  "non_mutating_verb v \<longleftrightarrow> v = ''git'' \<or> v = ''python3'' \<or> ends_with v ''/bin/python3''
     \<or> v = ''pytest'' \<or> ends_with v ''/bin/pytest''
     \<or> v \<in> set SEM_READ_ONLY_VERBS \<or> v \<in> set SEM_PIPE_TAIL_EXEMPT"

lemma classify_segment_closed:
  assumes "\<not> classify_semantic_segment seg tail" and "strip seg \<noteq> []"
  obtains t ts where "split_ws (strip seg) = t # ts" and "non_mutating_verb (bare_word t)"
    and "\<not> re_found SUBST_RE (strip seg)"
  using assms
  by (cases "split_ws (strip seg)")
     (auto simp: classify_semantic_segment_def non_mutating_verb_def Let_def split: if_splits)

subsection \<open>Properties\<close>

text \<open>
  The structure view keeps every offset: it has the length of the command and differs from
  it only in characters replaced by a blank, so no control character is ever invented.
\<close>

lemma structure_view_sound:
  "length (shell_structure_view s) = length s \<and> masks (shell_structure_view s) s"
  by (simp add: structure_view_masks)

text \<open>
  An unterminated single quotation hides nothing (fail-closed): its text stays visible in the
  view, while the text of a terminated one is blanked out completely.
\<close>

lemma quotation_visibility:
  assumes "squote \<notin> set p" "dquote \<notin> set p" "bslash \<notin> set p" "squote \<notin> set body"
  shows "shell_structure_view (p @ [squote] @ body) = p @ [squote] @ body
    \<and> shell_structure_view (p @ [squote] @ body @ [squote] @ s)
        = p @ replicate (length body + 2) (CHR '' '') @ shell_structure_view s"
  using structure_view_unterminated [OF assms] structure_view_single_quoted [OF assms] by simp

lemma quotation_visibility_witness:
  "shell_structure_view (''a '' @ [squote] @ ''$(b'') = ''a '' @ [squote] @ ''$(b''
    \<and> shell_structure_view (''a '' @ [squote] @ ''$(b'' @ [squote] @ '' c'')
        = ''a '' @ replicate 5 (CHR '' '') @ '' c''"
  using quotation_visibility [of "''a ''" "''$(b''" "'' c''"] structure_view_plain [of "'' c''"]
  by (simp add: numeral_eq_Suc)

text \<open>
  Splitting at controls loses no control: each segment that is returned masks to a piece of
  the structure view without any of the control characters, so a control that is left in a
  segment stood in a quotation or behind a backslash.
\<close>

lemma segments_have_no_live_control:
  "\<exists>pieces. list_all2 masks pieces (split_shell_control_segments s)
    \<and> list_all (\<lambda>t. \<not> has_control t) pieces"
  using segments_mask_pieces pieces_no_control by (metis list_all_iff)

text \<open>
  The semantic metric agrees with the structural score that gates it, and it reports a
  mutation exactly when it lists a mutating segment.
\<close>

lemma semantic_metric_consistent:
  "structural (compute_semantic_complexity s) = compute_complexity s
    \<and> (has_mutation (compute_semantic_complexity s)
        \<longleftrightarrow> mutating_segments (compute_semantic_complexity s) \<noteq> [])"
  by (simp add: compute_complexity_structural has_mutation_iff)

text \<open>
  The semantic classifier is fail-closed: a non-empty segment that does not count as mutating
  contains no substitution and its first word is one of the finitely many verbs listed as safe.
\<close>

lemma classifier_fail_closed:
  assumes "\<not> classify_semantic_segment seg pipe_tail" and "strip seg \<noteq> []"
  shows "\<exists>t ts. split_ws (strip seg) = t # ts \<and> non_mutating_verb (bare_word t)
    \<and> \<not> re_found SUBST_RE (strip seg)"
  using classify_segment_closed [OF assms] by metis

lemma classifier_fail_closed_witness:
  "\<exists>t ts. split_ws (strip ''pwd'') = t # ts \<and> non_mutating_verb (bare_word t)
    \<and> \<not> re_found SUBST_RE (strip ''pwd'')"
proof (rule classifier_fail_closed [where pipe_tail = False])
  show "\<not> classify_semantic_segment ''pwd'' False" by code_simp
  show "strip ''pwd'' \<noteq> []" by code_simp
qed

end
