(* ===== verification/Denylist.thy ===== *)
theory Denylist
  imports ShellStructure
begin

text \<open>
  The constant patterns of \<open>scripts/core/security_evaluator.py\<close> and the guards that only
  consult them: sensitive files and directories, critical shell commands, dumps of the
  process environment, the managed Git endpoints, and the closed sets of command names.
  \<open>IGNORECASE\<close> patterns are compiled by \<open>re_ci\<close>, patterns without flags by \<open>re_c\<close>; the
  white space of \<open>VERBOSE\<close> patterns is left out.
\<close>

subsection \<open>Sensitive files and directories\<close>

definition SEP :: str where
  \<open>SEP = ''(^|[%s/%"'@:=])''\<close>

definition END_SEP :: str where
  \<open>END_SEP = ''([%s/%"'@:=]|$)''\<close>

definition SENSITIVE_FILE_PATTERN :: regex where
  "SENSITIVE_FILE_PATTERN = re_ci
     (''('' @ SEP @ ''%.env(%.[a-zA-Z0-9_-]+)?'' @ END_SEP @ ''|''
      @ ''id_[a-zA-Z0-9_-]+|''
      @ SEP @ ''credentials(%.json|%.ya?ml|%.ini|%.toml|%.txt)?'' @ END_SEP @ ''|''
      @ SEP @ ''%.?secrets?(%.json|%.ya?ml|%.toml|%.ini|%.env|%.txt)'' @ END_SEP @ ''|''
      @ SEP @ ''%.secrets(/|'' @ END_SEP @ '')|''
      @ ''%.(pem|key|pfx|pkcs12)'' @ END_SEP @ ''|''
      @ ''hosts%.ya?ml|''
      @ ''%.netrc|''
      @ ''%.aws/|''
      @ ''%.kube/config|''
      @ SEP @ ''%.(zsh|bash)_history'' @ END_SEP @ ''|''
      @ ''%.kdbx'' @ END_SEP @ ''|''
      @ ''%.keychain'' @ END_SEP @ ''|''
      @ SEP @ ''%.npmrc'' @ END_SEP @ ''|''
      @ SEP @ ''%.pypirc'' @ END_SEP @ ''|''
      @ SEP @ ''authorized_keys'' @ END_SEP @ ''|''
      @ SEP @ ''known_hosts'' @ END_SEP
      @ ''|/(?:private/)?etc/shadow'' @ END_SEP @ '')'')"

definition HERMES_SANDBOX_PATTERN :: regex where
  "HERMES_SANDBOX_PATTERN = re_ci ''(%.hermes/sandboxes|hermes_sandbox)''"

definition SENSITIVE_DIRECTORY_PATTERN :: regex where
  "SENSITIVE_DIRECTORY_PATTERN = re_ci ''(^|/)%.(ssh|aws|gnupg|kube|docker|hermes|config/gh)(/|%&|$)''"

subsection \<open>Managed Git endpoints\<close>

definition MANAGED_GIT_HOST_PATTERN :: regex where
  "MANAGED_GIT_HOST_PATTERN = re_c
     (''https?://(192%.168%.10%.102:3000|api%.github%.com|gitlab%.com/api|[^/]*gitea[^/]*/api)'')"

definition MANAGED_GIT_ISSUES_PATTERN :: regex where
  "MANAGED_GIT_ISSUES_PATTERN = re_c
     (''https?://(192%.168%.10%.102:3000/api/v1/repos/[^/]+/[^/]+/issues|''
      @ ''api%.github%.com/repos/[^/]+/[^/]+/(issues|pulls)|''
      @ ''gitlab%.com/api/v4/projects/[^/]+/issues|''
      @ ''[^/]*gitea[^/]*/api/v1/repos/[^/]+/[^/]+/issues)'')"

definition is_managed_git_safe_command :: "str \<Rightarrow> bool \<times> str option" where
  "is_managed_git_safe_command cmd =
     (if \<not> re_found MANAGED_GIT_HOST_PATTERN cmd then (False, None)
      else if re_found (re_ci ''-X%s*DELETE%b'') cmd
        then (False, Some ''Managed Git HTTP DELETE is forbidden without human review'')
      else if re_found MANAGED_GIT_ISSUES_PATTERN cmd
        then (True, Some ''Allowed Managed Git issues/pulls interaction'')
      else if \<not> re_found (re_ci ''(-X%s*(POST|PUT|PATCH)|-d%s+|--data)'') cmd
        then (True, Some ''Allowed Managed Git GET request'')
      else if re_found (re_c ''/(api/v1|api/v4|repos)/'') cmd \<and> \<not> re_found (re_c ''(-X%s*DELETE)'') cmd
        then (True, Some ''Allowed Managed Git read API query'')
      else (False, Some ''Unrecognized mutating request to Managed Git endpoint''))"

subsection \<open>Critical shell commands\<close>

definition CRITICAL_SHELL_PATTERNS :: "(regex \<times> str) list" where
  "CRITICAL_SHELL_PATTERNS = [
   (re_ci (''(?<!%bgit%s)%brm%s+(-[rfRF]+%s+|[^%s]*[rfRF])''),
    ''Destructive file deletion (rm -rf)''),
   (re_ci (''%bgit%s+rm%s+(?!.*--cached)(-[rfRF]+%s+|[^%s]*[rfRF])''),
    ''Destructive Git rm on working tree''),
   (re_ci (''%bsudo%b''),
    ''Privilege escalation (sudo)''),
   (re_ci (''%bsu%b''),
    ''User switching (su)''),
   (re_ci (''%bchmod%s+[0-7x+rw-]+''),
    ''Permission modification (chmod)''),
   (re_ci (''%bchown%b''),
    ''Ownership modification (chown)''),
   (re_ci (''%bgit%s+push%b.*(--force(?!-)%b|-f%b|%+[%w/.-]+)''),
    ''Destructive Git force push / overwrite (--force / -f / +ref)''),
   (re_ci (''%bgit%s+push%b.*(--delete%b|(?<!%S):%w+)''),
    ''Destructive Git remote branch deletion (--delete)''),
   (re_ci (''%bgit%s+push%b.*(--all%b|--mirror%b|--tags%b)''),
    ''Dangerous global or mirror Git push (--all / --mirror / --tags)''),
   (re_ci (''%bgit%s+push%b.*(?:%borigin%s+|%s+|HEAD:)(main%b|master%b|develop%b|release[/_-][^%s]+|prod%b|production%b)''),
    ''Direct Git push to protected branch (main/master/develop/release/prod)''),
   (re_ci (''%bgit%s+reset%s+--hard%b''),
    ''Destructive Git reset''),
   (re_ci (''%bgit%s+clean%s+-[fF]''),
    ''Destructive Git clean''),
   (re_ci ('':%(%)%s*%{%s*:%s*%|%s*:%s*&%s*%}%s*;%s*:''),
    ''Denial of Service / Fork bomb''),
   (re_ci (''%bdiskutil%s+(eraseVolume|eraseDisk|partitionDisk|reformat|zeroDisk|randomDisk|secureErase|splitPartition|mergePartitions|apfs%s+(deleteVolume|deleteContainer|deleteSnapshot|eraseVolume)|cs%s+delete|appleRAID%s+delete)%b'' @
      ''|%b(mkfs|newfs_[a-z0-9_]+|dd|fdisk|pdisk|parted|gpt%s+[a-z]+)%b'' @
      ''|%basr%s+restore%b.*(--erase|-erase)'' @
      ''|%btmutil%s+(delete|deletelocalsnapshots|deleteappliancesnapshot)%b''),
    ''Destructive disk / volume formatting and partitioning''),
   (re_ci (''%bcsrutil%s+(disable|clear|authenticated-root%s+disable)%b'' @
      ''|%bspctl%s+(--master-disable|--disable)%b|%bbputil%s+(-k|-s|-p)%b'' @
      ''|%bnvram%s+(-c|-d%b|[a-zA-Z0-9_-]+=[^%s]+)|%bbless%s+(--mount|--setBoot|--folder)%b''),
    ''macOS System security / firmware integrity mutation''),
   (re_ci (''%bdscl%s+[%w%./-]+%s+(-delete|-passwd|-create)%b'' @
      ''|%bsysadminctl%s+-(deleteUser|resetPasswordFor)%b''),
    ''macOS User account / Directory Services mutation''),
   (re_ci (''%bsecurity%s+(delete-keychain|delete-generic-password|delete-internet-password|delete-certificate|delete-identity|remove-identity-preference|create-keychain)%b''),
    ''macOS Keychain & credentials deletion''),
   (re_ci (''%bpfctl%s+(-f|-F%s+all|-d%b)'' @
      ''|%bnetworksetup%s+(-setdnsservers|-setsearchdomains|-setmanual|-removeallnetworkservices|-ordernetworkservices)%b''),
    ''macOS Firewall / Network disruption''),
   (re_ci (''%bbw%b.*?%blist%s+items%b''),
    ''Bitwarden mass secret dump (bw list items) - violates Secret Redacted-Read Mandate (Rule 17)''),
   (re_ci (''%bbw%b.*?%bdelete%s+item%b(?!-)''),
    ''Bitwarden irreversible vault item deletion (bw delete item) - Non-VCS T4 irreversible mutation (Rule 9)'')]"

definition CMD_BOUNDARY :: str where
  "CMD_BOUNDARY = ''(?:^|[%n;&|()]%s*|&&%s*|%|%|%s*)''"

text \<open>The contents of quotations removed: each double-quoted run first, then the single-quoted ones.\<close>

definition strip_quoted :: "str \<Rightarrow> str" where
  "strip_quoted text = re_sub (re_c ([squote] @ ''[^'' @ [squote] @ '']*'' @ [squote])) (\<lambda>_. [squote, squote])
     (re_sub (re_c [dquote, CHR ''['', CHR ''^'', dquote, CHR '']'', CHR ''*'', dquote]) (\<lambda>_. [dquote, dquote]) text)"

definition em_dash :: str where
  "em_dash = [CHR 0xE2, CHR 0x80, CHR 0x94]"

definition PROC_ENVIRON_RE :: regex where
  "PROC_ENVIRON_RE = re_c ''/proc/(?:%$[A-Za-z_][A-Za-z0-9_]*|%$?%{?[0-9*]+%}?|[0-9*]+)/environ%b''"

text \<open>The reason when the command dumps a process environment.\<close>

definition check_process_env_dump :: "str \<Rightarrow> str option" where
  "check_process_env_dump cmd =
     (if re_found PROC_ENVIRON_RE cmd
      then Some (''Process environment file read (/proc/*/environ) '' @ em_dash @ '' secret exposure'')
      else (let scan = strip_quoted cmd in
        if re_found (re_c (CMD_BOUNDARY @ ''launchctl%s+getenv%b'')) scan
        then Some (''launchd environment read (launchctl getenv) '' @ em_dash @ '' secret exposure'')
        else if re_found (re_c (CMD_BOUNDARY @ ''ps%s+(?:-%S+%s+|%d+%s+)*[a-z]*e[a-z]*(?=%s|$|[;&|])'')) scan
        then Some (''Process listing exposing environment variables (ps e/eww/axeww) '' @ em_dash @ '' secret leakage risk'')
        else if re_found (re_c (CMD_BOUNDARY @ ''ps%s+(?:-%S+%s+|%d+%s+)*-[a-zA-Z]*E(?=%s|$|[;&|])'')) scan
        then Some (''Process listing exposing environment variables (ps -wwE) '' @ em_dash @ '' secret leakage risk'')
        else None))"

subsection \<open>Command sets\<close>

definition READ_COMMANDS :: "str list" where
  "READ_COMMANDS = [''cat'', ''head'', ''tail'', ''grep'', ''rg'', ''less'', ''more'', ''awk'', ''sed'',
     ''strings'', ''base64'', ''xxd'', ''jq'', ''source'']"

definition NETWORK_EXFIL_COMMANDS :: "str list" where
  "NETWORK_EXFIL_COMMANDS = [''curl'', ''wget'', ''nc'', ''ncat'', ''socat'', ''scp'', ''rsync'', ''ssh'']"

definition SHELL_WRITE_COMMANDS :: "str list" where
  "SHELL_WRITE_COMMANDS = [''cp'', ''mv'', ''touch'', ''mkdir'', ''rsync'', ''tar'', ''unzip'', ''tee'', ''wget'', ''curl'', ''dd'']"

definition DYNAMIC_SUBSTITUTION_PATTERN :: regex where
  "DYNAMIC_SUBSTITUTION_PATTERN = re_ci
     (''(%$%(%s*(cat|head|tail|grep|find|awk|sed|<)%b|`%s*(cat|head|tail|grep|find|awk|sed|<)%b)'')"

text \<open>The file argument is group 2 or group 3.\<close>

definition STATIC_RESOLVABLE_SUBSTITUTION_PATTERN :: regex where
  "STATIC_RESOLVABLE_SUBSTITUTION_PATTERN = re_ci
     (''(%$%(%s*(?:cat|<)%s+([^)$|;&`]+?)%s*%)|`%s*cat%s+([^`$|;&]+?)%s*`)'')"

definition REDIRECT_ARG_RE :: regex where
  "REDIRECT_ARG_RE = re_c ''^[0-9]*[<>]''"

definition FORENSIC_NETWORK_BIN_RE :: regex where
  "FORENSIC_NETWORK_BIN_RE = re_ci
     (''%b(strings|xxd|hexdump|od|base64|objdump|otool|curl|wget|ssh|scp|sftp|rsync|nc|ncat|socat|npx)%b'')"

definition SED_INPLACE_RE :: regex where
  "SED_INPLACE_RE = re_c ''(^|%s)-i(?:[A-Za-z0-9.]*)?(%s|$)|--in-place''"

definition SED_SAFE_SCRIPT_RE :: regex where
  "SED_SAFE_SCRIPT_RE = re_c ''^%s*(%d+|%d+%s*,%s*%d+|%$)?%s*!?%s*p%s*$''"

definition BROAD_WILDCARD_RE :: regex where
  "BROAD_WILDCARD_RE = re_c ''(^|%s)(~|~/|/(?:%s|$)|%.%*|%.%.(?:%s|$)|(?<!%S)%*(?!%S))(?:%s|$)''"

definition FAST_TRACK_SAFE_COMMANDS :: "str list" where
  "FAST_TRACK_SAFE_COMMANDS = [
     ''pwd'', ''echo'', ''date'', ''uname'', ''whoami'', ''id'', ''env'', ''printenv'',
     ''which'', ''type'', ''true'', ''false'', ''hostname'', ''uptime'',
     ''ls'', ''tree'', ''du'', ''df'', ''stat'', ''file'', ''readlink'', ''realpath'',
     ''dirname'', ''basename'', ''wc'', ''sort'', ''uniq'',
     ''cat'', ''head'', ''tail'', ''less'', ''more'', ''grep'', ''rg'', ''find'']"

definition FAST_TRACK_SAFE_GIT_PATTERNS :: "regex list" where
  "FAST_TRACK_SAFE_GIT_PATTERNS = [
   re_c ''^git%s+status(?:%s|$)'',
   re_c ''^git%s+log(?:%s|$)'',
   re_c ''^git%s+diff(?:%s|$)'',
   re_c ''^git%s+show(?:%s|$)'',
   re_c ''^git%s+rev-parse(?:%s|$)'',
   re_c ''^git%s+rev-list(?:%s|$)'',
   re_c ''^git%s+describe(?:%s|$)'',
   re_c ''^git%s+ls-files(?:%s|$)'',
   re_c ''^git%s+blame(?:%s|$)'',
   re_c ''^git%s+shortlog(?:%s|$)'',
   re_c ''^git%s+grep(?:%s|$)'',
   re_c ''^git%s+remote(?:%s+(-v|--verbose))?(?:%s|$)'',
   re_c ''^git%s+stash%s+list(?:%s|$)'',
   re_c ''^git%s+branch(?:%s+(-a|-r|--all|--remote|--list|-l))?(?:%s|$)'',
   re_c ''^git%s+tag(?:%s+(-l|--list))?(?:%s|$)'',
   re_c ''^git%s+config%s+(--get|--list|--get-regexp)(?:%s|$)'',
   re_c ''^git%s+--version(?:%s|$)'',
   re_c ''^git%s+-v(?:%s|$)'',
   re_c ''^git%s+--help(?:%s|$)'']"

definition READONLY_PIPELINE_COMMANDS :: "str list" where
  "READONLY_PIPELINE_COMMANDS = [
     ''ls'', ''find'', ''tree'', ''du'', ''df'', ''stat'', ''file'', ''wc'', ''sort'', ''uniq'',
     ''pwd'', ''echo'', ''printf'', ''date'', ''uname'', ''whoami'', ''id'', ''env'', ''printenv'',
     ''which'', ''type'', ''hostname'', ''uptime'', ''dirname'', ''basename'', ''readlink'', ''realpath'',
     ''cat'', ''head'', ''tail'', ''less'', ''more'', ''grep'', ''rg'', ''sed'', ''awk'', ''jq'',
     ''cut'', ''tr'', ''column'', ''xargs'']"

text \<open>The three backstops that the read-only fast tracks share.\<close>

definition is_sensitive_text :: "str \<Rightarrow> bool" where
  "is_sensitive_text s \<longleftrightarrow> re_found SENSITIVE_FILE_PATTERN s \<or> re_found SENSITIVE_DIRECTORY_PATTERN s"

lemma managed_git_delete_refused:
  "re_found (re_ci ''-X%s*DELETE%b'') cmd \<Longrightarrow> \<not> fst (is_managed_git_safe_command cmd)"
  by (simp add: is_managed_git_safe_command_def)

lemma managed_git_needs_host:
  "fst (is_managed_git_safe_command cmd) \<Longrightarrow> re_found MANAGED_GIT_HOST_PATTERN cmd"
  by (simp add: is_managed_git_safe_command_def split: if_splits)

end
