(* ===== verification/Compiled.thy ===== *)
theory Compiled
  imports Denylist
begin

text \<open>
  The syntax trees of the large constant patterns of \<open>Denylist\<close>.  Each lemma says what the
  pattern text parses to; declared as code equations, they keep the evaluation of the
  guards on concrete commands from reading the same pattern again and again.
\<close>

definition lits :: "str \<Rightarrow> rx list" where
  "lits s = map (\<lambda>c. RSet False [CLit c]) s"

fun seqs :: "rx list \<Rightarrow> rx" where
  "seqs [] = REps"
| "seqs [p] = p"
| "seqs (p # q # ps) = RSeq p (seqs (q # ps))"

fun alts :: "rx list \<Rightarrow> rx" where
  "alts [] = RSet False []"
| "alts [p] = p"
| "alts (p # q # ps) = RAlt p (alts (q # ps))"

definition word_rx :: "str \<Rightarrow> rx" where
  "word_rx s = seqs (lits s)"

definition sep_class :: "citem list" where
  "sep_class = [CSpace, CLit (CHR ''/''), CLit dquote, CLit squote, CLit (CHR ''@''), CLit (CHR '':''), CLit (CHR ''='')]"

definition name_class :: "citem list" where
  "name_class = [CRange (CHR ''a'') (CHR ''z''), CRange (CHR ''A'') (CHR ''Z''), CRange (CHR ''0'') (CHR ''9''),
     CLit (CHR ''_''), CLit (CHR ''-'')]"

definition sep_rx :: "nat \<Rightarrow> rx" where
  "sep_rx n = RGrp n (RAlt RBol (RSet False sep_class))"

definition end_sep_rx :: "nat \<Rightarrow> rx" where
  "end_sep_rx n = RGrp n (RAlt (RSet False sep_class) REol)"

definition blank_star :: rx where
  "blank_star = RRep (RSet False [CSpace]) 0 None True"

definition blank_plus :: rx where
  "blank_plus = RRep (RSet False [CSpace]) 1 None True"

lemma SENSITIVE_FILE_PATTERN_code [code]: "SENSITIVE_FILE_PATTERN = \<lparr>rg_rx =
     RGrp 1 (alts [seqs ([sep_rx 2] @ lits ''.env'' @ [RRep (RGrp 3 (seqs (lits ''.'' @ [RRep (RSet False name_class)
     1 None True]))) 0 (Some 1) True, end_sep_rx 4]), seqs (lits ''id_'' @ [RRep (RSet False name_class) 1 None
     True]), seqs ([sep_rx 5] @ lits ''credentials'' @ [RRep (RGrp 6 (alts [word_rx ''.json'', seqs (lits ''.y'' @
     [RRep (RSet False [CLit (CHR ''a'')]) 0 (Some 1) True] @ lits ''ml''), word_rx ''.ini'', word_rx ''.toml'',
     word_rx ''.txt''])) 0 (Some 1) True, end_sep_rx 7]), seqs ([sep_rx 8, RRep (RSet False [CLit (CHR ''.'')]) 0
     (Some 1) True] @ lits ''secret'' @ [RRep (RSet False [CLit (CHR ''s'')]) 0 (Some 1) True, RGrp 9 (alts [word_rx
     ''.json'', seqs (lits ''.y'' @ [RRep (RSet False [CLit (CHR ''a'')]) 0 (Some 1) True] @ lits ''ml''), word_rx
     ''.toml'', word_rx ''.ini'', word_rx ''.env'', word_rx ''.txt'']), end_sep_rx 10]), seqs ([sep_rx 11] @ lits
     ''.secrets'' @ [RGrp 12 (alts [RSet False [CLit (CHR ''/'')], end_sep_rx 13])]), seqs (lits ''.'' @ [RGrp 14
     (alts [word_rx ''pem'', word_rx ''key'', word_rx ''pfx'', word_rx ''pkcs12'']), end_sep_rx 15]), seqs (lits
     ''hosts.y'' @ [RRep (RSet False [CLit (CHR ''a'')]) 0 (Some 1) True] @ lits ''ml''), word_rx ''.netrc'', word_rx
     ''.aws/'', word_rx ''.kube/config'', seqs ([sep_rx 16] @ lits ''.'' @ [RGrp 17 (alts [word_rx ''zsh'', word_rx
     ''bash''])] @ lits ''_history'' @ [end_sep_rx 18]), seqs (lits ''.kdbx'' @ [end_sep_rx 19]), seqs (lits
     ''.keychain'' @ [end_sep_rx 20]), seqs ([sep_rx 21] @ lits ''.npmrc'' @ [end_sep_rx 22]), seqs ([sep_rx 23] @
     lits ''.pypirc'' @ [end_sep_rx 24]), seqs ([sep_rx 25] @ lits ''authorized_keys'' @ [end_sep_rx 26]), seqs
     ([sep_rx 27] @ lits ''known_hosts'' @ [end_sep_rx 28]), seqs (lits ''/'' @ [RRep (word_rx ''private/'') 0 (Some
     1) True] @ lits ''etc/shadow'' @ [end_sep_rx 29])]),
     rg_ic = True, rg_ml = False\<rparr>"
  by code_simp

lemma SENSITIVE_DIRECTORY_PATTERN_code [code]: "SENSITIVE_DIRECTORY_PATTERN = \<lparr>rg_rx =
     seqs ([RGrp 1 (alts [RBol, RSet False [CLit (CHR ''/'')]])] @ lits ''.'' @ [RGrp 2 (alts [word_rx ''ssh'',
     word_rx ''aws'', word_rx ''gnupg'', word_rx ''kube'', word_rx ''docker'', word_rx ''hermes'', word_rx
     ''config/gh'']), RGrp 3 (alts [RSet False [CLit (CHR ''/'')], RSet False [CLit bslash], REol])]),
     rg_ic = True, rg_ml = False\<rparr>"
  by code_simp

lemma BROAD_WILDCARD_RE_code [code]: "BROAD_WILDCARD_RE = \<lparr>rg_rx =
     seqs ([RGrp 1 (alts [RBol, RSet False [CSpace]]), RGrp 2 (alts [RSet False [CLit (CHR ''~'')], word_rx ''~/'',
     seqs (lits ''/'' @ [alts [RSet False [CSpace], REol]]), word_rx ''.*'', seqs (lits ''..'' @ [alts [RSet False
     [CSpace], REol]]), seqs ([RBehind True 1 (RSet False [CNSpace])] @ lits ''*'' @ [RAhead True (RSet False
     [CNSpace])])]), alts [RSet False [CSpace], REol]]),
     rg_ic = False, rg_ml = False\<rparr>"
  by code_simp

lemma FORENSIC_NETWORK_BIN_RE_code [code]: "FORENSIC_NETWORK_BIN_RE = \<lparr>rg_rx =
     seqs ([RWordB, RGrp 1 (alts [word_rx ''strings'', word_rx ''xxd'', word_rx ''hexdump'', word_rx ''od'', word_rx
     ''base64'', word_rx ''objdump'', word_rx ''otool'', word_rx ''curl'', word_rx ''wget'', word_rx ''ssh'', word_rx
     ''scp'', word_rx ''sftp'', word_rx ''rsync'', word_rx ''nc'', word_rx ''ncat'', word_rx ''socat'', word_rx
     ''npx'']), RWordB]),
     rg_ic = True, rg_ml = False\<rparr>"
  by code_simp

lemma MANAGED_GIT_HOST_PATTERN_code [code]: "MANAGED_GIT_HOST_PATTERN = \<lparr>rg_rx =
     seqs (lits ''http'' @ [RRep (RSet False [CLit (CHR ''s'')]) 0 (Some 1) True] @ lits ''://'' @ [RGrp 1 (alts
     [word_rx ''192.168.10.102:3000'', word_rx ''api.github.com'', word_rx ''gitlab.com/api'', seqs ([RRep (RSet True
     [CLit (CHR ''/'')]) 0 None True] @ lits ''gitea'' @ [RRep (RSet True [CLit (CHR ''/'')]) 0 None True] @ lits
     ''/api'')])]),
     rg_ic = False, rg_ml = False\<rparr>"
  by code_simp

lemma MANAGED_GIT_ISSUES_PATTERN_code [code]: "MANAGED_GIT_ISSUES_PATTERN = \<lparr>rg_rx =
     seqs (lits ''http'' @ [RRep (RSet False [CLit (CHR ''s'')]) 0 (Some 1) True] @ lits ''://'' @ [RGrp 1 (alts [seqs
     (lits ''192.168.10.102:3000/api/v1/repos/'' @ [RRep (RSet True [CLit (CHR ''/'')]) 1 None True] @ lits ''/'' @
     [RRep (RSet True [CLit (CHR ''/'')]) 1 None True] @ lits ''/issues''), seqs (lits ''api.github.com/repos/'' @
     [RRep (RSet True [CLit (CHR ''/'')]) 1 None True] @ lits ''/'' @ [RRep (RSet True [CLit (CHR ''/'')]) 1 None
     True] @ lits ''/'' @ [RGrp 2 (alts [word_rx ''issues'', word_rx ''pulls''])]), seqs (lits
     ''gitlab.com/api/v4/projects/'' @ [RRep (RSet True [CLit (CHR ''/'')]) 1 None True] @ lits ''/issues''), seqs
     ([RRep (RSet True [CLit (CHR ''/'')]) 0 None True] @ lits ''gitea'' @ [RRep (RSet True [CLit (CHR ''/'')]) 0 None
     True] @ lits ''/api/v1/repos/'' @ [RRep (RSet True [CLit (CHR ''/'')]) 1 None True] @ lits ''/'' @ [RRep (RSet
     True [CLit (CHR ''/'')]) 1 None True] @ lits ''/issues'')])]),
     rg_ic = False, rg_ml = False\<rparr>"
  by code_simp

lemma PROC_ENVIRON_RE_code [code]: "PROC_ENVIRON_RE = \<lparr>rg_rx =
     seqs (lits ''/proc/'' @ [alts [seqs (lits ''$'' @ [RSet False [CRange (CHR ''A'') (CHR ''Z''), CRange (CHR ''a'')
     (CHR ''z''), CLit (CHR ''_'')], RRep (RSet False [CRange (CHR ''A'') (CHR ''Z''), CRange (CHR ''a'') (CHR ''z''),
     CRange (CHR ''0'') (CHR ''9''), CLit (CHR ''_'')]) 0 None True]), seqs ([RRep (RSet False [CLit (CHR ''$'')]) 0
     (Some 1) True, RRep (RSet False [CLit (CHR ''{'')]) 0 (Some 1) True, RRep (RSet False [CRange (CHR ''0'') (CHR
     ''9''), CLit (CHR ''*'')]) 1 None True, RRep (RSet False [CLit (CHR ''}'')]) 0 (Some 1) True]), RRep (RSet False
     [CRange (CHR ''0'') (CHR ''9''), CLit (CHR ''*'')]) 1 None True]] @ lits ''/environ'' @ [RWordB]),
     rg_ic = False, rg_ml = False\<rparr>"
  by code_simp

lemma DYNAMIC_SUBSTITUTION_PATTERN_code [code]: "DYNAMIC_SUBSTITUTION_PATTERN = \<lparr>rg_rx =
     RGrp 1 (alts [seqs (lits ''$('' @ [blank_star, RGrp 2 (alts [word_rx ''cat'', word_rx ''head'', word_rx ''tail'',
     word_rx ''grep'', word_rx ''find'', word_rx ''awk'', word_rx ''sed'', RSet False [CLit (CHR ''<'')]]), RWordB]),
     seqs ([RSet False [CLit btick], blank_star, RGrp 3 (alts [word_rx ''cat'', word_rx ''head'', word_rx ''tail'',
     word_rx ''grep'', word_rx ''find'', word_rx ''awk'', word_rx ''sed'', RSet False [CLit (CHR ''<'')]]), RWordB])]),
     rg_ic = True, rg_ml = False\<rparr>"
  by code_simp

lemma STATIC_RESOLVABLE_SUBSTITUTION_PATTERN_code [code]: "STATIC_RESOLVABLE_SUBSTITUTION_PATTERN = \<lparr>rg_rx =
     RGrp 1 (alts [seqs (lits ''$('' @ [blank_star, alts [word_rx ''cat'', RSet False [CLit (CHR ''<'')]], blank_plus,
     RGrp 2 (RRep (RSet True [CLit (CHR '')''), CLit (CHR ''$''), CLit (CHR ''|''), CLit (CHR '';''), CLit (CHR
     ''&''), CLit btick]) 1 None False), blank_star] @ lits '')''), seqs ([RSet False [CLit btick], blank_star] @ lits
     ''cat'' @ [blank_plus, RGrp 3 (RRep (RSet True [CLit btick, CLit (CHR ''$''), CLit (CHR ''|''), CLit (CHR '';''),
     CLit (CHR ''&'')]) 1 None False), blank_star, RSet False [CLit btick]])]),
     rg_ic = True, rg_ml = False\<rparr>"
  by code_simp

lemma CRITICAL_SHELL_PATTERNS_code [code]: "CRITICAL_SHELL_PATTERNS = [
     (\<lparr>rg_rx = seqs ([RBehind True 4 (seqs ([RWordB] @ lits ''git'' @ [RSet False [CSpace]])), RWordB] @ lits
     ''rm'' @ [blank_plus, RGrp 1 (alts [seqs (lits ''-'' @ [RRep (RSet False [CLit (CHR ''r''), CLit (CHR ''f''),
     CLit (CHR ''R''), CLit (CHR ''F'')]) 1 None True, blank_plus]), seqs ([RRep (RSet True [CSpace]) 0 None True,
     RSet False [CLit (CHR ''r''), CLit (CHR ''f''), CLit (CHR ''R''), CLit (CHR ''F'')]])])]), rg_ic = True, rg_ml =
     False\<rparr>, ''Destructive file deletion (rm -rf)''),
     (\<lparr>rg_rx = seqs ([RWordB] @ lits ''git'' @ [blank_plus] @ lits ''rm'' @ [blank_plus, RAhead True (seqs
     ([RRep (RDot) 0 None True] @ lits ''--cached'')), RGrp 1 (alts [seqs (lits ''-'' @ [RRep (RSet False [CLit (CHR
     ''r''), CLit (CHR ''f''), CLit (CHR ''R''), CLit (CHR ''F'')]) 1 None True, blank_plus]), seqs ([RRep (RSet True
     [CSpace]) 0 None True, RSet False [CLit (CHR ''r''), CLit (CHR ''f''), CLit (CHR ''R''), CLit (CHR ''F'')]])])]),
     rg_ic = True, rg_ml = False\<rparr>, ''Destructive Git rm on working tree''),
     (\<lparr>rg_rx = seqs ([RWordB] @ lits ''sudo'' @ [RWordB]), rg_ic = True, rg_ml = False\<rparr>,
     ''Privilege escalation (sudo)''),
     (\<lparr>rg_rx = seqs ([RWordB] @ lits ''su'' @ [RWordB]), rg_ic = True, rg_ml = False\<rparr>,
     ''User switching (su)''),
     (\<lparr>rg_rx = seqs ([RWordB] @ lits ''chmod'' @ [blank_plus, RRep (RSet False [CRange (CHR ''0'') (CHR ''7''),
     CLit (CHR ''x''), CLit (CHR ''+''), CLit (CHR ''r''), CLit (CHR ''w''), CLit (CHR ''-'')]) 1 None True]), rg_ic =
     True, rg_ml = False\<rparr>, ''Permission modification (chmod)''),
     (\<lparr>rg_rx = seqs ([RWordB] @ lits ''chown'' @ [RWordB]), rg_ic = True, rg_ml = False\<rparr>,
     ''Ownership modification (chown)''),
     (\<lparr>rg_rx = seqs ([RWordB] @ lits ''git'' @ [blank_plus] @ lits ''push'' @ [RWordB, RRep (RDot) 0 None True,
     RGrp 1 (alts [seqs (lits ''--force'' @ [RAhead True (RSet False [CLit (CHR ''-'')]), RWordB]), seqs (lits ''-f''
     @ [RWordB]), seqs (lits ''+'' @ [RRep (RSet False [CWord, CLit (CHR ''/''), CLit (CHR ''.''), CLit (CHR ''-'')])
     1 None True])])]), rg_ic = True, rg_ml = False\<rparr>,
     ''Destructive Git force push / overwrite (--force / -f / +ref)''),
     (\<lparr>rg_rx = seqs ([RWordB] @ lits ''git'' @ [blank_plus] @ lits ''push'' @ [RWordB, RRep (RDot) 0 None True,
     RGrp 1 (alts [seqs (lits ''--delete'' @ [RWordB]), seqs ([RBehind True 1 (RSet False [CNSpace])] @ lits '':'' @
     [RRep (RSet False [CWord]) 1 None True])])]), rg_ic = True, rg_ml = False\<rparr>,
     ''Destructive Git remote branch deletion (--delete)''),
     (\<lparr>rg_rx = seqs ([RWordB] @ lits ''git'' @ [blank_plus] @ lits ''push'' @ [RWordB, RRep (RDot) 0 None True,
     RGrp 1 (alts [seqs (lits ''--all'' @ [RWordB]), seqs (lits ''--mirror'' @ [RWordB]), seqs (lits ''--tags'' @
     [RWordB])])]), rg_ic = True, rg_ml = False\<rparr>,
     ''Dangerous global or mirror Git push (--all / --mirror / --tags)''),
     (\<lparr>rg_rx = seqs ([RWordB] @ lits ''git'' @ [blank_plus] @ lits ''push'' @ [RWordB, RRep (RDot) 0 None True,
     alts [seqs ([RWordB] @ lits ''origin'' @ [blank_plus]), blank_plus, word_rx ''HEAD:''], RGrp 1 (alts [seqs (lits
     ''main'' @ [RWordB]), seqs (lits ''master'' @ [RWordB]), seqs (lits ''develop'' @ [RWordB]), seqs (lits
     ''release'' @ [RSet False [CLit (CHR ''/''), CLit (CHR ''_''), CLit (CHR ''-'')], RRep (RSet True [CSpace]) 1
     None True]), seqs (lits ''prod'' @ [RWordB]), seqs (lits ''production'' @ [RWordB])])]), rg_ic = True, rg_ml =
     False\<rparr>, ''Direct Git push to protected branch (main/master/develop/release/prod)''),
     (\<lparr>rg_rx = seqs ([RWordB] @ lits ''git'' @ [blank_plus] @ lits ''reset'' @ [blank_plus] @ lits ''--hard'' @
     [RWordB]), rg_ic = True, rg_ml = False\<rparr>, ''Destructive Git reset''),
     (\<lparr>rg_rx = seqs ([RWordB] @ lits ''git'' @ [blank_plus] @ lits ''clean'' @ [blank_plus] @ lits ''-'' @
     [RSet False [CLit (CHR ''f''), CLit (CHR ''F'')]]), rg_ic = True, rg_ml = False\<rparr>,
     ''Destructive Git clean''),
     (\<lparr>rg_rx = seqs (lits '':()'' @ [blank_star] @ lits ''{'' @ [blank_star] @ lits '':'' @ [blank_star] @ lits
     ''|'' @ [blank_star] @ lits '':'' @ [blank_star] @ lits ''&'' @ [blank_star] @ lits ''}'' @ [blank_star] @ lits
     '';'' @ [blank_star] @ lits '':''), rg_ic = True, rg_ml = False\<rparr>, ''Denial of Service / Fork bomb''),
     (\<lparr>rg_rx = alts [seqs ([RWordB] @ lits ''diskutil'' @ [blank_plus, RGrp 1 (alts [word_rx ''eraseVolume'',
     word_rx ''eraseDisk'', word_rx ''partitionDisk'', word_rx ''reformat'', word_rx ''zeroDisk'', word_rx
     ''randomDisk'', word_rx ''secureErase'', word_rx ''splitPartition'', word_rx ''mergePartitions'', seqs (lits
     ''apfs'' @ [blank_plus, RGrp 2 (alts [word_rx ''deleteVolume'', word_rx ''deleteContainer'', word_rx
     ''deleteSnapshot'', word_rx ''eraseVolume''])]), seqs (lits ''cs'' @ [blank_plus] @ lits ''delete''), seqs (lits
     ''appleRAID'' @ [blank_plus] @ lits ''delete'')]), RWordB]), seqs ([RWordB, RGrp 3 (alts [word_rx ''mkfs'', seqs
     (lits ''newfs_'' @ [RRep (RSet False [CRange (CHR ''a'') (CHR ''z''), CRange (CHR ''0'') (CHR ''9''), CLit (CHR
     ''_'')]) 1 None True]), word_rx ''dd'', word_rx ''fdisk'', word_rx ''pdisk'', word_rx ''parted'', seqs (lits
     ''gpt'' @ [blank_plus, RRep (RSet False [CRange (CHR ''a'') (CHR ''z'')]) 1 None True])]), RWordB]), seqs
     ([RWordB] @ lits ''asr'' @ [blank_plus] @ lits ''restore'' @ [RWordB, RRep (RDot) 0 None True, RGrp 4 (alts
     [word_rx ''--erase'', word_rx ''-erase''])]), seqs ([RWordB] @ lits ''tmutil'' @ [blank_plus, RGrp 5 (alts
     [word_rx ''delete'', word_rx ''deletelocalsnapshots'', word_rx ''deleteappliancesnapshot'']), RWordB])], rg_ic =
     True, rg_ml = False\<rparr>, ''Destructive disk / volume formatting and partitioning''),
     (\<lparr>rg_rx = alts [seqs ([RWordB] @ lits ''csrutil'' @ [blank_plus, RGrp 1 (alts [word_rx ''disable'',
     word_rx ''clear'', seqs (lits ''authenticated-root'' @ [blank_plus] @ lits ''disable'')]), RWordB]), seqs
     ([RWordB] @ lits ''spctl'' @ [blank_plus, RGrp 2 (alts [word_rx ''--master-disable'', word_rx ''--disable'']),
     RWordB]), seqs ([RWordB] @ lits ''bputil'' @ [blank_plus, RGrp 3 (alts [word_rx ''-k'', word_rx ''-s'', word_rx
     ''-p'']), RWordB]), seqs ([RWordB] @ lits ''nvram'' @ [blank_plus, RGrp 4 (alts [word_rx ''-c'', seqs (lits
     ''-d'' @ [RWordB]), seqs ([RRep (RSet False name_class) 1 None True] @ lits ''='' @ [RRep (RSet True [CSpace]) 1
     None True])])]), seqs ([RWordB] @ lits ''bless'' @ [blank_plus, RGrp 5 (alts [word_rx ''--mount'', word_rx
     ''--setBoot'', word_rx ''--folder'']), RWordB])], rg_ic = True, rg_ml = False\<rparr>,
     ''macOS System security / firmware integrity mutation''),
     (\<lparr>rg_rx = alts [seqs ([RWordB] @ lits ''dscl'' @ [blank_plus, RRep (RSet False [CWord, CLit (CHR ''.''),
     CLit (CHR ''/''), CLit (CHR ''-'')]) 1 None True, blank_plus, RGrp 1 (alts [word_rx ''-delete'', word_rx
     ''-passwd'', word_rx ''-create'']), RWordB]), seqs ([RWordB] @ lits ''sysadminctl'' @ [blank_plus] @ lits ''-'' @
     [RGrp 2 (alts [word_rx ''deleteUser'', word_rx ''resetPasswordFor'']), RWordB])], rg_ic = True, rg_ml =
     False\<rparr>, ''macOS User account / Directory Services mutation''),
     (\<lparr>rg_rx = seqs ([RWordB] @ lits ''security'' @ [blank_plus, RGrp 1 (alts [word_rx ''delete-keychain'',
     word_rx ''delete-generic-password'', word_rx ''delete-internet-password'', word_rx ''delete-certificate'',
     word_rx ''delete-identity'', word_rx ''remove-identity-preference'', word_rx ''create-keychain'']), RWordB]),
     rg_ic = True, rg_ml = False\<rparr>, ''macOS Keychain & credentials deletion''),
     (\<lparr>rg_rx = alts [seqs ([RWordB] @ lits ''pfctl'' @ [blank_plus, RGrp 1 (alts [word_rx ''-f'', seqs (lits
     ''-F'' @ [blank_plus] @ lits ''all''), seqs (lits ''-d'' @ [RWordB])])]), seqs ([RWordB] @ lits ''networksetup''
     @ [blank_plus, RGrp 2 (alts [word_rx ''-setdnsservers'', word_rx ''-setsearchdomains'', word_rx ''-setmanual'',
     word_rx ''-removeallnetworkservices'', word_rx ''-ordernetworkservices'']), RWordB])], rg_ic = True, rg_ml =
     False\<rparr>, ''macOS Firewall / Network disruption''),
     (\<lparr>rg_rx = seqs ([RWordB] @ lits ''bw'' @ [RWordB, RRep (RDot) 0 None False, RWordB] @ lits ''list'' @
     [blank_plus] @ lits ''items'' @ [RWordB]), rg_ic = True, rg_ml = False\<rparr>,
     ''Bitwarden mass secret dump (bw list items) - violates Secret Redacted-Read Mandate (Rule 17)''),
     (\<lparr>rg_rx = seqs ([RWordB] @ lits ''bw'' @ [RWordB, RRep (RDot) 0 None False, RWordB] @ lits ''delete'' @
     [blank_plus] @ lits ''item'' @ [RWordB, RAhead True (RSet False [CLit (CHR ''-'')])]), rg_ic = True, rg_ml =
     False\<rparr>,
     ''Bitwarden irreversible vault item deletion (bw delete item) - Non-VCS T4 irreversible mutation (Rule 9)'')]"
  by code_simp

lemma FAST_TRACK_SAFE_GIT_PATTERNS_code [code]: "FAST_TRACK_SAFE_GIT_PATTERNS = [
     \<lparr>rg_rx = seqs ([RBol] @ lits ''git'' @ [blank_plus] @ lits ''status'' @ [alts [RSet False [CSpace],
     REol]]), rg_ic = False, rg_ml = False\<rparr>,
     \<lparr>rg_rx = seqs ([RBol] @ lits ''git'' @ [blank_plus] @ lits ''log'' @ [alts [RSet False [CSpace], REol]]),
     rg_ic = False, rg_ml = False\<rparr>,
     \<lparr>rg_rx = seqs ([RBol] @ lits ''git'' @ [blank_plus] @ lits ''diff'' @ [alts [RSet False [CSpace], REol]]),
     rg_ic = False, rg_ml = False\<rparr>,
     \<lparr>rg_rx = seqs ([RBol] @ lits ''git'' @ [blank_plus] @ lits ''show'' @ [alts [RSet False [CSpace], REol]]),
     rg_ic = False, rg_ml = False\<rparr>,
     \<lparr>rg_rx = seqs ([RBol] @ lits ''git'' @ [blank_plus] @ lits ''rev-parse'' @ [alts [RSet False [CSpace],
     REol]]), rg_ic = False, rg_ml = False\<rparr>,
     \<lparr>rg_rx = seqs ([RBol] @ lits ''git'' @ [blank_plus] @ lits ''rev-list'' @ [alts [RSet False [CSpace],
     REol]]), rg_ic = False, rg_ml = False\<rparr>,
     \<lparr>rg_rx = seqs ([RBol] @ lits ''git'' @ [blank_plus] @ lits ''describe'' @ [alts [RSet False [CSpace],
     REol]]), rg_ic = False, rg_ml = False\<rparr>,
     \<lparr>rg_rx = seqs ([RBol] @ lits ''git'' @ [blank_plus] @ lits ''ls-files'' @ [alts [RSet False [CSpace],
     REol]]), rg_ic = False, rg_ml = False\<rparr>,
     \<lparr>rg_rx = seqs ([RBol] @ lits ''git'' @ [blank_plus] @ lits ''blame'' @ [alts [RSet False [CSpace],
     REol]]), rg_ic = False, rg_ml = False\<rparr>,
     \<lparr>rg_rx = seqs ([RBol] @ lits ''git'' @ [blank_plus] @ lits ''shortlog'' @ [alts [RSet False [CSpace],
     REol]]), rg_ic = False, rg_ml = False\<rparr>,
     \<lparr>rg_rx = seqs ([RBol] @ lits ''git'' @ [blank_plus] @ lits ''grep'' @ [alts [RSet False [CSpace], REol]]),
     rg_ic = False, rg_ml = False\<rparr>,
     \<lparr>rg_rx = seqs ([RBol] @ lits ''git'' @ [blank_plus] @ lits ''remote'' @ [RRep (seqs ([blank_plus, RGrp 1
     (alts [word_rx ''-v'', word_rx ''--verbose''])])) 0 (Some 1) True, alts [RSet False [CSpace], REol]]), rg_ic =
     False, rg_ml = False\<rparr>,
     \<lparr>rg_rx = seqs ([RBol] @ lits ''git'' @ [blank_plus] @ lits ''stash'' @ [blank_plus] @ lits ''list'' @
     [alts [RSet False [CSpace], REol]]), rg_ic = False, rg_ml = False\<rparr>,
     \<lparr>rg_rx = seqs ([RBol] @ lits ''git'' @ [blank_plus] @ lits ''branch'' @ [RRep (seqs ([blank_plus, RGrp 1
     (alts [word_rx ''-a'', word_rx ''-r'', word_rx ''--all'', word_rx ''--remote'', word_rx ''--list'', word_rx
     ''-l''])])) 0 (Some 1) True, alts [RSet False [CSpace], REol]]), rg_ic = False, rg_ml = False\<rparr>,
     \<lparr>rg_rx = seqs ([RBol] @ lits ''git'' @ [blank_plus] @ lits ''tag'' @ [RRep (seqs ([blank_plus, RGrp 1
     (alts [word_rx ''-l'', word_rx ''--list''])])) 0 (Some 1) True, alts [RSet False [CSpace], REol]]), rg_ic =
     False, rg_ml = False\<rparr>,
     \<lparr>rg_rx = seqs ([RBol] @ lits ''git'' @ [blank_plus] @ lits ''config'' @ [blank_plus, RGrp 1 (alts [word_rx
     ''--get'', word_rx ''--list'', word_rx ''--get-regexp'']), alts [RSet False [CSpace], REol]]), rg_ic = False,
     rg_ml = False\<rparr>,
     \<lparr>rg_rx = seqs ([RBol] @ lits ''git'' @ [blank_plus] @ lits ''--version'' @ [alts [RSet False [CSpace],
     REol]]), rg_ic = False, rg_ml = False\<rparr>,
     \<lparr>rg_rx = seqs ([RBol] @ lits ''git'' @ [blank_plus] @ lits ''-v'' @ [alts [RSet False [CSpace], REol]]),
     rg_ic = False, rg_ml = False\<rparr>,
     \<lparr>rg_rx = seqs ([RBol] @ lits ''git'' @ [blank_plus] @ lits ''--help'' @ [alts [RSet False [CSpace],
     REol]]), rg_ic = False, rg_ml = False\<rparr>]"
  by code_simp

end
