(* ===== verification/GitWorkflow.thy ===== *)
theory GitWorkflow
  imports Compiled
begin

text \<open>
  The routine Git workflow classifier of \<open>scripts/core/security_evaluator.py\<close>
  (\<open>_is_safe_cd_target\<close> to \<open>_classify_routine_git_workflow\<close>): a bounded \<open>&&\<close> chain of
  closed Git operations, each segment a read, an \<open>add\<close>, a \<open>commit\<close> with a message or a
  \<open>push\<close> of one explicit, unprotected ref.
\<close>

subsection \<open>Directory changes\<close>

definition is_safe_cd_target :: "str \<Rightarrow> bool" where
  "is_safe_cd_target directory =
     (if directory = [] then False
      else (let t = rstrip_chars ''/'' directory in
        if t = [] then False
        else if t \<in> {''.'', ''..'', ''-'', ''~''} then False
        else if starts_with t ''//'' then False
        else if ends_with t ''/.'' then False
        else if list_ex (\<lambda>comp. comp = ''..'') (split_char (CHR ''/'') t) then False
        else if re_found SENSITIVE_FILE_PATTERN directory \<or> re_found SENSITIVE_DIRECTORY_PATTERN directory then False
        else if re_found BROAD_WILDCARD_RE directory then False
        else True))"

definition is_safe_cd_segment :: "str \<Rightarrow> bool" where
  "is_safe_cd_segment seg =
     (if seg = [] \<or> strip seg = [] then False
      else (case re_match (re_c ''^%s*cd%s+(%S+)%s*$'') seg of
          Some m \<Rightarrow> is_safe_cd_target (case m_group m 1 of Some d \<Rightarrow> d | None \<Rightarrow> [])
        | None \<Rightarrow>
            (case shlex_split seg of
               None \<Rightarrow> False
             | Some parts \<Rightarrow>
                 if length parts = 2 \<and> parts ! 0 = ''cd'' then is_safe_cd_target (parts ! 1) else False)))"

subsection \<open>One Git invocation\<close>

definition GIT_READ_SUBCOMMANDS :: "str list" where
  "GIT_READ_SUBCOMMANDS = [''status'', ''diff'', ''log'', ''show'', ''rev-parse'', ''rev-list'', ''describe'',
     ''ls-files'', ''blame'', ''shortlog'', ''grep'']"

definition GIT_PROTECTED_BRANCH_RE :: regex where
  "GIT_PROTECTED_BRANCH_RE = re_ci
     ''^(?:(?:refs/)?heads/)?(?:main|master|develop|prod|production|release(?:[/_-].*)?)$''"

definition GIT_REF_RE :: regex where
  "GIT_REF_RE = re_c ''(?:HEAD|[A-Za-z0-9][A-Za-z0-9._/-]*)$''"

definition REMOTE_NAME_RE :: regex where
  "REMOTE_NAME_RE = re_c ''[A-Za-z0-9][A-Za-z0-9._-]*''"

text \<open>The repository of \<open>-C\<close>, the subcommand and its arguments.\<close>

definition parse_git_tail :: "str option \<Rightarrow> str list \<Rightarrow> (str option \<times> str \<times> str list) option" where
  "parse_git_tail repo ts =
     (case ts of [] \<Rightarrow> None
      | t # args \<Rightarrow> if starts_with t ''-'' then None else Some (repo, str_lower t, args))"

definition parse_git_invocation :: "str list \<Rightarrow> (str option \<times> str \<times> str list) option" where
  "parse_git_invocation tokens =
     (case tokens of [] \<Rightarrow> None
      | g # ts \<Rightarrow>
          if g \<noteq> ''git'' then None
          else (case ts of
              [] \<Rightarrow> None
            | t # us \<Rightarrow>
                if t = ''-C'' then
                  (case us of [] \<Rightarrow> None
                   | d # vs \<Rightarrow> if \<not> is_safe_cd_target d then None else parse_git_tail (Some d) vs)
                else parse_git_tail None ts))"

definition is_safe_git_ref :: "str \<Rightarrow> bool" where
  "is_safe_git_ref value \<longleftrightarrow>
     re_full GIT_REF_RE value \<and> \<not> contains ''..'' value \<and> \<not> contains ''//'' value
     \<and> \<not> contains [CHR ''@'', CHR ''{''] value
     \<and> \<not> (ends_with value ''/'' \<or> ends_with value ''.'' \<or> ends_with value ''.lock'')"

definition is_scoped_git_path :: "str \<Rightarrow> bool" where
  "is_scoped_git_path value =
     (if value = [] \<or> value \<in> {''.'', ''./'', '':/''}
         \<or> starts_with value ''/'' \<or> starts_with value ''~'' \<or> starts_with value '':'' then False
      else if list_ex (\<lambda>p. p = ''..'') (path_parts value) \<or> list_ex (\<lambda>ch. ch \<in> set value) ''*?['' then False
      else \<not> (re_found SENSITIVE_FILE_PATTERN value \<or> re_found SENSITIVE_DIRECTORY_PATTERN value))"

definition GIT_FORBIDDEN_READ_FLAGS :: "str list" where
  "GIT_FORBIDDEN_READ_FLAGS = [
     ''--no-index'', ''--ext-diff'', ''--textconv'', ''--exec'', ''--output'',
     ''--paginate'', ''--exec-path'', ''--html-path'', ''--man-path'', ''--info-path'',
     ''--open-files-in-pager'']"

definition classify_git_read :: "str \<Rightarrow> str list \<Rightarrow> bool" where
  "classify_git_read sub args =
     (if sub \<in> set GIT_READ_SUBCOMMANDS then
        \<not> list_ex (\<lambda>arg. arg \<in> set GIT_FORBIDDEN_READ_FLAGS
              \<or> list_ex (\<lambda>flag. starts_with arg (flag @ ''='')) GIT_FORBIDDEN_READ_FLAGS
              \<or> (starts_with arg ''--'' \<and> list_ex (\<lambda>flag. starts_with flag arg) GIT_FORBIDDEN_READ_FLAGS)) args
      else if sub = ''remote'' then
        args = [] \<or> args = [''-v''] \<or> args = [''--verbose'']
        \<or> (length args = 2 \<and> args ! 0 = ''get-url'' \<and> re_full REMOTE_NAME_RE (args ! 1))
      else if sub = ''branch'' then
        list_all (\<lambda>arg. arg \<in> {''-a'', ''--all'', ''-r'', ''--remotes'', ''--show-current''}) args
      else if sub = ''tag'' then args = [] \<or> args = [''-l''] \<or> args = [''--list'']
      else False)"

definition classify_git_add :: "str list \<Rightarrow> bool" where
  "classify_git_add args =
     (case args of [] \<Rightarrow> False
      | a # as \<Rightarrow> (let paths = (if a = ''--'' then as else args) in
          paths \<noteq> [] \<and> list_all (\<lambda>p. \<not> starts_with p ''-'' \<and> is_scoped_git_path p) paths))"

text \<open>The loop over the arguments of a commit, with the flag \<open>has_message\<close>.\<close>

fun commit_args :: "bool \<Rightarrow> str list \<Rightarrow> bool" where
  "commit_args has_message [] = has_message"
| "commit_args has_message (arg # rest) =
     (if arg \<in> {''-q'', ''--quiet'', ''--no-gpg-sign''} then commit_args has_message rest
      else if arg \<in> {''-m'', ''--message''} then
        (case rest of [] \<Rightarrow> False
         | v # rest' \<Rightarrow> if v = [] then False else commit_args True rest')
      else if starts_with arg ''--message='' \<and> length arg > length ''--message='' then commit_args True rest
      else if starts_with arg ''-m'' \<and> length arg > 2 then commit_args True rest
      else False)"

definition classify_git_commit :: "str list \<Rightarrow> bool" where
  "classify_git_commit args = (if args = [] then False else commit_args False args)"

definition push_target :: "str \<Rightarrow> str option" where
  "push_target refspec =
     (if starts_with refspec ''+'' \<or> starts_with refspec '':'' \<or> str_count '':'' refspec > 1 then None
      else (case split_once (CHR '':'') refspec of
          Some (src, dst) \<Rightarrow>
            if src = [] \<or> dst = [] \<or> \<not> is_safe_git_ref src \<or> \<not> is_safe_git_ref dst then None
            else Some dst
        | None \<Rightarrow> if is_safe_git_ref refspec then Some refspec else None))"

definition PUSH_DESTRUCTIVE_FLAGS :: "str list" where
  "PUSH_DESTRUCTIVE_FLAGS = [''--force'', ''-f'', ''--delete'', ''--all'', ''--mirror'', ''--tags'']"

definition PUSH_NEUTRAL_FLAGS :: "str list" where
  "PUSH_NEUTRAL_FLAGS = [''-u'', ''--set-upstream'', ''-q'', ''--quiet'', ''-v'', ''--verbose'', ''--porcelain'', ''--dry-run'']"

text \<open>The positional arguments, or \<open>None\<close> on an unrecognised option.\<close>

fun push_positional :: "str list \<Rightarrow> str list option" where
  "push_positional [] = Some []"
| "push_positional (arg # rest) =
     (if arg \<in> set PUSH_NEUTRAL_FLAGS then push_positional rest
      else if starts_with arg ''-'' then None
      else map_option ((#) arg) (push_positional rest))"

definition classify_git_push :: "str list \<Rightarrow> str \<times> str" where
  "classify_git_push args =
     (if list_ex (\<lambda>arg. arg \<in> set PUSH_DESTRUCTIVE_FLAGS) args
         \<or> list_ex (\<lambda>arg. re_full (re_c ''-[A-Za-z]*f[A-Za-z]*'') arg) args
        then (''DANGEROUS'', ''destructive push option'')
      else if list_ex (\<lambda>arg. starts_with arg ''+'') args then (''DANGEROUS'', ''force refspec'')
      else if list_ex (\<lambda>arg. starts_with arg ''--force-'') args
        then (''GATED'', ''lease/conditional force push requires human review'')
      else (case push_positional args of
          None \<Rightarrow> (''GATED'', ''unrecognized push option'')
        | Some positional \<Rightarrow>
            if length positional \<noteq> 2 \<or> \<not> re_full REMOTE_NAME_RE (positional ! 0)
              then (''GATED'', ''push requires one named remote and one explicit ref'')
            else (case push_target (positional ! 1) of
                None \<Rightarrow> (''DANGEROUS'', ''destructive or malformed push refspec'')
              | Some target \<Rightarrow>
                  if target = ''HEAD'' then (''GATED'', ''push target must name the remote branch explicitly'')
                  else if starts_with target ''refs/tags/'' \<or> starts_with target ''tags/''
                    then (''DANGEROUS'', ''remote tag push'')
                  else if re_full GIT_PROTECTED_BRANCH_RE target
                    then (''DANGEROUS'', ''protected branch push: '' @ target)
                  else (''SAFE'', ''ordinary explicit non-protected branch push''))))"

subsection \<open>The workflow\<close>

text \<open>
  The segments of the token list, or the reason why it is gated.  The tokens are those of a
  \<open>shlex\<close> lexer with punctuation: a run of punctuation characters is one token.
\<close>

fun workflow_segments :: "str list \<Rightarrow> str list \<Rightarrow> str + str list list" where
  "workflow_segments current [] =
     (if current = [] then Inl ''empty Git workflow segment'' else Inr [current])"
| "workflow_segments current (token # rest) =
     (if token = ''&&'' then
        (if current = [] then Inl ''empty Git workflow segment''
         else (case workflow_segments [] rest of Inl e \<Rightarrow> Inl e | Inr segs \<Rightarrow> Inr (current # segs)))
      else if token \<in> {''|'', ''||'', '';'', ''&'', ''<'', ''>'', ''>>'', ''<<''}
        then Inl ''unsupported shell control in Git workflow''
      else workflow_segments (current @ [token]) rest)"

text \<open>The loop over the segments: the repositories seen and the number of commits and pushes.\<close>

fun workflow_steps :: "str list \<Rightarrow> nat \<Rightarrow> nat \<Rightarrow> str list list \<Rightarrow> (str \<times> str) + (str list \<times> nat \<times> nat)" where
  "workflow_steps repos commits pushes [] = Inr (repos, commits, pushes)"
| "workflow_steps repos commits pushes (segment # rest) =
     (case parse_git_invocation segment of
        None \<Rightarrow> Inl (''GATED'', ''unsupported Git global options or mixed command chain'')
      | Some (repo, sub, args) \<Rightarrow>
          (let repos' = List.insert (case repo of None \<Rightarrow> [] | Some r \<Rightarrow> r) repos in
           if classify_git_read sub args then workflow_steps repos' commits pushes rest
           else if sub = ''add'' \<and> classify_git_add args then workflow_steps repos' commits pushes rest
           else if sub = ''commit'' \<and> classify_git_commit args
             then workflow_steps repos' (Suc commits) pushes rest
           else if sub = ''push'' then
             (let v = classify_git_push args in
              if fst v \<noteq> ''SAFE'' then Inl v else workflow_steps repos' commits (Suc pushes) rest)
           else Inl (''GATED'', ''unsupported Git operation: '' @ sub)))"

definition classify_routine_git_workflow :: "str \<Rightarrow> str \<times> str" where
  "classify_routine_git_workflow cmd =
     (if list_ex (\<lambda>ch. ch \<in> set cmd) [CHR ''$'', btick, nl, cr]
        then (''GATED'', ''dynamic or multiline Git command'')
      else (case shlex_punct ''|;&<>'' [] cmd of
          None \<Rightarrow> (''GATED'', ''unparseable Git command'')
        | Some tokens \<Rightarrow>
            if tokens = [] \<or> hd tokens \<noteq> ''git'' then (''NOT_GIT'', [])
            else (case workflow_segments [] tokens of
                Inl e \<Rightarrow> (''GATED'', e)
              | Inr segments \<Rightarrow>
                  if length segments > 8 then (''GATED'', ''Git workflow exceeds eight segments'')
                  else (case workflow_steps [] 0 0 segments of
                      Inl v \<Rightarrow> v
                    | Inr (repos, commits, pushes) \<Rightarrow>
                        if length repos > 1 \<or> commits > 1 \<or> pushes > 1
                        then (''GATED'', ''Git workflow must stay in one repository with at most one commit and push'')
                        else (''SAFE'', ''bounded routine Git workflow'')))))"

subsection \<open>What a safe push is\<close>

lemma push_positional_filter:
  "push_positional args = Some ps \<Longrightarrow>
     ps = filter (\<lambda>a. a \<notin> set PUSH_NEUTRAL_FLAGS) args \<and> list_all (\<lambda>a. \<not> starts_with a ''-'') ps"
  by (induction args arbitrary: ps) (auto split: if_splits)

lemma push_target_ref: "push_target r = Some t \<Longrightarrow> is_safe_git_ref t"
  by (auto simp: push_target_def split: if_splits option.splits)

lemma push_target_plain:
  "push_target r = Some t \<Longrightarrow> t = r \<or> (\<exists>src. r = src @ '':'' @ t \<and> is_safe_git_ref src)"
  by (auto simp: push_target_def dest: split_once_Some split: if_splits option.splits)

text \<open>A push that is classified safe, as a specification over its arguments.\<close>

definition ordinary_push :: "str list \<Rightarrow> bool" where
  "ordinary_push args \<longleftrightarrow>
     (\<forall>a \<in> set args. a \<notin> set PUSH_DESTRUCTIVE_FLAGS \<and> \<not> starts_with a ''+'' \<and> \<not> starts_with a ''--force-'')
     \<and> (\<exists>remote ref target.
          filter (\<lambda>a. a \<notin> set PUSH_NEUTRAL_FLAGS) args = [remote, ref]
          \<and> (target = ref \<or> (\<exists>src. ref = src @ '':'' @ target))
          \<and> is_safe_git_ref target \<and> target \<noteq> ''HEAD''
          \<and> \<not> re_full GIT_PROTECTED_BRANCH_RE target
          \<and> \<not> starts_with target ''refs/tags/'' \<and> \<not> starts_with target ''tags/'')"

lemma safe_push_ordinary:
  assumes "fst (classify_git_push args) = ''SAFE''"
  shows "ordinary_push args"
proof -
  from assms have flags:
    "\<forall>a \<in> set args. a \<notin> set PUSH_DESTRUCTIVE_FLAGS \<and> \<not> starts_with a ''+'' \<and> \<not> starts_with a ''--force-''"
    by (auto simp: classify_git_push_def list_ex_iff split: if_splits)
  from assms obtain ps where ps: "push_positional args = Some ps"
    by (auto simp: classify_git_push_def split: if_splits option.splits)
  with assms have "length ps = 2"
    by (auto simp: classify_git_push_def split: if_splits)
  then obtain remote ref where two: "ps = [remote, ref]"
    by (auto simp: numeral_2_eq_2 length_Suc_conv)
  from assms ps two obtain t where t: "push_target ref = Some t"
    by (auto simp: classify_git_push_def split: if_splits option.splits)
  with assms ps two have "t \<noteq> ''HEAD'' \<and> \<not> re_full GIT_PROTECTED_BRANCH_RE t
      \<and> \<not> starts_with t ''refs/tags/'' \<and> \<not> starts_with t ''tags/''"
    by (auto simp: classify_git_push_def split: if_splits)
  moreover have "filter (\<lambda>a. a \<notin> set PUSH_NEUTRAL_FLAGS) args = [remote, ref]"
    using push_positional_filter [OF ps] two by simp
  ultimately show ?thesis
    using flags push_target_ref [OF t] push_target_plain [OF t]
    unfolding ordinary_push_def by blast
qed

subsection \<open>What a safe workflow is\<close>

text \<open>Putting the segments back together gives the tokens, and no token of a segment is \<open>&&\<close>.\<close>

fun join_and :: "str list list \<Rightarrow> str list" where
  "join_and [] = []"
| "join_and [seg] = seg"
| "join_and (seg # segs) = seg @ ''&&'' # join_and segs"

lemma join_and_Cons: "segs \<noteq> [] \<Longrightarrow> join_and (seg # segs) = seg @ ''&&'' # join_and segs"
  by (cases segs) auto

lemma workflow_segments_nonempty: "workflow_segments cur ts = Inr segs \<Longrightarrow> segs \<noteq> []"
  by (induction cur ts arbitrary: segs rule: workflow_segments.induct)
     (auto split: if_splits sum.splits)

lemma workflow_segments_join:
  "workflow_segments cur ts = Inr segs \<Longrightarrow> join_and segs = cur @ ts"
proof (induction cur ts arbitrary: segs rule: workflow_segments.induct)
  case (1 current)
  then show ?case by (auto split: if_splits)
next
  case (2 current token rest)
  show ?case
  proof (cases "token = ''&&''")
    case True
    with "2.prems" obtain segs' where s: "workflow_segments [] rest = Inr segs'" "segs = current # segs'" "current \<noteq> []"
      by (auto split: if_splits sum.splits)
    with "2.IH"(1) [of segs'] True have "join_and segs' = rest" by simp
    with s True show ?thesis
      using join_and_Cons [OF workflow_segments_nonempty [OF s(1)]] by simp
  next
    case False
    with "2.prems" "2.IH"(2) show ?thesis by (auto split: if_splits)
  qed
qed

text \<open>The closed set of operations that a segment of a safe workflow may be.\<close>

definition routine_op :: "str list \<Rightarrow> bool" where
  "routine_op seg \<longleftrightarrow> (\<exists>repo sub args. parse_git_invocation seg = Some (repo, sub, args)
     \<and> (classify_git_read sub args
        \<or> (sub = ''add'' \<and> classify_git_add args)
        \<or> (sub = ''commit'' \<and> classify_git_commit args)
        \<or> (sub = ''push'' \<and> ordinary_push args)))"

definition is_push_segment :: "str list \<Rightarrow> bool" where
  "is_push_segment seg \<longleftrightarrow>
     (case parse_git_invocation seg of Some (repo, sub, args) \<Rightarrow> sub = ''push'' | None \<Rightarrow> False)"

lemma read_not_push: "classify_git_read ''push'' args = False"
  by (simp add: classify_git_read_def GIT_READ_SUBCOMMANDS_def)

lemma workflow_steps_ok:
  "workflow_steps repos c p segs = Inr (repos', c', p') \<Longrightarrow>
     (\<forall>seg \<in> set segs. routine_op seg) \<and> p' = p + length (filter is_push_segment segs)"
proof (induction segs arbitrary: repos c p)
  case Nil
  then show ?case by simp
next
  case (Cons seg segs)
  from Cons.prems obtain repo sub args where inv: "parse_git_invocation seg = Some (repo, sub, args)"
    by (auto split: option.splits)
  let ?r = "List.insert (case repo of None \<Rightarrow> [] | Some r \<Rightarrow> r) repos"
  consider (read) "classify_git_read sub args"
    | (add) "\<not> classify_git_read sub args" "sub = ''add''" "classify_git_add args"
    | (commit) "\<not> classify_git_read sub args" "sub = ''commit''" "classify_git_commit args"
    | (push) "\<not> classify_git_read sub args" "sub = ''push''" "fst (classify_git_push args) = ''SAFE''"
    using Cons.prems inv by (auto simp: Let_def split: if_splits)
  then show ?case
  proof cases
    case read
    with Cons.prems inv have "workflow_steps ?r c p segs = Inr (repos', c', p')" by simp
    from Cons.IH [OF this] read inv show ?thesis
      by (auto simp: routine_op_def is_push_segment_def read_not_push)
  next
    case add
    with Cons.prems inv have "workflow_steps ?r c p segs = Inr (repos', c', p')" by simp
    from Cons.IH [OF this] add inv show ?thesis
      by (auto simp: routine_op_def is_push_segment_def)
  next
    case commit
    with Cons.prems inv have "workflow_steps ?r (Suc c) p segs = Inr (repos', c', p')" by simp
    from Cons.IH [OF this] commit inv show ?thesis
      by (auto simp: routine_op_def is_push_segment_def)
  next
    case push
    with Cons.prems inv have "workflow_steps ?r c (Suc p) segs = Inr (repos', c', p')" by simp
    from Cons.IH [OF this] push inv safe_push_ordinary [OF push(3)] show ?thesis
      by (auto simp: routine_op_def is_push_segment_def)
  qed
qed

lemma safe_workflow:
  assumes "fst (classify_routine_git_workflow cmd) = ''SAFE''"
  obtains tokens segs where "shlex_punct ''|;&<>'' [] cmd = Some tokens" and "join_and segs = tokens"
    and "\<forall>seg \<in> set segs. routine_op seg" and "length segs \<le> 8"
    and "length (filter is_push_segment segs) \<le> 1"
proof -
  from assms obtain tokens where t: "shlex_punct ''|;&<>'' [] cmd = Some tokens"
    and gate: "\<not> (tokens = [] \<or> hd tokens \<noteq> ''git'')"
    by (auto simp: classify_routine_git_workflow_def split: if_splits option.splits)
  with assms obtain segs where s: "workflow_segments [] tokens = Inr segs" and l: "length segs \<le> 8"
    by (auto simp: classify_routine_git_workflow_def split: if_splits sum.splits)
  show ?thesis
  proof (cases "workflow_steps [] 0 0 segs")
    case (Inl v)
    have "fst v \<noteq> ''SAFE''" if "workflow_steps repos c p ss = Inl v" for repos c p ss
      using that by (induction ss arbitrary: repos c p) (auto simp: Let_def split: option.splits if_splits)
    with Inl assms t gate s l show ?thesis
      by (auto simp: classify_routine_git_workflow_def split: if_splits)
  next
    case (Inr r)
    obtain repos c p where r: "r = (repos, c, p)" by (cases r)
    from Inr r assms t gate s l have "p \<le> 1"
      by (auto simp: classify_routine_git_workflow_def split: if_splits)
    then show ?thesis
      using that [OF t workflow_segments_join [OF s, simplified] _ l] workflow_steps_ok [OF Inr [unfolded r]] by simp
  qed
qed

subsection \<open>Properties\<close>

text \<open>
  A push that is classified safe is an ordinary push: no destructive or force option, exactly
  one named remote and one ref, and the target is a well-formed ref that is neither \<open>HEAD\<close>, a
  tag nor a protected branch.
\<close>

lemma safe_push_is_ordinary:
  assumes "fst (classify_git_push args) = ''SAFE''"
  shows "ordinary_push args"
  using assms by (rule safe_push_ordinary)

lemma safe_push_is_ordinary_witness: "ordinary_push [''origin'', ''ab'']"
proof (rule safe_push_is_ordinary)
  show "fst (classify_git_push [''origin'', ''ab'']) = ''SAFE''" by code_simp
qed



text \<open>
  A run of punctuation other than the eight listed controls is kept as an argument, so the
  shell's \<open>|&\<close> (and \<open>>|\<close>, \<open>>&\<close>, \<open><<<\<close>) slips through the check for unsupported controls.
\<close>

lemma workflow_accepts_stderr_pipe:
  "classify_routine_git_workflow ''git log |& sh x'' = (''SAFE'', ''bounded routine Git workflow'')"
  by code_simp

end
