(* ===== verification/FastTrack.thy ===== *)
theory FastTrack
  imports GitWorkflow
begin

text \<open>
  The closed fast tracks of \<open>scripts/core/security_evaluator.py\<close>: version and help queries,
  Herdr queries, searches, read-only \<open>sed\<close>, read-only \<open>docker exec\<close> diagnostics, read-only
  pipelines, the test runner, and the package-manager classifier.
\<close>

subsection \<open>Version and help queries\<close>

definition OBVIOUS_SAFE_VERSION_HELP_RE :: regex where
  "OBVIOUS_SAFE_VERSION_HELP_RE = re_c
     (''^%s*(?:python3|pip3|node|python|pip|npm|ruby|go|rustc|cargo|docker|brew|git)''
      @ ''%s+(?:--version|-v|-V|--help|-h)%s*$'')"

definition is_obvious_safe_version_help :: "str \<Rightarrow> bool" where
  "is_obvious_safe_version_help cmd =
     (if re_found (re_c ''%$%(|`'') cmd then False
      else if re_found (re_c ''>>?|<<?'') cmd then False
      else if re_found (re_c ''[|&;%n%r]'') cmd then False
      else re_matches OBVIOUS_SAFE_VERSION_HELP_RE cmd)"

subsection \<open>Herdr queries\<close>

definition HERDR_AGENT_NAME_RE :: regex where
  "HERDR_AGENT_NAME_RE = re_c ''[a-z][a-z0-9_-]{0,31}%Z''"

definition HERDR_PANE_ID_RE :: regex where
  "HERDR_PANE_ID_RE = re_c ''w[0-9A-Za-z]+:p[0-9A-Za-z]+%Z''"

definition HERDR_WORKSPACE_ID_RE :: regex where
  "HERDR_WORKSPACE_ID_RE = re_c ''w[0-9A-Za-z]+%Z''"

definition HERDR_WAIT_STATES :: "str list" where
  "HERDR_WAIT_STATES = [''idle'', ''working'', ''blocked'', ''done'', ''unknown'']"

definition HERDR_MAX_WAIT_TIMEOUT_MS :: nat where
  "HERDR_MAX_WAIT_TIMEOUT_MS = 1800000"

text \<open>The loop over the flags of \<open>agent wait\<close>.\<close>

fun herdr_wait_flags :: "bool \<Rightarrow> str list \<Rightarrow> bool" where
  "herdr_wait_flags seen [] = True"
| "herdr_wait_flags seen [flag] = False"
| "herdr_wait_flags seen (flag # val # rest) =
     (if flag = ''--until'' then
        (if val \<notin> set HERDR_WAIT_STATES then False else herdr_wait_flags seen rest)
      else if flag = ''--timeout'' then
        (if seen \<or> val = [] \<or> \<not> list_all is_digit val then False
         else if \<not> (1 \<le> read_nat val \<and> read_nat val \<le> HERDR_MAX_WAIT_TIMEOUT_MS) then False
         else herdr_wait_flags True rest)
      else False)"

definition is_safe_herdr_query :: "str \<Rightarrow> bool" where
  "is_safe_herdr_query cmd =
     (if re_found (re_c ''%$%(|`|>>?|<<?|[|&;%n%r]'') (shell_structure_view cmd) then False
      else (case shlex_split cmd of None \<Rightarrow> False
        | Some tokens \<Rightarrow>
          if length tokens = 2 \<and> tokens ! 0 = ''herdr'' then tokens ! 1 \<in> {''--version'', ''-V'', ''--help'', ''-h''}
          else if tokens = [''herdr'', ''agent'', ''list''] then True
          else if length tokens = 4 \<and> take 3 tokens = [''herdr'', ''agent'', ''get''] then
            re_full HERDR_AGENT_NAME_RE (tokens ! 3) \<or> re_full HERDR_PANE_ID_RE (tokens ! 3)
          else if length tokens \<ge> 4 \<and> take 3 tokens = [''herdr'', ''agent'', ''wait''] then
            (if \<not> (re_full HERDR_AGENT_NAME_RE (tokens ! 3) \<or> re_full HERDR_PANE_ID_RE (tokens ! 3)) then False
             else herdr_wait_flags False (drop 4 tokens))
          else if tokens = [''herdr'', ''pane'', ''list''] then True
          else if length tokens = 5 \<and> take 3 tokens = [''herdr'', ''pane'', ''list''] then
            tokens ! 3 = ''--workspace'' \<and> re_full HERDR_WORKSPACE_ID_RE (tokens ! 4)
          else if length tokens = 4 \<and> take 3 tokens = [''herdr'', ''pane'', ''get''] then
            re_full HERDR_PANE_ID_RE (tokens ! 3)
          else False))"

subsection \<open>Search targets\<close>

definition SEARCH_VALUE_OPTIONS :: "str list" where
  "SEARCH_VALUE_OPTIONS = [
     ''-e'', ''--regexp'', ''-f'', ''--file'', ''-g'', ''--glob'', ''-t'', ''--type'',
     ''-T'', ''--type-not'', ''-m'', ''--max-count'', ''--max-depth'', ''-A'', ''-B'', ''-C'',
     ''--after-context'', ''--before-context'', ''--context'', ''--sort'', ''--sortr'',
     ''--iglob'', ''--include'', ''--exclude'', ''--exclude-from'']"

definition SEARCH_LONG_SELECTORS :: "str list" where
  "SEARCH_LONG_SELECTORS = [''--file'', ''--glob'', ''--iglob'', ''--include'', ''--exclude'', ''--exclude-from'']"

text \<open>
  The loop over the tokens after the executable: whether the pattern came from an option,
  the positional operands and the selectors.  \<open>None\<close> is an option without its value.
\<close>

fun search_scan :: "bool \<Rightarrow> str list \<Rightarrow> str list \<Rightarrow> str list \<Rightarrow> (bool \<times> str list \<times> str list) option" where
  "search_scan fo pos sel [] = Some (fo, pos, sel)"
| "search_scan fo pos sel (token # rest) =
     (if token = ''--'' then Some (fo, pos @ rest, sel)
      else if token \<in> set SEARCH_VALUE_OPTIONS then
        (case rest of [] \<Rightarrow> None
         | val # rest' \<Rightarrow>
             if token \<in> {''-e'', ''--regexp''} then search_scan True pos sel rest'
             else if token \<in> set ([''-f'', ''-g''] @ SEARCH_LONG_SELECTORS) then search_scan fo pos (sel @ [val]) rest'
             else search_scan fo pos sel rest')
      else if length token > 2 \<and> take 2 token \<in> {''-e'', ''-f'', ''-g''} then
        (if take 2 token = ''-e'' then search_scan True pos sel rest
         else search_scan fo pos (sel @ [drop 2 token]) rest)
      else if list_ex (\<lambda>option. starts_with option ''--'' \<and> starts_with token (option @ ''='')) SEARCH_VALUE_OPTIONS then
        (case split_once (CHR ''='') token of None \<Rightarrow> search_scan fo pos sel rest
         | Some (option, val) \<Rightarrow>
             if option = ''--regexp'' then search_scan True pos sel rest
             else if option \<in> set SEARCH_LONG_SELECTORS then search_scan fo pos (sel @ [val]) rest
             else search_scan fo pos sel rest)
      else if starts_with token ''-'' then search_scan fo pos sel rest
      else search_scan fo (pos @ [token]) sel rest)"

definition search_target_tokens :: "str list \<Rightarrow> str list" where
  "search_target_tokens tokens =
     (case tokens of [] \<Rightarrow> []
      | t0 # ts \<Rightarrow>
          (let executable = path_name t0 in
           if executable \<noteq> ''grep'' \<and> executable \<noteq> ''rg'' then ts
           else (case search_scan False [] [] ts of
               None \<Rightarrow> ts
             | Some (from_option, pos, sel) \<Rightarrow>
                 if executable = ''rg'' \<and> ''--files'' \<in> set tokens then sel @ pos
                 else if executable = ''grep'' \<and> list_ex (\<lambda>f. f \<in> set tokens) [''-r'', ''-R'', ''--recursive'']
                         \<and> length pos = 1 then sel @ pos
                 else sel @ (if from_option then pos else tl pos))))"

definition is_sensitive_target :: "str \<Rightarrow> bool" where
  "is_sensitive_target val =
     (let glob_normalized = re_sub (re_c ''[*?%[%]{}!,]+'') (\<lambda>_. ''/'') val in
      re_found SENSITIVE_FILE_PATTERN val \<or> re_found SENSITIVE_DIRECTORY_PATTERN val
      \<or> re_found SENSITIVE_FILE_PATTERN glob_normalized \<or> re_found SENSITIVE_DIRECTORY_PATTERN glob_normalized)"

definition search_has_sensitive_target :: "str \<Rightarrow> bool" where
  "search_has_sensitive_target seg =
     (case shlex_split seg of None \<Rightarrow> True
      | Some tokens \<Rightarrow> list_ex is_sensitive_target (search_target_tokens tokens))"

subsection \<open>Read-only \<open>sed\<close>\<close>

text \<open>The loop over the script after \<open>s\<close> and its delimiter; the flags follow the second separator.\<close>

fun subst_script_flags :: "char \<Rightarrow> nat \<Rightarrow> bool \<Rightarrow> str \<Rightarrow> bool" where
  "subst_script_flags d seps esc [] = False"
| "subst_script_flags d seps esc (c # cs) =
     (if esc then subst_script_flags d seps False cs
      else if c = bslash then subst_script_flags d seps True cs
      else if c = d then
        (if Suc seps = 2 then re_full (re_c ''[gIp0-9]*'') cs else subst_script_flags d (Suc seps) False cs)
      else subst_script_flags d seps False cs)"

definition is_readonly_substitution_script :: "str \<Rightarrow> bool" where
  "is_readonly_substitution_script script =
     (if length script < 4 \<or> script ! 0 \<noteq> CHR ''s'' \<or> is_alnum (script ! 1)
         \<or> script ! 1 \<in> {bslash, nl, cr} then False
      else subst_script_flags (script ! 1) 0 False (drop 2 script))"

definition is_readonly_diagnostic_sed :: "str list \<Rightarrow> bool" where
  "is_readonly_diagnostic_sed tokens =
     (case dropWhile (\<lambda>t. t \<in> {''-E'', ''-r'', ''-n'', ''-En'', ''-nE'', ''-rn'', ''-nr''}) (drop 1 tokens) of
        [] \<Rightarrow> False
      | script # targets \<Rightarrow>
          if \<not> is_readonly_substitution_script script then False
          else targets \<noteq> [] \<and> list_all (\<lambda>target. \<not> starts_with target ''-'' \<and> \<not> is_sensitive_target target
                 \<and> \<not> re_found BROAD_WILDCARD_RE target) targets)"

definition SED_N_SCRIPT_RE :: regex where
  \<open>SED_N_SCRIPT_RE = re_c ''-n%s+(['"])([^'"]*)%1''\<close>

definition is_readonly_sed :: "str \<Rightarrow> bool" where
  "is_readonly_sed seg =
     (if \<not> re_matches (re_c ''^sed%s+-n%b'') seg then False
      else if re_found SED_INPLACE_RE seg then False
      else if re_found (re_c ''(^|%s)(-e|-f|--expression|--file)%b'') seg then False
      else (case re_search SED_N_SCRIPT_RE seg of None \<Rightarrow> False
        | Some m \<Rightarrow>
            if \<not> re_matches SED_SAFE_SCRIPT_RE (case m_group m 2 of Some g \<Rightarrow> g | None \<Rightarrow> []) then False
            else if re_found SENSITIVE_FILE_PATTERN seg \<or> re_found SENSITIVE_DIRECTORY_PATTERN seg then False
            else if re_found BROAD_WILDCARD_RE seg then False
            else True))"

subsection \<open>Read-only pipelines and \<open>docker exec\<close>\<close>

text \<open>
  \<open>_is_readonly_docker_exec\<close>, \<open>_is_readonly_diagnostic_segment\<close> and
  \<open>_is_readonly_pipeline_segment\<close> call one another.  Each body is given with the functions it
  calls as arguments; \<open>docker_exec_n\<close> ties the knot with a fuel that bounds the nesting of
  payloads (\<open>docker_exec_fuel\<close> below shows that the length of the command is enough).
\<close>

definition pipeline_segment_body :: "(str \<Rightarrow> bool) \<Rightarrow> str \<Rightarrow> bool" where
  "pipeline_segment_body docker seg0 =
     (let seg = strip seg0 in
      if seg = [] then False
      else (case shlex_split seg of None \<Rightarrow> False | Some [] \<Rightarrow> False
        | Some (cmd # ts) \<Rightarrow>
          if cmd = ''docker'' then docker seg
          else if cmd = ''git'' then
            (case parse_git_invocation (cmd # ts) of None \<Rightarrow> False
             | Some (_, sub, args) \<Rightarrow>
                 if \<not> classify_git_read sub args then False
                 else if re_found SENSITIVE_FILE_PATTERN seg \<or> re_found SENSITIVE_DIRECTORY_PATTERN seg then False
                 else \<not> re_found BROAD_WILDCARD_RE seg)
          else if cmd = ''cd'' then is_safe_cd_segment seg
          else if cmd \<notin> set READONLY_PIPELINE_COMMANDS then False
          else if cmd \<in> {''grep'', ''rg''} then
            (if cmd = ''rg'' \<and> list_ex (\<lambda>t. t = ''--pre'' \<or> starts_with t ''--pre='') ts then False
             else \<not> list_ex (\<lambda>target. is_sensitive_target target \<or> re_found BROAD_WILDCARD_RE target)
                       (search_target_tokens (cmd # ts)))
          else if cmd = ''sed'' then is_readonly_sed seg
          else if re_found SENSITIVE_FILE_PATTERN seg \<or> re_found SENSITIVE_DIRECTORY_PATTERN seg then False
          else if re_found BROAD_WILDCARD_RE seg then False
          else True))"

definition diagnostic_segment_body :: "(nat \<Rightarrow> str \<Rightarrow> bool) \<Rightarrow> str \<Rightarrow> nat \<Rightarrow> bool" where
  "diagnostic_segment_body docker seg depth =
     (case shlex_split seg of None \<Rightarrow> False | Some [] \<Rightarrow> False
      | Some (t0 # ts) \<Rightarrow>
        (let executable = path_name t0 in
         if executable = ''docker'' then docker (depth + 1) seg
         else if executable \<in> {''true'', ''false''} then ts = []
         else if executable = ''test'' then
           length ts = 2 \<and> ts ! 0 \<in> {''-e'', ''-f'', ''-d'', ''-r'', ''-s'', ''-L''} \<and> \<not> is_sensitive_target (ts ! 1)
         else if executable = ''sed'' \<and> is_readonly_diagnostic_sed (t0 # ts) then True
         else pipeline_segment_body (docker 0) seg))"

definition CONTAINER_NAME_RE :: regex where
  "CONTAINER_NAME_RE = re_c ''[A-Za-z0-9][A-Za-z0-9_.-]*''"

definition docker_payload :: "str list \<Rightarrow> str list option" where
  "docker_payload tokens =
     (if length tokens < 4 \<or> take 2 tokens \<noteq> [''docker'', ''exec''] then None
      else (case dropWhile (\<lambda>t. re_full (re_c ''-[it]+'') t) (drop 2 tokens) of
          [] \<Rightarrow> None
        | c # payload \<Rightarrow> if \<not> re_full CONTAINER_NAME_RE c \<or> payload = [] then None else Some payload))"

definition docker_exec_body :: "(nat \<Rightarrow> str \<Rightarrow> bool) \<Rightarrow> nat \<Rightarrow> str \<Rightarrow> bool" where
  "docker_exec_body docker depth cmd =
     (if depth \<ge> 2 \<or> list_ex (\<lambda>ch. ch \<in> set cmd) [CHR ''$'', btick, nl, cr] then False
      else if re_found (re_c ''>>?|<<?'') (shell_structure_view cmd) \<or> re_found FORENSIC_NETWORK_BIN_RE cmd then False
      else (case shlex_split cmd of None \<Rightarrow> False
        | Some tokens \<Rightarrow>
          (case docker_payload tokens of None \<Rightarrow> False
           | Some payload \<Rightarrow>
             if path_name (hd payload) \<in> {''sh'', ''bash''} then
               (if length payload \<noteq> 3 \<or> payload ! 1 \<notin> {''-c'', ''-lc''} then False
                else (let inner = payload ! 2 in
                  if re_found (re_c ''%$%(|`|>>?|<<?'') (shell_structure_view inner)
                     \<or> re_found FORENSIC_NETWORK_BIN_RE inner then False
                  else (let segments = map strip (filter (\<lambda>s. strip s \<noteq> []) (split_shell_control_segments inner)) in
                    segments \<noteq> [] \<and> length segments \<le> 8
                    \<and> list_all (\<lambda>segment. diagnostic_segment_body docker segment depth) segments)))
             else diagnostic_segment_body docker (shlex_join payload) depth)))"

fun docker_exec_n :: "nat \<Rightarrow> nat \<Rightarrow> str \<Rightarrow> bool" where
  "docker_exec_n 0 depth cmd = False"
| "docker_exec_n (Suc n) depth cmd = docker_exec_body (docker_exec_n n) depth cmd"

definition is_readonly_docker_exec :: "nat \<Rightarrow> str \<Rightarrow> bool" where
  "is_readonly_docker_exec depth cmd = docker_exec_n (Suc (length cmd)) depth cmd"

definition is_readonly_diagnostic_segment :: "str \<Rightarrow> nat \<Rightarrow> bool" where
  "is_readonly_diagnostic_segment seg depth = diagnostic_segment_body is_readonly_docker_exec seg depth"

definition is_readonly_pipeline_segment :: "str \<Rightarrow> bool" where
  "is_readonly_pipeline_segment seg = pipeline_segment_body (is_readonly_docker_exec 0) seg"

definition is_safe_readonly_pipeline :: "str \<Rightarrow> bool" where
  "is_safe_readonly_pipeline cmd =
     (let nonempty = map strip (filter (\<lambda>s. strip s \<noteq> []) (split_shell_control_segments cmd)) in
      if nonempty = [] then False else list_all is_readonly_pipeline_segment nonempty)"

subsection \<open>The fast-track allowlist\<close>

definition PIPELINE_SEP_RE :: regex where
  "PIPELINE_SEP_RE = re_c ''[|&;]''"

definition GIT_DESTRUCTIVE_REST_RE :: regex where
  "GIT_DESTRUCTIVE_REST_RE = re_c
     ''(^|%s)-[dDfFmM]{1,2}(%s|$)|--(delete|force|set|add|unset|move|copy|tag)%b''"

text \<open>The token lists of the non-blank segments; \<open>None\<close> when one of them does not parse.\<close>

fun split_all :: "str list \<Rightarrow> str list list option" where
  "split_all [] = Some []"
| "split_all (s # ss) =
     (if strip s = [] then split_all ss
      else (case shlex_split s of None \<Rightarrow> None | Some ts \<Rightarrow> map_option ((#) ts) (split_all ss)))"

text \<open>Whether the text leaves every backstop untouched (the three checks at the end of each track).\<close>

definition no_backstop :: "str \<Rightarrow> bool" where
  "no_backstop s \<longleftrightarrow>
     \<not> (re_found SENSITIVE_FILE_PATTERN s \<or> re_found SENSITIVE_DIRECTORY_PATTERN s) \<and> \<not> re_found BROAD_WILDCARD_RE s"

definition fast_track_git :: "str \<Rightarrow> bool option" where
  "fast_track_git cmd =
     first_some (\<lambda>pat. case re_match pat cmd of None \<Rightarrow> None
        | Some m \<Rightarrow> Some (\<not> re_found GIT_DESTRUCTIVE_REST_RE (m_post m) \<and> no_backstop cmd))
       FAST_TRACK_SAFE_GIT_PATTERNS"

definition fast_track_single :: "str \<Rightarrow> bool" where
  "fast_track_single cmd =
     (case split_ws cmd of [] \<Rightarrow> False
      | t0 # _ \<Rightarrow>
        if t0 \<notin> set FAST_TRACK_SAFE_COMMANDS then False
        else if t0 \<in> {''grep'', ''rg''} then
          (case shlex_split cmd of None \<Rightarrow> False
           | Some search_tokens \<Rightarrow>
               if t0 = ''rg'' \<and> list_ex (\<lambda>t. t = ''--pre'' \<or> starts_with t ''--pre='') (drop 1 search_tokens) then False
               else \<not> list_ex (\<lambda>target. is_sensitive_target target \<or> re_found BROAD_WILDCARD_RE target)
                         (search_target_tokens search_tokens))
        else no_backstop cmd)"

definition fast_track_after_git :: "str \<Rightarrow> bool" where
  "fast_track_after_git cmd =
     (if re_found PIPELINE_SEP_RE (shell_structure_view cmd) then is_safe_readonly_pipeline cmd
      else if is_safe_herdr_query cmd then True
      else (case fast_track_git cmd of Some b \<Rightarrow> b
        | None \<Rightarrow> if starts_with cmd ''sed '' then is_readonly_sed cmd else fast_track_single cmd))"

definition is_fast_track_allowlisted :: "str \<Rightarrow> bool" where
  "is_fast_track_allowlisted cmd =
     (let structure = shell_structure_view cmd in
      if re_found (re_c ''%$%(|`'') structure then False
      else if re_found (re_c ''>>?|<<?'') structure then False
      else if re_found FORENSIC_NETWORK_BIN_RE cmd then False
      else if is_obvious_safe_version_help cmd then True
      else if starts_with (lstrip cmd) ''docker '' then is_readonly_docker_exec 0 cmd
      else if starts_with (lstrip cmd) ''git '' then
        (case split_all (split_shell_control_segments cmd) of
           None \<Rightarrow> False
         | Some git_segments \<Rightarrow>
             if git_segments \<noteq> [] \<and> list_all (\<lambda>ts. ts \<noteq> [] \<and> hd ts = ''git'') git_segments
             then fst (classify_routine_git_workflow cmd) = ''SAFE''
             else fast_track_after_git cmd)
      else fast_track_after_git cmd)"

subsection \<open>The fuel of the \<open>docker exec\<close> recursion is enough\<close>

definition weight :: "str \<Rightarrow> nat" where
  "weight s = (case shlex_split s of None \<Rightarrow> 0 | Some ts \<Rightarrow> sum_list (map length ts))"

definition esc_extra :: "lex_state \<Rightarrow> nat" where
  "esc_extra st = (case st of LEsc (Some d) \<Rightarrow> 1 | _ \<Rightarrow> 0)"

lemma esc_extra_simps [simp]:
  "esc_extra LWs = 0" "esc_extra (LQuote d) = 0" "esc_extra (LEsc None) = 0" "esc_extra (LEsc (Some d)) = 1"
  "esc_extra LWord = 0" "esc_extra LPunct = 0" "esc_extra LComment = 0"
  by (simp_all add: esc_extra_def)

lemma emit_length: "sum_list (map length (emit q tok)) = length tok"
  by (auto simp: emit_def)

lemma lex_start_cases:
  "lex_start pu cm c = (st, t) \<Longrightarrow> length t + esc_extra st \<le> 1"
  by (auto simp: lex_start_def split: if_splits)

lemma lex_weight:
  "lex_go pu cm st q tok s = Some ts \<Longrightarrow>
     sum_list (map length ts) \<le> length tok + length s + esc_extra st"
proof (induction pu cm st q tok s arbitrary: ts rule: lex_go.induct)
  case (7 pu cm q tok c cs)
  obtain st t where s: "lex_start pu cm c = (st, t)" by force
  with 7 lex_start_cases [OF s] show ?case by fastforce
next
  case (8 pu cm q tok c cs)
  then show ?case by (fastforce split: if_splits)
next
  case (9 pu cm d q tok c cs)
  then show ?case by (fastforce split: if_splits)
next
  case (10 pu cm e q tok c cs)
  then show ?case by (cases e) (fastforce split: if_splits)+
next
  case (11 pu cm q tok c cs)
  then show ?case by (fastforce simp: emit_length split: if_splits)
next
  case (12 pu cm q tok c cs)
  obtain st t where s: "lex_start pu cm c = (st, t)" by force
  with 12 lex_start_cases [OF s] show ?case by (fastforce simp: emit_length split: if_splits)
qed (simp_all add: emit_length)

lemma weight_le: "weight s \<le> length s"
  using lex_weight [of "[]" "[]" LWs False "[]" s] by (simp add: weight_def shlex_split_def split: option.splits)

lemma strip_length: "length (strip s) \<le> length s"
  by (simp add: strip_def rstrip_def lstrip_def) (metis length_dropWhile_le length_rev le_trans)

lemma cut_at_length: "x \<in> set (cut_at k ms s) \<Longrightarrow> length x \<le> length s"
  by (induction k ms s rule: cut_at.induct) auto

lemma segment_length: "x \<in> set (split_shell_control_segments s) \<Longrightarrow> length x \<le> length s"
  unfolding split_shell_control_segments_def by (rule cut_at_length)

lemma safe_not_space: "is_shell_safe c \<Longrightarrow> \<not> is_space c"
  by (auto simp: is_shell_safe_def is_word_def is_lower_def is_upper_def is_digit_def is_space_def less_eq_char_def)

lemma quote_ends: "\<not> is_space (hd (shlex_quote t)) \<and> \<not> is_space (last (shlex_quote t)) \<and> shlex_quote t \<noteq> []"
proof -
  have "\<not> is_space squote" by (simp add: is_space_def less_eq_char_def)
  moreover have "\<not> is_space (hd t)" "\<not> is_space (last t)" if "list_all is_shell_safe t" "t \<noteq> []"
    using that by (auto simp: list_all_iff intro!: safe_not_space)
  ultimately show ?thesis
    by (auto simp: shlex_quote_def list_all_iff)
qed

lemma join_ends:
  "ts \<noteq> [] \<Longrightarrow> \<not> is_space (hd (shlex_join ts)) \<and> \<not> is_space (last (shlex_join ts)) \<and> shlex_join ts \<noteq> []"
proof (induction ts)
  case Nil
  then show ?case by simp
next
  case (Cons t ts)
  show ?case
  proof (cases "ts = []")
    case True
    then show ?thesis using quote_ends [of t] by (simp add: shlex_join_def)
  next
    case False
    then have "shlex_join (t # ts) = shlex_quote t @ '' '' @ shlex_join ts"
      by (simp add: shlex_join_def str_join_Cons)
    with Cons.IH False quote_ends [of t] show ?thesis by simp
  qed
qed

lemma strip_join: "ts \<noteq> [] \<Longrightarrow> strip (shlex_join ts) = shlex_join ts"
  using join_ends strip_id by blast

lemma weight_join: "weight (shlex_join ts) = sum_list (map length ts)"
  by (simp add: weight_def shlex_split_join)

lemma docker_payload_less:
  assumes "docker_payload tokens = Some payload"
  shows "sum_list (map length payload) + 2 \<le> sum_list (map length tokens) \<and> payload \<noteq> []"
proof -
  from assms have l: "\<not> length tokens < 4" and h: "take 2 tokens = [''docker'', ''exec'']"
    by (auto simp: docker_payload_def split: if_splits)
  from h have ts: "tokens = [''docker'', ''exec''] @ drop 2 tokens"
    by (metis append_take_drop_id)
  from assms l h obtain c where c: "dropWhile (\<lambda>t. re_full (re_c ''-[it]+'') t) (drop 2 tokens) = c # payload"
    and ne: "payload \<noteq> []"
    by (auto simp: docker_payload_def split: if_splits list.splits)
  have "sum_list (map length (dropWhile P xs)) \<le> sum_list (map length xs)" for P and xs :: "str list"
    by (induction xs) auto
  from this [of "\<lambda>t. re_full (re_c ''-[it]+'') t" "drop 2 tokens"] c
  have "sum_list (map length payload) \<le> sum_list (map length (drop 2 tokens))" by simp
  moreover have "sum_list (map length tokens) = sum_list (map length ([''docker'', ''exec''] @ drop 2 tokens))"
    using ts by (rule arg_cong)
  ultimately show ?thesis using ne by simp
qed

lemma pipeline_cong:
  "f (strip seg) = g (strip seg) \<Longrightarrow> pipeline_segment_body f seg = pipeline_segment_body g seg"
  by (simp only: pipeline_segment_body_def Let_def)

lemma diagnostic_cong:
  assumes "\<And>d. F d seg = G d seg" and "\<And>d. F d (strip seg) = G d (strip seg)"
  shows "diagnostic_segment_body F seg depth = diagnostic_segment_body G seg depth"
proof -
  have "pipeline_segment_body (F 0) seg = pipeline_segment_body (G 0) seg"
    by (rule pipeline_cong) (rule assms(2))
  then show ?thesis by (simp only: diagnostic_segment_body_def Let_def assms(1))
qed

lemma docker_body_cong:
  assumes FG: "\<And>d s. weight s < weight cmd \<Longrightarrow> F d s = G d s"
  shows "docker_exec_body F depth cmd = docker_exec_body G depth cmd"
proof (cases "shlex_split cmd")
  case None
  then show ?thesis by (simp add: docker_exec_body_def)
next
  case (Some tokens)
  show ?thesis
  proof (cases "docker_payload tokens")
    case None
    with Some show ?thesis by (simp add: docker_exec_body_def)
  next
    case payload: (Some payload)
    from docker_payload_less [OF payload] Some
    have less: "sum_list (map length payload) < weight cmd" and ne: "payload \<noteq> []"
      by (auto simp: weight_def)
    have join: "diagnostic_segment_body F (shlex_join payload) depth = diagnostic_segment_body G (shlex_join payload) depth"
      by (rule diagnostic_cong) (simp_all add: FG weight_join less strip_join [OF ne])
    have inner: "diagnostic_segment_body F (strip s) depth = diagnostic_segment_body G (strip s) depth"
      if "length payload = 3" and "s \<in> set (split_shell_control_segments (payload ! 2))" for s
    proof -
      from that(1) have "length (payload ! 2) \<le> sum_list (map length payload)"
        by (intro member_le_sum_list) auto
      with less segment_length [OF that(2)] strip_length [of s] weight_le [of "strip s"]
      have "weight (strip s) < weight cmd" by linarith
      then show ?thesis by (intro diagnostic_cong) (simp_all add: FG)
    qed
    have "list_all (\<lambda>seg. diagnostic_segment_body F seg depth)
          (map strip (filter (\<lambda>s. strip s \<noteq> []) (split_shell_control_segments (payload ! 2))))
      = list_all (\<lambda>seg. diagnostic_segment_body G seg depth)
          (map strip (filter (\<lambda>s. strip s \<noteq> []) (split_shell_control_segments (payload ! 2))))"
      if "length payload = 3"
      using inner [OF that] by (auto simp: list_all_iff)
    then show ?thesis
      by (cases "length payload = 3")
         (simp_all only: docker_exec_body_def Some payload join Let_def option.case simp_thms if_True)
  qed
qed

lemma docker_exec_n_stable:
  "weight cmd < n \<Longrightarrow> weight cmd < m \<Longrightarrow> docker_exec_n n depth cmd = docker_exec_n m depth cmd"
proof (induction n arbitrary: m depth cmd)
  case 0
  then show ?case by simp
next
  case (Suc n)
  then obtain k where m: "m = Suc k" by (cases m) auto
  have "docker_exec_n n d s = docker_exec_n k d s" if "weight s < weight cmd" for d s
    using that Suc.prems m by (intro Suc.IH) auto
  then have "docker_exec_body (docker_exec_n n) depth cmd = docker_exec_body (docker_exec_n k) depth cmd"
    by (rule docker_body_cong)
  then show ?case by (simp add: m)
qed

text \<open>The recursive equation of the source, without any bound.\<close>

lemma docker_exec_rec:
  "is_readonly_docker_exec depth cmd = docker_exec_body is_readonly_docker_exec depth cmd"
proof -
  have "docker_exec_body (docker_exec_n (length cmd)) depth cmd
      = docker_exec_body is_readonly_docker_exec depth cmd"
  proof (rule docker_body_cong)
    fix d s
    assume "weight s < weight cmd"
    then have "weight s < length cmd" using weight_le [of cmd] by simp
    moreover have "weight s < Suc (length s)" using weight_le [of s] by simp
    ultimately show "docker_exec_n (length cmd) d s = is_readonly_docker_exec d s"
      unfolding is_readonly_docker_exec_def by (rule docker_exec_n_stable)
  qed
  then show ?thesis by (simp add: is_readonly_docker_exec_def)
qed

subsection \<open>What the version and help recogniser accepts\<close>

definition VERSION_BINS :: "str list" where
  "VERSION_BINS = [''node'', ''python'', ''python3'', ''pip'', ''pip3'', ''npm'', ''ruby'', ''go'',
     ''rustc'', ''cargo'', ''docker'', ''brew'', ''git'']"

definition VERSION_FLAGS :: "str list" where
  "VERSION_FLAGS = [''--version'', ''-v'', ''-V'', ''--help'', ''-h'']"

definition blanks :: "nat \<Rightarrow> rx" where
  "blanks n = RRep (RSet False [CSpace]) n None True"

lemma version_help_shape:
  "OBVIOUS_SAFE_VERSION_HELP_RE = \<lparr>rg_rx = RSeq RBol (RSeq (blanks 0)
     (RSeq (rx_or_fail ''(?:python3|pip3|node|python|pip|npm|ruby|go|rustc|cargo|docker|brew|git)'')
     (RSeq (blanks 1) (RSeq (rx_or_fail ''(?:--version|-v|-V|--help|-h)'') (RSeq (blanks 0) REol))))),
     rg_ic = False, rg_ml = False\<rparr>"
  by code_simp

lemma version_bins_words:
  "rx_words (rx_or_fail ''(?:python3|pip3|node|python|pip|npm|ruby|go|rustc|cargo|docker|brew|git)'')
    = Some [''python3'', ''pip3'', ''node'', ''python'', ''pip'', ''npm'', ''ruby'', ''go'', ''rustc'', ''cargo'', ''docker'', ''brew'', ''git'']"
  by code_simp

lemma version_flags_words:
  "rx_words (rx_or_fail ''(?:--version|-v|-V|--help|-h)'') = Some [''--version'', ''-v'', ''-V'', ''--help'', ''-h'']"
  by code_simp

lemma blanks_lang: "rx_lang False (blanks n) w \<Longrightarrow> list_all is_space w \<and> n \<le> length w"
  unfolding blanks_def by (drule rx_lang_class) (simp add: list_all_iff set_has_def)

lemma version_words_plain:
  "list_all (\<lambda>w. w \<noteq> [] \<and> list_all (\<lambda>c. \<not> is_space c) w) (VERSION_BINS @ VERSION_FLAGS)"
  by code_simp

lemma version_help_exact:
  assumes "is_obvious_safe_version_help cmd"
  obtains bin flag where "split_ws cmd = [bin, flag]" and "bin \<in> set VERSION_BINS" and "flag \<in> set VERSION_FLAGS"
proof -
  from assms have "re_matches OBVIOUS_SAFE_VERSION_HELP_RE cmd"
    by (simp add: is_obvious_safe_version_help_def split: if_splits)
  then obtain w r where cmd: "cmd = w @ r"
    and w: "rx_lang (rg_ic OBVIOUS_SAFE_VERSION_HELP_RE) (rg_rx OBVIOUS_SAFE_VERSION_HELP_RE) w"
    and r: "ends_with_eol (rg_rx OBVIOUS_SAFE_VERSION_HELP_RE) \<and> \<not> rg_ml OBVIOUS_SAFE_VERSION_HELP_RE \<longrightarrow> r = [] \<or> r = [nl]"
    by (rule re_match_lang)
  from r have r': "list_all is_space r" by (auto simp: version_help_shape is_space_def)
  from w obtain s0 bin s1 flag s2 where wp: "w = s0 @ bin @ s1 @ flag @ s2"
    and sp: "rx_lang False (blanks 0) s0" "rx_lang False (blanks 1) s1" "rx_lang False (blanks 0) s2"
    and b: "rx_lang False (rx_or_fail ''(?:python3|pip3|node|python|pip|npm|ruby|go|rustc|cargo|docker|brew|git)'') bin"
    and f: "rx_lang False (rx_or_fail ''(?:--version|-v|-V|--help|-h)'') flag"
    unfolding version_help_shape by auto
  from rx_words_lang [OF version_bins_words b] have bin: "bin \<in> set VERSION_BINS" by (auto simp: VERSION_BINS_def)
  from rx_words_lang [OF version_flags_words f] have flag: "flag \<in> set VERSION_FLAGS" by (auto simp: VERSION_FLAGS_def)
  from bin flag version_words_plain have plain: "bin \<noteq> []" "list_all (\<lambda>c. \<not> is_space c) bin" "flag \<noteq> []"
      "list_all (\<lambda>c. \<not> is_space c) flag"
    by (auto simp: list_all_iff)
  from sp blanks_lang have s: "list_all is_space s0" "list_all is_space s1" "s1 \<noteq> []" "list_all is_space s2"
    by fastforce+
  have "split_ws cmd = bin # split_ws (s1 @ flag @ s2 @ r)"
    using s plain split_ws_word [of bin "s1 @ flag @ s2 @ r"]
    by (cases s1) (simp_all add: cmd wp split_ws_space)
  also have "split_ws (s1 @ flag @ s2 @ r) = flag # split_ws (s2 @ r)"
  proof -
    have "list_all is_space (s2 @ r)" using s r' by simp
    then have "s2 @ r = [] \<or> is_space (hd (s2 @ r))" by (cases "s2 @ r") auto
    with plain s show ?thesis by (simp add: split_ws_space split_ws_word del: append_is_Nil_conv hd_append2)
  qed
  also have "split_ws (s2 @ r) = []" using s r' by (simp add: split_ws_spaces)
  finally show ?thesis using that bin flag by blast
qed

subsection \<open>Which programs the fast track starts\<close>

text \<open>A pattern that begins with a literal word and white space.\<close>

fun headed :: "str \<Rightarrow> rx \<Rightarrow> bool" where
  "headed [] (RSeq p q) \<longleftrightarrow> p = blanks 1"
| "headed (c # cs) (RSeq p q) \<longleftrightarrow> p = RSet False [CLit c] \<and> headed cs q"
| "headed _ _ \<longleftrightarrow> False"

lemma headed_lang:
  "headed h q \<Longrightarrow> rx_lang False q w \<Longrightarrow> \<exists>sp v. w = h @ sp @ v \<and> list_all is_space sp \<and> sp \<noteq> []"
proof (induction h q arbitrary: w rule: headed.induct)
  case (1 p q)
  then obtain u v where "w = u @ v" "rx_lang False (blanks 1) u" by auto
  with blanks_lang show ?case by fastforce
next
  case (2 c cs p q)
  from "2.prems" obtain u v where w: "w = u @ v" "u = [c]" "rx_lang False q v"
    by (auto simp: set_has_def)
  from "2.IH" [OF _ w(3)] "2.prems" w show ?case by auto
qed auto

lemma headed_split_ws:
  assumes "headed h q" and "rx_lang False q w" and "h \<noteq> []" and "list_all (\<lambda>c. \<not> is_space c) h"
  shows "\<exists>ts. split_ws (w @ r) = h # ts"
proof -
  from headed_lang [OF assms(1,2)] obtain sp v where w: "w = h @ sp @ v" "list_all is_space sp" "sp \<noteq> []" by blast
  then obtain c cs where "sp = c # cs" "is_space c" by (cases sp) auto
  with w assms(3,4) show ?thesis by (simp add: split_ws_word)
qed

fun after_bol :: "rx \<Rightarrow> rx option" where
  "after_bol (RSeq RBol q) = Some q"
| "after_bol _ = None"

lemma after_bol_Some: "after_bol p = Some q \<Longrightarrow> p = RSeq RBol q"
  by (cases p rule: after_bol.cases) auto

definition git_patterns_headed :: bool where
  "git_patterns_headed = list_all (\<lambda>p. \<not> rg_ic p
     \<and> (case after_bol (rg_rx p) of None \<Rightarrow> False | Some q \<Rightarrow> headed ''git'' q)) FAST_TRACK_SAFE_GIT_PATTERNS"

lemma git_patterns: git_patterns_headed
  by code_simp

lemma sed_shape: "rg_rx (re_c ''^sed%s+-n%b'') = RSeq RBol (RSeq (RSet False [CLit (CHR ''s'')])
    (RSeq (RSet False [CLit (CHR ''e'')]) (RSeq (RSet False [CLit (CHR ''d'')]) (RSeq (blanks 1)
    (RSeq (RSet False [CLit (CHR ''-'')]) (RSeq (RSet False [CLit (CHR ''n'')]) RWordB))))))"
  by code_simp

lemma word_split_ws:
  assumes "rg_rx p = RSeq RBol q" and "\<not> rg_ic p" and "headed h q" and "re_matches p cmd"
    and "h \<noteq> []" and "list_all (\<lambda>c. \<not> is_space c) h"
  shows "\<exists>ts. split_ws cmd = h # ts"
proof -
  from assms(4) obtain w r where "cmd = w @ r" "rx_lang (rg_ic p) (rg_rx p) w" by (rule re_match_lang)
  with assms headed_split_ws [of h q w r] show ?thesis by auto
qed

lemma fast_track_git_head:
  assumes "fast_track_git cmd = Some True"
  shows "(\<exists>ts. split_ws cmd = ''git'' # ts) \<and> no_backstop cmd"
proof -
  from assms obtain p where p: "p \<in> set FAST_TRACK_SAFE_GIT_PATTERNS" "re_matches p cmd" "no_backstop cmd"
    unfolding fast_track_git_def re_matches_def
    by (auto dest!: first_some_SomeD split: option.splits)
  from git_patterns p(1) obtain q where "rg_rx p = RSeq RBol q" "\<not> rg_ic p" "headed ''git'' q"
    by (auto simp: git_patterns_headed_def list_all_iff dest: after_bol_Some split: option.splits)
  from word_split_ws [OF this p(2)] p(3) show ?thesis by (simp add: is_space_def less_eq_char_def)
qed

lemma readonly_sed_head:
  assumes "is_readonly_sed cmd"
  shows "(\<exists>ts. split_ws cmd = ''sed'' # ts) \<and> no_backstop cmd"
proof -
  from assms have "re_matches (re_c ''^sed%s+-n%b'') cmd" and nb: "no_backstop cmd"
    by (auto simp: is_readonly_sed_def no_backstop_def split: if_splits option.splits)
  with word_split_ws [OF sed_shape, of "''sed''" cmd] show ?thesis
    by (simp add: re_c_def is_space_def less_eq_char_def)
qed

text \<open>
  The closed commands: the only shapes that the fast track approves, told by the program that
  each of their parts starts.
\<close>

inductive closed_command :: "str \<Rightarrow> bool" where
  version: "split_ws cmd = [bin, flag] \<Longrightarrow> bin \<in> set VERSION_BINS \<Longrightarrow> flag \<in> set VERSION_FLAGS \<Longrightarrow> closed_command cmd"
| docker: "shlex_split cmd = Some (''docker'' # ''exec'' # ts) \<Longrightarrow> closed_command cmd"
| workflow: "fst (classify_routine_git_workflow cmd) = ''SAFE'' \<Longrightarrow> closed_command cmd"
| pipeline: "(\<And>seg. seg \<in> set (split_shell_control_segments cmd) \<Longrightarrow> strip seg \<noteq> [] \<Longrightarrow>
      \<exists>t ts. shlex_split (strip seg) = Some (t # ts)
        \<and> t \<in> set (READONLY_PIPELINE_COMMANDS @ [''docker'', ''git'', ''cd''])) \<Longrightarrow> closed_command cmd"
| herdr: "shlex_split cmd = Some (''herdr'' # ts) \<Longrightarrow> closed_command cmd"
| single: "split_ws cmd = t # ts \<Longrightarrow> t \<in> set (FAST_TRACK_SAFE_COMMANDS @ [''git'', ''sed'']) \<Longrightarrow>
      t = ''grep'' \<or> t = ''rg'' \<or> no_backstop cmd \<Longrightarrow> closed_command cmd"

lemma docker_exec_closed:
  assumes "is_readonly_docker_exec d cmd"
  shows "closed_command cmd"
proof -
  from assms obtain tokens where t: "shlex_split cmd = Some tokens" "docker_payload tokens \<noteq> None"
    by (auto simp: is_readonly_docker_exec_def docker_exec_body_def split: if_splits option.splits)
  then have two: "take 2 tokens = [''docker'', ''exec'']"
    by (auto simp: docker_payload_def split: if_splits)
  then obtain ts where "tokens = ''docker'' # ''exec'' # ts"
    by (metis append_Cons append_Nil append_take_drop_id)
  with t show ?thesis by (auto intro: closed_command.docker)
qed

lemma pipeline_segment_program:
  assumes "pipeline_segment_body f seg"
  shows "\<exists>t ts. shlex_split (strip seg) = Some (t # ts)
    \<and> t \<in> set (READONLY_PIPELINE_COMMANDS @ [''docker'', ''git'', ''cd''])"
proof -
  from assms obtain t ts where s: "shlex_split (strip seg) = Some (t # ts)"
    by (auto simp: pipeline_segment_body_def Let_def split: if_splits option.splits list.splits)
  with assms have "t = ''docker'' \<or> t = ''git'' \<or> t = ''cd'' \<or> t \<in> set READONLY_PIPELINE_COMMANDS"
    unfolding pipeline_segment_body_def Let_def by (simp split: if_splits)
  with s show ?thesis by auto
qed

lemma pipeline_closed:
  assumes "is_safe_readonly_pipeline cmd"
  shows "closed_command cmd"
proof (rule closed_command.pipeline)
  fix seg
  assume "seg \<in> set (split_shell_control_segments cmd)" "strip seg \<noteq> []"
  with assms have "is_readonly_pipeline_segment (strip seg)"
    by (auto simp: is_safe_readonly_pipeline_def Let_def list_all_iff split: if_splits)
  from pipeline_segment_program [OF this [unfolded is_readonly_pipeline_segment_def]]
  show "\<exists>t ts. shlex_split (strip seg) = Some (t # ts)
      \<and> t \<in> set (READONLY_PIPELINE_COMMANDS @ [''docker'', ''git'', ''cd''])" by simp
qed

lemma herdr_closed:
  assumes "is_safe_herdr_query cmd"
  shows "closed_command cmd"
proof -
  from assms obtain tokens where t: "shlex_split cmd = Some tokens"
    by (auto simp: is_safe_herdr_query_def split: if_splits option.splits)
  have h: "take 3 tokens = ''herdr'' # xs \<Longrightarrow> \<exists>ts. tokens = ''herdr'' # ts" for xs
    by (cases tokens) auto
  from assms t have "(length tokens = 2 \<and> tokens ! 0 = ''herdr'') \<or> (\<exists>xs. tokens = ''herdr'' # xs)
      \<or> (\<exists>xs. take 3 tokens = ''herdr'' # xs)"
    unfolding is_safe_herdr_query_def by (auto split: if_splits)
  with h have "\<exists>ts. tokens = ''herdr'' # ts" by (cases tokens) auto
  with t show ?thesis by (auto intro: closed_command.herdr)
qed

lemma single_closed:
  assumes "fast_track_single cmd"
  shows "closed_command cmd"
proof -
  from assms obtain t ts where s: "split_ws cmd = t # ts"
    by (auto simp: fast_track_single_def split: list.splits)
  with assms have "t \<in> set FAST_TRACK_SAFE_COMMANDS" and "t = ''grep'' \<or> t = ''rg'' \<or> no_backstop cmd"
    by (auto simp: fast_track_single_def split: if_splits)
  with s show ?thesis by (intro closed_command.single [of cmd t ts]) simp_all
qed

lemma after_git_closed:
  assumes "fast_track_after_git cmd"
  shows "closed_command cmd"
proof -
  consider "is_safe_readonly_pipeline cmd" | "is_safe_herdr_query cmd" | "fast_track_git cmd = Some True"
    | "is_readonly_sed cmd" | "fast_track_single cmd"
    using assms by (auto simp: fast_track_after_git_def split: if_splits option.splits)
  then show ?thesis
  proof cases
    case 3
    from fast_track_git_head [OF this] show ?thesis by (auto intro: closed_command.single)
  next
    case 4
    from readonly_sed_head [OF this] show ?thesis by (auto intro: closed_command.single)
  qed (simp_all add: pipeline_closed herdr_closed single_closed)
qed

lemma fast_track_closed:
  assumes "is_fast_track_allowlisted cmd"
  shows "closed_command cmd"
proof -
  consider "is_obvious_safe_version_help cmd" | "is_readonly_docker_exec 0 cmd"
    | "fst (classify_routine_git_workflow cmd) = ''SAFE''" | "fast_track_after_git cmd"
    using assms unfolding is_fast_track_allowlisted_def Let_def by (auto split: if_splits option.splits)
  then show ?thesis
  proof cases
    case 1
    then show ?thesis by (rule version_help_exact) (rule closed_command.version)
  qed (simp_all add: docker_exec_closed closed_command.workflow after_git_closed)
qed

lemma fast_track_hard_rejects:
  "is_fast_track_allowlisted cmd \<Longrightarrow> \<not> re_found (re_c ''%$%(|`'') (shell_structure_view cmd)
     \<and> \<not> re_found (re_c ''>>?|<<?'') (shell_structure_view cmd) \<and> \<not> re_found FORENSIC_NETWORK_BIN_RE cmd"
  by (simp add: is_fast_track_allowlisted_def Let_def split: if_splits)

subsection \<open>Properties\<close>

text \<open>
  The nested check of \<open>docker exec\<close> payloads terminates on every command, and the bounded
  definition satisfies the unbounded recursive equation of the source.
\<close>

lemma docker_exec_terminates:
  "is_readonly_docker_exec depth cmd = docker_exec_body is_readonly_docker_exec depth cmd"
  by (rule docker_exec_rec)

text \<open>
  The version and help recogniser is exact: an accepted command is one of the listed programs
  followed by one of the five flags, and nothing else.
\<close>

lemma version_help_is_exact:
  assumes "is_obvious_safe_version_help cmd"
  shows "\<exists>bin flag. split_ws cmd = [bin, flag] \<and> bin \<in> set VERSION_BINS \<and> flag \<in> set VERSION_FLAGS"
  using version_help_exact [OF assms] by metis

lemma version_help_is_exact_witness:
  "\<exists>bin flag. split_ws ''go -v'' = [bin, flag] \<and> bin \<in> set VERSION_BINS \<and> flag \<in> set VERSION_FLAGS"
proof (rule version_help_is_exact)
  show "is_obvious_safe_version_help ''go -v''" by code_simp
qed



end
