(* ===== verification/Runners.thy ===== *)
theory Runners
  imports FastTrack
begin

text \<open>
  The test-runner fast track (\<open>_strip_leading_cd_prefix\<close>, \<open>_is_fast_track_test_runner\<close>) and
  the package-manager classifier (\<open>classify_package_command\<close>) of
  \<open>scripts/core/security_evaluator.py\<close>.
\<close>

subsection \<open>The test runner\<close>

text \<open>Strip a single leading \<open>cd <safe-dir> &&\<close>; \<open>None\<close> when there is none.\<close>

definition strip_leading_cd_prefix :: "str \<Rightarrow> str option" where
  "strip_leading_cd_prefix cmd =
     (case re_match (re_c ''^%s*cd%s+(%S+)%s*&&%s*'') cmd of None \<Rightarrow> None
      | Some m \<Rightarrow>
          if \<not> is_safe_cd_segment (''cd '' @ (case m_group m 1 of Some d \<Rightarrow> d | None \<Rightarrow> [])) then None
          else Some (m_post m))"

text \<open>The runner itself: the token list of the head of the command.\<close>

fun discover_start :: "str list \<Rightarrow> bool" where
  "discover_start [] = False"
| "discover_start (a # as) =
     (if a \<in> {''-s'', ''--start-directory''} then
        (case as of [] \<Rightarrow> False | d # _ \<Rightarrow> rstrip_chars ''/'' d \<in> {''tests'', ''./tests''})
      else discover_start as)"

definition unittest_args :: "str list \<Rightarrow> bool" where
  "unittest_args args =
     (case args of [] \<Rightarrow> False
      | a # as \<Rightarrow>
          if a = ''discover'' then discover_start args
          else a = ''tests'' \<or> starts_with a ''tests.'')"

definition runner_tokens :: "str list \<Rightarrow> bool" where
  "runner_tokens tokens =
     (case tokens of [] \<Rightarrow> False
      | binary # ts \<Rightarrow>
          if binary = ''pytest'' \<or> ends_with binary ''/bin/pytest'' then
            ts = [] \<or> list_all (\<lambda>t. t = ''tests'' \<or> starts_with t ''tests/'') ts
          else if binary \<noteq> ''python3'' \<and> \<not> ends_with binary ''/bin/python3'' then False
          else if length ts < 2 \<or> ts ! 0 \<noteq> ''-m'' \<or> ts ! 1 \<noteq> ''unittest'' then False
          else unittest_args (drop 2 ts))"

definition RUNNER_FILTERS :: "str list" where
  "RUNNER_FILTERS = [''grep'', ''head'', ''tail'', ''sort'', ''uniq'', ''rg'']"

text \<open>At most one pipe, into a single filter; the result is the part before it.\<close>

definition runner_head :: "str \<Rightarrow> str option" where
  "runner_head rest =
     (case split_once (CHR ''|'') rest of None \<Rightarrow> Some rest
      | Some (head, tail) \<Rightarrow>
          (let tail_clean = re_sub (re_c ([squote] @ ''[^'' @ [squote] @ '']*'' @ [squote] @ ''|''
                               @ [dquote, CHR ''['', CHR ''^'', dquote, CHR '']'', CHR ''*'', dquote])) (\<lambda>_. []) tail in
           if re_found (re_c ''[|&;]'') tail_clean then None
           else (case split_ws (strip tail) of [] \<Rightarrow> None
             | t # _ \<Rightarrow> if t \<notin> set RUNNER_FILTERS then None else Some (strip head))))"

text \<open>The command without assignments, the \<open>cd\<close> prefix and harmless descriptor redirections.\<close>

definition runner_rest :: "str \<Rightarrow> str" where
  "runner_rest cmd =
     (let rest0 = strip (re_sub (re_c ''^(?:[A-Za-z_][A-Za-z0-9_]*=%S+%s+)+'') (\<lambda>_. []) cmd);
          rest1 = (case strip_leading_cd_prefix rest0 of None \<Rightarrow> rest0 | Some r \<Rightarrow> r)
      in strip_fd_redirections rest1)"

definition is_fast_track_test_runner :: "str \<Rightarrow> bool" where
  "is_fast_track_test_runner cmd =
     (if re_found (re_c ''%$%(|`'') cmd then False
      else if re_found FORENSIC_NETWORK_BIN_RE cmd then False
      else if re_found (re_c ''(^|%s)(sudo|su)(%s|$)'') cmd then False
      else (let rest = runner_rest cmd
        in if re_found (re_c ''>>?|<<?'') rest then False
           else if re_found (re_c ''%s*(?:&&|%|%||;)%s*|%n|%r'') rest then False
           else (case runner_head rest of None \<Rightarrow> False | Some head \<Rightarrow> runner_tokens (split_ws head))))"

subsection \<open>Package managers\<close>

definition PACKAGE_MANAGERS :: "str list" where
  "PACKAGE_MANAGERS = [''brew'', ''npm'', ''pip'', ''pip3'', ''cargo'', ''apt'', ''apt-get'', ''pnpm'', ''yarn'']"

definition PACKAGE_MUTATING_ACTIONS :: "str list" where
  "PACKAGE_MUTATING_ACTIONS = [
     ''install'', ''i'', ''uninstall'', ''remove'', ''rm'', ''upgrade'', ''update'',
     ''reinstall'', ''ci'', ''bundle'', ''add'', ''purge'', ''clean'', ''cleanup'', ''autoclean'',
     ''link'', ''unlink'', ''pin'', ''unpin'', ''config'']"

definition PACKAGE_READONLY_ACTIONS :: "str list" where
  "PACKAGE_READONLY_ACTIONS = [
     ''list'', ''ls'', ''info'', ''search'', ''view'', ''show'', ''outdated'', ''leaves'',
     ''doctor'', ''desc'', ''deps'', ''why'']"

datatype action_class = MUTATING | READ_ONLY

definition PACKAGE_META_RE :: regex where
  "PACKAGE_META_RE = re_c ''[|&;<>%n%r]|%$%(|`''"

definition is_flag :: "str \<Rightarrow> bool" where
  "is_flag t \<longleftrightarrow> starts_with t ''-''"

text \<open>The manager, the class of the action and the packages; \<open>None\<close> when it is not classified.\<close>

definition classify_package_command :: "str \<Rightarrow> (str \<times> action_class \<times> str list) option" where
  "classify_package_command cmd =
     (if re_found PACKAGE_META_RE cmd then None
      else (case split_ws cmd of [] \<Rightarrow> None
        | manager # ts \<Rightarrow>
            if manager \<notin> set PACKAGE_MANAGERS then None
            else (case dropWhile is_flag ts of
                [] \<Rightarrow> Some (manager, MUTATING, [])
              | action # rest \<Rightarrow>
                  if action \<in> set PACKAGE_MUTATING_ACTIONS
                    then Some (manager, MUTATING, filter (\<lambda>t. \<not> is_flag t) rest)
                  else if action \<in> set PACKAGE_READONLY_ACTIONS
                    then Some (manager, READ_ONLY, filter (\<lambda>t. \<not> is_flag t) rest)
                  else None)))"

subsection \<open>What the classifiers accept\<close>

lemma dropWhile_flags: "dropWhile is_flag ts = a # rest \<Longrightarrow>
    \<exists>flags. ts = flags @ a # rest \<and> list_all is_flag flags \<and> \<not> is_flag a"
proof (induction ts)
  case Nil
  then show ?case by simp
next
  case (Cons t ts)
  show ?case
  proof (cases "is_flag t")
    case True
    with Cons obtain flags where "ts = flags @ a # rest" "list_all is_flag flags" "\<not> is_flag a" by auto
    with True have "t # ts = (t # flags) @ a # rest \<and> list_all is_flag (t # flags) \<and> \<not> is_flag a" by simp
    then show ?thesis by blast
  next
    case False
    with Cons.prems have "t # ts = [] @ a # rest \<and> list_all is_flag [] \<and> \<not> is_flag a" by simp
    then show ?thesis by blast
  qed
qed

lemma package_readonly:
  assumes "classify_package_command cmd = Some (manager, READ_ONLY, packages)"
  obtains flags action rest where "split_ws cmd = manager # flags @ action # rest"
    and "manager \<in> set PACKAGE_MANAGERS" and "list_all is_flag flags" and "\<not> is_flag action"
    and "action \<in> set PACKAGE_READONLY_ACTIONS" and "packages = filter (\<lambda>t. \<not> is_flag t) rest"
    and "\<not> re_found PACKAGE_META_RE cmd"
proof -
  from assms obtain ts action rest where *: "split_ws cmd = manager # ts" "dropWhile is_flag ts = action # rest"
      "manager \<in> set PACKAGE_MANAGERS" "action \<in> set PACKAGE_READONLY_ACTIONS"
      "packages = filter (\<lambda>t. \<not> is_flag t) rest" "\<not> re_found PACKAGE_META_RE cmd"
    by (auto simp: classify_package_command_def split: if_splits list.splits)
  from dropWhile_flags [OF *(2)] obtain flags where "ts = flags @ action # rest" "list_all is_flag flags" "\<not> is_flag action"
    by blast
  with * that show ?thesis by simp
qed

text \<open>The shapes of a test run: \<open>pytest\<close> or \<open>python3 -m unittest\<close>, confined to \<open>tests\<close>.\<close>

inductive confined_test_run :: "str list \<Rightarrow> bool" where
  pytest: "binary = ''pytest'' \<or> ends_with binary ''/bin/pytest'' \<Longrightarrow>
     list_all (\<lambda>t. t = ''tests'' \<or> starts_with t ''tests/'') ts \<Longrightarrow> confined_test_run (binary # ts)"
| module: "binary = ''python3'' \<or> ends_with binary ''/bin/python3'' \<Longrightarrow>
     a = ''tests'' \<or> starts_with a ''tests.'' \<Longrightarrow>
     confined_test_run (binary # ''-m'' # ''unittest'' # a # as)"
| discover: "binary = ''python3'' \<or> ends_with binary ''/bin/python3'' \<Longrightarrow>
     opt \<in> {''-s'', ''--start-directory''} \<Longrightarrow> rstrip_chars ''/'' d \<in> {''tests'', ''./tests''} \<Longrightarrow>
     confined_test_run (binary # ''-m'' # ''unittest'' # ''discover'' # xs @ opt # d # ys)"

lemma discover_start_split:
  "discover_start as \<Longrightarrow> \<exists>xs o' d ys. as = xs @ o' # d # ys
     \<and> o' \<in> {''-s'', ''--start-directory''} \<and> rstrip_chars ''/'' d \<in> {''tests'', ''./tests''}"
proof (induction as)
  case Nil
  then show ?case by simp
next
  case (Cons a as)
  show ?case
  proof (cases "a \<in> {''-s'', ''--start-directory''}")
    case True
    with Cons.prems obtain d ys where "as = d # ys" "rstrip_chars ''/'' d \<in> {''tests'', ''./tests''}"
      by (cases as) auto
    with True have "a # as = [] @ a # d # ys \<and> a \<in> {''-s'', ''--start-directory''}
        \<and> rstrip_chars ''/'' d \<in> {''tests'', ''./tests''}" by simp
    then show ?thesis by blast
  next
    case False
    with Cons.prems have "discover_start as" by (simp split: if_splits)
    with Cons.IH obtain xs o' d ys where "as = xs @ o' # d # ys \<and> o' \<in> {''-s'', ''--start-directory''}
        \<and> rstrip_chars ''/'' d \<in> {''tests'', ''./tests''}" by blast
    then have "a # as = (a # xs) @ o' # d # ys \<and> o' \<in> {''-s'', ''--start-directory''}
        \<and> rstrip_chars ''/'' d \<in> {''tests'', ''./tests''}" by simp
    then show ?thesis by blast
  qed
qed

lemma confined_discover:
  assumes "binary = ''python3'' \<or> ends_with binary ''/bin/python3''" and "discover_start bs"
  shows "confined_test_run (binary # ''-m'' # ''unittest'' # ''discover'' # bs)"
proof -
  from discover_start_split [OF assms(2)] obtain xs opt d ys where "bs = xs @ opt # d # ys"
      "opt \<in> {''-s'', ''--start-directory''}" "rstrip_chars ''/'' d \<in> {''tests'', ''./tests''}" by blast
  with assms(1) show ?thesis by (simp only: confined_test_run.discover)
qed

lemma runner_tokens_confined:
  assumes "runner_tokens tokens"
  shows "confined_test_run tokens"
proof -
  from assms obtain binary ts where t: "tokens = binary # ts" by (cases tokens) (auto simp: runner_tokens_def)
  show ?thesis
  proof (cases "binary = ''pytest'' \<or> ends_with binary ''/bin/pytest''")
    case True
    with assms t have "ts = [] \<or> list_all (\<lambda>t. t = ''tests'' \<or> starts_with t ''tests/'') ts"
      by (simp add: runner_tokens_def)
    then have "list_all (\<lambda>t. t = ''tests'' \<or> starts_with t ''tests/'') ts" by (auto simp: list_all_iff)
    with True show ?thesis unfolding t by (rule confined_test_run.pytest)
  next
    case False
    with assms have r: "\<not> (binary \<noteq> ''python3'' \<and> \<not> ends_with binary ''/bin/python3'')"
      and m: "\<not> (length ts < 2 \<or> ts ! 0 \<noteq> ''-m'' \<or> ts ! 1 \<noteq> ''unittest'')"
      and rest: "unittest_args (drop 2 ts)"
      unfolding runner_tokens_def t by (simp_all split: if_splits)
    from m obtain as where ts: "ts = ''-m'' # ''unittest'' # as"
      by (cases ts; cases "tl ts") auto
    from rest ts obtain a bs where as: "as = a # bs"
      and cs: "if a = ''discover'' then discover_start (a # bs) else a = ''tests'' \<or> starts_with a ''tests.''"
      by (cases as) (simp_all add: unittest_args_def)
    from r have bin: "binary = ''python3'' \<or> ends_with binary ''/bin/python3''" by blast
    show ?thesis
    proof (cases "a = ''discover''")
      case True
      with cs have "discover_start (''discover'' # bs)" by simp
      then have "discover_start bs" by simp
      with bin show ?thesis unfolding t ts as True by (rule confined_discover)
    next
      case False
      with cs have "a = ''tests'' \<or> starts_with a ''tests.''" by simp
      with bin show ?thesis unfolding t ts as by (rule confined_test_run.module)
    qed
  qed
qed

lemma test_runner_confined:
  assumes "is_fast_track_test_runner cmd"
  shows "\<not> re_found FORENSIC_NETWORK_BIN_RE cmd \<and> \<not> re_found (re_c ''>>?|<<?'') (runner_rest cmd)
    \<and> (\<exists>head. runner_head (runner_rest cmd) = Some head \<and> confined_test_run (split_ws head))"
  using assms runner_tokens_confined
  by (simp add: is_fast_track_test_runner_def Let_def split: if_splits option.splits)

subsection \<open>Properties\<close>

text \<open>
  The test-runner exception stays narrow: an accepted command has no network or forensic
  program and no redirection is left, and what precedes its filter is \<open>pytest\<close> or
  \<open>python3 -m unittest\<close> confined to \<open>tests\<close>.
\<close>

lemma test_runner_is_confined:
  assumes "is_fast_track_test_runner cmd"
  shows "\<not> re_found FORENSIC_NETWORK_BIN_RE cmd \<and> \<not> re_found (re_c ''>>?|<<?'') (runner_rest cmd)
    \<and> (\<exists>head. runner_head (runner_rest cmd) = Some head \<and> confined_test_run (split_ws head))"
  using assms by (rule test_runner_confined)

lemma test_runner_is_confined_witness:
  "\<not> re_found FORENSIC_NETWORK_BIN_RE ''pytest'' \<and> \<not> re_found (re_c ''>>?|<<?'') (runner_rest ''pytest'')
    \<and> (\<exists>head. runner_head (runner_rest ''pytest'') = Some head \<and> confined_test_run (split_ws head))"
proof (rule test_runner_is_confined)
  show "is_fast_track_test_runner ''pytest''" by code_simp
qed

text \<open>
  A package command is classified read-only only when it carries no shell metacharacter and
  its first word that is not a flag is one of the closed set of read-only actions.
\<close>

lemma package_read_only_closed:
  assumes "classify_package_command cmd = Some (manager, READ_ONLY, packages)"
  shows "\<not> re_found PACKAGE_META_RE cmd \<and> manager \<in> set PACKAGE_MANAGERS
    \<and> (\<exists>flags action rest. split_ws cmd = manager # flags @ action # rest
         \<and> list_all is_flag flags \<and> \<not> is_flag action \<and> action \<in> set PACKAGE_READONLY_ACTIONS)"
  by (rule package_readonly [OF assms]) blast

lemma package_read_only_closed_witness:
  "\<not> re_found PACKAGE_META_RE ''npm -g ls'' \<and> ''npm'' \<in> set PACKAGE_MANAGERS
    \<and> (\<exists>flags action rest. split_ws ''npm -g ls'' = ''npm'' # flags @ action # rest
         \<and> list_all is_flag flags \<and> \<not> is_flag action \<and> action \<in> set PACKAGE_READONLY_ACTIONS)"
proof (rule package_read_only_closed)
  show "classify_package_command ''npm -g ls'' = Some (''npm'', READ_ONLY, [])" by code_simp
qed

end
