(* ===== verification/PyJson.thy ===== *)
theory PyJson
  imports Prelude "HOL-Library.AList"
begin

text \<open>
  What the program uses of Python's \<open>json\<close>: the values, \<open>json.loads\<close>, \<open>json.dumps\<close> with
  \<open>indent=2\<close> and \<open>ensure_ascii=False\<close>, truth values and \<open>dict.get\<close>.  A decimal numeral is kept
  exactly (as a rational), except that what exceeds the range of a double is an infinity; an
  escape beyond the eight-bit characters of the text model reads as a question mark.
  The round trip of the two functions is proved at the end.
\<close>

subsection \<open>Values\<close>

datatype pyfloat = Fin rat | PInf | NInf | NaN

datatype json = JNull | JBool bool | JInt int | JFloat pyfloat | JStr str | JArr "json list" | JObj "(str \<times> json) list"

fun truthy :: "json \<Rightarrow> bool" where
  "truthy JNull = False"
| "truthy (JBool b) = b"
| "truthy (JInt i) = (i \<noteq> 0)"
| "truthy (JFloat f) = (f \<noteq> Fin 0)"
| "truthy (JStr s) = (s \<noteq> [])"
| "truthy (JArr xs) = (xs \<noteq> [])"
| "truthy (JObj xs) = (xs \<noteq> [])"

text \<open>\<open>d.get(k)\<close>; a missing key and \<open>null\<close> both give \<open>None\<close>.\<close>

fun jget :: "str \<Rightarrow> json \<Rightarrow> json" where
  "jget k (JObj xs) = (case map_of xs k of None \<Rightarrow> JNull | Some v \<Rightarrow> v)"
| "jget k v = JNull"

fun is_obj :: "json \<Rightarrow> bool" where
  "is_obj (JObj xs) = True"
| "is_obj v = False"

subsection \<open>Reading\<close>

definition is_json_ws :: "char \<Rightarrow> bool" where
  "is_json_ws c \<longleftrightarrow> c \<in> {CHR '' '', CHR 0x09, nl, cr}"

definition skip_ws :: "str \<Rightarrow> str" where
  "skip_ws = dropWhile is_json_ws"

definition hex_val :: "char \<Rightarrow> nat option" where
  "hex_val c = (if is_digit c then Some (of_char c - 48)
     else if CHR ''a'' \<le> c \<and> c \<le> CHR ''f'' then Some (of_char c - 87)
     else if CHR ''A'' \<le> c \<and> c \<le> CHR ''F'' then Some (of_char c - 55) else None)"

definition unicode_char :: "char \<Rightarrow> char \<Rightarrow> char \<Rightarrow> char \<Rightarrow> char option" where
  "unicode_char a b c d =
     (case (hex_val a, hex_val b, hex_val c, hex_val d) of
        (Some w, Some x, Some y, Some z) \<Rightarrow>
          (if w = 0 \<and> x = 0 then Some (char_of (16 * y + z)) else Some (CHR 0x3F))
      | _ \<Rightarrow> None)"

definition simple_escape :: "char \<Rightarrow> char option" where
  "simple_escape e = map_of
     [(dquote, dquote), (bslash, bslash), (CHR ''/'', CHR ''/''), (CHR ''b'', CHR 0x08), (CHR ''f'', CHR 0x0C),
      (CHR ''n'', nl), (CHR ''r'', cr), (CHR ''t'', CHR 0x09)] e"

definition prepend :: "char \<Rightarrow> (str \<times> str) option \<Rightarrow> (str \<times> str) option" where
  "prepend c r = map_option (\<lambda>(s, rest). (c # s, rest)) r"

text \<open>The rest of a string literal, after the opening quotation mark.\<close>

fun p_str :: "str \<Rightarrow> (str \<times> str) option" where
  "p_str [] = None"
| "p_str (c # cs) =
     (if c = dquote then Some ([], cs)
      else if c = bslash then
        (case cs of
           [] \<Rightarrow> None
         | e # r \<Rightarrow>
             if e = CHR ''u'' then
               (case r of
                  h1 # h2 # h3 # h4 # r' \<Rightarrow>
                    (case unicode_char h1 h2 h3 h4 of None \<Rightarrow> None | Some u \<Rightarrow> prepend u (p_str r'))
                | _ \<Rightarrow> None)
             else (case simple_escape e of None \<Rightarrow> None | Some u \<Rightarrow> prepend u (p_str r)))
      else if c < CHR 0x20 then None
      else prepend c (p_str cs))"

definition FLOAT_LIMIT :: int where
  "FLOAT_LIMIT = 2 ^ 1024 - 2 ^ 970"

definition float_of :: "rat \<Rightarrow> pyfloat" where
  "float_of v = (if v \<ge> of_int FLOAT_LIMIT then PInf else if v \<le> - of_int FLOAT_LIMIT then NInf else Fin v)"

text \<open>A numeral: sign, integer part without leading zeros, fraction, exponent.\<close>

definition p_int_part :: "str \<Rightarrow> (str \<times> str) option" where
  "p_int_part s = (case s of
       [] \<Rightarrow> None
     | c # cs \<Rightarrow> if c = CHR ''0'' then Some ([c], cs)
                else if is_digit c then Some (takeWhile is_digit s, dropWhile is_digit s) else None)"

definition p_frac :: "str \<Rightarrow> str \<times> str" where
  "p_frac s = (case s of
       c # cs \<Rightarrow> if c = CHR ''.'' \<and> takeWhile is_digit cs \<noteq> [] then (takeWhile is_digit cs, dropWhile is_digit cs) else ([], s)
     | [] \<Rightarrow> ([], s))"

definition p_exp :: "str \<Rightarrow> int option \<times> str" where
  "p_exp s = (case s of
       c # cs \<Rightarrow>
         if c = CHR ''e'' \<or> c = CHR ''E'' then
           (let sg = (case cs of x # _ \<Rightarrow> x = CHR ''-'' | [] \<Rightarrow> False);
                ds = (case cs of x # xs \<Rightarrow> if x = CHR ''-'' \<or> x = CHR ''+'' then xs else cs | [] \<Rightarrow> []);
                n = int (read_nat (takeWhile is_digit ds))
            in if takeWhile is_digit ds = [] then (None, s) else (Some (if sg then - n else n), dropWhile is_digit ds))
         else (None, s)
     | [] \<Rightarrow> (None, s))"

definition ten_to :: "int \<Rightarrow> rat" where
  "ten_to e = (if e \<ge> 0 then 10 ^ nat e else 1 / 10 ^ nat (- e))"

definition p_num :: "str \<Rightarrow> (json \<times> str) option" where
  "p_num s =
     (let neg = (case s of c # _ \<Rightarrow> c = CHR ''-'' | [] \<Rightarrow> False); s1 = (if neg then tl s else s) in
      case p_int_part s1 of
        None \<Rightarrow> None
      | Some (ip, s2) \<Rightarrow>
          (case p_frac s2 of (fr, s3) \<Rightarrow>
            (case p_exp s3 of (ex, s4) \<Rightarrow>
              if fr = [] \<and> ex = None then
                (if length ip > 4300 then None
                 else Some (JInt (if neg then - int (read_nat ip) else int (read_nat ip)), s4))
              else
                (let m = of_nat (read_nat (ip @ fr)) * ten_to ((case ex of None \<Rightarrow> 0 | Some e \<Rightarrow> e) - int (length fr))
                 in Some (JFloat (float_of (if neg then - m else m)), s4)))))"

definition literals :: "(str \<times> json) list" where
  "literals = [(''null'', JNull), (''true'', JBool True), (''false'', JBool False), (''NaN'', JFloat NaN),
     (''Infinity'', JFloat PInf), (''-Infinity'', JFloat NInf)]"

fun p_literal :: "(str \<times> json) list \<Rightarrow> str \<Rightarrow> (json \<times> str) option" where
  "p_literal [] s = None"
| "p_literal ((w, v) # ls) s = (if starts_with s w then Some (v, drop (length w) s) else p_literal ls s)"

definition dict_of :: "(str \<times> json) list \<Rightarrow> (str \<times> json) list" where
  "dict_of ps = fold (\<lambda>(k, v) d. AList.update k v d) ps []"

text \<open>Values by recursion on a bound for the nesting; the length of the text is enough.\<close>

fun p_val :: "nat \<Rightarrow> str \<Rightarrow> (json \<times> str) option"
and p_elems :: "nat \<Rightarrow> str \<Rightarrow> (json list \<times> str) option"
and p_members :: "nat \<Rightarrow> str \<Rightarrow> ((str \<times> json) list \<times> str) option" where
  "p_val 0 s = None"
| "p_val (Suc n) s =
     (case s of
        [] \<Rightarrow> None
      | c # cs \<Rightarrow>
          if c = dquote then map_option (\<lambda>(t, r). (JStr t, r)) (p_str cs)
          else if c = CHR ''{'' then
            (case skip_ws cs of
               [] \<Rightarrow> None
             | d # ds \<Rightarrow> if d = CHR ''}'' then Some (JObj [], ds)
                        else map_option (\<lambda>(ms, r). (JObj (dict_of ms), r)) (p_members n (d # ds)))
          else if c = CHR ''['' then
            (case skip_ws cs of
               [] \<Rightarrow> None
             | d # ds \<Rightarrow> if d = CHR '']'' then Some (JArr [], ds)
                        else map_option (\<lambda>(es, r). (JArr es, r)) (p_elems n (d # ds)))
          else (case p_literal literals s of Some r \<Rightarrow> Some r | None \<Rightarrow> p_num s))"
| "p_elems 0 s = None"
| "p_elems (Suc n) s =
     (case p_val n s of
        None \<Rightarrow> None
      | Some (v, r) \<Rightarrow>
          (case skip_ws r of
             [] \<Rightarrow> None
           | c # cs \<Rightarrow> if c = CHR '']'' then Some ([v], cs)
                      else if c = CHR '','' then map_option (\<lambda>(vs, r'). (v # vs, r')) (p_elems n (skip_ws cs))
                      else None))"
| "p_members 0 s = None"
| "p_members (Suc n) s =
     (case s of
        [] \<Rightarrow> None
      | q # qs \<Rightarrow>
          if q \<noteq> dquote then None
          else (case p_str qs of
             None \<Rightarrow> None
           | Some (k, r1) \<Rightarrow>
               (case skip_ws r1 of
                  [] \<Rightarrow> None
                | d # ds \<Rightarrow>
                    if d \<noteq> CHR '':'' then None
                    else (case p_val n (skip_ws ds) of
                       None \<Rightarrow> None
                     | Some (v, r2) \<Rightarrow>
                         (case skip_ws r2 of
                            [] \<Rightarrow> None
                          | c # cs \<Rightarrow> if c = CHR ''}'' then Some ([(k, v)], cs)
                                     else if c = CHR '','' then
                                       map_option (\<lambda>(ms, r'). ((k, v) # ms, r')) (p_members n (skip_ws cs))
                                     else None)))))"

definition json_loads :: "str \<Rightarrow> json option" where
  "json_loads s =
     (case p_val (Suc (2 * length s)) (skip_ws s) of
        None \<Rightarrow> None
      | Some (v, r) \<Rightarrow> if skip_ws r = [] then Some v else None)"

subsection \<open>Writing\<close>

definition hex_digit :: "nat \<Rightarrow> char" where
  "hex_digit n = ''0123456789abcdef'' ! n"

definition json_escape :: "char \<Rightarrow> str" where
  "json_escape c =
     (if c = dquote then [bslash, dquote] else if c = bslash then [bslash, bslash]
      else if c = nl then [bslash, CHR ''n''] else if c = cr then [bslash, CHR ''r'']
      else if c = CHR 0x09 then [bslash, CHR ''t''] else if c = CHR 0x08 then [bslash, CHR ''b'']
      else if c = CHR 0x0C then [bslash, CHR ''f'']
      else if c < CHR 0x20 then [bslash, CHR ''u'', CHR ''0'', CHR ''0'', hex_digit (of_char c div 16), hex_digit (of_char c mod 16)]
      else [c])"

definition json_str :: "str \<Rightarrow> str" where
  "json_str s = dquote # concat (map json_escape s) @ [dquote]"

text \<open>A line break and the indentation of a level.\<close>

definition indent :: "nat \<Rightarrow> str" where
  "indent l = nl # replicate (2 * l) (CHR '' '')"

fun sep_by :: "str \<Rightarrow> str list \<Rightarrow> str" where
  "sep_by sep [] = []"
| "sep_by sep [x] = x"
| "sep_by sep (x # xs) = x @ sep @ sep_by sep xs"

text \<open>How a finite float is written is the parameter \<open>fr\<close>.\<close>

fun json_dump :: "(rat \<Rightarrow> str) \<Rightarrow> nat \<Rightarrow> json \<Rightarrow> str" where
  "json_dump fr l JNull = ''null''"
| "json_dump fr l (JBool b) = (if b then ''true'' else ''false'')"
| "json_dump fr l (JInt i) = show_int i"
| "json_dump fr l (JFloat NaN) = ''NaN''"
| "json_dump fr l (JFloat PInf) = ''Infinity''"
| "json_dump fr l (JFloat NInf) = ''-Infinity''"
| "json_dump fr l (JFloat (Fin v)) = fr v"
| "json_dump fr l (JStr s) = json_str s"
| "json_dump fr l (JArr xs) = (if xs = [] then ''[]'' else
     CHR ''['' # indent (Suc l) @ sep_by (CHR '','' # indent (Suc l)) (map (json_dump fr (Suc l)) xs) @ indent l @ '']'')"
| "json_dump fr l (JObj xs) = (if xs = [] then ''{}'' else
     CHR ''{'' # indent (Suc l) @ sep_by (CHR '','' # indent (Suc l)) (map (\<lambda>(k, v). json_str k @ '': '' @ json_dump fr (Suc l) v) xs)
       @ indent l @ ''}'')"

definition json_dumps :: "(rat \<Rightarrow> str) \<Rightarrow> json \<Rightarrow> str" where
  "json_dumps fr j = json_dump fr 0 j"

subsection \<open>The round trip\<close>

lemma hex_round: "n < 16 \<Longrightarrow> hex_val (hex_digit n) = Some n"
proof -
  have "list_all (\<lambda>n. hex_val (hex_digit n) = Some n) [0..<16]" by code_simp
  then show "n < 16 \<Longrightarrow> hex_val (hex_digit n) = Some n" by (simp add: list_all_iff)
qed

lemma p_str_escape: "p_str (json_escape c @ t) = prepend c (p_str t)"
proof (cases "c < CHR 0x20 \<and> c \<notin> {nl, cr, CHR 0x09, CHR 0x08, CHR 0x0C}")
  case True
  let ?n = "of_char c :: nat"
  from True have n: "?n < 32" by (simp add: less_char_def)
  have "unicode_char (CHR ''0'') (CHR ''0'') (hex_digit (?n div 16)) (hex_digit (?n mod 16))
      = Some (char_of (16 * (?n div 16) + ?n mod 16))"
  proof -
    have z: "hex_val (CHR ''0'') = Some 0" by code_simp
    from n have "?n div 16 < 16" by simp
    then show ?thesis by (simp add: unicode_char_def z hex_round)
  qed
  then have u: "unicode_char (CHR ''0'') (CHR ''0'') (hex_digit (?n div 16)) (hex_digit (?n mod 16)) = Some c" by simp
  from n have q: "c \<noteq> dquote" "c \<noteq> bslash" by auto
  with True u q show ?thesis by (simp add: json_escape_def)
next
  case False
  show ?thesis
  proof (cases "c \<in> {dquote, bslash, nl, cr, CHR 0x09, CHR 0x08, CHR 0x0C}")
    case True
    then show ?thesis by (elim insertE emptyE) (simp_all add: json_escape_def simple_escape_def)
  next
    case False
    with \<open>\<not> (c < CHR 0x20 \<and> c \<notin> {nl, cr, CHR 0x09, CHR 0x08, CHR 0x0C})\<close> show ?thesis
      by (simp add: json_escape_def)
  qed
qed

lemma p_str_round: "p_str (concat (map json_escape s) @ dquote # rest) = Some (s, rest)"
  by (induction s) (simp_all add: p_str_escape prepend_def del: p_str.simps(2), simp)

lemma skip_ws_indent [simp]: "skip_ws (indent l @ x) = skip_ws x"
proof -
  have "skip_ws (replicate k (CHR '' '') @ x) = skip_ws x" for k
    by (induction k) (simp_all add: skip_ws_def is_json_ws_def)
  then show ?thesis by (simp add: indent_def skip_ws_def is_json_ws_def)
qed

lemma skip_ws_stop: "\<not> is_json_ws c \<Longrightarrow> skip_ws (c # x) = c # x"
  by (simp add: skip_ws_def)

lemma digit_char_ok: "n < 10 \<Longrightarrow> is_digit (digit_char n) \<and> digit_val (digit_char n) = n \<and> (digit_char n = CHR ''0'' \<longleftrightarrow> n = 0)"
proof -
  have "list_all (\<lambda>n. is_digit (digit_char n) \<and> digit_val (digit_char n) = n \<and> (digit_char n = CHR ''0'' \<longleftrightarrow> n = 0)) [0..<10]"
    by code_simp
  then show "n < 10 \<Longrightarrow> ?thesis" by (simp add: list_all_iff)
qed

lemma show_nat_digits: "show_nat n \<noteq> [] \<and> list_all is_digit (show_nat n)"
  by (induction n rule: show_nat.induct) (subst (1 2) show_nat.simps, simp add: digit_char_ok)

lemma read_show_nat: "read_nat (show_nat n) = n"
proof (induction n rule: show_nat.induct)
  case (1 n)
  show ?case
  proof (cases "n < 10")
    case True
    then show ?thesis by (subst show_nat.simps) (simp add: read_nat_def digit_char_ok)
  next
    case False
    with 1 have "foldl (\<lambda>n c. 10 * n + digit_val c) 0 (show_nat (n div 10)) = n div 10" by (simp add: read_nat_def)
    with False show ?thesis by (subst show_nat.simps) (simp add: read_nat_def digit_char_ok)
  qed
qed

lemma show_nat_head: "hd (show_nat n) = CHR ''0'' \<longleftrightarrow> n = 0"
proof (induction n rule: show_nat.induct)
  case (1 n)
  show ?case
  proof (cases "n < 10")
    case True
    then show ?thesis by (subst show_nat.simps) (simp add: digit_char_ok)
  next
    case False
    with 1 have "hd (show_nat (n div 10)) \<noteq> CHR ''0''" by simp
    with False show_nat_digits [of "n div 10"] show ?thesis by (subst show_nat.simps) simp
  qed
qed

definition num_stop :: "str \<Rightarrow> bool" where
  "num_stop rest \<longleftrightarrow> (case rest of [] \<Rightarrow> True | c # _ \<Rightarrow> \<not> is_digit c \<and> c \<noteq> CHR ''.'' \<and> c \<noteq> CHR ''e'' \<and> c \<noteq> CHR ''E'')"

lemma span_digits:
  "list_all is_digit ds \<Longrightarrow> num_stop rest \<Longrightarrow> takeWhile is_digit (ds @ rest) = ds \<and> dropWhile is_digit (ds @ rest) = rest"
  by (induction ds) (auto simp: num_stop_def split: list.splits)

lemma p_int_show:
  assumes "num_stop rest"
  shows "p_int_part (show_nat n @ rest) = Some (show_nat n, rest)"
proof (cases "n = 0")
  case True
  then have "show_nat n = ''0''" by (simp add: show_nat.simps digit_char_def)
  then show ?thesis by (simp add: p_int_part_def)
next
  case False
  obtain c cs where c: "show_nat n = c # cs" using show_nat_digits [of n] by (cases "show_nat n") auto
  with False show_nat_head [of n] have "c \<noteq> CHR ''0''" by simp
  moreover have "is_digit c" using show_nat_digits [of n] c by simp
  ultimately show ?thesis
    using span_digits [OF conjunct2 [OF show_nat_digits] assms, of n] c by (simp add: p_int_part_def)
qed

lemma p_num_show:
  assumes "num_stop rest" and "length (show_nat (nat \<bar>i\<bar>)) \<le> 4300"
  shows "p_num (show_int i @ rest) = Some (JInt i, rest)"
proof -
  have ends: "p_frac rest = ([], rest)" "p_exp rest = (None, rest)"
    using assms(1) by (auto simp: num_stop_def p_frac_def p_exp_def split: list.splits)
  obtain c cs where c: "show_nat (nat \<bar>i\<bar>) = c # cs"
    using show_nat_digits [of "nat \<bar>i\<bar>"] by (cases "show_nat (nat \<bar>i\<bar>)") auto
  with show_nat_digits [of "nat \<bar>i\<bar>"] have "c \<noteq> CHR ''-''" by (auto simp: is_digit_def less_eq_char_def)
  with assms(2) c p_int_show [OF assms(1), of "nat \<bar>i\<bar>"] ends read_show_nat [of "nat \<bar>i\<bar>"] show ?thesis
    by (cases "i < 0") (simp_all add: p_num_def show_int_def Let_def)
qed

text \<open>Values that the program writes: short integers, no finite floats, dictionaries with one entry for a key.\<close>

fun plain_json :: "json \<Rightarrow> bool" where
  "plain_json (JInt i) = (length (show_nat (nat \<bar>i\<bar>)) \<le> 4300)"
| "plain_json (JFloat (Fin v)) = False"
| "plain_json (JArr xs) = list_all plain_json xs"
| "plain_json (JObj ms) = (distinct (map fst ms) \<and> list_all (\<lambda>m. plain_json (snd m)) ms)"
| "plain_json j = True"

fun jsize :: "json \<Rightarrow> nat" where
  "jsize (JArr xs) = Suc (sum_list (map (\<lambda>x. Suc (jsize x)) xs))"
| "jsize (JObj ms) = Suc (sum_list (map (\<lambda>m. Suc (jsize (snd m))) ms))"
| "jsize j = 1"

lemma dict_of_distinct: "distinct (map fst ms) \<Longrightarrow> dict_of ms = ms"
proof -
  have upd: "k \<notin> fst ` set d \<Longrightarrow> AList.update k v d = d @ [(k, v)]" for k and v :: json and d
    by (induction d) auto
  have "distinct (map fst (d @ ms)) \<Longrightarrow> fold (\<lambda>(k, v) d. AList.update k v d) ms d = d @ ms" for d
  proof (induction ms arbitrary: d)
    case Nil
    then show ?case by simp
  next
    case (Cons m ms)
    then have "fst m \<notin> fst ` set d" by auto
    with Cons show ?case by (cases m) (simp add: upd)
  qed
  from this [of "[]"] show "distinct (map fst ms) \<Longrightarrow> dict_of ms = ms" by (simp add: dict_of_def)
qed

lemma sep_by_Cons: "sep_by sep (x # xs) = x @ (if xs = [] then [] else sep @ sep_by sep xs)"
  by (cases xs) simp_all

lemma show_int_head:
  obtains c cs where "show_int i = c # cs" "is_digit c"
  | c cs where "show_int i = CHR ''-'' # c # cs" "is_digit c"
proof -
  obtain c cs where c: "show_nat (nat \<bar>i\<bar>) = c # cs" "is_digit c"
    using show_nat_digits [of "nat \<bar>i\<bar>"] by (cases "show_nat (nat \<bar>i\<bar>)") auto
  show ?thesis
  proof (cases "i < 0")
    case True
    with c that(2) show ?thesis by (simp add: show_int_def)
  next
    case False
    with c that(1) show ?thesis by (simp add: show_int_def)
  qed
qed

lemma digit_not:
  assumes "is_digit c"
  shows "c \<notin> {dquote, CHR ''{'', CHR ''['', CHR '']'', CHR ''}'', CHR ''n'', CHR ''t'', CHR ''f'', CHR ''N'', CHR ''I'', CHR ''-''}"
    and "\<not> is_json_ws c"
  using assms by (auto simp: is_digit_def is_json_ws_def less_eq_char_def)

lemma dump_head:
  assumes "plain_json j"
  obtains c cs where "json_dump fr l j = c # cs" "\<not> is_json_ws c" "c \<noteq> CHR '']''" "c \<noteq> CHR ''}''"
proof (cases j)
  case (JInt i)
  from show_int_head [of i] JInt that digit_not show ?thesis
    by (cases rule: show_int_head [of i]) (auto simp: is_json_ws_def)
next
  case (JFloat f)
  with assms that show ?thesis by (cases f) (auto simp: is_json_ws_def)
next
  case (JBool b)
  with that show ?thesis by (cases b) (auto simp: is_json_ws_def)
next
  case (JArr xs)
  with that show ?thesis by (cases "xs = []") (auto simp: is_json_ws_def)
next
  case (JObj ms)
  with that show ?thesis by (cases "ms = []") (auto simp: is_json_ws_def)
qed (use that in \<open>auto simp: is_json_ws_def json_str_def\<close>)

lemma skip_ws_dump: "plain_json j \<Longrightarrow> skip_ws (json_dump fr l j @ x) = json_dump fr l j @ x"
  by (rule dump_head [of j fr l]) (auto simp: skip_ws_stop)

lemma num_stop_indent [simp]: "num_stop (indent l @ x)"
  by (simp add: num_stop_def indent_def is_digit_def less_eq_char_def)

lemma num_stop_comma [simp]: "num_stop (CHR '','' # x)"
  by (simp add: num_stop_def is_digit_def less_eq_char_def)

lemma p_elems_dump:
  assumes "\<And>x l n rest. x \<in> set xs \<Longrightarrow> plain_json x \<Longrightarrow> jsize x \<le> n \<Longrightarrow> num_stop rest \<Longrightarrow>
      p_val n (json_dump fr l x @ rest) = Some (x, rest)"
    and "list_all plain_json xs" and "xs \<noteq> []" and "sum_list (map (\<lambda>x. Suc (jsize x)) xs) \<le> n"
  shows "p_elems n (sep_by (CHR '','' # indent l) (map (json_dump fr l) xs) @ indent k @ CHR '']'' # rest) = Some (xs, rest)"
  using assms
proof (induction xs arbitrary: n)
  case Nil
  then show ?case by simp
next
  case (Cons x xs)
  obtain m where n: "n = Suc m" and m: "jsize x \<le> m" "sum_list (map (\<lambda>x. Suc (jsize x)) xs) \<le> m"
    using Cons.prems(4) by (cases n) simp_all
  have x: "plain_json x" and xs: "list_all plain_json xs" using Cons.prems(2) by simp_all
  note v = Cons.prems(1) [OF _ x m(1)]
  show ?case
  proof (cases "xs = []")
    case True
    with n v [of "indent k @ CHR '']'' # rest" l] show ?thesis by (simp add: skip_ws_stop is_json_ws_def)
  next
    case False
    have IH: "p_elems m (sep_by (CHR '','' # indent l) (map (json_dump fr l) xs) @ indent k @ CHR '']'' # rest) = Some (xs, rest)"
      by (rule Cons.IH) (use Cons.prems(1) xs False m(2) in auto)
    obtain y ys where "xs = y # ys" using False by (cases xs) auto
    with xs have ws: "skip_ws (sep_by (CHR '','' # indent l) (map (json_dump fr l) xs) @ t)
        = sep_by (CHR '','' # indent l) (map (json_dump fr l) xs) @ t" for t
      by (simp add: sep_by_Cons skip_ws_dump)
    show ?thesis using n False v [of "CHR '','' # indent l @ sep_by (CHR '','' # indent l) (map (json_dump fr l) xs)
        @ indent k @ CHR '']'' # rest" l] IH
      by (simp add: sep_by_Cons skip_ws_stop is_json_ws_def ws)
  qed
qed

lemma p_members_dump:
  assumes "\<And>v l n rest. v \<in> snd ` set ms \<Longrightarrow> plain_json v \<Longrightarrow> jsize v \<le> n \<Longrightarrow> num_stop rest \<Longrightarrow>
      p_val n (json_dump fr l v @ rest) = Some (v, rest)"
    and "list_all (\<lambda>m. plain_json (snd m)) ms" and "ms \<noteq> []" and "sum_list (map (\<lambda>m. Suc (jsize (snd m))) ms) \<le> n"
  shows "p_members n (sep_by (CHR '','' # indent l) (map (\<lambda>(k, v). json_str k @ '': '' @ json_dump fr l v) ms)
           @ indent i @ CHR ''}'' # rest) = Some (ms, rest)"
  using assms
proof (induction ms arbitrary: n)
  case Nil
  then show ?case by simp
next
  case (Cons kv ms)
  obtain k x where kv: "kv = (k, x)" by (cases kv)
  obtain m where n: "n = Suc m" and m: "jsize x \<le> m" "sum_list (map (\<lambda>m. Suc (jsize (snd m))) ms) \<le> m"
    using Cons.prems(4) kv by (cases n) simp_all
  have x: "plain_json x" and xs: "list_all (\<lambda>m. plain_json (snd m)) ms" using Cons.prems(2) kv by simp_all
  have v: "p_val m (json_dump fr l x @ t) = Some (x, t)" if "num_stop t" for t
    by (rule Cons.prems(1)) (use kv x m(1) that in auto)
  have key: "skip_ws (CHR '' '' # json_dump fr l x @ t) = json_dump fr l x @ t" for t
    using skip_ws_dump [OF x, of fr l t] by (simp add: skip_ws_def is_json_ws_def)
  show ?case
  proof (cases "ms = []")
    case True
    with n kv v [of "indent i @ CHR ''}'' # rest"] show ?thesis
      by (simp add: json_str_def p_str_round skip_ws_stop is_json_ws_def key)
  next
    case False
    have IH: "p_members m (sep_by (CHR '','' # indent l) (map (\<lambda>(k, v). json_str k @ '': '' @ json_dump fr l v) ms)
        @ indent i @ CHR ''}'' # rest) = Some (ms, rest)"
      by (rule Cons.IH) (use Cons.prems(1) xs False m(2) in auto)
    obtain k' y ys where "ms = (k', y) # ys" using False by (cases ms) auto
    then have ws: "skip_ws (sep_by (CHR '','' # indent l) (map (\<lambda>(k, v). json_str k @ '': '' @ json_dump fr l v) ms) @ t)
        = sep_by (CHR '','' # indent l) (map (\<lambda>(k, v). json_str k @ '': '' @ json_dump fr l v) ms) @ t" for t
      by (simp add: sep_by_Cons json_str_def skip_ws_stop is_json_ws_def)
    show ?thesis using n kv False v [of "CHR '','' # indent l @ sep_by (CHR '','' # indent l)
        (map (\<lambda>(k, v). json_str k @ '': '' @ json_dump fr l v) ms) @ indent i @ CHR ''}'' # rest"] IH
      by (simp add: sep_by_Cons json_str_def p_str_round skip_ws_stop is_json_ws_def key ws [simplified json_str_def append.simps append_assoc])
  qed
qed

lemma literal_num: "p_literal literals (show_int i @ rest) = None"
proof (cases rule: show_int_head [of i])
  case (1 c cs)
  with digit_not(1) [OF 1(2)] show ?thesis by (simp add: literals_def starts_with_def eq_commute [of _ c])
next
  case (2 c cs)
  with digit_not(1) [OF 2(2)] show ?thesis by (simp add: literals_def starts_with_def eq_commute [of _ c])
qed

lemma p_val_dump:
  "plain_json j \<Longrightarrow> jsize j \<le> n \<Longrightarrow> num_stop rest \<Longrightarrow> p_val n (json_dump fr l j @ rest) = Some (j, rest)"
proof (induction j arbitrary: l n rest)
  case (JInt i)
  then obtain m where n: "n = Suc m" by (cases n) auto
  have "p_num (show_int i @ rest) = Some (JInt i, rest)" using JInt by (intro p_num_show) simp_all
  moreover have "\<exists>c cs. show_int i @ rest = c # cs \<and> c \<notin> {dquote, CHR ''{'', CHR ''[''}"
    using digit_not(1) by (cases rule: show_int_head [of i]) auto
  ultimately show ?case using n literal_num [of i rest] by auto
next
  case (JFloat f)
  then obtain m where n: "n = Suc m" by (cases n) auto
  with JFloat show ?case by (cases f) (auto simp: literals_def starts_with_def)
next
  case (JStr s)
  then obtain m where "n = Suc m" by (cases n) auto
  then show ?case by (simp add: json_str_def p_str_round)
next
  case (JArr xs)
  then obtain m where n: "n = Suc m" and m: "sum_list (map (\<lambda>x. Suc (jsize x)) xs) \<le> m" by (cases n) auto
  show ?case
  proof (cases "xs = []")
    case True
    with n show ?thesis by (simp add: skip_ws_stop is_json_ws_def)
  next
    case False
    let ?B = "sep_by (CHR '','' # indent (Suc l)) (map (json_dump fr (Suc l)) xs) @ indent l @ CHR '']'' # rest"
    obtain y ys where xs: "xs = y # ys" using False by (cases xs) auto
    with JArr.prems(1) have y: "plain_json y" by simp
    obtain c cs where c: "?B = c # cs" "\<not> is_json_ws c" "c \<noteq> CHR '']''"
    proof -
      obtain d ds where "json_dump fr (Suc l) y = d # ds" "\<not> is_json_ws d" "d \<noteq> CHR '']''"
        using dump_head [OF y] by blast
      with xs that show ?thesis by (simp add: sep_by_Cons)
    qed
    have "p_elems m ?B = Some (xs, rest)"
      by (rule p_elems_dump) (use JArr False m in auto)
    with n False c show ?thesis by (simp add: skip_ws_stop)
  qed
next
  case (JObj ms)
  then obtain m where n: "n = Suc m" and m: "sum_list (map (\<lambda>m. Suc (jsize (snd m))) ms) \<le> m" by (cases n) auto
  show ?case
  proof (cases "ms = []")
    case True
    with n show ?thesis by (simp add: skip_ws_stop is_json_ws_def)
  next
    case False
    let ?B = "sep_by (CHR '','' # indent (Suc l)) (map (\<lambda>(k, v). json_str k @ '': '' @ json_dump fr (Suc l) v) ms)
      @ indent l @ CHR ''}'' # rest"
    obtain k v ys where ms: "ms = (k, v) # ys" using False by (cases ms) auto
    then obtain cs where c: "?B = dquote # cs" by (simp add: sep_by_Cons json_str_def)
    have "p_members m ?B = Some (ms, rest)"
      by (rule p_members_dump) (use JObj False m in \<open>auto simp: image_iff\<close>)
    with n False c JObj.prems(1) show ?thesis by (simp add: skip_ws_stop is_json_ws_def dict_of_distinct)
  qed
qed (auto simp: literals_def starts_with_def gr0_conv_Suc Suc_le_eq)

lemma sum_list_sep_by:
  "sum_list (map (\<lambda>x. Suc (length x)) xs) \<le> length (sep_by (c # sep) xs) + 1"
  by (induction xs) (auto simp: sep_by_Cons)

lemma jsize_dump: "plain_json j \<Longrightarrow> jsize j \<le> length (json_dump fr l j)"
proof (induction j arbitrary: l)
  case (JArr xs)
  have "sum_list (map (\<lambda>x. Suc (jsize x)) xs) \<le> sum_list (map (\<lambda>x. Suc (length (json_dump fr (Suc l) x))) xs)"
    by (rule sum_list_mono) (use JArr in \<open>auto simp: list_all_iff\<close>)
  also have "\<dots> \<le> length (sep_by (CHR '','' # indent (Suc l)) (map (json_dump fr (Suc l)) xs)) + 1"
    using sum_list_sep_by [of "map (json_dump fr (Suc l)) xs" "CHR '',''" "indent (Suc l)"] by (simp add: comp_def)
  finally show ?case by (auto simp: indent_def)
next
  case (JObj ms)
  let ?f = "\<lambda>(k, v). json_str k @ '': '' @ json_dump fr (Suc l) v"
  have "sum_list (map (\<lambda>m. Suc (jsize (snd m))) ms) \<le> sum_list (map (\<lambda>m. Suc (length (?f m))) ms)"
  proof (rule sum_list_mono)
    fix m assume m: "m \<in> set ms"
    then have "jsize (snd m) \<le> length (json_dump fr (Suc l) (snd m))"
      using JObj.IH [OF m, of "snd m"] JObj.prems by (auto simp: list_all_iff snds.simps)
    then show "Suc (jsize (snd m)) \<le> Suc (length (?f m))" by (simp add: case_prod_unfold)
  qed
  also have "\<dots> \<le> length (sep_by (CHR '','' # indent (Suc l)) (map ?f ms)) + 1"
    using sum_list_sep_by [of "map ?f ms" "CHR '',''" "indent (Suc l)"] by (simp add: comp_def)
  finally show ?case by (auto simp: indent_def)
next
  case (JFloat f)
  then show ?case by (cases f) simp_all
next
  case (JInt i)
  then show ?case by (cases rule: show_int_head [of i]) simp_all
qed (simp_all add: json_str_def)

lemma loads_dumps: "plain_json j \<Longrightarrow> json_loads (json_dumps fr j) = Some j"
proof -
  assume j: "plain_json j"
  have "p_val (Suc (2 * length (json_dump fr 0 j))) (json_dump fr 0 j @ []) = Some (j, [])"
    by (rule p_val_dump [OF j]) (use jsize_dump [OF j, of fr 0] in \<open>auto simp: num_stop_def\<close>)
  with skip_ws_dump [OF j, of fr 0 "[]"] show ?thesis by (simp add: json_loads_def json_dumps_def skip_ws_def)
qed

end
