(* ===== verification/Taxonomy.thy ===== *)
theory Taxonomy
  imports Prelude
begin

text \<open>
  The enumerations of \<open>scripts/core/security_evaluator.py\<close> that every verdict carries: who
  authored the command, what it threatens, the posture of the gate, and the layer that
  decided.
\<close>

datatype origin = HUMAN | AGENT | INJECTED | EMERGENT

datatype consequence = NO_CONSEQUENCE | DESTRUCTION | EXFILTRATION | INTEGRITY | AVAILABILITY | PERSISTENCE

datatype gate_state = ENFORCE | OBSERVE | DEGRADED

datatype decision_layer =
    ALLOWLIST | MANAGED_GIT_GUARD | SAST_SHELLCHECK | SAST_SEMGREP | SHELL_CRITICAL | SANDBOX_GUARD
  | PYTHON_AST | SECRET_GUARD | LLM_INSPECTOR | CLOUD_JUDGE | GRAY_ZONE_MATRIX | FAST_TRACK_AST
  | NOT_ALLOWLISTED | HUMAN_APPROVED | PACKAGE_GUARD | COMPLEXITY_TAX | ORIGIN_GUARD
  | NORMALIZATION_AMBIGUOUS | FAST_TRACK_WORKSPACE_ALLOWLIST

fun origin_value :: "origin \<Rightarrow> str" where
  "origin_value HUMAN = ''H''"
| "origin_value AGENT = ''A''"
| "origin_value INJECTED = ''I''"
| "origin_value EMERGENT = ''E''"

fun consequence_value :: "consequence \<Rightarrow> str" where
  "consequence_value NO_CONSEQUENCE = ''NONE''"
| "consequence_value DESTRUCTION = ''DEST''"
| "consequence_value EXFILTRATION = ''EXFIL''"
| "consequence_value INTEGRITY = ''INT''"
| "consequence_value AVAILABILITY = ''AVAIL''"
| "consequence_value PERSISTENCE = ''PERS''"

fun gate_state_value :: "gate_state \<Rightarrow> str" where
  "gate_state_value ENFORCE = ''ENFORCE''"
| "gate_state_value OBSERVE = ''OBSERVE''"
| "gate_state_value DEGRADED = ''DEGRADED''"

fun layer_value :: "decision_layer \<Rightarrow> str" where
  "layer_value ALLOWLIST = ''ALLOWLIST''"
| "layer_value MANAGED_GIT_GUARD = ''MANAGED_GIT_GUARD''"
| "layer_value SAST_SHELLCHECK = ''SAST_SHELLCHECK''"
| "layer_value SAST_SEMGREP = ''SAST_SEMGREP''"
| "layer_value SHELL_CRITICAL = ''SHELL_CRITICAL''"
| "layer_value SANDBOX_GUARD = ''SANDBOX_GUARD''"
| "layer_value PYTHON_AST = ''PYTHON_AST''"
| "layer_value SECRET_GUARD = ''SECRET_GUARD''"
| "layer_value LLM_INSPECTOR = ''LLM_INSPECTOR''"
| "layer_value CLOUD_JUDGE = ''CLOUD_JUDGE''"
| "layer_value GRAY_ZONE_MATRIX = ''GRAY_ZONE_MATRIX''"
| "layer_value FAST_TRACK_AST = ''FAST_TRACK_AST''"
| "layer_value NOT_ALLOWLISTED = ''NOT_ALLOWLISTED''"
| "layer_value HUMAN_APPROVED = ''HUMAN_APPROVED''"
| "layer_value PACKAGE_GUARD = ''PACKAGE_GUARD''"
| "layer_value COMPLEXITY_TAX = ''COMPLEXITY_TAX''"
| "layer_value ORIGIN_GUARD = ''ORIGIN_GUARD''"
| "layer_value NORMALIZATION_AMBIGUOUS = ''NORMALIZATION_AMBIGUOUS''"
| "layer_value FAST_TRACK_WORKSPACE_ALLOWLIST = ''FAST_TRACK_WORKSPACE_ALLOWLIST''"

text \<open>The argument is the value of \<open>SCHENGEN_SHADOW_MODE\<close>, if it is set.\<close>

definition is_shadow_mode :: "str option \<Rightarrow> bool" where
  "is_shadow_mode env =
     (let val = str_lower (strip (case env of Some v \<Rightarrow> v | None \<Rightarrow> ''0''))
      in val \<in> {''1'', ''true'', ''yes'', ''on'', ''shadow'', ''observe''})"

end
