(* ===== verification/DeriveTaxonomy.thy ===== *)
theory DeriveTaxonomy
  imports Taxonomy PyRegex
begin

text \<open>
  The two-dimensional taxonomy of a verdict (\<open>derive_taxonomy\<close> of
  \<open>scripts/core/security_evaluator.py\<close>): origin, consequence and mechanism, the posture of the
  gate and the shadow-mode flags.  The branches of the source are one definition each.
\<close>

type_synonym cause = "consequence \<times> str \<times> origin"

definition safe_cause :: "decision_layer \<Rightarrow> origin \<Rightarrow> cause" where
  "safe_cause layer org =
     (if layer = ALLOWLIST then (NO_CONSEQUENCE, ''user-allowlist'', HUMAN)
      else if layer = HUMAN_APPROVED then (NO_CONSEQUENCE, ''human-approved-history'', HUMAN)
      else if layer = PACKAGE_GUARD then (NO_CONSEQUENCE, ''package-read-query'', org)
      else if layer = CLOUD_JUDGE then (NO_CONSEQUENCE, ''cloud-judge-verified'', org)
      else if layer = FAST_TRACK_WORKSPACE_ALLOWLIST then (NO_CONSEQUENCE, ''workspace-allowlist'', org)
      else (NO_CONSEQUENCE, ''fast-track-verified'', org))"

definition is_dialog :: "str \<Rightarrow> bool" where
  "is_dialog cmd \<longleftrightarrow> cmd = ''doom_loop'' \<or> starts_with cmd ''question'' \<or> starts_with cmd ''unhandled_dialog ''"

definition dialog_mechanism :: "str \<Rightarrow> str" where
  "dialog_mechanism cmd =
     (if cmd = ''doom_loop'' then ''doom-loop'' else if starts_with cmd ''question'' then ''question''
      else ''unhandled-dialog'')"

definition python_cause :: "str \<Rightarrow> consequence \<times> str" where
  "python_cause reason =
     (if contains ''external'' (str_lower reason) \<or> contains ''network'' (str_lower reason)
      then (EXFILTRATION, ''python-network'') else (INTEGRITY, ''python-ast''))"

definition gray_zone_cause :: "str \<Rightarrow> str \<Rightarrow> consequence \<times> str" where
  "gray_zone_cause cmd reason =
     (if contains ''DELETE'' reason \<or> contains ''rm '' cmd then (DESTRUCTION, ''gray-zone-delete'')
      else if contains ''TRUNCATE'' reason then (DESTRUCTION, ''gray-zone-truncate'')
      else if contains ''READ'' reason then (EXFILTRATION, ''gray-zone-read'')
      else if contains ''MUTATING_API'' reason then (INTEGRITY, ''gray-zone-api'')
      else if contains ''HEAVY_EXEC'' reason then (AVAILABILITY, ''gray-zone-exec'')
      else (DESTRUCTION, ''non-vcs-gray-zone''))"

definition managed_git_cause :: "str \<Rightarrow> str \<Rightarrow> consequence \<times> str" where
  "managed_git_cause cmd reason =
     (if contains ''DELETE'' reason \<or> contains ''DELETE'' cmd then (DESTRUCTION, ''git-api-delete'')
      else (INTEGRITY, ''git-api-mutation''))"

definition semgrep_cause :: "str \<Rightarrow> cause" where
  "semgrep_cause reason =
     (let piped = contains ''piped'' (str_lower reason); rev_sh = contains ''reverse'' (str_lower reason) in
      (if piped \<or> rev_sh then PERSISTENCE else INTEGRITY,
       if piped then ''piped-remote-script-execution'' else if rev_sh then ''reverse-shell'' else ''semgrep-sast-rule'',
       if piped \<or> rev_sh then INJECTED else EMERGENT))"

definition FORK_BOMB_RE :: regex where
  "FORK_BOMB_RE = re_c '':%(%)%s*%{%s*:%s*%|%s*:%s*&%s*%}%s*;%s*:''"

definition SYSTEM_KILL_RE :: regex where
  "SYSTEM_KILL_RE = re_c ''%b(killall|pkill)%s+-9%s+(launchd|init|systemd|Dock|Finder)''"

definition GIT_DESTRUCTIVE_RE :: regex where
  "GIT_DESTRUCTIVE_RE = re_c ''%bgit%s+(push%b|reset%s+--hard|clean%s+-[fF]|rm%s+-[rfRF]+)''"

definition DISK_WIPE_RE :: regex where
  "DISK_WIPE_RE = re_c ''%b(diskutil%s+(erase|partition|zero)|mkfs|dd|gpt%s+destroy|asr%s+restore|tmutil%s+delete)''"

definition shell_critical_cause :: "str \<Rightarrow> consequence \<times> str" where
  "shell_critical_cause cmd =
     (if re_found (re_ci ''%b(sudo|su)%b'') cmd then (PERSISTENCE, ''privilege-escalation'')
      else if re_found (re_ci ''%b(chmod|chown)%b'') cmd then (INTEGRITY, ''perm-mutation'')
      else if re_found (re_ci ''%b(csrutil|spctl|bputil|nvram|bless)%b'') cmd then (INTEGRITY, ''firmware-sip-mutation'')
      else if re_found (re_ci ''%b(dscl|sysadminctl)%b'') cmd then (PERSISTENCE, ''user-account-mutation'')
      else if re_found (re_ci ''%b(pfctl|networksetup)%b'') cmd then (AVAILABILITY, ''network-disruption'')
      else if re_found (re_ci ''%b(ps|launchctl)%b'') cmd \<or> contains ''/proc/'' cmd then (EXFILTRATION, ''process-env-dump'')
      else if re_found FORK_BOMB_RE cmd \<or> re_found SYSTEM_KILL_RE cmd then (AVAILABILITY, ''dos-fork-bomb'')
      else if re_found GIT_DESTRUCTIVE_RE cmd then (DESTRUCTION, ''git-destructive'')
      else if re_found DISK_WIPE_RE cmd then (DESTRUCTION, ''disk-format-wipe'')
      else (DESTRUCTION, ''rm-rf''))"

definition by_author :: "origin \<Rightarrow> consequence \<times> str \<Rightarrow> cause" where
  "by_author org cm = (fst cm, snd cm, org)"

fun unsafe_cause :: "str \<Rightarrow> decision_layer \<Rightarrow> str \<Rightarrow> origin \<Rightarrow> cause" where
  "unsafe_cause cmd SECRET_GUARD reason org = by_author org (EXFILTRATION, ''secret-path'')"
| "unsafe_cause cmd SANDBOX_GUARD reason org = by_author org (INTEGRITY, ''sandbox-write'')"
| "unsafe_cause cmd PYTHON_AST reason org = by_author org (python_cause reason)"
| "unsafe_cause cmd GRAY_ZONE_MATRIX reason org = by_author org (gray_zone_cause cmd reason)"
| "unsafe_cause cmd MANAGED_GIT_GUARD reason org = by_author org (managed_git_cause cmd reason)"
| "unsafe_cause cmd SAST_SHELLCHECK reason org =
     (DESTRUCTION, if contains ''SC2115'' reason \<or> contains ''2115'' reason then ''unbound-variable-sc2115''
                   else ''unbound-variable-sc2154'', EMERGENT)"
| "unsafe_cause cmd SAST_SEMGREP reason org = semgrep_cause reason"
| "unsafe_cause cmd SHELL_CRITICAL reason org = by_author org (shell_critical_cause cmd)"
| "unsafe_cause cmd NOT_ALLOWLISTED reason org = by_author org (NO_CONSEQUENCE, ''fail-closed-not-allowlisted'')"
| "unsafe_cause cmd HUMAN_APPROVED reason org = by_author org (NO_CONSEQUENCE, ''human-approved-history'')"
| "unsafe_cause cmd PACKAGE_GUARD reason org = by_author org (INTEGRITY, ''package-mutation'')"
| "unsafe_cause cmd ORIGIN_GUARD reason org = by_author org (NO_CONSEQUENCE, ''origin-hard-escalate'')"
| "unsafe_cause cmd NORMALIZATION_AMBIGUOUS reason org = by_author org (NO_CONSEQUENCE, ''normalization-ambiguous'')"
| "unsafe_cause cmd COMPLEXITY_TAX reason org = by_author org (NO_CONSEQUENCE, ''complexity-tax'')"
| "unsafe_cause cmd CLOUD_JUDGE reason org = by_author org (DESTRUCTION, ''cloud-judge-defer'')"
| "unsafe_cause cmd LLM_INSPECTOR reason org = by_author org (DESTRUCTION, ''subshell-substitution'')"
| "unsafe_cause cmd layer reason org = by_author org (DESTRUCTION, ''none'')"

record taxonomy =
  tx_origin :: origin
  tx_consequence :: consequence
  tx_mechanism :: str
  tx_gate_state :: gate_state
  tx_shadow_mode :: bool
  tx_counterfactual_block :: bool

definition mentions_degradation :: "str \<Rightarrow> bool" where
  "mentions_degradation reason \<longleftrightarrow> contains ''DEGRADED'' reason \<or> contains ''degraded'' (str_lower reason)
     \<or> contains ''binary absent'' (str_lower reason)"

definition derive_taxonomy :: "str option \<Rightarrow> str \<Rightarrow> decision_layer \<Rightarrow> bool \<Rightarrow> str \<Rightarrow> origin \<Rightarrow> taxonomy" where
  "derive_taxonomy shadow_env cmd layer ok reason org =
     (let shadow = is_shadow_mode shadow_env;
          (cons, mech, org') =
            (if ok then safe_cause layer org
             else if is_dialog cmd then (INTEGRITY, dialog_mechanism cmd, org)
             else unsafe_cause cmd layer reason org);
          degraded = mentions_degradation reason
      in \<lparr>tx_origin = org', tx_consequence = cons, tx_mechanism = (if degraded then ''sast-degraded'' else mech),
          tx_gate_state = (if degraded then DEGRADED else if shadow then OBSERVE else ENFORCE),
          tx_shadow_mode = shadow, tx_counterfactual_block = (\<not> ok \<and> shadow)\<rparr>)"

definition show_flag :: "bool \<Rightarrow> str" where
  "show_flag b = (if b then ''true'' else ''false'')"

text \<open>The dictionary as it is stored.\<close>

definition taxonomy_fields :: "taxonomy \<Rightarrow> (str \<times> str) list" where
  "taxonomy_fields t =
     [(''origin'', origin_value (tx_origin t)), (''consequence'', consequence_value (tx_consequence t)),
      (''mechanism'', tx_mechanism t), (''gate_state'', gate_state_value (tx_gate_state t)),
      (''shadow_mode'', show_flag (tx_shadow_mode t)), (''counterfactual_block'', show_flag (tx_counterfactual_block t))]"

lemma safe_cause_none [simp]: "fst (safe_cause layer org) = NO_CONSEQUENCE"
  by (simp add: safe_cause_def)

lemma derived_safe: "tx_consequence (derive_taxonomy env cmd layer True reason org) = NO_CONSEQUENCE"
  by (simp add: derive_taxonomy_def Let_def case_prod_unfold)

lemma derived_block [simp]:
  "tx_counterfactual_block (derive_taxonomy env cmd layer ok reason org) \<longleftrightarrow> \<not> ok \<and> is_shadow_mode env"
  "tx_shadow_mode (derive_taxonomy env cmd layer ok reason org) \<longleftrightarrow> is_shadow_mode env"
  by (simp_all add: derive_taxonomy_def Let_def case_prod_unfold)

text \<open>Only the allowlist and approved history are credited to a human who did not author the command.\<close>

lemma derived_human:
  assumes "tx_origin (derive_taxonomy env cmd layer ok reason org) = HUMAN" and "org \<noteq> HUMAN"
  shows "ok \<and> (layer = ALLOWLIST \<or> layer = HUMAN_APPROVED)"
proof (cases ok)
  case True
  with assms show ?thesis
    by (auto simp: derive_taxonomy_def Let_def safe_cause_def split: if_splits)
next
  case False
  have "snd (snd (unsafe_cause cmd layer reason org)) \<noteq> HUMAN"
    using assms(2) by (cases layer) (simp_all add: by_author_def semgrep_cause_def Let_def)
  with False assms show ?thesis
    by (auto simp: derive_taxonomy_def Let_def case_prod_unfold split: if_splits)
qed

end
