(* ===== verification/CloudClient.thy ===== *)
theory CloudClient
  imports PyJson PyRegex DeriveTaxonomy
begin

text \<open>
  The client of the cloud judge (\<open>scripts/core/cloud_judge.py\<close>): the configuration, the parsing
  of a verdict, and the bounded retry loop around one HTTP request.  The network is a
  parameter: what each attempt gives.  Floats are exact rationals, with infinities and NaN.
\<close>

definition GENERAL_CLOUD_JUDGE_SYSTEM_PROMPT :: str where
  \<open>GENERAL_CLOUD_JUDGE_SYSTEM_PROMPT = concat [
     ''You are a strict, fail-closed security gatekeeper for Herdr SmartGate. Decide whether a command or permission '',
     ''request should be auto-approved or deferred to a human. Before deciding, DECOMPOSE the command into '',
     ''risk segments and verify each: (1) chained segments (`;` `&&` `||` `|` pipes, subshells, xargs, eval), '',
     ''(2) mutations (write/delete/truncate/move/chmod), (3) network egress (curl/wget/ssh/scp/git-push/HTTP), '',
     ''(4) sensitive paths (secrets or /etc,/System,/var,/usr,/dev), (5) command substitutions ($(...), backticks, '',
     ''<(...), env expansion). Respond ONLY in JSON: {"is_safe": true|false, "confidence": <0.0-1.0>, "reason": '',
     ''"<concise explanation that names the risk segments found>"}. confidence is your calibrated certainty '',
     ''that the command is safe to AUTO-APPROVE (1.0 = certain). Emit confidence >= 0.9 ONLY when the command '',
     ''is clearly benign with no ambiguity, egress, or mutation risk. Emit confidence < 0.9 (or is_safe=false) '',
     ''whenever there is ANY doubt, ambiguity, destructive, or exfil risk.Anti-Rubber-Stamp Rules:'',
     [nl],
     ''- NEVER emit is_safe=true merely because the command is short or looks simple. Run the decomposition '',
     ''first, always.'',
     [nl],
     ''- Auto-approve only obviously-safe, read-only, query, or routine development operations where EVERY '',
     ''risk segment is absent.'',
     [nl],
     ''- Block and defer if there is destructive deletion, secret exfiltration, system root modification, network '',
     ''egress to unknown endpoints, command substitution, or any ambiguous/dangerous payload -> is_safe false.'',
     [nl],
     ''- If safety cannot be determined from the available context -> is_safe false (defer to human).'']\<close>

text \<open>\<open>a or b\<close> on optional texts: an empty text counts as absent.\<close>

definition or_text :: "str option \<Rightarrow> str \<Rightarrow> str" where
  "or_text a b = (case a of Some v \<Rightarrow> (if v = [] then b else v) | None \<Rightarrow> b)"

definition resolve_guard_llm_config ::
    "(str \<Rightarrow> str option) \<Rightarrow> str option \<Rightarrow> str option \<Rightarrow> str option \<Rightarrow> str \<times> str \<times> str" where
  "resolve_guard_llm_config env endpoint model api_key =
     (let effective_model = or_text model (or_text (env ''GUARD_LLM_MODEL'') ''gpt-5.6-luna'');
          effective_key = or_text api_key (or_text (env ''GUARD_LLM_API_KEY'') (or_text (env ''OPENAI_API_KEY'') []));
          base_url = rstrip_chars ''/'' (strip (or_text (env ''GUARD_LLM_BASE_URL'') (or_text (env ''OPENAI_BASE_URL'') [])));
          env_endpoint = rstrip_chars ''/'' (strip (case env ''GUARD_LLM_ENDPOINT'' of Some v \<Rightarrow> v | None \<Rightarrow> []));
          effective_endpoint =
            (if or_text endpoint [] \<noteq> [] then rstrip_chars ''/'' (or_text endpoint [])
             else if env_endpoint \<noteq> [] then env_endpoint
             else if base_url \<noteq> [] then base_url @ ''/chat/completions''
             else if effective_key \<noteq> [] then ''https://api.openai.com/v1/chat/completions''
             else [])
      in (effective_endpoint, effective_model, effective_key))"

subsection \<open>Parsing a verdict\<close>

text \<open>\<open>a < b\<close> on floats; every comparison with NaN is false.\<close>

fun f_less :: "pyfloat \<Rightarrow> pyfloat \<Rightarrow> bool" where
  "f_less (Fin a) (Fin b) = (a < b)"
| "f_less (Fin a) PInf = True"
| "f_less NInf (Fin b) = True"
| "f_less NInf PInf = True"
| "f_less a b = False"

fun f_ge :: "pyfloat \<Rightarrow> pyfloat \<Rightarrow> bool" where
  "f_ge NaN b = False"
| "f_ge a NaN = False"
| "f_ge a b = (\<not> f_less a b)"

text \<open>\<open>max(a, b)\<close> and \<open>min(a, b)\<close>: the second argument wins only when it is really larger or smaller.\<close>

definition py_max :: "pyfloat \<Rightarrow> pyfloat \<Rightarrow> pyfloat" where
  "py_max a b = (if f_less a b then b else a)"

definition py_min :: "pyfloat \<Rightarrow> pyfloat \<Rightarrow> pyfloat" where
  "py_min a b = (if f_less b a then b else a)"

definition FLOAT_TEXT_RE :: regex where
  "FLOAT_TEXT_RE = re_ci (''[+-]?([0-9]+(_[0-9]+)*%.?([0-9]+(_[0-9]+)*)?|%.[0-9]+(_[0-9]+)*)''
     @ ''(e[+-]?[0-9]+(_[0-9]+)*)?'')"

definition read_decimal :: "str \<Rightarrow> rat" where
  "read_decimal s =
     (let ip = takeWhile is_digit s; (fr, r) = p_frac (dropWhile is_digit s);
          r' = (if starts_with r ''.'' then tl r else r); (ex, _) = p_exp r'
      in of_nat (read_nat (ip @ fr)) * ten_to ((case ex of None \<Rightarrow> 0 | Some e \<Rightarrow> e) - int (length fr)))"

text \<open>\<open>float(text)\<close>, or \<open>None\<close> for a \<open>ValueError\<close>.\<close>

definition float_text :: "str \<Rightarrow> pyfloat option" where
  "float_text text =
     (let t = str_lower (strip text); neg = starts_with t ''-'';
          u = (if neg \<or> starts_with t ''+'' then tl t else t)
      in if u = ''inf'' \<or> u = ''infinity'' then Some (if neg then NInf else PInf)
         else if u = ''nan'' then Some NaN
         else if re_full FLOAT_TEXT_RE t
         then (let v = read_decimal (filter (\<lambda>c. c \<noteq> CHR ''_'') u) in Some (float_of (if neg then - v else v)))
         else None)"

datatype float_result = Float pyfloat | BadFloat | TooLarge

fun py_float :: "json \<Rightarrow> float_result" where
  "py_float (JBool b) = Float (Fin (if b then 1 else 0))"
| "py_float (JInt i) = (if \<bar>i\<bar> \<ge> FLOAT_LIMIT then TooLarge else Float (Fin (of_int i)))"
| "py_float (JFloat f) = Float f"
| "py_float (JStr s) = (case float_text s of Some f \<Rightarrow> Float f | None \<Rightarrow> BadFloat)"
| "py_float v = BadFloat"

text \<open>\<open>str(v)\<close>; how floats, lists and dictionaries print is the parameter \<open>py_repr\<close>.\<close>

fun py_str :: "(json \<Rightarrow> str) \<Rightarrow> json \<Rightarrow> str" where
  "py_str py_repr (JStr s) = s"
| "py_str py_repr JNull = ''None''"
| "py_str py_repr (JBool b) = (if b then ''True'' else ''False'')"
| "py_str py_repr (JInt i) = show_int i"
| "py_str py_repr v = py_repr v"

definition strip_fences :: "str \<Rightarrow> str" where
  "strip_fences content =
     re_sub (re_c ''%s*```$'') (\<lambda>_. []) (re_sub (re_ci ''^```json%s*'') (\<lambda>_. []) (strip content))"

definition has_key :: "str \<Rightarrow> json \<Rightarrow> bool" where
  "has_key k v = (case v of JObj ms \<Rightarrow> map_of ms k \<noteq> None | _ \<Rightarrow> False)"

text \<open>The verdict: safe, confidence if there is one, reason; \<open>None\<close> when anything fails.\<close>

definition verdict_of_json :: "(json \<Rightarrow> str) \<Rightarrow> str \<Rightarrow> json \<Rightarrow> (bool \<times> pyfloat option \<times> str) option" where
  "verdict_of_json py_repr prefix_text res =
     (if \<not> is_obj res then None
      else (let ok = truthy (jget ''is_safe'' res); conf = jget ''confidence'' res;
                reason = prefix_text @ '' '' @ (if has_key ''reason'' res then py_str py_repr (jget ''reason'' res) else ''Judged'')
            in if conf = JNull then Some (ok, None, reason)
               else (case py_float conf of
                   TooLarge \<Rightarrow> None
                 | BadFloat \<Rightarrow> Some (ok, None, reason)
                 | Float f \<Rightarrow> Some (ok, Some (py_max (Fin 0) (py_min (Fin 1) f)), reason))))"

definition parse_json_verdict :: "(json \<Rightarrow> str) \<Rightarrow> str \<Rightarrow> (bool \<times> pyfloat option \<times> str) option" where
  "parse_json_verdict py_repr content =
     (case json_loads (strip_fences content) of
        None \<Rightarrow> None
      | Some res \<Rightarrow> verdict_of_json py_repr ''[Cloud Judge]'' res)"

text \<open>A parsed confidence is a number between 0 and 1, whatever the model sent.\<close>

lemma clamp_range: "\<exists>c. py_max (Fin 0) (py_min (Fin 1) f) = Fin c \<and> 0 \<le> c \<and> c \<le> 1"
  by (cases f) (auto simp: py_max_def py_min_def)

lemma verdict_confidence:
  "parse_json_verdict py_repr content = Some (ok, Some conf, reason) \<Longrightarrow> \<exists>c. conf = Fin c \<and> 0 \<le> c \<and> c \<le> 1"
  using clamp_range by (fastforce simp: parse_json_verdict_def verdict_of_json_def Let_def
      split: option.splits if_splits float_result.splits)

subsection \<open>The request\<close>

definition request_body :: "json list \<Rightarrow> str \<Rightarrow> str \<Rightarrow> json list \<Rightarrow> json" where
  "request_body messages model effort tools =
     (let m = str_lower model; e = str_lower effort;
          base = [(''model'', JStr model), (''temperature'', JFloat (Fin 0)), (''max_tokens'', JInt 300),
                  (''messages'', JArr messages)]
      in JObj (base @ (if tools \<noteq> [] then [(''tools'', JArr tools), (''tool_choice'', JStr ''auto'')] else [])
        @ (if effort \<noteq> [] \<and> e \<notin> {''off'', ''none'', []}
              \<and> (contains ''reason'' m \<or> contains ''gpt-oss'' m \<or> contains ''gpt-5'' m)
           then [(''reasoning_effort'', JStr e)] else [])))"

definition request_headers :: "str \<Rightarrow> (str \<times> str) list" where
  "request_headers api_key =
     (''Content-Type'', ''application/json'') # (if api_key \<noteq> [] then [(''Authorization'', ''Bearer '' @ api_key)] else [])"

text \<open>What one attempt gives: a decoded response, an HTTP status with its \<open>Retry-After\<close>, a network failure or another exception.\<close>

datatype http_outcome = HttpOk json | HttpStatus int "str option" | NetFailure str | OtherFailure str

datatype py_exc = ExcStatus int | ExcNet str | ExcOther str | ExcShape

definition MAX_ADAPTIVE_RETRIES :: nat where
  "MAX_ADAPTIVE_RETRIES = 10"

definition RETRYABLE_HTTP_STATUSES :: "int list" where
  "RETRYABLE_HTTP_STATUSES = [429, 500, 502, 503, 504]"

definition backoff :: "nat \<Rightarrow> rat \<Rightarrow> rat" where
  "backoff attempt jitter = min 5 (1 / 10 * (3 / 2) ^ (attempt - 1)) + jitter"

definition retry_sleep :: "str option \<Rightarrow> nat \<Rightarrow> rat \<Rightarrow> rat" where
  "retry_sleep retry_after attempt jitter =
     (case retry_after of
        Some h \<Rightarrow> if h \<noteq> [] \<and> list_all is_digit h then min 10 (of_nat (read_nat h)) else backoff attempt jitter
      | None \<Rightarrow> backoff attempt jitter)"

text \<open>
  The finish reason of the first choice.  \<open>None\<close> is an exception of this expression, which no
  handler of the loop catches.
\<close>

definition completion_state :: "json \<Rightarrow> str option" where
  "completion_state res =
     (if \<not> is_obj res then Some ''complete''
      else (let choices = jget ''choices'' res in
        if \<not> truthy choices then Some ''complete''
        else (case choices of
            JArr (c # _) \<Rightarrow>
              if is_obj c then Some (if jget ''finish_reason'' c = JStr ''length'' then ''truncated'' else ''complete'')
              else None
          | _ \<Rightarrow> None)))"

datatype call_event = Attempt nat str | Backoff nat rat | JudgeTurn str

text \<open>
  The loop over the attempts: \<open>left\<close> attempts remain from number \<open>attempt\<close> on.  The result is the
  response or the exception, with the events that the telemetry hook sees.
\<close>

fun post_attempts ::
    "(nat \<Rightarrow> http_outcome) \<Rightarrow> (nat \<Rightarrow> rat) \<Rightarrow> nat \<Rightarrow> nat \<Rightarrow> (py_exc + json) \<times> call_event list" where
  "post_attempts http jitter attempt 0 = (Inl (ExcOther ''Max retries exceeded without result''), [])"
| "post_attempts http jitter attempt (Suc left) =
     (case http attempt of
        HttpOk res \<Rightarrow>
          (case completion_state res of
             None \<Rightarrow> (Inl ExcShape, [Attempt attempt ''success''])
           | Some st \<Rightarrow> (Inr res, [Attempt attempt ''success'', JudgeTurn st]))
      | HttpStatus code retry_after \<Rightarrow>
          if code \<in> set RETRYABLE_HTTP_STATUSES \<and> left \<noteq> 0 then
            (case post_attempts http jitter (Suc attempt) left of
               (r, es) \<Rightarrow> (r, Attempt attempt ''retry'' # Backoff attempt (retry_sleep retry_after attempt (jitter attempt)) # es))
          else (Inl (ExcStatus code), [Attempt attempt ''http_error'', JudgeTurn ''failed''])
      | NetFailure e \<Rightarrow>
          if left \<noteq> 0 then
            (case post_attempts http jitter (Suc attempt) left of
               (r, es) \<Rightarrow> (r, Attempt attempt ''retry'' # Backoff attempt (backoff attempt (jitter attempt)) # es))
          else (Inl (ExcNet e), [Attempt attempt ''network_error'', JudgeTurn ''failed''])
      | OtherFailure e \<Rightarrow> (Inl (ExcOther e), []))"

definition post_cloud_judge ::
    "(json \<Rightarrow> str \<Rightarrow> (str \<times> str) list \<Rightarrow> nat \<Rightarrow> http_outcome) \<Rightarrow> (nat \<Rightarrow> rat) \<Rightarrow> json list \<Rightarrow> str \<Rightarrow> str \<Rightarrow> str \<Rightarrow> str
       \<Rightarrow> json list \<Rightarrow> (py_exc + json) \<times> call_event list" where
  "post_cloud_judge http jitter messages endpoint model api_key effort tools =
     post_attempts (http (request_body messages model effort tools) endpoint (request_headers api_key)) jitter 1
       MAX_ADAPTIVE_RETRIES"

subsection \<open>The retry loop is bounded\<close>

definition sleeps :: "call_event list \<Rightarrow> rat" where
  "sleeps es = sum_list (map (\<lambda>e. case e of Backoff _ t \<Rightarrow> t | _ \<Rightarrow> 0) es)"

definition tries :: "call_event list \<Rightarrow> nat list" where
  "tries es = concat (map (\<lambda>e. case e of Attempt n _ \<Rightarrow> [n] | _ \<Rightarrow> []) es)"

lemma backoff_bound: "jitter \<le> 1 / 20 \<Longrightarrow> backoff attempt jitter \<le> 10"
  by (simp add: backoff_def min_def)

lemma retry_sleep_bound: "jitter \<le> 1 / 20 \<Longrightarrow> retry_sleep ra attempt jitter \<le> 10"
  using backoff_bound by (auto simp: retry_sleep_def min_def split: option.splits)

lemma post_attempts_bounds:
  assumes "\<And>n. jitter n \<le> 1 / 20"
  shows "post_attempts http jitter attempt left = (r, es) \<Longrightarrow>
     length (tries es) \<le> left \<and> prefix (tries es) [attempt..<attempt + left] \<and> sleeps es \<le> 10 * of_nat (left - 1)"
proof (induction left arbitrary: attempt r es)
  case 0
  then show ?case by (simp add: tries_def sleeps_def)
next
  case (Suc left)
  obtain r' es' where rec: "post_attempts http jitter (Suc attempt) left = (r', es')"
    by (cases "post_attempts http jitter (Suc attempt) left")
  from Suc.IH [OF rec] have IH: "length (tries es') \<le> left" "prefix (tries es') [Suc attempt..<Suc attempt + left]"
      "sleeps es' \<le> 10 * of_nat (left - 1)"
    by simp_all
  have upt: "[attempt..<attempt + Suc left] = attempt # [Suc attempt..<Suc attempt + left]"
    by (simp add: upt_conv_Cons)
  have again: "length (tries (Attempt attempt o' # Backoff attempt t # es')) \<le> Suc left
      \<and> prefix (tries (Attempt attempt o' # Backoff attempt t # es')) [attempt..<attempt + Suc left]
      \<and> sleeps (Attempt attempt o' # Backoff attempt t # es') \<le> 10 * of_nat (Suc left - 1)"
    if t: "t \<le> 10" and l: "left \<noteq> 0" for o' t
  proof -
    obtain k where k: "left = Suc k" using l by (cases left) auto
    have "t + sleeps es' \<le> 10 * of_nat left" using t IH(3) k by simp
    moreover have "sleeps (Attempt attempt o' # Backoff attempt t # es') = t + sleeps es'"
        "tries (Attempt attempt o' # Backoff attempt t # es') = attempt # tries es'"
      by (simp_all add: tries_def sleeps_def)
    ultimately show ?thesis using IH(1,2) by (simp only: upt) simp
  qed
  note b = backoff_bound [OF assms] retry_sleep_bound [OF assms]
  show ?case
  proof (cases "http attempt")
    case (HttpOk res)
    with Suc.prems upt show ?thesis
      by (auto simp: tries_def sleeps_def split: option.splits)
  next
    case (HttpStatus code ra)
    with Suc.prems upt rec again [OF b(2)] show ?thesis
      by (auto simp: tries_def sleeps_def split: if_splits)
  next
    case (NetFailure e)
    with Suc.prems upt rec again [OF b(1)] show ?thesis
      by (auto simp: tries_def sleeps_def split: if_splits)
  next
    case (OtherFailure e)
    with Suc.prems show ?thesis by (simp add: tries_def sleeps_def)
  qed
qed

text \<open>A response that comes back is the response of an attempt that was made.\<close>

lemma post_attempts_Inr:
  "post_attempts http jitter attempt left = (Inr res, es) \<Longrightarrow> \<exists>n. attempt \<le> n \<and> n < attempt + left \<and> http n = HttpOk res"
proof (induction left arbitrary: attempt es)
  case 0
  then show ?case by simp
next
  case (Suc left)
  show ?case
  proof (cases "http attempt = HttpOk res")
    case True
    then show ?thesis by auto
  next
    case False
    with Suc.prems obtain es' where "post_attempts http jitter (Suc attempt) left = (Inr res, es')"
      by (auto split: http_outcome.splits option.splits if_splits prod.splits)
    from Suc.IH [OF this] obtain n where "Suc attempt \<le> n" "n < Suc attempt + left" "http n = HttpOk res" by blast
    then show ?thesis by (intro exI [of _ n]) simp
  qed
qed

end
