(* ===== verification/Redaction.thy ===== *)
theory Redaction
  imports PyRegex
begin

text \<open>
  The redaction of secrets before text leaves the machine (\<open>scripts/core/redaction.py\<close>) and
  the masking of logs (\<open>sanitize_output\<close> of \<open>scripts/core/security_evaluator.py\<close>).
\<close>

definition SECRET_VALUE_RULES :: "(regex \<times> str) list" where
  "SECRET_VALUE_RULES =
     [(re_c ''%b(sk-[A-Za-z0-9]{16,})'', ''api-key''),
      (re_c ''%b((?:AKIA|ASIA)[0-9A-Z]{16})'', ''aws-key''),
      (re_c ''%b((?:ghp|gho|ghu|ghs|ghr)_[A-Za-z0-9]{20,})'', ''github-pat''),
      (re_c ''%b(AIza[A-Za-z0-9_-]{30,})'', ''google-key''),
      (re_c ''%b(hf_[A-Za-z0-9]{20,})'', ''hf-token''),
      (re_c ''%b(xox[baprs]-[A-Za-z0-9-]{10,})'', ''slack-token''),
      (re_c ''%b(eyJ[A-Za-z0-9_-]{10,}%.[A-Za-z0-9_-]{10,}%.[A-Za-z0-9_-]{10,})'', ''jwt''),
      (re_c ''-----BEGIN [A-Z ]*PRIVATE KEY-----[%s%S]*?-----END [A-Z ]*PRIVATE KEY-----'', ''private-key'')]"

definition KEY_VALUE_RE :: regex where
  \<open>KEY_VALUE_RE = re_ci
     (''(?<![A-Za-z0-9])(token|secret|password|passwd|pwd|api[_-]?key|api[_-]?secret|''
      @ ''client[_-]?secret|access[_-]?key|credential|auth[_-]?token)s?''
      @ ''(%s*[:=]%s*)("[^"]*"|'' @ [squote] @ ''[^'' @ [squote] @ '']*'' @ [squote] @ ''|[^'' @ [squote] @ ''"%s]+)'')\<close>

definition BEARER_RE :: regex where
  "BEARER_RE = re_ci ''%b(Bearer|Basic)%s+[A-Za-z0-9._~+/=-]+''"

definition URI_CREDENTIAL_RE :: regex where
  "URI_CREDENTIAL_RE = re_ci ''([a-z][a-z0-9+.-]*://[^%s:/@]+:)[^%s@/]*@''"

definition gtext :: "mtch \<Rightarrow> nat \<Rightarrow> str" where
  "gtext m i = (case m_group m i of Some g \<Rightarrow> g | None \<Rightarrow> [])"

definition redact_values :: "str \<Rightarrow> str" where
  "redact_values text = fold (\<lambda>(pat, label). re_sub pat (\<lambda>_. ''[REDACTED:'' @ label @ '']'')) SECRET_VALUE_RULES text"

definition redact_for_cloud :: "str \<Rightarrow> str" where
  "redact_for_cloud text =
     (if text = [] then text
      else re_sub URI_CREDENTIAL_RE (\<lambda>m. gtext m 1 @ ''[REDACTED:uri-password]@'')
            (re_sub BEARER_RE (\<lambda>m. gtext m 1 @ '' ***'')
              (re_sub KEY_VALUE_RE (\<lambda>m. gtext m 1 @ gtext m 2 @ ''***'') (redact_values text))))"

text \<open>Text in which none of the patterns occurs passes unchanged.\<close>

lemma redact_clean:
  assumes "\<And>pat label. (pat, label) \<in> set SECRET_VALUE_RULES \<Longrightarrow> \<not> re_found pat text"
    and "\<not> re_found KEY_VALUE_RE text" "\<not> re_found BEARER_RE text" "\<not> re_found URI_CREDENTIAL_RE text"
  shows "redact_for_cloud text = text"
proof -
  have "fold (\<lambda>(pat, label). re_sub pat (\<lambda>_. ''[REDACTED:'' @ label @ '']'')) rs text = text"
    if "\<forall>(pat, label) \<in> set rs. \<not> re_found pat text" for rs :: "(regex \<times> str) list"
    using that by (induction rs) (auto simp: re_sub_absent)
  with assms show ?thesis by (fastforce simp: redact_for_cloud_def redact_values_def re_sub_absent)
qed

definition LOG_SECRET_RE :: regex where
  \<open>LOG_SECRET_RE = re_ci (''(token|secret|key|password|api[_-]?key)%s*[:=]%s*['' @ [squote] @ ''"][^'' @ [squote]
     @ ''"]+['' @ [squote] @ ''"]'')\<close>

definition sanitize_output :: "str \<Rightarrow> str" where
  "sanitize_output s = re_sub LOG_SECRET_RE (\<lambda>m. gtext m 1 @ '': '' @ [squote] @ ''***MASKED***'' @ [squote]) s"

end
