(* ===== verification/EvalCache.thy ===== *)
theory EvalCache
  imports Taxonomy PyRegex "HOL-Library.AList"
begin

text \<open>
  The evaluation store: the in-memory LRU cache and the table \<open>evaluation_cache\<close> of
  \<open>scripts/core/guard_db.py\<close>, and the human-approval patterns kept in the same table.
  Time is in whole seconds.  The table is a list of rows by key; SQLite itself (which the
  code treats as best effort) does not fail here.

  The locale \<open>ttl_store\<close> is the contract that the callers rely on; it is interpreted on the
  two-level cache and on the approval patterns.
\<close>

subsection \<open>Timestamps\<close>

text \<open>
  Expiry times are stored as text in two formats: \<open>datetime.isoformat()\<close>, with the separator
  \<open>T\<close>, and SQLite's \<open>datetime(t, 'unixepoch')\<close>, with a blank.  A comparison in SQL compares
  the texts: the day, then the separator (a blank comes before \<open>T\<close>), then the time of day.
\<close>

datatype stamp = Iso int | Sql int

fun stamp_time :: "stamp \<Rightarrow> int" where
  "stamp_time (Iso t) = t"
| "stamp_time (Sql t) = t"

fun stamp_sep :: "stamp \<Rightarrow> nat" where
  "stamp_sep (Iso t) = 1"
| "stamp_sep (Sql t) = 0"

definition text_less :: "stamp \<Rightarrow> stamp \<Rightarrow> bool" where
  "text_less a b \<longleftrightarrow>
     (let da = stamp_time a div 86400; db = stamp_time b div 86400 in
      da < db \<or> (da = db \<and> (stamp_sep a < stamp_sep b
        \<or> (stamp_sep a = stamp_sep b \<and> stamp_time a mod 86400 < stamp_time b mod 86400))))"

lemma text_less_Iso [simp]: "text_less (Iso a) (Iso b) \<longleftrightarrow> a < b"
proof -
  have a: "a = 86400 * (a div 86400) + a mod 86400" and b: "b = 86400 * (b div 86400) + b mod 86400"
    by simp_all
  have ra: "0 \<le> a mod 86400" "a mod 86400 < 86400" and rb: "0 \<le> b mod 86400" "b mod 86400 < 86400"
    by simp_all
  have "text_less (Iso a) (Iso b) \<longleftrightarrow> a div 86400 < b div 86400
      \<or> (a div 86400 = b div 86400 \<and> a mod 86400 < b mod 86400)"
    by (simp add: text_less_def Let_def)
  with a b ra rb show ?thesis by linarith
qed

subsection \<open>The store\<close>

record eval_row =
  er_raw :: str
  er_safe :: bool
  er_reason :: str
  er_layer :: str
  er_taxonomy :: "(str \<times> str) list"
  er_cwd :: str
  er_scope :: str
  er_agent :: str
  er_origin :: str
  er_version :: str
  er_expires :: stamp
  er_hits :: nat

text \<open>The tuple kept in memory: safe, reason, layer, taxonomy, expiry.\<close>

type_synonym mem_entry = "bool \<times> str \<times> str \<times> (str \<times> str) list \<times> int"

text \<open>\<open>lru\<close> lists the cached entries, the least recently used first.\<close>

record eval_store =
  lru :: "(str \<times> mem_entry) list"
  rows :: "(str \<times> eval_row) list"

definition MAX_MEMORY_CACHE_SIZE :: nat where
  "MAX_MEMORY_CACHE_SIZE = 1000"

definition empty_store :: eval_store where
  "empty_store = \<lparr>lru = [], rows = []\<rparr>"

definition clear_in_memory_cache :: "'a eval_store_scheme \<Rightarrow> 'a eval_store_scheme" where
  "clear_in_memory_cache s = s\<lparr>lru := []\<rparr>"

text \<open>\<open>while len(cache) >= MAX: cache.popitem(last=False)\<close>.\<close>

function evict :: "(str \<times> mem_entry) list \<Rightarrow> (str \<times> mem_entry) list" where
  "evict xs = (if length xs \<ge> MAX_MEMORY_CACHE_SIZE then evict (tl xs) else xs)"
  by auto
termination
  by (relation "measure length") (auto simp: MAX_MEMORY_CACHE_SIZE_def)

declare evict.simps [simp del]

definition move_to_end :: "str \<Rightarrow> (str \<times> mem_entry) list \<Rightarrow> (str \<times> mem_entry) list" where
  "move_to_end k xs = (case map_of xs k of None \<Rightarrow> xs | Some e \<Rightarrow> AList.delete k xs @ [(k, e)])"

text \<open>A cached result, with the flag \<open>from_memory\<close>.\<close>

type_synonym eval_value = "bool \<times> str \<times> str \<times> (str \<times> str) list"

definition row_value :: "eval_row \<Rightarrow> eval_value" where
  "row_value r = (er_safe r, er_reason r, er_layer r, er_taxonomy r)"

definition mem_value :: "mem_entry \<Rightarrow> eval_value" where
  "mem_value e = (case e of (ok, reason, layer, tax, expiry) \<Rightarrow> (ok, reason, layer, tax))"

definition mem_expiry :: "mem_entry \<Rightarrow> int" where
  "mem_expiry e = (case e of (ok, reason, layer, tax, expiry) \<Rightarrow> expiry)"

definition mem_of :: "eval_value \<Rightarrow> int \<Rightarrow> mem_entry" where
  "mem_of v t = (case v of (ok, reason, layer, tax) \<Rightarrow> (ok, reason, layer, tax, t))"

definition live_row :: "(str \<times> eval_row) list \<Rightarrow> str \<Rightarrow> int \<Rightarrow> eval_row option" where
  "live_row rs k now = (case map_of rs k of None \<Rightarrow> None
     | Some r \<Rightarrow> if text_less (Iso now) (er_expires r) then Some r else None)"

definition fetch_persistent ::
    "str \<Rightarrow> int \<Rightarrow> 'a eval_store_scheme \<Rightarrow> (eval_value \<times> bool) option \<times> 'a eval_store_scheme" where
  "fetch_persistent k now s =
     (case live_row (rows s) k now of None \<Rightarrow> (None, s)
      | Some r \<Rightarrow> (Some (row_value r, False),
          s\<lparr>rows := AList.update k (r\<lparr>er_hits := Suc (er_hits r)\<rparr>) (rows s),
            lru := AList.update k (mem_of (row_value r) (stamp_time (er_expires r))) (evict (lru s))\<rparr>))"

definition get_cached_evaluation ::
    "str \<Rightarrow> int \<Rightarrow> 'a eval_store_scheme \<Rightarrow> (eval_value \<times> bool) option \<times> 'a eval_store_scheme" where
  "get_cached_evaluation k now s =
     (case map_of (lru s) k of
        Some e \<Rightarrow>
          (if mem_expiry e > now
           then (Some (mem_value e, True), s\<lparr>lru := move_to_end k (lru s)\<rparr>)
           else fetch_persistent k now (s\<lparr>lru := AList.delete k (lru s)\<rparr>))
      | None \<Rightarrow> fetch_persistent k now s)"

text \<open>The descriptive columns of a row that is written.\<close>

record row_context =
  rc_raw :: str
  rc_cwd :: str
  rc_scope :: str
  rc_agent :: str
  rc_origin :: str
  rc_version :: str

definition set_cached_evaluation ::
    "str \<Rightarrow> eval_value \<Rightarrow> row_context \<Rightarrow> int \<Rightarrow> int \<Rightarrow> 'a eval_store_scheme \<Rightarrow> 'a eval_store_scheme" where
  "set_cached_evaluation k v c now ttl s =
     (let hits = (case map_of (rows s) k of Some r \<Rightarrow> er_hits r | None \<Rightarrow> 0);
          row = \<lparr>er_raw = rc_raw c, er_safe = fst v, er_reason = fst (snd v), er_layer = fst (snd (snd v)),
                 er_taxonomy = snd (snd (snd v)), er_cwd = rc_cwd c, er_scope = rc_scope c, er_agent = rc_agent c,
                 er_origin = rc_origin c, er_version = rc_version c, er_expires = Iso (now + ttl), er_hits = hits\<rparr>
      in s\<lparr>lru := move_to_end k (AList.update k (mem_of v (now + ttl)) (evict (lru s))),
           rows := AList.update k row (rows s)\<rparr>)"

text \<open>The number of rows deleted, and the store without them.\<close>

definition purge_expired_cache_entries :: "int \<Rightarrow> 'a eval_store_scheme \<Rightarrow> nat \<times> 'a eval_store_scheme" where
  "purge_expired_cache_entries now s =
     (let keep = filter (\<lambda>(k, r). text_less (Iso now) (er_expires r)) (rows s)
      in (length (rows s) - length keep, s\<lparr>rows := keep\<rparr>))"

subsection \<open>Human-approved patterns\<close>

definition norm_scope :: "str \<Rightarrow> str" where
  "norm_scope scope = (if strip scope = [] then ''default'' else strip scope)"

definition approval_key :: "str \<Rightarrow> str \<Rightarrow> str" where
  "approval_key pattern scope = ''human_approved:'' @ norm_scope scope @ '':'' @ pattern"

definition record_human_approval_pattern ::
    "str \<Rightarrow> str \<Rightarrow> int \<Rightarrow> int \<Rightarrow> 'a eval_store_scheme \<Rightarrow> 'a eval_store_scheme" where
  "record_human_approval_pattern pattern scope now ttl s =
     (let k = approval_key pattern scope; stamp = Sql (now + ttl) in
      s\<lparr>rows := AList.update k
          (case map_of (rows s) k of
             Some r \<Rightarrow> r\<lparr>er_safe := True, er_expires := stamp\<rparr>
           | None \<Rightarrow> \<lparr>er_raw = pattern, er_safe = True, er_reason = ''human-approved-pattern'',
                      er_layer = ''HUMAN_APPROVED'', er_taxonomy = [], er_cwd = [], er_scope = norm_scope scope,
                      er_agent = ''default'', er_origin = ''H'', er_version = ''novelty-gate'', er_expires = stamp,
                      er_hits = 0\<rparr>) (rows s)\<rparr>)"

definition approved_row :: "(str \<times> eval_row) list \<Rightarrow> str \<Rightarrow> int \<Rightarrow> bool" where
  "approved_row rs k now = (case map_of rs k of None \<Rightarrow> False
     | Some r \<Rightarrow> er_safe r \<and> stamp_time (er_expires r) > now)"

definition has_human_approval_pattern :: "str \<Rightarrow> str \<Rightarrow> int \<Rightarrow> 'a eval_store_scheme \<Rightarrow> bool" where
  "has_human_approval_pattern pattern scope now s = approved_row (rows s) (approval_key pattern scope) now"

subsection \<open>Normalised commands\<close>

definition VERSION_AT_RE :: regex where
  "VERSION_AT_RE = re_c ''@(?:[0-9][0-9A-Za-z.+-]*|latest|next|beta|alpha|rc[0-9]*|canary|dev|stable)%b''"

definition VERSION_EQ_RE :: regex where
  "VERSION_EQ_RE = re_c ''(==|>=|<=|~=|!=)%s*[0-9][0-9A-Za-z.+-]*''"

definition QUOTED_STRING_RE :: regex where
  \<open>QUOTED_STRING_RE = re_c (''["'' @ [squote] @ ''][^"'' @ [squote] @ '']*["'' @ [squote] @ '']'')\<close>

definition normalize_command :: "str \<Rightarrow> str" where
  "normalize_command cmd =
     (let n1 = re_sub QUOTED_STRING_RE (\<lambda>_. ''<STRING>'') (strip cmd);
          n2 = re_sub (re_c ''/(Users|home)/[a-zA-Z0-9_-]+(/[a-zA-Z0-9_.-]+)+'') (\<lambda>_. ''<PATH>'') n1;
          n3 = re_sub (re_c ''%b[0-9a-f]{7,40}%b'') (\<lambda>_. ''<HASH>'') n2;
          n4 = re_sub VERSION_AT_RE (\<lambda>_. ''@<VER>'') n3;
          n5 = re_sub VERSION_EQ_RE (\<lambda>m. (case m_group m 1 of Some g \<Rightarrow> g | None \<Rightarrow> []) @ ''<VER>'') n4
      in re_sub (re_c ''%s+'') (\<lambda>_. '' '') n5)"

subsection \<open>The contract of a store with expiry\<close>

text \<open>
  A run of writes: key, written record, time and time to live, in the order of their times,
  after the clock time \<open>c\<close> and before the time \<open>t\<close>.
\<close>

fun timely :: "int \<Rightarrow> ('k \<times> 'w \<times> int \<times> int) list \<Rightarrow> int \<Rightarrow> bool" where
  "timely c [] t \<longleftrightarrow> c \<le> t"
| "timely c ((k, w, now, ttl) # ps) t \<longleftrightarrow> c \<le> now \<and> 0 \<le> ttl \<and> timely now ps t"

lemma timely_le: "timely c ps t \<Longrightarrow> c \<le> t"
  by (induction ps arbitrary: c) fastforce+

text \<open>
  \<open>good c s\<close> says that the store is well formed at clock time \<open>c\<close>; clocks do not run backwards.
  What a lookup gives after a write: the value that was written as long as it lives, nothing
  afterwards, and for other keys what it gave before.
\<close>

locale ttl_store =
  fixes good :: "int \<Rightarrow> 's \<Rightarrow> bool"
    and put :: "'k \<Rightarrow> 'w \<Rightarrow> int \<Rightarrow> int \<Rightarrow> 's \<Rightarrow> 's"
    and lookup :: "'k \<Rightarrow> int \<Rightarrow> 's \<Rightarrow> 'v option"
    and val :: "'w \<Rightarrow> 'v"
  assumes good_put: "good c s \<Longrightarrow> c \<le> now \<Longrightarrow> 0 \<le> ttl \<Longrightarrow> good now (put k w now ttl s)"
    and lookup_same: "good c s \<Longrightarrow> c \<le> now \<Longrightarrow> 0 \<le> ttl \<Longrightarrow> now \<le> t \<Longrightarrow>
        lookup k t (put k w now ttl s) = (if t < now + ttl then Some (val w) else None)"
    and lookup_other: "good c s \<Longrightarrow> c \<le> now \<Longrightarrow> 0 \<le> ttl \<Longrightarrow> now \<le> t \<Longrightarrow> k \<noteq> k' \<Longrightarrow>
        lookup k t (put k' w now ttl s) = lookup k t s"
begin

abbreviation run :: "('k \<times> 'w \<times> int \<times> int) list \<Rightarrow> 's \<Rightarrow> 's" where
  "run \<equiv> fold (\<lambda>(k, w, now, ttl). put k w now ttl)"

lemma run_others:
  "good c s \<Longrightarrow> timely c ps t \<Longrightarrow> k \<notin> fst ` set ps \<Longrightarrow> lookup k t (run ps s) = lookup k t s"
proof (induction ps arbitrary: c s)
  case Nil
  then show ?case by simp
next
  case (Cons p ps)
  obtain k' w now ttl where p: "p = (k', w, now, ttl)" by (cases p)
  with Cons.prems have i: "good now (put k' w now ttl s)" and t: "timely now ps t" and k: "k \<noteq> k'"
    by (auto intro: good_put)
  from Cons.IH [OF i t] Cons.prems(3) have "lookup k t (run (p # ps) s) = lookup k t (put k' w now ttl s)"
    by (simp add: p)
  with lookup_other [OF Cons.prems(1) _ _ timely_le [OF t] k] Cons.prems(2) p show ?case by simp
qed

text \<open>The last write of a key decides, whatever is written for other keys before and after.\<close>

lemma last_write_wins:
  "good c s \<Longrightarrow> timely c (ps @ (k, w, now, ttl) # qs) t \<Longrightarrow> k \<notin> fst ` set qs \<Longrightarrow>
     lookup k t (run (ps @ (k, w, now, ttl) # qs) s) = (if t < now + ttl then Some (val w) else None)"
proof (induction ps arbitrary: c s)
  case Nil
  then have i: "good now (put k w now ttl s)" and t: "timely now qs t"
    by (auto intro: good_put)
  from run_others [OF i t Nil.prems(3)] lookup_same [OF Nil.prems(1) _ _ timely_le [OF t]] Nil.prems(2)
  show ?case by simp
next
  case (Cons p ps)
  obtain k' w' now' ttl' where p: "p = (k', w', now', ttl')" by (cases p)
  from Cons.prems p have "good now' (put k' w' now' ttl' s)" and "timely now' (ps @ (k, w, now, ttl) # qs) t"
    by (auto intro: good_put)
  from Cons.IH [OF this Cons.prems(3)] show ?case by (simp add: p)
qed

lemma never_written:
  "good c s \<Longrightarrow> timely c ps t \<Longrightarrow> lookup k t s = None \<Longrightarrow> k \<notin> fst ` set ps \<Longrightarrow> lookup k t (run ps s) = None"
  using run_others by metis

end

subsection \<open>The two-level cache meets the contract\<close>

text \<open>
  The levels agree at time \<open>c\<close>: an entry in memory that is still alive repeats the row of the
  table, and its expiry.
\<close>

definition levels_agree :: "int \<Rightarrow> 'a eval_store_scheme \<Rightarrow> bool" where
  "levels_agree c s \<longleftrightarrow> distinct (map fst (lru s)) \<and> distinct (map fst (rows s)) \<and>
     (\<forall>k e. map_of (lru s) k = Some e \<and> c < mem_expiry e \<longrightarrow>
       (\<exists>r. map_of (rows s) k = Some r \<and> row_value r = mem_value e \<and> er_expires r = Iso (mem_expiry e)))"

lemma agreeI:
  assumes "distinct (map fst (lru s))" "distinct (map fst (rows s))"
    and "\<And>k e. map_of (lru s) k = Some e \<Longrightarrow> c < mem_expiry e \<Longrightarrow>
      \<exists>r. map_of (rows s) k = Some r \<and> row_value r = mem_value e \<and> er_expires r = Iso (mem_expiry e)"
  shows "levels_agree c s"
  using assms unfolding levels_agree_def by blast

lemma agree_distinct: "levels_agree c s \<Longrightarrow> distinct (map fst (lru s))" "levels_agree c s \<Longrightarrow> distinct (map fst (rows s))"
  unfolding levels_agree_def by blast+

lemma agreeE:
  assumes "levels_agree c s" "map_of (lru s) k = Some e" "c \<le> d" "d < mem_expiry e"
  obtains r where "map_of (rows s) k = Some r" "row_value r = mem_value e" "er_expires r = Iso (mem_expiry e)"
  using assms unfolding levels_agree_def by (meson le_less_trans)

lemma evict_suffix: "\<exists>n. evict xs = drop n xs"
proof (induction xs rule: evict.induct)
  case (1 xs)
  show ?case
  proof (cases "length xs \<ge> MAX_MEMORY_CACHE_SIZE")
    case True
    with 1 obtain n where "evict (tl xs) = drop n (tl xs)" by blast
    with True have "evict xs = drop (Suc n) xs" by (simp add: evict.simps [of xs] drop_Suc)
    then show ?thesis by blast
  next
    case False
    then have "evict xs = drop 0 xs" by (simp add: evict.simps [of xs])
    then show ?thesis by blast
  qed
qed

lemma evict_length: "length (evict xs) < MAX_MEMORY_CACHE_SIZE"
  by (induction xs rule: evict.induct) (subst evict.simps, simp)

lemma map_of_drop_distinct:
  "distinct (map fst xs) \<Longrightarrow> map_of (drop n xs) k = Some e \<Longrightarrow> map_of xs k = Some e"
  by (metis distinct_map distinct_drop drop_map in_set_dropD map_of_SomeD map_of_is_SomeI)

lemma evict_map_of:
  "distinct (map fst xs) \<Longrightarrow> map_of (evict xs) k = Some e \<Longrightarrow> map_of xs k = Some e"
  using evict_suffix [of xs] map_of_drop_distinct by metis

lemma evict_distinct: "distinct (map fst xs) \<Longrightarrow> distinct (map fst (evict xs))"
  using evict_suffix [of xs] by (metis distinct_drop drop_map)

lemma map_of_move_to_end: "map_of (move_to_end k xs) = map_of xs"
  by (auto simp: move_to_end_def map_add_def delete_conv fun_eq_iff split: option.splits)

lemma distinct_move_to_end: "distinct (map fst xs) \<Longrightarrow> distinct (map fst (move_to_end k xs))"
  using delete_notin_dom [of k xs] by (auto simp: move_to_end_def distinct_delete image_iff split: option.splits)

lemma distinct_update: "distinct (map fst xs) \<Longrightarrow> distinct (map fst (AList.update k e xs))"
  by (simp add: distinct_update)

lemma length_delete_less: "map_of xs k = Some e \<Longrightarrow> length (AList.delete k xs) < length xs"
proof (induction xs)
  case Nil
  then show ?case by simp
next
  case (Cons p ps)
  then show ?case using length_delete_le [of k ps] by (auto split: if_splits)
qed

lemma length_move_to_end: "length (move_to_end k xs) \<le> length xs"
  by (auto simp: move_to_end_def Suc_le_eq dest: length_delete_less split: option.splits)

lemma length_update: "length (AList.update k e xs) \<le> Suc (length xs)"
  by (induction xs) auto

text \<open>What the table alone says: the value of a row that has not expired.\<close>

definition table_value :: "'a eval_store_scheme \<Rightarrow> int \<Rightarrow> str \<Rightarrow> eval_value option" where
  "table_value s t k = map_option row_value (live_row (rows s) k t)"

definition cached_value :: "str \<Rightarrow> int \<Rightarrow> 'a eval_store_scheme \<Rightarrow> eval_value option" where
  "cached_value k t s = map_option fst (fst (get_cached_evaluation k t s))"

lemma mem_of_simps [simp]: "mem_value (mem_of v t) = v" "mem_expiry (mem_of v t) = t"
  by (cases v; simp add: mem_value_def mem_of_def mem_expiry_def)+

lemma fetch_persistent_value [simp]: "map_option fst (fst (fetch_persistent k t s)) = table_value s t k"
  by (simp add: fetch_persistent_def table_value_def split: option.splits)

lemma table_value_lru [simp]: "table_value (s\<lparr>lru := x\<rparr>) t k = table_value s t k"
  by (simp add: table_value_def)

lemma cached_is_table:
  assumes "levels_agree c s" "c \<le> t"
  shows "cached_value k t s = table_value s t k"
proof (cases "\<exists>e. map_of (lru s) k = Some e \<and> t < mem_expiry e")
  case True
  then obtain e where e: "map_of (lru s) k = Some e" "t < mem_expiry e" by blast
  with assms obtain r where "map_of (rows s) k = Some r" "row_value r = mem_value e"
      "er_expires r = Iso (mem_expiry e)"
    by (meson levels_agree_def le_less_trans)
  with e show ?thesis
    by (simp add: cached_value_def get_cached_evaluation_def table_value_def live_row_def)
next
  case False
  then show ?thesis
    by (auto simp: cached_value_def get_cached_evaluation_def split: option.splits)
qed

lemma levels_agree_empty: "levels_agree c empty_store"
  by (simp add: levels_agree_def empty_store_def)

lemma levels_agree_later: "levels_agree c s \<Longrightarrow> c \<le> d \<Longrightarrow> levels_agree d s"
  unfolding levels_agree_def by (meson le_less_trans)

lemma row_value_set:
  "row_value \<lparr>er_raw = a, er_safe = fst v, er_reason = fst (snd v), er_layer = fst (snd (snd v)),
     er_taxonomy = snd (snd (snd v)), er_cwd = b, er_scope = d, er_agent = e, er_origin = f, er_version = g,
     er_expires = h, er_hits = i\<rparr> = v"
  by (simp add: row_value_def)

lemma levels_agree_set:
  assumes "levels_agree c s" "c \<le> now"
  shows "levels_agree now (set_cached_evaluation k v d now ttl s)"
  unfolding levels_agree_def
proof (intro conjI allI impI)
  from assms have d: "distinct (map fst (lru s))" by (simp add: levels_agree_def)
  then show "distinct (map fst (lru (set_cached_evaluation k v d now ttl s)))"
    by (simp add: set_cached_evaluation_def Let_def distinct_move_to_end distinct_update evict_distinct)
  from assms show "distinct (map fst (rows (set_cached_evaluation k v d now ttl s)))"
    by (simp add: set_cached_evaluation_def Let_def levels_agree_def distinct_update)
  fix k' e
  assume e: "map_of (lru (set_cached_evaluation k v d now ttl s)) k' = Some e \<and> now < mem_expiry e"
  show "\<exists>r. map_of (rows (set_cached_evaluation k v d now ttl s)) k' = Some r
          \<and> row_value r = mem_value e \<and> er_expires r = Iso (mem_expiry e)"
  proof (cases "k' = k")
    case True
    with e show ?thesis
      by (auto simp: set_cached_evaluation_def Let_def map_of_move_to_end update_conv row_value_def)
  next
    case False
    with e have "map_of (evict (lru s)) k' = Some e"
      by (simp add: set_cached_evaluation_def Let_def map_of_move_to_end update_conv)
    from evict_map_of [OF d this] e assms obtain r where "map_of (rows s) k' = Some r"
        "row_value r = mem_value e" "er_expires r = Iso (mem_expiry e)"
      by (meson levels_agree_def le_less_trans)
    with False show ?thesis by (simp add: set_cached_evaluation_def Let_def update_conv)
  qed
qed

lemma levels_agree_get:
  assumes s: "levels_agree c s" "c \<le> now" and iso: "\<And>r. map_of (rows s) k = Some r \<Longrightarrow> \<exists>t. er_expires r = Iso t"
  shows "levels_agree now (snd (get_cached_evaluation k now s))"
proof -
  have fetch: "levels_agree now (snd (fetch_persistent k now u))"
    if u: "levels_agree now u" "rows u = rows s" for u :: "'a eval_store_scheme"
  proof (cases "live_row (rows u) k now")
    case None
    then show ?thesis using u by (simp add: fetch_persistent_def)
  next
    case (Some r)
    then have r: "map_of (rows u) k = Some r" by (auto simp: live_row_def split: option.splits if_splits)
    then obtain t where t: "er_expires r = Iso t" using iso u(2) by auto
    show ?thesis
      unfolding levels_agree_def
    proof (intro conjI allI impI)
      show "distinct (map fst (lru (snd (fetch_persistent k now u))))"
        using u(1) Some by (simp add: fetch_persistent_def levels_agree_def distinct_update evict_distinct)
      show "distinct (map fst (rows (snd (fetch_persistent k now u))))"
        using u(1) Some by (simp add: fetch_persistent_def levels_agree_def distinct_update)
      fix k' e
      assume e: "map_of (lru (snd (fetch_persistent k now u))) k' = Some e \<and> now < mem_expiry e"
      show "\<exists>r. map_of (rows (snd (fetch_persistent k now u))) k' = Some r
              \<and> row_value r = mem_value e \<and> er_expires r = Iso (mem_expiry e)"
      proof (cases "k' = k")
        case True
        with e Some r t show ?thesis by (auto simp: fetch_persistent_def update_conv row_value_def)
      next
        case False
        with e Some have "map_of (evict (lru u)) k' = Some e" by (simp add: fetch_persistent_def update_conv)
        moreover have "distinct (map fst (lru u))" using u(1) by (simp add: levels_agree_def)
        ultimately have "map_of (lru u) k' = Some e" using evict_map_of by blast
        with e u(1) obtain r' where "map_of (rows u) k' = Some r'" "row_value r' = mem_value e"
            "er_expires r' = Iso (mem_expiry e)"
          by (meson levels_agree_def)
        with False Some show ?thesis by (simp add: fetch_persistent_def update_conv)
      qed
    qed
  qed
  have now: "levels_agree now s" using s by (rule levels_agree_later)
  have del: "levels_agree now (s\<lparr>lru := AList.delete k (lru s)\<rparr>)"
    using now by (auto simp: levels_agree_def distinct_delete delete_conv)
  have mv: "levels_agree now (s\<lparr>lru := move_to_end k (lru s)\<rparr>)"
  proof (rule agreeI)
    fix k' e
    assume "map_of (lru (s\<lparr>lru := move_to_end k (lru s)\<rparr>)) k' = Some e" and e: "now < mem_expiry e"
    then have "map_of (lru s) k' = Some e" by (simp add: map_of_move_to_end)
    then show "\<exists>r. map_of (rows (s\<lparr>lru := move_to_end k (lru s)\<rparr>)) k' = Some r
        \<and> row_value r = mem_value e \<and> er_expires r = Iso (mem_expiry e)"
      by (rule agreeE [OF now _ order_refl e]) simp
  qed (use agree_distinct [OF now] in \<open>simp_all add: distinct_move_to_end\<close>)
  show ?thesis
    using fetch [OF now] fetch [OF del] mv by (simp add: get_cached_evaluation_def split: option.splits)
qed

lemma table_value_set:
  "table_value (set_cached_evaluation k' v d now ttl s) t k =
     (if k = k' then (if t < now + ttl then Some v else None) else table_value s t k)"
  by (simp add: table_value_def live_row_def set_cached_evaluation_def Let_def update_conv row_value_def)

lemma map_of_filter_key:
  "distinct (map fst xs) \<Longrightarrow> map_of (filter (\<lambda>(k, r). P r) xs) k =
     (case map_of xs k of None \<Rightarrow> None | Some r \<Rightarrow> if P r then Some r else None)"
  by (induction xs) (auto simp: image_iff split: option.splits)

lemma levels_agree_purge:
  assumes "levels_agree c s" "c \<le> now"
  shows "levels_agree now (snd (purge_expired_cache_entries now s))"
  unfolding levels_agree_def
proof (intro conjI allI impI)
  from assms have d: "distinct (map fst (lru s))" "distinct (map fst (rows s))"
    by (simp_all add: levels_agree_def)
  show "distinct (map fst (lru (snd (purge_expired_cache_entries now s))))"
    using d(1) by (simp add: purge_expired_cache_entries_def Let_def)
  show "distinct (map fst (rows (snd (purge_expired_cache_entries now s))))"
    using d(2) by (simp add: purge_expired_cache_entries_def Let_def distinct_map_filter)
  fix k e
  assume e: "map_of (lru (snd (purge_expired_cache_entries now s))) k = Some e \<and> now < mem_expiry e"
  then have "map_of (lru s) k = Some e" by (simp add: purge_expired_cache_entries_def Let_def)
  from assms(1) this assms(2) conjunct2 [OF e] obtain r where "map_of (rows s) k = Some r" "row_value r = mem_value e"
      "er_expires r = Iso (mem_expiry e)"
    by (rule agreeE)
  with e show "\<exists>r. map_of (rows (snd (purge_expired_cache_entries now s))) k = Some r
      \<and> row_value r = mem_value e \<and> er_expires r = Iso (mem_expiry e)"
    by (auto simp: purge_expired_cache_entries_def Let_def map_of_filter_key [OF d(2)])
qed

interpretation cache: ttl_store levels_agree
    "\<lambda>k w now ttl s. set_cached_evaluation k (fst w) (snd w) now ttl s" cached_value fst
proof unfold_locales
  fix c now ttl t :: int and s :: "'a eval_store_scheme" and k k' :: str and w :: "eval_value \<times> row_context"
  assume c: "levels_agree c s" "c \<le> now"
  then show set: "levels_agree now (set_cached_evaluation k (fst w) (snd w) now ttl s)" for k
    by (rule levels_agree_set)
  assume t: "now \<le> t"
  note table = cached_is_table [OF set t] cached_is_table [OF c(1) order_trans [OF c(2) t]] table_value_set
  show "cached_value k t (set_cached_evaluation k (fst w) (snd w) now ttl s)
          = (if t < now + ttl then Some (fst w) else None)"
    by (simp only: table) simp
  show "cached_value k t (set_cached_evaluation k' (fst w) (snd w) now ttl s) = cached_value k t s" if "k \<noteq> k'"
    using that by (simp only: table) simp
qed

lemma approval_key_inj: "approval_key p scope = approval_key q scope \<longleftrightarrow> p = q"
  by (simp add: approval_key_def)

text \<open>The value of an approval is just that it is there.\<close>

definition approval :: "str \<Rightarrow> str \<Rightarrow> int \<Rightarrow> 'a eval_store_scheme \<Rightarrow> unit option" where
  "approval scope p now s = (if has_human_approval_pattern p scope now s then Some () else None)"

interpretation approvals: ttl_store "\<lambda>_ _. True"
    "\<lambda>p (w::unit) now ttl s. record_human_approval_pattern p scope now ttl s" "approval scope" id
  for scope :: str
  by unfold_locales
     (auto simp: approval_def has_human_approval_pattern_def approved_row_def record_human_approval_pattern_def
        Let_def update_conv approval_key_inj split: option.splits)

text \<open>
  The evaluation keys are hash values; the keys of approvals and of pane memories contain a
  colon.
\<close>

definition eval_key :: "str \<Rightarrow> bool" where
  "eval_key k \<longleftrightarrow> CHR '':'' \<notin> set k"

text \<open>
  The states that the store passes through: any order of lookups, writes, purges and clears on
  evaluation keys, and of writes of rows under other keys, at times that do not run backwards.
\<close>

inductive cache_reach :: "int \<Rightarrow> eval_store \<Rightarrow> bool" where
  start: "cache_reach c empty_store"
| tick: "cache_reach c s \<Longrightarrow> c \<le> d \<Longrightarrow> cache_reach d s"
| wrote: "cache_reach c s \<Longrightarrow> eval_key k \<Longrightarrow> cache_reach c (set_cached_evaluation k v d c ttl s)"
| read: "cache_reach c s \<Longrightarrow> eval_key k \<Longrightarrow> cache_reach c (snd (get_cached_evaluation k c s))"
| purge: "cache_reach c s \<Longrightarrow> cache_reach c (snd (purge_expired_cache_entries c s))"
| clear: "cache_reach c s \<Longrightarrow> cache_reach c (clear_in_memory_cache s)"
| foreign: "cache_reach c s \<Longrightarrow> \<not> eval_key k \<Longrightarrow> cache_reach c (s\<lparr>rows := AList.update k r (rows s)\<rparr>)"

definition store_ok :: "int \<Rightarrow> eval_store \<Rightarrow> bool" where
  "store_ok c s \<longleftrightarrow> levels_agree c s \<and> length (lru s) \<le> MAX_MEMORY_CACHE_SIZE
     \<and> (\<forall>k r. eval_key k \<and> map_of (rows s) k = Some r \<longrightarrow> (\<exists>t. er_expires r = Iso t))
     \<and> fst ` set (lru s) \<subseteq> Collect eval_key"

lemma evict_keys: "fst ` set (evict xs) \<subseteq> fst ` set xs"
  using evict_suffix [of xs] by (metis image_mono set_drop_subset)

lemma move_to_end_keys: "fst ` set (move_to_end k xs) = fst ` set xs"
  by (metis dom_map_of_conv_image_fst map_of_move_to_end)

lemma update_keys_set: "fst ` set (AList.update k e xs) = insert k (fst ` set xs)"
  using dom_update [of k e xs] by (simp add: image_iff)

lemma store_ok_set:
  assumes "store_ok c s" "eval_key k"
  shows "store_ok c (set_cached_evaluation k v d c ttl s)"
proof -
  have "length (lru (set_cached_evaluation k v d c ttl s)) \<le> MAX_MEMORY_CACHE_SIZE"
    using length_move_to_end [of k "AList.update k (mem_of v (c + ttl)) (evict (lru s))"]
      length_update [of k "mem_of v (c + ttl)" "evict (lru s)"] evict_length [of "lru s"]
    by (simp add: set_cached_evaluation_def Let_def)
  moreover have "levels_agree c (set_cached_evaluation k v d c ttl s)"
    using assms(1) levels_agree_set [of c s c] by (simp add: store_ok_def)
  moreover have "fst ` set (lru (set_cached_evaluation k v d c ttl s)) = insert k (fst ` set (evict (lru s)))"
    by (simp add: set_cached_evaluation_def Let_def move_to_end_keys update_keys_set)
  moreover have "insert k (fst ` set (evict (lru s))) \<subseteq> Collect eval_key"
    using evict_keys [of "lru s"] assms unfolding store_ok_def by blast
  moreover have "\<exists>t. er_expires r = Iso t"
    if "eval_key k'" "map_of (rows (set_cached_evaluation k v d c ttl s)) k' = Some r" for k' r
  proof (cases "k' = k")
    case True
    with that(2) have "er_expires r = Iso (c + ttl)"
      by (simp add: set_cached_evaluation_def Let_def update_conv del: eval_row.surjective) (drule sym, simp)
    then show ?thesis by blast
  next
    case False
    with that(2) have "map_of (rows s) k' = Some r" by (simp add: set_cached_evaluation_def Let_def update_conv)
    with assms(1) that(1) show ?thesis unfolding store_ok_def by blast
  qed
  ultimately show ?thesis unfolding store_ok_def by blast
qed

lemma store_ok_get:
  assumes ok: "store_ok c s" and k: "eval_key k"
  shows "store_ok c (snd (get_cached_evaluation k c s))"
proof -
  from ok have "levels_agree c (snd (get_cached_evaluation k c s))"
    using k by (intro levels_agree_get [of c]) (auto simp: store_ok_def)
  moreover have "length (lru (snd (fetch_persistent k c u))) \<le> MAX_MEMORY_CACHE_SIZE
      \<and> (\<forall>k' r. eval_key k' \<and> map_of (rows (snd (fetch_persistent k c u))) k' = Some r \<longrightarrow> (\<exists>t. er_expires r = Iso t))
      \<and> fst ` set (lru (snd (fetch_persistent k c u))) \<subseteq> Collect eval_key"
    if "length (lru u) \<le> MAX_MEMORY_CACHE_SIZE" "rows u = rows s" "fst ` set (lru u) \<subseteq> fst ` set (lru s)"
    for u :: eval_store
  proof (cases "live_row (rows u) k c")
    case None
    from that(3) ok have "fst ` set (lru u) \<subseteq> Collect eval_key" unfolding store_ok_def by blast
    moreover from None have u: "snd (fetch_persistent k c u) = u" by (simp add: fetch_persistent_def)
    moreover from ok have "\<forall>k r. eval_key k \<and> map_of (rows s) k = Some r \<longrightarrow> (\<exists>t. er_expires r = Iso t)"
      unfolding store_ok_def by blast
    ultimately show ?thesis using that(1) unfolding u that(2) by (intro conjI)
  next
    case (Some r)
    then have "map_of (rows s) k = Some r" using that(2) by (auto simp: live_row_def split: option.splits if_splits)
    with ok k have "\<exists>t. er_expires r = Iso t" unfolding store_ok_def by blast
    then obtain t where t: "er_expires r = Iso t" by blast
    have "fst ` set (evict (lru u)) \<subseteq> fst ` set (lru s)" using evict_keys that(3) by blast
    with ok k have "insert k (fst ` set (evict (lru u))) \<subseteq> Collect eval_key" unfolding store_ok_def by blast
    moreover have "length (AList.update k (mem_of (row_value r) (stamp_time (er_expires r))) (evict (lru u)))
        \<le> MAX_MEMORY_CACHE_SIZE"
      using evict_length [of "lru u"] length_update [of k _ "evict (lru u)"] by (meson Suc_leI le_trans)
    moreover have "\<forall>k' r'. eval_key k' \<and> map_of (rows (snd (fetch_persistent k c u))) k' = Some r'
        \<longrightarrow> (\<exists>t. er_expires r' = Iso t)"
    proof (intro allI impI)
      fix k' r'
      assume "eval_key k' \<and> map_of (rows (snd (fetch_persistent k c u))) k' = Some r'"
      then have k': "eval_key k'" and r': "map_of (rows (snd (fetch_persistent k c u))) k' = Some r'" by auto
      show "\<exists>t. er_expires r' = Iso t"
      proof (cases "k' = k")
        case True
        with r' Some t show ?thesis by (simp add: fetch_persistent_def update_conv) auto
      next
        case False
        with r' Some that(2) have "map_of (rows s) k' = Some r'" by (simp add: fetch_persistent_def update_conv)
        with ok k' show ?thesis unfolding store_ok_def by blast
      qed
    qed
    ultimately show ?thesis using Some
      by (simp add: fetch_persistent_def update_keys_set)
  qed
  from this [of s] this [of "s\<lparr>lru := AList.delete k (lru s)\<rparr>"] ok
  have "length (lru (snd (get_cached_evaluation k c s))) \<le> MAX_MEMORY_CACHE_SIZE
      \<and> (\<forall>k' r. eval_key k' \<and> map_of (rows (snd (get_cached_evaluation k c s))) k' = Some r \<longrightarrow> (\<exists>t. er_expires r = Iso t))
      \<and> fst ` set (lru (snd (get_cached_evaluation k c s))) \<subseteq> Collect eval_key"
    using length_delete_le [of k "lru s"] length_move_to_end [of k "lru s"] dom_delete_subset [of k "lru s"]
    by (simp add: get_cached_evaluation_def store_ok_def move_to_end_keys split: option.splits)
  ultimately show ?thesis by (simp add: store_ok_def)
qed

lemma reach_store_ok: "cache_reach c s \<Longrightarrow> store_ok c s"
proof (induction rule: cache_reach.induct)
  case (start c)
  then show ?case using levels_agree_empty by (simp add: store_ok_def empty_store_def)
next
  case (tick c s d)
  then show ?case using levels_agree_later by (auto simp: store_ok_def)
next
  case (wrote c s k v d ttl)
  then show ?case by (intro store_ok_set)
next
  case (read c s k)
  then show ?case by (intro store_ok_get)
next
  case (purge c s)
  then have "levels_agree c (snd (purge_expired_cache_entries c s))"
    using levels_agree_purge [of c s c] by (simp add: store_ok_def)
  moreover from purge have "distinct (map fst (rows s))" by (auto simp: store_ok_def levels_agree_def)
  ultimately show ?case using purge.IH
    by (auto simp: store_ok_def purge_expired_cache_entries_def Let_def map_of_filter_key split: option.splits if_splits)
next
  case (clear c s)
  then show ?case by (simp add: store_ok_def clear_in_memory_cache_def levels_agree_def)
next
  case (foreign c s k r)
  then have "k \<notin> fst ` set (lru s)" unfolding store_ok_def by blast
  then have k: "map_of (lru s) k = None" by (simp add: map_of_eq_None_iff)
  from foreign have a: "levels_agree c s" by (simp add: store_ok_def)
  have "levels_agree c (s\<lparr>rows := AList.update k r (rows s)\<rparr>)"
  proof (rule agreeI)
    fix k' e
    assume e: "map_of (lru (s\<lparr>rows := AList.update k r (rows s)\<rparr>)) k' = Some e" "c < mem_expiry e"
    with k have "k' \<noteq> k" by auto
    moreover from e(1) have "map_of (lru s) k' = Some e" by simp
    from agreeE [OF a this order_refl e(2)] obtain r' where "map_of (rows s) k' = Some r'"
        "row_value r' = mem_value e" "er_expires r' = Iso (mem_expiry e)" .
    ultimately show "\<exists>r'. map_of (rows (s\<lparr>rows := AList.update k r (rows s)\<rparr>)) k' = Some r'
        \<and> row_value r' = mem_value e \<and> er_expires r' = Iso (mem_expiry e)"
      by (simp add: update_conv)
  qed (use agree_distinct [OF a] in \<open>simp_all add: distinct_update\<close>)
  with foreign show ?case by (auto simp: store_ok_def update_conv)
qed

subsection \<open>Properties\<close>

text \<open>
  C40: The two-level cache refines the table.  In every state that lookups, writes, purges,
  clears and rows of other features lead to, the memory level holds at most 1000 entries and a
  lookup gives exactly what the unexpired row of the table says, whatever was evicted.
\<close>

theorem cache_refines_table:
  assumes "cache_reach c s" and "c \<le> now"
  shows "map_option fst (fst (get_cached_evaluation k now s)) = table_value s now k
       \<and> length (lru s) \<le> MAX_MEMORY_CACHE_SIZE"
proof -
  from reach_store_ok [OF assms(1)] have "levels_agree c s" "length (lru s) \<le> MAX_MEMORY_CACHE_SIZE"
    by (simp_all add: store_ok_def)
  with cached_is_table [OF this(1) assms(2), of k] show ?thesis by (simp add: cached_value_def)
qed

definition demo_context :: row_context where
  "demo_context = \<lparr>rc_raw = ''ls'', rc_cwd = [], rc_scope = ''default'', rc_agent = ''default'', rc_origin = ''A'',
     rc_version = ''v''\<rparr>"

definition demo_value :: eval_value where
  "demo_value = (False, ''no'', ''CLOUD_JUDGE'', [])"

theorem cache_refines_table_witness:
  "fst (get_cached_evaluation ''ab'' 20 (clear_in_memory_cache (set_cached_evaluation ''ab'' demo_value demo_context 10 60 empty_store)))
     = Some (demo_value, False)"
proof -
  let ?s = "clear_in_memory_cache (set_cached_evaluation ''ab'' demo_value demo_context 10 60 empty_store)"
  have "cache_reach 10 ?s"
    by (intro cache_reach.clear cache_reach.wrote cache_reach.start) (simp add: eval_key_def)
  from cache_refines_table [OF this, of 20 "''ab''"]
  have "map_option fst (fst (get_cached_evaluation ''ab'' 20 ?s)) = table_value ?s 20 ''ab''" by simp
  also have "table_value ?s 20 ''ab'' = Some demo_value" by code_simp
  finally show ?thesis
    by (simp add: get_cached_evaluation_def fetch_persistent_def clear_in_memory_cache_def)
       (auto split: option.splits)
qed

text \<open>
  The last verdict wins.  After any run of writes at times in order, a lookup of a key
  gives the verdict of the last write of that key while its time to live lasts and nothing
  from then on, whatever was written for other keys before and after it.
\<close>

lemma last_verdict_wins:
  assumes "cache_reach c s" and "timely c (ps @ (k, w, now, ttl) # qs) t" and "k \<notin> fst ` set qs"
  shows "map_option fst (fst (get_cached_evaluation k t
           (fold (\<lambda>(k, w, now, ttl). set_cached_evaluation k (fst w) (snd w) now ttl) (ps @ (k, w, now, ttl) # qs) s)))
         = (if t < now + ttl then Some (fst w) else None)"
proof -
  have "levels_agree c s" using reach_store_ok [OF assms(1)] by (simp add: store_ok_def)
  from cache.last_write_wins [OF this assms(2,3)] show ?thesis by (simp add: cached_value_def case_prod_unfold)
qed

lemma last_verdict_wins_witness:
  "map_option fst (fst (get_cached_evaluation ''ab'' 50
     (fold (\<lambda>(k, w, now, ttl). set_cached_evaluation k (fst w) (snd w) now ttl)
        ([(''ab'', ((True, [], [], []), demo_context), 1, 3600)] @ (''ab'', (demo_value, demo_context), 2, 3600)
          # [(''cd'', ((True, [], [], []), demo_context), 3, 3600)]) empty_store)))
   = Some demo_value"
  using last_verdict_wins [OF cache_reach.start, where k = "''ab''" and t = 50 and now = 2 and ttl = 3600 and c = 0
      and w = "(demo_value, demo_context)" and ps = "[(''ab'', ((True, [], [], []), demo_context), 1, 3600)]"
      and qs = "[(''cd'', ((True, [], [], []), demo_context), 3, 3600)]"]
  by simp

text \<open>
  Human approvals of a pane are not disturbed by approvals of other panes: within a scope
  the last approval of a pattern decides until it expires, and approving a pattern in a scope
  whose name has no colon leaves every other such scope as it was.
\<close>

lemma approvals_are_scoped:
  assumes "norm_scope scope \<noteq> norm_scope other" and "CHR '':'' \<notin> set (norm_scope scope)"
    and "CHR '':'' \<notin> set (norm_scope other)"
  shows "has_human_approval_pattern p scope t (record_human_approval_pattern q other now ttl s)
       = has_human_approval_pattern p scope t s"
proof -
  have "approval_key p scope \<noteq> approval_key q other"
  proof
    assume "approval_key p scope = approval_key q other"
    then have "norm_scope scope @ '':'' @ p = norm_scope other @ '':'' @ q" by (simp add: approval_key_def)
    then have "takeWhile (\<lambda>c. c \<noteq> CHR '':'') (norm_scope scope @ '':'' @ p)
        = takeWhile (\<lambda>c. c \<noteq> CHR '':'') (norm_scope other @ '':'' @ q)" by simp
    moreover have "takeWhile (\<lambda>c. c \<noteq> CHR '':'') (x @ '':'' @ y) = x" if "CHR '':'' \<notin> set x" for x y
      using that by (induction x) auto
    ultimately show False using assms by metis
  qed
  then show ?thesis
    by (simp add: has_human_approval_pattern_def approved_row_def record_human_approval_pattern_def Let_def update_conv)
qed

lemma approvals_are_scoped_witness:
  "\<not> has_human_approval_pattern ''rm'' ''pane-1'' 20 (record_human_approval_pattern ''rm'' ''pane-2'' 10 60 empty_store)"
proof -
  have "has_human_approval_pattern ''rm'' ''pane-1'' 20 (record_human_approval_pattern ''rm'' ''pane-2'' 10 60 empty_store)
      = has_human_approval_pattern ''rm'' ''pane-1'' 20 empty_store"
    by (rule approvals_are_scoped) code_simp+
  also have "\<dots> = False" by code_simp
  finally show ?thesis by simp
qed

lemma recorded_row:
  "\<exists>r. map_of (rows (record_human_approval_pattern p scope now ttl s)) (approval_key p scope) = Some r
       \<and> er_safe r \<and> er_expires r = Sql (now + ttl)"
  by (auto simp: record_human_approval_pattern_def Let_def update_conv split: option.splits)

text \<open>
  A purge deletes approvals that are still alive.  Approvals store their expiry in the
  format of SQLite, the purge compares it with a text in ISO format, and a blank sorts before
  \<open>T\<close>: an approval that expires later on the same day is gone after the next purge, although
  its time to live has not passed.
\<close>

lemma purge_deletes_live_approval:
  assumes "distinct (map fst (rows s))" and "now \<le> t" and "(now + ttl) div 86400 = t div 86400" and "t < now + ttl"
  shows "has_human_approval_pattern p scope t (record_human_approval_pattern p scope now ttl s)
       \<and> \<not> has_human_approval_pattern p scope t
            (snd (purge_expired_cache_entries t (record_human_approval_pattern p scope now ttl s)))"
proof
  from recorded_row [of p scope now ttl s] obtain r
    where r: "map_of (rows (record_human_approval_pattern p scope now ttl s)) (approval_key p scope) = Some r"
      "er_safe r" "er_expires r = Sql (now + ttl)" by blast
  from r assms(4) show "has_human_approval_pattern p scope t (record_human_approval_pattern p scope now ttl s)"
    by (simp add: has_human_approval_pattern_def approved_row_def)
  have d: "distinct (map fst (rows (record_human_approval_pattern p scope now ttl s)))"
    using assms(1) by (simp add: record_human_approval_pattern_def Let_def distinct_update)
  have "\<not> text_less (Iso t) (er_expires r)" using r(3) assms(3) by (simp add: text_less_def)
  with r(1) show "\<not> has_human_approval_pattern p scope t
            (snd (purge_expired_cache_entries t (record_human_approval_pattern p scope now ttl s)))"
    by (simp add: has_human_approval_pattern_def approved_row_def purge_expired_cache_entries_def Let_def
        map_of_filter_key [OF d])
qed

lemma purge_deletes_live_approval_witness:
  "\<not> has_human_approval_pattern ''make test'' ''pane-1'' 10
      (snd (purge_expired_cache_entries 10 (record_human_approval_pattern ''make test'' ''pane-1'' 0 3600 empty_store)))"
  using purge_deletes_live_approval [where s = empty_store and now = 0 and t = 10 and ttl = 3600
      and p = "''make test''" and scope = "''pane-1''"]
  by (simp add: empty_store_def)

end
