(* ===== verification/SessionMemory.thy ===== *)
theory SessionMemory
  imports EvalCache
begin

text \<open>
  The approval memory of panes (\<open>scripts/core/session_memory.py\<close>): two dictionaries in memory,
  by pane and fingerprint and by pane and command template, backed by rows of the evaluation
  table.  A nested dictionary is an association list over pairs.  The hash function is the
  parameter \<open>sha\<close>; what is used of it is that a digest contains no colon.
\<close>

subsection \<open>Templates and fingerprints\<close>

definition group1 :: "mtch \<Rightarrow> str" where
  "group1 m = (case m_group m 1 of Some g \<Rightarrow> g | None \<Rightarrow> [])"

definition SAFE_DYNAMIC_TEMPLATE_PATTERNS :: "(regex \<times> (mtch \<Rightarrow> str)) list" where
  "SAFE_DYNAMIC_TEMPLATE_PATTERNS =
     [(re_ci ''^(python3?%s+[%w/.-]+%.py%s+--(?:search|find|list|query|status))%s+.*$'', \<lambda>m. group1 m @ '' *''),
      (re_ci ''^(cat%s+(?:/tmp/|~?/?[%w/.-]+worktrees/)[^|;&]+)$'', \<lambda>m. ''cat <SAFE_PATH>''),
      (re_ci ''^(git%s+(?:show|log|diff|rev-parse|status|branch|worktree%s+list))%b.*$'', \<lambda>m. ''git <READ_OP> *''),
      (re_ci ''^(python3?%s+-m%s+(?:unittest|pytest)%b).*$'', \<lambda>m. group1 m @ '' *'')]"

definition extract_safe_command_template :: "str \<Rightarrow> str option" where
  "extract_safe_command_template cmd =
     (let clean = strip cmd in
      first_some (\<lambda>(p, repl). if re_matches p clean then Some (re_sub p repl clean) else None)
        SAFE_DYNAMIC_TEMPLATE_PATTERNS)"

definition normalize_cmd_fingerprint :: "(str \<Rightarrow> str) \<Rightarrow> str \<Rightarrow> str \<Rightarrow> str" where
  "normalize_cmd_fingerprint sha raw_cmd cwd = sha (''cmd='' @ strip raw_cmd @ ''|cwd='' @ strip cwd)"

definition norm_pane :: "str \<Rightarrow> str" where
  "norm_pane pane_id = (if pane_id = [] then ''default'' else strip pane_id)"

subsection \<open>The memory\<close>

record mem_record =
  mr_raw :: str
  mr_cwd :: str
  mr_layer :: str
  mr_reason :: str
  mr_expires :: int

record pane_store = eval_store +
  exact :: "((str \<times> str) \<times> mem_record) list"
  templates :: "((str \<times> str) \<times> mem_record) list"

definition pane_mem_key :: "str \<Rightarrow> str \<Rightarrow> str" where
  "pane_mem_key pane fp = ''pane_mem:'' @ pane @ '':'' @ fp"

definition remember_template ::
    "str \<Rightarrow> str option \<Rightarrow> mem_record \<Rightarrow> ((str \<times> str) \<times> mem_record) list \<Rightarrow> ((str \<times> str) \<times> mem_record) list" where
  "remember_template pane template r xs =
     (case template of None \<Rightarrow> xs | Some t \<Rightarrow> if t = [] then xs else AList.update (pane, t) r xs)"

definition mem_row :: "str \<Rightarrow> mem_record \<Rightarrow> eval_row option \<Rightarrow> eval_row" where
  "mem_row pane r old =
     (case old of
        Some row \<Rightarrow> row\<lparr>er_safe := True, er_reason := mr_reason r, er_layer := mr_layer r, er_expires := Sql (mr_expires r)\<rparr>
      | None \<Rightarrow> \<lparr>er_raw = mr_raw r, er_safe = True, er_reason = mr_reason r, er_layer = mr_layer r, er_taxonomy = [],
                 er_cwd = mr_cwd r, er_scope = pane, er_agent = ''default'', er_origin = ''MEM'',
                 er_version = ''session-mem'', er_expires = Sql (mr_expires r), er_hits = 0\<rparr>)"

definition record_approval ::
    "(str \<Rightarrow> str) \<Rightarrow> str \<Rightarrow> str \<Rightarrow> str \<Rightarrow> str \<Rightarrow> str \<Rightarrow> int \<Rightarrow> int \<Rightarrow> 'a pane_store_scheme \<Rightarrow> 'a pane_store_scheme" where
  "record_approval sha pane_id raw_cmd layer reason cwd now ttl s =
     (let pane = norm_pane pane_id; fp = normalize_cmd_fingerprint sha raw_cmd cwd; key = pane_mem_key pane fp;
          r = \<lparr>mr_raw = strip raw_cmd, mr_cwd = cwd, mr_layer = layer, mr_reason = reason, mr_expires = now + ttl\<rparr>
      in s\<lparr>exact := AList.update (pane, fp) r (exact s),
           templates := remember_template pane (extract_safe_command_template raw_cmd) r (templates s),
           rows := AList.update key (mem_row pane r (map_of (rows s) key)) (rows s)\<rparr>)"

text \<open>
  The lookup in the table.  The deletion of an expired row is not committed by the code (the
  connection is dropped with its transaction open), so the row stays.
\<close>

definition check_persistent ::
    "str \<Rightarrow> str \<Rightarrow> str \<Rightarrow> str \<Rightarrow> str option \<Rightarrow> int \<Rightarrow> 'a pane_store_scheme
       \<Rightarrow> (bool \<times> str \<times> str) option \<times> 'a pane_store_scheme" where
  "check_persistent pane fp raw_cmd cwd template now s =
     (case map_of (rows s) (pane_mem_key pane fp) of
        None \<Rightarrow> (None, s)
      | Some row \<Rightarrow>
          if er_safe row \<and> stamp_time (er_expires row) > now then
            (let r = \<lparr>mr_raw = strip raw_cmd, mr_cwd = cwd, mr_layer = er_layer row, mr_reason = er_reason row,
                      mr_expires = stamp_time (er_expires row)\<rparr>
             in (Some (True, ''[Session Memory: '' @ pane @ ''] '' @ er_reason row, er_layer row),
                 s\<lparr>exact := AList.update (pane, fp) r (exact s),
                   templates := remember_template pane template r (templates s)\<rparr>))
          else (None, s))"

definition check_template ::
    "str \<Rightarrow> str option \<Rightarrow> int \<Rightarrow> 'a pane_store_scheme \<Rightarrow> (bool \<times> str \<times> str) option \<times> 'a pane_store_scheme" where
  "check_template pane template now s =
     (case template of
        None \<Rightarrow> (None, s)
      | Some t \<Rightarrow> (if t = [] then (None, s) else
          (case map_of (templates s) (pane, t) of
             None \<Rightarrow> (None, s)
           | Some r \<Rightarrow>
               if mr_expires r > now
               then (Some (True, ''[Session Pattern Memory: '' @ pane @ ''] Matches previously approved template ''
                             @ [squote] @ t @ [squote], mr_layer r), s)
               else (None, s\<lparr>templates := AList.delete (pane, t) (templates s)\<rparr>))))"

definition check_exact ::
    "str \<Rightarrow> str \<Rightarrow> int \<Rightarrow> 'a pane_store_scheme \<Rightarrow> (bool \<times> str \<times> str) option \<times> 'a pane_store_scheme" where
  "check_exact pane fp now s =
     (case map_of (exact s) (pane, fp) of
        None \<Rightarrow> (None, s)
      | Some r \<Rightarrow>
          if mr_expires r > now
          then (Some (True, ''[Session Memory: '' @ pane @ ''] '' @ mr_reason r, mr_layer r), s)
          else (None, s\<lparr>exact := AList.delete (pane, fp) (exact s)\<rparr>))"

definition check_approval ::
    "(str \<Rightarrow> str) \<Rightarrow> str \<Rightarrow> str \<Rightarrow> str \<Rightarrow> int \<Rightarrow> 'a pane_store_scheme
       \<Rightarrow> (bool \<times> str \<times> str) option \<times> 'a pane_store_scheme" where
  "check_approval sha pane_id raw_cmd cwd now s =
     (let pane = norm_pane pane_id; fp = normalize_cmd_fingerprint sha raw_cmd cwd;
          template = extract_safe_command_template raw_cmd
      in case check_exact pane fp now s of
           (Some v, s1) \<Rightarrow> (Some v, s1)
         | (None, s1) \<Rightarrow>
             (case check_template pane template now s1 of
                (Some v, s2) \<Rightarrow> (Some v, s2)
              | (None, s2) \<Rightarrow> check_persistent pane fp raw_cmd cwd template now s2))"

text \<open>Clearing one pane, or all of them (an empty pane identifier counts as none).\<close>

definition clear_memory :: "str option \<Rightarrow> 'a pane_store_scheme \<Rightarrow> 'a pane_store_scheme" where
  "clear_memory pane_id s =
     (case pane_id of
        Some p \<Rightarrow> (if p = [] then s\<lparr>exact := [], templates := []\<rparr>
                   else s\<lparr>exact := filter (\<lambda>e. fst (fst e) \<noteq> strip p) (exact s),
                          templates := filter (\<lambda>e. fst (fst e) \<noteq> strip p) (templates s)\<rparr>)
      | None \<Rightarrow> s\<lparr>exact := [], templates := []\<rparr>)"

subsection \<open>Where an approval comes from\<close>

text \<open>The approvals that have been recorded, with their expiry.\<close>

record approval_event =
  ae_pane :: str
  ae_cmd :: str
  ae_cwd :: str
  ae_expires :: int

text \<open>
  The states of the memory: approvals are recorded and checked, panes are cleared, the process
  is restarted (the table survives), rows are purged and rows of other features are written.
\<close>

inductive memory_reach :: "(str \<Rightarrow> str) \<Rightarrow> approval_event list \<Rightarrow> pane_store \<Rightarrow> bool" for sha where
  fresh: "memory_reach sha [] \<lparr>lru = [], rows = [], exact = [], templates = []\<rparr>"
| recorded: "memory_reach sha L s \<Longrightarrow>
    memory_reach sha (\<lparr>ae_pane = p, ae_cmd = c, ae_cwd = d, ae_expires = now + ttl\<rparr> # L)
      (record_approval sha p c layer reason d now ttl s)"
| checked: "memory_reach sha L s \<Longrightarrow> memory_reach sha L (snd (check_approval sha p c d now s))"
| cleared: "memory_reach sha L s \<Longrightarrow> memory_reach sha L (clear_memory who s)"
| restarted: "memory_reach sha L s \<Longrightarrow> memory_reach sha L (s\<lparr>lru := [], exact := [], templates := []\<rparr>)"
| purged: "memory_reach sha L s \<Longrightarrow> memory_reach sha L (s\<lparr>rows := filter P (rows s)\<rparr>)"
| other_row: "memory_reach sha L s \<Longrightarrow> \<not> starts_with k ''pane_mem:'' \<Longrightarrow>
    memory_reach sha L (s\<lparr>rows := AList.update k r (rows s)\<rparr>)"

definition granted :: "(str \<Rightarrow> str) \<Rightarrow> approval_event list \<Rightarrow> str \<Rightarrow> str \<Rightarrow> int \<Rightarrow> bool" where
  "granted sha L pane fp t \<longleftrightarrow> (\<exists>e \<in> set L. norm_pane (ae_pane e) = pane
     \<and> normalize_cmd_fingerprint sha (ae_cmd e) (ae_cwd e) = fp \<and> ae_expires e = t)"

text \<open>A template is granted through a command that has it and whose fingerprint was approved.\<close>

definition granted_template :: "(str \<Rightarrow> str) \<Rightarrow> approval_event list \<Rightarrow> str \<Rightarrow> str \<Rightarrow> int \<Rightarrow> bool" where
  "granted_template sha L pane tm t \<longleftrightarrow>
     (\<exists>c d. granted sha L pane (normalize_cmd_fingerprint sha c d) t \<and> extract_safe_command_template c = Some tm)"

definition memory_sound :: "(str \<Rightarrow> str) \<Rightarrow> approval_event list \<Rightarrow> 'a pane_store_scheme \<Rightarrow> bool" where
  "memory_sound sha L s \<longleftrightarrow> distinct (map fst (rows s))
     \<and> (\<forall>pane fp r. map_of (exact s) (pane, fp) = Some r \<longrightarrow> granted sha L pane fp (mr_expires r))
     \<and> (\<forall>pane tm r. map_of (templates s) (pane, tm) = Some r \<longrightarrow> granted_template sha L pane tm (mr_expires r))
     \<and> (\<forall>pane fp r. CHR '':'' \<notin> set fp \<and> map_of (rows s) (pane_mem_key pane fp) = Some r \<and> er_safe r \<longrightarrow>
          granted sha L pane fp (stamp_time (er_expires r)))"

lemma soundI:
  assumes "distinct (map fst (rows s))"
    and "\<And>pane fp r. map_of (exact s) (pane, fp) = Some r \<Longrightarrow> granted sha L pane fp (mr_expires r)"
    and "\<And>pane tm r. map_of (templates s) (pane, tm) = Some r \<Longrightarrow> granted_template sha L pane tm (mr_expires r)"
    and "\<And>pane fp r. CHR '':'' \<notin> set fp \<Longrightarrow> map_of (rows s) (pane_mem_key pane fp) = Some r \<Longrightarrow> er_safe r
          \<Longrightarrow> granted sha L pane fp (stamp_time (er_expires r))"
  shows "memory_sound sha L s"
  using assms unfolding memory_sound_def by blast

lemma soundD:
  assumes "memory_sound sha L s"
  shows "distinct (map fst (rows s))"
    and "map_of (exact s) (pane, fp) = Some r \<Longrightarrow> granted sha L pane fp (mr_expires r)"
    and "map_of (templates s) (pane, tm) = Some r \<Longrightarrow> granted_template sha L pane tm (mr_expires r)"
    and "CHR '':'' \<notin> set fp \<Longrightarrow> map_of (rows s) (pane_mem_key pane fp) = Some row \<Longrightarrow> er_safe row
          \<Longrightarrow> granted sha L pane fp (stamp_time (er_expires row))"
  using assms unfolding memory_sound_def by blast+

lemma pane_mem_key_inj:
  assumes "CHR '':'' \<notin> set fp" "CHR '':'' \<notin> set fp'"
  shows "pane_mem_key pane fp = pane_mem_key pane' fp' \<longleftrightarrow> pane = pane' \<and> fp = fp'"
proof
  assume "pane_mem_key pane fp = pane_mem_key pane' fp'"
  then have "rev (pane @ CHR '':'' # fp) = rev (pane' @ CHR '':'' # fp')" by (simp add: pane_mem_key_def)
  then have r: "rev fp @ CHR '':'' # rev pane = rev fp' @ CHR '':'' # rev pane'" by simp
  have take: "takeWhile (\<lambda>c. c \<noteq> CHR '':'') (x @ CHR '':'' # y) = x" if "CHR '':'' \<notin> set x" for x y
    using that by (induction x) auto
  from arg_cong [OF r, of "takeWhile (\<lambda>c. c \<noteq> CHR '':'')"] assms have "rev fp = rev fp'" by (simp add: take)
  with r show "pane = pane' \<and> fp = fp'" by simp
qed simp

lemma granted_more: "granted sha L pane fp t \<Longrightarrow> granted sha (e # L) pane fp t"
  by (auto simp: granted_def)

lemma granted_template_more: "granted_template sha L pane tm t \<Longrightarrow> granted_template sha (e # L) pane tm t"
  using granted_more by (fastforce simp: granted_template_def)

lemma granted_templateI:
  "granted sha L pane (normalize_cmd_fingerprint sha c d) t \<Longrightarrow> extract_safe_command_template c = Some tm \<Longrightarrow>
     granted_template sha L pane tm t"
  unfolding granted_template_def by blast

lemma remember_template_cases:
  assumes "map_of (remember_template pane template r xs) (pane', tm) = Some r'"
  obtains "map_of xs (pane', tm) = Some r'" | "template = Some tm" "pane' = pane" "r' = r"
proof (cases template)
  case None
  with assms that(1) show ?thesis by (simp add: remember_template_def)
next
  case (Some t)
  show ?thesis
  proof (cases "t \<noteq> [] \<and> (pane', tm) = (pane, t)")
    case True
    with Some assms that(2) show ?thesis by (simp add: remember_template_def update_conv)
  next
    case False
    with Some assms have "map_of xs (pane', tm) = Some r'"
      by (cases "t = []") (auto simp: remember_template_def update_conv split: if_splits)
    then show ?thesis by (rule that(1))
  qed
qed

lemma map_of_filter_fst: "map_of (filter (\<lambda>e. P (fst e)) xs) k = (if P k then map_of xs k else None)"
  by (induction xs) auto

lemma map_of_filter_distinct:
  "distinct (map fst xs) \<Longrightarrow> map_of (filter P xs) k = Some r \<Longrightarrow> map_of xs k = Some r"
proof (induction xs)
  case Nil
  then show ?case by simp
next
  case (Cons x xs)
  then have "map_of (filter P xs) k = None" if "fst x = k"
    using that by (auto simp: map_of_eq_None_iff image_iff)
  with Cons show ?case by (auto split: if_splits)
qed

lemma delete_cases: "map_of (AList.delete k xs) k' = Some r \<Longrightarrow> map_of xs k' = Some r"
  by (simp add: delete_conv split: if_splits)

text \<open>Every lookup stage keeps the memory sound, and what it answers was granted.\<close>

definition answers ::
    "(str \<Rightarrow> str) \<Rightarrow> approval_event list \<Rightarrow> str \<Rightarrow> str \<Rightarrow> str option \<Rightarrow> int \<Rightarrow>
     (bool \<times> str \<times> str) option \<times> 'a pane_store_scheme \<Rightarrow> bool" where
  "answers sha L pane fp template now out \<longleftrightarrow> memory_sound sha L (snd out) \<and>
     (fst out \<noteq> None \<longrightarrow> (\<exists>t > now. granted sha L pane fp t
        \<or> (\<exists>tm. template = Some tm \<and> granted_template sha L pane tm t)))"

lemma answersI:
  assumes "memory_sound sha L (snd out)"
    and "\<And>v. fst out = Some v \<Longrightarrow> \<exists>t > now. granted sha L pane fp t
          \<or> (\<exists>tm. template = Some tm \<and> granted_template sha L pane tm t)"
  shows "answers sha L pane fp template now out"
  using assms unfolding answers_def by blast

lemma check_exact_answers:
  assumes s: "memory_sound sha L s"
  shows "answers sha L pane fp template now (check_exact pane fp now s)"
proof (cases "map_of (exact s) (pane, fp)")
  case None
  with s show ?thesis by (simp add: check_exact_def answers_def)
next
  case (Some r)
  have "granted sha L pane fp (mr_expires r)" using soundD(2) [OF s Some] .
  moreover have "memory_sound sha L (s\<lparr>exact := AList.delete (pane, fp) (exact s)\<rparr>)"
    by (rule soundI) (simp_all add: soundD(1) [OF s] soundD(3,4) [OF s] soundD(2) [OF s delete_cases])
  ultimately show ?thesis using s Some by (auto simp: check_exact_def answers_def)
qed

lemma check_template_answers:
  assumes s: "memory_sound sha L s"
  shows "answers sha L pane fp template now (check_template pane template now s)"
proof (cases template)
  case None
  with s show ?thesis by (simp add: check_template_def answers_def)
next
  case (Some t)
  show ?thesis
  proof (cases "t = [] \<or> map_of (templates s) (pane, t) = None")
    case True
    with s Some show ?thesis by (auto simp: check_template_def answers_def)
  next
    case False
    then obtain r where r: "map_of (templates s) (pane, t) = Some r" by blast
    have "granted_template sha L pane t (mr_expires r)" using soundD(3) [OF s r] .
    moreover have "memory_sound sha L (s\<lparr>templates := AList.delete (pane, t) (templates s)\<rparr>)"
      by (rule soundI) (simp_all add: soundD(1) [OF s] soundD(2,4) [OF s] soundD(3) [OF s delete_cases])
    ultimately show ?thesis using s Some False r by (auto simp: check_template_def answers_def)
  qed
qed

lemma check_persistent_answers:
  assumes s: "memory_sound sha L s" and fp: "CHR '':'' \<notin> set fp"
    and cmd: "fp = normalize_cmd_fingerprint sha c d" "template = extract_safe_command_template c"
  shows "answers sha L pane fp template now (check_persistent pane fp c d template now s)"
proof (cases "\<exists>row. map_of (rows s) (pane_mem_key pane fp) = Some row \<and> er_safe row \<and> stamp_time (er_expires row) > now")
  case False
  then have "check_persistent pane fp c d template now s = (None, s)"
    by (auto simp: check_persistent_def split: option.splits)
  with s show ?thesis by (simp add: answers_def)
next
  case True
  then obtain row where row: "map_of (rows s) (pane_mem_key pane fp) = Some row" "er_safe row"
      "stamp_time (er_expires row) > now"
    by blast
  let ?r = "\<lparr>mr_raw = strip c, mr_cwd = d, mr_layer = er_layer row, mr_reason = er_reason row,
      mr_expires = stamp_time (er_expires row)\<rparr>"
  let ?s = "s\<lparr>exact := AList.update (pane, fp) ?r (exact s),
      templates := remember_template pane template ?r (templates s)\<rparr>"
  have g: "granted sha L pane fp (stamp_time (er_expires row))" using soundD(4) [OF s fp row(1,2)] .
  have "memory_sound sha L ?s"
  proof (rule soundI)
    show "distinct (map fst (rows ?s))" using soundD(1) [OF s] by simp
    show "granted sha L pane' fp' (mr_expires r)" if "map_of (exact ?s) (pane', fp') = Some r" for pane' fp' r
      using that g soundD(2) [OF s, of pane' fp' r] by (auto simp: update_conv split: if_splits)
    show "granted_template sha L pane' tm (mr_expires r)"
      if tm: "map_of (templates ?s) (pane', tm) = Some r" for pane' tm r
    proof -
      from tm have "map_of (remember_template pane template ?r (templates s)) (pane', tm) = Some r" by simp
      then show ?thesis
      proof (cases rule: remember_template_cases)
        case 1
        then show ?thesis by (rule soundD(3) [OF s])
      next
        case 2
        with cmd g show ?thesis by (intro granted_templateI [where c = c and d = d]) simp_all
      qed
    qed
    show "granted sha L pane' fp' (stamp_time (er_expires r))"
      if "CHR '':'' \<notin> set fp'" "map_of (rows ?s) (pane_mem_key pane' fp') = Some r" "er_safe r" for pane' fp' r
      using that soundD(4) [OF s, of fp' pane' r] by simp
  qed
  with row g show ?thesis by (intro answersI) (auto simp: check_persistent_def Let_def)
qed

lemma check_approval_answers:
  assumes s: "memory_sound sha L s" and sha: "\<And>x. CHR '':'' \<notin> set (sha x)"
  shows "answers sha L (norm_pane p) (normalize_cmd_fingerprint sha c d) (extract_safe_command_template c) now
     (check_approval sha p c d now s)"
proof -
  let ?fp = "normalize_cmd_fingerprint sha c d" and ?t = "extract_safe_command_template c"
  obtain v1 s1 where e1: "check_exact (norm_pane p) ?fp now s = (v1, s1)" by (cases "check_exact (norm_pane p) ?fp now s")
  obtain v2 s2 where e2: "check_template (norm_pane p) ?t now s1 = (v2, s2)"
    by (cases "check_template (norm_pane p) ?t now s1")
  have a1: "answers sha L (norm_pane p) ?fp ?t now (v1, s1)" using check_exact_answers [OF s] e1 by metis
  then have s1: "memory_sound sha L s1" by (simp add: answers_def)
  have a2: "answers sha L (norm_pane p) ?fp ?t now (v2, s2)" using check_template_answers [OF s1] e2 by metis
  then have s2: "memory_sound sha L s2" by (simp add: answers_def)
  have a3: "answers sha L (norm_pane p) ?fp ?t now (check_persistent (norm_pane p) ?fp c d ?t now s2)"
    using sha by (intro check_persistent_answers [OF s2]) (simp_all add: normalize_cmd_fingerprint_def)
  show ?thesis using a1 a2 a3 e1 e2
    by (cases v1; cases v2) (simp_all add: check_approval_def Let_def)
qed

lemma record_sound:
  assumes s: "memory_sound sha L s" and sha: "\<And>x. CHR '':'' \<notin> set (sha x)"
  shows "memory_sound sha (\<lparr>ae_pane = p, ae_cmd = c, ae_cwd = d, ae_expires = now + ttl\<rparr> # L)
           (record_approval sha p c layer reason d now ttl s)" (is "memory_sound sha (?e # L) ?s")
proof (rule soundI)
  let ?fp = "normalize_cmd_fingerprint sha c d"
  let ?r = "\<lparr>mr_raw = strip c, mr_cwd = d, mr_layer = layer, mr_reason = reason, mr_expires = now + ttl\<rparr>"
  have g: "granted sha (?e # L) (norm_pane p) ?fp (now + ttl)" by (simp add: granted_def)
  show "distinct (map fst (rows ?s))"
    using soundD(1) [OF s] by (simp add: record_approval_def Let_def distinct_update)
  show "granted sha (?e # L) pane fp (mr_expires r)" if "map_of (exact ?s) (pane, fp) = Some r" for pane fp r
    using that g granted_more [OF soundD(2) [OF s, of pane fp r]]
    by (auto simp: record_approval_def Let_def update_conv split: if_splits)
  show "granted_template sha (?e # L) pane tm (mr_expires r)" if "map_of (templates ?s) (pane, tm) = Some r" for pane tm r
  proof -
    from that have "map_of (remember_template (norm_pane p) (extract_safe_command_template c) ?r (templates s)) (pane, tm) = Some r"
      by (simp add: record_approval_def Let_def)
    then show ?thesis
    proof (cases rule: remember_template_cases)
      case 1
      then show ?thesis by (rule granted_template_more [OF soundD(3) [OF s]])
    next
      case 2
      with g show ?thesis by (intro granted_templateI [where c = c and d = d]) simp_all
    qed
  qed
  show "granted sha (?e # L) pane fp (stamp_time (er_expires r))"
    if fp: "CHR '':'' \<notin> set fp" and r: "map_of (rows ?s) (pane_mem_key pane fp) = Some r" "er_safe r" for pane fp r
  proof (cases "pane = norm_pane p \<and> fp = ?fp")
    case True
    with r(1) have "r = mem_row (norm_pane p) ?r (map_of (rows s) (pane_mem_key (norm_pane p) ?fp))"
      by (simp add: record_approval_def Let_def update_conv)
    then have "er_expires r = Sql (now + ttl)" by (auto simp: mem_row_def split: option.splits)
    with True g show ?thesis by simp
  next
    case False
    have "CHR '':'' \<notin> set ?fp" using sha by (simp add: normalize_cmd_fingerprint_def)
    with False have "pane_mem_key pane fp \<noteq> pane_mem_key (norm_pane p) ?fp" using pane_mem_key_inj [OF fp] by auto
    with r(1) have "map_of (rows s) (pane_mem_key pane fp) = Some r"
      by (simp add: record_approval_def Let_def update_conv)
    from granted_more [OF soundD(4) [OF s fp this r(2)]] show ?thesis .
  qed
qed

lemma clear_sound:
  assumes s: "memory_sound sha L s"
  shows "memory_sound sha L (clear_memory who s)"
proof (rule soundI)
  have keep: "map_of (exact (clear_memory who s)) k = Some r \<Longrightarrow> map_of (exact s) k = Some r"
    "map_of (templates (clear_memory who s)) k = Some r \<Longrightarrow> map_of (templates s) k = Some r"
    "rows (clear_memory who s) = rows s" for k r
    by (auto simp: clear_memory_def map_of_filter_fst [where P = "\<lambda>k. fst k \<noteq> q" for q] split: option.splits if_splits)
  show "distinct (map fst (rows (clear_memory who s)))" using soundD(1) [OF s] keep(3) by simp
  show "granted sha L pane fp (mr_expires r)" if "map_of (exact (clear_memory who s)) (pane, fp) = Some r" for pane fp r
    using soundD(2) [OF s keep(1) [OF that]] .
  show "granted_template sha L pane tm (mr_expires r)"
    if "map_of (templates (clear_memory who s)) (pane, tm) = Some r" for pane tm r
    using soundD(3) [OF s keep(2) [OF that]] .
  show "granted sha L pane fp (stamp_time (er_expires r))"
    if "CHR '':'' \<notin> set fp" "map_of (rows (clear_memory who s)) (pane_mem_key pane fp) = Some r" "er_safe r" for pane fp r
    using soundD(4) [OF s] that keep(3) by simp
qed

lemma reach_sound:
  assumes "memory_reach sha L s" and sha: "\<And>x. CHR '':'' \<notin> set (sha x)"
  shows "memory_sound sha L s"
  using assms(1)
proof (induction rule: memory_reach.induct)
  case fresh
  show ?case by (rule soundI) simp_all
next
  case (recorded L s p c d now ttl layer reason)
  show ?case using recorded.IH sha by (rule record_sound)
next
  case (checked L s p c d now)
  show ?case using check_approval_answers [OF checked.IH sha] by (auto simp: answers_def)
next
  case (cleared L s who)
  show ?case using cleared.IH by (rule clear_sound)
next
  case (restarted L s)
  show ?case by (rule soundI) (simp_all add: soundD(1,4) [OF restarted.IH])
next
  case (purged L s P)
  note d = soundD(1) [OF purged.IH]
  show ?case
    by (rule soundI) (simp_all add: distinct_map_filter [OF d] soundD(2,3) [OF purged.IH]
        soundD(4) [OF purged.IH _ map_of_filter_distinct [OF d]])
next
  case (other_row L s k r)
  have "pane_mem_key pane fp \<noteq> k" for pane fp
    using other_row.hyps(2) by (auto simp: pane_mem_key_def starts_with_def)
  then show ?case
    by (intro soundI) (simp_all add: distinct_update soundD(1-3) [OF other_row.IH] update_conv soundD(4) [OF other_row.IH])
qed

text \<open>The memory only ever approves.\<close>

lemma check_exact_ok: "fst (check_exact p fp t s) = Some v \<Longrightarrow> fst v" 
  by (cases "map_of (exact s) (p, fp)") (auto simp: check_exact_def split: if_splits)

lemma check_template_ok: "fst (check_template p tm t s) = Some v \<Longrightarrow> fst v"
  by (cases tm) (auto simp: check_template_def split: if_splits option.splits)

lemma check_persistent_ok:  "fst (check_persistent p fp c d tm t s) = Some v \<Longrightarrow> fst v"
  by (cases "map_of (rows s) (pane_mem_key p fp)") (auto simp: check_persistent_def Let_def split: if_splits)


lemma check_approval_ok: 
  assumes "fst (check_approval hash p c d t s) = Some v" shows "fst v"
proof -
  let ?fp = "normalize_cmd_fingerprint hash c d" and ?t = "extract_safe_command_template c"
  obtain v1 s1 where e1: "check_exact (norm_pane p) ?fp t s = (v1, s1)" by (cases "check_exact (norm_pane p) ?fp t s")
  obtain v2 s2 where e2: "check_template (norm_pane p) ?t t s1 = (v2, s2)" by (cases "check_template (norm_pane p) ?t t s1")
  have "v1 = Some v \<or> v2 = Some v \<or> fst (check_persistent (norm_pane p) ?fp c d ?t t s2) = Some v"
    using assms e1 e2 by (cases v1; cases v2) (simp_all add: check_approval_def Let_def)
  with check_exact_ok check_template_ok check_persistent_ok e1 e2 show ?thesis by (metis fst_conv)
qed

subsection \<open>Properties\<close>

text \<open>
  C30: No approval leaks between panes or outlives its time.  Whatever is recorded, checked,
  cleared, purged or restored from the table, and in any order, a hit of the memory for a
  command in a pane goes back to an approval that was recorded for this very pane, has not
  expired, and was for the same fingerprint, or for a fingerprint of a command with the same
  template.
\<close>

theorem memory_hit_was_approved:
  assumes "\<And>x. CHR '':'' \<notin> set (sha x)" and "memory_reach sha L s" and "fst (check_approval sha p c d now s) \<noteq> None"
  shows "\<exists>t > now. granted sha L (norm_pane p) (normalize_cmd_fingerprint sha c d) t
       \<or> (\<exists>tm. extract_safe_command_template c = Some tm \<and> granted_template sha L (norm_pane p) tm t)"
  using check_approval_answers [OF reach_sound [OF assms(2,1)] assms(1)] assms(3) unfolding answers_def by blast

definition demo_sha :: "str \<Rightarrow> str" where
  "demo_sha s = filter (\<lambda>c. c \<noteq> CHR '':'') s"

theorem memory_hit_was_approved_witness:
  "\<exists>t > 20. granted demo_sha [\<lparr>ae_pane = ''p1'', ae_cmd = ''make x'', ae_cwd = [], ae_expires = 10 + 60\<rparr>] (norm_pane ''p1'')
        (normalize_cmd_fingerprint demo_sha ''make x'' []) t
     \<or> (\<exists>tm. extract_safe_command_template ''make x'' = Some tm \<and> granted_template demo_sha
          [\<lparr>ae_pane = ''p1'', ae_cmd = ''make x'', ae_cwd = [], ae_expires = 10 + 60\<rparr>] (norm_pane ''p1'') tm t)"
proof (rule memory_hit_was_approved)
  show "CHR '':'' \<notin> set (demo_sha x)" for x by (simp add: demo_sha_def)
  show "memory_reach demo_sha [\<lparr>ae_pane = ''p1'', ae_cmd = ''make x'', ae_cwd = [], ae_expires = 10 + 60\<rparr>]
      (record_approval demo_sha ''p1'' ''make x'' ''HUMAN'' ''ok'' [] 10 60 \<lparr>lru = [], rows = [], exact = [], templates = []\<rparr>)"
    by (rule memory_reach.recorded [OF memory_reach.fresh])
  show "fst (check_approval demo_sha ''p1'' ''make x'' [] 20 (record_approval demo_sha ''p1'' ''make x'' ''HUMAN'' ''ok'' [] 10 60
      \<lparr>lru = [], rows = [], exact = [], templates = []\<rparr>)) \<noteq> None"
    by code_simp
qed

lemma recorded_is_recalled:
  assumes "t < now + ttl"
  shows "fst (check_approval sha p c d t (record_approval sha p c layer reason d now ttl s))
       = Some (True, ''[Session Memory: '' @ norm_pane p @ ''] '' @ reason, layer)"
  using assms by (simp add: check_approval_def record_approval_def check_exact_def Let_def update_conv)

text \<open>
  A template covers more than the command that was approved: once a harmless Git read has
  been approved in a pane, the same read followed by any second command of the chain is
  answered from memory too, in whatever directory.
\<close>

lemma template_covers_chain:
  assumes "t < now + ttl" and "map_of (exact s) (norm_pane p, normalize_cmd_fingerprint sha ''git log; mv a b'' d') = None"
    and "normalize_cmd_fingerprint sha ''git log; mv a b'' d' \<noteq> normalize_cmd_fingerprint sha ''git log'' d"
  shows "\<exists>reason'. fst (check_approval sha p ''git log; mv a b'' d' t
             (record_approval sha p ''git log'' layer reason d now ttl s)) = Some (True, reason', layer)"
proof -
  have t1: "extract_safe_command_template ''git log'' = Some ''git <READ_OP> *''" by code_simp
  have t2: "extract_safe_command_template ''git log; mv a b'' = Some ''git <READ_OP> *''" by code_simp
  show ?thesis using assms
    by (simp add: check_approval_def record_approval_def check_exact_def check_template_def remember_template_def
        t1 t2 Let_def update_conv)
qed

lemma template_covers_chain_witness:
  "\<exists>reason'. fst (check_approval demo_sha ''p1'' ''git log; mv a b'' [] 20
     (record_approval demo_sha ''p1'' ''git log'' ''HUMAN'' ''ok'' [] 10 60 \<lparr>lru = [], rows = [], exact = [], templates = []\<rparr>))
     = Some (True, reason', ''HUMAN'')"
  by (rule template_covers_chain) (simp, simp, code_simp)

end
