(* ===== verification/GrayZone.thy ===== *)
theory GrayZone
  imports Compiled
begin

text \<open>
  \<open>scripts/core/gray_zone_evaluator.py\<close>: the gray-zone governance matrix.  A command is
  classified by operation, its target by resource tier, and the matrix gives the verdict.
  The operating system and the \<open>git\<close> executable are the fields of a record \<open>world\<close>: they are
  not part of the program, and every definition that consults them takes the record.
\<close>

subsection \<open>The classification types\<close>

datatype resource_tier = T0_EPHEMERAL | T1_REGENERABLE | T2_VERSION_CONTROLLED | T3_DURABLE_GRAY | T4_CRITICAL

datatype operation_type = READ | APPEND | OVERWRITE | TRUNCATE | DELETE | MOVE | MUTATING_API | HEAVY_EXEC

datatype irreversibility_grade = R0_NONE | R1_BACKUP_VCS | R2_RECONSTRUCT | R3_OS_APP_RELOAD | R4_IRREVERSIBLE

datatype verdict = ALLOW | PROMPT | BLOCK

fun tier_value :: "resource_tier \<Rightarrow> str" where
  "tier_value T0_EPHEMERAL = ''T0_EPHEMERAL''"
| "tier_value T1_REGENERABLE = ''T1_REGENERABLE''"
| "tier_value T2_VERSION_CONTROLLED = ''T2_VERSION_CONTROLLED''"
| "tier_value T3_DURABLE_GRAY = ''T3_DURABLE_GRAY''"
| "tier_value T4_CRITICAL = ''T4_CRITICAL''"

text \<open>The value and the name of an operation and of a grade.\<close>

fun op_label :: "operation_type \<Rightarrow> str \<times> str" where
  "op_label READ = (''R'', ''READ'')"
| "op_label APPEND = (''A'', ''APPEND'')"
| "op_label OVERWRITE = (''W'', ''OVERWRITE'')"
| "op_label TRUNCATE = (''T'', ''TRUNCATE'')"
| "op_label DELETE = (''D'', ''DELETE'')"
| "op_label MOVE = (''M'', ''MOVE'')"
| "op_label MUTATING_API = (''X'', ''MUTATING_API'')"
| "op_label HEAVY_EXEC = (''E'', ''HEAVY_EXEC'')"

fun grade_label :: "irreversibility_grade \<Rightarrow> str \<times> str" where
  "grade_label R0_NONE = (''R0'', ''R0_NONE'')"
| "grade_label R1_BACKUP_VCS = (''R1'', ''R1_BACKUP_VCS'')"
| "grade_label R2_RECONSTRUCT = (''R2'', ''R2_RECONSTRUCT'')"
| "grade_label R3_OS_APP_RELOAD = (''R3'', ''R3_OS_APP_RELOAD'')"
| "grade_label R4_IRREVERSIBLE = (''R4'', ''R4_IRREVERSIBLE'')"

fun verdict_value :: "verdict \<Rightarrow> str" where
  "verdict_value ALLOW = ''ALLOW''"
| "verdict_value PROMPT = ''PROMPT''"
| "verdict_value BLOCK = ''BLOCK''"

definition GOVERNANCE_ROWS :: "((resource_tier \<times> operation_type) \<times> verdict) list" where
  "GOVERNANCE_ROWS = [
     ((T0_EPHEMERAL, READ), ALLOW),
     ((T0_EPHEMERAL, APPEND), ALLOW),
     ((T0_EPHEMERAL, OVERWRITE), ALLOW),
     ((T0_EPHEMERAL, TRUNCATE), ALLOW),
     ((T0_EPHEMERAL, DELETE), ALLOW),
     ((T0_EPHEMERAL, MOVE), ALLOW),
     ((T0_EPHEMERAL, MUTATING_API), ALLOW),
     ((T0_EPHEMERAL, HEAVY_EXEC), ALLOW),
     ((T1_REGENERABLE, READ), ALLOW),
     ((T1_REGENERABLE, APPEND), ALLOW),
     ((T1_REGENERABLE, OVERWRITE), PROMPT),
     ((T1_REGENERABLE, TRUNCATE), ALLOW),
     ((T1_REGENERABLE, DELETE), ALLOW),
     ((T1_REGENERABLE, MOVE), ALLOW),
     ((T1_REGENERABLE, MUTATING_API), PROMPT),
     ((T1_REGENERABLE, HEAVY_EXEC), ALLOW),
     ((T2_VERSION_CONTROLLED, READ), ALLOW),
     ((T2_VERSION_CONTROLLED, APPEND), ALLOW),
     ((T2_VERSION_CONTROLLED, OVERWRITE), ALLOW),
     ((T2_VERSION_CONTROLLED, TRUNCATE), ALLOW),
     ((T2_VERSION_CONTROLLED, DELETE), PROMPT),
     ((T2_VERSION_CONTROLLED, MOVE), ALLOW),
     ((T2_VERSION_CONTROLLED, MUTATING_API), PROMPT),
     ((T2_VERSION_CONTROLLED, HEAVY_EXEC), ALLOW),
     ((T3_DURABLE_GRAY, READ), ALLOW),
     ((T3_DURABLE_GRAY, APPEND), ALLOW),
     ((T3_DURABLE_GRAY, OVERWRITE), PROMPT),
     ((T3_DURABLE_GRAY, TRUNCATE), BLOCK),
     ((T3_DURABLE_GRAY, DELETE), PROMPT),
     ((T3_DURABLE_GRAY, MOVE), PROMPT),
     ((T3_DURABLE_GRAY, MUTATING_API), PROMPT),
     ((T3_DURABLE_GRAY, HEAVY_EXEC), PROMPT),
     ((T4_CRITICAL, READ), PROMPT),
     ((T4_CRITICAL, APPEND), PROMPT),
     ((T4_CRITICAL, OVERWRITE), BLOCK),
     ((T4_CRITICAL, TRUNCATE), BLOCK),
     ((T4_CRITICAL, DELETE), BLOCK),
     ((T4_CRITICAL, MOVE), BLOCK),
     ((T4_CRITICAL, MUTATING_API), PROMPT),
     ((T4_CRITICAL, HEAVY_EXEC), BLOCK)]"

text \<open>\<open>BASE_GOVERNANCE_MATRIX.get((tier, op), Verdict.PROMPT)\<close>.\<close>

definition base_verdict :: "resource_tier \<Rightarrow> operation_type \<Rightarrow> verdict" where
  "base_verdict tier op = (case map_of GOVERNANCE_ROWS (tier, op) of Some v \<Rightarrow> v | None \<Rightarrow> PROMPT)"

subsection \<open>The operating system\<close>

text \<open>
  \<open>canon\<close> is \<open>expandvars\<close>, \<open>expanduser\<close> and \<open>Path.resolve\<close>: an absolute path.  \<open>git\<close> runs
  \<open>git -C dir\<close> with arguments and gives the exit code and the output, or \<open>None\<close> when the
  process cannot be started (the exception that the callers catch).
\<close>

record world =
  canon :: "str \<Rightarrow> str"
  path_exists :: "str \<Rightarrow> bool"
  is_dir :: "str \<Rightarrow> bool"
  is_sock :: "str \<Rightarrow> bool"
  git :: "str \<Rightarrow> str list \<Rightarrow> (int \<times> str) option"

definition canonicalize_path :: "'a world_scheme \<Rightarrow> str \<Rightarrow> str" where
  "canonicalize_path w raw = canon w (strip raw)"

text \<open>\<open>Path.parent\<close> of an absolute path, and a path with all its parents, the root last.\<close>

definition path_of_parts :: "str list \<Rightarrow> str" where
  "path_of_parts ps = CHR ''/'' # str_join ''/'' ps"

fun ancestors_from :: "str list \<Rightarrow> str list" where
  "ancestors_from [] = [''/'']"
| "ancestors_from (p # ps) = path_of_parts (rev (p # ps)) # ancestors_from ps"

definition ancestors :: "str \<Rightarrow> str list" where
  "ancestors p = ancestors_from (rev (path_parts p))"

definition parent_dir :: "str \<Rightarrow> str" where
  "parent_dir p = path_of_parts (butlast (path_parts p))"

definition inside_work_tree :: "'a world_scheme \<Rightarrow> str \<Rightarrow> bool option" where
  "inside_work_tree w cur =
     map_option (\<lambda>(rc, out). rc = 0 \<and> strip out = ''true'') (git w cur [''rev-parse'', ''--is-inside-work-tree''])"

text \<open>The loop stops at the root, which is not asked; \<open>None\<close> stands for a caught exception.\<close>

fun work_tree_loop :: "'a world_scheme \<Rightarrow> str list \<Rightarrow> bool" where
  "work_tree_loop w [] = False"
| "work_tree_loop w [d] = False"
| "work_tree_loop w (cur # rest) =
     (if path_exists w cur then
        (if path_exists w (cur @ ''/.git'') then True
         else (case inside_work_tree w cur of None \<Rightarrow> False
           | Some b \<Rightarrow> if b then True else work_tree_loop w rest))
      else work_tree_loop w rest)"

definition is_inside_git_work_tree :: "'a world_scheme \<Rightarrow> str \<Rightarrow> bool" where
  "is_inside_git_work_tree w path =
     work_tree_loop w (ancestors (if is_dir w path then path else parent_dir path))"

definition is_git_clean_and_committed :: "'a world_scheme \<Rightarrow> str \<Rightarrow> bool" where
  "is_git_clean_and_committed w path =
     (case find (path_exists w) (ancestors (if is_dir w path then path else parent_dir path)) of
        None \<Rightarrow> False
      | Some cur \<Rightarrow>
          (case inside_work_tree w cur of
             None \<Rightarrow> False
           | Some inside \<Rightarrow>
               if \<not> inside then False
               else if \<not> path_exists w path then True
               else (case git w cur [''status'', ''--porcelain'', path] of
                       None \<Rightarrow> False | Some (rc, out) \<Rightarrow> length (strip out) = 0)))"

definition is_unix_socket :: "'a world_scheme \<Rightarrow> str \<Rightarrow> bool" where
  "is_unix_socket w path = is_sock w path"

subsection \<open>Resource tiers\<close>

definition T4_PATTERNS :: "regex list" where
  "T4_PATTERNS = [
     re_c ''/%.ssh/(id_|.*%.pem|.*%.key)'',
     re_c ''/Library/Keychains'',
     re_c ''/%.gnupg/(secring|private-keys-v1%.d)'',
     re_c ''/com%.apple%.TCC/TCC%.db'',
     re_c ''/LaunchServices/.*%.csstore'',
     re_c ''^/(private/)?(etc|System|usr|bin|sbin|var/root)'']"

definition T1_PATTERNS :: "regex list" where
  "T1_PATTERNS = [
     re_c ''/Library/Developer/Xcode/DerivedData'',
     re_c ''/%.cache/'',
     re_c ''/%.npm/_cacache'',
     re_c ''/%.cargo/registry/cache'',
     re_c ''/Library/Caches/'']"

definition T3_PATTERNS :: "regex list" where
  "T3_PATTERNS = [
     re_c ''/%.local/state/'',
     re_c ''/%.local/share/(?!chezmoi)'',
     re_c ''/%.config/'',
     re_c ''/%.hermes/(memories|sessions|logs)'',
     re_c ''.*%.(db|sqlite|sqlite3|wal|shm)$'']"

definition matches_any :: "regex list \<Rightarrow> str \<Rightarrow> bool" where
  "matches_any ps s = list_ex (\<lambda>p. re_found p s) ps"

text \<open>A critical path: a socket, or one of the patterns of step 2 of the classification.\<close>

definition is_critical_path :: "'a world_scheme \<Rightarrow> str \<Rightarrow> bool" where
  "is_critical_path w c \<longleftrightarrow>
     is_unix_socket w c \<or> (re_found (re_c ''/var/folders/.*/T/'') c \<and> ends_with c ''.sock'')
     \<or> matches_any T4_PATTERNS c"

definition var_folders_tier :: "str \<Rightarrow> resource_tier option" where
  "var_folders_tier c =
     (if \<not> contains ''/var/folders/'' c then None
      else if re_found (re_c ''/var/folders/.*/T(/.*)?$'') c then Some T0_EPHEMERAL
      else if re_found (re_c ''/var/folders/.*/C(/.*)?$'') c then Some T1_REGENERABLE
      else if re_found (re_c ''/var/folders/.*/0(/.*)?$'') c then Some T4_CRITICAL
      else None)"

definition is_ephemeral_path :: "str \<Rightarrow> bool" where
  "is_ephemeral_path c \<longleftrightarrow> starts_with c ''/tmp'' \<or> starts_with c ''/private/tmp''
     \<or> starts_with c ''/var/tmp'' \<or> starts_with c ''/private/var/tmp''
     \<or> c \<in> {''/dev/null'', ''/dev/zero'', ''/dev/random'', ''/dev/urandom''}"

definition is_url :: "str \<Rightarrow> bool" where
  "is_url s \<longleftrightarrow> starts_with s ''http://'' \<or> starts_with s ''https://''"

definition classify_resource_tier :: "'a world_scheme \<Rightarrow> str \<Rightarrow> resource_tier" where
  "classify_resource_tier w target =
     (let target_clean = strip target in
      if is_url target_clean then
        (if re_found (re_c ''/(admin/users|repos/[^/]+/[^/]+/archive|volumes|storagepools)'') target_clean
         then T4_CRITICAL else T3_DURABLE_GRAY)
      else (let c = canonicalize_path w target_clean in
        if is_critical_path w c then T4_CRITICAL
        else (case var_folders_tier c of Some t \<Rightarrow> t
          | None \<Rightarrow>
              if is_ephemeral_path c then T0_EPHEMERAL
              else if matches_any T1_PATTERNS c then T1_REGENERABLE
              else if contains ''/.local/share/chezmoi'' c then T2_VERSION_CONTROLLED
              else if is_git_clean_and_committed w c then T2_VERSION_CONTROLLED
              else if matches_any T3_PATTERNS c then T3_DURABLE_GRAY
              else T3_DURABLE_GRAY)))"

subsection \<open>Operations\<close>

definition GZ_QUOTED_RE :: regex where
  \<open>GZ_QUOTED_RE = re_c ''(['"])(?:(?!%1)[^%&]|%&.)*%1''\<close>

definition MUTATING_API_RE :: regex where
  "MUTATING_API_RE = re_c
     (''%b(tccutil|defaults%s+(write|delete)|''
      @ ''launchctl%s+(bootstrap|bootout|load|unload|kill|disable|enable)|''
      @ ''security%s+(add|delete|set|import)|scselect|systemsetup|pmset|networksetup|''
      @ ''plutil%s+(-replace|-remove)|scutil%s+--set)%b'')"

definition CURL_MUTATING_RE :: regex where
  "CURL_MUTATING_RE = re_c ''%bcurl%b.*-X%s*(POST|PUT|DELETE|PATCH)''"

definition LOCAL_LLM_RE :: regex where
  "LOCAL_LLM_RE = re_c
     ''https?://(127%.0%.0%.1|localhost)(:%d+)?/v1/(chat/completions|completions|embeddings)''"

definition URL_RE :: regex where
  \<open>URL_RE = re_c (''https?://[^%s"'' @ [squote] @ '']+'')\<close>

definition GZ_CONTROL_RE :: regex where
  "GZ_CONTROL_RE = re_c ''[;&|]+''"

definition group_text :: "mtch option \<Rightarrow> nat \<Rightarrow> str option" where
  "group_text m n = (case m of None \<Rightarrow> None | Some m \<Rightarrow> m_group m n)"

definition risky_op :: "operation_type \<Rightarrow> bool" where
  "risky_op op \<longleftrightarrow> op \<in> {DELETE, TRUNCATE, MUTATING_API, OVERWRITE, MOVE}"

text \<open>Their syntax trees, for evaluation.\<close>

lemma MUTATING_API_RE_code [code]: "MUTATING_API_RE = \<lparr>rg_rx =
     seqs ([RWordB, RGrp 1 (alts [word_rx ''tccutil'', seqs (lits ''defaults'' @ [blank_plus, RGrp 2 (alts [word_rx
     ''write'', word_rx ''delete''])]), seqs (lits ''launchctl'' @ [blank_plus, RGrp 3 (alts [word_rx ''bootstrap'',
     word_rx ''bootout'', word_rx ''load'', word_rx ''unload'', word_rx ''kill'', word_rx ''disable'', word_rx
     ''enable''])]), seqs (lits ''security'' @ [blank_plus, RGrp 4 (alts [word_rx ''add'', word_rx ''delete'', word_rx
     ''set'', word_rx ''import''])]), word_rx ''scselect'', word_rx ''systemsetup'', word_rx ''pmset'', word_rx
     ''networksetup'', seqs (lits ''plutil'' @ [blank_plus, RGrp 5 (alts [word_rx ''-replace'', word_rx
     ''-remove''])]), seqs (lits ''scutil'' @ [blank_plus] @ lits ''--set'')]), RWordB]),
     rg_ic = False, rg_ml = False\<rparr>"
  by code_simp

lemma CURL_MUTATING_RE_code [code]: "CURL_MUTATING_RE = \<lparr>rg_rx =
     seqs ([RWordB] @ lits ''curl'' @ [RWordB, RRep (RDot) 0 None True] @ lits ''-X'' @ [blank_star, RGrp 1 (alts
     [word_rx ''POST'', word_rx ''PUT'', word_rx ''DELETE'', word_rx ''PATCH''])]),
     rg_ic = False, rg_ml = False\<rparr>"
  by code_simp

lemma LOCAL_LLM_RE_code [code]: "LOCAL_LLM_RE = \<lparr>rg_rx =
     seqs (lits ''http'' @ [RRep (RSet False [CLit (CHR ''s'')]) 0 (Some 1) True] @ lits ''://'' @ [RGrp 1 (alts
     [word_rx ''127.0.0.1'', word_rx ''localhost'']), RRep (RGrp 2 (seqs (lits '':'' @ [RRep (RSet False [CDigit]) 1
     None True]))) 0 (Some 1) True] @ lits ''/v1/'' @ [RGrp 3 (alts [word_rx ''chat/completions'', word_rx
     ''completions'', word_rx ''embeddings''])]),
     rg_ic = False, rg_ml = False\<rparr>"
  by code_simp

text \<open>Steps 1 to 3: redirections and calls of mutating interfaces.\<close>

definition classify_effect :: "str \<Rightarrow> (operation_type \<times> str option) option" where
  "classify_effect clean =
     (let unquoted = re_sub GZ_QUOTED_RE (\<lambda>_. [dquote, dquote]) clean in
      if re_found (re_c ''(?<![>12&])>%s*[^>&]+'') unquoted then
        Some (TRUNCATE, group_text (re_search (re_c ''(?<![>12&])>%s*([^%s>&|]+)'') unquoted) 1)
      else if contains ''>>'' unquoted then
        Some (APPEND, group_text (re_search (re_c ''>>%s*([^%s>&|]+)'') unquoted) 1)
      else if re_found MUTATING_API_RE clean then
        Some (MUTATING_API, Some (case split_ws clean of [] \<Rightarrow> [] | t # _ \<Rightarrow> t))
      else if re_found CURL_MUTATING_RE clean then
        (let url = (case re_search URL_RE clean of None \<Rightarrow> [] | Some m \<Rightarrow> m_text m) in
         if re_found LOCAL_LLM_RE url then Some (READ, Some url)
         else Some (MUTATING_API, Some (if url \<noteq> [] then url else ''REST_API'')))
      else None)"

definition operands :: "str list \<Rightarrow> str list" where
  "operands ts = filter (\<lambda>t. \<not> starts_with t ''-'') ts"

definition last_opt :: "'a list \<Rightarrow> 'a option" where
  "last_opt xs = (if xs = [] then None else Some (last xs))"

definition hd_opt :: "'a list \<Rightarrow> 'a option" where
  "hd_opt xs = (case xs of [] \<Rightarrow> None | x # _ \<Rightarrow> Some x)"

text \<open>A single command: the verb decides.\<close>

definition classify_single :: "str \<Rightarrow> operation_type \<times> str option" where
  "classify_single clean =
     (let tokens = (case shlex_split clean of Some ts \<Rightarrow> ts | None \<Rightarrow> split_ws clean);
          cleaned = filter (\<lambda>t. t \<notin> {''2>/dev/null'', ''>/dev/null'', ''2>&1'', ''1>/dev/null'', ''2>'', ''>'', ''>>''}) tokens
      in (case cleaned of [] \<Rightarrow> (READ, None)
        | verb # args \<Rightarrow>
            if verb \<in> {''rm'', ''unlink'', ''shred'', ''trash''} then (DELETE, last_opt (operands args))
            else if verb = ''mv'' then (MOVE, hd_opt (operands args))
            else if verb \<in> {''cp'', ''install'', ''rsync''} then (OVERWRITE, last_opt (operands args))
            else if verb \<in> {''cat'', ''head'', ''tail'', ''grep'', ''rg'', ''find'', ''ls'', ''less'', ''file'', ''stat'', ''git''}
              then (READ, hd_opt (operands args))
            else if verb \<in> {''make'', ''cargo'', ''pytest'', ''npm'', ''pnpm'', ''bun'', ''docker'', ''mise'', ''brew'',
                            ''pip'', ''pip3'', ''apt'', ''apt-get'', ''yarn'', ''gem''}
              then (HEAVY_EXEC, Some verb)
            else (READ, hd_opt args)))"

definition sub_commands :: "str \<Rightarrow> str list" where
  "sub_commands clean = map strip (filter (\<lambda>sc. strip sc \<noteq> []) (re_split GZ_CONTROL_RE clean))"

text \<open>The body of \<open>classify_operation\<close>, with the recursive call as an argument.\<close>

definition classify_body :: "(str \<Rightarrow> operation_type \<times> str option) \<Rightarrow> str \<Rightarrow> operation_type \<times> str option" where
  "classify_body rec cmd =
     (let clean = strip cmd in
      case classify_effect clean of
        Some r \<Rightarrow> r
      | None \<Rightarrow>
          (let sub_cmds = sub_commands clean in
           if length sub_cmds > 1 then
             (let filtered = filter (\<lambda>sc. sc \<notin> {''true'', ''false'', ''exit 0'', '':''}) sub_cmds in
              case find (\<lambda>sc. risky_op (fst (rec sc))) filtered of
                Some sc \<Rightarrow> rec sc
              | None \<Rightarrow> (READ, None))
           else classify_single clean))"

text \<open>A subcommand has no control, so the recursion is one level deep (\<open>classify_operation_rec\<close>).\<close>

definition classify_operation :: "str \<Rightarrow> operation_type \<times> str option" where
  "classify_operation cmd = classify_body (classify_body (\<lambda>_. (READ, None))) cmd"

subsection \<open>The decision\<close>

record guidance_payload =
  gp_target :: str
  gp_operation :: operation_type
  gp_tier :: resource_tier
  gp_irreversibility :: irreversibility_grade
  gp_blast_radius :: str
  gp_pre_alternative :: str
  gp_recovery_path :: str
  gp_choices :: "str list"
  gp_verdict :: verdict
  gp_reason :: str

definition irreversibility_of :: "resource_tier \<Rightarrow> operation_type \<Rightarrow> irreversibility_grade" where
  "irreversibility_of tier op = (case tier of
      T0_EPHEMERAL \<Rightarrow> R0_NONE
    | T1_REGENERABLE \<Rightarrow> R2_RECONSTRUCT
    | T2_VERSION_CONTROLLED \<Rightarrow> R1_BACKUP_VCS
    | T3_DURABLE_GRAY \<Rightarrow> (if op \<in> {OVERWRITE, DELETE, TRUNCATE} then R2_RECONSTRUCT else R1_BACKUP_VCS)
    | T4_CRITICAL \<Rightarrow> R4_IRREVERSIBLE)"

definition gate_reason :: "resource_tier \<Rightarrow> operation_type \<Rightarrow> irreversibility_grade \<Rightarrow> verdict \<Rightarrow> str" where
  "gate_reason tier op irrev v =
     ''Dynamic Gate: Tier='' @ tier_value tier @ '', Op='' @ fst (op_label op) @ '' ('' @ snd (op_label op)
     @ ''), Irreversibility='' @ fst (grade_label irrev) @ '' ('' @ snd (grade_label irrev)
     @ '') -> Verdict='' @ verdict_value v"

definition blast_radius_of :: "resource_tier \<Rightarrow> str" where
  "blast_radius_of tier = tier_value tier @ '' resource impact: '' @ (case tier of
      T4_CRITICAL \<Rightarrow> ''System security, active daemon socket, or critical server configuration.''
    | T3_DURABLE_GRAY \<Rightarrow> ''Stateful local data, uncommitted working tree changes, or SQLite database records.''
    | T1_REGENERABLE \<Rightarrow> ''Re-download / re-compilation cost (bandwidth and CPU time).''
    | _ \<Rightarrow> ''Local file modifications.'')"

definition pre_alternative_of :: "operation_type \<Rightarrow> str \<Rightarrow> str" where
  "pre_alternative_of op target = (case op of
      TRUNCATE \<Rightarrow> ''Rotate file before truncate: mv '' @ target @ '' '' @ target @ ''.$(date +%Y%m%d_%H%M%S).bak''
    | DELETE \<Rightarrow> ''Archive or stage backup: cp -a '' @ target @ '' '' @ target @ ''.bak''
    | MUTATING_API \<Rightarrow> ''Use dedicated non-destructive API or query token permissions first.''
    | _ \<Rightarrow> ''Stage shadow copy: cp -a '' @ target @ '' '' @ target @ ''.bak'')"

definition GUIDANCE_CHOICES :: "str list" where
  "GUIDANCE_CHOICES = [
     ''A) Create pre-backup and proceed safely (Recommended)'',
     ''B) Proceed without backup (Explicit risk acceptance)'',
     ''C) Execute non-destructive alternative (Move to trash / rotate)'',
     ''D) Skip operation'']"

text \<open>\<open>target_override or detected_target or "unknown_target"\<close>: an empty text is false.\<close>

definition or_else :: "str option \<Rightarrow> str \<Rightarrow> str" where
  "or_else a b = (case a of Some s \<Rightarrow> if s \<noteq> [] then s else b | None \<Rightarrow> b)"

definition evaluate_gray_zone_operation ::
    "'a world_scheme \<Rightarrow> str \<Rightarrow> str option \<Rightarrow> verdict \<times> str \<times> guidance_payload option" where
  "evaluate_gray_zone_operation w cmd target_override =
     (let (op, detected) = classify_operation cmd;
          target = or_else target_override (or_else detected ''unknown_target'');
          tier = classify_resource_tier w target;
          v = base_verdict tier op;
          irrev = irreversibility_of tier op;
          reason = gate_reason tier op irrev v
      in if v = ALLOW then (ALLOW, reason, None)
         else (v, reason, Some \<lparr>
            gp_target = (if starts_with target ''http'' then target else canonicalize_path w target),
            gp_operation = op, gp_tier = tier, gp_irreversibility = irrev,
            gp_blast_radius = blast_radius_of tier,
            gp_pre_alternative = pre_alternative_of op target,
            gp_recovery_path = ''Restore from backup copy (.bak) or rerun official state provisioning script.'',
            gp_choices = GUIDANCE_CHOICES, gp_verdict = v, gp_reason = reason\<rparr>))"

text \<open>The labels of the guidance document, as UTF-8 bytes.\<close>

definition GUIDANCE_TITLE :: str where
  "GUIDANCE_TITLE =
     [CHR 0xF0, CHR 0x9F, CHR 0x9A, CHR 0xA8] @ '' [BORDER_CONTROL_INTERCEPT] Non-VCS Irreversible Mutation Gate''"

definition LABEL_TARGET :: str where
  "LABEL_TARGET = ''[1] Target ('' @
     [CHR 0xEB, CHR 0x8C, CHR 0x80, CHR 0xEC, CHR 0x83, CHR 0x81] @ '')        : ''"

definition LABEL_OPERATION :: str where
  "LABEL_OPERATION = ''[2] Operation ('' @
     [CHR 0xEC, CHR 0x97, CHR 0xB0, CHR 0xEC, CHR 0x82, CHR 0xB0] @ '')     : ''"

definition LABEL_TIER :: str where
  "LABEL_TIER = ''[3] Tier & Irreversibility: ''"

definition LABEL_BLAST :: str where
  "LABEL_BLAST = ''[4] Blast Radius ('' @
     [CHR 0xED, CHR 0x8C, CHR 0x8C, CHR 0xEA, CHR 0xB8, CHR 0x89] @ '')  : ''"

definition LABEL_ALT :: str where
  "LABEL_ALT = ''[5] Pre-Alternative ('' @
     [CHR 0xEB, CHR 0x8C, CHR 0x80, CHR 0xEC, CHR 0x95, CHR 0x88] @ ''): ''"

definition LABEL_RECOVERY :: str where
  "LABEL_RECOVERY = ''[6] Recovery Path ('' @
     [CHR 0xEB, CHR 0xB3, CHR 0xB5, CHR 0xEC, CHR 0x9B, CHR 0x90] @ '') : ''"

definition LABEL_CHOICES :: str where
  "LABEL_CHOICES = ''[7] Structured Choices ('' @
     [CHR 0xEC, CHR 0x84, CHR 0xA0, CHR 0xED, CHR 0x83, CHR 0x9D, CHR 0xEC, CHR 0xA7, CHR 0x80] @ ''):''"

definition GUIDANCE_RULE :: str where
  "GUIDANCE_RULE = concat (replicate 72 [CHR 0xE2, CHR 0x94, CHR 0x80])"

definition format_decision_guidance :: "guidance_payload \<Rightarrow> str" where
  "format_decision_guidance p = str_join [nl]
     ([GUIDANCE_TITLE, GUIDANCE_RULE,
       LABEL_TARGET @ gp_target p,
       LABEL_OPERATION @ fst (op_label (gp_operation p)) @ '' ('' @ snd (op_label (gp_operation p)) @ '')'',
       LABEL_TIER @ tier_value (gp_tier p) @ '' | '' @ fst (grade_label (gp_irreversibility p)) @ '' (''
         @ snd (grade_label (gp_irreversibility p)) @ '')'',
       LABEL_BLAST @ gp_blast_radius p,
       LABEL_ALT @ gp_pre_alternative p,
       LABEL_RECOVERY @ gp_recovery_path p,
       LABEL_CHOICES]
      @ map (\<lambda>ch. ''    '' @ ch) (gp_choices p)
      @ [''Verdict: '' @ verdict_value (gp_verdict p) @ '' ('' @ gp_reason p @ '')'', GUIDANCE_RULE])"

subsection \<open>Verdicts ordered by severity\<close>

instantiation verdict :: linorder
begin

definition less_eq_verdict :: "verdict \<Rightarrow> verdict \<Rightarrow> bool" where
  "a \<le> b \<longleftrightarrow> a = ALLOW \<or> b = BLOCK \<or> a = b"

definition less_verdict :: "verdict \<Rightarrow> verdict \<Rightarrow> bool" where
  "(a :: verdict) < b \<longleftrightarrow> a \<le> b \<and> \<not> b \<le> a"

instance
proof
  fix x y z :: verdict
  show "x < y \<longleftrightarrow> x \<le> y \<and> \<not> y \<le> x" by (simp add: less_verdict_def)
  show "x \<le> x" by (simp add: less_eq_verdict_def)
  show "x \<le> y \<Longrightarrow> y \<le> z \<Longrightarrow> x \<le> z" by (cases x; cases y; cases z) (simp_all add: less_eq_verdict_def)
  show "x \<le> y \<Longrightarrow> y \<le> x \<Longrightarrow> x = y" by (cases x; cases y) (simp_all add: less_eq_verdict_def)
  show "x \<le> y \<or> y \<le> x" by (cases x; cases y) (simp_all add: less_eq_verdict_def)
qed

end

lemma matrix_rows:
  "base_verdict T0_EPHEMERAL op = ALLOW"
  "PROMPT \<le> base_verdict T4_CRITICAL op"
  "base_verdict tier READ \<le> PROMPT" "base_verdict tier APPEND \<le> PROMPT"
  "op \<in> {OVERWRITE, TRUNCATE, DELETE, MOVE, HEAVY_EXEC} \<Longrightarrow> base_verdict T4_CRITICAL op = BLOCK"
  "base_verdict T2_VERSION_CONTROLLED op \<le> base_verdict T3_DURABLE_GRAY op"
  "base_verdict T1_REGENERABLE op \<le> base_verdict T3_DURABLE_GRAY op"
  "base_verdict T3_DURABLE_GRAY op \<le> base_verdict T4_CRITICAL op"
  by (cases op; cases tier; simp add: base_verdict_def GOVERNANCE_ROWS_def less_eq_verdict_def)+

lemma matrix_complete:
  "distinct (map fst GOVERNANCE_ROWS)" "map_of GOVERNANCE_ROWS (tier, op) \<noteq> None"
   apply (simp add: GOVERNANCE_ROWS_def)
  apply (cases op; cases tier; simp add: GOVERNANCE_ROWS_def)
  done

subsection \<open>The recursion on subcommands is one level deep\<close>

lemma GZ_CONTROL_RE_class:
  "GZ_CONTROL_RE = class_plus [CLit (CHR '';''), CLit (CHR ''&''), CLit (CHR ''|'')]"
proof -
  have "rx_parse ''[;&|]+''
      = Some (RRep (RSet False [CLit (CHR '';''), CLit (CHR ''&''), CLit (CHR ''|'')]) 1 None True)"
    by code_simp
  then show ?thesis by (simp add: GZ_CONTROL_RE_def re_c_def rx_or_fail_def class_plus_def)
qed

lemma in_control_class:
  "in_class [CLit (CHR '';''), CLit (CHR ''&''), CLit (CHR ''|'')] c \<longleftrightarrow> c \<in> set '';&|''"
  by (auto simp: set_has_def)

lemma control_free_split: "set s \<inter> set '';&|'' = {} \<Longrightarrow> re_split GZ_CONTROL_RE s = [s]"
  unfolding GZ_CONTROL_RE_class
  by (rule re_split_absent) (auto simp: re_found_class_plus list_ex_iff in_control_class)

lemma sub_command_control_free:
  assumes "sc \<in> set (sub_commands s)"
  shows "set sc \<inter> set '';&|'' = {}"
proof -
  from assms obtain t where t: "t \<in> set (re_split GZ_CONTROL_RE s)" "sc = strip t"
    by (auto simp: sub_commands_def)
  from re_split_class_plus [OF t(1) [unfolded GZ_CONTROL_RE_class]]
  have "\<forall>c \<in> set t. c \<notin> set '';&|''" by (simp add: list_all_iff in_control_class)
  with set_strip [of t] t(2) show ?thesis by blast
qed

lemma classify_body_single:
  assumes "set cmd \<inter> set '';&|'' = {}"
  shows "classify_body f cmd = classify_body g cmd"
proof -
  from assms set_strip [of cmd] have "set (strip cmd) \<inter> set '';&|'' = {}" by blast
  from control_free_split [OF this] have "\<not> length (sub_commands (strip cmd)) > 1"
    by (simp add: sub_commands_def)
  then show ?thesis by (auto simp: classify_body_def Let_def split: option.splits)
qed

lemma find_cong_set: "(\<And>x. x \<in> set xs \<Longrightarrow> P x = Q x) \<Longrightarrow> find P xs = find Q xs"
  by (induction xs) auto

lemma find_in: "find P xs = Some x \<Longrightarrow> x \<in> set xs \<and> P x"
  by (induction xs) (auto split: if_splits)

lemma classify_body_cong:
  assumes "\<And>sc. sc \<in> set (sub_commands (strip cmd)) \<Longrightarrow> f sc = g sc"
  shows "classify_body f cmd = classify_body g cmd"
proof -
  let ?fs = "filter (\<lambda>sc. sc \<notin> {''true'', ''false'', ''exit 0'', '':''}) (sub_commands (strip cmd))"
  have "find (\<lambda>sc. risky_op (fst (f sc))) ?fs = find (\<lambda>sc. risky_op (fst (g sc))) ?fs"
    using assms by (intro find_cong_set) auto
  moreover have "f sc = g sc" if "find (\<lambda>sc. risky_op (fst (g sc))) ?fs = Some sc" for sc
    using find_in [OF that] assms by auto
  ultimately show ?thesis
    by (auto simp: classify_body_def Let_def split: option.splits)
qed

text \<open>\<open>classify_operation\<close> satisfies the recursive equation of the source.\<close>

lemma classify_operation_rec: "classify_operation cmd = classify_body classify_operation cmd"
proof -
  have "classify_body (\<lambda>_. (READ, None)) sc = classify_operation sc"
    if "sc \<in> set (sub_commands (strip cmd))" for sc
    unfolding classify_operation_def by (rule classify_body_single [OF sub_command_control_free [OF that]])
  then have "classify_body (classify_body (\<lambda>_. (READ, None))) cmd = classify_body classify_operation cmd"
    by (rule classify_body_cong)
  then show ?thesis by (simp only: classify_operation_def)
qed

text \<open>What the compound rule sees: the first subcommand with a risky operation.\<close>

lemma classify_compound:
  assumes "classify_effect (strip cmd) = None" and "length (sub_commands (strip cmd)) > 1"
  shows "fst (classify_operation cmd) = READ \<Longrightarrow> sc \<in> set (sub_commands (strip cmd)) \<Longrightarrow>
      sc \<notin> {''true'', ''false'', ''exit 0'', '':''} \<Longrightarrow> \<not> risky_op (fst (classify_operation sc))"
  and "risky_op (fst (classify_operation cmd)) \<or> classify_operation cmd = (READ, None)"
proof -
  let ?fs = "filter (\<lambda>sc. sc \<notin> {''true'', ''false'', ''exit 0'', '':''}) (sub_commands (strip cmd))"
  have c: "classify_operation cmd = (case find (\<lambda>sc. risky_op (fst (classify_operation sc))) ?fs of
      Some sc \<Rightarrow> classify_operation sc | None \<Rightarrow> (READ, None))"
    by (subst classify_operation_rec) (use assms in \<open>simp add: classify_body_def Let_def\<close>)
  show "risky_op (fst (classify_operation cmd)) \<or> classify_operation cmd = (READ, None)"
    using c find_in by (fastforce split: option.splits)
  assume "fst (classify_operation cmd) = READ" and "sc \<in> set (sub_commands (strip cmd))"
    and "sc \<notin> {''true'', ''false'', ''exit 0'', '':''}"
  moreover have "\<not> risky_op READ" by (simp add: risky_op_def)
  ultimately show "\<not> risky_op (fst (classify_operation sc))"
    using c find_in by (fastforce split: option.splits simp: find_None_iff)
qed

subsection \<open>Tiers and verdicts\<close>

lemma critical_tier:
  assumes "\<not> is_url (strip target)" and "is_critical_path w (canonicalize_path w (strip target))"
  shows "classify_resource_tier w target = T4_CRITICAL"
  using assms by (simp add: classify_resource_tier_def Let_def)

lemma evaluate_parts:
  assumes "evaluate_gray_zone_operation w cmd ov = (v, reason, payload)"
  obtains target where "target = or_else ov (or_else (snd (classify_operation cmd)) ''unknown_target'')"
    and "v = base_verdict (classify_resource_tier w target) (fst (classify_operation cmd))"
    and "payload = None \<longleftrightarrow> v = ALLOW"
    and "\<And>p. payload = Some p \<Longrightarrow> gp_verdict p = v \<and> gp_reason p = reason
           \<and> gp_operation p = fst (classify_operation cmd) \<and> gp_tier p = classify_resource_tier w target"
  using assms
  by (cases "classify_operation cmd") (auto simp: evaluate_gray_zone_operation_def Let_def split: if_splits)

subsection \<open>Properties\<close>

text \<open>
  The governance matrix is total and each cell is given once; scratch space is never stopped, a
  critical resource is never allowed silently, every destructive operation on it is blocked, and
  the verdict only gets stricter from version-controlled or regenerable to durable to critical.
\<close>

lemma governance_matrix_sound:
  "distinct (map fst GOVERNANCE_ROWS) \<and> map_of GOVERNANCE_ROWS (tier, op) \<noteq> None
    \<and> base_verdict T0_EPHEMERAL op = ALLOW \<and> PROMPT \<le> base_verdict T4_CRITICAL op
    \<and> base_verdict T4_CRITICAL OVERWRITE = BLOCK \<and> base_verdict T4_CRITICAL TRUNCATE = BLOCK
    \<and> base_verdict T4_CRITICAL DELETE = BLOCK \<and> base_verdict T4_CRITICAL MOVE = BLOCK
    \<and> base_verdict T1_REGENERABLE op \<le> base_verdict T3_DURABLE_GRAY op
    \<and> base_verdict T2_VERSION_CONTROLLED op \<le> base_verdict T3_DURABLE_GRAY op
    \<and> base_verdict T3_DURABLE_GRAY op \<le> base_verdict T4_CRITICAL op"
  by (intro conjI matrix_complete matrix_rows) simp_all

text \<open>
  A command whose detected operation is destructive and whose detected target resolves to a
  critical path (a socket, keys, keychains, system directories) is blocked, with a payload that
  names the operation and the critical tier, whatever the rest of the command is.
\<close>

lemma destructive_on_critical_is_blocked:
  assumes "classify_operation cmd = (op, Some target)" and "target \<noteq> []"
    and "op \<in> {OVERWRITE, TRUNCATE, DELETE, MOVE}"
    and "\<not> is_url (strip target)" and "is_critical_path w (canonicalize_path w (strip target))"
  shows "\<exists>reason p. evaluate_gray_zone_operation w cmd None = (BLOCK, reason, Some p)
    \<and> gp_operation p = op \<and> gp_tier p = T4_CRITICAL"
proof -
  have tier: "classify_resource_tier w target = T4_CRITICAL"
    using assms(4,5) by (rule critical_tier)
  have "base_verdict T4_CRITICAL op = BLOCK" using assms(3) matrix_rows(5) by blast
  with assms(1,2) tier show ?thesis
    by (simp add: evaluate_gray_zone_operation_def or_else_def Let_def)
qed

definition plain_world :: world where
  "plain_world = \<lparr>canon = id, path_exists = \<lambda>_. False, is_dir = \<lambda>_. False, is_sock = \<lambda>_. False, git = \<lambda>_ _. None\<rparr>"

lemma destructive_on_critical_is_blocked_witness:
  "\<exists>reason p. evaluate_gray_zone_operation plain_world ''mv /etc/x y'' None = (BLOCK, reason, Some p)
    \<and> gp_operation p = MOVE \<and> gp_tier p = T4_CRITICAL"
proof (rule destructive_on_critical_is_blocked)
  show "classify_operation ''mv /etc/x y'' = (MOVE, Some ''/etc/x'')" by code_simp
  show "\<not> is_url (strip ''/etc/x'')" by code_simp
  show "is_critical_path plain_world (canonicalize_path plain_world (strip ''/etc/x''))" by code_simp
qed simp_all

text \<open>
  The evaluation is coherent: there is decision guidance exactly when the verdict is not
  \<open>ALLOW\<close>, the guidance carries that verdict, and the verdict is the matrix entry of the tier of
  the target and of the operation.
\<close>

lemma gray_zone_guidance_coherent:
  "case evaluate_gray_zone_operation w cmd ov of (v, reason, payload) \<Rightarrow>
     (payload = None) = (v = ALLOW)
     \<and> (case payload of None \<Rightarrow> True
        | Some p \<Rightarrow> gp_verdict p = v \<and> v = base_verdict (gp_tier p) (gp_operation p)
            \<and> gp_reason p = reason \<and> gp_operation p = fst (classify_operation cmd))"
proof (cases "evaluate_gray_zone_operation w cmd ov")
  case (fields v reason payload)
  show ?thesis
    unfolding fields by (rule evaluate_parts [OF fields]) (auto split: option.splits)
qed

text \<open>
  Classification terminates on every command and satisfies the recursive equation of the
  source, although a compound command is classified by classifying its parts.
\<close>

lemma classify_operation_terminates:
  "classify_operation cmd = classify_body classify_operation cmd"
  by (rule classify_operation_rec)

text \<open>
  A compound command that is classified as a read hides no risk: no part of it, apart from the
  no-op builtins, deletes, truncates, overwrites, moves or calls a mutating interface.
\<close>

lemma compound_read_hides_no_risk:
  assumes "classify_effect (strip cmd) = None" and "length (sub_commands (strip cmd)) > 1"
    and "fst (classify_operation cmd) = READ"
    and "sc \<in> set (sub_commands (strip cmd))" and "sc \<notin> {''true'', ''false'', ''exit 0'', '':''}"
  shows "\<not> risky_op (fst (classify_operation sc))"
  by (rule classify_compound(1) [OF assms])

lemma compound_read_hides_no_risk_witness:
  "\<not> risky_op (fst (classify_operation ''ls''))"
proof (rule compound_read_hides_no_risk [where cmd = "''ls;pwd''"])
  show "classify_effect (strip ''ls;pwd'') = None" by code_simp
  show "length (sub_commands (strip ''ls;pwd'')) > 1" by code_simp
  show "fst (classify_operation ''ls;pwd'') = READ" by code_simp
  show "''ls'' \<in> set (sub_commands (strip ''ls;pwd''))" by code_simp
qed simp

text \<open>
  A compound command gets the operation of its first risky part, not of its most severe one:
  moving scratch files first hides the deletion that follows.
\<close>

lemma compound_takes_first_risk:
  "classify_operation ''mv /tmp/a /tmp/b; rm /etc/x'' = (MOVE, Some ''/tmp/a'')
    \<and> classify_operation ''rm /etc/x'' = (DELETE, Some ''/etc/x'')"
  by code_simp

end
