(* ===== verification/Sast.thy ===== *)
theory Sast
  imports GrayZone Taxonomy
begin

text \<open>
  The static analysis pre-filters: \<open>scripts/core/semgrep_evaluator.py\<close> and
  \<open>scripts/core/shellcheck_evaluator.py\<close>.  The \<open>shellcheck\<close> executable is not part of the
  program: its presence and what a run of it gives are fields of the world.
\<close>

subsection \<open>Semgrep signatures\<close>

definition PIPED_REMOTE_EXEC_PATTERN :: regex where
  "PIPED_REMOTE_EXEC_PATTERN = re_ci
     ''%b(curl|wget|fetch|http)%b[^|;%n]+%|%s*(sudo%s+|env%s+|/bin/|/usr/bin/)?(ba|z|da|a)?sh%b''"

definition REVERSE_SHELL_PATTERN :: regex where
  "REVERSE_SHELL_PATTERN = re_ci
     (''(%b(bash|sh|zsh)%s+-i%s+>&|%/dev%/tcp%/[0-9.]+%/[0-9]+|%bsocket%.socket%(.*%.connect%(|''
      @ ''%bpty%.spawn%(|%bnc(%.traditional)?%s+-[a-zA-Z]*e%s+)'')"

definition UNSAFE_SUBPROCESS_SHELL_PATTERN :: regex where
  "UNSAFE_SUBPROCESS_SHELL_PATTERN = re_ci
     ''%bsubprocess%.(Popen|run|call|check_output|check_call)%s*%([^)]*shell%s*=%s*True[^)]*%)''"

definition SCRIPT_INVOCATION_PATTERN :: regex where
  "SCRIPT_INVOCATION_PATTERN = re_ci
     ''%b(python[0-9.]*%s+(-c|-m)|bash%s+-c|sh%s+-c|zsh%s+-c|perl%s+-e|ruby%s+-e|node%s+-e|eval%b)''"

text \<open>The details dictionary: whether the analysis was degraded, and its text fields.\<close>

record sast_details =
  sd_degraded :: bool
  sd_fields :: "(str \<times> str) list"

text \<open>What one run of \<open>shellcheck\<close> gives: findings (code and message), nothing, a timeout or an error.\<close>

datatype shellcheck_run = ScEmpty | ScFindings "(int \<times> str) list" | ScTimeout | ScError str

record sast_world = world +
  semgrep_present :: bool
  shellcheck_present :: bool
  run_shellcheck :: "str \<Rightarrow> shellcheck_run"

definition audit_script_with_semgrep :: "'a sast_world_scheme \<Rightarrow> str \<Rightarrow> bool \<times> str \<times> sast_details" where
  "audit_script_with_semgrep w cmd =
     (if strip cmd = [] then (True, ''Safe: Empty command'', \<lparr>sd_degraded = False, sd_fields = []\<rparr>)
      else if re_found PIPED_REMOTE_EXEC_PATTERN cmd then
        (False, ''SAST Semgrep [BLOCK]: Unverified remote script piped directly to shell (curl | sh)'',
         \<lparr>sd_degraded = False, sd_fields = [(''rule'', ''piped-remote-script-execution''), (''consequence'', ''PERS'')]\<rparr>)
      else if re_found REVERSE_SHELL_PATTERN cmd then
        (False, ''SAST Semgrep [BLOCK]: Reverse shell or raw socket redirection signature detected'',
         \<lparr>sd_degraded = False, sd_fields = [(''rule'', ''reverse-shell-socket-redirection''), (''consequence'', ''PERS'')]\<rparr>)
      else if re_found UNSAFE_SUBPROCESS_SHELL_PATTERN cmd then
        (False, ''SAST Semgrep [BLOCK]: Python subprocess execution with shell=True vulnerability'',
         \<lparr>sd_degraded = False, sd_fields = [(''rule'', ''python-unsafe-subprocess-shell''), (''consequence'', ''INT'')]\<rparr>)
      else if \<not> re_found SCRIPT_INVOCATION_PATTERN cmd then
        (True, ''Semgrep SAST: Clean (Fast-path static)'', \<lparr>sd_degraded = False, sd_fields = []\<rparr>)
      else if \<not> semgrep_present w then
        (True, ''Semgrep SAST: Clean (Binary absent on script context, AST fallback active)'',
         \<lparr>sd_degraded = True, sd_fields = [(''reason'', ''BINARY_ABSENT'')]\<rparr>)
      else (True, ''Semgrep SAST: Clean'', \<lparr>sd_degraded = False, sd_fields = []\<rparr>))"

subsection \<open>ShellCheck findings\<close>

definition STANDARD_ENV_WHITELIST :: "str list" where
  "STANDARD_ENV_WHITELIST = [
     ''HOME'', ''USER'', ''LOGNAME'', ''PATH'', ''PWD'', ''OLDPWD'', ''SHELL'', ''TERM'', ''TMPDIR'', ''LANG'',
     ''LC_ALL'', ''LC_CTYPE'', ''EDITOR'', ''VISUAL'', ''PAGER'', ''UID'', ''GID'', ''EUID'', ''OSTYPE'', ''MACHTYPE'',
     ''HOSTTYPE'', ''HOSTNAME'', ''SHLVL'', ''RANDOM'', ''SECONDS'', ''LINENO'', ''IFS'',
     ''ANTIGRAVITY_AGENT'', ''HERDR_ENV'', ''HERMES_HOME'', ''SCHENGEN_SHADOW_MODE'', ''CI'', ''NODE_ENV'',
     ''PYTHONPATH'', ''VIRTUAL_ENV'', ''CARGO_HOME'', ''RUSTUP_HOME'']"

definition DESTRUCTIVE_VARIABLE_COMMANDS :: regex where
  "DESTRUCTIVE_VARIABLE_COMMANDS = re_ci ''%b(rm|unlink|mkfs|dd|chmod|chown|mv|truncate|cp)%b''"

definition SHELLCHECK_TRIGGER_RE :: regex where
  "SHELLCHECK_TRIGGER_RE = re_c ''(%$|`|<<|%n|;|%band%b|%bor%b)''"

definition unbound_var_name :: "str \<Rightarrow> str" where
  "unbound_var_name msg =
     (case re_match (re_c ''^([a-zA-Z0-9_]+)%s+is referenced'') msg of None \<Rightarrow> []
      | Some m \<Rightarrow> (case m_group m 1 of Some v \<Rightarrow> v | None \<Rightarrow> []))"

text \<open>The loop over the findings: the first hazard, if there is one.\<close>

definition shellcheck_hazard :: "str list \<Rightarrow> str \<Rightarrow> int \<times> str \<Rightarrow> (str \<times> sast_details) option" where
  "shellcheck_hazard whitelist cmd f = (case f of (code, msg) \<Rightarrow>
     if code = 2115 then
       Some (''Catastrophic variable wipe risk (SC2115): '' @ msg,
         \<lparr>sd_degraded = False, sd_fields = [(''hazard'', ''CATASTROPHIC_ROOT_WIPE''), (''origin'', ''E''),
            (''consequence'', ''DEST''), (''mechanism'', ''unbound-variable-sc2115'')]\<rparr>)
     else if code = 2154 then
       (let var_name = unbound_var_name msg in
        if var_name \<noteq> [] \<and> var_name \<in> set whitelist then None
        else if re_found DESTRUCTIVE_VARIABLE_COMMANDS cmd then
          Some (''Unbound variable in destructive command (SC2154: '' @ [squote, CHR ''$''] @ var_name @ [squote]
                @ ''): '' @ msg,
            \<lparr>sd_degraded = False, sd_fields = [(''var_name'', var_name), (''hazard'', ''UNBOUND_VARIABLE_DESTRUCTION''),
               (''origin'', ''E''), (''consequence'', ''DEST''), (''mechanism'', ''unbound-variable-sc2154'')]\<rparr>)
        else None)
     else None)"

definition audit_shell_with_shellcheck ::
    "'a sast_world_scheme \<Rightarrow> str \<Rightarrow> str list option \<Rightarrow> bool \<times> str \<times> sast_details option" where
  "audit_shell_with_shellcheck w cmd custom_whitelist =
     (if strip cmd = [] then (True, ''Safe: Empty command'', None)
      else if \<not> re_found SHELLCHECK_TRIGGER_RE cmd then
        (True, ''Safe: Static command without variable expansion'', None)
      else if \<not> shellcheck_present w then
        (if re_found DESTRUCTIVE_VARIABLE_COMMANDS cmd \<and> re_found (re_c ''(%$|`)'') cmd then
           (True, ''ShellCheck SAST: [DEGRADED_UNAVAILABLE] shellcheck binary not installed; pass-through to Layer 2 pattern guards'',
            Some \<lparr>sd_degraded = True, sd_fields = [(''reason'', ''BINARY_ABSENT'')]\<rparr>)
         else (True, ''ShellCheck binary not available; skipped SAST pre-filter'', None))
      else (case run_shellcheck w cmd of
          ScEmpty \<Rightarrow> (True, ''ShellCheck SAST: No issues found'', None)
        | ScTimeout \<Rightarrow>
            (True, ''ShellCheck SAST: [DEGRADED_TIMEOUT] timeout exceeded (>200ms); pass-through to Layer 2'',
             Some \<lparr>sd_degraded = True, sd_fields = [(''reason'', ''TIMEOUT_EXCEEDED'')]\<rparr>)
        | ScError e \<Rightarrow> (True, ''ShellCheck SAST execution error ('' @ e @ ''); pass-through to Layer 2'', None)
        | ScFindings fs \<Rightarrow>
            if fs = [] then (True, ''ShellCheck SAST: Clean'', None)
            else (let whitelist = (case custom_whitelist of
                        Some wl \<Rightarrow> (if wl = [] then STANDARD_ENV_WHITELIST else wl) | None \<Rightarrow> STANDARD_ENV_WHITELIST)
                  in case first_some (shellcheck_hazard whitelist cmd) fs of
                       Some (reason, details) \<Rightarrow> (False, reason, Some details)
                     | None \<Rightarrow> (True, ''ShellCheck SAST: Verified safe'', None))))"

subsection \<open>Facts\<close>

lemma semgrep_signature_blocks:
  "re_found PIPED_REMOTE_EXEC_PATTERN cmd \<or> re_found REVERSE_SHELL_PATTERN cmd
     \<or> re_found UNSAFE_SUBPROCESS_SHELL_PATTERN cmd \<Longrightarrow> strip cmd \<noteq> [] \<Longrightarrow>
     \<not> fst (audit_script_with_semgrep w cmd)"
  by (auto simp: audit_script_with_semgrep_def)

lemma semgrep_degraded:
  "sd_degraded (snd (snd (audit_script_with_semgrep w cmd))) \<Longrightarrow>
     \<not> semgrep_present w \<and> re_found SCRIPT_INVOCATION_PATTERN cmd \<and> fst (audit_script_with_semgrep w cmd)"
  by (auto simp: audit_script_with_semgrep_def split: if_splits)

lemma shellcheck_unsafe_iff:
  assumes "strip cmd \<noteq> []" and "re_found SHELLCHECK_TRIGGER_RE cmd" and "shellcheck_present w"
    and "run_shellcheck w cmd = ScFindings fs"
  shows "fst (audit_shell_with_shellcheck w cmd None)
    \<longleftrightarrow> (\<forall>f \<in> set fs. shellcheck_hazard STANDARD_ENV_WHITELIST cmd f = None)"
proof -
  have "fst (audit_shell_with_shellcheck w cmd None)
      \<longleftrightarrow> first_some (shellcheck_hazard STANDARD_ENV_WHITELIST cmd) fs = None"
    using assms by (cases "first_some (shellcheck_hazard STANDARD_ENV_WHITELIST cmd) fs")
      (auto simp: audit_shell_with_shellcheck_def)
  then show ?thesis by (simp only: first_some_None)
qed

subsection \<open>Properties\<close>

text \<open>
  Whenever ShellCheck runs, its verdict is unsafe exactly when some finding is a hazard, and a
  finding SC2115 (a variable that may expand to the root directory) is always one, whatever other
  findings surround it.
\<close>

lemma shellcheck_wipe_is_unsafe:
  assumes "strip cmd \<noteq> []" and "re_found SHELLCHECK_TRIGGER_RE cmd" and "shellcheck_present w"
    and "run_shellcheck w cmd = ScFindings fs" and "(2115, msg) \<in> set fs"
  shows "\<not> fst (audit_shell_with_shellcheck w cmd None)"
proof -
  have "shellcheck_hazard STANDARD_ENV_WHITELIST cmd (2115, msg) \<noteq> None"
    by (simp add: shellcheck_hazard_def)
  then show ?thesis unfolding shellcheck_unsafe_iff [OF assms(1-4)] using assms(5) by metis
qed

definition checked_world :: sast_world where
  "checked_world = world.extend plain_world
     \<lparr>semgrep_present = True, shellcheck_present = True,
      run_shellcheck = \<lambda>_. ScFindings [(1, ''x''), (2115, ''y'')]\<rparr>"

lemma shellcheck_wipe_is_unsafe_witness:
  "\<not> fst (audit_shell_with_shellcheck checked_world ''a;b'' None)"
proof (rule shellcheck_wipe_is_unsafe [where fs = "[(1, ''x''), (2115, ''y'')]" and msg = "''y''"])
  show "strip ''a;b'' \<noteq> []" by code_simp
  show "re_found SHELLCHECK_TRIGGER_RE ''a;b''" by code_simp
qed (simp_all add: checked_world_def plain_world_def world.defs)

end
