(* ===== verification/Substitution.thy ===== *)
theory Substitution
  imports Sast
begin

text \<open>
  The safe file reader and the deterministic resolution of static substitutions
  (\<open>safe_read_file_content\<close> and \<open>resolve_dynamic_substitutions_locally\<close> of
  \<open>scripts/core/security_evaluator.py\<close>).  The file system is a field of the world: what
  a path resolves to and what stands there.
\<close>

subsection \<open>Reading a file safely\<close>

text \<open>Nothing, something that is not a regular file, a regular file with its text, or an I/O error.\<close>

datatype file_entry = Missing | Special | Regular str | IoError str

record file_world = sast_world +
  resolve_path :: "str \<Rightarrow> str"
  file_at :: "str \<Rightarrow> file_entry"

definition SYSTEM_READ_RE :: regex where
  "SYSTEM_READ_RE = re_ci
     (''^/(?:etc|System|Library|dev|proc|sys|private/etc|var/(?!folders/|tmp/)|''
      @ ''private/var/(?!folders/|tmp/))'')"

text \<open>\<open>s.strip().strip("'\"")\<close>: the path as it is resolved.\<close>

definition bare_path :: "str \<Rightarrow> str" where
  "bare_path s = strip_chars [squote, dquote] (strip s)"

definition quoted :: "str \<Rightarrow> str" where
  "quoted s = [squote] @ s @ [squote]"

definition safe_read_file_content :: "'a file_world_scheme \<Rightarrow> str \<Rightarrow> nat \<Rightarrow> bool \<times> str" where
  "safe_read_file_content w file_path max_bytes =
     (let path = resolve_path w (bare_path file_path) in
      if re_found SENSITIVE_FILE_PATTERN path then
        (False, ''Refused read: Path contains sensitive credentials '' @ quoted path)
      else if re_found SYSTEM_READ_RE path then
        (False, ''Refused read: System/device directory path '' @ quoted path)
      else (case file_at w path of
          Missing \<Rightarrow> (False, ''File does not exist: '' @ quoted path)
        | Special \<Rightarrow> (False, ''Refused read: Target is not a regular file (FIFO/socket/device): '' @ quoted path)
        | Regular content \<Rightarrow> (True, take max_bytes content)
        | IoError e \<Rightarrow> (False, ''Safe read error: '' @ e)))"

subsection \<open>Resolving substitutions\<close>

text \<open>A refusal: the command so far, the layer and the reason.\<close>

type_synonym refusal = "str \<times> decision_layer \<times> str"

definition SUBST_SYSTEM_RE :: regex where
  "SUBST_SYSTEM_RE = re_c ''^/(etc|var|System|Library|dev|proc|sys|private/(etc|var))/''"

definition refusal_layer :: "str \<Rightarrow> str \<Rightarrow> decision_layer" where
  "refusal_layer fpath content =
     (if re_found SENSITIVE_FILE_PATTERN fpath \<or> contains ''sensitive'' (str_lower content)
         \<or> contains ''secret'' (str_lower content) then SECRET_GUARD
      else if re_found SUBST_SYSTEM_RE fpath \<or> contains ''system'' (str_lower content) then SHELL_CRITICAL
      else LLM_INSPECTOR)"

text \<open>The loop over the files of one substitution, with the set of files visited so far.\<close>

fun read_sub_files :: "'a file_world_scheme \<Rightarrow> str \<Rightarrow> str list \<Rightarrow> str list \<Rightarrow> refusal + (str list \<times> str list)" where
  "read_sub_files w cmd visited [] = Inr (visited, [])"
| "read_sub_files w cmd visited (fpath # rest) =
     (let norm = resolve_path w (bare_path fpath) in
      if norm \<in> set visited then
        Inl (cmd, LLM_INSPECTOR, ''Circular reference loop detected for '' @ quoted fpath)
      else (case safe_read_file_content w fpath 8192 of
          (False, content) \<Rightarrow>
            Inl (cmd, refusal_layer fpath content,
                 ''Dynamic substitution blocked on '' @ quoted fpath @ '': '' @ content)
        | (True, content) \<Rightarrow>
            (case read_sub_files w cmd (norm # visited) rest of
               Inl e \<Rightarrow> Inl e
             | Inr (visited', chunks) \<Rightarrow> Inr (visited', str_join '' '' (splitlines (strip content)) # chunks))))"

definition sub_file_args :: "str \<Rightarrow> str list" where
  "sub_file_args raw =
     filter (\<lambda>f. \<not> re_matches REDIRECT_ARG_RE f) (case shlex_split raw of Some ts \<Rightarrow> ts | None \<Rightarrow> split_ws raw)"

definition sub_raw_arg :: "mtch \<Rightarrow> str" where
  "sub_raw_arg m = strip (or_else (m_group m 2) (or_else (m_group m 3) []))"

text \<open>The loop over the matches, from right to left; the list is given in that order.\<close>

fun resolve_matches ::
    "'a file_world_scheme \<Rightarrow> str \<Rightarrow> str list \<Rightarrow> mtch list \<Rightarrow> refusal + (str \<times> str list)" where
  "resolve_matches w cmd visited [] = Inr (cmd, visited)"
| "resolve_matches w cmd visited (m # ms) =
     (let raw = sub_raw_arg m in
      if raw = [] then
        Inl (cmd, LLM_INSPECTOR, ''Empty file argument in dynamic substitution '' @ quoted (m_text m))
      else (case read_sub_files w cmd visited (sub_file_args raw) of
          Inl e \<Rightarrow> Inl e
        | Inr (visited', chunks) \<Rightarrow>
            resolve_matches w (take (m_start m) cmd @ str_join '' '' chunks @ drop (m_end m) cmd) visited' ms))"

fun resolve_hops :: "'a file_world_scheme \<Rightarrow> nat \<Rightarrow> str \<Rightarrow> str list \<Rightarrow> refusal + (str \<times> str list)" where
  "resolve_hops w 0 cmd visited = Inr (cmd, visited)"
| "resolve_hops w (Suc n) cmd visited =
     (let ms = re_finditer STATIC_RESOLVABLE_SUBSTITUTION_PATTERN cmd in
      if ms = [] then Inr (cmd, visited)
      else (case resolve_matches w cmd visited (rev ms) of
          Inl e \<Rightarrow> Inl e
        | Inr (cmd', visited') \<Rightarrow> resolve_hops w n cmd' visited'))"

definition resolve_dynamic_substitutions_locally :: "'a file_world_scheme \<Rightarrow> str \<Rightarrow> nat \<Rightarrow> refusal + str" where
  "resolve_dynamic_substitutions_locally w cmd max_hops =
     (case resolve_hops w max_hops cmd [] of Inl e \<Rightarrow> Inl e | Inr (cmd', _) \<Rightarrow> Inr cmd')"

subsection \<open>What may be read\<close>

text \<open>A path that the guards of the reader let through, with a regular file behind it.\<close>

definition readable :: "'a file_world_scheme \<Rightarrow> str \<Rightarrow> bool" where
  "readable w path \<longleftrightarrow> \<not> re_found SENSITIVE_FILE_PATTERN path \<and> \<not> re_found SYSTEM_READ_RE path
     \<and> (\<exists>content. file_at w path = Regular content)"

lemma safe_read_True:
  assumes "safe_read_file_content w f n = (True, c)"
  shows "readable w (resolve_path w (bare_path f)) \<and> length c \<le> n
    \<and> (\<exists>content. file_at w (resolve_path w (bare_path f)) = Regular content \<and> prefix c content)"
  using assms
  by (auto simp: safe_read_file_content_def readable_def Let_def take_is_prefix split: if_splits file_entry.splits)

definition fresh_reads :: "'a file_world_scheme \<Rightarrow> str list \<Rightarrow> bool" where
  "fresh_reads w visited \<longleftrightarrow> distinct visited \<and> (\<forall>p \<in> set visited. readable w p)"

lemma read_sub_files_fresh:
  "read_sub_files w cmd visited fs = Inr (visited', chunks) \<Longrightarrow> fresh_reads w visited \<Longrightarrow>
     fresh_reads w visited' \<and> length chunks = length fs \<and> length visited' = length visited + length fs"
proof (induction fs arbitrary: visited visited' chunks)
  case Nil
  then show ?case by simp
next
  case (Cons f fs)
  let ?n = "resolve_path w (bare_path f)"
  from Cons.prems(1) have fresh: "?n \<notin> set visited"
    by (auto simp: Let_def split: if_splits)
  from Cons.prems(1) fresh obtain c where r: "safe_read_file_content w f 8192 = (True, c)"
    by (cases "safe_read_file_content w f 8192") (auto simp: Let_def split: bool.splits)
  from Cons.prems(1) fresh r obtain ch where
    rest: "read_sub_files w cmd (?n # visited) fs = Inr (visited', ch)" and chunks: "length chunks = Suc (length ch)"
    by (auto simp: Let_def split: sum.splits)
  have "fresh_reads w (?n # visited)"
    using Cons.prems(2) fresh safe_read_True [OF r] by (simp add: fresh_reads_def)
  from Cons.IH [OF rest this] chunks show ?case by simp
qed

lemma resolve_matches_fresh:
  "resolve_matches w cmd visited ms = Inr (cmd', visited') \<Longrightarrow> fresh_reads w visited \<Longrightarrow> fresh_reads w visited'"
proof (induction ms arbitrary: cmd visited)
  case Nil
  then show ?case by simp
next
  case (Cons m ms)
  then obtain v ch where "read_sub_files w cmd visited (sub_file_args (sub_raw_arg m)) = Inr (v, ch)"
    and "resolve_matches w (take (m_start m) cmd @ str_join '' '' ch @ drop (m_end m) cmd) v ms = Inr (cmd', visited')"
    by (auto simp: Let_def split: if_splits sum.splits)
  with Cons.IH Cons.prems(2) read_sub_files_fresh show ?case by blast
qed

lemma resolve_hops_fresh:
  "resolve_hops w n cmd visited = Inr (cmd', visited') \<Longrightarrow> fresh_reads w visited \<Longrightarrow> fresh_reads w visited'"
proof (induction n arbitrary: cmd visited)
  case 0
  then show ?case by simp
next
  case (Suc n)
  show ?case
  proof (cases "re_finditer STATIC_RESOLVABLE_SUBSTITUTION_PATTERN cmd = []")
    case True
    with Suc.prems show ?thesis by simp
  next
    case False
    with Suc.prems(1) obtain c v where
      "resolve_matches w cmd visited (rev (re_finditer STATIC_RESOLVABLE_SUBSTITUTION_PATTERN cmd)) = Inr (c, v)"
      and "resolve_hops w n c v = Inr (cmd', visited')"
      by (auto simp: Let_def split: sum.splits)
    with Suc.IH resolve_matches_fresh Suc.prems(2) show ?thesis by blast
  qed
qed

lemma resolve_no_static:
  "\<not> re_found STATIC_RESOLVABLE_SUBSTITUTION_PATTERN cmd \<Longrightarrow>
     resolve_dynamic_substitutions_locally w cmd n = Inr cmd"
  by (cases n) (simp_all add: resolve_dynamic_substitutions_locally_def re_found_finditer)

subsection \<open>Properties\<close>

text \<open>
  The reader gives out the text of a file only when its resolved path is neither sensitive nor
  under a system directory and a regular file stands there, and never more than the bound; the
  text is a prefix of the file.
\<close>

lemma safe_read_is_confined:
  assumes "safe_read_file_content w file_path n = (True, content)"
  shows "readable w (resolve_path w (bare_path file_path)) \<and> length content \<le> n
    \<and> (\<exists>text. file_at w (resolve_path w (bare_path file_path)) = Regular text \<and> prefix content text)"
  using assms by (rule safe_read_True)

definition file_demo :: file_world where
  "file_demo = sast_world.extend checked_world
     \<lparr>resolve_path = \<lambda>p. ''/t/'' @ p, file_at = \<lambda>p. if p = ''/t/a'' then Regular ''xyz'' else Missing\<rparr>"

lemma file_demo_simps [simp]:
  "resolve_path file_demo p = ''/t/'' @ p"
  "file_at file_demo p = (if p = ''/t/a'' then Regular ''xyz'' else Missing)"
  by (simp_all add: file_demo_def sast_world.defs)

lemma safe_read_is_confined_witness:
  "readable file_demo (resolve_path file_demo (bare_path ''a'')) \<and> length ''xy'' \<le> 2
    \<and> (\<exists>text. file_at file_demo (resolve_path file_demo (bare_path ''a'')) = Regular text \<and> prefix ''xy'' text)"
proof (rule safe_read_is_confined)
  show "safe_read_file_content file_demo ''a'' 2 = (True, ''xy'')" by code_simp
qed

text \<open>
  Resolution reads no file twice (so substitutions cannot loop) and reads only files that the
  guards let through: when it succeeds, the list of all files it visited is duplicate-free and
  every one of them is readable.
\<close>

lemma resolution_reads_once:
  assumes "resolve_hops w hops cmd [] = Inr (cmd', visited)"
  shows "resolve_dynamic_substitutions_locally w cmd hops = Inr cmd' \<and> fresh_reads w visited"
  using assms resolve_hops_fresh [OF assms]
  by (simp add: resolve_dynamic_substitutions_locally_def fresh_reads_def)

lemma resolution_reads_once_witness:
  "resolve_dynamic_substitutions_locally file_demo ''wc $(cat a)'' 2 = Inr ''wc xyz''
    \<and> fresh_reads file_demo [''/t/a'']"
proof (rule resolution_reads_once)
  show "resolve_hops file_demo 2 ''wc $(cat a)'' [] = Inr (''wc xyz'', [''/t/a''])" by code_simp
qed

end
