(* ===== verification/PyAudit.thy ===== *)
theory PyAudit
  imports Substitution
begin

text \<open>
  The audit of inline Python (\<open>PythonASTAuditor\<close> and \<open>audit_python_code\<close> of
  \<open>scripts/core/security_evaluator.py\<close>).  The parser and the tokenizer of the Python
  interpreter are fields of the world: \<open>parse_python\<close> gives the tree that \<open>ast.parse\<close> builds,
  projected to what the visitor looks at, and \<open>tokenize\<close> the texts of the tokens with a
  flag for string literals and comments.
\<close>

subsection \<open>The tree\<close>

text \<open>The called expression: a plain name, an attribute, or anything else.\<close>

datatype py_func = FName str | FAttr str | FOther

text \<open>
  A node with its children in the order in which \<open>generic_visit\<close> reaches them.  A call has its
  function, its positional arguments and its keywords; of an argument only the text of a
  constant matters.
\<close>

datatype py_node =
    PyImport "str list" "py_node list"
  | PyImportFrom "str option" "py_node list"
  | PyCall py_func "str option list" "(str option \<times> str option) list" "py_node list"
  | PyOther "py_node list"

record py_world = file_world +
  parse_python :: "str \<Rightarrow> str + py_node"
  tokenize :: "str \<Rightarrow> (str \<times> bool) list option"

definition DANGEROUS_PY_MODULES :: "str list" where
  "DANGEROUS_PY_MODULES = [''socket'', ''requests'', ''urllib'', ''http.client'', ''ftplib'', ''smtplib'']"

definition DANGEROUS_PY_CALLS :: "str list" where
  "DANGEROUS_PY_CALLS = [''eval'', ''exec'', ''__import__'', ''compile'']"

subsection \<open>The compact token guard\<close>

definition DANGEROUS_COMPACT_PATTERN :: regex where
  "DANGEROUS_COMPACT_PATTERN = re_ci
     (''__import__(?![a-zA-Z0-9_])|eval%(|exec%(|compile%(|''
      @ ''(?:import|from)(?:socket|requests|urllib|ftplib|smtplib|http)(?![a-zA-Z0-9_])'')"

definition strip_strings_and_comments :: "'a py_world_scheme \<Rightarrow> str \<Rightarrow> str" where
  "strip_strings_and_comments w code =
     (case tokenize w code of None \<Rightarrow> code
      | Some toks \<Rightarrow> concat (map fst (filter (\<lambda>t. \<not> snd t) toks)))"

definition unescape_quotes :: "str \<Rightarrow> str" where
  "unescape_quotes s = str_replace [bslash, squote] [squote] (str_replace [bslash, dquote] [dquote] s)"

definition drop_blanks :: "str \<Rightarrow> str" where
  "drop_blanks s = re_sub (re_c ''%s+'') (\<lambda>_. []) s"

definition compact_dangerous_token :: "'a py_world_scheme \<Rightarrow> str \<Rightarrow> str option" where
  "compact_dangerous_token w code =
     (let unescaped = unescape_quotes code in
      if \<not> re_found DANGEROUS_COMPACT_PATTERN (drop_blanks unescaped) then None
      else map_option m_text
        (re_search DANGEROUS_COMPACT_PATTERN (drop_blanks (strip_strings_and_comments w unescaped))))"

subsection \<open>The visitor\<close>

record py_audit =
  pa_safe :: bool
  pa_reasons :: "str list"
  pa_modules :: "str list"

definition blame :: "str \<Rightarrow> py_audit \<Rightarrow> py_audit" where
  "blame reason a = a\<lparr>pa_safe := False, pa_reasons := pa_reasons a @ [reason]\<rparr>"

definition note_module :: "str \<Rightarrow> py_audit \<Rightarrow> py_audit" where
  "note_module name a =
     (let base = hd (split_char (CHR ''.'') name) in
      if base \<in> set DANGEROUS_PY_MODULES then a\<lparr>pa_modules := List.insert base (pa_modules a)\<rparr> else a)"

text \<open>The mode of \<open>open\<close>: the second argument, then the \<open>mode\<close> keywords, each a constant.\<close>

definition open_mode :: "str option list \<Rightarrow> (str option \<times> str option) list \<Rightarrow> str" where
  "open_mode args kws =
     (let m0 = (case args of _ # Some m # _ \<Rightarrow> m | _ \<Rightarrow> ''r'') in
      foldl (\<lambda>m (k, v). case v of Some t \<Rightarrow> (if k = Some ''mode'' then t else m) | None \<Rightarrow> m) m0 kws)"

definition visit_dynamic_call :: "py_func \<Rightarrow> py_audit \<Rightarrow> py_audit" where
  "visit_dynamic_call f a = (case f of FName n \<Rightarrow>
     (if n \<in> set DANGEROUS_PY_CALLS then blame (''Dynamic code execution call: '' @ n @ ''()'') a else a)
   | _ \<Rightarrow> a)"

definition visit_open_call ::
    "py_func \<Rightarrow> str option list \<Rightarrow> (str option \<times> str option) list \<Rightarrow> py_audit \<Rightarrow> py_audit" where
  "visit_open_call f args kws a =
     (if f = FName ''open'' then
        (case args of Some path # _ \<Rightarrow>
           (let a1 = (if re_found SENSITIVE_FILE_PATTERN path \<and> \<not> contains ''.zshenv.local'' path
                      then blame (''Attempting to open sensitive file: '' @ quoted path) a else a)
            in if re_found HERMES_SANDBOX_PATTERN path then
                 (let mode = open_mode args kws in
                  if list_ex (\<lambda>c. c \<in> set mode) ''wax+''
                  then blame (''Forbidden write operation to Hermes Sandbox: '' @ quoted path @ '' (mode=''
                              @ quoted mode @ '')'') a1
                  else a1)
               else a1)
         | _ \<Rightarrow> a)
      else a)"

definition PROCESS_ATTRS :: "str list" where
  "PROCESS_ATTRS = [''run'', ''Popen'', ''system'', ''call'', ''check_output'']"

definition visit_process_call :: "py_func \<Rightarrow> str option list \<Rightarrow> py_audit \<Rightarrow> py_audit" where
  "visit_process_call f args a = (case f of FAttr attr \<Rightarrow>
     (if attr \<in> set PROCESS_ATTRS then
        foldl (\<lambda>a arg. case arg of None \<Rightarrow> a
          | Some v \<Rightarrow>
              (if re_found HERMES_SANDBOX_PATTERN v
                  \<and> list_ex (\<lambda>t. contains t v) [''>'', ''cp '', ''mv '', ''touch '', ''rm '']
               then blame (''Process call attempting write/mutation to Hermes Sandbox: '' @ quoted v) a else a)) a args
      else a)
   | _ \<Rightarrow> a)"

definition visit_call ::
    "py_func \<Rightarrow> str option list \<Rightarrow> (str option \<times> str option) list \<Rightarrow> py_audit \<Rightarrow> py_audit" where
  "visit_call f args kws a = visit_process_call f args (visit_open_call f args kws (visit_dynamic_call f a))"

fun visit :: "py_node \<Rightarrow> py_audit \<Rightarrow> py_audit" where
  "visit (PyImport names cs) a = fold visit cs (fold note_module names a)"
| "visit (PyImportFrom m cs) a =
     fold visit cs (case m of None \<Rightarrow> a | Some name \<Rightarrow> if name = [] then a else note_module name a)"
| "visit (PyCall f args kws cs) a = fold visit cs (visit_call f args kws a)"
| "visit (PyOther cs) a = fold visit cs a"

subsection \<open>Network calls\<close>

definition PY_URL_RE :: regex where
  "PY_URL_RE = re_c ''https?://[a-zA-Z0-9_.:/-]+''"

definition PY_DELETE_RE :: regex where
  \<open>PY_DELETE_RE = re_ci (''method%s*=%s*['"]DELETE['"]'')\<close>

definition PY_POST_RE :: regex where
  \<open>PY_POST_RE = re_c (''(method%s*=%s*['"](POST|PATCH|PUT)['"]|data%s*=|requests%.(post|patch|put)%()'')\<close>

text \<open>The textual form of the set of modules, in the order in which they were first seen.\<close>

definition show_set :: "str list \<Rightarrow> str" where
  "show_set xs = ''{'' @ str_join '', '' (map quoted xs) @ ''}''"

fun check_urls :: "str \<Rightarrow> str list \<Rightarrow> py_audit \<Rightarrow> py_audit" where
  "check_urls code [] a = a"
| "check_urls code (url # urls) a =
     (if \<not> re_matches MANAGED_GIT_HOST_PATTERN url then
        blame (''Network call to external (non-Forgejo) target: '' @ quoted url) a
      else if re_found PY_DELETE_RE code \<or> re_found (re_ci ''requests%.delete%('') code then
        blame (''Forbidden HTTP DELETE request to Forgejo: '' @ quoted url) a
      else check_urls code urls
        (if re_found PY_POST_RE code \<and> \<not> re_found MANAGED_GIT_ISSUES_PATTERN url
            \<and> \<not> re_found (re_c ''/api/v1/(user|users)'') url
         then blame (''Non-GET request to non-issues Forgejo endpoint: '' @ quoted url) a else a))"

definition evaluate_network_calls :: "str \<Rightarrow> py_audit \<Rightarrow> py_audit" where
  "evaluate_network_calls code a =
     (if pa_modules a = [] then a
      else (let urls = map m_text (re_finditer PY_URL_RE code) in
        if urls = [] then
          blame (''Network module imported without identifiable URL literal: '' @ show_set (pa_modules a)) a
        else check_urls code urls a))"

subsection \<open>Normalisation candidates\<close>

definition is_indent :: "char \<Rightarrow> bool" where
  "is_indent c \<longleftrightarrow> c = CHR '' '' \<or> c = CHR 0x09"

text \<open>\<open>textwrap.dedent\<close>: blank lines are emptied, and the common margin of the others removed.\<close>

fun common_prefix :: "str \<Rightarrow> str \<Rightarrow> str" where
  "common_prefix (x # xs) (y # ys) = (if x = y then x # common_prefix xs ys else [])"
| "common_prefix _ _ = []"

definition dedent :: "str \<Rightarrow> str" where
  "dedent text =
     (let ls = map (\<lambda>l. if list_all is_indent l then [] else l) (split_char nl text);
          margins = map (takeWhile is_indent) (filter (\<lambda>l. l \<noteq> []) ls);
          margin = (case margins of [] \<Rightarrow> [] | m # ms \<Rightarrow> foldl common_prefix m ms)
      in str_join [nl] (map (\<lambda>l. if l \<noteq> [] then drop (length margin) l else l) ls))"

text \<open>\<open>str.expandtabs(4)\<close>, with the current column.\<close>

fun expandtabs_from :: "nat \<Rightarrow> str \<Rightarrow> str" where
  "expandtabs_from k [] = []"
| "expandtabs_from k (c # cs) =
     (if c = CHR 0x09 then replicate (4 - k mod 4) (CHR '' '') @ expandtabs_from (k + (4 - k mod 4)) cs
      else if c = nl \<or> c = cr then c # expandtabs_from 0 cs
      else c # expandtabs_from (Suc k) cs)"

fun keep_first :: "str list \<Rightarrow> str list \<Rightarrow> str list" where
  "keep_first acc [] = acc"
| "keep_first acc (c # cs) = (if c \<noteq> [] \<and> c \<notin> set acc then keep_first (acc @ [c]) cs else keep_first acc cs)"

definition python_normalization_candidates :: "str \<Rightarrow> str list" where
  "python_normalization_candidates raw =
     (let unescaped = unescape_quotes raw in
      keep_first [] [raw, dedent raw, unescaped, dedent unescaped, dedent (expandtabs_from 0 raw),
        str_join '' '' (map strip (splitlines raw))])"

text \<open>The first candidate that parses; otherwise the last syntax error (\<open>None\<close> without any candidate).\<close>

fun first_parse :: "'a py_world_scheme \<Rightarrow> str option \<Rightarrow> str list \<Rightarrow> str option + (str \<times> py_node)" where
  "first_parse w err [] = Inl err"
| "first_parse w err (c # cs) =
     (case parse_python w c of Inl e \<Rightarrow> first_parse w (Some e) cs | Inr tree \<Rightarrow> Inr (c, tree))"

definition audit_python_code :: "'a py_world_scheme \<Rightarrow> str \<Rightarrow> bool \<times> str" where
  "audit_python_code w code =
     (case compact_dangerous_token w code of
        Some hit \<Rightarrow> (False, ''Python AST: dangerous token detected '' @ quoted hit)
      | None \<Rightarrow>
          (case first_parse w None (python_normalization_candidates code) of
             Inl err \<Rightarrow> (False, ''Python SyntaxError during AST audit: ''
                              @ (case err of None \<Rightarrow> ''None'' | Some e \<Rightarrow> e))
           | Inr (effective, tree) \<Rightarrow>
               (let a = evaluate_network_calls effective
                          (visit tree \<lparr>pa_safe = True, pa_reasons = [], pa_modules = []\<rparr>)
                in if \<not> pa_safe a then (False, str_join ''; '' (pa_reasons a))
                   else (True, ''Python AST: Safe''))))"

subsection \<open>What the visitor finds\<close>

text \<open>All nodes of a tree, in the order of the visit.\<close>

fun nodes_of :: "py_node \<Rightarrow> py_node list" where
  "nodes_of (PyImport names cs) = PyImport names cs # concat (map nodes_of cs)"
| "nodes_of (PyImportFrom m cs) = PyImportFrom m cs # concat (map nodes_of cs)"
| "nodes_of (PyCall f args kws cs) = PyCall f args kws cs # concat (map nodes_of cs)"
| "nodes_of (PyOther cs) = PyOther cs # concat (map nodes_of cs)"

text \<open>The verdict only gets worse: \<open>grows a b\<close> says that \<open>b\<close> knows at least what \<open>a\<close> knows.\<close>

definition grows :: "py_audit \<Rightarrow> py_audit \<Rightarrow> bool" where
  "grows a b \<longleftrightarrow> (pa_safe b \<longrightarrow> pa_safe a) \<and> set (pa_modules a) \<subseteq> set (pa_modules b)"

lemma grows_refl [simp]: "grows a a"
  by (simp add: grows_def)

lemma grows_trans: "grows a b \<Longrightarrow> grows b c \<Longrightarrow> grows a c"
  by (auto simp: grows_def)

lemma grows_blame [simp]: "grows a (blame r a)"
  by (simp add: grows_def blame_def)

lemma grows_blame_trans: "grows a b \<Longrightarrow> grows a (blame r b)"
  by (erule grows_trans) (rule grows_blame)

lemma grows_note [simp]: "grows a (note_module n a)"
  by (auto simp: grows_def note_module_def Let_def)

lemma grows_fold: "(\<And>x a. x \<in> set xs \<Longrightarrow> grows a (f x a)) \<Longrightarrow> grows a (fold f xs a)"
proof (induction xs arbitrary: a)
  case Nil
  then show ?case by simp
next
  case (Cons x xs)
  then have "grows a (f x a)" and "grows (f x a) (fold f xs (f x a))" by simp_all
  then show ?case using grows_trans by fastforce
qed

lemma grows_foldl: "(\<And>x a. grows a (f a x)) \<Longrightarrow> grows a (foldl f a xs)"
  by (induction xs arbitrary: a) (auto intro: grows_trans)

lemma grows_call: "grows a (visit_call f args kws a)"
proof -
  have 1: "grows a (visit_dynamic_call f a)" for a
    by (simp add: visit_dynamic_call_def split: py_func.splits)
  have 2: "grows a (visit_open_call f args kws a)" for a
    by (simp add: visit_open_call_def Let_def grows_blame_trans split: list.splits option.splits)
  have 3: "grows a (visit_process_call f args a)" for a
    by (auto simp: visit_process_call_def split: py_func.splits option.splits intro!: grows_foldl)
  from 1 2 3 show ?thesis unfolding visit_call_def by (blast intro: grows_trans)
qed

lemma grows_visit: "grows a (visit t a)"
proof (induction t a rule: visit.induct)
  case (1 names cs a)
  have "grows a (fold note_module names a)" by (rule grows_fold) simp
  moreover have "grows (fold note_module names a) (fold visit cs (fold note_module names a))"
    by (rule grows_fold) (rule 1)
  ultimately show ?case by (simp add: grows_trans)
next
  case (2 m cs a)
  let ?b = "case m of None \<Rightarrow> a | Some name \<Rightarrow> if name = [] then a else note_module name a"
  have "grows a ?b" by (auto split: option.splits)
  moreover have "grows ?b (fold visit cs ?b)" by (rule grows_fold) (rule 2)
  ultimately show ?case by (simp add: grows_trans)
next
  case (3 f args kws cs a)
  have "grows (visit_call f args kws a) (fold visit cs (visit_call f args kws a))"
    by (rule grows_fold) (rule 3)
  with grows_trans [OF grows_call] show ?case by simp
next
  case (4 cs a)
  have "grows a (fold visit cs a)" by (rule grows_fold) (rule 4)
  then show ?case by simp
qed

text \<open>A node that makes every state unsafe makes the whole tree unsafe.\<close>

lemma visit_unsafe:
  assumes "n \<in> set (nodes_of t)" and "\<And>a. \<not> pa_safe (visit n a)"
  shows "\<not> pa_safe (visit t a)"
  using assms(1)
proof (induction t arbitrary: a)
  have step: "\<not> pa_safe (fold visit cs b)"
    if "n \<in> set (concat (map nodes_of cs))" and "\<And>c a. c \<in> set cs \<Longrightarrow> n \<in> set (nodes_of c) \<Longrightarrow> \<not> pa_safe (visit c a)"
    for cs b
    using that
  proof (induction cs arbitrary: b)
    case Nil
    then show ?case by simp
  next
    case (Cons c cs)
    show ?case
    proof (cases "n \<in> set (nodes_of c)")
      case True
      with Cons.prems(2) have "\<not> pa_safe (visit c b)" by simp
      moreover have "grows (visit c b) (fold visit cs (visit c b))" by (rule grows_fold) (rule grows_visit)
      ultimately show ?thesis by (auto simp: grows_def)
    next
      case False
      with Cons.prems(1) have "n \<in> set (concat (map nodes_of cs))" by simp
      from Cons.IH [OF this] Cons.prems(2) show ?thesis by simp
    qed
  qed
  {
    case (PyImport names cs)
    then show ?case using assms(2) step [of cs] by (cases "n = PyImport names cs") auto
  next
    case (PyImportFrom m cs)
    then show ?case using assms(2) step [of cs] by (cases "n = PyImportFrom m cs") auto
  next
    case (PyCall f args kws cs)
    then show ?case using assms(2) step [of cs] by (cases "n = PyCall f args kws cs") auto
  next
    case (PyOther cs)
    then show ?case using assms(2) step [of cs] by (cases "n = PyOther cs") auto
  }
qed

lemma visit_PyCall_grows: "grows (visit_call f args kws a) (visit (PyCall f args kws cs) a)"
  by (simp add: grows_fold grows_visit)

lemma eval_call_unsafe:
  assumes "name \<in> set DANGEROUS_PY_CALLS"
  shows "\<not> pa_safe (visit (PyCall (FName name) args kws cs) a)"
proof -
  have "\<not> pa_safe (visit_dynamic_call (FName name) a)"
    using assms by (simp add: visit_dynamic_call_def blame_def)
  moreover have "grows (visit_dynamic_call (FName name) a) (visit_call (FName name) args kws a)"
    unfolding visit_call_def
    by (simp add: visit_open_call_def visit_process_call_def Let_def grows_blame_trans split: list.splits option.splits)
  ultimately show ?thesis using visit_PyCall_grows unfolding grows_def by blast
qed

lemma check_urls_grows: "grows a (check_urls code urls a)"
proof (induction code urls a rule: check_urls.induct)
  case (1 code a)
  show ?case by simp
next
  case (2 code url urls a)
  let ?b = "if re_found PY_POST_RE code \<and> \<not> re_found MANAGED_GIT_ISSUES_PATTERN url
            \<and> \<not> re_found (re_c ''/api/v1/(user|users)'') url
         then blame (''Non-GET request to non-issues Forgejo endpoint: '' @ quoted url) a else a"
  have "grows a ?b" by simp
  with 2 show ?case by (auto intro: grows_trans simp del: if_split)
qed

lemma network_grows: "grows a (evaluate_network_calls code a)"
  by (auto simp: evaluate_network_calls_def Let_def check_urls_grows)

subsection \<open>Properties\<close>

text \<open>
  An audited program is refused when any node of its tree, however deep, calls \<open>eval\<close>, \<open>exec\<close>,
  \<open>compile\<close> or \<open>__import__\<close> by name; nothing that is visited later can make it safe again.
\<close>

lemma dynamic_call_is_refused:
  assumes "first_parse w None (python_normalization_candidates code) = Inr (effective, tree)"
    and "PyCall (FName name) args kws cs \<in> set (nodes_of tree)" and "name \<in> set DANGEROUS_PY_CALLS"
  shows "\<not> fst (audit_python_code w code)"
proof -
  have "\<not> pa_safe (visit tree b)" for b
    using visit_unsafe [OF assms(2)] eval_call_unsafe [OF assms(3)] by blast
  moreover have "grows (visit tree b) (evaluate_network_calls effective (visit tree b))" for b
    by (rule network_grows)
  ultimately have "\<not> pa_safe (evaluate_network_calls effective (visit tree b))" for b
    by (auto simp: grows_def)
  then show ?thesis
    using assms(1) by (auto simp: audit_python_code_def Let_def split: option.splits)
qed

definition py_demo :: py_world where
  "py_demo = file_world.extend file_demo
     \<lparr>parse_python = \<lambda>s. if s = ''f(eval)'' then Inr (PyOther [PyCall (FName ''eval'') [] [] []]) else Inl ''e'',
      tokenize = \<lambda>_. None\<rparr>"

lemma dynamic_call_is_refused_witness: "\<not> fst (audit_python_code py_demo ''f(eval)'')"
proof (rule dynamic_call_is_refused [where cs = "[]" and args = "[]" and kws = "[]" and name = "''eval''"])
  show "first_parse py_demo None (python_normalization_candidates ''f(eval)'')
      = Inr (''f(eval)'', PyOther [PyCall (FName ''eval'') [] [] []])"
    by code_simp
  show "PyCall (FName ''eval'') [] [] [] \<in> set (nodes_of (PyOther [PyCall (FName ''eval'') [] [] []]))" by simp
  show "''eval'' \<in> set DANGEROUS_PY_CALLS" by (simp add: DANGEROUS_PY_CALLS_def)
qed

text \<open>
  Code that no normalisation candidate can parse is refused, and so is code in which a
  dangerous token survives the removal of white space, strings and comments, whatever the
  parser would make of it.
\<close>

lemma unparsed_python_is_refused:
  "compact_dangerous_token w code \<noteq> None
     \<or> (\<forall>c \<in> set (python_normalization_candidates code). \<exists>e. parse_python w c = Inl e)
   \<Longrightarrow> \<not> fst (audit_python_code w code)"
proof -
  have *: "(\<forall>c \<in> set cs. \<exists>e. parse_python w c = Inl e) \<Longrightarrow> \<exists>e. first_parse w err cs = Inl e" for cs err
    by (induction cs arbitrary: err) auto
  assume "compact_dangerous_token w code \<noteq> None
     \<or> (\<forall>c \<in> set (python_normalization_candidates code). \<exists>e. parse_python w c = Inl e)"
  with * [of "python_normalization_candidates code" None] show ?thesis
    by (auto simp: audit_python_code_def split: option.splits)
qed

lemma unparsed_python_is_refused_witness: "\<not> fst (audit_python_code py_demo ''a b'')"
proof (rule unparsed_python_is_refused)
  have "list_all (\<lambda>c. case parse_python py_demo c of Inl e \<Rightarrow> True | Inr t \<Rightarrow> False)
      (python_normalization_candidates ''a b'')"
    by code_simp
  then show "compact_dangerous_token py_demo ''a b'' \<noteq> None
     \<or> (\<forall>c \<in> set (python_normalization_candidates ''a b''). \<exists>e. parse_python py_demo c = Inl e)"
    by (auto simp: list_all_iff split: sum.splits) (metis sum.exhaust)
qed

end
