(* ===== verification/CloudJudge.thy ===== *)
theory CloudJudge
  imports CloudClient Redaction SessionMemory PyAudit
begin

text \<open>
  The two judgments that ask a language model (\<open>audit_with_cloud_judge\<close> and
  \<open>audit_dynamic_substitution_with_llm\<close> of \<open>scripts/core/security_evaluator.py\<close>) and the
  cache keys of \<open>scripts/core/session_cache.py\<close>.  Both consult the pane memory and the
  evaluation cache before they call the model, and write to them afterwards.  The optional
  flag \<open>raise_on_error\<close>, which no audit sets, is left out: an exception is a refusal.  The
  clock does not advance during one judgment.
\<close>

subsection \<open>World and state\<close>

record judge_world = py_world +
  env :: "str \<Rightarrow> str option"
  sha :: "str \<Rightarrow> str"
  http :: "json \<Rightarrow> str \<Rightarrow> (str \<times> str) list \<Rightarrow> nat \<Rightarrow> http_outcome"
  jitter :: "nat \<Rightarrow> rat"
  show_exc :: "py_exc \<Rightarrow> str"
  show_float :: "pyfloat \<Rightarrow> str"
  py_repr :: "json \<Rightarrow> str"
  ruleset_version :: str
  min_confidence :: rat
  clock :: int

text \<open>The stores, and the phases announced to the progress display.\<close>

record judge_state = pane_store +
  phases :: "str list"

definition emit_phase :: "str \<Rightarrow> 'a judge_state_scheme \<Rightarrow> 'a judge_state_scheme" where
  "emit_phase p s = s\<lparr>phases := phases s @ [p]\<rparr>"

record judge_args =
  ja_cwd :: str
  ja_scope :: str
  ja_agent :: str
  ja_origin :: origin
  ja_origin_text :: str
  ja_effort :: str

definition shadow_env :: "'a judge_world_scheme \<Rightarrow> str option" where
  "shadow_env w = env w ''SCHENGEN_SHADOW_MODE''"

subsection \<open>Cache keys\<close>

definition text_or :: "str \<Rightarrow> str \<Rightarrow> str" where
  "text_or s d = (if s = [] then d else strip s)"

text \<open>The environment variables that count, sorted by name, as JSON.\<close>

definition env_repr :: "(str \<times> str) list \<Rightarrow> str" where
  "env_repr vars =
     (if vars = [] then [] else
       CHR ''['' # str_join '', '' (map (\<lambda>k. CHR ''['' # json_str k @ '', '' @ json_str (the (map_of vars k)) @ '']'')
         (filter (\<lambda>k. map_of vars k \<noteq> None) [''AI_AGENT'', ''HERDR_ENV'', ''SCHENGEN_SHADOW_MODE''])) @ '']'')"

definition compute_cache_key ::
    "(str \<Rightarrow> str) \<Rightarrow> str \<Rightarrow> str \<Rightarrow> str \<Rightarrow> str \<Rightarrow> str \<Rightarrow> (str \<times> str) list \<Rightarrow> str \<Rightarrow> str" where
  "compute_cache_key hash raw_cmd cwd scope agent origin_text vars version =
     hash (''cmd='' @ strip raw_cmd @ ''|cwd='' @ text_or cwd [] @ ''|scope='' @ text_or scope ''default''
       @ ''|agent='' @ text_or agent ''default'' @ ''|origin='' @ text_or origin_text ''A'' @ ''|env='' @ env_repr vars
       @ ''|ver='' @ version)"

definition judge_key :: "'a judge_world_scheme \<Rightarrow> judge_args \<Rightarrow> str \<Rightarrow> str" where
  "judge_key w a raw =
     compute_cache_key (sha w) raw (ja_cwd a) (ja_scope a) (ja_agent a) (ja_origin_text a) [] (ruleset_version w)"

subsection \<open>What the model is told\<close>

definition MINIMAL_INSPECTOR_SYSTEM_PROMPT :: str where
  \<open>MINIMAL_INSPECTOR_SYSTEM_PROMPT = concat [
     ''You are a strict security inspector subagent for Herdr SmartGate. A command contains dynamic command '',
     ''substitution (e.g. $(cat ...), <(cat ...), $(git ...)). Use `read_file_content` to inspect referenced '',
     ''files only when necessary. Auto-Approve Safe Patterns:'',
     [nl],
     ''- Target file is in safe workspace/tmp and contains benign parameters, configuration, or tests.'',
     [nl],
     ''- Read-only dynamic substitutions (e.g. $(git rev-parse ...), $(git log ...), $(cat /tmp/safe_param.txt)).'',
     [nl],
     ''Block if content contains:'',
     [nl],
     ''1) Secrets (.env, id_rsa, tokens, credentials, keys),'',
     [nl],
     ''2) System root paths (/etc, /System, /var, /usr, /dev),'',
     [nl],
     ''3) Destructive commands or dangerous payloads.'',
     [nl],
     ''Respond ONLY in JSON format: {"is_safe": true|false, "reason": "<concise explanation>", "taxonomy": '',
     ''{"origin": "I", "consequence": "NONE"|"EXFIL"|"DEST"|"INT"|"AVAIL"|"PERS", "mechanism": "string"}}'',
     [nl],
     ''Adversarial Exemplars:'',
     [nl],
     ''- Target `/tmp/safe.txt` ('',
     [squote],
     ''hello world'',
     [squote],
     ''): {"is_safe": true, "reason": "File content verified safe", "taxonomy": {"origin": "I", "consequence": '',
     ''"NONE", "mechanism": "verified-param"}}'',
     [nl],
     ''- Target `$(git rev-parse HEAD)`: {"is_safe": true, "reason": "Read-only git metadata substitution", '',
     ''"taxonomy": {"origin": "I", "consequence": "NONE", "mechanism": "git-meta-read"}}'',
     [nl],
     ''- Target `.env` ('',
     [squote],
     ''API_KEY=xyz'',
     [squote],
     ''): {"is_safe": false, "reason": "Detected API key credentials", "taxonomy": {"origin": "I", "consequence": '',
     ''"EXFIL", "mechanism": "env-leak-attempt"}}'',
     [nl],
     ''- Target `/etc/shadow` ('',
     [squote],
     ''root:...'',
     [squote],
     ''): {"is_safe": false, "reason": "Access to system sensitive shadow database", "taxonomy": {"origin": '',
     ''"I", "consequence": "DEST", "mechanism": "system-root-access"}}'']\<close>

definition system_message :: "str \<Rightarrow> json" where
  "system_message content = JObj [(''role'', JStr ''system''), (''content'', JStr content)]"

definition user_message :: "str \<Rightarrow> json" where
  "user_message content = JObj [(''role'', JStr ''user''), (''content'', JStr content)]"

definition fenced :: "str \<Rightarrow> str" where
  "fenced s = ''```'' @ [nl] @ s @ [nl] @ ''```''"

definition judge_messages :: "str \<Rightarrow> str \<Rightarrow> json list" where
  "judge_messages cmd context_text =
     [system_message GENERAL_CLOUD_JUDGE_SYSTEM_PROMPT,
      user_message (''Inspect and decide whether to auto-approve this command:'' @ [nl] @ fenced (redact_for_cloud cmd)
        @ (if context_text = [] then [] else [nl, nl] @ ''Context:'' @ [nl] @ redact_for_cloud context_text))]"

definition inspector_messages :: "str \<Rightarrow> json list" where
  "inspector_messages cmd =
     [system_message MINIMAL_INSPECTOR_SYSTEM_PROMPT,
      user_message (''Inspect the dynamic parameters of this command before approval:'' @ [nl] @ fenced (redact_for_cloud cmd))]"

definition INSPECTOR_TOOLS :: "json list" where
  "INSPECTOR_TOOLS =
     [JObj [(''type'', JStr ''function''),
       (''function'', JObj [(''name'', JStr ''read_file_content''),
         (''description'', JStr (''Read content of a regular local text file to inspect dynamic parameters before ''
             @ ''command execution. Returns up to 8KB.'')),
         (''parameters'', JObj [(''type'', JStr ''object''),
           (''properties'', JObj [(''file_path'', JObj [(''type'', JStr ''string''),
              (''description'', JStr (''Path to the file to inspect (e.g. '' @ quoted ''safe_list.txt'' @ '')''))])]),
           (''required'', JArr [JStr ''file_path''])])])]]"

text \<open>\<open>d.get(k, default)\<close> where only a missing key gives the default.\<close>

definition jget_or :: "str \<Rightarrow> json \<Rightarrow> json \<Rightarrow> json" where
  "jget_or k d v = (if has_key k v then jget k v else d)"

text \<open>\<open>data["choices"][0]\<close> and its message; \<open>None\<close> is an exception.\<close>

definition first_message :: "json \<Rightarrow> json option" where
  "first_message data =
     (case jget ''choices'' data of
        JArr (c # _) \<Rightarrow>
          if is_obj c \<and> is_obj (jget_or ''message'' (JObj []) c) then Some (jget_or ''message'' (JObj []) c) else None
      | _ \<Rightarrow> None)"

definition ask ::
    "'a judge_world_scheme \<Rightarrow> str \<Rightarrow> json list \<Rightarrow> json list \<Rightarrow> py_exc + json" where
  "ask w effort messages tools =
     (let (endpoint, model, key) = resolve_guard_llm_config (env w) None None None in
      case fst (post_cloud_judge (http w) (jitter w) messages endpoint model key effort tools) of
        Inl e \<Rightarrow> Inl e
      | Inr data \<Rightarrow> (case first_message data of None \<Rightarrow> Inl ExcShape | Some m \<Rightarrow> Inr m))"

subsection \<open>Before the model is asked\<close>

text \<open>The pane memory, then (outside shadow mode) the evaluation cache under the given text.\<close>

definition recall ::
    "'a judge_world_scheme \<Rightarrow> judge_args \<Rightarrow> str \<Rightarrow> str \<Rightarrow> 'b judge_state_scheme \<Rightarrow> (bool \<times> str) option \<times> 'b judge_state_scheme" where
  "recall w a cmd key_text s =
     (case check_approval (sha w) (ja_scope a) cmd (ja_cwd a) (clock w) s of
        (Some (ok, reason, layer), s1) \<Rightarrow> (Some (ok, reason), s1)
      | (None, s1) \<Rightarrow>
          if is_shadow_mode (shadow_env w) then (None, s1)
          else (case get_cached_evaluation (judge_key w a key_text) (clock w) s1 of
                  (Some ((ok, reason, layer, tax), from_memory), s2) \<Rightarrow> (Some (ok, reason), s2)
                | (None, s2) \<Rightarrow> (None, s2)))"

definition cache_cloud_verdict ::
    "'a judge_world_scheme \<Rightarrow> judge_args \<Rightarrow> str \<Rightarrow> str \<Rightarrow> bool \<Rightarrow> str \<Rightarrow> decision_layer \<Rightarrow> 'b judge_state_scheme
       \<Rightarrow> 'b judge_state_scheme" where
  "cache_cloud_verdict w a key_text cmd ok reason layer s =
     (if is_shadow_mode (shadow_env w) \<or> ok then s
      else set_cached_evaluation (judge_key w a key_text)
             (False, reason, layer_value layer,
              taxonomy_fields (derive_taxonomy (shadow_env w) cmd layer False reason (ja_origin a)))
             \<lparr>rc_raw = cmd, rc_cwd = ja_cwd a, rc_scope = ja_scope a, rc_agent = ja_agent a,
              rc_origin = origin_value (ja_origin a), rc_version = ruleset_version w\<rparr>
             (clock w) 3600 s)"

definition remember_verdict ::
    "'a judge_world_scheme \<Rightarrow> judge_args \<Rightarrow> str \<Rightarrow> bool \<Rightarrow> str \<Rightarrow> decision_layer \<Rightarrow> 'b judge_state_scheme \<Rightarrow> 'b judge_state_scheme" where
  "remember_verdict w a cmd ok reason layer s =
     (if ok then record_approval (sha w) (ja_scope a) cmd (layer_value layer) reason (ja_cwd a) (clock w) 3600 s else s)"

subsection \<open>The cloud judge\<close>

definition judge_key_text :: "'a judge_world_scheme \<Rightarrow> str \<Rightarrow> str \<Rightarrow> str" where
  "judge_key_text w cmd context_text =
     ''cj:'' @ cmd @ ''||'' @ context_text @ ''||conf:'' @ show_float w (Fin (min_confidence w))"

definition show_confidence :: "'a judge_world_scheme \<Rightarrow> pyfloat option \<Rightarrow> str" where
  "show_confidence w c = (case c of None \<Rightarrow> ''None'' | Some f \<Rightarrow> show_float w f)"

definition approves :: "rat \<Rightarrow> bool \<times> pyfloat option \<times> str \<Rightarrow> bool" where
  "approves threshold v = (case v of (ok, conf, reason) \<Rightarrow>
     ok \<and> (case conf of None \<Rightarrow> False | Some f \<Rightarrow> f_ge f (Fin threshold)))"

text \<open>The text of a message as it enters an error message: only texts and lists can be cut.\<close>

definition cut_content :: "'a judge_world_scheme \<Rightarrow> json \<Rightarrow> str option" where
  "cut_content w c = (case c of JStr t \<Rightarrow> Some (take 80 t) | JArr xs \<Rightarrow> Some (py_repr w (JArr (take 80 xs))) | _ \<Rightarrow> None)"

definition parse_content :: "'a judge_world_scheme \<Rightarrow> json \<Rightarrow> (bool \<times> pyfloat option \<times> str) option" where
  "parse_content w c = (case c of JStr t \<Rightarrow> parse_json_verdict (py_repr w) t | _ \<Rightarrow> None)"

definition judge_answer ::
    "'a judge_world_scheme \<Rightarrow> judge_args \<Rightarrow> str \<Rightarrow> str \<Rightarrow> py_exc + json \<Rightarrow> 'b judge_state_scheme \<Rightarrow> (bool \<times> str) \<times> 'b judge_state_scheme" where
  "judge_answer w a cmd key_text answer s =
     (case answer of
        Inl e \<Rightarrow> ((False, ''Cloud judge offline ('' @ show_exc w e @ ''); deferred to human''), s)
      | Inr message \<Rightarrow>
          (let content = jget_or ''content'' (JStr []) message in
           case parse_content w content of
             Some v \<Rightarrow>
               (let ok = approves (min_confidence w) v;
                    reason = snd (snd v) @ (if ok then [] else '' (confidence='' @ show_confidence w (fst (snd v))
                      @ '', threshold='' @ show_float w (Fin (min_confidence w)) @ '')'')
                in ((ok, reason),
                    remember_verdict w a cmd ok reason CLOUD_JUDGE (cache_cloud_verdict w a key_text cmd ok reason CLOUD_JUDGE s)))
           | None \<Rightarrow>
               (case cut_content w content of
                  Some t \<Rightarrow> ((False, ''[Cloud Judge] Uncertain verdict: '' @ t @ ''; deferred to human''), s)
                | None \<Rightarrow> ((False, ''Cloud judge offline ('' @ show_exc w ExcShape @ ''); deferred to human''), s))))"

definition audit_with_cloud_judge ::
    "'a judge_world_scheme \<Rightarrow> judge_args \<Rightarrow> str \<Rightarrow> str \<Rightarrow> 'b judge_state_scheme \<Rightarrow> (bool \<times> str) \<times> 'b judge_state_scheme" where
  "audit_with_cloud_judge w a cmd context_text s =
     (let key_text = judge_key_text w cmd context_text in
      case recall w a cmd key_text s of
        (Some v, s1) \<Rightarrow> (v, s1)
      | (None, s1) \<Rightarrow>
          if fst (resolve_guard_llm_config (env w) None None None) = []
          then ((False, ''Cloud judge not configured; deferred to human review''), s1)
          else judge_answer w a cmd key_text (ask w (ja_effort a) (judge_messages cmd context_text) [])
                 (emit_phase ''inspector'' (emit_phase ''gatekeeper'' s1)))"

subsection \<open>The inspector of dynamic substitutions\<close>

definition tool_result :: "'a judge_world_scheme \<Rightarrow> str list \<Rightarrow> str \<Rightarrow> str \<times> str list" where
  "tool_result w visited target =
     (let norm = resolve_path w target in
      if norm \<in> set visited then (''Error: Circular reference loop detected for '' @ quoted norm, visited)
      else (case safe_read_file_content w target 8192 of
              (True, content) \<Rightarrow> (content, norm # visited)
            | (False, content) \<Rightarrow> (''Error: '' @ content, norm # visited)))"

text \<open>One tool call; \<open>None\<close> is an exception.  Calls of other tools are ignored.\<close>

definition tool_call :: "'a judge_world_scheme \<Rightarrow> str list \<Rightarrow> json \<Rightarrow> (json list \<times> str list) option" where
  "tool_call w visited tc =
     (if \<not> is_obj tc \<or> \<not> is_obj (jget_or ''function'' (JObj []) tc) then None
      else (let f = jget_or ''function'' (JObj []) tc;
                args = (case jget_or ''arguments'' (JStr ''{}'') f of
                          JStr t \<Rightarrow> (case json_loads t of Some j \<Rightarrow> j | None \<Rightarrow> JObj []) | _ \<Rightarrow> JObj [])
            in if jget ''name'' f \<noteq> JStr ''read_file_content'' then Some ([], visited)
               else if \<not> is_obj args then None
               else (case jget_or ''file_path'' (JStr []) args of
                       JStr target \<Rightarrow>
                         (let (text, visited') = tool_result w visited target in
                          Some ([JObj [(''role'', JStr ''tool''), (''tool_call_id'', jget_or ''id'' (JStr ''call_1'') tc),
                                       (''content'', JStr (redact_for_cloud text))]], visited'))
                     | _ \<Rightarrow> None)))"

fun tool_calls :: "'a judge_world_scheme \<Rightarrow> str list \<Rightarrow> json list \<Rightarrow> (json list \<times> str list) option" where
  "tool_calls w visited [] = Some ([], visited)"
| "tool_calls w visited (tc # tcs) =
     (case tool_call w visited tc of
        None \<Rightarrow> None
      | Some (ms, v) \<Rightarrow> (case tool_calls w v tcs of None \<Rightarrow> None | Some (ms', v') \<Rightarrow> Some (ms @ ms', v')))"

definition inspector_offline :: "'a judge_world_scheme \<Rightarrow> py_exc \<Rightarrow> bool \<times> str" where
  "inspector_offline w e =
     (False, ''Dynamic substitution detected & cloud judge offline ('' @ show_exc w e @ ''); requires human review'')"

text \<open>
  The conversation, for at most \<open>hops\<close> requests: the verdict if the model gave one, or the
  answer that ends it.
\<close>

fun inspect_hops ::
    "'a judge_world_scheme \<Rightarrow> str \<Rightarrow> nat \<Rightarrow> json list \<Rightarrow> str list \<Rightarrow> (bool \<times> str) + (bool \<times> str)" where
  "inspect_hops w effort 0 messages visited =
     Inl (False, ''Dynamic substitution inspection could not be completed; requires human review'')"
| "inspect_hops w effort (Suc hops) messages visited =
     (case ask w effort messages INSPECTOR_TOOLS of
        Inl e \<Rightarrow> Inl (inspector_offline w e)
      | Inr message \<Rightarrow>
          (let calls = jget_or ''tool_calls'' (JArr []) message in
           if truthy calls then
             (case calls of
                JArr tcs \<Rightarrow>
                  (case tool_calls w visited tcs of
                     None \<Rightarrow> Inl (inspector_offline w ExcShape)
                   | Some (ms, visited') \<Rightarrow> inspect_hops w effort hops (messages @ message # ms) visited')
              | _ \<Rightarrow> Inl (inspector_offline w ExcShape))
           else
             (let content = jget_or ''content'' (JStr []) message in
              case parse_content w content of
                Some (ok, conf, reason) \<Rightarrow> Inr (ok, reason)
              | None \<Rightarrow>
                  (case cut_content w content of
                     Some t \<Rightarrow> Inl (False, ''[Cloud Judge] Uncertain verdict: '' @ t @ ''; delegating to human'')
                   | None \<Rightarrow> Inl (inspector_offline w ExcShape)))))"

definition audit_dynamic_substitution_with_llm ::
    "'a judge_world_scheme \<Rightarrow> judge_args \<Rightarrow> str \<Rightarrow> nat \<Rightarrow> 'b judge_state_scheme \<Rightarrow> (bool \<times> str) \<times> 'b judge_state_scheme" where
  "audit_dynamic_substitution_with_llm w a cmd max_hops s =
     (case recall w a cmd cmd s of
        (Some v, s1) \<Rightarrow> (v, s1)
      | (None, s1) \<Rightarrow>
          if fst (resolve_guard_llm_config (env w) None None None) = []
          then ((False, ''Dynamic command substitution $(cat ...) detected; cloud judge not configured; deferred to human review''), s1)
          else (let s2 = emit_phase ''gatekeeper'' s1 in
                case inspect_hops w (ja_effort a) max_hops (inspector_messages cmd) [] of
                  Inl v \<Rightarrow> (v, emit_phase ''inspector'' s2)
                | Inr (ok, reason) \<Rightarrow>
                    ((ok, reason),
                     emit_phase ''inspector''
                       (remember_verdict w a cmd ok reason LLM_INSPECTOR
                         (cache_cloud_verdict w a cmd cmd ok reason LLM_INSPECTOR s2)))))"

subsection \<open>Only refusals are cached\<close>

definition only_refusals :: "'a eval_store_scheme \<Rightarrow> bool" where
  "only_refusals s \<longleftrightarrow> (\<forall>x \<in> set (lru s). \<not> fst (snd x))
     \<and> (\<forall>k r. eval_key k \<and> map_of (rows s) k = Some r \<longrightarrow> \<not> er_safe r)"

lemma refusalsI:
  assumes "\<And>x. x \<in> set (lru s) \<Longrightarrow> \<not> fst (snd x)"
    and "\<And>k r. eval_key k \<Longrightarrow> map_of (rows s) k = Some r \<Longrightarrow> \<not> er_safe r"
  shows "only_refusals s"
  using assms unfolding only_refusals_def by blast

lemma refusalsD:
  assumes "only_refusals s"
  shows "x \<in> set (lru s) \<Longrightarrow> \<not> fst (snd x)"
    and "eval_key k \<Longrightarrow> map_of (rows s) k = Some r \<Longrightarrow> \<not> er_safe r"
  using assms unfolding only_refusals_def by blast+

lemma refusals_fewer:
  "only_refusals s \<Longrightarrow> set (lru s') \<subseteq> set (lru s) \<Longrightarrow> rows s' = rows s \<Longrightarrow> only_refusals s'"
  unfolding only_refusals_def by auto

lemma check_exact_stores [simp]:
  "check_exact p fp now s = (v, s') \<Longrightarrow> lru s' = lru s" "check_exact p fp now s = (v, s') \<Longrightarrow> rows s' = rows s"
  by (auto simp: check_exact_def split: option.splits if_splits)

lemma check_template_stores [simp]:
  "check_template p t now s = (v, s') \<Longrightarrow> lru s' = lru s" "check_template p t now s = (v, s') \<Longrightarrow> rows s' = rows s"
  by (auto simp: check_template_def split: option.splits if_splits)

lemma check_persistent_stores [simp]:
  "lru (snd (check_persistent p fp c d t now s)) = lru s" "rows (snd (check_persistent p fp c d t now s)) = rows s"
  by (simp_all add: check_persistent_def Let_def split: option.splits)

lemma check_approval_stores [simp]:
  "lru (snd (check_approval hash p c d now s)) = lru s" "rows (snd (check_approval hash p c d now s)) = rows s"
  by (auto simp: check_approval_def Let_def split: option.splits prod.splits)

lemma refusals_check: "only_refusals s \<Longrightarrow> only_refusals (snd (check_approval hash p c d now s))"
  by (erule refusals_fewer) simp_all

lemma pane_mem_key_foreign [simp]: "\<not> eval_key (pane_mem_key p fp)"
  by (simp add: eval_key_def pane_mem_key_def)

lemma refusals_record:
  assumes s: "only_refusals s"
  shows "only_refusals (record_approval hash p c layer reason d now ttl s)"
proof (rule refusalsI)
  show "\<not> fst (snd x)" if "x \<in> set (lru (record_approval hash p c layer reason d now ttl s))" for x
    using refusalsD(1) [OF s, of x] that by (simp add: record_approval_def Let_def)
  show "\<not> er_safe r" if k: "eval_key k" and r: "map_of (rows (record_approval hash p c layer reason d now ttl s)) k = Some r" for k r
  proof -
    from k have "k \<noteq> pane_mem_key (norm_pane p) fp" for fp using pane_mem_key_foreign by blast
    with r have "map_of (rows s) k = Some r" by (simp add: record_approval_def Let_def update_conv)
    with refusalsD(2) [OF s k] show ?thesis .
  qed
qed

lemma set_update_cases: "x \<in> set (AList.update k v xs) \<Longrightarrow> x = (k, v) \<or> x \<in> set xs"
  by (induction xs) (auto split: if_splits)

lemma set_evict: "x \<in> set (evict xs) \<Longrightarrow> x \<in> set xs"
  using evict_suffix [of xs] by (metis in_set_dropD)

lemma set_delete: "set (AList.delete k xs) \<subseteq> set xs"
  by (auto simp: AList.delete_eq)

lemma set_move_to_end: "set (move_to_end k xs) \<subseteq> set xs"
proof (cases "map_of xs k")
  case None
  then show ?thesis by (simp add: move_to_end_def)
next
  case (Some e)
  with map_of_SomeD [OF Some] set_delete [of k xs] show ?thesis by (simp add: move_to_end_def)
qed

lemma mem_of_safe [simp]: "fst (mem_of v t) = fst v"
  by (cases v) (simp add: mem_of_def)

lemma refusals_insert:
  assumes s: "only_refusals s" and u: "set (lru u) \<subseteq> set (lru s)" and v: "\<not> fst v"
    and x: "x \<in> set (AList.update k (mem_of v t) (evict (lru u)))"
  shows "\<not> fst (snd x)"
  using set_update_cases [OF x]
proof
  assume "x = (k, mem_of v t)"
  with v show ?thesis by simp
next
  assume "x \<in> set (evict (lru u))"
  with u have "x \<in> set (lru s)" using set_evict by blast
  then show ?thesis by (rule refusalsD(1) [OF s])
qed

lemma refusals_set:
  assumes s: "only_refusals s" and v: "\<not> fst v"
  shows "only_refusals (set_cached_evaluation k v c now ttl s)"
proof (rule refusalsI)
  show "\<not> fst (snd x)" if "x \<in> set (lru (set_cached_evaluation k v c now ttl s))" for x
  proof -
    from that have "x \<in> set (AList.update k (mem_of v (now + ttl)) (evict (lru s)))"
      using set_move_to_end by (auto simp: set_cached_evaluation_def Let_def)
    then show ?thesis by (rule refusals_insert [OF s order_refl v])
  qed
  show "\<not> er_safe r" if k: "eval_key k'" and r: "map_of (rows (set_cached_evaluation k v c now ttl s)) k' = Some r" for k' r
  proof (cases "k' = k")
    case True
    with r v show ?thesis by (auto simp: set_cached_evaluation_def Let_def update_conv)
  next
    case False
    with r have "map_of (rows s) k' = Some r" by (simp add: set_cached_evaluation_def Let_def update_conv)
    then show ?thesis by (rule refusalsD(2) [OF s k])
  qed
qed

definition refusing :: "((bool \<times> 'r) \<times> 'q) option \<Rightarrow> bool" where
  "refusing r \<longleftrightarrow> (\<forall>x. r = Some x \<longrightarrow> \<not> fst (fst x))"

lemma refusing_simps [simp]: "refusing None" "refusing (Some x) \<longleftrightarrow> \<not> fst (fst x)"
  by (simp_all add: refusing_def)

lemma refusals_fetch:
  assumes s: "only_refusals s" and k: "eval_key k" and u: "rows u = rows s" "set (lru u) \<subseteq> set (lru s)"
  shows "only_refusals (snd (fetch_persistent k now u))
     \<and> refusing (fst (fetch_persistent k now u))"
proof (cases "live_row (rows u) k now")
  case None
  with refusals_fewer [OF s u(2,1)] show ?thesis by (simp add: fetch_persistent_def)
next
  case (Some r)
  then have "map_of (rows s) k = Some r" using u(1) by (auto simp: live_row_def split: option.splits if_splits)
  then have nr: "\<not> er_safe r" by (rule refusalsD(2) [OF s k])
  have "only_refusals (snd (fetch_persistent k now u))"
  proof (rule refusalsI)
    show "\<not> fst (snd x)" if "x \<in> set (lru (snd (fetch_persistent k now u)))" for x
    proof (rule refusals_insert [OF s u(2)])
      show "x \<in> set (AList.update k (mem_of (row_value r) (stamp_time (er_expires r))) (evict (lru u)))"
        using that Some by (simp add: fetch_persistent_def)
      show "\<not> fst (row_value r)" using nr by (simp add: row_value_def)
    qed
    show "\<not> er_safe r'" if k': "eval_key k'" and r': "map_of (rows (snd (fetch_persistent k now u))) k' = Some r'" for k' r'
    proof (cases "k' = k")
      case True
      with r' Some nr show ?thesis by (auto simp: fetch_persistent_def update_conv)
    next
      case False
      with r' Some u(1) have "map_of (rows s) k' = Some r'" by (simp add: fetch_persistent_def update_conv)
      then show ?thesis by (rule refusalsD(2) [OF s k'])
    qed
  qed
  with Some nr show ?thesis by (simp add: fetch_persistent_def row_value_def)
qed

lemma refusals_get:
  assumes s: "only_refusals s" and k: "eval_key k"
  shows "only_refusals (snd (get_cached_evaluation k now s))
     \<and> refusing (fst (get_cached_evaluation k now s))"
proof (cases "map_of (lru s) k")
  case None
  then have "get_cached_evaluation k now s = fetch_persistent k now s" by (simp add: get_cached_evaluation_def)
  show ?thesis unfolding \<open>get_cached_evaluation k now s = fetch_persistent k now s\<close>
    by (rule refusals_fetch [OF s k refl order_refl])
next
  case (Some e)
  from refusalsD(1) [OF s map_of_SomeD [OF Some]] have "\<not> fst (mem_value e)"
    by (simp add: mem_value_def case_prod_unfold)
  moreover have "only_refusals (s\<lparr>lru := move_to_end k (lru s)\<rparr>)"
    by (rule refusals_fewer [OF s]) (simp_all add: set_move_to_end)
  moreover note refusals_fetch [OF s k, of "s\<lparr>lru := AList.delete k (lru s)\<rparr>" now]
  ultimately show ?thesis using Some set_delete [of k "lru s"] by (simp add: get_cached_evaluation_def)
qed

lemma refusals_recall:
  assumes s: "only_refusals s" and sha: "\<And>x. CHR '':'' \<notin> set (sha w x)"
  shows "only_refusals (snd (recall w a cmd key_text s))
     \<and> (\<forall>v. fst (recall w a cmd key_text s) = Some v \<and> fst v \<longrightarrow>
          fst (check_approval (sha w) (ja_scope a) cmd (ja_cwd a) (clock w) s) \<noteq> None)"
proof -
  obtain v1 s1 where c: "check_approval (sha w) (ja_scope a) cmd (ja_cwd a) (clock w) s = (v1, s1)"
    by (cases "check_approval (sha w) (ja_scope a) cmd (ja_cwd a) (clock w) s")
  from refusals_check [OF s, of "sha w" "ja_scope a" cmd "ja_cwd a" "clock w"] c have s1: "only_refusals s1" by simp
  have k: "eval_key (judge_key w a key_text)" using sha by (simp add: eval_key_def judge_key_def compute_cache_key_def)
  obtain v2 s2 where g: "get_cached_evaluation (judge_key w a key_text) (clock w) s1 = (v2, s2)"
    by (cases "get_cached_evaluation (judge_key w a key_text) (clock w) s1")
  from refusals_get [OF s1 k, of "clock w"] g have s2: "only_refusals s2" "refusing v2" by auto
  show ?thesis
  proof (cases v1)
    case (Some x)
    with c s1 show ?thesis by (simp add: recall_def split: prod.split)
  next
    case None
    with c s1 s2 g show ?thesis
      by (cases v2) (auto simp: recall_def split: prod.splits if_splits)
  qed
qed

lemma refusals_phase: "only_refusals s \<Longrightarrow> only_refusals (emit_phase p s)"
  by (erule refusals_fewer) (simp_all add: emit_phase_def)

lemma refusals_remember: "only_refusals s \<Longrightarrow> only_refusals (remember_verdict w a cmd ok reason layer s)"
  by (simp add: remember_verdict_def refusals_record)

lemma refusals_cache: "only_refusals s \<Longrightarrow> only_refusals (cache_cloud_verdict w a key_text cmd ok reason layer s)"
  by (simp add: cache_cloud_verdict_def refusals_set)

subsection \<open>What an approval of the judge rests on\<close>

text \<open>A response of one of the ten attempts, whose verdict says safe with enough confidence.\<close>

definition confident_response :: "'a judge_world_scheme \<Rightarrow> judge_args \<Rightarrow> json list \<Rightarrow> bool" where
  "confident_response w a messages \<longleftrightarrow>
     (let (endpoint, model, key) = resolve_guard_llm_config (env w) None None None in
      endpoint \<noteq> [] \<and>
      (\<exists>n data m t c reason. 1 \<le> n \<and> n \<le> MAX_ADAPTIVE_RETRIES
         \<and> http w (request_body messages model (ja_effort a) []) endpoint (request_headers key) n = HttpOk data
         \<and> first_message data = Some m \<and> jget_or ''content'' (JStr []) m = JStr t
         \<and> parse_json_verdict (py_repr w) t = Some (True, Some (Fin c), reason) \<and> min_confidence w \<le> c \<and> c \<le> 1))"

lemma ask_response:
  assumes "ask w effort messages tools = Inr m"
    and "resolve_guard_llm_config (env w) None None None = (endpoint, model, key)"
  shows "\<exists>n data. 1 \<le> n \<and> n \<le> MAX_ADAPTIVE_RETRIES
     \<and> http w (request_body messages model effort tools) endpoint (request_headers key) n = HttpOk data
     \<and> first_message data = Some m"
proof -
  obtain r es where r: "post_cloud_judge (http w) (jitter w) messages endpoint model key effort tools = (r, es)"
    by (cases "post_cloud_judge (http w) (jitter w) messages endpoint model key effort tools")
  with assms obtain data where d: "r = Inr data" "first_message data = Some m"
    by (auto simp: ask_def Let_def split: sum.splits option.splits)
  with r have "post_attempts (http w (request_body messages model effort tools) endpoint (request_headers key)) (jitter w) 1
      MAX_ADAPTIVE_RETRIES = (Inr data, es)"
    by (simp add: post_cloud_judge_def)
  from post_attempts_Inr [OF this] d(2) show ?thesis by fastforce
qed

lemma approves_confidence:
  assumes "parse_content w content = Some v" and "approves threshold v"
  obtains t c reason where "content = JStr t" "parse_json_verdict (py_repr w) t = Some (True, Some (Fin c), reason)"
    "threshold \<le> c" "c \<le> 1"
proof -
  from assms(1) obtain t where t: "content = JStr t" "parse_json_verdict (py_repr w) t = Some v"
    by (cases content) (auto simp: parse_content_def)
  from assms(2) obtain conf reason where v: "v = (True, Some conf, reason)" "f_ge conf (Fin threshold)"
    by (cases v) (auto simp: approves_def split: option.splits)
  with t verdict_confidence obtain c where "conf = Fin c" "c \<le> 1" by blast
  with t v that show ?thesis by simp
qed

lemma judge_answer_sound:
  assumes s: "only_refusals s"
  shows "only_refusals (snd (judge_answer w a cmd key_text answer s))
     \<and> (fst (fst (judge_answer w a cmd key_text answer s)) \<longrightarrow>
          (\<exists>m v. answer = Inr m \<and> parse_content w (jget_or ''content'' (JStr []) m) = Some v \<and> approves (min_confidence w) v))"
proof (cases answer)
  case (Inl e)
  with s show ?thesis by (simp add: judge_answer_def)
next
  case (Inr m)
  show ?thesis
  proof (cases "parse_content w (jget_or ''content'' (JStr []) m)")
    case None
    with s Inr show ?thesis by (simp add: judge_answer_def split: option.split)
  next
    case (Some v)
    with s Inr have "only_refusals (snd (judge_answer w a cmd key_text answer s))"
      and "fst (fst (judge_answer w a cmd key_text answer s)) = approves (min_confidence w) v"
      by (simp_all add: judge_answer_def Let_def refusals_remember refusals_cache)
    with Inr Some show ?thesis by blast
  qed
qed

lemma cloud_judge_sound:
  assumes s: "only_refusals s" and sha: "\<And>x. CHR '':'' \<notin> set (sha w x)"
  shows "only_refusals (snd (audit_with_cloud_judge w a cmd ctx s))
     \<and> (fst (fst (audit_with_cloud_judge w a cmd ctx s)) \<longrightarrow>
          fst (check_approval (sha w) (ja_scope a) cmd (ja_cwd a) (clock w) s) \<noteq> None
          \<or> confident_response w a (judge_messages cmd ctx))"
proof -
  obtain v1 s1 where r: "recall w a cmd (judge_key_text w cmd ctx) s = (v1, s1)"
    by (cases "recall w a cmd (judge_key_text w cmd ctx) s")
  from refusals_recall [OF s sha, of a cmd "judge_key_text w cmd ctx"] r
  have s1: "only_refusals s1" and v1: "\<And>v. v1 = Some v \<Longrightarrow> fst v \<Longrightarrow>
      fst (check_approval (sha w) (ja_scope a) cmd (ja_cwd a) (clock w) s) \<noteq> None"
    by auto
  show ?thesis
  proof (cases v1)
    case (Some v)
    with r s1 v1 show ?thesis by (simp add: audit_with_cloud_judge_def)
  next
    case None
    obtain endpoint model key where cfg: "resolve_guard_llm_config (env w) None None None = (endpoint, model, key)"
      by (cases "resolve_guard_llm_config (env w) None None None")
    show ?thesis
    proof (cases "endpoint = []")
      case True
      with None r s1 cfg show ?thesis by (simp add: audit_with_cloud_judge_def)
    next
      case False
      let ?ans = "ask w (ja_effort a) (judge_messages cmd ctx) []"
      let ?s2 = "emit_phase ''inspector'' (emit_phase ''gatekeeper'' s1)"
      have eq: "audit_with_cloud_judge w a cmd ctx s = judge_answer w a cmd (judge_key_text w cmd ctx) ?ans ?s2"
        using None r cfg False by (simp add: audit_with_cloud_judge_def Let_def)
      note snd = judge_answer_sound [OF refusals_phase [OF refusals_phase [OF s1]], of w a cmd "judge_key_text w cmd ctx" ?ans]
      have "confident_response w a (judge_messages cmd ctx)"
        if "?ans = Inr m" "parse_content w (jget_or ''content'' (JStr []) m) = Some v" "approves (min_confidence w) v" for m v
      proof -
        from ask_response [OF that(1) cfg] obtain n data where n: "1 \<le> n" "n \<le> MAX_ADAPTIVE_RETRIES"
            "http w (request_body (judge_messages cmd ctx) model (ja_effort a) []) endpoint (request_headers key) n = HttpOk data"
            "first_message data = Some m"
          by blast
        from approves_confidence [OF that(2,3)] obtain t c reason where
          "jget_or ''content'' (JStr []) m = JStr t" "parse_json_verdict (py_repr w) t = Some (True, Some (Fin c), reason)"
          "min_confidence w \<le> c" "c \<le> 1" .
        with n False cfg show ?thesis unfolding confident_response_def by auto
      qed
      with snd show ?thesis unfolding eq by blast
    qed
  qed
qed

lemma emit_phase_select [simp]:
  "exact (emit_phase ph s) = exact s" "templates (emit_phase ph s) = templates s"
  "rows (emit_phase ph s) = rows s" "lru (emit_phase ph s) = lru s"
  by (simp_all add: emit_phase_def)

lemma emit_phase_update [simp]:
  "(emit_phase ph s)\<lparr>exact := x\<rparr> = emit_phase ph (s\<lparr>exact := x\<rparr>)"
  "(emit_phase ph s)\<lparr>templates := y\<rparr> = emit_phase ph (s\<lparr>templates := y\<rparr>)"
  by (simp_all add: emit_phase_def)

lemma check_exact_emit: "check_exact p fp t (emit_phase ph s) = (fst (check_exact p fp t s), emit_phase ph (snd (check_exact p fp t s)))"
  by (cases "map_of (exact s) (p, fp)") (simp_all add: check_exact_def)

lemma check_template_emit:  "check_template p tm t (emit_phase ph s) = (fst (check_template p tm t s), emit_phase ph (snd (check_template p tm t s)))"
  by (cases tm) (simp_all add: check_template_def split: option.split)

lemma check_persistent_emit:  "check_persistent p fp c d tm t (emit_phase ph s)
     = (fst (check_persistent p fp c d tm t s), emit_phase ph (snd (check_persistent p fp c d tm t s)))"
  by (cases "map_of (rows s) (pane_mem_key p fp)") (simp_all add: check_persistent_def Let_def)

lemma inspect_emit [simp]:
  "check_approval hash p c d t (emit_phase ph s) =
     (fst (check_approval hash p c d t s), emit_phase ph (snd (check_approval hash p c d t s)))"
proof -
  let ?fp = "normalize_cmd_fingerprint hash c d" and ?t = "extract_safe_command_template c"
  obtain v1 s1 where e1: "check_exact (norm_pane p) ?fp t s = (v1, s1)" by (cases "check_exact (norm_pane p) ?fp t s")
  obtain v2 s2 where e2: "check_template (norm_pane p) ?t t s1 = (v2, s2)" by (cases "check_template (norm_pane p) ?t t s1")
  show ?thesis
    using e1 e2 by (cases v1; cases v2) (simp_all add: check_approval_def Let_def check_exact_emit check_template_emit check_persistent_emit)
qed

subsection \<open>Properties\<close>

text \<open>
  C29: A judgment is approved for a reason.  When the caches hold refusals only - which every
  judgment keeps - the cloud judge approves a command only if the memory of this pane recalls
  an approval of it, or if one of at most ten attempts brought a response whose verdict says
  safe with a confidence between the threshold and one.  Every failure is a refusal.
\<close>

theorem cloud_approval_is_justified:
  assumes "\<And>x. CHR '':'' \<notin> set (sha w x)" and "only_refusals s"
    and "audit_with_cloud_judge w a cmd ctx s = ((ok, reason), s')"
  shows "only_refusals s' \<and> (ok \<longrightarrow>
     fst (check_approval (sha w) (ja_scope a) cmd (ja_cwd a) (clock w) s) \<noteq> None
     \<or> confident_response w a (judge_messages cmd ctx))"
  using cloud_judge_sound [OF assms(2,1), of a cmd ctx] assms(3) by simp

definition judge_demo :: "bool \<Rightarrow> str \<Rightarrow> judge_world" where
  "judge_demo online answer = py_world.extend py_demo
     \<lparr>env = (\<lambda>k. if online \<and> k = ''OPENAI_API_KEY'' then Some ''k'' else None), sha = (\<lambda>x. ''h''),
      http = (\<lambda>body url hdr n. HttpOk (JObj [(''choices'', JArr [JObj [(''message'', JObj [(''content'', JStr answer)])]])])),
      jitter = (\<lambda>n. 0), show_exc = (\<lambda>e. ''error''), show_float = (\<lambda>f. ''0.9''), py_repr = (\<lambda>v. ''?''),
      ruleset_version = ''v1'', min_confidence = 9 / 10, clock = 100\<rparr>"

definition judge_args_demo :: judge_args where
  "judge_args_demo = \<lparr>ja_cwd = [], ja_scope = ''p1'', ja_agent = ''a'', ja_origin = AGENT, ja_origin_text = ''A'', ja_effort = ''low''\<rparr>"

definition judge_state_demo :: judge_state where
  "judge_state_demo = \<lparr>lru = [], rows = [], exact = [], templates = [], phases = []\<rparr>"

theorem cloud_approval_is_justified_witness:
  "only_refusals (snd (audit_with_cloud_judge (judge_demo False []) judge_args_demo ''make'' [] judge_state_demo))"
proof -
  obtain ok reason s' where
    eq: "audit_with_cloud_judge (judge_demo False []) judge_args_demo ''make'' [] judge_state_demo = ((ok, reason), s')"
    by (metis prod.collapse)
  have "only_refusals s' \<and> (ok \<longrightarrow>
     fst (check_approval (sha (judge_demo False [])) (ja_scope judge_args_demo) ''make'' (ja_cwd judge_args_demo)
       (clock (judge_demo False [])) judge_state_demo) \<noteq> None
     \<or> confident_response (judge_demo False []) judge_args_demo (judge_messages ''make'' []))"
    by (rule cloud_approval_is_justified [OF _ _ eq])
       (simp_all add: judge_demo_def py_world.extend_def only_refusals_def judge_state_demo_def)
  with eq show ?thesis by simp
qed

text \<open>
  The retry loop is bounded: at most ten attempts, numbered from one without a gap, and less
  than ten seconds of sleep for each attempt but the first; what it returns is the response of
  one of these attempts.
\<close>

lemma retries_are_bounded:
  assumes "\<And>n. jit n \<le> 1 / 20" and "post_cloud_judge net jit messages endpoint model key effort tools = (r, es)"
  shows "length (tries es) \<le> MAX_ADAPTIVE_RETRIES \<and> prefix (tries es) [1..<11] \<and> sleeps es \<le> 90
     \<and> (\<forall>data. r = Inr data \<longrightarrow> (\<exists>n. 1 \<le> n \<and> n \<le> 10
          \<and> net (request_body messages model effort tools) endpoint (request_headers key) n = HttpOk data))"
proof -
  let ?h = "net (request_body messages model effort tools) endpoint (request_headers key)"
  from assms(2) have p: "post_attempts ?h jit 1 MAX_ADAPTIVE_RETRIES = (r, es)" by (simp add: post_cloud_judge_def)
  from post_attempts_bounds [OF assms(1) p] have "length (tries es) \<le> MAX_ADAPTIVE_RETRIES \<and> prefix (tries es) [1..<11] \<and> sleeps es \<le> 90"
    by (simp add: MAX_ADAPTIVE_RETRIES_def)
  moreover have "\<exists>n. 1 \<le> n \<and> n \<le> 10 \<and> ?h n = HttpOk data" if "r = Inr data" for data
  proof -
    from post_attempts_Inr [OF p [unfolded that]] obtain n where "1 \<le> n" "n < 1 + MAX_ADAPTIVE_RETRIES" "?h n = HttpOk data"
      by blast
    then show ?thesis by (intro exI [of _ n]) (simp add: MAX_ADAPTIVE_RETRIES_def)
  qed
  ultimately show ?thesis by blast
qed

lemma retries_are_bounded_witness:
  "sleeps (snd (post_cloud_judge (\<lambda>b u h n. if n < 3 then HttpStatus 429 (Some ''7'') else HttpOk (JObj [])) (\<lambda>n. 0) [] [] [] [] [] [])) \<le> 90"
  using retries_are_bounded [where jit = "\<lambda>n. 0" and r = "fst X" and es = "snd X" for X, OF _ prod.collapse [symmetric]] by auto

text \<open>
  The inspector's verdict skips the confidence gate.  The inspector asks for no confidence,
  but it records its approvals in the memory of the pane, which the cloud judge consults first:
  what the inspector approved once, the cloud judge approves from memory, for any context, any
  response of the model and any threshold.
\<close>

lemma inspector_verdict_skips_confidence:
  assumes "\<And>x. CHR '':'' \<notin> set (sha w x)" and "only_refusals s"
    and "fst (check_approval (sha w) (ja_scope a) cmd (ja_cwd a) (clock w) s) = None"
    and "audit_dynamic_substitution_with_llm w a cmd hops s = ((True, reason), s')"
    and "ja_scope b = ja_scope a" and "ja_cwd b = ja_cwd a"
  shows "fst (fst (audit_with_cloud_judge w b cmd ctx s'))"
proof -
  obtain v1 s1 where r: "recall w a cmd cmd s = (v1, s1)" by (cases "recall w a cmd cmd s")
  from refusals_recall [OF assms(2,1), of a cmd cmd] r assms(3) have no: "\<not> fst v" if "v1 = Some v" for v
    using that by auto
  with assms(4) r have v1: "v1 = None"
    by (cases v1) (auto simp: audit_dynamic_substitution_with_llm_def)
  let ?s2 = "emit_phase ''gatekeeper'' s1"
  have "s' = emit_phase ''inspector'' (record_approval (sha w) (ja_scope a) cmd (layer_value LLM_INSPECTOR) reason (ja_cwd a)
      (clock w) 3600 ?s2)"
  proof (cases "fst (resolve_guard_llm_config (env w) None None None) = []")
    case True
    with assms(4) r v1 show ?thesis by (simp add: audit_dynamic_substitution_with_llm_def)
  next
    case False
    have inl: "\<not> fst v" if "inspect_hops w eff n messages visited = Inl v" for eff n messages visited v
      using that
      by (induction n arbitrary: messages visited)
         (auto simp: inspector_offline_def Let_def split: sum.splits if_splits json.splits option.splits)
    have "inspect_hops w (ja_effort a) hops (inspector_messages cmd) [] = Inr (True, reason)"
    proof (cases "inspect_hops w (ja_effort a) hops (inspector_messages cmd) []")
      case (Inl v)
      with inl [OF Inl] assms(4) r v1 False show ?thesis by (auto simp: audit_dynamic_substitution_with_llm_def Let_def)
    next
      case (Inr v)
      with assms(4) r v1 False show ?thesis by (cases v) (simp add: audit_dynamic_substitution_with_llm_def Let_def)
    qed
    with assms(4) r v1 False show ?thesis
      by (simp add: audit_dynamic_substitution_with_llm_def remember_verdict_def cache_cloud_verdict_def)
  qed
  then have "fst (check_approval (sha w) (ja_scope b) cmd (ja_cwd b) (clock w) s') \<noteq> None"
    by (simp add: assms(5,6) recorded_is_recalled)
  then obtain ok reason' layer' s2 where hit: "check_approval (sha w) (ja_scope b) cmd (ja_cwd b) (clock w) s' = (Some (ok, reason', layer'), s2)"
    by (cases "check_approval (sha w) (ja_scope b) cmd (ja_cwd b) (clock w) s'") auto
  have "ok" using check_approval_ok [of "sha w" "ja_scope b" cmd "ja_cwd b" "clock w" s'] hit by simp
  with hit show ?thesis by (simp add: audit_with_cloud_judge_def recall_def)
qed

definition safe_reply :: str where
  \<open>safe_reply = ''{"is_safe": true}''\<close>

lemma inspector_verdict_skips_confidence_witness:
  "fst (fst (audit_with_cloud_judge (judge_demo True safe_reply) judge_args_demo ''make'' []
     (snd (audit_dynamic_substitution_with_llm (judge_demo True safe_reply) judge_args_demo ''make'' 2 judge_state_demo))))"
proof (rule inspector_verdict_skips_confidence)
  show "fst (check_approval (sha (judge_demo True safe_reply)) (ja_scope judge_args_demo) ''make'' (ja_cwd judge_args_demo)
      (clock (judge_demo True safe_reply)) judge_state_demo) = None"
    by code_simp
  have "fst (fst (audit_dynamic_substitution_with_llm (judge_demo True safe_reply) judge_args_demo ''make'' 2 judge_state_demo))"
    by code_simp
  then show "audit_dynamic_substitution_with_llm (judge_demo True safe_reply) judge_args_demo ''make'' 2 judge_state_demo
      = ((True, snd (fst (audit_dynamic_substitution_with_llm (judge_demo True safe_reply) judge_args_demo ''make'' 2 judge_state_demo))),
         snd (audit_dynamic_substitution_with_llm (judge_demo True safe_reply) judge_args_demo ''make'' 2 judge_state_demo))"
    by (metis (full_types) prod.collapse)
qed (simp_all add: judge_demo_def py_world.extend_def only_refusals_def judge_state_demo_def)

definition careless_reply :: str where
  \<open>careless_reply = ''{"is_safe": "false", "confidence": NaN}''\<close>

text \<open>
  The parser of verdicts is too tolerant: a reply that says \<open>"false"\<close> as a text and has no
  number for a confidence is an approval with full confidence, because any non-empty text is
  true and NaN is clamped to one.
\<close>

lemma careless_reply_approves:
  "case parse_json_verdict r careless_reply of None \<Rightarrow> False | Some v \<Rightarrow> approves 1 v"
proof -
  have j: "json_loads (strip_fences careless_reply) = Some (JObj [(''is_safe'', JStr ''false''), (''confidence'', JFloat NaN)])"
    by code_simp
  show ?thesis
    by (simp add: parse_json_verdict_def j verdict_of_json_def Let_def py_max_def py_min_def approves_def has_key_def)
qed

end
