(* ===== verification/WorkspaceAllowlist.thy ===== *)
theory WorkspaceAllowlist
  imports Substitution PyJson "HOL-Library.List_Lexorder"
begin

text \<open>
  The allowlist that a workspace keeps in \<open>.schengen/allowlist.json\<close>
  (\<open>scripts/core/workspace_allowlist.py\<close>): its discovery, the memoised load, the matching of
  rules, promotion and revocation.  Policy files are texts with a modification time; an
  exception of the source is \<open>None\<close>.  Agent scopes are lists of texts.
\<close>

subsection \<open>Discovery\<close>

definition join_path :: "str \<Rightarrow> str \<Rightarrow> str" where
  "join_path d name = (if d = ''/'' then d @ name else d @ ''/'' @ name)"

definition git_toplevel :: "'a file_world_scheme \<Rightarrow> str \<Rightarrow> str option" where
  "git_toplevel w start =
     (case git w start [''rev-parse'', ''--show-toplevel''] of
        Some (rc, out) \<Rightarrow> if rc = 0 \<and> strip out \<noteq> [] then Some (resolve_path w (strip out)) else None
      | None \<Rightarrow> None)"

definition discovery_bound :: "'a file_world_scheme \<Rightarrow> str \<Rightarrow> str" where
  "discovery_bound w start = (case git_toplevel w start of Some d \<Rightarrow> d | None \<Rightarrow> resolve_path w ''~'')"

definition path_within :: "str \<Rightarrow> str \<Rightarrow> bool" where
  "path_within d p \<longleftrightarrow> p = d \<or> starts_with p (d @ ''/'')"

text \<open>The walk from a directory through its parents.\<close>

fun walk_up :: "'a file_world_scheme \<Rightarrow> str \<Rightarrow> str list \<Rightarrow> str option" where
  "walk_up w bound [] = None"
| "walk_up w bound (cur # ups) =
     (if is_dir w (join_path cur ''.schengen'') then Some (join_path cur ''.schengen'' @ ''/allowlist.json'')
      else if resolve_path w cur = resolve_path w bound then None
      else (case ups of
          [] \<Rightarrow> None
        | up # _ \<Rightarrow> if path_within (resolve_path w bound) (resolve_path w up) then walk_up w bound ups else None))"

definition walk_start :: "'a file_world_scheme \<Rightarrow> str \<Rightarrow> str" where
  "walk_start w cwd =
     (let start = resolve_path w (strip cwd) in
      if \<not> is_dir w start \<and> path_exists w start then parent_dir start else start)"

definition discover_workspace_policy :: "'a file_world_scheme \<Rightarrow> str \<Rightarrow> str option" where
  "discover_workspace_policy w cwd =
     (if cwd = [] then None
      else (let start = walk_start w cwd in walk_up w (discovery_bound w start) (ancestors start)))"

subsection \<open>Policy files\<close>

record policy_file =
  pf_mtime :: int
  pf_text :: str

record policy_store =
  policy_files :: "(str \<times> policy_file) list"
  policy_memo :: "(str \<times> (int \<times> json option)) list"

definition MAX_POLICY_BYTES :: nat where
  "MAX_POLICY_BYTES = 256 * 1024"

definition policy_root :: "'a file_world_scheme \<Rightarrow> str \<Rightarrow> str" where
  "policy_root w path = resolve_path w (parent_dir (parent_dir path))"

text \<open>What the text of a policy stands for; the declared root is always replaced.\<close>

definition parse_policy :: "'a file_world_scheme \<Rightarrow> str \<Rightarrow> str \<Rightarrow> json option" where
  "parse_policy w path text =
     (if length text > MAX_POLICY_BYTES then None
      else (case json_loads text of
          Some (JObj ms) \<Rightarrow> Some (JObj (AList.update ''workspace_root'' (JStr (policy_root w path)) ms))
        | _ \<Rightarrow> None))"

definition load_policy :: "'a file_world_scheme \<Rightarrow> str \<Rightarrow> 'b policy_store_scheme \<Rightarrow> json option \<times> 'b policy_store_scheme" where
  "load_policy w path s =
     (case map_of (policy_files s) path of
        None \<Rightarrow> (None, s)
      | Some f \<Rightarrow>
          (case map_of (policy_memo s) path of
             Some (m, parsed) \<Rightarrow>
               if m = pf_mtime f then (parsed, s)
               else (parse_policy w path (pf_text f),
                     s\<lparr>policy_memo := AList.update path (pf_mtime f, parse_policy w path (pf_text f)) (policy_memo s)\<rparr>)
           | None \<Rightarrow> (parse_policy w path (pf_text f),
                     s\<lparr>policy_memo := AList.update path (pf_mtime f, parse_policy w path (pf_text f)) (policy_memo s)\<rparr>)))"

subsection \<open>Rules\<close>

definition denylist_blocks :: "'a file_world_scheme \<Rightarrow> json \<Rightarrow> str \<Rightarrow> bool" where
  "denylist_blocks w action canonical =
     (if re_found SENSITIVE_FILE_PATTERN canonical \<or> re_found SENSITIVE_DIRECTORY_PATTERN canonical then True
      else if re_found BROAD_WILDCARD_RE canonical then True
      else if action = JStr ''exec'' then
        list_ex (\<lambda>tok. starts_with tok ''/'' \<or> starts_with tok ''~/'') (split_ws canonical)
      else if canonical = ''/'' \<or> canonical = ''//'' then True
      else classify_resource_tier w canonical = T4_CRITICAL)"

definition is_overbroad_pattern :: "str \<Rightarrow> bool" where
  "is_overbroad_pattern pattern =
     (let p = strip pattern; lowered = str_lower p in
      if p = [] then True
      else if lowered \<in> {''**'', ''/'', ''//'', ''/*'', ''*'', ''.*'', ''~'', ''~/'', ''/**'', ''.'', ''..''} then True
      else if ends_with p ''/**'' \<or> ends_with p ''/*'' \<or> ends_with p ''/.*'' then True
      else starts_with lowered ''**'')"

text \<open>\<open>fnmatch\<close>: stars, question marks and character sets, over the whole text.\<close>

datatype glob_token = GStar | GAny | GChar char | GSet bool "(char \<times> char) list"

fun set_ranges :: "str \<Rightarrow> (char \<times> char) list" where
  "set_ranges [] = []"
| "set_ranges [a] = [(a, a)]"
| "set_ranges [a, b] = [(a, a), (b, b)]"
| "set_ranges (a # b # c # rest) =
     (if b = CHR ''-'' then (a, c) # set_ranges rest else (a, a) # set_ranges (b # c # rest))"

text \<open>The body of a set and what follows it; a closing bracket at the front belongs to the body.\<close>

definition set_body :: "str \<Rightarrow> (str \<times> str) option" where
  "set_body s =
     (let bang = (if starts_with s ''!'' then ''!'' else []); t = drop (length bang) s;
          front = (if starts_with t '']'' then '']'' else []); u = drop (length front) t
      in case split_once (CHR '']'') u of
           None \<Rightarrow> None
         | Some (b, rest) \<Rightarrow> Some (bang @ front @ b, rest))"

function glob_tokens :: "str \<Rightarrow> glob_token list" where
  "glob_tokens s =
     (case s of
        [] \<Rightarrow> []
      | c # cs \<Rightarrow>
          if c = CHR ''*'' then GStar # glob_tokens cs
          else if c = CHR ''?'' then GAny # glob_tokens cs
          else if c = CHR ''['' then
            (case set_body cs of
               None \<Rightarrow> GChar c # glob_tokens cs
             | Some (b, rest) \<Rightarrow>
                 (if starts_with b ''!'' then GSet True (set_ranges (tl b)) else GSet False (set_ranges b))
                 # glob_tokens (if length rest < length s then rest else []))
          else GChar c # glob_tokens cs)"
  by pat_completeness auto
termination
  by (relation "measure length") (auto split: if_splits)

declare glob_tokens.simps [simp del]

fun glob_match :: "glob_token list \<Rightarrow> str \<Rightarrow> bool" where
  "glob_match [] s = (s = [])"
| "glob_match (GStar # ts) [] = glob_match ts []"
| "glob_match (GStar # ts) (c # cs) = (glob_match ts (c # cs) \<or> glob_match (GStar # ts) cs)"
| "glob_match (GAny # ts) s = (case s of [] \<Rightarrow> False | c # cs \<Rightarrow> glob_match ts cs)"
| "glob_match (GChar d # ts) s = (case s of [] \<Rightarrow> False | c # cs \<Rightarrow> c = d \<and> glob_match ts cs)"
| "glob_match (GSet neg rs # ts) s =
     (case s of [] \<Rightarrow> False
      | c # cs \<Rightarrow> (list_ex (\<lambda>(lo, hi). lo \<le> c \<and> c \<le> hi) rs \<noteq> neg) \<and> glob_match ts cs)"

definition fnmatch :: "str \<Rightarrow> str \<Rightarrow> bool" where
  "fnmatch name pattern = glob_match (glob_tokens pattern) name"

definition matches_rule :: "str \<Rightarrow> json \<Rightarrow> str \<Rightarrow> bool" where
  "matches_rule canonical mt pat =
     (if mt = JStr ''exact'' then canonical = pat
      else if mt = JStr ''prefix'' then
        (let base = rstrip_chars ''/'' pat in canonical = pat \<or> canonical = base \<or> starts_with canonical (base @ ''/''))
      else if mt = JStr ''glob'' then fnmatch canonical pat
      else False)"

fun match_rules :: "json \<Rightarrow> str \<Rightarrow> json list \<Rightarrow> bool option" where
  "match_rules action canonical [] = Some False"
| "match_rules action canonical (r # rs) =
     (if \<not> is_obj r then None
      else if jget ''action_type'' r \<noteq> action then match_rules action canonical rs
      else if \<not> truthy (jget ''pattern'' r) then match_rules action canonical rs
      else (case jget ''pattern'' r of
          JStr pat \<Rightarrow>
            if is_overbroad_pattern pat then match_rules action canonical rs
            else if matches_rule canonical (jget ''match_type'' r) pat then Some True
            else match_rules action canonical rs
        | _ \<Rightarrow> None))"

definition policy_ws_root :: "json \<Rightarrow> str" where
  "policy_ws_root policy = rstrip_chars ''/'' (case jget ''workspace_root'' policy of JStr r \<Rightarrow> r | _ \<Rightarrow> [])"

definition rule_target :: "'a file_world_scheme \<Rightarrow> str \<Rightarrow> str \<Rightarrow> str" where
  "rule_target w action target = (if action = ''exec'' then strip target else resolve_path w target)"

definition check_rule :: "'a file_world_scheme \<Rightarrow> json \<Rightarrow> str \<Rightarrow> str \<Rightarrow> bool option" where
  "check_rule w policy action target =
     (let rules = jget ''rules'' policy; canonical = rule_target w action target; ws = policy_ws_root policy in
      if \<not> truthy rules then Some False
      else if denylist_blocks w (JStr action) canonical then Some False
      else if ws = [] \<or> is_overbroad_pattern ws then Some False
      else if action \<noteq> ''exec'' \<and> canonical \<noteq> ws \<and> \<not> starts_with canonical (ws @ ''/'') then Some False
      else (case rules of JArr rs \<Rightarrow> match_rules (JStr action) canonical rs | _ \<Rightarrow> None))"

subsection \<open>Promotion and revocation\<close>

definition write_policy ::
    "(rat \<Rightarrow> str) \<Rightarrow> str \<Rightarrow> json \<Rightarrow> int \<Rightarrow> 'b policy_store_scheme \<Rightarrow> 'b policy_store_scheme" where
  "write_policy fr path policy now s =
     s\<lparr>policy_files := AList.update path \<lparr>pf_mtime = now, pf_text = json_dumps fr policy\<rparr> (policy_files s),
       policy_memo := AList.delete path (policy_memo s)\<rparr>"

text \<open>\<open>sorted(scope or ["*"])\<close>.\<close>

definition sorted_scope :: "json \<Rightarrow> str list option" where
  "sorted_scope v =
     (if \<not> truthy v then Some [''*'']
      else (case v of
          JArr xs \<Rightarrow> if list_all (\<lambda>x. case x of JStr _ \<Rightarrow> True | _ \<Rightarrow> False) xs
                     then Some (sort (map (\<lambda>x. case x of JStr t \<Rightarrow> t | _ \<Rightarrow> []) xs)) else None
        | _ \<Rightarrow> None))"

definition same_rule :: "json \<Rightarrow> json \<Rightarrow> bool option" where
  "same_rule rule r =
     (if \<not> is_obj r then None
      else if jget ''action_type'' r = jget ''action_type'' rule \<and> jget ''match_type'' r = jget ''match_type'' rule
           \<and> jget ''pattern'' r = jget ''pattern'' rule
      then (case sorted_scope (jget ''agent_scope'' r) of
              None \<Rightarrow> None | Some sc \<Rightarrow> Some (Some sc = sorted_scope (jget ''agent_scope'' rule)))
      else Some False)"

fun any_same :: "json \<Rightarrow> json list \<Rightarrow> bool option" where
  "any_same rule [] = Some False"
| "any_same rule (r # rs) =
     (case same_rule rule r of None \<Rightarrow> None | Some True \<Rightarrow> Some True | Some False \<Rightarrow> any_same rule rs)"

fun without_same :: "json \<Rightarrow> json list \<Rightarrow> json list option" where
  "without_same rule [] = Some []"
| "without_same rule (r # rs) =
     (case same_rule rule r of
        None \<Rightarrow> None
      | Some b \<Rightarrow> map_option (\<lambda>kept. if b then kept else r # kept) (without_same rule rs))"

definition set_default :: "str \<Rightarrow> json \<Rightarrow> (str \<times> json) list \<Rightarrow> (str \<times> json) list" where
  "set_default k v ms = (if map_of ms k = None then ms @ [(k, v)] else ms)"

definition completed_rule :: "str \<Rightarrow> (str \<times> json) list \<Rightarrow> json" where
  "completed_rule new_id ms =
     JObj (set_default ''created_at'' (JStr []) (set_default ''agent_scope'' (JArr [JStr ''*''])
       (set_default ''id'' (JStr (''auto-'' @ new_id)) ms)))"

definition policy_rules :: "json option \<Rightarrow> json list option" where
  "policy_rules existing =
     (case existing of
        None \<Rightarrow> Some []
      | Some p \<Rightarrow> if \<not> truthy (jget ''rules'' p) then Some []
                  else (case jget ''rules'' p of JArr rs \<Rightarrow> Some rs | _ \<Rightarrow> None))"

definition new_policy :: "'a file_world_scheme \<Rightarrow> str \<Rightarrow> json list \<Rightarrow> json" where
  "new_policy w path rules =
     JObj [(''version'', JInt 1), (''workspace_root'', JStr (policy_root w path)), (''rules'', JArr rules)]"

definition promote_rule ::
    "'a file_world_scheme \<Rightarrow> (rat \<Rightarrow> str) \<Rightarrow> str \<Rightarrow> str \<Rightarrow> json \<Rightarrow> int \<Rightarrow> 'b policy_store_scheme \<Rightarrow> bool \<times> 'b policy_store_scheme" where
  "promote_rule w fr path new_id rule now s =
     (if \<not> is_dir w (parent_dir path) then (False, s)
      else (let (existing, s1) = load_policy w path s in
        case policy_rules existing of
          None \<Rightarrow> (False, s1)
        | Some rules \<Rightarrow>
            (case (rule, jget ''pattern'' rule) of
               (JObj ms, JStr pat) \<Rightarrow>
                 if \<not> truthy (jget ''action_type'' rule) \<or> \<not> truthy (jget ''match_type'' rule) \<or> pat = [] then (False, s1)
                 else if denylist_blocks w (jget ''action_type'' rule) pat \<or> is_overbroad_pattern pat then (False, s1)
                 else if sorted_scope (jget ''agent_scope'' rule) = None then (False, s1)
                 else (case any_same rule rules of
                     None \<Rightarrow> (False, s1)
                   | Some True \<Rightarrow> (True, s1)
                   | Some False \<Rightarrow> (True, write_policy fr path (new_policy w path (rules @ [completed_rule new_id ms])) now s1))
             | _ \<Rightarrow> (False, s1))))"

definition revoke_rule ::
    "'a file_world_scheme \<Rightarrow> (rat \<Rightarrow> str) \<Rightarrow> str \<Rightarrow> json \<Rightarrow> int \<Rightarrow> 'b policy_store_scheme \<Rightarrow> bool \<times> 'b policy_store_scheme" where
  "revoke_rule w fr path rule now s =
     (let (existing, s1) = load_policy w path s in
      if existing = None then (False, s1)
      else (case policy_rules existing of
          None \<Rightarrow> (False, s1)
        | Some rules \<Rightarrow>
            if sorted_scope (jget ''agent_scope'' rule) = None then (False, s1)
            else (case without_same rule rules of
                None \<Rightarrow> (False, s1)
              | Some kept \<Rightarrow> if length kept = length rules then (False, s1)
                             else (True, write_policy fr path (new_policy w path kept) now s1))))"

definition restore_policy ::
    "'a file_world_scheme \<Rightarrow> str \<Rightarrow> str \<Rightarrow> int \<Rightarrow> 'b policy_store_scheme \<Rightarrow> bool \<times> 'b policy_store_scheme" where
  "restore_policy w path raw now s =
     (if \<not> is_dir w (parent_dir path) then (False, s)
      else (True, s\<lparr>policy_files := AList.update path \<lparr>pf_mtime = now, pf_text = raw\<rparr> (policy_files s),
                    policy_memo := AList.delete path (policy_memo s)\<rparr>))"

subsection \<open>Facts\<close>

text \<open>Only the starting directory itself is looked at outside the bound.\<close>

lemma walk_up_bound:
  "walk_up w bound (d # ds) = Some p \<Longrightarrow>
     \<exists>e. p = join_path e ''.schengen'' @ ''/allowlist.json'' \<and> is_dir w (join_path e ''.schengen'')
       \<and> (e = d \<or> path_within (resolve_path w bound) (resolve_path w e))"
proof (induction ds arbitrary: d)
  case Nil
  then show ?case by (auto split: if_splits)
next
  case (Cons up ds)
  show ?case
  proof (cases "is_dir w (join_path d ''.schengen'')")
    case True
    with Cons.prems show ?thesis by auto
  next
    case False
    with Cons.prems have "walk_up w bound (up # ds) = Some p" "path_within (resolve_path w bound) (resolve_path w up)"
      by (auto split: if_splits)
    with Cons.IH show ?thesis by blast
  qed
qed

text \<open>The memo holds nothing but parsed policies, whose roots are derived from their paths.\<close>

definition derived_root :: "'a file_world_scheme \<Rightarrow> str \<Rightarrow> json \<Rightarrow> bool" where
  "derived_root w path p \<longleftrightarrow> jget ''workspace_root'' p = JStr (policy_root w path)"

definition memo_derived :: "'a file_world_scheme \<Rightarrow> 'b policy_store_scheme \<Rightarrow> bool" where
  "memo_derived w s \<longleftrightarrow> (\<forall>path m p. map_of (policy_memo s) path = Some (m, Some p) \<longrightarrow> derived_root w path p)"

lemma parse_policy_root: "parse_policy w path text = Some p \<Longrightarrow> derived_root w path p"
  by (auto simp: parse_policy_def derived_root_def update_conv split: if_splits option.splits json.splits)

lemma load_policy_root:
  assumes "memo_derived w s"
  shows "memo_derived w (snd (load_policy w path s)) \<and> (\<forall>p. fst (load_policy w path s) = Some p \<longrightarrow> derived_root w path p)"
proof -
  have upd: "memo_derived w (s\<lparr>policy_memo := AList.update path (m, parse_policy w path t) (policy_memo s)\<rparr>)" for m t
    using assms parse_policy_root [of w path t] by (auto simp: memo_derived_def update_conv)
  show ?thesis
  proof (cases "map_of (policy_files s) path")
    case None
    with assms show ?thesis by (simp add: load_policy_def)
  next
    case (Some f)
    show ?thesis
    proof (cases "\<exists>parsed. map_of (policy_memo s) path = Some (pf_mtime f, parsed)")
      case True
      then obtain parsed where "map_of (policy_memo s) path = Some (pf_mtime f, parsed)" by blast
      with Some assms show ?thesis by (auto simp: load_policy_def memo_derived_def)
    next
      case False
      with Some have "load_policy w path s = (parse_policy w path (pf_text f),
          s\<lparr>policy_memo := AList.update path (pf_mtime f, parse_policy w path (pf_text f)) (policy_memo s)\<rparr>)"
        by (auto simp: load_policy_def split: option.splits)
      with upd [of "pf_mtime f" "pf_text f"] parse_policy_root [of w path "pf_text f"] show ?thesis by (metis fst_conv snd_conv)
    qed
  qed
qed

lemma memo_derived_delete: "memo_derived w s \<Longrightarrow> memo_derived w (s\<lparr>policy_files := fs, policy_memo := AList.delete path (policy_memo s)\<rparr>)"
  by (auto simp: memo_derived_def delete_conv split: if_splits)

text \<open>The states of the store: loads, promotions, revocations, rollbacks, and edits of the files by others.\<close>

inductive policy_reach :: "'a file_world_scheme \<Rightarrow> policy_store \<Rightarrow> bool" for w where
  at_start: "policy_reach w \<lparr>policy_files = fs, policy_memo = []\<rparr>"
| loaded: "policy_reach w s \<Longrightarrow> policy_reach w (snd (load_policy w path s))"
| promoted: "policy_reach w s \<Longrightarrow> policy_reach w (snd (promote_rule w fr path new_id rule now s))"
| revoked: "policy_reach w s \<Longrightarrow> policy_reach w (snd (revoke_rule w fr path rule now s))"
| restored: "policy_reach w s \<Longrightarrow> policy_reach w (snd (restore_policy w path raw now s))"
| edited: "policy_reach w s \<Longrightarrow> policy_reach w (s\<lparr>policy_files := fs\<rparr>)"

lemma promote_memo:
  assumes s: "memo_derived w s"
  shows "memo_derived w (snd (promote_rule w fr path new_id rule now s))"
proof -
  obtain e s1 where l: "load_policy w path s = (e, s1)" by (cases "load_policy w path s")
  with load_policy_root [OF s, of path] have s1: "memo_derived w s1" by simp
  with memo_derived_delete [OF s1] have "memo_derived w (write_policy fr path p now s1)" for p
    by (simp add: write_policy_def)
  with s s1 l show ?thesis
    by (auto simp: promote_rule_def Let_def split: option.splits json.splits bool.splits)
qed

lemma revoke_memo:
  assumes s: "memo_derived w s"
  shows "memo_derived w (snd (revoke_rule w fr path rule now s))"
proof -
  obtain e s1 where l: "load_policy w path s = (e, s1)" by (cases "load_policy w path s")
  with load_policy_root [OF s, of path] have s1: "memo_derived w s1" by simp
  with memo_derived_delete [OF s1] have "memo_derived w (write_policy fr path p now s1)" for p
    by (simp add: write_policy_def)
  with s s1 l show ?thesis by (auto simp: revoke_rule_def Let_def split: option.splits)
qed

lemma reach_memo: "policy_reach w s \<Longrightarrow> memo_derived w s"
proof (induction rule: policy_reach.induct)
  case (at_start fs)
  then show ?case by (simp add: memo_derived_def)
next
  case (loaded s path)
  then show ?case using load_policy_root by blast
next
  case (restored s path raw now)
  then show ?case by (auto simp: restore_policy_def memo_derived_def delete_conv split: if_splits)
next
  case (edited s fs)
  then show ?case by (simp add: memo_derived_def)
qed (simp_all add: promote_memo revoke_memo)

lemma match_rules_True:
  "match_rules action canonical rs = Some True \<Longrightarrow>
     \<exists>r pat. r \<in> set rs \<and> jget ''action_type'' r = action \<and> jget ''pattern'' r = JStr pat \<and> \<not> is_overbroad_pattern pat
       \<and> matches_rule canonical (jget ''match_type'' r) pat"
proof (induction rs)
  case Nil
  then show ?case by simp
next
  case (Cons r rs)
  show ?case
  proof (cases "match_rules action canonical rs = Some True")
    case True
    with Cons.IH show ?thesis by auto
  next
    case False
    with Cons.prems obtain pat where "jget ''action_type'' r = action" "jget ''pattern'' r = JStr pat"
        "\<not> is_overbroad_pattern pat" "matches_rule canonical (jget ''match_type'' r) pat"
      by (auto split: if_splits json.splits)
    then show ?thesis by auto
  qed
qed

definition confined_match :: "'a file_world_scheme \<Rightarrow> str \<Rightarrow> str \<Rightarrow> str \<Rightarrow> bool" where
  "confined_match w path action canonical \<longleftrightarrow>
     \<not> re_found SENSITIVE_FILE_PATTERN canonical \<and> \<not> re_found SENSITIVE_DIRECTORY_PATTERN canonical
     \<and> \<not> re_found BROAD_WILDCARD_RE canonical
     \<and> (if action = ''exec'' then \<forall>tok \<in> set (split_ws canonical). \<not> starts_with tok ''/'' \<and> \<not> starts_with tok ''~/''
        else path_within (rstrip_chars ''/'' (policy_root w path)) canonical \<and> classify_resource_tier w canonical \<noteq> T4_CRITICAL)"

lemma check_rule_confined:
  assumes "derived_root w path p" and "check_rule w p action target = Some True"
  shows "confined_match w path action (rule_target w action target)
     \<and> (\<exists>rs r pat. jget ''rules'' p = JArr rs \<and> r \<in> set rs \<and> jget ''action_type'' r = JStr action
          \<and> jget ''pattern'' r = JStr pat \<and> \<not> is_overbroad_pattern pat
          \<and> matches_rule (rule_target w action target) (jget ''match_type'' r) pat)"
proof -
  let ?c = "rule_target w action target"
  have root: "policy_ws_root p = rstrip_chars ''/'' (policy_root w path)"
    using assms(1) by (simp add: derived_root_def policy_ws_root_def)
  from assms(2) obtain rs where rs: "jget ''rules'' p = JArr rs" "match_rules (JStr action) ?c rs = Some True"
    by (auto simp: check_rule_def Let_def split: if_splits json.splits)
  from assms(2) have deny: "\<not> denylist_blocks w (JStr action) ?c"
    by (auto simp: check_rule_def Let_def split: if_splits)
  from assms(2) root have under: "action \<noteq> ''exec'' \<Longrightarrow> path_within (rstrip_chars ''/'' (policy_root w path)) ?c"
    by (auto simp: check_rule_def Let_def path_within_def split: if_splits)
  have "confined_match w path action ?c"
    using deny under by (auto simp: confined_match_def denylist_blocks_def list_ex_iff split: if_splits)
  with rs match_rules_True [OF rs(2)] show ?thesis by blast
qed

lemma plain_set_default:
  "plain_json (JObj ms) \<Longrightarrow> plain_json v \<Longrightarrow> plain_json (JObj (set_default k v ms))"
  by (auto simp: set_default_def map_of_eq_None_iff)

lemma plain_completed: "plain_json (JObj ms) \<Longrightarrow> plain_json (completed_rule new_id ms)"
  unfolding completed_rule_def by (intro plain_set_default) simp_all

lemma short_one: "length (show_nat (nat \<bar>1\<bar>)) \<le> 4300"
  by code_simp

lemma plain_new_policy: "list_all plain_json rules \<Longrightarrow> plain_json (new_policy w path rules)"
  using short_one by (simp add: new_policy_def)

lemma load_written:
  assumes "list_all plain_json rules"
    and "length (json_dumps fr (new_policy w path rules)) \<le> MAX_POLICY_BYTES"
  shows "fst (load_policy w path (write_policy fr path (new_policy w path rules) now s)) = Some (new_policy w path rules)"
proof -
  have "parse_policy w path (json_dumps fr (new_policy w path rules)) = Some (new_policy w path rules)"
    using assms loads_dumps [OF plain_new_policy [OF assms(1)], of fr w path]
    by (simp add: parse_policy_def new_policy_def)
  then show ?thesis by (simp add: load_policy_def write_policy_def update_conv delete_conv)
qed

subsection \<open>Properties\<close>

text \<open>
  C31: A match of the workspace allowlist is confined, whatever anybody wrote into the policy
  file.  In every reachable state of files and memo, a rule that matches allows no sensitive
  path and no broad wildcard; a path lies under the directory that holds the policy, whatever
  root the file declares, and is not critical; a command has no absolute path as a token; and
  the pattern that matched is not a catch-all.
\<close>

theorem workspace_match_is_confined:
  assumes "policy_reach w s" and "load_policy w path s = (Some p, s')" and "check_rule w p action target = Some True"
  shows "confined_match w path action (rule_target w action target)
     \<and> (\<exists>rs r pat. jget ''rules'' p = JArr rs \<and> r \<in> set rs \<and> jget ''action_type'' r = JStr action
          \<and> jget ''pattern'' r = JStr pat \<and> \<not> is_overbroad_pattern pat
          \<and> matches_rule (rule_target w action target) (jget ''match_type'' r) pat)"
  using load_policy_root [OF reach_memo [OF assms(1)], of path] assms(2) by (intro check_rule_confined [OF _ assms(3)]) simp

definition policy_text_demo :: str where
  \<open>policy_text_demo =
     ''{"workspace_root": "/", "rules": [{"action_type": "exec", "match_type": "exact", "pattern": "make"}]}''\<close>

definition policy_demo :: policy_store where
  "policy_demo = \<lparr>policy_files = [(''/t/.s/a'', \<lparr>pf_mtime = 1, pf_text = policy_text_demo\<rparr>)], policy_memo = []\<rparr>"

theorem workspace_match_is_confined_witness:
  "confined_match file_demo ''/t/.s/a'' ''exec'' ''make''"
proof -
  let ?l = "load_policy file_demo ''/t/.s/a'' policy_demo"
  have r: "policy_reach file_demo policy_demo" unfolding policy_demo_def by (rule policy_reach.at_start)
  let ?r = "(''rules'', JArr [JObj [(''action_type'', JStr ''exec''), (''match_type'', JStr ''exact''), (''pattern'', JStr ''make'')]])"
  let ?p = "JObj [(''workspace_root'', JStr (policy_root file_demo ''/t/.s/a'')), ?r]"
  have "length policy_text_demo \<le> 400" by code_simp
  moreover have "json_loads policy_text_demo = Some (JObj [(''workspace_root'', JStr ''/''), ?r])" by code_simp
  ultimately have p: "fst ?l = Some ?p"
    by (simp add: load_policy_def parse_policy_def policy_demo_def MAX_POLICY_BYTES_def)
  then have l: "?l = (Some ?p, snd ?l)" by (metis prod.collapse)
  have c: "check_rule file_demo ?p ''exec'' ''make'' = Some True" by code_simp
  have t: "rule_target file_demo ''exec'' ''make'' = ''make''" by code_simp
  from workspace_match_is_confined [OF r l c] show ?thesis unfolding t by blast
qed

text \<open>
  Promotion round trip: when a new rule has been promoted, the next load reads back exactly
  the old rules followed by the completed new one, under the derived root, through the JSON
  text of the file (for policies within the size limit, without floats).
\<close>

lemma promotion_round_trip:
  assumes "load_policy w path s = (existing, s1)" and "policy_rules existing = Some rules"
    and "any_same (JObj ms) rules = Some False" and "promote_rule w fr path new_id (JObj ms) now s = (True, s')"
    and "plain_json (JObj ms)" and "list_all plain_json rules"
    and "length (json_dumps fr (new_policy w path (rules @ [completed_rule new_id ms]))) \<le> MAX_POLICY_BYTES"
  shows "fst (load_policy w path s') = Some (new_policy w path (rules @ [completed_rule new_id ms]))"
proof -
  from assms(1-4) have "s' = write_policy fr path (new_policy w path (rules @ [completed_rule new_id ms])) now s1"
    by (auto simp: promote_rule_def Let_def split: if_splits json.splits)
  with load_written [of "rules @ [completed_rule new_id ms]" fr w path now s1] assms(5-7) plain_completed [of ms new_id]
  show ?thesis by simp
qed

definition rule_demo :: "(str \<times> json) list" where
  "rule_demo = [(''action_type'', JStr ''exec''), (''match_type'', JStr ''exact''), (''pattern'', JStr ''make'')]"

definition dirs_demo :: file_world where
  "dirs_demo = file_demo\<lparr>is_dir := \<lambda>p. True\<rparr>"

lemma promotion_round_trip_witness:
  "fst (load_policy dirs_demo ''/t/.s/a'' (snd (promote_rule dirs_demo (\<lambda>q. []) ''/t/.s/a'' ''7'' (JObj rule_demo) 5
      \<lparr>policy_files = [], policy_memo = []\<rparr>)))
   = Some (new_policy dirs_demo ''/t/.s/a'' ([] @ [completed_rule ''7'' rule_demo]))"
proof (rule promotion_round_trip)
  let ?s = "\<lparr>policy_files = [], policy_memo = []\<rparr>"
  show "load_policy dirs_demo ''/t/.s/a'' ?s = (None, ?s)" by (simp add: load_policy_def)
  show "policy_rules None = Some []" by (simp add: policy_rules_def)
  show "any_same (JObj rule_demo) [] = Some False" by simp
  have "fst (promote_rule dirs_demo (\<lambda>q. []) ''/t/.s/a'' ''7'' (JObj rule_demo) 5 ?s)" by code_simp
  then show "promote_rule dirs_demo (\<lambda>q. []) ''/t/.s/a'' ''7'' (JObj rule_demo) 5 ?s
      = (True, snd (promote_rule dirs_demo (\<lambda>q. []) ''/t/.s/a'' ''7'' (JObj rule_demo) 5 ?s))"
    by (metis (full_types) prod.collapse)
  show "plain_json (JObj rule_demo)" by code_simp
  have "length (json_dumps (\<lambda>q. []) (new_policy dirs_demo ''/t/.s/a'' ([] @ [completed_rule ''7'' rule_demo]))) \<le> 600"
    by code_simp
  then show "length (json_dumps (\<lambda>q. []) (new_policy dirs_demo ''/t/.s/a'' ([] @ [completed_rule ''7'' rule_demo]))) \<le> MAX_POLICY_BYTES"
    by (simp add: MAX_POLICY_BYTES_def)
qed simp

end
