(* ===== verification/CommandAudit.thy ===== *)
theory CommandAudit
  imports CloudJudge WorkspaceAllowlist Runners
begin

text \<open>
  The audit of a command (\<open>_audit_static_shell_command\<close>, \<open>audit_shell_command\<close> and
  \<open>audit_shell_command_with_taxonomy\<close> of \<open>scripts/core/security_evaluator.py\<close>): the guards in
  the order of the source, each a definition that answers or lets the next one look, composed
  by \<open>run_stages\<close>.  Where the source iterates over a set, the order of the model's list only
  decides which of several names a reason mentions.
\<close>

subsection \<open>World, state and arguments\<close>

record audit_world = judge_world +
  complexity_tax_enabled :: bool
  complexity_threshold :: int
  origin_weighting_enabled :: bool

record audit_state = judge_state +
  policies :: policy_store

type_synonym answer = "bool \<times> str \<times> decision_layer"

record audit_args =
  aa_cwd :: str
  aa_scope :: str
  aa_agent :: str
  aa_origin :: origin
  aa_effort :: str

fun origin_name :: "origin \<Rightarrow> str" where
  "origin_name HUMAN = ''HUMAN''"
| "origin_name AGENT = ''AGENT''"
| "origin_name INJECTED = ''INJECTED''"
| "origin_name EMERGENT = ''EMERGENT''"

text \<open>
  The static audit hands the enumeration member to the judge, whose \<open>str\<close> is its qualified
  name; the complexity tax hands over its value and leaves the effort at its default.
\<close>

definition judge_by_member :: "audit_args \<Rightarrow> judge_args" where
  "judge_by_member a = \<lparr>ja_cwd = aa_cwd a, ja_scope = aa_scope a, ja_agent = aa_agent a, ja_origin = aa_origin a,
     ja_origin_text = ''Origin.'' @ origin_name (aa_origin a), ja_effort = aa_effort a\<rparr>"

definition default_effort :: "'a judge_world_scheme \<Rightarrow> str" where
  "default_effort w = (case env w ''GUARD_REASONING_EFFORT'' of Some e \<Rightarrow> e | None \<Rightarrow> ''low'')"

definition judge_by_value :: "'a judge_world_scheme \<Rightarrow> audit_args \<Rightarrow> judge_args" where
  "judge_by_value w a = \<lparr>ja_cwd = aa_cwd a, ja_scope = aa_scope a, ja_agent = aa_agent a, ja_origin = aa_origin a,
     ja_origin_text = origin_value (aa_origin a), ja_effort = default_effort w\<rparr>"

subsection \<open>The complexity tax\<close>

definition apply_complexity_tax ::
    "'a audit_world_scheme \<Rightarrow> audit_args \<Rightarrow> str \<Rightarrow> 'b judge_state_scheme \<Rightarrow> answer option \<times> 'b judge_state_scheme" where
  "apply_complexity_tax w a cmd s =
     (if \<not> complexity_tax_enabled w then (None, s)
      else if aa_origin a = HUMAN \<and> origin_weighting_enabled w then (None, s)
      else (let prof = compute_semantic_complexity cmd; cx = structural prof; thr = complexity_threshold w in
        if cx \<le> thr then (None, s)
        else if \<not> has_mutation prof then
          (case audit_with_cloud_judge w (judge_by_value w a) cmd ''Read-only diagnostic chain; no mutating segments'' s of
             ((True, reason), s') \<Rightarrow> (Some (True, ''Complex read-only chain cleared by cloud judge: '' @ reason, CLOUD_JUDGE), s')
           | ((False, reason), s') \<Rightarrow>
               (Some (False, ''Complex read-only chain deferred to human ('' @ reason @ '')'', COMPLEXITY_TAX), s'))
        else (Some (False, ''Complex mutating compound command requires human review (complexity='' @ show_int cx
                @ '' > threshold='' @ show_int thr @ '')'', COMPLEXITY_TAX), s)))"

subsection \<open>The workspace allowlist\<close>

definition after_blank :: "str \<Rightarrow> str" where
  "after_blank cmd = strip (case split_once (CHR '' '') cmd of Some (_, r) \<Rightarrow> r | None \<Rightarrow> [])"

definition is_edit :: "str \<Rightarrow> bool" where
  "is_edit cmd \<longleftrightarrow> starts_with cmd ''edit_file '' \<or> starts_with cmd ''create_file ''"

definition workspace_target :: "str \<Rightarrow> str \<Rightarrow> str option" where
  "workspace_target cmd action =
     (if action = ''exec'' then Some (strip cmd)
      else if action = ''edit_file'' then
        (if is_edit cmd then Some (after_blank cmd) else None)
      else if starts_with cmd (action @ '' '') then Some (strip (drop (length action + 1) cmd))
      else None)"

definition check_workspace_allowlist ::
    "'a audit_world_scheme \<Rightarrow> str \<Rightarrow> str \<Rightarrow> str \<Rightarrow> 'b audit_state_scheme \<Rightarrow> str option \<times> 'b audit_state_scheme" where
  "check_workspace_allowlist w cmd cwd action s =
     (case discover_workspace_policy w cwd of
        None \<Rightarrow> (None, s)
      | Some path \<Rightarrow>
          (case load_policy w path (policies s) of
             (None, ps) \<Rightarrow> (None, s\<lparr>policies := ps\<rparr>)
           | (Some policy, ps) \<Rightarrow>
               ((case workspace_target cmd action of
                   None \<Rightarrow> None
                 | Some target \<Rightarrow>
                     if check_rule w policy action target = Some True
                     then Some (''Workspace allowlist ('' @ action @ ''): '' @ quoted target) else None),
                s\<lparr>policies := ps\<rparr>)))"

definition workspace_stage :: "'a audit_world_scheme \<Rightarrow> audit_args \<Rightarrow> str \<Rightarrow> str \<Rightarrow> ('b audit_state_scheme, answer) stage" where
  "workspace_stage w a cmd action s =
     (case check_workspace_allowlist w cmd (aa_cwd a) action s of
        (Some reason, s') \<Rightarrow> (Some (True, reason, FAST_TRACK_WORKSPACE_ALLOWLIST), s')
      | (None, s') \<Rightarrow> (None, s'))"

subsection \<open>Dialog requests\<close>

definition unmasked_secret :: "str \<Rightarrow> bool" where
  "unmasked_secret p \<longleftrightarrow> re_found SENSITIVE_FILE_PATTERN p \<and> \<not> contains ''dot_zshenv.tmpl'' p \<and> \<not> contains ''.zshenv.local'' p"

definition edit_paths :: "str \<Rightarrow> str list" where
  "edit_paths cmd =
     filter (\<lambda>p. p \<noteq> []) (map strip (split_char nl (case split_once (CHR '' '') cmd of Some (_, r) \<Rightarrow> r | None \<Rightarrow> [])))"

definition edit_refusal :: "'a audit_world_scheme \<Rightarrow> str \<Rightarrow> str \<Rightarrow> answer option" where
  "edit_refusal w op p =
     (if re_found HERMES_SANDBOX_PATTERN p then
        Some (False, ''Forbidden file '' @ op @ '' targeting Hermes Sandbox: '' @ quoted p, SANDBOX_GUARD)
      else if unmasked_secret p then
        Some (False, ''Attempting to perform file '' @ op @ '' on sensitive credential file: '' @ quoted p, SECRET_GUARD)
      else if classify_resource_tier w p = T4_CRITICAL then
        Some (False, ''Critical OS/Secret resource '' @ op @ '' blocked: '' @ quoted p, GRAY_ZONE_MATRIX)
      else None)"

definition edit_op :: "str \<Rightarrow> str" where
  "edit_op cmd = (if starts_with cmd ''create_file '' then ''creation'' else ''edit'')"

definition edit_dialog :: "'a audit_world_scheme \<Rightarrow> audit_args \<Rightarrow> str \<Rightarrow> ('b audit_state_scheme, answer) stage" where
  "edit_dialog w a cmd s =
     (if \<not> is_edit cmd then (None, s)
      else (let op = edit_op cmd; paths = edit_paths cmd in
        if paths = [] then (Some (False, ''File '' @ op @ '' request with no target path'', NOT_ALLOWLISTED), s)
        else (case first_some (edit_refusal w op) paths of
            Some refusal \<Rightarrow> (Some refusal, s)
          | None \<Rightarrow>
              (case (if length paths = 1 then workspace_stage w a cmd ''edit_file'' s else (None, s)) of
                 (Some v, s') \<Rightarrow> (Some v, s')
               | (None, s') \<Rightarrow>
                   (Some (True, ''Verified safe file '' @ op @ '': '' @ quoted (str_join '', '' paths), FAST_TRACK_AST), s')))))"

definition access_refusal :: "'a audit_world_scheme \<Rightarrow> str \<Rightarrow> answer option" where
  "access_refusal w target =
     (if re_found HERMES_SANDBOX_PATTERN target then
        Some (False, ''Forbidden external directory access to Hermes Sandbox: '' @ quoted target, SANDBOX_GUARD)
      else if re_found SENSITIVE_FILE_PATTERN target \<or> re_found SENSITIVE_DIRECTORY_PATTERN target then
        Some (False, ''Forbidden external directory access to sensitive location: '' @ quoted target, SECRET_GUARD)
      else if classify_resource_tier w target = T4_CRITICAL then
        Some (False, ''Critical OS/Secret resource directory access blocked: '' @ quoted target, GRAY_ZONE_MATRIX)
      else None)"

definition access_dialog :: "'a audit_world_scheme \<Rightarrow> audit_args \<Rightarrow> str \<Rightarrow> ('b audit_state_scheme, answer) stage" where
  "access_dialog w a cmd s =
     (if \<not> starts_with cmd ''access_directory '' then (None, s)
      else (case access_refusal w (after_blank cmd) of
          Some refusal \<Rightarrow> (Some refusal, s)
        | None \<Rightarrow>
            (case workspace_stage w a cmd ''access_directory'' s of
               (Some v, s') \<Rightarrow> (Some v, s')
             | (None, s') \<Rightarrow> (Some (True, ''Verified safe external directory access: '' @ quoted (after_blank cmd), FAST_TRACK_AST), s'))))"

definition read_refusal :: "'a audit_world_scheme \<Rightarrow> str \<Rightarrow> answer option" where
  "read_refusal w target =
     (if unmasked_secret target then
        Some (False, ''Attempting to READ sensitive credential file: '' @ quoted target, SECRET_GUARD)
      else if classify_resource_tier w target = T4_CRITICAL then
        Some (False, ''Critical OS/Secret resource read blocked: '' @ quoted target, GRAY_ZONE_MATRIX)
      else None)"

definition read_dialog :: "'a audit_world_scheme \<Rightarrow> audit_args \<Rightarrow> str \<Rightarrow> ('b audit_state_scheme, answer) stage" where
  "read_dialog w a cmd s =
     (if \<not> starts_with cmd ''read_file '' then (None, s)
      else (case read_refusal w (after_blank cmd) of
          Some refusal \<Rightarrow> (Some refusal, s)
        | None \<Rightarrow>
            (case workspace_stage w a cmd ''read_file'' s of
               (Some v, s') \<Rightarrow> (Some v, s')
             | (None, s') \<Rightarrow> (Some (True, ''Verified safe file read: '' @ quoted (after_blank cmd), FAST_TRACK_AST), s'))))"

definition human_dialog :: "str \<Rightarrow> answer option" where
  "human_dialog cmd =
     (if cmd = ''doom_loop'' then Some (False, ''Doom loop detected; requires human review'', SHELL_CRITICAL)
      else if starts_with cmd ''question'' then
        Some (False, ''Agent asked the user a question; requires human input'', SHELL_CRITICAL)
      else None)"

definition UNHANDLED_CONTEXT :: str where
  "UNHANDLED_CONTEXT = ''An opencode permission dialog of an unrecognized type was intercepted. Only auto-approve if ''
     @ ''it is obviously read-only and safe.''"

definition unhandled_dialog :: "'a audit_world_scheme \<Rightarrow> audit_args \<Rightarrow> str \<Rightarrow> ('b audit_state_scheme, answer) stage" where
  "unhandled_dialog w a cmd s =
     (if \<not> starts_with cmd ''unhandled_dialog '' then (None, s)
      else (case audit_with_cloud_judge w (judge_by_member a) cmd UNHANDLED_CONTEXT s of
          ((True, reason), s') \<Rightarrow> (Some (True, ''Unhandled dialog cleared by cloud judge: '' @ reason, CLOUD_JUDGE), s')
        | ((False, reason), s') \<Rightarrow>
            (Some (False, ''Unhandled opencode permission type deferred to human ('' @ reason @ '')'', SHELL_CRITICAL), s')))"

subsection \<open>Guards that only refuse\<close>

definition refuse :: "bool \<Rightarrow> str \<Rightarrow> decision_layer \<Rightarrow> answer option" where
  "refuse b reason layer = (if b then Some (False, reason, layer) else None)"

definition managed_git_guard :: "str \<Rightarrow> answer option" where
  "managed_git_guard cmd =
     (if \<not> re_found MANAGED_GIT_HOST_PATTERN cmd then None
      else (case is_managed_git_safe_command cmd of
          (ok, Some reason) \<Rightarrow> Some (ok, ''Managed Git security guard: '' @ reason, MANAGED_GIT_GUARD)
        | (ok, None) \<Rightarrow> None))"

definition HEREDOC_PYTHON_RE :: regex where
  \<open>HEREDOC_PYTHON_RE = re_c ''python[0-9.]*%s+(?:-%s*)?<<-?%s*['"]?([A-Za-z0-9_]+)['"]?%s*%n([%s%S]*?)%n%s*%1''\<close>

definition DASH_C_PYTHON_RE :: regex where
  \<open>DASH_C_PYTHON_RE = re_c ''python[0-9.]*%s+-c%s*(['"])([%s%S]*?)(?<!%&)%1''\<close>

definition inline_python_guard :: "'a py_world_scheme \<Rightarrow> regex \<Rightarrow> str \<Rightarrow> str \<Rightarrow> answer option" where
  "inline_python_guard w re label cmd =
     (case re_search re cmd of
        None \<Rightarrow> None
      | Some m \<Rightarrow>
          (case audit_python_code w (or_else (m_group m 2) []) of
             (True, _) \<Rightarrow> None
           | (False, reason) \<Rightarrow> Some (False, label @ reason, PYTHON_AST)))"

definition heredoc_python_guard :: "'a py_world_scheme \<Rightarrow> str \<Rightarrow> answer option" where
  "heredoc_python_guard w = inline_python_guard w HEREDOC_PYTHON_RE ''Inline Python risk: ''"

definition dash_c_python_guard :: "'a py_world_scheme \<Rightarrow> str \<Rightarrow> answer option" where
  "dash_c_python_guard w = inline_python_guard w DASH_C_PYTHON_RE ''Python -c inline risk: ''"

definition shellcheck_guard :: "'a sast_world_scheme \<Rightarrow> str \<Rightarrow> answer option" where
  "shellcheck_guard w cmd =
     (case audit_shell_with_shellcheck w cmd None of (ok, reason, _) \<Rightarrow> refuse (\<not> ok) reason SAST_SHELLCHECK)"

definition semgrep_guard :: "'a sast_world_scheme \<Rightarrow> str \<Rightarrow> answer option" where
  "semgrep_guard w cmd =
     (case audit_script_with_semgrep w cmd of (ok, reason, _) \<Rightarrow> refuse (\<not> ok) reason SAST_SEMGREP)"

definition dangerous_git_guard :: "str \<Rightarrow> answer option" where
  "dangerous_git_guard cmd =
     (case classify_routine_git_workflow cmd of (verdict, reason) \<Rightarrow>
        refuse (verdict = ''DANGEROUS'') (''Critical Git risk detected: '' @ reason) SHELL_CRITICAL)"

definition critical_pattern_guard :: "str \<Rightarrow> answer option" where
  "critical_pattern_guard cmd =
     first_some (\<lambda>(pat, desc). refuse (re_found pat cmd) (''Critical risk detected: '' @ desc) SHELL_CRITICAL) CRITICAL_SHELL_PATTERNS"

definition env_dump_guard :: "str \<Rightarrow> answer option" where
  "env_dump_guard cmd =
     map_option (\<lambda>reason. (False, ''Critical risk detected: '' @ reason, SHELL_CRITICAL)) (check_process_env_dump cmd)"

definition PATH_ASSIGNMENT_RE :: regex where
  \<open>PATH_ASSIGNMENT_RE = re_c ''PATH=["']?[^"';%s]+["']?''\<close>

definition SYSTEM_DIR_RE :: regex where
  "SYSTEM_DIR_RE = re_ci (''%b(cd|ls|cat|rm|cp|mv)%s+/(?:etc|usr|bin|sbin|Library|System|private/etc|var/(?!folders/|tmp/)|''
     @ ''private/var/(?!folders/|tmp/))%b'')"

definition system_dir_guard :: "str \<Rightarrow> answer option" where
  "system_dir_guard cmd =
     refuse (re_found SYSTEM_DIR_RE (re_sub PATH_ASSIGNMENT_RE (\<lambda>_. []) cmd)) ''System directory direct mutation/access'' SHELL_CRITICAL"

definition SANDBOX_REDIRECT_RE :: regex where
  "SANDBOX_REDIRECT_RE = re_ci ''>>?[^|;&%n]*(%.hermes/sandboxes|hermes_sandbox)''"

definition sandbox_write_re :: "str \<Rightarrow> regex" where
  "sandbox_write_re bin = re_ci (''%b'' @ bin @ ''%b.*(%.hermes/sandboxes|hermes_sandbox)'')"

definition sandbox_segment_guard :: "str \<Rightarrow> answer option" where
  "sandbox_segment_guard sub =
     first_some (\<lambda>bin. refuse (re_found (sandbox_write_re bin) sub)
        (''Forbidden WRITE command ('' @ bin @ '') targeting Hermes Sandbox: '' @ quoted sub) SANDBOX_GUARD) SHELL_WRITE_COMMANDS"

definition sandbox_write_guard :: "str \<Rightarrow> answer option" where
  "sandbox_write_guard cmd =
     (if \<not> re_found HERMES_SANDBOX_PATTERN cmd then None
      else if re_found SANDBOX_REDIRECT_RE cmd
        then Some (False, ''Forbidden shell redirection WRITE to Hermes Sandbox: '' @ quoted cmd, SANDBOX_GUARD)
      else first_some (\<lambda>s. sandbox_segment_guard (strip s)) (split_shell_control_segments cmd))"

subsection \<open>Secrets\<close>

definition executable_name :: "str \<Rightarrow> str option" where
  "executable_name sub = (case shlex_split sub of Some (t # ts) \<Rightarrow> Some (path_name t) | _ \<Rightarrow> None)"

definition is_search_tool :: "str \<Rightarrow> bool" where
  "is_search_tool exe \<longleftrightarrow> exe \<in> set [''grep'', ''rg'']"

definition search_target_guard :: "str \<Rightarrow> answer option" where
  "search_target_guard cmd =
     first_some (\<lambda>sub. case executable_name sub of
          None \<Rightarrow> None
        | Some exe \<Rightarrow> refuse (is_search_tool exe \<and> search_has_sensitive_target sub)
                         (''Attempting to READ sensitive file: '' @ quoted (strip sub)) SECRET_GUARD)
       (split_shell_control_segments cmd)"

definition mentions_bin :: "str \<Rightarrow> str \<Rightarrow> bool" where
  "mentions_bin bin sub \<longleftrightarrow> re_found (re_ci (''%b'' @ bin @ ''%b'')) sub"

definition read_exempt :: "str \<Rightarrow> bool" where
  "read_exempt sub \<longleftrightarrow> (case executable_name sub of
      None \<Rightarrow> False
    | Some exe \<Rightarrow> is_search_tool exe \<and> \<not> search_has_sensitive_target sub
                  \<or> exe = ''docker'' \<and> is_readonly_docker_exec 0 sub)"

definition secret_segment_guard :: "str \<Rightarrow> answer option" where
  "secret_segment_guard sub =
     (case first_some (\<lambda>bin. refuse (mentions_bin bin sub \<and> re_found SENSITIVE_FILE_PATTERN sub \<and> \<not> read_exempt sub)
             (''Attempting to READ sensitive file: '' @ quoted sub) SECRET_GUARD) READ_COMMANDS of
        Some v \<Rightarrow> Some v
      | None \<Rightarrow> first_some (\<lambda>bin. refuse (mentions_bin bin sub \<and> re_found SENSITIVE_FILE_PATTERN sub)
             (''Network command touching sensitive path: '' @ quoted sub) SECRET_GUARD) NETWORK_EXFIL_COMMANDS)"

definition secret_guard :: "str \<Rightarrow> answer option" where
  "secret_guard cmd =
     (if \<not> re_found SENSITIVE_FILE_PATTERN cmd \<or> re_found MANAGED_GIT_HOST_PATTERN cmd then None
      else first_some (\<lambda>s. secret_segment_guard (strip s)) (split_shell_control_segments cmd))"

definition gray_block_guard :: "'a world_scheme \<Rightarrow> str \<Rightarrow> answer option" where
  "gray_block_guard w cmd =
     (case evaluate_gray_zone_operation w cmd None of (v, reason, _) \<Rightarrow>
        refuse (v = BLOCK) (''Non-VCS Gray-Zone Guard [BLOCK]: '' @ reason) GRAY_ZONE_MATRIX)"

lemmas guard_defs = managed_git_guard_def inline_python_guard_def heredoc_python_guard_def dash_c_python_guard_def
  shellcheck_guard_def semgrep_guard_def dangerous_git_guard_def critical_pattern_guard_def env_dump_guard_def
  system_dir_guard_def sandbox_segment_guard_def sandbox_write_guard_def search_target_guard_def
  secret_segment_guard_def secret_guard_def gray_block_guard_def

subsection \<open>Guards that may approve\<close>

definition gray_prompt_stage :: "'a audit_world_scheme \<Rightarrow> audit_args \<Rightarrow> str \<Rightarrow> ('b audit_state_scheme, answer) stage" where
  "gray_prompt_stage w a cmd s =
     (case evaluate_gray_zone_operation w cmd None of
        (PROMPT, _, Some payload) \<Rightarrow>
          (case apply_complexity_tax w a cmd s of
             (Some v, s') \<Rightarrow> (Some v, s')
           | (None, s') \<Rightarrow>
               (let guidance = format_decision_guidance payload in
                case audit_with_cloud_judge w (judge_by_member a) cmd guidance s' of
                  ((True, reason), s'') \<Rightarrow> (Some (True, ''Gray-zone cleared by cloud judge: '' @ reason, CLOUD_JUDGE), s'')
                | ((False, reason), s'') \<Rightarrow>
                    (Some (False, ''Gray-zone deferred to human ('' @ reason @ ''):'' @ [nl] @ guidance, GRAY_ZONE_MATRIX), s'')))
      | _ \<Rightarrow> (None, s))"

definition routine_git_guard :: "str \<Rightarrow> answer option" where
  "routine_git_guard cmd =
     (case classify_routine_git_workflow cmd of (verdict, reason) \<Rightarrow>
        if verdict = ''SAFE'' then Some (True, ''Fast-track verified '' @ reason @ '': '' @ quoted cmd, FAST_TRACK_AST) else None)"

definition fast_track_guard :: "str \<Rightarrow> answer option" where
  "fast_track_guard cmd =
     (if \<not> is_fast_track_allowlisted cmd then None
      else if is_safe_herdr_query cmd then Some (True, ''Fast-track verified safe Herdr CLI query'', FAST_TRACK_AST)
      else Some (True, ''Fast-track verified safe: '' @ quoted cmd, FAST_TRACK_AST))"

definition test_runner_guard :: "str \<Rightarrow> answer option" where
  "test_runner_guard cmd =
     (if is_fast_track_test_runner cmd
      then Some (True, ''Fast-track test runner (narrow): '' @ quoted cmd, FAST_TRACK_AST) else None)"

definition approved_pattern_stage :: "'a audit_world_scheme \<Rightarrow> audit_args \<Rightarrow> str \<Rightarrow> ('b audit_state_scheme, answer) stage" where
  "approved_pattern_stage w a cmd s =
     (let canonical = normalize_command cmd in
      if has_human_approval_pattern canonical (aa_scope a) (clock w) s
      then (Some (True, ''Human-approved pattern (session): '' @ quoted canonical, HUMAN_APPROVED), s)
      else (None, s))"

definition package_guard :: "str \<Rightarrow> answer option" where
  "package_guard cmd =
     (case classify_package_command cmd of
        None \<Rightarrow> None
      | Some (manager, READ_ONLY, _) \<Rightarrow> Some (True, ''Read-only package query ('' @ manager @ '')'', PACKAGE_GUARD)
      | Some (manager, MUTATING, _) \<Rightarrow> Some (False, ''Package mutation requires human review ('' @ manager @ '')'', PACKAGE_GUARD))"

definition is_degraded :: "'a sast_world_scheme \<Rightarrow> str \<Rightarrow> bool" where
  "is_degraded w cmd \<longleftrightarrow>
     (case snd (snd (audit_shell_with_shellcheck w cmd None)) of Some d \<Rightarrow> sd_degraded d | None \<Rightarrow> False)
     \<or> sd_degraded (snd (snd (audit_script_with_semgrep w cmd)))"

definition degraded_guard :: "'a sast_world_scheme \<Rightarrow> str \<Rightarrow> answer option" where
  "degraded_guard w cmd = refuse (is_degraded w cmd) ''SAST tools unavailable; requires human review (fail-closed)'' NOT_ALLOWLISTED"

definition default_refusal :: answer where
  "default_refusal = (False, ''Not in fast-track allowlist; requires human review (fail-closed)'', NOT_ALLOWLISTED)"

subsection \<open>The audit of a static command\<close>

definition dialog_stages :: "'a audit_world_scheme \<Rightarrow> audit_args \<Rightarrow> str \<Rightarrow> ('b audit_state_scheme, answer) stage list" where
  "dialog_stages w a cmd =
     [edit_dialog w a cmd, access_dialog w a cmd, read_dialog w a cmd, pure_stage (human_dialog cmd), unhandled_dialog w a cmd]"

definition refusal_guards :: "'a audit_world_scheme \<Rightarrow> str \<Rightarrow> answer option list" where
  "refusal_guards w cmd =
     [heredoc_python_guard w cmd, dash_c_python_guard w cmd, shellcheck_guard w cmd, semgrep_guard w cmd,
      dangerous_git_guard cmd, critical_pattern_guard cmd, env_dump_guard cmd, system_dir_guard cmd,
      sandbox_write_guard cmd, search_target_guard cmd, secret_guard cmd, gray_block_guard w cmd]"

definition approval_stages :: "'a audit_world_scheme \<Rightarrow> audit_args \<Rightarrow> str \<Rightarrow> ('b audit_state_scheme, answer) stage list" where
  "approval_stages w a cmd =
     [gray_prompt_stage w a cmd, pure_stage (routine_git_guard cmd), workspace_stage w a cmd ''exec'',
      pure_stage (fast_track_guard cmd), pure_stage (test_runner_guard cmd), apply_complexity_tax w a cmd,
      approved_pattern_stage w a cmd, pure_stage (package_guard cmd), pure_stage (degraded_guard w cmd)]"

definition audit_static_shell_command ::
    "'a audit_world_scheme \<Rightarrow> audit_args \<Rightarrow> str \<Rightarrow> 'b audit_state_scheme \<Rightarrow> answer \<times> 'b audit_state_scheme" where
  "audit_static_shell_command w a cmd_str s =
     (let cmd = strip cmd_str in
      if cmd = [] then ((True, ''Safe'', FAST_TRACK_AST), s)
      else if cmd = ''feedback_survey_skip'' then ((True, ''Auto-skipping CLI feedback survey ([0] Skip)'', FAST_TRACK_AST), s)
      else run_stages (dialog_stages w a cmd @ pure_stage (managed_git_guard cmd)
             # map pure_stage (refusal_guards w cmd) @ approval_stages w a cmd) default_refusal s)"

subsection \<open>The audit of any command\<close>

text \<open>The inspector is called without the origin; its default stands for an injected command.\<close>

definition inspector_args :: "audit_args \<Rightarrow> judge_args" where
  "inspector_args a = \<lparr>ja_cwd = aa_cwd a, ja_scope = aa_scope a, ja_agent = aa_agent a, ja_origin = INJECTED,
     ja_origin_text = ''I'', ja_effort = aa_effort a\<rparr>"

definition MAX_HOPS :: nat where
  "MAX_HOPS = 2"

definition audit_dynamic_command ::
    "'a audit_world_scheme \<Rightarrow> audit_args \<Rightarrow> str \<Rightarrow> 'b audit_state_scheme \<Rightarrow> answer \<times> 'b audit_state_scheme" where
  "audit_dynamic_command w a cmd s =
     (case resolve_dynamic_substitutions_locally w cmd MAX_HOPS of
        Inl (_, layer, reason) \<Rightarrow> ((False, reason, layer), s)
      | Inr res \<Rightarrow>
          if re_found DYNAMIC_SUBSTITUTION_PATTERN res then
            (case audit_dynamic_substitution_with_llm w (inspector_args a) res MAX_HOPS s of
               ((ok, reason), s') \<Rightarrow> ((ok, reason, LLM_INSPECTOR), s'))
          else
            (case audit_static_shell_command w a res s of
               ((True, reason, layer), s') \<Rightarrow>
                 ((True, ''Dynamic substitution verified safe ('' @ take 60 (sanitize_output res) @ ''): '' @ reason, FAST_TRACK_AST), s')
             | ((False, reason, layer), s') \<Rightarrow>
                 ((False, ''Dynamic substitution expanded to unsafe command: '' @ reason, layer), s')))"

definition audit_shell_command ::
    "'a audit_world_scheme \<Rightarrow> audit_args \<Rightarrow> str \<Rightarrow> 'b audit_state_scheme \<Rightarrow> answer \<times> 'b audit_state_scheme" where
  "audit_shell_command w a cmd s =
     (if aa_origin a = INJECTED \<or> aa_origin a = EMERGENT
        then ((False, ''Origin '' @ origin_value (aa_origin a) @ '' hard-escalates; requires human review'', ORIGIN_GUARD), s)
      else if strip cmd = [] then ((True, ''Safe'', FAST_TRACK_AST), s)
      else if re_found DYNAMIC_SUBSTITUTION_PATTERN cmd then audit_dynamic_command w a cmd s
      else audit_static_shell_command w a cmd s)"

definition audit_shell_command_with_taxonomy ::
    "'a audit_world_scheme \<Rightarrow> audit_args \<Rightarrow> str \<Rightarrow> 'b audit_state_scheme \<Rightarrow> (answer \<times> taxonomy) \<times> 'b audit_state_scheme" where
  "audit_shell_command_with_taxonomy w a cmd s =
     (case audit_shell_command w a cmd s of
        ((ok, reason, layer), s') \<Rightarrow>
          (let tx = derive_taxonomy (shadow_env w) cmd layer ok reason (aa_origin a) in
           if is_shadow_mode (shadow_env w) \<and> \<not> ok
           then (((True, ''[SHADOW_OBSERVE: Counterfactual BLOCK] '' @ reason, layer), tx), s')
           else (((ok, reason, layer), tx), s')))"

end
