(* ===== verification/AuditSpec.thy ===== *)
theory AuditSpec
  imports CommandAudit
begin

text \<open>
  What an approval of the audit rests on, as a specification (\<open>licensed\<close>: one rule for each
  source of an approval, with the guards that must have let the command pass), and the proof
  that the audit gives no other approvals; what its guards refuse whatever memory, policies and
  model say; the shadow mode; and two ways past the guards.
\<close>

subsection \<open>The specification\<close>

text \<open>No guard of the first half objects.\<close>

definition unobjectionable :: "'a audit_world_scheme \<Rightarrow> str \<Rightarrow> bool" where
  "unobjectionable w cmd \<longleftrightarrow> (\<forall>a \<in> set (refusal_guards w cmd). a = None)"

definition needs_prompt :: "'a world_scheme \<Rightarrow> str \<Rightarrow> bool" where
  "needs_prompt w cmd \<longleftrightarrow> fst (evaluate_gray_zone_operation w cmd None) = PROMPT"

text \<open>The tax is due, and due from a command that changes something.\<close>

definition taxed :: "'a audit_world_scheme \<Rightarrow> audit_args \<Rightarrow> str \<Rightarrow> bool" where
  "taxed w a cmd \<longleftrightarrow> complexity_tax_enabled w \<and> \<not> (aa_origin a = HUMAN \<and> origin_weighting_enabled w)
     \<and> complexity_threshold w < structural (compute_semantic_complexity cmd)"

definition taxed_mutation :: "'a audit_world_scheme \<Rightarrow> audit_args \<Rightarrow> str \<Rightarrow> bool" where
  "taxed_mutation w a cmd \<longleftrightarrow> taxed w a cmd \<and> has_mutation (compute_semantic_complexity cmd)"

text \<open>The judge has a reason: a remembered approval or a confident response.\<close>

definition judged :: "'a audit_world_scheme \<Rightarrow> judge_args \<Rightarrow> str \<Rightarrow> str \<Rightarrow> 'b judge_state_scheme \<Rightarrow> bool" where
  "judged w j cmd ctx s \<longleftrightarrow>
     fst (check_approval (sha w) (ja_scope j) cmd (ja_cwd j) (clock w) s) \<noteq> None \<or> confident_response w j (judge_messages cmd ctx)"

definition dialog_targets :: "str \<Rightarrow> str list" where
  "dialog_targets cmd =
     (if is_edit cmd then edit_paths cmd
      else if starts_with cmd ''access_directory '' \<or> starts_with cmd ''read_file '' then [after_blank cmd] else [])"

definition harmless_target :: "'a world_scheme \<Rightarrow> str \<Rightarrow> bool" where
  "harmless_target w p \<longleftrightarrow> \<not> unmasked_secret p \<and> classify_resource_tier w p \<noteq> T4_CRITICAL"

definition policy_allows :: "'a audit_world_scheme \<Rightarrow> str \<Rightarrow> str \<Rightarrow> str \<Rightarrow> policy_store \<Rightarrow> bool" where
  "policy_allows w cwd action cmd ps \<longleftrightarrow>
     (\<exists>path policy target. discover_workspace_policy w cwd = Some path \<and> fst (load_policy w path ps) = Some policy
        \<and> workspace_target cmd action = Some target \<and> check_rule w policy action target = Some True)"

inductive licensed :: "'a audit_world_scheme \<Rightarrow> audit_args \<Rightarrow> str \<Rightarrow> 'b audit_state_scheme \<Rightarrow> decision_layer \<Rightarrow> bool"
  for w a cmd s where
  nothing: "cmd = [] \<or> cmd = ''feedback_survey_skip'' \<Longrightarrow> licensed w a cmd s FAST_TRACK_AST"
| dialog: "dialog_targets cmd \<noteq> [] \<Longrightarrow> \<forall>p \<in> set (dialog_targets cmd). harmless_target w p \<Longrightarrow> licensed w a cmd s FAST_TRACK_AST"
| dialog_policy: "dialog_targets cmd \<noteq> [] \<Longrightarrow> \<forall>p \<in> set (dialog_targets cmd). harmless_target w p
     \<Longrightarrow> policy_allows w (aa_cwd a) action cmd (policies s) \<Longrightarrow> licensed w a cmd s FAST_TRACK_WORKSPACE_ALLOWLIST"
| unhandled: "starts_with cmd ''unhandled_dialog '' \<Longrightarrow> judged w (judge_by_member a) cmd UNHANDLED_CONTEXT s
     \<Longrightarrow> licensed w a cmd s CLOUD_JUDGE"
| managed_git: "re_found MANAGED_GIT_HOST_PATTERN cmd \<Longrightarrow> \<not> re_found (re_ci ''-X%s*DELETE%b'') cmd
     \<Longrightarrow> licensed w a cmd s MANAGED_GIT_GUARD"
| gray_zone: "unobjectionable w cmd \<Longrightarrow> needs_prompt w cmd \<Longrightarrow> \<not> taxed w a cmd
     \<Longrightarrow> evaluate_gray_zone_operation w cmd None = (PROMPT, reason, Some payload)
     \<Longrightarrow> judged w (judge_by_member a) cmd (format_decision_guidance payload) s \<Longrightarrow> licensed w a cmd s CLOUD_JUDGE"
| diagnostic: "unobjectionable w cmd \<Longrightarrow> taxed w a cmd \<Longrightarrow> \<not> taxed_mutation w a cmd
     \<Longrightarrow> judged w (judge_by_value w a) cmd ''Read-only diagnostic chain; no mutating segments'' s \<Longrightarrow> licensed w a cmd s CLOUD_JUDGE"
| fast_track: "unobjectionable w cmd \<Longrightarrow> \<not> needs_prompt w cmd
     \<Longrightarrow> fst (classify_routine_git_workflow cmd) = ''SAFE'' \<or> is_fast_track_allowlisted cmd \<or> is_fast_track_test_runner cmd
     \<Longrightarrow> licensed w a cmd s FAST_TRACK_AST"
| policy: "unobjectionable w cmd \<Longrightarrow> \<not> needs_prompt w cmd \<Longrightarrow> policy_allows w (aa_cwd a) ''exec'' cmd (policies s)
     \<Longrightarrow> licensed w a cmd s FAST_TRACK_WORKSPACE_ALLOWLIST"
| approved: "unobjectionable w cmd \<Longrightarrow> \<not> needs_prompt w cmd \<Longrightarrow> \<not> taxed w a cmd
     \<Longrightarrow> has_human_approval_pattern (normalize_command cmd) (aa_scope a) (clock w) s \<Longrightarrow> licensed w a cmd s HUMAN_APPROVED"
| package_query: "unobjectionable w cmd \<Longrightarrow> \<not> needs_prompt w cmd \<Longrightarrow> \<not> taxed w a cmd
     \<Longrightarrow> classify_package_command cmd = Some (manager, READ_ONLY, packages) \<Longrightarrow> licensed w a cmd s PACKAGE_GUARD"

subsection \<open>What the guards let through\<close>

definition only_refuses :: "answer option \<Rightarrow> bool" where
  "only_refuses r \<longleftrightarrow> (\<forall>v. r = Some v \<longrightarrow> \<not> fst v)"

named_theorems refusing_simps

lemma only_refuses_simps [refusing_simps]:
  "only_refuses None" "only_refuses (Some (ok, reason, layer)) \<longleftrightarrow> \<not> ok" "only_refuses (refuse b reason layer)"
  by (simp_all add: only_refuses_def refuse_def)

lemma first_some_refuses:
  assumes "\<And>x. only_refuses (f x)"
  shows "only_refuses (first_some f xs)"
  using assms unfolding only_refuses_def by (blast dest: first_some_SomeD)

lemma inline_python_refuses [refusing_simps]: "only_refuses (inline_python_guard w re label cmd)"
  by (auto simp: inline_python_guard_def refusing_simps split: option.split prod.split bool.split)

lemma sast_refuses [refusing_simps]:
  "only_refuses (shellcheck_guard w cmd)" "only_refuses (semgrep_guard w cmd)"
  "only_refuses (dangerous_git_guard cmd)" "only_refuses (gray_block_guard w cmd)" "only_refuses (system_dir_guard cmd)"
  by (simp_all add: guard_defs case_prod_unfold refusing_simps)

lemma critical_refuses [refusing_simps]: "only_refuses (critical_pattern_guard cmd)" "only_refuses (env_dump_guard cmd)"
  by (simp add: critical_pattern_guard_def case_prod_unfold first_some_refuses refusing_simps)
     (auto simp: env_dump_guard_def only_refuses_def)

lemma sandbox_refuses [refusing_simps]: "only_refuses (sandbox_write_guard cmd)"
  by (simp add: sandbox_write_guard_def sandbox_segment_guard_def first_some_refuses refusing_simps)

lemma refuses_or_else: "only_refuses a \<Longrightarrow> only_refuses b \<Longrightarrow> only_refuses (case a of Some v \<Rightarrow> Some v | None \<Rightarrow> b)"
  by (cases a) simp_all

lemma secret_segment_refuses [refusing_simps]: "only_refuses (secret_segment_guard sub)"
  unfolding secret_segment_guard_def by (intro refuses_or_else first_some_refuses only_refuses_simps)

lemma secret_refuses [refusing_simps]: "only_refuses (search_target_guard cmd)" "only_refuses (secret_guard cmd)"
proof -
  have "only_refuses (case executable_name sub of None \<Rightarrow> None
      | Some exe \<Rightarrow> refuse (is_search_tool exe \<and> search_has_sensitive_target sub) reason SECRET_GUARD)" for sub reason
    by (simp add: refusing_simps split: option.split)
  then show "only_refuses (search_target_guard cmd)" unfolding search_target_guard_def by (rule first_some_refuses)
qed (simp add: secret_guard_def first_some_refuses refusing_simps)

lemma refusal_guards_refuse:
  assumes "Some v \<in> set (refusal_guards w cmd)"
  shows "\<not> fst v"
proof -
  have "list_all only_refuses (refusal_guards w cmd)"
    by (simp add: refusal_guards_def heredoc_python_guard_def dash_c_python_guard_def refusing_simps)
  with assms show ?thesis unfolding list_all_iff only_refuses_def by blast
qed

lemma managed_git_answer:
  assumes "managed_git_guard cmd = Some (True, reason, layer)"
  shows "layer = MANAGED_GIT_GUARD \<and> re_found MANAGED_GIT_HOST_PATTERN cmd \<and> \<not> re_found (re_ci ''-X%s*DELETE%b'') cmd"
  using assms by (auto simp: managed_git_guard_def is_managed_git_safe_command_def split: if_splits)

subsection \<open>Stages that use the state\<close>

lemma only_refusals_policies [simp]: "only_refusals (s\<lparr>policies := ps\<rparr>) \<longleftrightarrow> only_refusals s"
  by (simp add: only_refusals_def)

definition with_policies :: "policy_store \<Rightarrow> 'b audit_state_scheme \<Rightarrow> 'b audit_state_scheme" where
  "with_policies ps s = s\<lparr>policies := ps\<rparr>"

lemma with_policies_select [simp]:
  "exact (with_policies ps s) = exact s" "templates (with_policies ps s) = templates s" "rows (with_policies ps s) = rows s"
  by (simp_all add: with_policies_def)

lemma with_policies_update [simp]:
  "(with_policies ps s)\<lparr>exact := x\<rparr> = with_policies ps (s\<lparr>exact := x\<rparr>)"
  "(with_policies ps s)\<lparr>templates := y\<rparr> = with_policies ps (s\<lparr>templates := y\<rparr>)"
  by (simp_all add: with_policies_def)

lemma check_exact_policies: "check_exact p fp t (with_policies ps s) = (fst (check_exact p fp t s), with_policies ps (snd (check_exact p fp t s)))"
  by (cases "map_of (exact s) (p, fp)") (simp_all add: check_exact_def)

lemma check_template_policies:
  "check_template p tm t (with_policies ps s) = (fst (check_template p tm t s), with_policies ps (snd (check_template p tm t s)))"
  by (cases tm) (simp_all add: check_template_def split: option.split)

lemma check_persistent_policies:
  "check_persistent p fp c d tm t (with_policies ps s)
     = (fst (check_persistent p fp c d tm t s), with_policies ps (snd (check_persistent p fp c d tm t s)))"
  by (cases "map_of (rows s) (pane_mem_key p fp)") (simp_all add: check_persistent_def Let_def)

lemma memory_ignores_policies [simp]:
  "fst (check_approval hash p c d t (s\<lparr>policies := ps\<rparr>)) = fst (check_approval hash p c d t s)"
proof -
  let ?fp = "normalize_cmd_fingerprint hash c d" and ?t = "extract_safe_command_template c"
  obtain v1 s1 where e1: "check_exact (norm_pane p) ?fp t s = (v1, s1)" by (cases "check_exact (norm_pane p) ?fp t s")
  obtain v2 s2 where e2: "check_template (norm_pane p) ?t t s1 = (v2, s2)" by (cases "check_template (norm_pane p) ?t t s1")
  have "fst (check_approval hash p c d t (with_policies ps s)) = fst (check_approval hash p c d t s)"
    using e1 e2 by (cases v1; cases v2)
      (simp_all add: check_approval_def Let_def check_exact_policies check_template_policies check_persistent_policies)
  then show ?thesis by (simp add: with_policies_def)
qed

lemma judged_policies [simp]: "judged w j cmd ctx (s\<lparr>policies := ps\<rparr>) \<longleftrightarrow> judged w j cmd ctx s"
  by (simp add: judged_def)

text \<open>The judge, as the audit uses it.\<close>

definition colon_free :: "(str \<Rightarrow> str) \<Rightarrow> bool" where
  "colon_free f \<longleftrightarrow> (\<forall>x. CHR '':'' \<notin> set (f x))"

lemma judge_refusals:
  assumes "only_refusals s" and "colon_free (sha w)" and "audit_with_cloud_judge w j cmd ctx s = (v, t)"
  shows "only_refusals t"
  using cloud_judge_sound [OF assms(1), of w j cmd ctx] assms(2,3) by (simp add: colon_free_def)

lemma judge_judged:
  assumes "only_refusals s" and "colon_free (sha w)" and "audit_with_cloud_judge w j cmd ctx s = ((True, reason), t)"
  shows "judged w j cmd ctx s"
  using cloud_judge_sound [OF assms(1), of w j cmd ctx] assms(2,3) by (simp add: colon_free_def judged_def)

lemma workspace_policies:
  assumes "check_workspace_allowlist w cmd cwd action s = (r, t)"
  shows "\<exists>ps. t = s\<lparr>policies := ps\<rparr>"
proof -
  have same: "\<exists>ps. s = s\<lparr>policies := ps\<rparr>" by (rule exI [of _ "policies s"]) simp
  show ?thesis
  proof (cases "discover_workspace_policy w cwd")
    case None
    with assms same show ?thesis by (simp add: check_workspace_allowlist_def)
  next
    case (Some path)
    with assms show ?thesis
      by (cases "load_policy w path (policies s)"; cases "fst (load_policy w path (policies s))")
         (auto simp: check_workspace_allowlist_def)
  qed
qed

lemma workspace_hit:
  assumes "check_workspace_allowlist w cmd cwd action s = (Some reason, t)"
  shows "policy_allows w cwd action cmd (policies s)"
proof (cases "discover_workspace_policy w cwd")
  case None
  with assms show ?thesis by (simp add: check_workspace_allowlist_def)
next
  case (Some path)
  show ?thesis
  proof (cases "load_policy w path (policies s)")
    case (Pair q ps)
    with Some assms show ?thesis
      by (cases q) (auto simp: check_workspace_allowlist_def policy_allows_def split: option.splits if_splits)
  qed
qed

lemma workspace_stage_pass: "workspace_stage w a cmd action s = (None, t) \<Longrightarrow> \<exists>ps. t = s\<lparr>policies := ps\<rparr>"
  unfolding workspace_stage_def
  by (rule workspace_policies [where r = "fst (check_workspace_allowlist w cmd (aa_cwd a) action s)" and action = action and w = w
        and cmd = cmd and cwd = "aa_cwd a"]) (auto split: prod.splits option.splits)

lemma workspace_stage_answer:
  assumes "workspace_stage w a cmd action s = (Some v, t)"
  shows "\<exists>reason ps. v = (True, reason, FAST_TRACK_WORKSPACE_ALLOWLIST) \<and> t = s\<lparr>policies := ps\<rparr>
     \<and> policy_allows w (aa_cwd a) action cmd (policies s)"
proof (cases "check_workspace_allowlist w cmd (aa_cwd a) action s")
  case (Pair r u)
  with assms obtain reason where r: "r = Some reason" "v = (True, reason, FAST_TRACK_WORKSPACE_ALLOWLIST)" "u = t"
    by (cases r) (auto simp: workspace_stage_def)
  with Pair workspace_policies [OF Pair] workspace_hit [of w cmd "aa_cwd a" action s reason t] show ?thesis by blast
qed

subsection \<open>The complexity tax\<close>

lemma tax_pass:
  assumes "apply_complexity_tax w a cmd s = (None, t)"
  shows "t = s \<and> \<not> taxed w a cmd"
  using assms by (auto simp: apply_complexity_tax_def taxed_def Let_def split: if_splits prod.splits bool.splits)

lemma tax_approves:
  assumes "apply_complexity_tax w a cmd s = (Some (True, reason, layer), t)" and "only_refusals s" and "colon_free (sha w)"
  shows "layer = CLOUD_JUDGE \<and> taxed w a cmd \<and> \<not> taxed_mutation w a cmd
     \<and> judged w (judge_by_value w a) cmd ''Read-only diagnostic chain; no mutating segments'' s"
proof -
  have t: "taxed w a cmd" "\<not> has_mutation (compute_semantic_complexity cmd)"
    using assms(1) by (auto simp: apply_complexity_tax_def taxed_def Let_def split: if_splits)
  obtain ok r u where j: "audit_with_cloud_judge w (judge_by_value w a) cmd ''Read-only diagnostic chain; no mutating segments'' s = ((ok, r), u)"
    by (metis prod.collapse)
  from assms(1) t j have "ok" "layer = CLOUD_JUDGE"
    by (auto simp: apply_complexity_tax_def taxed_def Let_def split: if_splits bool.splits)
  with t j judge_judged [OF assms(2,3)] show ?thesis by (auto simp: taxed_mutation_def)
qed

lemma tax_refusals:
  assumes "apply_complexity_tax w a cmd s = (r, t)" and "only_refusals s" and "colon_free (sha w)"
  shows "only_refusals t"
proof -
  obtain ok c u where j: "audit_with_cloud_judge w (judge_by_value w a) cmd ''Read-only diagnostic chain; no mutating segments'' s = ((ok, c), u)"
    by (metis prod.collapse)
  from judge_refusals [OF assms(2,3) j] assms(1,2) j show ?thesis
    by (auto simp: apply_complexity_tax_def Let_def split: if_splits bool.splits)
qed

subsection \<open>The gray zone\<close>

lemma gray_pass:
  assumes "gray_prompt_stage w a cmd s = (None, t)"
  shows "t = s \<and> \<not> needs_prompt w cmd"
proof -
  obtain v reason p where e: "evaluate_gray_zone_operation w cmd None = (v, reason, p)" by (metis prod.collapse)
  have "p = None \<longrightarrow> v = ALLOW" using e by (auto simp: evaluate_gray_zone_operation_def Let_def split: prod.splits if_splits)
  with e assms show ?thesis
    by (cases v; cases p) (auto simp: gray_prompt_stage_def needs_prompt_def Let_def split: option.splits prod.splits bool.splits)
qed

lemma gray_answer:
  assumes "gray_prompt_stage w a cmd s = (Some v, t)"
  obtains payload reason where "evaluate_gray_zone_operation w cmd None = (PROMPT, reason, Some payload)"
    "apply_complexity_tax w a cmd s = (Some v, t)"
  | payload reason ok r u layer msg where "evaluate_gray_zone_operation w cmd None = (PROMPT, reason, Some payload)"
    "\<not> taxed w a cmd" "audit_with_cloud_judge w (judge_by_member a) cmd (format_decision_guidance payload) s = ((ok, r), t)"
    "v = (ok, msg, layer)" "ok \<longrightarrow> layer = CLOUD_JUDGE"
proof -
  obtain q reason p where e: "evaluate_gray_zone_operation w cmd None = (q, reason, p)" by (metis prod.collapse)
  with assms obtain payload where p: "q = PROMPT" "p = Some payload"
    by (cases q; cases p) (auto simp: gray_prompt_stage_def)
  obtain b u where tax: "apply_complexity_tax w a cmd s = (b, u)" by (metis prod.collapse)
  show thesis
  proof (cases b)
    case (Some x)
    with assms e p tax show thesis by (intro that(1)) (auto simp: gray_prompt_stage_def)
  next
    case None
    with tax_pass tax have u: "u = s" "\<not> taxed w a cmd" by blast+
    obtain ok r t' where j: "audit_with_cloud_judge w (judge_by_member a) cmd (format_decision_guidance payload) s = ((ok, r), t')"
      by (metis prod.collapse)
    from assms e p tax None u j that(2) [of reason payload ok r] show thesis
      by (cases ok) (auto simp: gray_prompt_stage_def Let_def)
  qed
qed

lemma gray_licensed:
  assumes "gray_prompt_stage w a cmd s = (Some (True, reason, layer), t)" and "only_refusals s" and "colon_free (sha w)"
    and "unobjectionable w cmd"
  shows "licensed w a cmd s layer"
  using assms(1)
proof (rule gray_answer)
  fix payload r
  assume e: "evaluate_gray_zone_operation w cmd None = (PROMPT, r, Some payload)"
    and tax: "apply_complexity_tax w a cmd s = (Some (True, reason, layer), t)"
  from tax_approves [OF tax assms(2,3)] assms(4) show ?thesis by (auto intro: licensed.diagnostic)
next
  fix payload r ok c u l msg
  assume e: "evaluate_gray_zone_operation w cmd None = (PROMPT, r, Some payload)" "\<not> taxed w a cmd"
    and j: "audit_with_cloud_judge w (judge_by_member a) cmd (format_decision_guidance payload) s = ((ok, c), t)"
    and v: "(True, reason, layer) = (ok, msg, l)" "ok \<longrightarrow> l = CLOUD_JUDGE"
  from v j judge_judged [OF assms(2,3)] have "judged w (judge_by_member a) cmd (format_decision_guidance payload) s" by auto
  with e v licensed.gray_zone [OF assms(4) _ e(2) e(1)] show ?thesis by (auto simp: needs_prompt_def)
qed

lemma gray_refusals:
  assumes "gray_prompt_stage w a cmd s = (r, t)" and "only_refusals s" and "colon_free (sha w)"
  shows "only_refusals t"
proof (cases r)
  case None
  with gray_pass assms show ?thesis by blast
next
  case (Some v)
  with assms(1) have "gray_prompt_stage w a cmd s = (Some v, t)" by simp
  then show ?thesis
    by (rule gray_answer) (use tax_refusals judge_refusals assms(2,3) in blast)+
qed

subsection \<open>Dialogs\<close>

lemma dialog_prefixes [simp]:
  "starts_with cmd ''access_directory '' \<Longrightarrow> \<not> is_edit cmd"
  "starts_with cmd ''read_file '' \<Longrightarrow> \<not> is_edit cmd"
  by (auto simp: is_edit_def starts_with_def prefix_def)

lemma edit_refusal_harmless: "edit_refusal w op p = None \<Longrightarrow> harmless_target w p"
  by (auto simp: edit_refusal_def harmless_target_def split: if_splits)

lemma access_refusal_harmless: "access_refusal w p = None \<Longrightarrow> harmless_target w p"
  by (auto simp: access_refusal_def harmless_target_def unmasked_secret_def split: if_splits)

lemma read_refusal_harmless: "read_refusal w p = None \<Longrightarrow> harmless_target w p"
  by (auto simp: read_refusal_def harmless_target_def split: if_splits)

text \<open>The end of a dialog whose targets are harmless: the policy or the fast track.\<close>

lemma dialog_end_licensed:
  assumes "(case workspace_stage w a cmd action s of (Some v, s') \<Rightarrow> (Some v, s') | (None, s') \<Rightarrow> (Some (True, msg, FAST_TRACK_AST), s'))
      = (Some (True, reason, layer), t)"
    and "dialog_targets cmd \<noteq> []" "\<forall>p \<in> set (dialog_targets cmd). harmless_target w p"
  shows "licensed w a cmd s layer"
proof -
  obtain r u where st: "workspace_stage w a cmd action s = (r, u)" by (metis prod.collapse)
  show ?thesis
  proof (cases r)
    case None
    with st assms show ?thesis by (auto intro: licensed.dialog)
  next
    case (Some v)
    with workspace_stage_answer [OF st [unfolded Some]] st assms show ?thesis by (auto intro: licensed.dialog_policy)
  qed
qed

lemma edit_licensed:
  assumes "edit_dialog w a cmd s = (Some (True, reason, layer), t)"
  shows "licensed w a cmd s layer"
proof -
  from assms have h: "is_edit cmd" and ne: "edit_paths cmd \<noteq> []"
    by (auto simp: edit_dialog_def Let_def split: if_splits)
  have r: "first_some (edit_refusal w (edit_op cmd)) (edit_paths cmd) = None"
  proof (cases "first_some (edit_refusal w (edit_op cmd)) (edit_paths cmd)")
    case (Some v)
    have "only_refuses (first_some (edit_refusal w (edit_op cmd)) (edit_paths cmd))"
      by (rule first_some_refuses) (simp add: edit_refusal_def refusing_simps)
    with Some assms h ne show ?thesis by (auto simp: edit_dialog_def Let_def refusing_simps)
  qed
  then have harmless: "\<forall>p \<in> set (dialog_targets cmd). harmless_target w p" "dialog_targets cmd \<noteq> []"
    using h ne by (auto simp: dialog_targets_def first_some_None dest: edit_refusal_harmless)
  show ?thesis
  proof (cases "length (edit_paths cmd) = 1")
    case True
    have "(case workspace_stage w a cmd ''edit_file'' s of (Some v, s') \<Rightarrow> (Some v, s')
        | (None, s') \<Rightarrow> (Some (True, ''Verified safe file '' @ edit_op cmd @ '': '' @ quoted (str_join '', '' (edit_paths cmd)), FAST_TRACK_AST), s'))
        = (Some (True, reason, layer), t)"
      using assms h ne r True by (simp add: edit_dialog_def Let_def)
    then show ?thesis by (rule dialog_end_licensed [OF _ harmless(2,1)])
  next
    case False
    with assms h ne r have "layer = FAST_TRACK_AST" by (auto simp: edit_dialog_def Let_def)
    with harmless show ?thesis by (auto intro: licensed.dialog)
  qed
qed

lemma access_licensed:
  assumes "access_dialog w a cmd s = (Some (True, reason, layer), t)"
  shows "licensed w a cmd s layer"
proof -
  have h: "starts_with cmd ''access_directory ''" using assms by (auto simp: access_dialog_def split: if_splits)
  have "only_refuses (access_refusal w (after_blank cmd))" by (simp add: access_refusal_def refusing_simps)
  with assms h have r: "access_refusal w (after_blank cmd) = None"
    by (cases "access_refusal w (after_blank cmd)") (auto simp: access_dialog_def refusing_simps)
  with h have "dialog_targets cmd \<noteq> []" "\<forall>p \<in> set (dialog_targets cmd). harmless_target w p"
    by (simp_all add: dialog_targets_def access_refusal_harmless)
  from dialog_end_licensed [where action = "''access_directory''" and a = a, OF _ this] assms h r show ?thesis
    by (simp add: access_dialog_def)
qed

lemma read_licensed:
  assumes "read_dialog w a cmd s = (Some (True, reason, layer), t)"
  shows "licensed w a cmd s layer"
proof -
  have h: "starts_with cmd ''read_file ''" using assms by (auto simp: read_dialog_def split: if_splits)
  have "only_refuses (read_refusal w (after_blank cmd))" by (simp add: read_refusal_def refusing_simps)
  with assms h have r: "read_refusal w (after_blank cmd) = None"
    by (cases "read_refusal w (after_blank cmd)") (auto simp: read_dialog_def refusing_simps)
  with h have "dialog_targets cmd \<noteq> []" "\<forall>p \<in> set (dialog_targets cmd). harmless_target w p"
    by (simp_all add: dialog_targets_def read_refusal_harmless)
  from dialog_end_licensed [where action = "''read_file''" and a = a, OF _ this] assms h r show ?thesis
    by (simp add: read_dialog_def)
qed

lemma unhandled_licensed:
  assumes "unhandled_dialog w a cmd s = (Some (True, reason, layer), t)" and "only_refusals s" and "colon_free (sha w)"
  shows "licensed w a cmd s layer"
proof -
  obtain ok r u where j: "audit_with_cloud_judge w (judge_by_member a) cmd UNHANDLED_CONTEXT s = ((ok, r), u)"
    by (metis prod.collapse)
  with assms(1) have "starts_with cmd ''unhandled_dialog ''" "ok" "layer = CLOUD_JUDGE"
    by (auto simp: unhandled_dialog_def split: if_splits bool.splits)
  with judge_judged [OF assms(2,3)] j show ?thesis by (auto intro: licensed.unhandled)
qed

lemma dialog_pass:
  "edit_dialog w a cmd s = (None, t) \<Longrightarrow> t = s" "access_dialog w a cmd s = (None, t) \<Longrightarrow> t = s"
  "read_dialog w a cmd s = (None, t) \<Longrightarrow> t = s" "unhandled_dialog w a cmd s = (None, t) \<Longrightarrow> t = s"
  by (auto simp: edit_dialog_def access_dialog_def read_dialog_def unhandled_dialog_def Let_def
      split: if_splits option.splits prod.splits bool.splits)

text \<open>What a dialog stage leaves of the state.\<close>

lemma dialog_end_refusals:
  assumes "(case workspace_stage w a cmd action s of (Some v, s') \<Rightarrow> (Some v, s') | (None, s') \<Rightarrow> (x, s')) = (r, t)" and "only_refusals s"
  shows "only_refusals t"
proof -
  obtain b u where st: "workspace_stage w a cmd action s = (b, u)" by (metis prod.collapse)
  then have "\<exists>ps. u = s\<lparr>policies := ps\<rparr>" using workspace_stage_pass workspace_stage_answer by (cases b) blast+
  with st assms show ?thesis by (cases b) auto
qed

lemma dialog_refusals:
  assumes "only_refusals s"
  shows "edit_dialog w a cmd s = (r, t) \<Longrightarrow> only_refusals t" "access_dialog w a cmd s = (r, t) \<Longrightarrow> only_refusals t"
    "read_dialog w a cmd s = (r, t) \<Longrightarrow> only_refusals t"
proof -
  note e = dialog_end_refusals [OF _ assms]
  show "only_refusals t" if "access_dialog w a cmd s = (r, t)"
    using that assms e [where action = "''access_directory''" and w = w and a = a and cmd = cmd and r = r and t = t]
    by (cases "access_refusal w (after_blank cmd)") (auto simp: access_dialog_def split: if_splits)
  show "only_refusals t" if "read_dialog w a cmd s = (r, t)"
    using that assms e [where action = "''read_file''" and w = w and a = a and cmd = cmd and r = r and t = t]
    by (cases "read_refusal w (after_blank cmd)") (auto simp: read_dialog_def split: if_splits)
  show "only_refusals t" if "edit_dialog w a cmd s = (r, t)"
  proof (cases "length (edit_paths cmd) = 1 \<and> is_edit cmd \<and> first_some (edit_refusal w (edit_op cmd)) (edit_paths cmd) = None")
    case True
    moreover from True have "edit_paths cmd \<noteq> []" by auto
    ultimately show ?thesis using that e [where action = "''edit_file''" and w = w and a = a and cmd = cmd and r = r and t = t] by (simp add: edit_dialog_def Let_def)
  next
    case False
    with that assms show ?thesis
      by (cases "first_some (edit_refusal w (edit_op cmd)) (edit_paths cmd)")
         (auto simp: edit_dialog_def Let_def split: if_splits)
  qed
qed

lemma unhandled_refusals:
  assumes "unhandled_dialog w a cmd s = (r, t)" and "only_refusals s" and "colon_free (sha w)"
  shows "only_refusals t"
proof -
  obtain ok c u where j: "audit_with_cloud_judge w (judge_by_member a) cmd UNHANDLED_CONTEXT s = ((ok, c), u)"
    by (metis prod.collapse)
  from judge_refusals [OF assms(2,3) j] assms(1,2) j show ?thesis
    by (auto simp: unhandled_dialog_def split: if_splits bool.splits)
qed

subsection \<open>Every approval is licensed\<close>

lemma tail_licensed:
  assumes "run_stages [pure_stage (fast_track_guard cmd), pure_stage (test_runner_guard cmd), apply_complexity_tax w a cmd,
      approved_pattern_stage w a cmd, pure_stage (package_guard cmd), pure_stage (degraded_guard w cmd)] default_refusal s
    = ((True, reason, layer), t)"
    and s: "only_refusals s" "colon_free (sha w)" and u: "unobjectionable w cmd" and g: "\<not> needs_prompt w cmd"
  shows "licensed w a cmd s layer \<and> layer \<noteq> FAST_TRACK_WORKSPACE_ALLOWLIST"
  using assms(1)
proof (cases rule: run_stages_pure_step)
  case answer
  with u g show ?thesis by (auto simp: fast_track_guard_def intro: licensed.fast_track split: if_splits)
next
  case pass
  from pass(2) show ?thesis
  proof (cases rule: run_stages_pure_step)
    case answer
    with u g show ?thesis by (auto simp: test_runner_guard_def intro: licensed.fast_track split: if_splits)
  next
    case pass
    from pass(2) show ?thesis
    proof (cases rule: run_stages_step)
      case answer
      with tax_approves [OF answer s] u show ?thesis by (auto intro: licensed.diagnostic)
    next
      case (pass t1)
      from tax_pass [OF pass(1)] have t1: "t1 = s" "\<not> taxed w a cmd" by blast+
      from pass(2) show ?thesis
      proof (cases rule: run_stages_step)
        case answer
        with t1 u g show ?thesis by (auto simp: approved_pattern_stage_def Let_def intro: licensed.approved split: if_splits)
      next
        case (pass t2)
        from pass(2) show ?thesis
        proof (cases rule: run_stages_pure_step)
          case answer
          with t1 u g show ?thesis
            by (auto simp: package_guard_def intro: licensed.package_query split: option.splits action_class.splits)
        next
          case pass
          from pass(2) show ?thesis
            by (cases rule: run_stages_pure_step) (auto simp: degraded_guard_def refuse_def default_refusal_def split: if_splits)
        qed
      qed
    qed
  qed
qed

lemma licensed_policies: "licensed w a cmd (s\<lparr>policies := ps\<rparr>) layer \<Longrightarrow> layer \<noteq> FAST_TRACK_WORKSPACE_ALLOWLIST \<Longrightarrow> licensed w a cmd s layer"
  by (erule licensed.cases) (auto simp: has_human_approval_pattern_def intro: licensed.intros)

lemma approval_stages_licensed:
  assumes "run_stages (approval_stages w a cmd) default_refusal s = ((True, reason, layer), t)"
    and s: "only_refusals s" "colon_free (sha w)" and u: "unobjectionable w cmd"
  shows "licensed w a cmd s layer"
  using assms(1) unfolding approval_stages_def
proof (cases rule: run_stages_step)
  case answer
  then show ?thesis by (rule gray_licensed [OF _ s u])
next
  case (pass t1)
  from gray_pass [OF pass(1)] have t1: "t1 = s" and g: "\<not> needs_prompt w cmd" by blast+
  from pass(2) show ?thesis unfolding t1
  proof (cases rule: run_stages_pure_step)
    case answer
    with u g show ?thesis by (auto simp: routine_git_guard_def intro: licensed.fast_track split: if_splits prod.splits)
  next
    case pass
    from pass(2) show ?thesis
    proof (cases rule: run_stages_step)
      case answer
      with workspace_stage_answer [OF answer] u g show ?thesis by (auto intro: licensed.policy)
    next
      case (pass t2)
      from workspace_stage_pass [OF pass(1)] obtain ps where t2: "t2 = s\<lparr>policies := ps\<rparr>" by blast
      have "licensed w a cmd t2 layer \<and> layer \<noteq> FAST_TRACK_WORKSPACE_ALLOWLIST"
        by (rule tail_licensed [OF pass(2) _ s(2) u g]) (simp add: t2 s(1))
      then show ?thesis using licensed_policies unfolding t2 by blast
    qed
  qed
qed

lemma guarded_licensed:
  assumes "run_stages (pure_stage (managed_git_guard cmd) # map pure_stage (refusal_guards w cmd) @ approval_stages w a cmd)
      default_refusal s = ((True, reason, layer), t)"
    and s: "only_refusals s" "colon_free (sha w)"
  shows "licensed w a cmd s layer"
  using assms(1)
proof (cases rule: run_stages_pure_step)
  case answer
  with managed_git_answer [OF answer(1)] show ?thesis by (auto intro: licensed.managed_git)
next
  case pass
  from pass(2) show ?thesis
  proof (cases rule: run_stages_guards)
    case answer
    with refusal_guards_refuse [OF answer(1)] show ?thesis by simp
  next
    case pass
    then have "unobjectionable w cmd" by (simp add: unobjectionable_def)
    with approval_stages_licensed [OF pass(2) s] show ?thesis .
  qed
qed

lemma dialogs_licensed:
  assumes "run_stages (dialog_stages w a cmd @ gs) default_refusal s = ((True, reason, layer), t)"
    and s: "only_refusals s" "colon_free (sha w)"
    and rest: "run_stages gs default_refusal s = ((True, reason, layer), t) \<Longrightarrow> licensed w a cmd s layer"
  shows "licensed w a cmd s layer"
  using assms(1) unfolding dialog_stages_def append.simps
proof (cases rule: run_stages_step)
  case answer
  then show ?thesis by (rule edit_licensed)
next
  case (pass t1)
  from dialog_pass(1) [OF pass(1)] pass(2) have "run_stages (access_dialog w a cmd # read_dialog w a cmd
      # pure_stage (human_dialog cmd) # unhandled_dialog w a cmd # gs) default_refusal s = ((True, reason, layer), t)" by simp
  then show ?thesis
  proof (cases rule: run_stages_step)
    case answer
    then show ?thesis by (rule access_licensed)
  next
    case (pass t2)
    from dialog_pass(2) [OF pass(1)] pass(2) have "run_stages (read_dialog w a cmd
        # pure_stage (human_dialog cmd) # unhandled_dialog w a cmd # gs) default_refusal s = ((True, reason, layer), t)" by simp
    then show ?thesis
    proof (cases rule: run_stages_step)
      case answer
      then show ?thesis by (rule read_licensed)
    next
      case (pass t3)
      from dialog_pass(3) [OF pass(1)] pass(2) have "run_stages (pure_stage (human_dialog cmd) # unhandled_dialog w a cmd # gs)
          default_refusal s = ((True, reason, layer), t)" by simp
      then show ?thesis
      proof (cases rule: run_stages_pure_step)
        case answer
        then show ?thesis by (simp add: human_dialog_def split: if_splits)
      next
        case pass
        from pass(2) show ?thesis
        proof (cases rule: run_stages_step)
          case answer
          then show ?thesis by (rule unhandled_licensed [OF _ s])
        next
          case (pass t4)
          from dialog_pass(4) [OF pass(1)] pass(2) show ?thesis by (intro rest) simp
        qed
      qed
    qed
  qed
qed

lemma static_licensed:
  assumes "audit_static_shell_command w a cmd s = ((True, reason, layer), t)" and s: "only_refusals s" "colon_free (sha w)"
  shows "licensed w a (strip cmd) s layer"
proof (cases "strip cmd = [] \<or> strip cmd = ''feedback_survey_skip''")
  case True
  with assms(1) show ?thesis by (auto simp: audit_static_shell_command_def intro: licensed.nothing)
next
  case False
  with assms(1) have "run_stages (dialog_stages w a (strip cmd) @ pure_stage (managed_git_guard (strip cmd))
      # map pure_stage (refusal_guards w (strip cmd)) @ approval_stages w a (strip cmd)) default_refusal s = ((True, reason, layer), t)"
    by (simp add: audit_static_shell_command_def Let_def)
  then show ?thesis
    by (rule dialogs_licensed [OF _ s]) (rule guarded_licensed [OF _ s])
qed

text \<open>The caches stay free of approvals.\<close>

lemma static_refusals:
  assumes "audit_static_shell_command w a cmd s = (v, t)" and s: "only_refusals s" "colon_free (sha w)"
  shows "only_refusals t"
proof (cases "strip cmd = [] \<or> strip cmd = ''feedback_survey_skip''")
  case True
  with assms show ?thesis by (auto simp: audit_static_shell_command_def)
next
  case False
  let ?gs = "dialog_stages w a (strip cmd) @ pure_stage (managed_git_guard (strip cmd))
      # map pure_stage (refusal_guards w (strip cmd)) @ approval_stages w a (strip cmd)"
  have keeps: "only_refusals u" if g: "g \<in> set ?gs" and r: "only_refusals r" and e: "g r = (b, u)" for g r b u
  proof -
    have pure: "only_refusals u" if "g = pure_stage x" for x using that e r by (simp add: pure_stage_def)
    have ws: "only_refusals u" if "g = workspace_stage w a (strip cmd) ''exec''"
    proof -
      from that e have "workspace_stage w a (strip cmd) ''exec'' r = (b, u)" by simp
      then have "\<exists>ps. u = r\<lparr>policies := ps\<rparr>" using workspace_stage_pass workspace_stage_answer by (cases b) blast+
      with r show ?thesis by auto
    qed
    have ap: "only_refusals u" if "g = approved_pattern_stage w a (strip cmd)"
      using that e r by (auto simp: approved_pattern_stage_def Let_def split: if_splits)
    consider "\<exists>x. g = pure_stage x" | "g = workspace_stage w a (strip cmd) ''exec''" | "g = approved_pattern_stage w a (strip cmd)"
      | "g = gray_prompt_stage w a (strip cmd)" | "g = apply_complexity_tax w a (strip cmd)" | "g = edit_dialog w a (strip cmd)"
      | "g = access_dialog w a (strip cmd)" | "g = read_dialog w a (strip cmd)" | "g = unhandled_dialog w a (strip cmd)"
      using g by (auto simp: dialog_stages_def approval_stages_def)
    then show ?thesis
    proof cases
      case 1
      then show ?thesis using pure by blast
    next
      case 4
      with gray_refusals [OF _ r s(2)] e show ?thesis by blast
    next
      case 5
      with tax_refusals [OF _ r s(2)] e show ?thesis by blast
    next
      case 9
      with unhandled_refusals [OF _ r s(2)] e show ?thesis by blast
    qed (use ws ap dialog_refusals [OF r] e in blast)+
  qed
  from False assms(1) have "run_stages ?gs default_refusal s = (v, t)" by (simp add: audit_static_shell_command_def Let_def)
  then show ?thesis by (rule run_stages_state_invariant [where I = only_refusals, OF _ s(1)]) (rule keeps)
qed

lemma inspector_refusals:
  assumes "audit_dynamic_substitution_with_llm w j cmd hops s = (v, t)" and s: "only_refusals s" "colon_free (sha w)"
  shows "only_refusals t"
proof -
  obtain v1 s1 where r: "recall w j cmd cmd s = (v1, s1)" by (metis prod.collapse)
  from refusals_recall [OF s(1), of w j cmd cmd] s(2) r have s1: "only_refusals s1" by (simp add: colon_free_def)
  show ?thesis
  proof (cases "v1 = None \<and> fst (resolve_guard_llm_config (env w) None None None) \<noteq> []")
    case False
    with assms(1) r s1 show ?thesis
      by (cases v1) (auto simp: audit_dynamic_substitution_with_llm_def split: if_splits)
  next
    case True
    with assms(1) r s1 show ?thesis
      by (cases "inspect_hops w (ja_effort j) hops (inspector_messages cmd) []")
         (auto simp: audit_dynamic_substitution_with_llm_def Let_def refusals_phase refusals_remember refusals_cache)
  qed
qed

lemma approval_grounds:
  assumes "audit_shell_command w a cmd s = ((True, reason, layer), t)" and "only_refusals s" and "colon_free (sha w)"
  shows "only_refusals t \<and> (aa_origin a = HUMAN \<or> aa_origin a = AGENT)
     \<and> (if strip cmd = [] \<or> \<not> re_found DYNAMIC_SUBSTITUTION_PATTERN cmd then licensed w a (strip cmd) s layer
        else \<exists>res. resolve_dynamic_substitutions_locally w cmd MAX_HOPS = Inr res
          \<and> (if re_found DYNAMIC_SUBSTITUTION_PATTERN res then layer = LLM_INSPECTOR else \<exists>l. licensed w a (strip res) s l))"
proof -
  note rf = assms(2,3)
  have org: "aa_origin a = HUMAN \<or> aa_origin a = AGENT"
    using assms(1) by (cases "aa_origin a") (auto simp: audit_shell_command_def)
  then have ng: "\<not> (aa_origin a = INJECTED \<or> aa_origin a = EMERGENT)" by auto
  consider (empty) "strip cmd = []" | (static) "strip cmd \<noteq> []" "\<not> re_found DYNAMIC_SUBSTITUTION_PATTERN cmd"
    | (dynamic) "strip cmd \<noteq> []" "re_found DYNAMIC_SUBSTITUTION_PATTERN cmd" by blast
  then show ?thesis
  proof cases
    case empty
    with assms(1) ng have "layer = FAST_TRACK_AST" "t = s" by (auto simp: audit_shell_command_def)
    with empty org rf(1) show ?thesis by (auto intro: licensed.nothing)
  next
    case static
    with assms(1) ng have e: "audit_static_shell_command w a cmd s = ((True, reason, layer), t)" by (simp add: audit_shell_command_def)
    from static org static_licensed [OF e rf] static_refusals [OF e rf] show ?thesis by simp
  next
    case dynamic
    with assms(1) ng have e: "audit_dynamic_command w a cmd s = ((True, reason, layer), t)" by (simp add: audit_shell_command_def)
    then obtain res where res: "resolve_dynamic_substitutions_locally w cmd MAX_HOPS = Inr res"
      by (auto simp: audit_dynamic_command_def split: sum.splits)
    show ?thesis
    proof (cases "re_found DYNAMIC_SUBSTITUTION_PATTERN res")
      case True
      obtain v u where i: "audit_dynamic_substitution_with_llm w (inspector_args a) res MAX_HOPS s = (v, u)" by (metis prod.collapse)
      with e res True have "layer = LLM_INSPECTOR" "u = t" by (auto simp: audit_dynamic_command_def split: prod.splits)
      with inspector_refusals [OF i rf] dynamic org res True show ?thesis by auto
    next
      case False
      obtain ok r l u where st: "audit_static_shell_command w a res s = ((ok, r, l), u)" by (metis prod.collapse)
      with e res False have "ok" "u = t" by (auto simp: audit_dynamic_command_def split: bool.splits)
      with st have e': "audit_static_shell_command w a res s = ((True, r, l), t)" by simp
      from static_licensed [OF e' rf] static_refusals [OF e' rf] dynamic org res False show ?thesis by auto
    qed
  qed
qed

lemma audit_refusals:
  assumes "audit_shell_command w a cmd s = (v, t)" and "only_refusals s" and "colon_free (sha w)"
  shows "only_refusals t"
proof -
  obtain r u where st: "audit_static_shell_command w a cmd s = (r, u)" by (metis prod.collapse)
  show ?thesis
  proof (cases "strip cmd \<noteq> [] \<and> re_found DYNAMIC_SUBSTITUTION_PATTERN cmd")
    case False
    with assms st static_refusals [OF st assms(2,3)] show ?thesis by (auto simp: audit_shell_command_def split: if_splits)
  next
    case True
    have "only_refusals (snd (audit_dynamic_command w a cmd s))"
    proof (cases "resolve_dynamic_substitutions_locally w cmd MAX_HOPS")
      case (Inl e)
      with assms(2) show ?thesis by (simp add: audit_dynamic_command_def split: prod.splits)
    next
      case (Inr res)
      obtain v1 s1 where i: "audit_dynamic_substitution_with_llm w (inspector_args a) res MAX_HOPS s = (v1, s1)" by (metis prod.collapse)
      obtain ok rr l s2 where a2: "audit_static_shell_command w a res s = ((ok, rr, l), s2)" by (metis prod.collapse)
      from inspector_refusals [OF i assms(2,3)] static_refusals [OF a2 assms(2,3)] show ?thesis
        by (auto simp: audit_dynamic_command_def Inr i a2 split: prod.splits bool.splits)
    qed
    with assms(1,2) True show ?thesis by (auto simp: audit_shell_command_def split: if_splits)
  qed
qed

subsection \<open>Properties\<close>


text \<open>A command that is neither a dialog request nor addressed to a Managed Git host.\<close>

definition plain_command :: "str \<Rightarrow> bool" where
  "plain_command cmd \<longleftrightarrow> cmd \<noteq> [] \<and> cmd \<noteq> ''feedback_survey_skip'' \<and> \<not> is_edit cmd \<and> \<not> starts_with cmd ''access_directory ''
     \<and> \<not> starts_with cmd ''read_file '' \<and> \<not> starts_with cmd ''unhandled_dialog '' \<and> human_dialog cmd = None
     \<and> \<not> re_found MANAGED_GIT_HOST_PATTERN cmd"

text \<open>
  C7: The guards dominate.  When one of the refusing guards objects to a plain command, the
  audit refuses it with the answer of a guard, whatever the memory of the panes, the approvals
  of humans, the policies of the workspace and the model say - none of them is asked, the state
  is not touched.
\<close>

theorem guards_dominate:
  assumes "plain_command (strip cmd)" and "\<not> re_found DYNAMIC_SUBSTITUTION_PATTERN cmd"
    and "aa_origin a = HUMAN \<or> aa_origin a = AGENT"
    and "\<exists>g \<in> set (refusal_guards w (strip cmd)). g \<noteq> None"
  shows "\<exists>reason layer. audit_shell_command w a cmd s = ((False, reason, layer), s)
     \<and> Some (False, reason, layer) \<in> set (refusal_guards w (strip cmd))"
proof -
  let ?c = "strip cmd"
  obtain v where v: "Some v \<in> set (refusal_guards w ?c)"
    "run_stages (map pure_stage (refusal_guards w ?c) @ approval_stages w a ?c) default_refusal s = (v, s)"
    using run_stages_decided [OF assms(4)] .
  have "run_stages (dialog_stages w a ?c @ pure_stage (managed_git_guard ?c)
      # map pure_stage (refusal_guards w ?c) @ approval_stages w a ?c) default_refusal s = (v, s)"
    using assms(1) v(2) by (simp add: plain_command_def dialog_stages_def edit_dialog_def access_dialog_def read_dialog_def
        unhandled_dialog_def managed_git_guard_def stage_simps pure_stage_def [of None])
  with assms have "audit_shell_command w a cmd s = (v, s)"
    by (auto simp: audit_shell_command_def audit_static_shell_command_def plain_command_def Let_def)
  moreover from refusal_guards_refuse [OF v(1)] obtain reason layer where "v = (False, reason, layer)" by (cases v) auto
  ultimately show ?thesis using v(1) by blast
qed

text \<open>
  Shadow mode only observes.  The audit with taxonomy does to the state what the audit does;
  outside shadow mode its answer is that of the audit, in shadow mode it approves everything;
  the taxonomy records a counterfactual block for exactly the commands that would have been
  refused, and a real approval has no consequence.
\<close>

lemma shadow_mode_only_observes:
  "case audit_shell_command w a cmd s of ((ok, reason, layer), t) \<Rightarrow>
     (case audit_shell_command_with_taxonomy w a cmd s of (((ok', reason', layer'), tx), t') \<Rightarrow>
        t' = t \<and> layer' = layer
        \<and> (if is_shadow_mode (shadow_env w) then ok' else ok' = ok \<and> reason' = reason)
        \<and> (tx_counterfactual_block tx \<longleftrightarrow> is_shadow_mode (shadow_env w) \<and> \<not> ok)
        \<and> (if ok then tx_consequence tx = NO_CONSEQUENCE else True))"
  by (cases "audit_shell_command w a cmd s"; cases "fst (audit_shell_command w a cmd s)")
     (auto simp: audit_shell_command_with_taxonomy_def Let_def derived_safe)

definition audit_demo :: "str \<Rightarrow> audit_world" where
  "audit_demo answer = judge_world.extend (judge_demo True answer)
     \<lparr>complexity_tax_enabled = True, complexity_threshold = 5, origin_weighting_enabled = True\<rparr>"

definition args_demo :: audit_args where
  "args_demo = \<lparr>aa_cwd = [], aa_scope = ''p1'', aa_agent = ''a'', aa_origin = AGENT, aa_effort = ''low''\<rparr>"

definition state_demo :: audit_state where
  "state_demo = judge_state.extend judge_state_demo \<lparr>policies = \<lparr>policy_files = [], policy_memo = []\<rparr>\<rparr>"

definition args_demo2 :: "str \<Rightarrow> str \<Rightarrow> str \<Rightarrow> str \<Rightarrow> audit_args" where
  "args_demo2 cwd scope agent effort = \<lparr>aa_cwd = cwd, aa_scope = scope, aa_agent = agent, aa_origin = AGENT, aa_effort = effort\<rparr>"


theorem guards_dominate_witness:
  "\<not> fst (fst (audit_shell_command (audit_demo safe_reply) args_demo ''rm -rf build'' state_demo))"
proof -
  have c: "strip ''rm -rf build'' = ''rm -rf build''" by code_simp
  have "re_found (fst (hd CRITICAL_SHELL_PATTERNS)) ''rm -rf build''" unfolding CRITICAL_SHELL_PATTERNS_def list.sel fst_conv by code_simp
  then have "critical_pattern_guard ''rm -rf build'' \<noteq> None"
    unfolding critical_pattern_guard_def CRITICAL_SHELL_PATTERNS_def by (simp add: refuse_def)
  then have g: "\<exists>g \<in> set (refusal_guards (audit_demo safe_reply) (strip ''rm -rf build'')). g \<noteq> None"
    unfolding c refusal_guards_def by (intro bexI [of _ "critical_pattern_guard ''rm -rf build''"]) simp_all
  have "plain_command (strip ''rm -rf build'')" by code_simp
  moreover have "\<not> re_found DYNAMIC_SUBSTITUTION_PATTERN ''rm -rf build''" by code_simp
  moreover have "aa_origin args_demo = HUMAN \<or> aa_origin args_demo = AGENT" by (simp add: args_demo_def)
  ultimately show ?thesis using guards_dominate [OF _ _ _ g, of args_demo state_demo] by auto
qed


text \<open>
  A question to the human can be answered by the model: the text of a question with a
  quoted command reaches the inspector of substitutions before the rule that never approves
  questions, and the answer of the audit is the inspector's.
\<close>

lemma question_reaches_inspector:
  "audit_shell_command w (args_demo2 cwd scope agent effort) ''question: run `grep TODO src`?'' s
     = (case audit_dynamic_substitution_with_llm w (inspector_args (args_demo2 cwd scope agent effort)) ''question: run `grep TODO src`?'' MAX_HOPS s of
          ((ok, reason), t) \<Rightarrow> ((ok, reason, LLM_INSPECTOR), t))"
proof -
  let ?c = "''question: run `grep TODO src`?''"
  have d: "re_found DYNAMIC_SUBSTITUTION_PATTERN ?c" by code_simp
  have c: "strip ?c = ?c" by code_simp
  have f: "re_finditer STATIC_RESOLVABLE_SUBSTITUTION_PATTERN ?c = []" by code_simp
  have r: "resolve_dynamic_substitutions_locally w ?c MAX_HOPS = Inr ?c"
    by (simp add: resolve_dynamic_substitutions_locally_def MAX_HOPS_def numeral_2_eq_2 f)
  show ?thesis
    by (simp add: audit_shell_command_def audit_dynamic_command_def d c r args_demo2_def split: prod.split)
qed

text \<open>Without a substitution such requests are refused.\<close>

lemma human_dialogs_are_refused:
  assumes "human_dialog (strip cmd) \<noteq> None" and "\<not> re_found DYNAMIC_SUBSTITUTION_PATTERN cmd"
  shows "\<not> fst (fst (audit_shell_command w a cmd s)) \<and> snd (audit_shell_command w a cmd s) = s"
proof -
  let ?c = "strip cmd"
  obtain reason layer where h: "human_dialog ?c = Some (False, reason, layer)"
    using assms(1) by (auto simp: human_dialog_def split: if_splits)
  then have "?c = ''doom_loop'' \<or> starts_with ?c ''question''" by (auto simp: human_dialog_def split: if_splits)
  then have "\<not> is_edit ?c" "\<not> starts_with ?c ''access_directory ''" "\<not> starts_with ?c ''read_file ''" "?c \<noteq> []" "?c \<noteq> ''feedback_survey_skip''"
    by (auto simp: is_edit_def starts_with_def prefix_def)
  then show ?thesis
    using assms(2) h by (simp add: audit_shell_command_def audit_static_shell_command_def dialog_stages_def edit_dialog_def
        access_dialog_def read_dialog_def Let_def pure_stage_def [of "Some x" for x])
qed

end
