(* ===== verification/GuardTables.thy ===== *)
theory GuardTables
  imports EvalCache UrlPolicy
begin

text \<open>
  The rule tables of \<open>scripts/core/guard_db.py\<close>: the allowlist of patterns, the allowlist of
  hosts, the audit log and the statistics of patterns, with the operations that change and
  read them, and the commands of the terminal interface that drive them.  Rows are kept in
  the order of their ids; both readings of the clock in one operation give the same time.

  The locale \<open>soft_table\<close> states what a table whose rows are only switched off promises; it is
  interpreted on the table of patterns and on the table of hosts.
\<close>

subsection \<open>Tables\<close>

text \<open>A row of \<open>user_allowlist\<close> (the key is the pattern) or \<open>url_allowlist\<close> (the key is the host
  name; there is no column \<open>updated_at\<close>).\<close>

record rule_row =
  rr_id :: nat
  rr_key :: str
  rr_descr :: str
  rr_created :: int
  rr_active :: bool
  rr_by :: str
  rr_updated :: "int option"
  rr_revoked :: "(int \<times> str) option"

text \<open>The arguments of \<open>record_audit_log\<close>.\<close>

record audit_entry =
  en_pane :: str
  en_raw :: str
  en_decision :: str
  en_reason :: str
  en_agent :: str
  en_layer :: str
  en_origin :: str
  en_consequence :: str
  en_mechanism :: str
  en_gate :: str
  en_shadow :: bool
  en_scope :: str
  en_source :: "str option"
  en_revision :: "str option"

record audit_row =
  ar_id :: nat
  ar_time :: int
  ar_norm :: str
  ar_entry :: audit_entry
  ar_source :: str
  ar_revision :: str

record stat_row =
  st_total :: nat
  st_auto :: nat
  st_delegated :: nat
  st_seen :: int

record guard_tables =
  user_rules :: "rule_row list"
  user_seq :: nat
  url_rules :: "rule_row list"
  url_seq :: nat
  audit_rows :: "audit_row list"
  audit_seq :: nat
  stats :: "(str \<times> stat_row) list"

definition no_tables :: guard_tables where
  "no_tables = \<lparr>user_rules = [], user_seq = 0, url_rules = [], url_seq = 0, audit_rows = [], audit_seq = 0, stats = []\<rparr>"

text \<open>The revision of the running program, which is read from its installation.\<close>

record table_world = url_world +
  running_revision :: str

subsection \<open>The audit log\<close>

definition decision_source_of :: "audit_entry \<Rightarrow> str" where
  "decision_source_of e =
     (case en_source e of
        Some s \<Rightarrow> s
      | None \<Rightarrow>
          if en_decision e = ''MODEL_NO_TOOL_CALL'' \<or> en_layer e \<in> set [''CLOUD_JUDGE'', ''LLM_INSPECTOR''] then ''LLM''
          else if en_decision e = ''AUTO_DEFERRED'' then ''DEFERRED''
          else if en_layer e = ''NORMALIZATION_AMBIGUOUS'' then ''NORMALIZATION_AMBIGUOUS''
          else if en_origin e = ''H'' \<or> en_layer e \<in> set [''HUMAN_APPROVAL'', ''HUMAN_APPROVED''] then ''HUMAN''
          else ''DETERMINISTIC'')"

definition counts_auto :: "str \<Rightarrow> bool" where
  "counts_auto d \<longleftrightarrow> d = ''AUTO_APPROVED'' \<or> d = ''ALLOWLIST_BYPASS''"

definition counts_delegated :: "str \<Rightarrow> bool" where
  "counts_delegated d \<longleftrightarrow> d = ''MANUAL_DELEGATED''"

definition upsert_stats :: "str \<Rightarrow> str \<Rightarrow> int \<Rightarrow> (str \<times> stat_row) list \<Rightarrow> (str \<times> stat_row) list" where
  "upsert_stats pattern d now ss =
     AList.update pattern
       (case map_of ss pattern of
          None \<Rightarrow> \<lparr>st_total = 1, st_auto = of_bool (counts_auto d), st_delegated = of_bool (counts_delegated d), st_seen = now\<rparr>
        | Some r \<Rightarrow> \<lparr>st_total = st_total r + 1, st_auto = st_auto r + of_bool (counts_auto d),
                     st_delegated = st_delegated r + of_bool (counts_delegated d), st_seen = now\<rparr>) ss"

definition record_audit_log :: "'w table_world_scheme \<Rightarrow> int \<Rightarrow> audit_entry \<Rightarrow> 'a guard_tables_scheme \<Rightarrow> 'a guard_tables_scheme" where
  "record_audit_log w now e t =
     (let norm = normalize_command (en_raw e);
          row = \<lparr>ar_id = Suc (audit_seq t), ar_time = now, ar_norm = norm, ar_entry = e, ar_source = decision_source_of e,
                 ar_revision = (case en_revision e of Some r \<Rightarrow> if r = [] then running_revision w else r | None \<Rightarrow> running_revision w)\<rparr>
      in t\<lparr>audit_rows := audit_rows t @ [row], audit_seq := Suc (audit_seq t),
           stats := upsert_stats norm (en_decision e) now (stats t)\<rparr>)"

definition rule_entry :: "str \<Rightarrow> str \<Rightarrow> str \<Rightarrow> str \<Rightarrow> str \<Rightarrow> audit_entry" where
  "rule_entry raw decision reason by mechanism =
     \<lparr>en_pane = ''tui'', en_raw = raw, en_decision = decision, en_reason = reason,
      en_agent = (if by = [] then ''human-tui'' else by), en_layer = ''ALLOWLIST'', en_origin = ''H'', en_consequence = ''NONE'',
      en_mechanism = mechanism, en_gate = ''ENFORCE'', en_shadow = False, en_scope = ''GLOBAL_RULE'',
      en_source = None, en_revision = None\<rparr>"

text \<open>\<open>ORDER BY total_occurrences DESC\<close>; rows with the same total keep their order.\<close>

definition get_pattern_analysis :: "'a guard_tables_scheme \<Rightarrow> (str \<times> stat_row) list" where
  "get_pattern_analysis t = sort_key (\<lambda>(p, r). - int (st_total r)) (stats t)"

definition get_audit_log_by_id :: "nat \<Rightarrow> 'a guard_tables_scheme \<Rightarrow> audit_row option" where
  "get_audit_log_by_id i t = find (\<lambda>r. ar_id r = i) (audit_rows t)"

text \<open>\<open>LIKE\<close>: a per cent sign stands for any text, an underscore for one character, letters match
  in either case.\<close>

fun sql_like :: "str \<Rightarrow> str \<Rightarrow> bool" where
  "sql_like [] s \<longleftrightarrow> s = []"
| "sql_like (p # ps) [] \<longleftrightarrow> p = CHR ''%'' \<and> sql_like ps []"
| "sql_like (p # ps) (c # cs) \<longleftrightarrow>
     (if p = CHR ''%'' then sql_like ps (c # cs) \<or> sql_like (p # ps) cs
      else (p = CHR ''_'' \<or> to_lower p = to_lower c) \<and> sql_like ps cs)"

definition search_audit_logs :: "str \<Rightarrow> int \<Rightarrow> 'a guard_tables_scheme \<Rightarrow> audit_row list" where
  "search_audit_logs keyword n t =
     (let pattern = ''%'' @ keyword @ ''%'';
          hit = (\<lambda>r. list_ex (sql_like pattern) [en_raw (ar_entry r), en_reason (ar_entry r), ar_norm r, en_layer (ar_entry r), ar_source r, ar_revision r])
      in take (nat (max 1 n)) (rev (filter hit (audit_rows t))))"

subsection \<open>Rows that are switched off, never deleted\<close>

text \<open>
  \<open>INSERT ... ON CONFLICT(key) DO UPDATE\<close>: an existing row is switched on again and keeps its id
  and its time of creation.  The counter of \<open>AUTOINCREMENT\<close> moves in both cases.
\<close>

definition upsert_rule :: "bool \<Rightarrow> str \<Rightarrow> str \<Rightarrow> str \<Rightarrow> int \<Rightarrow> nat \<Rightarrow> rule_row list \<Rightarrow> rule_row list" where
  "upsert_rule stamps key descr by now n rs =
     (if list_ex (\<lambda>r. rr_key r = key) rs
      then map (\<lambda>r. if rr_key r = key
                  then r\<lparr>rr_active := True, rr_descr := descr, rr_by := by,
                         rr_updated := (if stamps then Some now else rr_updated r), rr_revoked := None\<rparr> else r) rs
      else rs @ [\<lparr>rr_id = n, rr_key = key, rr_descr = descr, rr_created = now, rr_active = True, rr_by = by,
                  rr_updated = None, rr_revoked = None\<rparr>])"

text \<open>\<open>UPDATE ... SET is_active = 0 ... WHERE\<close> \<open>p\<close> \<open>AND is_active = 1\<close>, and its row count.\<close>

definition switch_off :: "(rule_row \<Rightarrow> bool) \<Rightarrow> str \<Rightarrow> int \<Rightarrow> rule_row list \<Rightarrow> rule_row list" where
  "switch_off p by now rs = map (\<lambda>r. if p r \<and> rr_active r then r\<lparr>rr_active := False, rr_revoked := Some (now, by)\<rparr> else r) rs"

definition active_count :: "(rule_row \<Rightarrow> bool) \<Rightarrow> rule_row list \<Rightarrow> nat" where
  "active_count p rs = length (filter (\<lambda>r. p r \<and> rr_active r) rs)"

definition active_keys :: "rule_row list \<Rightarrow> str list" where
  "active_keys rs = map rr_key (filter rr_active rs)"

subsection \<open>The allowlist of patterns\<close>

definition DANGEROUS_CATCH_ALLS :: "str list" where
  "DANGEROUS_CATCH_ALLS =
     [''.*'', ''.+'', ''^.*$'', ''^.+$'', ''.*?'', ''.+?'', ''^.*'', ''.*$'', ''(?s).'', ''..'',
      [bslash] @ ''A.'' @ [bslash] @ ''Z'', ''(?:.)'', ''.|.*'', ''(?s:.)'']"

definition is_dangerous_pattern :: "str \<Rightarrow> bool" where
  "is_dangerous_pattern pattern \<longleftrightarrow> strip pattern \<in> set DANGEROUS_CATCH_ALLS \<or> length (strip pattern) < 3"

definition OVERBROAD :: "str \<Rightarrow> str" where
  "OVERBROAD pattern = ''Overbroad or dangerous allowlist pattern rejected: '' @ [squote] @ pattern @ [squote]"

definition add_to_allowlist ::
    "'w table_world_scheme \<Rightarrow> int \<Rightarrow> str \<Rightarrow> str \<Rightarrow> str \<Rightarrow> 'a guard_tables_scheme \<Rightarrow> str + 'a guard_tables_scheme" where
  "add_to_allowlist w now pattern descr by t =
     (if is_dangerous_pattern pattern then Inl (OVERBROAD pattern)
      else Inr (record_audit_log w now (rule_entry pattern ''ALLOWLIST_BYPASS'' (''Added allowlist rule: '' @ pattern) by ''allowlist-create'')
             (t\<lparr>user_rules := upsert_rule True pattern descr by now (Suc (user_seq t)) (user_rules t), user_seq := Suc (user_seq t)\<rparr>)))"

text \<open>The rows affected and the tables; a pattern that another row has breaks \<open>UNIQUE\<close> and raises.\<close>

definition update_allowlist_rule ::
    "'w table_world_scheme \<Rightarrow> int \<Rightarrow> nat \<Rightarrow> str option \<Rightarrow> str option \<Rightarrow> str \<Rightarrow> 'a guard_tables_scheme \<Rightarrow> str + nat \<times> 'a guard_tables_scheme" where
  "update_allowlist_rule w now i pattern descr by t =
     (if (case pattern of Some p \<Rightarrow> is_dangerous_pattern p | None \<Rightarrow> False) then Inl (OVERBROAD (the pattern))
      else (case find (\<lambda>r. rr_id r = i \<and> rr_active r) (user_rules t) of
          None \<Rightarrow> Inr (0, t)
        | Some r \<Rightarrow>
            let key = case_option (rr_key r) id pattern in
            if list_ex (\<lambda>r'. rr_id r' \<noteq> i \<and> rr_key r' = key) (user_rules t) then Inl ''IntegrityError''
            else Inr (1, record_audit_log w now
                   (rule_entry key ''ALLOWLIST_BYPASS'' (''Updated allowlist rule #'' @ show_nat i) by ''allowlist-update'')
                   (t\<lparr>user_rules := map (\<lambda>r. if rr_id r = i \<and> rr_active r
                        then r\<lparr>rr_key := key, rr_descr := case_option (rr_descr r) id descr, rr_updated := Some now\<rparr> else r) (user_rules t)\<rparr>))))"

definition revoke_allowlist_rule ::
    "'w table_world_scheme \<Rightarrow> int \<Rightarrow> nat \<Rightarrow> str \<Rightarrow> 'a guard_tables_scheme \<Rightarrow> nat \<times> 'a guard_tables_scheme" where
  "revoke_allowlist_rule w now i by t =
     (case find (\<lambda>r. rr_id r = i \<and> rr_active r) (user_rules t) of
        None \<Rightarrow> (0, t)
      | Some r \<Rightarrow> (1, record_audit_log w now
            (rule_entry (rr_key r) ''MANUAL_DELEGATED'' (''Revoked allowlist rule #'' @ show_nat i) by ''allowlist-revoke'')
            (t\<lparr>user_rules := switch_off (\<lambda>r. rr_id r = i) by now (user_rules t)\<rparr>)))"

definition list_allowlist_rules :: "bool \<Rightarrow> 'a guard_tables_scheme \<Rightarrow> rule_row list" where
  "list_allowlist_rules revoked t = filter (\<lambda>r. rr_active r \<or> revoked) (user_rules t)"

text \<open>
  A pattern as Python writes it, in the dialect of \<open>PyRegex\<close>, whose escape character is the per
  cent sign.  \<open>None\<close> is an escape that Python rejects or that \<open>PyRegex\<close> does not know.
\<close>

definition dialect_escape :: "char \<Rightarrow> str option" where
  "dialect_escape c =
     (if c = bslash then Some ''%&''
      else if c = CHR ''&'' then Some ''&''
      else if c = CHR ''A'' then Some ''^''
      else if is_alnum c \<and> c \<notin> set ''dDsSwWnrtbBZ123456789'' then None
      else Some [CHR ''%'', c])"

fun dialect :: "str \<Rightarrow> str option" where
  "dialect [] = Some []"
| "dialect (c # s) =
     (if c = CHR ''%'' then map_option ((@) ''%%'') (dialect s)
      else if c = bslash then
        (case s of [] \<Rightarrow> None
         | d # ds \<Rightarrow> (case dialect_escape d of None \<Rightarrow> None | Some e \<Rightarrow> map_option ((@) e) (dialect ds)))
      else map_option ((#) c) (dialect s))"

text \<open>\<open>re.fullmatch\<close> of a pattern that is only known at run time; \<open>None\<close> is \<open>re.error\<close>.\<close>

definition py_fullmatch :: "str \<Rightarrow> str \<Rightarrow> bool option" where
  "py_fullmatch pattern s =
     (case dialect pattern of None \<Rightarrow> None
      | Some p \<Rightarrow> map_option (\<lambda>rx. re_full \<lparr>rg_rx = rx, rg_ic = False, rg_ml = False\<rparr> s) (rx_parse p))"

text \<open>The rows in the order of the table; \<open>None\<close> is an exception.\<close>

fun match_rules_of :: "str \<Rightarrow> rule_row list \<Rightarrow> str option option" where
  "match_rules_of cmd [] = Some None"
| "match_rules_of cmd (r # rs) =
     (case py_fullmatch (rr_key r) cmd of
        None \<Rightarrow> None
      | Some True \<Rightarrow> Some (Some (''Matched User Allowlist: '' @ (if rr_descr r = [] then rr_key r else rr_descr r)))
      | Some False \<Rightarrow> match_rules_of cmd rs)"

definition check_persisted_allowlist :: "str \<Rightarrow> 'a guard_tables_scheme \<Rightarrow> str option option" where
  "check_persisted_allowlist cmd t = match_rules_of cmd (filter rr_active (user_rules t))"

subsection \<open>The allowlist of hosts\<close>

definition add_url_to_allowlist ::
    "'w table_world_scheme \<Rightarrow> int \<Rightarrow> str \<Rightarrow> str \<Rightarrow> str \<Rightarrow> 'a guard_tables_scheme \<Rightarrow> str + str \<times> 'a guard_tables_scheme" where
  "add_url_to_allowlist w now target descr by t =
     (case normalize_url_hostname w target of
        Inl e \<Rightarrow> Inl e
      | Inr host \<Rightarrow> Inr (host,
          record_audit_log w now (rule_entry host ''ALLOWLIST_BYPASS'' (''Added read-only URL host rule: '' @ host) by ''url-allowlist-create'')
            (t\<lparr>url_rules := upsert_rule False host descr by now (Suc (url_seq t)) (url_rules t), url_seq := Suc (url_seq t)\<rparr>)))"

definition list_url_allowlist :: "'a guard_tables_scheme \<Rightarrow> rule_row list" where
  "list_url_allowlist t = filter rr_active (url_rules t)"

definition is_number :: "str \<Rightarrow> bool" where
  "is_number s \<longleftrightarrow> s \<noteq> [] \<and> list_all is_digit s"

text \<open>The rows that a target names: an id if it consists of digits, otherwise a host.\<close>

definition url_target :: "'w url_world_scheme \<Rightarrow> str \<Rightarrow> str + (rule_row \<Rightarrow> bool)" where
  "url_target w target =
     (if is_number target then Inr (\<lambda>r. rr_id r = read_nat target)
      else (case normalize_url_hostname w target of Inl e \<Rightarrow> Inl e | Inr host \<Rightarrow> Inr (\<lambda>r. rr_key r = host)))"

definition revoke_url_allowlist ::
    "'w table_world_scheme \<Rightarrow> int \<Rightarrow> str \<Rightarrow> str \<Rightarrow> 'a guard_tables_scheme \<Rightarrow> str + nat \<times> 'a guard_tables_scheme" where
  "revoke_url_allowlist w now target by t =
     (case url_target w target of
        Inl e \<Rightarrow> Inl e
      | Inr p \<Rightarrow>
          (case find (\<lambda>r. p r \<and> rr_active r) (url_rules t) of
             None \<Rightarrow> Inr (0, t)
           | Some r \<Rightarrow> Inr (active_count p (url_rules t),
               record_audit_log w now
                 (rule_entry (rr_key r) ''MANUAL_DELEGATED'' (''Revoked read-only URL host rule: '' @ rr_key r) by ''url-allowlist-revoke'')
                 (t\<lparr>url_rules := switch_off p by now (url_rules t)\<rparr>))))"

definition check_url_allowlist :: "'w url_world_scheme \<Rightarrow> str \<Rightarrow> 'a guard_tables_scheme \<Rightarrow> str option option" where
  "check_url_allowlist w cmd t = check_url_command w (active_keys (url_rules t)) cmd"

subsection \<open>The commands of the terminal interface\<close>

text \<open>\<open>s.split(maxsplit=n)\<close>: the last piece keeps its inner and trailing blanks.\<close>

fun split_max :: "nat \<Rightarrow> str \<Rightarrow> str list" where
  "split_max 0 s = (if lstrip s = [] then [] else [lstrip s])"
| "split_max (Suc n) s =
     (if lstrip s = [] then []
      else takeWhile (\<lambda>c. \<not> is_space c) (lstrip s) # split_max n (dropWhile (\<lambda>c. \<not> is_space c) (lstrip s)))"

definition part_of :: "nat \<Rightarrow> str list \<Rightarrow> str" where
  "part_of i parts = (if i < length parts then strip (parts ! i) else [])"

datatype rule_reply =
    NotARuleCommand | Usage str | Refused str | Raised
  | RuleAdded str | HostAdded str | HostListing "rule_row list" | RuleListing "rule_row list"
  | HostsRevoked str | NoHostMatched str | NothingToAllow | RuleRevoked str | NoRuleMatched str

definition add_reply :: "str \<Rightarrow> str + 'a guard_tables_scheme \<Rightarrow> 'a guard_tables_scheme \<Rightarrow> rule_reply \<times> 'a guard_tables_scheme" where
  "add_reply pattern r t = (case r of Inl e \<Rightarrow> (Refused e, t) | Inr t' \<Rightarrow> (RuleAdded pattern, t'))"

text \<open>\<open>re.escape\<close>: a backslash before every character that can be special in a pattern.\<close>

definition REGEX_SPECIALS :: str where
  "REGEX_SPECIALS = ''()[]{}?*+-|^$.&~# '' @ [bslash, CHR 0x09, nl, cr, CHR 0x0B, CHR 0x0C]"

definition python_escape :: "str \<Rightarrow> str" where
  "python_escape s = concat (map (\<lambda>c. if c \<in> set REGEX_SPECIALS then [bslash, c] else [c]) s)"

definition allow_command ::
    "'w table_world_scheme \<Rightarrow> int \<Rightarrow> str \<Rightarrow> 'a guard_tables_scheme \<Rightarrow> rule_reply \<times> 'a guard_tables_scheme" where
  "allow_command w now msg t =
     (let rest = part_of 1 (split_max 1 msg);
          (pattern, descr) = (case split_once (CHR '' '') rest of Some (p, d) \<Rightarrow> (p, d) | None \<Rightarrow> (rest, []))
      in if pattern = [] then (Usage ''/allow <pattern> [description]'', t)
         else add_reply pattern (add_to_allowlist w now pattern (strip descr) ''human-tui'' t) t)"

definition allow_url_command ::
    "'w table_world_scheme \<Rightarrow> int \<Rightarrow> str \<Rightarrow> 'a guard_tables_scheme \<Rightarrow> rule_reply \<times> 'a guard_tables_scheme" where
  "allow_url_command w now msg t =
     (let parts = split_max 2 msg in
      case add_url_to_allowlist w now (part_of 1 parts) (part_of 2 parts) ''human-tui'' t of
        Inl e \<Rightarrow> (Refused e, t) | Inr (host, t') \<Rightarrow> (HostAdded host, t'))"

definition revoke_url_command ::
    "'w table_world_scheme \<Rightarrow> int \<Rightarrow> str \<Rightarrow> 'a guard_tables_scheme \<Rightarrow> rule_reply \<times> 'a guard_tables_scheme" where
  "revoke_url_command w now msg t =
     (let parts = split_max 1 msg in
      if length parts < 2 then (Raised, t)
      else (case revoke_url_allowlist w now (strip (parts ! 1)) ''human-tui'' t of
          Inl e \<Rightarrow> (Refused e, t)
        | Inr (n, t') \<Rightarrow> (if n > 0 then HostsRevoked (strip (parts ! 1)) else NoHostMatched (strip (parts ! 1)), t')))"

definition allow_last_command ::
    "'w table_world_scheme \<Rightarrow> int \<Rightarrow> str \<Rightarrow> str \<Rightarrow> 'a guard_tables_scheme \<Rightarrow> rule_reply \<times> 'a guard_tables_scheme" where
  "allow_last_command w now last_cmd msg t =
     (let descr = part_of 1 (split_max 1 msg) in
      if last_cmd = [] then (NothingToAllow, t)
      else add_reply (python_escape last_cmd)
             (add_to_allowlist w now (python_escape last_cmd) (if descr = [] then ''allow-last: '' @ take 60 last_cmd else descr) ''human-tui'' t) t)"

definition revoke_pattern ::
    "'w table_world_scheme \<Rightarrow> int \<Rightarrow> str \<Rightarrow> 'a guard_tables_scheme \<Rightarrow> nat \<times> 'a guard_tables_scheme" where
  "revoke_pattern w now target t =
     (if is_number target then revoke_allowlist_rule w now (read_nat target) ''human-tui'' t
      else (case find (\<lambda>r. rr_key r = target) (list_allowlist_rules False t) of
          None \<Rightarrow> (0, t)
        | Some r \<Rightarrow> revoke_allowlist_rule w now (rr_id r) ''human-tui'' t))"

definition revoke_command ::
    "'w table_world_scheme \<Rightarrow> int \<Rightarrow> str \<Rightarrow> 'a guard_tables_scheme \<Rightarrow> rule_reply \<times> 'a guard_tables_scheme" where
  "revoke_command w now msg t =
     (let target = part_of 1 (split_max 1 msg) in
      if target = [] then (Usage ''/revoke <id|pattern>'', t)
      else (case revoke_pattern w now target t of (n, t') \<Rightarrow>
          (if n > 0 then RuleRevoked target else NoRuleMatched target, t')))"

definition rule_command ::
    "'w table_world_scheme \<Rightarrow> int \<Rightarrow> str \<Rightarrow> str \<Rightarrow> 'a guard_tables_scheme \<Rightarrow> rule_reply \<times> 'a guard_tables_scheme" where
  "rule_command w now last_cmd msg t =
     (if starts_with msg ''/allow '' then allow_command w now msg t
      else if starts_with msg ''/allow-url '' then allow_url_command w now msg t
      else if strip msg = ''/allow-url-list'' then (HostListing (list_url_allowlist t), t)
      else if starts_with msg ''/revoke-url '' then revoke_url_command w now msg t
      else if starts_with msg ''/allow-last'' then allow_last_command w now last_cmd msg t
      else if starts_with msg ''/revoke '' then revoke_command w now msg t
      else if strip msg = ''/allow-list'' then (RuleListing (list_allowlist_rules False t), t)
      else (NotARuleCommand, t))"

subsection \<open>Histories of the tables\<close>

datatype table_op =
    AddPattern str str str
  | UpdateRule nat "str option" "str option" str
  | RevokeRule nat str
  | AddHost str str str
  | RevokeHost str str
  | LogEntry audit_entry

text \<open>An operation that raises leaves the tables as they are.\<close>

fun apply_op :: "'w table_world_scheme \<Rightarrow> int \<Rightarrow> table_op \<Rightarrow> 'a guard_tables_scheme \<Rightarrow> 'a guard_tables_scheme" where
  "apply_op w now (AddPattern p d who) t = (case add_to_allowlist w now p d who t of Inl _ \<Rightarrow> t | Inr t' \<Rightarrow> t')"
| "apply_op w now (UpdateRule i p d who) t = (case update_allowlist_rule w now i p d who t of Inl _ \<Rightarrow> t | Inr (_, t') \<Rightarrow> t')"
| "apply_op w now (RevokeRule i who) t = snd (revoke_allowlist_rule w now i who t)"
| "apply_op w now (AddHost h d who) t = (case add_url_to_allowlist w now h d who t of Inl _ \<Rightarrow> t | Inr (_, t') \<Rightarrow> t')"
| "apply_op w now (RevokeHost h who) t = (case revoke_url_allowlist w now h who t of Inl _ \<Rightarrow> t | Inr (_, t') \<Rightarrow> t')"
| "apply_op w now (LogEntry e) t = record_audit_log w now e t"

definition run_ops :: "'w table_world_scheme \<Rightarrow> (int \<times> table_op) list \<Rightarrow> 'a guard_tables_scheme \<Rightarrow> 'a guard_tables_scheme" where
  "run_ops w ops t = fold (\<lambda>(now, op). apply_op w now op) ops t"

lemma run_ops_simps [simp]:
  "run_ops w [] t = t" "run_ops w ((now, op) # ops) t = run_ops w ops (apply_op w now op t)"
  by (simp_all add: run_ops_def)

lemma run_ops_invariant:
  assumes "P t" and "\<And>t now op. P t \<Longrightarrow> P (apply_op w now op t)"
  shows "P (run_ops w ops t)"
  using assms(1)
proof (induction ops arbitrary: t)
  case (Cons a ops)
  from Cons.IH [OF assms(2) [OF Cons.prems]] show ?case by (cases a) simp
qed simp

lemma record_audit_log_tables [simp]:
  "user_rules (record_audit_log w now e t) = user_rules t" "user_seq (record_audit_log w now e t) = user_seq t"
  "url_rules (record_audit_log w now e t) = url_rules t" "url_seq (record_audit_log w now e t) = url_seq t"
  "audit_rows (record_audit_log w now e t) = audit_rows t @ [\<lparr>ar_id = Suc (audit_seq t), ar_time = now, ar_norm = normalize_command (en_raw e),
      ar_entry = e, ar_source = decision_source_of e,
      ar_revision = (case en_revision e of Some r \<Rightarrow> if r = [] then running_revision w else r | None \<Rightarrow> running_revision w)\<rparr>]"
  "stats (record_audit_log w now e t) = upsert_stats (normalize_command (en_raw e)) (en_decision e) now (stats t)"
  by (simp_all add: record_audit_log_def Let_def)

text \<open>What an operation does: nothing, or a change of the two rule tables and one entry in the log.\<close>

lemma op_cases:
  obtains (same) "apply_op w now op t = t"
  | (log) e where "op = LogEntry e" "apply_op w now op t = record_audit_log w now e t"
  | (add) p d who where "op = AddPattern p d who" "\<not> is_dangerous_pattern p"
      "apply_op w now op t = record_audit_log w now (rule_entry p ''ALLOWLIST_BYPASS'' (''Added allowlist rule: '' @ p) who ''allowlist-create'')
         (t\<lparr>user_rules := upsert_rule True p d who now (Suc (user_seq t)) (user_rules t), user_seq := Suc (user_seq t)\<rparr>)"
  | (update) i r key d who where "find (\<lambda>r. rr_id r = i \<and> rr_active r) (user_rules t) = Some r"
      "\<not> list_ex (\<lambda>r'. rr_id r' \<noteq> i \<and> rr_key r' = key) (user_rules t)"
      "apply_op w now op t = record_audit_log w now
                   (rule_entry key ''ALLOWLIST_BYPASS'' (''Updated allowlist rule #'' @ show_nat i) who ''allowlist-update'')
                   (t\<lparr>user_rules := map (\<lambda>r. if rr_id r = i \<and> rr_active r
                        then r\<lparr>rr_key := key, rr_descr := case_option (rr_descr r) id d, rr_updated := Some now\<rparr> else r) (user_rules t)\<rparr>)"
  | (revoke) i who r where "find (\<lambda>r. rr_id r = i \<and> rr_active r) (user_rules t) = Some r"
      "apply_op w now op t = record_audit_log w now
            (rule_entry (rr_key r) ''MANUAL_DELEGATED'' (''Revoked allowlist rule #'' @ show_nat i) who ''allowlist-revoke'')
            (t\<lparr>user_rules := switch_off (\<lambda>r. rr_id r = i) who now (user_rules t)\<rparr>)"
  | (host) h d who where
      "apply_op w now op t = record_audit_log w now (rule_entry h ''ALLOWLIST_BYPASS'' (''Added read-only URL host rule: '' @ h) who ''url-allowlist-create'')
            (t\<lparr>url_rules := upsert_rule False h d who now (Suc (url_seq t)) (url_rules t), url_seq := Suc (url_seq t)\<rparr>)"
  | (unhost) p q who r where "find (\<lambda>r. p r \<and> rr_active r) (url_rules t) = Some r"
      "p = (\<lambda>r. rr_id r = q) \<or> (\<exists>h. p = (\<lambda>r. rr_key r = h))"
      "apply_op w now op t = record_audit_log w now
                 (rule_entry (rr_key r) ''MANUAL_DELEGATED'' (''Revoked read-only URL host rule: '' @ rr_key r) who ''url-allowlist-revoke'')
                 (t\<lparr>url_rules := switch_off p who now (url_rules t)\<rparr>)"
proof (cases op)
  case (AddPattern p d who)
  with same add show ?thesis by (cases "is_dangerous_pattern p") (simp_all add: add_to_allowlist_def)
next
  case (UpdateRule i p d who)
  show ?thesis
  proof (cases "update_allowlist_rule w now i p d who t")
    case (Inl e)
    with UpdateRule same show ?thesis by simp
  next
    case (Inr nt)
    then show ?thesis
    proof (cases "find (\<lambda>r. rr_id r = i \<and> rr_active r) (user_rules t)")
      case None
      with Inr UpdateRule same show ?thesis by (auto simp: update_allowlist_rule_def split: if_splits)
    next
      case (Some r)
      with Inr update [OF Some, of "case_option (rr_key r) id p" who d] UpdateRule show ?thesis
        by (auto simp: update_allowlist_rule_def Let_def split: if_splits)
    qed
  qed
next
  case (RevokeRule i who)
  with same revoke show ?thesis
    by (cases "find (\<lambda>r. rr_id r = i \<and> rr_active r) (user_rules t)") (simp_all add: revoke_allowlist_rule_def)
next
  case (AddHost h d who)
  with same host show ?thesis
    by (cases "normalize_url_hostname w h") (simp_all add: add_url_to_allowlist_def)
next
  case (RevokeHost h who)
  show ?thesis
  proof (cases "url_target w h")
    case (Inl e)
    with RevokeHost same show ?thesis by (simp add: revoke_url_allowlist_def)
  next
    case (Inr p)
    then have p: "p = (\<lambda>r. rr_id r = read_nat h) \<or> (\<exists>h. p = (\<lambda>r. rr_key r = h))"
      by (auto simp: url_target_def split: if_splits sum.splits)
    show ?thesis
    proof (cases "find (\<lambda>r. p r \<and> rr_active r) (url_rules t)")
      case None
      with Inr RevokeHost same show ?thesis by (simp add: revoke_url_allowlist_def)
    next
      case (Some r)
      with Inr RevokeHost unhost [OF Some p] show ?thesis by (simp add: revoke_url_allowlist_def)
    qed
  qed
next
  case (LogEntry e)
  with log show ?thesis by simp
qed

subsection \<open>The statistics count the log\<close>

definition stat_of :: "audit_row list \<Rightarrow> str \<Rightarrow> stat_row option" where
  "stat_of rs pattern =
     (let hits = filter (\<lambda>a. ar_norm a = pattern) rs; decisions = map (\<lambda>a. en_decision (ar_entry a)) hits in
      if hits = [] then None
      else Some \<lparr>st_total = length hits, st_auto = length (filter counts_auto decisions),
                 st_delegated = length (filter counts_delegated decisions), st_seen = ar_time (last hits)\<rparr>)"

definition counted :: "'a guard_tables_scheme \<Rightarrow> bool" where
  "counted t \<longleftrightarrow> map_of (stats t) = stat_of (audit_rows t)"

lemma counted_log: "counted t \<Longrightarrow> counted (record_audit_log w now e t)"
  unfolding counted_def
  by (rule ext) (auto simp: upsert_stats_def update_conv stat_of_def Let_def filter_empty_conv split: option.splits)

lemma counted_upd [simp]:
  "counted (t\<lparr>user_rules := us\<rparr>) = counted t" "counted (t\<lparr>user_seq := n\<rparr>) = counted t"
  "counted (t\<lparr>url_rules := us\<rparr>) = counted t" "counted (t\<lparr>url_seq := n\<rparr>) = counted t"
  by (simp_all add: counted_def)

lemma counted_op: "counted t \<Longrightarrow> counted (apply_op w now op t)"
  by (cases rule: op_cases [of w now op t]) (simp_all add: counted_log)

text \<open>
  After any history of operations the statistics of a pattern are what the audit log gives:
  how often it occurred, how often it was approved and delegated, and when it was seen last.
\<close>

lemma statistics_count_the_log:
  "map_of (stats (run_ops w ops no_tables)) pattern = stat_of (audit_rows (run_ops w ops no_tables)) pattern"
proof -
  have "counted no_tables" by (auto simp: counted_def no_tables_def stat_of_def)
  then have "counted (run_ops w ops no_tables)" by (rule run_ops_invariant) (rule counted_op)
  then show ?thesis by (simp add: counted_def)
qed

subsection \<open>Rows keep their identity\<close>

definition keyed :: "rule_row list \<Rightarrow> nat \<Rightarrow> bool" where
  "keyed rs n \<longleftrightarrow> distinct (map rr_id rs) \<and> distinct (map rr_key rs) \<and> (\<forall>r \<in> set rs. rr_id r \<le> n)"

definition well_keyed :: "'a guard_tables_scheme \<Rightarrow> bool" where
  "well_keyed t \<longleftrightarrow> keyed (user_rules t) (user_seq t) \<and> keyed (url_rules t) (url_seq t)"

lemma upsert_map_keys:
  "map rr_id (map (\<lambda>r. if rr_key r = k then r\<lparr>rr_active := a, rr_descr := d, rr_by := b, rr_updated := u r, rr_revoked := v\<rparr> else r) rs) = map rr_id rs"
  "map rr_key (map (\<lambda>r. if rr_key r = k then r\<lparr>rr_active := a, rr_descr := d, rr_by := b, rr_updated := u r, rr_revoked := v\<rparr> else r) rs) = map rr_key rs"
  by simp_all

lemma switch_off_keys [simp]:
  "map rr_id (switch_off p b now rs) = map rr_id rs" "map rr_key (switch_off p b now rs) = map rr_key rs"
  by (simp_all add: switch_off_def)

lemma keyed_upsert: "keyed rs n \<Longrightarrow> keyed (upsert_rule st k d b now (Suc n) rs) (Suc n)"
  by (cases "list_ex (\<lambda>r. rr_key r = k) rs")
    (auto simp: keyed_def upsert_rule_def comp_def if_distrib cong: if_cong simp: list_ex_iff le_Suc_eq)

lemma keyed_switch_off: "keyed rs n \<Longrightarrow> keyed (switch_off p b now rs) n"
  by (auto simp: keyed_def) (auto simp: switch_off_def)

lemma keyed_rename:
  assumes "keyed rs n" and "\<not> list_ex (\<lambda>r'. rr_id r' \<noteq> i \<and> rr_key r' = key) rs"
  shows "keyed (map (\<lambda>r. if rr_id r = i \<and> rr_active r then r\<lparr>rr_key := key, rr_descr := d r, rr_updated := u\<rparr> else r) rs) n"
proof -
  let ?f = "\<lambda>r. if rr_id r = i \<and> rr_active r then r\<lparr>rr_key := key, rr_descr := d r, rr_updated := u\<rparr> else r"
  have ids: "map rr_id (map ?f rs) = map rr_id rs" by simp
  have d: "distinct (map rr_id (map ?f rs))" unfolding ids using assms(1) by (simp add: keyed_def)
  have b: "\<forall>r \<in> set (map ?f rs). rr_id r \<le> n" using assms(1) by (auto simp: keyed_def)
  have "distinct (map rr_key (map ?f rs))"
  proof -
    have "inj_on (rr_key \<circ> ?f) (set rs)"
    proof (rule inj_onI)
      fix a b assume ab: "a \<in> set rs" "b \<in> set rs" "(rr_key \<circ> ?f) a = (rr_key \<circ> ?f) b"
      have "rr_id a = rr_id b \<or> rr_key a = rr_key b"
        using ab assms(2) by (auto simp: list_ex_iff split: if_splits)
      then show "a = b" using ab assms(1) by (auto simp: keyed_def distinct_map dest: inj_onD)
    qed
    then show ?thesis using assms(1) by (simp add: keyed_def distinct_map)
  qed
  with d b show ?thesis unfolding keyed_def by (intro conjI)
qed

lemma well_keyed_op: "well_keyed t \<Longrightarrow> well_keyed (apply_op w now op t)"
  by (cases rule: op_cases [of w now op t])
    (simp_all add: well_keyed_def keyed_upsert keyed_switch_off keyed_rename)

text \<open>\<open>survives rs rs'\<close>: no row is lost, ids and times of creation stay.\<close>

definition survives :: "rule_row list \<Rightarrow> rule_row list \<Rightarrow> bool" where
  "survives rs rs' \<longleftrightarrow> (\<forall>r \<in> set rs. \<exists>r' \<in> set rs'. rr_id r' = rr_id r \<and> rr_created r' = rr_created r)"

lemma survives_refl [simp]: "survives rs rs"
  by (auto simp: survives_def)

lemma survives_trans: "survives a b \<Longrightarrow> survives b c \<Longrightarrow> survives a c"
  unfolding survives_def by metis

lemma survives_map: "(\<And>r. rr_id (f r) = rr_id r \<and> rr_created (f r) = rr_created r) \<Longrightarrow> survives rs (map f rs)"
  unfolding survives_def by (metis image_eqI list.set_map)

lemma survives_changes [simp]:
  "survives rs (upsert_rule st k d b now n rs)" "survives rs (switch_off p b now rs)"
  "survives rs (map (\<lambda>r. if q r then r\<lparr>rr_key := key, rr_descr := e r, rr_updated := u\<rparr> else r) rs)"
  by (auto simp: upsert_rule_def switch_off_def intro: survives_map) (auto simp: survives_def)

lemma survives_op:
  "survives (user_rules t) (user_rules (apply_op w now op t))" "survives (url_rules t) (url_rules (apply_op w now op t))"
  by (cases rule: op_cases [of w now op t]; simp)+

lemma survives_run:
  "survives (user_rules t) (user_rules (run_ops w ops t))" "survives (url_rules t) (url_rules (run_ops w ops t))"
  using run_ops_invariant [of "\<lambda>t'. survives (user_rules t) (user_rules t')" t w ops]
    run_ops_invariant [of "\<lambda>t'. survives (url_rules t) (url_rules t')" t w ops]
  by (metis survives_op survives_refl survives_trans)+

text \<open>
  C34: No operation deletes a rule: in every later state there is exactly one row with its id, in
  the same table, and it has the same time of creation.
\<close>

theorem rules_keep_their_identity:
  assumes "t = run_ops w past no_tables" and "r \<in> set (user_rules t) \<union> set (url_rules t)"
  shows "\<exists>r'. rr_id r' = rr_id r \<and> rr_created r' = rr_created r \<and>
    (if r \<in> set (user_rules t) then filter (\<lambda>q. rr_id q = rr_id r) (user_rules (run_ops w later t)) = [r']
     else filter (\<lambda>q. rr_id q = rr_id r) (url_rules (run_ops w later t)) = [r'])"
proof -
  have "well_keyed no_tables" by (simp add: well_keyed_def keyed_def no_tables_def)
  then have "well_keyed t" unfolding assms(1) by (rule run_ops_invariant) (rule well_keyed_op)
  then have k: "well_keyed (run_ops w later t)" by (rule run_ops_invariant) (rule well_keyed_op)
  have one: "filter (\<lambda>q. rr_id q = rr_id r') rs = [r']" if "keyed rs n" "r' \<in> set rs" for rs n r'
    using that by (induction rs) (auto simp: keyed_def filter_empty_conv image_iff)
  show ?thesis
  proof (cases "r \<in> set (user_rules t)")
    case True
    with survives_run(1) obtain r' where "r' \<in> set (user_rules (run_ops w later t))" "rr_id r' = rr_id r" "rr_created r' = rr_created r"
      unfolding survives_def by blast
    with True k one [of "user_rules (run_ops w later t)"] show ?thesis by (metis well_keyed_def)
  next
    case False
    with assms(2) survives_run(2) obtain r' where "r' \<in> set (url_rules (run_ops w later t))" "rr_id r' = rr_id r" "rr_created r' = rr_created r"
      unfolding survives_def by blast
    with False k one [of "url_rules (run_ops w later t)"] show ?thesis by (metis well_keyed_def)
  qed
qed

definition table_demo :: table_world where
  "table_demo = \<lparr>bracketed_netloc_ok = (\<lambda>_. False), normalized_netloc_ok = (\<lambda>_. True), running_revision = ''abc''\<rparr>"

definition rule_history_demo :: "(int \<times> table_op) list" where
  "rule_history_demo = [(5, AddPattern ''make all'' [] ''me'')]"

lemma rule_history_demo:
  "user_rules (run_ops w rule_history_demo no_tables) =
     [\<lparr>rr_id = 1, rr_key = ''make all'', rr_descr = [], rr_created = 5, rr_active = True, rr_by = ''me'', rr_updated = None, rr_revoked = None\<rparr>]"
proof -
  have "\<not> is_dangerous_pattern ''make all''" by code_simp
  then show ?thesis by (simp add: rule_history_demo_def add_to_allowlist_def upsert_rule_def no_tables_def)
qed

theorem rules_keep_their_identity_witness:
  "\<exists>r'. rr_id r' = 1 \<and> rr_created r' = 5 \<and>
    filter (\<lambda>q. rr_id q = 1) (user_rules (run_ops table_demo [(7, RevokeRule 1 ''me'')] (run_ops table_demo rule_history_demo no_tables))) = [r']"
  using rules_keep_their_identity [OF refl, of "hd (user_rules (run_ops table_demo rule_history_demo no_tables))" table_demo rule_history_demo "[(7, RevokeRule 1 ''me'')]"]
  by (simp add: rule_history_demo del: run_ops_simps)

subsection \<open>Every rule is in the log\<close>

definition logged :: "audit_row list \<Rightarrow> str \<Rightarrow> str \<Rightarrow> bool" where
  "logged rs decision raw \<longleftrightarrow> list_ex (\<lambda>a. en_raw (ar_entry a) = raw \<and> en_decision (ar_entry a) = decision
     \<and> en_scope (ar_entry a) = ''GLOBAL_RULE'' \<and> ar_source a = ''HUMAN'') rs"

definition rules_logged :: "audit_row list \<Rightarrow> rule_row list \<Rightarrow> bool" where
  "rules_logged as rs \<longleftrightarrow> list_all (\<lambda>r. logged as ''ALLOWLIST_BYPASS'' (rr_key r) \<and> (rr_active r \<or> logged as ''MANUAL_DELEGATED'' (rr_key r))) rs"

lemma rules_logged_more: "rules_logged as rs \<Longrightarrow> rules_logged (as @ bs) rs"
  by (auto simp: rules_logged_def logged_def list_all_iff list_ex_iff)

lemma rule_entry_source:
  "d = ''ALLOWLIST_BYPASS'' \<or> d = ''MANUAL_DELEGATED'' \<Longrightarrow> decision_source_of (rule_entry raw d reason b m) = ''HUMAN''"
  by (auto simp: decision_source_of_def rule_entry_def)

lemma rule_entry_fields [simp]:
  "en_raw (rule_entry raw d reason b m) = raw" "en_decision (rule_entry raw d reason b m) = d"
  "en_scope (rule_entry raw d reason b m) = ''GLOBAL_RULE''"
  by (simp_all add: rule_entry_def)

lemma logged_entry:
  "d = ''ALLOWLIST_BYPASS'' \<or> d = ''MANUAL_DELEGATED'' \<Longrightarrow>
     logged (audit_rows (record_audit_log w now (rule_entry raw d reason b m) t)) d raw"
  by (auto simp: logged_def rule_entry_source)

lemma logged_upsert:
  "rules_logged as rs \<Longrightarrow> logged as ''ALLOWLIST_BYPASS'' k \<Longrightarrow> rules_logged as (upsert_rule st k d b now n rs)"
  by (auto simp: rules_logged_def upsert_rule_def list_all_iff)

lemma logged_switch_off:
  "rules_logged as rs \<Longrightarrow> (\<And>r. r \<in> set rs \<Longrightarrow> p r \<Longrightarrow> rr_active r \<Longrightarrow> logged as ''MANUAL_DELEGATED'' (rr_key r))
     \<Longrightarrow> rules_logged as (switch_off p b now rs)"
  by (auto simp: rules_logged_def switch_off_def list_all_iff)

lemma logged_rename:
  "rules_logged as rs \<Longrightarrow> logged as ''ALLOWLIST_BYPASS'' key
     \<Longrightarrow> rules_logged as (map (\<lambda>r. if q r \<and> rr_active r then r\<lparr>rr_key := key, rr_descr := e r, rr_updated := u\<rparr> else r) rs)"
  by (auto simp: rules_logged_def list_all_iff)

definition all_logged :: "'a guard_tables_scheme \<Rightarrow> bool" where
  "all_logged t \<longleftrightarrow> rules_logged (audit_rows t) (user_rules t) \<and> rules_logged (audit_rows t) (url_rules t)"

lemma all_loggedI: "rules_logged (audit_rows t) (user_rules t) \<Longrightarrow> rules_logged (audit_rows t) (url_rules t) \<Longrightarrow> all_logged t"
  by (simp add: all_logged_def)

lemma all_logged_log:
  "all_logged t \<Longrightarrow> audit_rows t' = audit_rows t \<Longrightarrow> rules_logged (audit_rows (record_audit_log w now e t')) (user_rules t)"
  "all_logged t \<Longrightarrow> audit_rows t' = audit_rows t \<Longrightarrow> rules_logged (audit_rows (record_audit_log w now e t')) (url_rules t)"
  by (simp_all add: all_logged_def rules_logged_more)

lemma all_logged_op: "well_keyed t \<Longrightarrow> all_logged t \<Longrightarrow> all_logged (apply_op w now op t)"
proof (cases rule: op_cases [of w now op t])
  case (revoke i who r)
  assume k: "well_keyed t" and a: "all_logged t"
  from revoke(1) have r: "r \<in> set (user_rules t)" "rr_id r = i" by (auto simp: find_Some_iff)
  with k have "rr_key q = rr_key r" if "q \<in> set (user_rules t)" "rr_id q = i" for q
    using that by (auto simp: well_keyed_def keyed_def distinct_map dest: inj_onD)
  with a show ?thesis unfolding revoke(2)
    by (intro all_loggedI) (auto intro!: logged_switch_off all_logged_log logged_entry simp del: record_audit_log_tables(5))
next
  case (unhost p q who r)
  assume k: "well_keyed t" and a: "all_logged t"
  from unhost(1) have r: "r \<in> set (url_rules t)" "p r" by (auto simp: find_Some_iff)
  with k unhost(2) have "rr_key q = rr_key r" if "q \<in> set (url_rules t)" "p q" for q
    using that by (auto simp: well_keyed_def keyed_def distinct_map dest: inj_onD)
  with a show ?thesis unfolding unhost(3)
    by (intro all_loggedI) (auto intro!: logged_switch_off all_logged_log logged_entry simp del: record_audit_log_tables(5))
next
  case (update i r key d who)
  assume a: "all_logged t"
  from a show ?thesis unfolding update(3)
    by (intro all_loggedI) (auto intro!: logged_rename all_logged_log logged_entry simp del: record_audit_log_tables(5))
next
  case same
  assume a: "all_logged t"
  with same show ?thesis by simp
next
  case (log e)
  assume a: "all_logged t"
  with log show ?thesis by (simp add: all_logged_def rules_logged_more)
next
  case (add p d who)
  assume a: "all_logged t"
  from a show ?thesis unfolding add(3)
    by (intro all_loggedI) (auto intro!: logged_upsert all_logged_log logged_entry simp del: record_audit_log_tables(5))
next
  case (host h d who)
  assume a: "all_logged t"
  from a show ?thesis unfolding host
    by (intro all_loggedI) (auto intro!: logged_upsert all_logged_log logged_entry simp del: record_audit_log_tables(5))
qed

text \<open>
  The audit log accounts for every rule: its present key was allowed by a person in a row of
  global scope, and a rule that is switched off has a row for its revocation.
\<close>

lemma every_rule_is_logged:
  assumes "r \<in> set (user_rules (run_ops w ops no_tables)) \<union> set (url_rules (run_ops w ops no_tables))"
  shows "logged (audit_rows (run_ops w ops no_tables)) ''ALLOWLIST_BYPASS'' (rr_key r)
    \<and> (rr_active r \<or> logged (audit_rows (run_ops w ops no_tables)) ''MANUAL_DELEGATED'' (rr_key r))"
proof -
  have "well_keyed no_tables \<and> all_logged no_tables"
    by (simp add: well_keyed_def keyed_def no_tables_def all_logged_def rules_logged_def)
  then have "well_keyed (run_ops w ops no_tables) \<and> all_logged (run_ops w ops no_tables)"
    by (rule run_ops_invariant) (simp add: well_keyed_op all_logged_op)
  with assms show ?thesis by (auto simp: all_logged_def rules_logged_def list_all_iff)
qed

lemma every_rule_is_logged_witness:
  "logged (audit_rows (run_ops table_demo rule_history_demo no_tables)) ''ALLOWLIST_BYPASS'' ''make all''"
  using every_rule_is_logged [of "hd (user_rules (run_ops table_demo rule_history_demo no_tables))" table_demo rule_history_demo]
  by (simp add: rule_history_demo)

subsection \<open>The contract of a table of rules\<close>

text \<open>Decisions about keys, oldest first: \<open>True\<close> allows a key.\<close>

fun decided :: "(bool \<times> 'k \<times> 'i) list \<Rightarrow> 'k \<Rightarrow> bool \<Rightarrow> bool" where
  "decided [] k b = b"
| "decided ((a, k', i) # ds) k b = decided ds k (if k' = k then a else b)"

lemma decided_others: "k \<notin> fst ` snd ` set ds \<Longrightarrow> decided ds k b = b"
  by (induction ds k b rule: decided.induct) auto

text \<open>
  \<open>add\<close> and \<open>del\<close> take the columns that do not decide anything (\<open>'i\<close>: time, description, author);
  \<open>ok\<close> are the keys that the table can hold and that can be addressed by name.
\<close>

locale soft_table =
  fixes good :: "'s \<Rightarrow> bool"
    and ok :: "'k \<Rightarrow> bool"
    and add del :: "'i \<Rightarrow> 'k \<Rightarrow> 's \<Rightarrow> 's"
    and active :: "'s \<Rightarrow> 'k set"
  assumes good_add: "good s \<Longrightarrow> ok k \<Longrightarrow> good (add i k s)"
    and good_del: "good s \<Longrightarrow> ok k \<Longrightarrow> good (del i k s)"
    and active_add: "good s \<Longrightarrow> ok k \<Longrightarrow> active (add i k s) = insert k (active s)"
    and active_del: "good s \<Longrightarrow> ok k \<Longrightarrow> active (del i k s) = active s - {k}"
begin

abbreviation decide :: "(bool \<times> 'k \<times> 'i) list \<Rightarrow> 's \<Rightarrow> 's" where
  "decide \<equiv> fold (\<lambda>(a, k, i). if a then add i k else del i k)"

lemma good_decide: "good s \<Longrightarrow> list_all (\<lambda>(a, k, i). ok k) ds \<Longrightarrow> good (decide ds s)"
  by (induction ds arbitrary: s) (auto intro: good_add good_del split: prod.splits)

lemma last_decision_holds:
  "good s \<Longrightarrow> list_all (\<lambda>(a, k, i). ok k) ds \<Longrightarrow> k \<in> active (decide ds s) \<longleftrightarrow> decided ds k (k \<in> active s)"
proof (induction ds arbitrary: s)
  case (Cons d ds)
  obtain a k' i where d: "d = (a, k', i)" by (cases d)
  let ?s = "if a then add i k' s else del i k' s"
  have g: "good ?s" using Cons.prems d by (auto intro: good_add good_del)
  have "k \<in> active ?s \<longleftrightarrow> (if k' = k then a else k \<in> active s)"
    using Cons.prems d by (auto simp: active_add active_del)
  with Cons.IH [OF g] Cons.prems(2) d show ?case by (cases a) simp_all
qed simp

lemma unrelated_decisions:
  "good s \<Longrightarrow> list_all (\<lambda>(a, k, i). ok k) ds \<Longrightarrow> k \<notin> fst ` snd ` set ds \<Longrightarrow> k \<in> active (decide ds s) \<longleftrightarrow> k \<in> active s"
  by (simp add: last_decision_holds decided_others)

end

subsection \<open>Both tables meet the contract\<close>

type_synonym columns = "int \<times> str \<times> str"

fun allow_pattern :: "'w table_world_scheme \<Rightarrow> columns \<Rightarrow> str \<Rightarrow> 'a guard_tables_scheme \<Rightarrow> 'a guard_tables_scheme" where
  "allow_pattern w (now, descr, by) p t = apply_op w now (AddPattern p descr by) t"

fun drop_pattern :: "'w table_world_scheme \<Rightarrow> columns \<Rightarrow> str \<Rightarrow> 'a guard_tables_scheme \<Rightarrow> 'a guard_tables_scheme" where
  "drop_pattern w (now, descr, by) p t = snd (revoke_pattern w now p t)"

fun allow_host :: "'w table_world_scheme \<Rightarrow> columns \<Rightarrow> str \<Rightarrow> 'a guard_tables_scheme \<Rightarrow> 'a guard_tables_scheme" where
  "allow_host w (now, descr, by) h t = apply_op w now (AddHost h descr by) t"

fun drop_host :: "'w table_world_scheme \<Rightarrow> columns \<Rightarrow> str \<Rightarrow> 'a guard_tables_scheme \<Rightarrow> 'a guard_tables_scheme" where
  "drop_host w (now, descr, by) h t = apply_op w now (RevokeHost h by) t"

definition is_plain_pattern :: "str \<Rightarrow> bool" where
  "is_plain_pattern p \<longleftrightarrow> \<not> is_dangerous_pattern p \<and> \<not> is_number p"

definition is_plain_host :: "'w url_world_scheme \<Rightarrow> str \<Rightarrow> bool" where
  "is_plain_host w h \<longleftrightarrow> normalize_url_hostname w h = Inr h \<and> \<not> is_number h"

lemma active_keys_iff: "k \<in> set (active_keys rs) \<longleftrightarrow> (\<exists>r \<in> set rs. rr_active r \<and> rr_key r = k)"
  by (auto simp: active_keys_def)

lemma active_upsert: "set (active_keys (upsert_rule st k d b now n rs)) = insert k (set (active_keys rs))"
proof (cases "list_ex (\<lambda>r. rr_key r = k) rs")
  case True
  let ?f = "\<lambda>r. if rr_key r = k then r\<lparr>rr_active := True, rr_descr := d, rr_by := b,
      rr_updated := (if st then Some now else rr_updated r), rr_revoked := None\<rparr> else r"
  have f: "rr_key (?f r) = rr_key r" "rr_active (?f r) \<longleftrightarrow> rr_key r = k \<or> rr_active r" for r by simp_all
  from True have "upsert_rule st k d b now n rs = map ?f rs" by (simp add: upsert_rule_def)
  then have "k' \<in> set (active_keys (upsert_rule st k d b now n rs)) \<longleftrightarrow> (\<exists>r \<in> set rs. (rr_key r = k \<or> rr_active r) \<and> rr_key r = k')" for k'
    by (simp only: active_keys_iff f list.set_map bex_simps(7))
  with True show ?thesis by (intro set_eqI) (auto simp: active_keys_iff list_ex_iff)
next
  case False
  then show ?thesis by (auto simp: upsert_rule_def active_keys_def)
qed

lemma active_switch_off:
  "k \<in> set (active_keys (switch_off p b now rs)) \<longleftrightarrow> (\<exists>r \<in> set rs. rr_active r \<and> \<not> p r \<and> rr_key r = k)"
proof -
  let ?f = "\<lambda>r. if p r \<and> rr_active r then r\<lparr>rr_active := False, rr_revoked := Some (now, b)\<rparr> else r"
  have f: "rr_key (?f r) = rr_key r" "rr_active (?f r) \<longleftrightarrow> rr_active r \<and> \<not> p r" for r by auto
  show ?thesis unfolding active_keys_iff switch_off_def list.set_map bex_simps(7) f by blast
qed

lemma find_None_active: "find (\<lambda>r. rr_key r = k \<and> rr_active r) rs = None \<Longrightarrow> k \<notin> set (active_keys rs)"
  by (auto simp: active_keys_def find_None_iff)

lemma allow_host_active: "is_plain_host w h \<Longrightarrow> set (active_keys (url_rules (allow_host w i h t))) = insert h (set (active_keys (url_rules t)))"
  by (cases i) (simp add: is_plain_host_def add_url_to_allowlist_def active_upsert)

lemma drop_host_active:
  assumes "is_plain_host w h"
  shows "set (active_keys (url_rules (drop_host w i h t))) = set (active_keys (url_rules t)) - {h}"
proof -
  obtain now d who where i: "i = (now, d, who)" by (cases i)
  have u: "url_target w h = Inr (\<lambda>r. rr_key r = h)" using assms by (simp add: is_plain_host_def url_target_def)
  have "set (active_keys (switch_off (\<lambda>r. rr_key r = h) who now rs)) = set (active_keys rs) - {h}" for rs
    by (intro set_eqI, unfold Diff_iff active_switch_off) (auto simp: active_keys_iff)
  with i u find_None_active [of h "url_rules t"] show ?thesis
    by (cases "find (\<lambda>r. rr_key r = h \<and> rr_active r) (url_rules t)") (simp_all add: revoke_url_allowlist_def)
qed

interpretation hosts: soft_table "\<lambda>_. True" "is_plain_host w" "allow_host w" "drop_host w" "\<lambda>t. set (active_keys (url_rules t))"
  for w :: "'w table_world_scheme"
  by unfold_locales (simp_all add: allow_host_active drop_host_active del: allow_host.simps drop_host.simps)

lemma well_keyed_patterns: "well_keyed t \<Longrightarrow> well_keyed (drop_pattern w i p t)"
proof -
  assume k: "well_keyed t"
  obtain now d who where i: "i = (now, d, who)" by (cases i)
  have "well_keyed (snd (revoke_allowlist_rule w now n b t))" for n b
    using well_keyed_op [OF k, of w now "RevokeRule n b"] by simp
  with k i show ?thesis by (auto simp: revoke_pattern_def split: option.splits)
qed

lemma drop_pattern_active:
  assumes "well_keyed t" and "is_plain_pattern p"
  shows "set (active_keys (user_rules (drop_pattern w i p t))) = set (active_keys (user_rules t)) - {p}"
proof -
  obtain now d who where i: "i = (now, d, who)" by (cases i)
  have n: "\<not> is_number p" using assms(2) by (simp add: is_plain_pattern_def)
  show ?thesis
  proof (cases "find (\<lambda>r. rr_key r = p) (list_allowlist_rules False t)")
    case None
    then have "p \<notin> set (active_keys (user_rules t))"
      by (auto simp: find_None_iff list_allowlist_rules_def active_keys_iff)
    with None i n show ?thesis by (simp add: revoke_pattern_def)
  next
    case (Some r)
    then have r: "r \<in> set (user_rules t)" "rr_active r" "rr_key r = p"
      by (auto simp: find_Some_iff list_allowlist_rules_def dest: nth_mem)
    have k: "distinct (map rr_id (user_rules t))" "distinct (map rr_key (user_rules t))"
      using assms(1) by (simp_all add: well_keyed_def keyed_def)
    have same: "rr_id q = rr_id r \<longleftrightarrow> rr_key q = p" if "q \<in> set (user_rules t)" for q
      using that r k by (metis distinct_map inj_onD)
    obtain q where "find (\<lambda>q. rr_id q = rr_id r \<and> rr_active q) (user_rules t) = Some q"
      using r by (cases "find (\<lambda>q. rr_id q = rr_id r \<and> rr_active q) (user_rules t)") (auto simp: find_None_iff)
    then have "user_rules (drop_pattern w i p t) = switch_off (\<lambda>q. rr_id q = rr_id r) ''human-tui'' now (user_rules t)"
      using Some i n by (simp add: revoke_pattern_def revoke_allowlist_rule_def)
    then have "p' \<in> set (active_keys (user_rules (drop_pattern w i p t))) \<longleftrightarrow> (\<exists>q \<in> set (user_rules t). rr_active q \<and> rr_key q \<noteq> p \<and> rr_key q = p')" for p'
      using same by (auto simp: active_switch_off)
    then show ?thesis by (intro set_eqI) (auto simp: active_keys_iff)
  qed
qed

interpretation patterns: soft_table well_keyed is_plain_pattern "allow_pattern w" "drop_pattern w" "\<lambda>t. set (active_keys (user_rules t))"
  for w :: "'w table_world_scheme"
proof unfold_locales
  fix t :: "'b guard_tables_scheme" and p and i :: columns assume k: "well_keyed t" and ok: "is_plain_pattern p"
  obtain now d who where i: "i = (now, d, who)" by (cases i)
  show "well_keyed (allow_pattern w i p t)" using i well_keyed_op [OF k] by (simp del: apply_op.simps)
  show "set (active_keys (user_rules (allow_pattern w i p t))) = insert p (set (active_keys (user_rules t)))"
    using i ok by (simp add: is_plain_pattern_def add_to_allowlist_def active_upsert)
qed (simp_all add: well_keyed_patterns drop_pattern_active del: drop_pattern.simps)

subsection \<open>Escaped patterns are exact\<close>

fun literal_rx :: "str \<Rightarrow> rx" where
  "literal_rx [] = REps"
| "literal_rx (c # cs) = mk_seq (RSet False [CLit c]) (literal_rx cs)"

definition literal_char :: "char \<Rightarrow> str" where
  "literal_char c = (if c = bslash then ''%&'' else if c = CHR ''&'' then ''&'' else if c = CHR ''%'' then ''%%''
     else if c \<in> set REGEX_SPECIALS then [CHR ''%'', c] else [c])"

lemma rx_ends_mk_seq: "rx_ends ic ml (mk_seq p q) st = concat (map (rx_ends ic ml q) (rx_ends ic ml p st))"
proof -
  have "rx_ends ic ml REps = (\<lambda>st. [st])" by (rule ext) simp
  then show ?thesis by (cases q) simp_all
qed

lemma literal_rx_ends:
  "rx_ends False ml (literal_rx s) (b, r, cp) = (if prefix s r then [(rev s @ b, drop (length s) r, cp)] else [])"
proof (induction s arbitrary: b r)
  case (Cons c s)
  then show ?case by (cases r) (simp_all add: rx_ends_mk_seq set_has_def)
qed simp

lemma literal_full: "re_full \<lparr>rg_rx = literal_rx s, rg_ic = False, rg_ml = False\<rparr> x \<longleftrightarrow> x = s"
proof -
  have "re_full \<lparr>rg_rx = literal_rx s, rg_ic = False, rg_ml = False\<rparr> x \<longleftrightarrow> prefix s x \<and> length x \<le> length s"
    by (auto simp: re_full_def re_fullmatch_def rx_at_def literal_rx_ends split: list.splits)
  then show ?thesis by (auto simp: prefix_def)
qed

lemma escaped_special: "\<forall>c \<in> set REGEX_SPECIALS. dialect_escape c = Some (literal_char c)"
  by code_simp

lemma special_facts: "bslash \<in> set REGEX_SPECIALS" "CHR ''%'' \<notin> set REGEX_SPECIALS" "CHR ''&'' \<in> set REGEX_SPECIALS"
  by code_simp+

lemma dialect_python_escape: "dialect (python_escape s) = Some (concat (map literal_char s))"
proof (induction s)
  case (Cons c s)
  show ?case
  proof (cases "c \<in> set REGEX_SPECIALS")
    case True
    with Cons escaped_special show ?thesis by (simp add: python_escape_def)
  next
    case False
    with Cons special_facts show ?thesis by (auto simp: python_escape_def literal_char_def)
  qed
qed (simp add: python_escape_def)

lemma simple_special: "\<forall>c \<in> set REGEX_SPECIALS. c \<noteq> CHR ''&'' \<longrightarrow> literal_char c = [CHR ''%'', literal_char c ! 1]
    \<and> p_escape (literal_char c ! 1) = RSet False [CLit c]"
  by code_simp

lemma simple_percent: "literal_char (CHR ''%'') = ''%%'' \<and> p_escape (CHR ''%'') = RSet False [CLit (CHR ''%'')]"
  by code_simp

lemma simple_literal: "p_simple (literal_char c @ rest) = Some (RSet False [CLit c], rest)"
proof (cases "c \<in> set REGEX_SPECIALS \<and> c \<noteq> CHR ''&''")
  case True
  with simple_special have s: "literal_char c = [CHR ''%'', literal_char c ! 1]" "p_escape (literal_char c ! 1) = RSet False [CLit c]"
    by auto
  show ?thesis by (subst s(1)) (simp add: p_simple_def s(2) [simplified])
next
  case False
  show ?thesis
  proof (cases "c = CHR ''%''")
    case True
    with simple_percent show ?thesis by (simp add: p_simple_def)
  next
    case np: False
    have sp: "\<forall>c \<in> set ''[.^$*+?''. c \<in> set REGEX_SPECIALS \<and> c \<noteq> CHR ''&''" by code_simp
    have "literal_char c = [c]"
    proof (cases "c = CHR ''&''")
      case ns: False
      with False have "c \<notin> set REGEX_SPECIALS" by blast
      moreover from this special_facts have "c \<noteq> bslash" by blast
      ultimately show ?thesis using np ns by (simp add: literal_char_def)
    qed (simp add: literal_char_def)
    moreover have "c \<notin> set ''[.^$*+?''" using False sp by blast
    ultimately show ?thesis using np by (simp add: p_simple_def)
  qed
qed

definition inert :: "str \<Rightarrow> bool" where
  "inert s \<longleftrightarrow> s = [] \<or> hd s \<notin> set ''|()*+?{''"

lemma inert_literal: "inert (concat (map literal_char s))"
proof (cases s)
  case (Cons c cs)
  have "\<forall>c \<in> set REGEX_SPECIALS. hd (literal_char c) \<notin> set ''|()*+?{'' \<and> literal_char c \<noteq> []" by code_simp
  moreover have "\<forall>c \<in> set ''|()*+?{''. c \<in> set REGEX_SPECIALS" by code_simp
  ultimately have "hd (literal_char c) \<notin> set ''|()*+?{'' \<and> literal_char c \<noteq> []"
    by (cases "c \<in> set REGEX_SPECIALS") (auto simp: literal_char_def)
  with Cons show ?thesis by (simp add: inert_def)
qed (simp add: inert_def)

lemma literal_char_nonempty: "literal_char c \<noteq> []"
  by (simp add: literal_char_def)

lemma with_quant_inert: "inert s \<Longrightarrow> with_quant p s = (p, s)"
  by (cases s) (simp_all add: with_quant_def p_quant_def inert_def)

lemma seq_step:
  "s \<noteq> [] \<Longrightarrow> inert s \<Longrightarrow> p_simple s = Some (p, r) \<Longrightarrow> inert r \<Longrightarrow> p_seq n cx r = Some (q, r', cx')
     \<Longrightarrow> p_seq (Suc n) cx s = Some (mk_seq p q, r', cx')"
  by (simp add: inert_def [of s] with_quant_inert)

lemma seq_literal: "length s < n \<Longrightarrow> p_seq n cx (concat (map literal_char s)) = Some (literal_rx s, [], cx)"
proof (induction s arbitrary: n)
  case Nil
  then obtain m where "n = Suc m" by (cases n) auto
  then show ?case by simp
next
  case (Cons c s)
  then obtain m where n: "n = Suc m" "length s < m" by (cases n) auto
  let ?rest = "concat (map literal_char s)"
  from inert_literal [of "c # s"] have h: "inert (literal_char c @ ?rest)" by simp
  from seq_step [OF _ h simple_literal inert_literal Cons.IH [OF n(2)]] literal_char_nonempty n(1) show ?case by simp
qed

lemma parse_literal: "rx_parse (concat (map literal_char s)) = Some (literal_rx s)"
proof -
  have "length s \<le> length (concat (map literal_char s))"
  proof (induction s)
    case (Cons c s)
    from literal_char_nonempty [of c] have "1 \<le> length (literal_char c)" by (cases "literal_char c") simp_all
    with Cons show ?case by simp
  qed simp
  then have "length s < Suc (2 * length (concat (map literal_char s)))" by simp
  from seq_literal [OF this] show ?thesis by (simp add: rx_parse_def)
qed

lemma escaped_is_exact: "py_fullmatch (python_escape s) x = Some (x = s)"
  by (simp add: py_fullmatch_def dialect_python_escape parse_literal literal_full)

subsection \<open>What the checks let through\<close>

lemma python_escape_inj: "python_escape s = python_escape t \<longleftrightarrow> s = t"
  using escaped_is_exact by (metis option.inject)

lemma match_rules_escaped:
  "set (map rr_key rs) \<subseteq> range python_escape \<Longrightarrow>
     \<exists>v. match_rules_of x rs = Some v \<and> (v \<noteq> None \<longleftrightarrow> python_escape x \<in> rr_key ` set rs)"
proof (induction rs)
  case (Cons r rs)
  then obtain s where s: "rr_key r = python_escape s" by auto
  with Cons show ?case by (cases "x = s") (auto simp: escaped_is_exact python_escape_inj)
qed simp

lemma check_escaped:
  assumes "set (active_keys (user_rules t)) \<subseteq> range python_escape"
  shows "\<exists>v. check_persisted_allowlist x t = Some v \<and> (v \<noteq> None \<longleftrightarrow> python_escape x \<in> set (active_keys (user_rules t)))"
  using match_rules_escaped [of "filter rr_active (user_rules t)" x] assms
  by (simp add: check_persisted_allowlist_def active_keys_def)

lemma decided_allowed: "decided ds k False \<Longrightarrow> k \<in> fst ` snd ` set ds"
  using decided_others [of k ds False] by blast

text \<open>
  C33: A person decides about commands, one after the other: \<open>/allow-last\<close> stores the escaped
  command, \<open>/revoke\<close> takes it back.  Whatever the history, the check never raises and lets a
  command through exactly if the last decision about this very text allowed it.
\<close>

theorem last_decision_on_command_holds:
  assumes "list_all (\<lambda>(a, c, i). is_plain_pattern (python_escape c)) ds"
  shows "\<exists>v. check_persisted_allowlist x
      (fold (\<lambda>(a, c, i). if a then allow_pattern w i (python_escape c) else drop_pattern w i (python_escape c)) ds no_tables) = Some v
    \<and> (v \<noteq> None \<longleftrightarrow> decided ds x False)"
proof -
  let ?es = "map (\<lambda>(a, c, i). (a, python_escape c, i)) ds"
  let ?t = "fold (\<lambda>(a, c, i). if a then allow_pattern w i (python_escape c) else drop_pattern w i (python_escape c)) ds no_tables"
  have same: "fold (\<lambda>(a, c, i). if a then allow_pattern w i (python_escape c) else drop_pattern w i (python_escape c)) es t0
      = fold (\<lambda>(a, p, i). if a then allow_pattern w i p else drop_pattern w i p) (map (\<lambda>(a, c, i). (a, python_escape c, i)) es) t0" for es and t0 :: guard_tables
    by (induction es arbitrary: t0) (auto simp del: allow_pattern.simps drop_pattern.simps)
  have t: "?t = fold (\<lambda>(a, p, i). if a then allow_pattern w i p else drop_pattern w i p) ?es no_tables"
    by (rule same)
  have g: "well_keyed no_tables" and n: "active_keys (user_rules no_tables) = []"
    by (simp_all add: well_keyed_def keyed_def no_tables_def active_keys_def)
  have ok: "list_all (\<lambda>(a, p, i). is_plain_pattern p) ?es"
    using assms by (auto simp: list_all_iff)
  have active: "p \<in> set (active_keys (user_rules ?t)) \<longleftrightarrow> decided ?es p False" for p
    using patterns.last_decision_holds [OF g ok, of p] n unfolding t by simp
  have esc: "decided (map (\<lambda>(a, c, i). (a, python_escape c, i)) es) (python_escape x) b = decided es x b" for es :: "(bool \<times> str \<times> columns) list" and b
    by (induction es x b rule: decided.induct) (simp_all add: python_escape_inj)
  have "set (active_keys (user_rules ?t)) \<subseteq> range python_escape"
    using active decided_allowed [of ?es] by fastforce
  from check_escaped [OF this, of x] active [of "python_escape x"] esc show ?thesis by simp
qed

theorem last_decision_on_command_holds_witness:
  "\<exists>v. check_persisted_allowlist ''make all'' (fold (\<lambda>(a, c, i). if a then allow_pattern table_demo i (python_escape c) else drop_pattern table_demo i (python_escape c))
      [(True, ''make all'', 1, '''', ''me''), (False, ''make'', 2, '''', ''me'')] no_tables) = Some v
    \<and> (v \<noteq> None \<longleftrightarrow> decided [(True, ''make all'', (1 :: int, [] :: str, ''me'')), (False, ''make'', 2, [], ''me'')] ''make all'' False)"
proof -
  have "list_all (\<lambda>(a, c, i). is_plain_pattern (python_escape c)) [(True, ''make all'', (1 :: int, [] :: str, ''me'')), (False, ''make'', 2, [], ''me'')]"
    by code_simp
  from last_decision_on_command_holds [OF this, of "''make all''" table_demo] show ?thesis .
qed

text \<open>
  The list of hosts follows the last decision about each host, and a fetch that the check
  lets through goes to hosts whose last decision allowed them.
\<close>

lemma last_decision_on_host_holds:
  assumes "list_all (\<lambda>(a, h, i). is_plain_host w h) ds"
  shows "h \<in> set (map rr_key (list_url_allowlist (fold (\<lambda>(a, h, i). if a then allow_host w i h else drop_host w i h) ds no_tables)))
    \<longleftrightarrow> decided ds h False"
  using hosts.last_decision_holds [OF TrueI assms, of h no_tables]
  by (simp add: active_keys_def list_url_allowlist_def no_tables_def)

lemma plain_host_demo: "is_plain_host table_demo ''a.io''"
proof -
  have "valid_hostname ''a.io'' \<and> \<not> is_number ''a.io''" by code_simp
  then show ?thesis using normal_hostname [of "''a.io''" table_demo] by (simp add: is_plain_host_def table_demo_def)
qed

lemma last_decision_on_host_holds_witness:
  "''a.io'' \<in> set (map rr_key (list_url_allowlist (fold (\<lambda>(a, h, i). if a then allow_host table_demo i h else drop_host table_demo i h)
      [(True, ''a.io'', 1, [], ''me'')] no_tables))) \<longleftrightarrow> decided [(True, ''a.io'', (1 :: int, [] :: str, ''me''))] ''a.io'' False"
proof -
  have "list_all (\<lambda>(a, h, i). is_plain_host table_demo h) [(True, ''a.io'', (1 :: int, [] :: str, ''me''))]"
    by (simp add: plain_host_demo)
  from last_decision_on_host_holds [OF this, of "''a.io''"] show ?thesis .
qed

text \<open>
  The table accepts patterns that are no regular expressions, and one such active rule
  makes every check raise that no earlier rule answers.
\<close>

lemma match_rules_append:
  "match_rules_of x (rs @ qs) = (case match_rules_of x rs of Some None \<Rightarrow> match_rules_of x qs | r \<Rightarrow> r)"
  by (induction rs) (auto split: option.splits bool.splits)

lemma malformed_rule_stops_the_check:
  assumes "\<not> is_dangerous_pattern p" and "py_fullmatch p x = None" and "p \<notin> set (map rr_key (user_rules t))"
    and "check_persisted_allowlist x t = Some None"
  shows "\<exists>t'. add_to_allowlist w now p d by t = Inr t' \<and> check_persisted_allowlist x t' = None"
proof -
  have "\<not> list_ex (\<lambda>r. rr_key r = p) (user_rules t)" using assms(3) by (auto simp: list_ex_iff)
  with assms show ?thesis
    by (simp add: add_to_allowlist_def check_persisted_allowlist_def upsert_rule_def match_rules_append)
qed

lemma malformed_rule_stops_the_check_witness:
  "\<exists>t'. add_to_allowlist table_demo 0 ''[abc'' '''' ''me'' no_tables = Inr t' \<and> check_persisted_allowlist ''ls'' t' = None"
proof (rule malformed_rule_stops_the_check)
  show "\<not> is_dangerous_pattern ''[abc''" by code_simp
  show "py_fullmatch ''[abc'' ''ls'' = None" by code_simp
  show "''[abc'' \<notin> set (map rr_key (user_rules no_tables))" "check_persisted_allowlist ''ls'' no_tables = Some None"
    by (simp_all add: no_tables_def check_persisted_allowlist_def)
qed

text \<open>The catch-all family is not rejected as a whole.\<close>

lemma catch_all_passes:
  "list_all (\<lambda>p. \<not> is_dangerous_pattern p \<and> py_fullmatch p ''rm -rf /'' = Some True) [''(.*)'', ''.{0,}'', ''.*|x'']"
  by code_simp

text \<open>A host that consists of digits can be listed but is not found by its name.\<close>

lemma numeric_host_stays:
  assumes "normalized_netloc_ok w ''127''"
  shows "normalize_url_hostname w ''127'' = Inr ''127''" and "url_target w ''127'' = Inr (\<lambda>r. rr_id r = 127)"
proof -
  have "valid_hostname ''127''" by code_simp
  then show "normalize_url_hostname w ''127'' = Inr ''127''" using assms by (rule normal_hostname)
  have "is_number ''127'' \<and> read_nat ''127'' = 127" by code_simp
  then show "url_target w ''127'' = Inr (\<lambda>r. rr_id r = 127)" by (simp add: url_target_def)
qed


end
