(* ===== verification/Escalations.thy ===== *)
theory Escalations
  imports CommandAudit GuardTables "HOL-Library.Multiset"
begin

text \<open>
  The queue of escalations and the adjudications of \<open>scripts/core/guard_db.py\<close>: queueing,
  the view of the live panes, batches, delivery, resolution, clean-up, and the three kinds of
  trust that an approval by a person creates (the approved pattern, the memory of the pane,
  the rule of the workspace).
\<close>

subsection \<open>Rows\<close>

record esc_request =
  rq_pane :: str
  rq_raw :: str
  rq_reason :: str
  rq_layer :: str
  rq_agent :: str
  rq_session :: "str option"
  rq_snapshot :: "str option"
  rq_cwd :: "str option"
  rq_origin :: "str option"
  rq_capture :: "str option"
  rq_relation :: "str option"
  rq_ambiguous :: bool
  rq_raw_evaluated :: bool

text \<open>A row: the columns of the request, the identity, and what became of it.\<close>

record escalation =
  es_id :: nat
  es_request :: esc_request
  es_hash :: str
  es_status :: str
  es_started :: int
  es_delivered :: "int option"
  es_moved :: int
  es_resolution :: "str option"
  es_approver :: "str option"

record adjudication =
  ad_id :: nat
  ad_escalation :: nat
  ad_pane :: str
  ad_agent :: str
  ad_action :: str
  ad_feedback :: "str option"
  ad_approver :: str
  ad_note :: "str option"
  ad_time :: int

record guard_state = audit_state +
  tables :: guard_tables
  escalations :: "escalation list"
  esc_seq :: nat
  adjudications :: "adjudication list"
  adj_seq :: nat

text \<open>
  The life time of approved patterns, the identifiers that \<open>uuid4\<close> makes for the rules of a
  batch, and the text of a time are parameters, besides those of the audit and of the tables.
\<close>

record guard_world = audit_world +
  gw_tables :: table_world
  approval_ttl :: int
  fresh_id :: "nat \<Rightarrow> str"
  iso_time :: "int \<Rightarrow> str"
  show_rat :: "rat \<Rightarrow> str"

definition pane_of :: "escalation \<Rightarrow> str" where
  "pane_of e = rq_pane (es_request e)"

definition raw_of :: "escalation \<Rightarrow> str" where
  "raw_of e = rq_raw (es_request e)"

definition is_open :: "escalation \<Rightarrow> bool" where
  "is_open e \<longleftrightarrow> es_status e = ''PENDING'' \<or> es_status e = ''DELIVERED''"

text \<open>\<open>COALESCE(a, b)\<close>.\<close>

definition coalesce :: "'v option \<Rightarrow> 'v option \<Rightarrow> 'v option" where
  "coalesce a b = (case a of Some v \<Rightarrow> Some v | None \<Rightarrow> b)"

text \<open>\<open>UPDATE ... SET\<close> \<open>f\<close> \<open>WHERE\<close> \<open>p\<close>, and its row count.\<close>

definition update_where :: "('r \<Rightarrow> bool) \<Rightarrow> ('r \<Rightarrow> 'r) \<Rightarrow> 'r list \<Rightarrow> 'r list" where
  "update_where p f rs = map (\<lambda>r. if p r then f r else r) rs"

definition count_where :: "('r \<Rightarrow> bool) \<Rightarrow> 'r list \<Rightarrow> nat" where
  "count_where p rs = length (filter p rs)"

definition row_with_id :: "nat \<Rightarrow> escalation list \<Rightarrow> escalation option" where
  "row_with_id i es = find (\<lambda>e. es_id e = i) es"

subsection \<open>Queueing\<close>

text \<open>
  The key is the pane and 64 bits of the hash.  A row with the same key is opened again: the
  columns of the new request replace the old ones, except the command, the agent and the time
  of the first request.
\<close>

definition same_slot :: "str \<Rightarrow> str \<Rightarrow> escalation \<Rightarrow> bool" where
  "same_slot pane h e \<longleftrightarrow> pane_of e = pane \<and> es_hash e = h"

definition reopened :: "esc_request \<Rightarrow> int \<Rightarrow> escalation \<Rightarrow> escalation" where
  "reopened rq now e = e\<lparr>es_request := rq\<lparr>rq_raw := rq_raw (es_request e), rq_agent := rq_agent (es_request e)\<rparr>,
     es_status := ''PENDING'', es_moved := now, es_resolution := None, es_approver := None, es_delivered := None\<rparr>"

definition new_escalation :: "esc_request \<Rightarrow> str \<Rightarrow> int \<Rightarrow> nat \<Rightarrow> escalation" where
  "new_escalation rq h now n = \<lparr>es_id = n, es_request = rq, es_hash = h, es_status = ''PENDING'', es_started = now,
     es_delivered = None, es_moved = now, es_resolution = None, es_approver = None\<rparr>"

definition command_hash :: "'w judge_world_scheme \<Rightarrow> str \<Rightarrow> str" where
  "command_hash w raw = take 16 (sha w raw)"

definition enqueue_pending_escalation ::
    "'w judge_world_scheme \<Rightarrow> int \<Rightarrow> esc_request \<Rightarrow> 'a guard_state_scheme \<Rightarrow> nat \<times> 'a guard_state_scheme" where
  "enqueue_pending_escalation w now rq s =
     (let h = command_hash w (rq_raw rq); slot = same_slot (rq_pane rq) h in
      case find slot (escalations s) of
        Some e \<Rightarrow> (es_id e, s\<lparr>escalations := update_where slot (reopened rq now) (escalations s), esc_seq := Suc (esc_seq s)\<rparr>)
      | None \<Rightarrow> (Suc (esc_seq s), s\<lparr>escalations := escalations s @ [new_escalation rq h now (Suc (esc_seq s))], esc_seq := Suc (esc_seq s)\<rparr>))"

subsection \<open>Clean-up and the view of the live panes\<close>

definition closed_by_cleanup :: "str \<Rightarrow> int \<Rightarrow> escalation \<Rightarrow> escalation" where
  "closed_by_cleanup status now e = e\<lparr>es_status := status, es_moved := now,
     es_resolution := coalesce (es_resolution e) (Some ''UNANSWERED''), es_approver := coalesce (es_approver e) (Some ''other'')\<rparr>"

definition WEEK :: int where
  "WEEK = 7 * 86400"

definition is_purged :: "int \<Rightarrow> escalation \<Rightarrow> bool" where
  "is_purged now e \<longleftrightarrow> es_status e \<in> set [''RESOLVED'', ''STALE_EXPIRED'', ''CANCELLED''] \<and> es_moved e < now - WEEK"

text \<open>The age is in seconds here (hours in the source).\<close>

record cleanup_args =
  cl_ids :: "nat list"
  cl_pane :: str
  cl_older :: "int option"
  cl_status :: str
  cl_purge :: bool

definition cleanup_escalations :: "int \<Rightarrow> cleanup_args \<Rightarrow> 'a guard_state_scheme \<Rightarrow> nat \<times> 'a guard_state_scheme" where
  "cleanup_escalations now a s =
     (let close = (\<lambda>p. (count_where p (escalations s), s\<lparr>escalations := update_where p (closed_by_cleanup (cl_status a) now) (escalations s)\<rparr>)) in
      if cl_purge a then (count_where (is_purged now) (escalations s), s\<lparr>escalations := filter (\<lambda>e. \<not> is_purged now e) (escalations s)\<rparr>)
      else if cl_ids a \<noteq> [] then close (\<lambda>e. es_id e \<in> set (cl_ids a))
      else (case cl_older a of
          Some age \<Rightarrow> close (\<lambda>e. is_open e \<and> es_started e < now - age)
        | None \<Rightarrow> if cl_pane a \<noteq> [] then close (\<lambda>e. is_open e \<and> pane_of e = cl_pane a) else (0, s)))"

definition cleanup_ids :: "nat list \<Rightarrow> str \<Rightarrow> cleanup_args" where
  "cleanup_ids ids status = \<lparr>cl_ids = ids, cl_pane = [], cl_older = None, cl_status = status, cl_purge = False\<rparr>"

definition is_wanted :: "bool \<Rightarrow> escalation \<Rightarrow> bool" where
  "is_wanted delivered e \<longleftrightarrow> es_status e = ''PENDING'' \<or> delivered \<and> es_status e = ''DELIVERED''"

definition truthy_text :: "str option \<Rightarrow> bool" where
  "truthy_text v \<longleftrightarrow> v \<noteq> None \<and> v \<noteq> Some []"

definition is_ghost :: "(str \<times> str option) list \<Rightarrow> escalation \<Rightarrow> bool" where
  "is_ghost panes e \<longleftrightarrow>
     (case map_of panes (pane_of e) of None \<Rightarrow> False
      | Some current \<Rightarrow> truthy_text (rq_session (es_request e)) \<and> truthy_text current \<and> rq_session (es_request e) \<noteq> current)"

definition is_dead :: "(str \<times> str option) list \<Rightarrow> escalation \<Rightarrow> bool" where
  "is_dead panes e \<longleftrightarrow> map_of panes (pane_of e) = None"

definition cleanup_when :: "int \<Rightarrow> nat list \<Rightarrow> str \<Rightarrow> 'a guard_state_scheme \<Rightarrow> 'a guard_state_scheme" where
  "cleanup_when now ids status s = (if ids = [] then s else snd (cleanup_escalations now (cleanup_ids ids status) s))"

definition get_pending_escalations ::
    "int \<Rightarrow> str \<Rightarrow> bool \<Rightarrow> (str \<times> str option) list option \<Rightarrow> 'a guard_state_scheme \<Rightarrow> escalation list \<times> 'a guard_state_scheme" where
  "get_pending_escalations now pane delivered panes s =
     (let es = filter (\<lambda>e. is_wanted delivered e \<and> (pane = [] \<or> pane_of e = pane)) (escalations s) in
      case panes of
        None \<Rightarrow> (es, s)
      | Some m \<Rightarrow> (filter (\<lambda>e. \<not> is_dead m e \<and> \<not> is_ghost m e) es,
          cleanup_when now (map es_id (filter (is_dead m) es)) ''CANCELLED''
            (cleanup_when now (map es_id (filter (\<lambda>e. \<not> is_dead m e \<and> is_ghost m e) es)) ''SESSION_MISMATCH'' s)))"

definition get_pending_command_escalations ::
    "int \<Rightarrow> str \<Rightarrow> bool \<Rightarrow> (str \<times> str option) list option \<Rightarrow> 'a guard_state_scheme \<Rightarrow> escalation list \<times> 'a guard_state_scheme" where
  "get_pending_command_escalations now pane delivered panes s =
     (case get_pending_escalations now pane delivered panes s of
        (es, s') \<Rightarrow> (filter (\<lambda>e. rq_layer (es_request e) \<noteq> ''QUESTION'') es, s'))"

subsection \<open>Batches\<close>

record esc_group =
  gr_key :: "str \<times> str"
  gr_count :: nat
  gr_items :: "escalation list"
  gr_sample :: str

definition group_key :: "escalation \<Rightarrow> str \<times> str" where
  "group_key e = (rq_layer (es_request e), normalize_command (raw_of e))"

fun add_to_group :: "escalation \<Rightarrow> esc_group list \<Rightarrow> esc_group list" where
  "add_to_group e [] = [\<lparr>gr_key = group_key e, gr_count = 1, gr_items = [e], gr_sample = raw_of e\<rparr>]"
| "add_to_group e (g # gs) =
     (if gr_key g = group_key e then g\<lparr>gr_count := Suc (gr_count g), gr_items := gr_items g @ [e]\<rparr> # gs
      else g # add_to_group e gs)"

definition group_pending_escalations :: "escalation list \<Rightarrow> esc_group list" where
  "group_pending_escalations es = fold add_to_group es []"

subsection \<open>Delivery and resolution\<close>

definition mark_escalation_delivered :: "int \<Rightarrow> nat \<Rightarrow> 'a guard_state_scheme \<Rightarrow> 'a guard_state_scheme" where
  "mark_escalation_delivered now i s =
     s\<lparr>escalations := update_where (\<lambda>e. es_id e = i \<and> es_status e = ''PENDING'')
        (\<lambda>e. e\<lparr>es_status := ''DELIVERED'', es_delivered := Some now, es_moved := now\<rparr>) (escalations s)\<rparr>"

record resolve_args =
  rs_pane :: str
  rs_hash :: str
  rs_id :: nat
  rs_status :: str
  rs_approval :: bool
  rs_approver :: "str option"
  rs_resolution :: "str option"

definition resolved :: "resolve_args \<Rightarrow> int \<Rightarrow> escalation \<Rightarrow> escalation" where
  "resolved a now e = e\<lparr>es_status := rs_status a, es_moved := now,
     es_approver := coalesce (rs_approver a) (es_approver e), es_resolution := coalesce (rs_resolution a) (es_resolution e)\<rparr>"

text \<open>The rows whose command is remembered, and the rows that change; an identifier of 0 and an
  empty hash count as absent.\<close>

definition remembered_row :: "resolve_args \<Rightarrow> escalation \<Rightarrow> bool" where
  "remembered_row a e \<longleftrightarrow>
     (if rs_id a \<noteq> 0 then es_id e = rs_id a
      else if rs_hash a \<noteq> [] then same_slot (rs_pane a) (rs_hash a) e
      else pane_of e = rs_pane a \<and> is_open e)"

definition resolved_row :: "resolve_args \<Rightarrow> escalation \<Rightarrow> bool" where
  "resolved_row a e \<longleftrightarrow>
     (if rs_id a \<noteq> 0 then es_id e = rs_id a
      else if rs_hash a \<noteq> [] then same_slot (rs_pane a) (rs_hash a) e \<and> is_open e
      else pane_of e = rs_pane a \<and> is_open e)"

definition remembers :: "resolve_args \<Rightarrow> bool" where
  "remembers a \<longleftrightarrow> rs_status a = ''RESOLVED'' \<and> rs_approval a \<and> rs_approver a = Some ''human-tui''"

definition PANE_MEMORY_TTL :: int where
  "PANE_MEMORY_TTL = 3600"

definition record_pane_approval :: "'w judge_world_scheme \<Rightarrow> int \<Rightarrow> str \<Rightarrow> str \<Rightarrow> 'a pane_store_scheme \<Rightarrow> 'a pane_store_scheme" where
  "record_pane_approval w now pane raw =
     record_approval (sha w) pane raw ''HUMAN_APPROVAL'' ''Approved by human operator'' [] now PANE_MEMORY_TTL"

definition resolve_escalation :: "'w judge_world_scheme \<Rightarrow> int \<Rightarrow> resolve_args \<Rightarrow> 'a guard_state_scheme \<Rightarrow> 'a guard_state_scheme" where
  "resolve_escalation w now a s =
     (let approved = (if remembers a then filter (remembered_row a) (escalations s) else []);
          s1 = s\<lparr>escalations := update_where (resolved_row a) (resolved a now) (escalations s)\<rparr>
      in fold (\<lambda>e. record_pane_approval w now (pane_of e) (raw_of e)) approved s1)"

subsection \<open>Promotion to the workspace\<close>

record derived_rule =
  dr_action :: str
  dr_match :: str
  dr_pattern :: str

definition after_first_blank :: "str \<Rightarrow> str" where
  "after_first_blank s = (case split_once (CHR '' '') s of Some (a, b) \<Rightarrow> b | None \<Rightarrow> [])"

definition derive_workspace_rule :: "'w file_world_scheme \<Rightarrow> str \<Rightarrow> str option \<Rightarrow> derived_rule list" where
  "derive_workspace_rule w raw layer =
     (let cmd = strip raw in
      if starts_with cmd ''access_directory '' then
        [\<lparr>dr_action = ''access_directory'', dr_match = ''prefix'', dr_pattern = resolve_path w (strip (drop 17 cmd))\<rparr>]
      else if starts_with cmd ''edit_file '' \<or> starts_with cmd ''create_file '' then
        map (\<lambda>p. \<lparr>dr_action = ''edit_file'', dr_match = ''exact'', dr_pattern = resolve_path w p\<rparr>)
          (filter (\<lambda>p. p \<noteq> []) (map strip (split_char nl (after_first_blank cmd))))
      else if starts_with cmd ''read_file '' then
        [\<lparr>dr_action = ''read_file'', dr_match = ''exact'', dr_pattern = resolve_path w (strip (drop 10 cmd))\<rparr>]
      else if layer = None \<or> layer = Some ''QUESTION'' \<or> layer = Some ''unhandled_dialog'' then []
      else [\<lparr>dr_action = ''exec'', dr_match = ''exact'', dr_pattern = cmd\<rparr>])"

record promotion =
  pm_id :: nat
  pm_pane :: str
  pm_agent :: str
  pm_raw :: str
  pm_layer :: "str option"
  pm_cwd :: "str option"
  pm_origin :: str
  pm_approver :: str

definition staged_rule :: "'w guard_world_scheme \<Rightarrow> int \<Rightarrow> promotion \<Rightarrow> nat \<Rightarrow> derived_rule \<Rightarrow> json" where
  "staged_rule w now p i r = JObj
     [(''id'', JStr (''auto-'' @ take 12 (fresh_id w i))), (''action_type'', JStr (dr_action r)), (''match_type'', JStr (dr_match r)),
      (''pattern'', JStr (dr_pattern r)), (''agent_scope'', JArr [JStr ''*'']), (''created_by'', JStr (pm_approver p)),
      (''created_at'', JStr (iso_time w now)),
      (''reason'', JStr (''Auto-promoted from '' @ (case pm_layer p of Some l \<Rightarrow> if l = [] then ''unknown'' else l | None \<Rightarrow> ''unknown'')
          @ '' approval (escalation #'' @ show_nat (pm_id p) @ '')''))]"

fun promote_all :: "'w guard_world_scheme \<Rightarrow> str \<Rightarrow> int \<Rightarrow> json list \<Rightarrow> 'b policy_store_scheme \<Rightarrow> bool \<times> 'b policy_store_scheme" where
  "promote_all w path now [] s = (True, s)"
| "promote_all w path now (r # rs) s =
     (case promote_rule w (show_rat w) path [] r now s of
        (True, s1) \<Rightarrow> promote_all w path now rs s1
      | (False, s1) \<Rightarrow> (False, s1))"

text \<open>Back to the bytes before the batch, or the file that the batch created is removed.\<close>

definition roll_back :: "'w guard_world_scheme \<Rightarrow> str \<Rightarrow> int \<Rightarrow> str option \<Rightarrow> 'b policy_store_scheme \<Rightarrow> 'b policy_store_scheme" where
  "roll_back w path now before s =
     (case before of
        Some raw \<Rightarrow> snd (restore_policy w path raw now s)
      | None \<Rightarrow> s\<lparr>policy_files := AList.delete path (policy_files s)\<rparr>)"

definition promotion_entry :: "promotion \<Rightarrow> derived_rule \<Rightarrow> audit_entry" where
  "promotion_entry p r =
     \<lparr>en_pane = pm_pane p, en_raw = pm_raw p, en_decision = ''ALLOWLIST_BYPASS'',
      en_reason = ''Auto-promoted workspace rule: '' @ dr_action r @ '' '' @ dr_pattern r, en_agent = pm_agent p,
      en_layer = (case pm_layer p of Some l \<Rightarrow> if l = [] then ''FAST_TRACK_AST'' else l | None \<Rightarrow> ''FAST_TRACK_AST''),
      en_origin = pm_origin p, en_consequence = ''NONE'', en_mechanism = ''workspace-allowlist-promote'', en_gate = ''ENFORCE'',
      en_shadow = False, en_scope = ''REPO_LOCAL'', en_source = None, en_revision = None\<rparr>"

definition log_entry :: "'w guard_world_scheme \<Rightarrow> int \<Rightarrow> audit_entry \<Rightarrow> 'a guard_state_scheme \<Rightarrow> 'a guard_state_scheme" where
  "log_entry w now e s = s\<lparr>tables := record_audit_log (gw_tables w) now e (tables s)\<rparr>"

definition promotion_path :: "'w guard_world_scheme \<Rightarrow> promotion \<Rightarrow> str option" where
  "promotion_path w p =
     (if pm_origin p \<noteq> ''A'' \<and> pm_origin p \<noteq> ''H'' then None
      else (case pm_cwd p of
          None \<Rightarrow> None
        | Some cwd \<Rightarrow>
            if cwd = [] \<or> derive_workspace_rule w (pm_raw p) (pm_layer p) = [] then None
            else discover_workspace_policy w cwd))"

definition maybe_promote_workspace_rule :: "'w guard_world_scheme \<Rightarrow> int \<Rightarrow> promotion \<Rightarrow> 'a guard_state_scheme \<Rightarrow> 'a guard_state_scheme" where
  "maybe_promote_workspace_rule w now p s =
     (case promotion_path w p of
        None \<Rightarrow> s
      | Some path \<Rightarrow>
          (let rules = derive_workspace_rule w (pm_raw p) (pm_layer p);
               before = map_option pf_text (map_of (policy_files (policies s)) path);
               staged = map (\<lambda>(i, r). staged_rule w now p i r) (enumerate 0 rules);
               (ok, ps) = promote_all w path now staged (policies s)
           in if ok then fold (\<lambda>r. log_entry w now (promotion_entry p r)) rules (s\<lparr>policies := ps\<rparr>)
              else s\<lparr>policies := roll_back w path now before ps\<rparr>))"

subsection \<open>Adjudication\<close>

record adjudication_args =
  aj_id :: nat
  aj_pane :: str
  aj_agent :: str
  aj_action :: str
  aj_feedback :: str
  aj_origin :: str
  aj_approver :: str
  aj_note :: "str option"

definition log_adjudication ::
    "nat \<Rightarrow> str \<Rightarrow> str \<Rightarrow> str \<Rightarrow> str option \<Rightarrow> str \<Rightarrow> str option \<Rightarrow> int \<Rightarrow> 'a guard_state_scheme \<Rightarrow> 'a guard_state_scheme" where
  "log_adjudication i pane agent action feedback approver note now s =
     s\<lparr>adjudications := adjudications s @ [\<lparr>ad_id = Suc (adj_seq s), ad_escalation = i, ad_pane = pane, ad_agent = agent,
         ad_action = action, ad_feedback = feedback, ad_approver = approver, ad_note = note, ad_time = now\<rparr>],
       adj_seq := Suc (adj_seq s)\<rparr>"

text \<open>The escalation as it is named by the adjudication; 0 names none.\<close>

definition adjudicated_row :: "adjudication_args \<Rightarrow> 'a guard_state_scheme \<Rightarrow> escalation option" where
  "adjudicated_row a s = (if aj_id a = 0 then None else row_with_id (aj_id a) (escalations s))"

definition disposed :: "adjudication_args \<Rightarrow> escalation \<Rightarrow> escalation" where
  "disposed a e = e\<lparr>es_resolution := Some (if aj_action a = ''APPROVE'' then ''APPROVED'' else ''REJECTED''), es_approver := Some (aj_approver a)\<rparr>"

definition grants_trust :: "adjudication_args \<Rightarrow> escalation \<Rightarrow> bool" where
  "grants_trust a e \<longleftrightarrow> aj_action a = ''APPROVE'' \<and> raw_of e \<noteq> [] \<and> aj_approver a = ''human-tui''"

definition effective_origin :: "adjudication_args \<Rightarrow> escalation \<Rightarrow> str" where
  "effective_origin a e =
     (if truthy_text (rq_origin (es_request e)) then the (rq_origin (es_request e))
      else if aj_origin a \<noteq> [] then aj_origin a else ''A'')"

definition promotion_of :: "adjudication_args \<Rightarrow> escalation \<Rightarrow> promotion" where
  "promotion_of a e = \<lparr>pm_id = aj_id a, pm_pane = aj_pane a, pm_agent = aj_agent a, pm_raw = raw_of e,
     pm_layer = Some (rq_layer (es_request e)), pm_cwd = rq_cwd (es_request e), pm_origin = effective_origin a e, pm_approver = aj_approver a\<rparr>"

definition record_adjudication :: "'w guard_world_scheme \<Rightarrow> int \<Rightarrow> adjudication_args \<Rightarrow> 'a guard_state_scheme \<Rightarrow> 'a guard_state_scheme" where
  "record_adjudication w now a s =
     (let s1 = log_adjudication (aj_id a) (aj_pane a) (aj_agent a) (aj_action a) (Some (aj_feedback a)) (aj_approver a) (aj_note a) now s;
          s2 = (if aj_id a = 0 then s1
                else s1\<lparr>escalations := update_where (\<lambda>e. es_id e = aj_id a) (disposed a) (escalations s1)\<rparr>)
      in case adjudicated_row a s of
           None \<Rightarrow> s2
         | Some e \<Rightarrow>
             if grants_trust a e
             then maybe_promote_workspace_rule w now (promotion_of a e)
                    (record_human_approval_pattern (normalize_command (raw_of e)) (aj_pane a) now (approval_ttl w) s2)
             else s2)"

definition sanitize_human_note :: "str \<Rightarrow> str" where
  "sanitize_human_note s =
     take 256 (strip (re_sub (re_c ''%s+'') (\<lambda>_. '' '')
       (map (\<lambda>c. if of_char c < (0x20 :: nat) \<or> of_char c = (0x7F :: nat) then CHR '' '' else c) s)))"

definition record_human_opinion :: "int \<Rightarrow> nat \<Rightarrow> str \<Rightarrow> 'a guard_state_scheme \<Rightarrow> 'a guard_state_scheme" where
  "record_human_opinion now i note s =
     (case row_with_id i (escalations s) of
        None \<Rightarrow> s
      | Some e \<Rightarrow> log_adjudication i (pane_of e) (rq_agent (es_request e)) ''HUMAN_OPINION'' None ''human-tui''
          (if note = [] then None else Some (sanitize_human_note note)) now s)"

definition has_human_opinion :: "nat \<Rightarrow> 'a guard_state_scheme \<Rightarrow> bool" where
  "has_human_opinion i s \<longleftrightarrow>
     list_ex (\<lambda>a. ad_escalation a = i \<and> (ad_action a = ''HUMAN_OPINION'' \<or> ad_approver a = ''human-tui'' \<and> ad_note a \<noteq> None)) (adjudications s)"

definition get_adjudication_exchange :: "nat \<Rightarrow> 'a guard_state_scheme \<Rightarrow> adjudication list" where
  "get_adjudication_exchange i s = filter (\<lambda>a. ad_escalation a = i) (adjudications s)"

definition get_adjudications_for_audit :: "str \<Rightarrow> str \<Rightarrow> int \<Rightarrow> 'a guard_state_scheme \<Rightarrow> adjudication list" where
  "get_adjudications_for_audit pane raw n s =
     take (nat (max 1 n)) (rev (filter (\<lambda>a. list_ex (\<lambda>e. es_id e = ad_escalation a \<and> pane_of e = pane \<and> raw_of e = raw) (escalations s))
       (adjudications s)))"

definition last_row :: "str \<Rightarrow> str \<Rightarrow> 'a guard_state_scheme \<Rightarrow> escalation option" where
  "last_row pane raw s = find (\<lambda>e. pane_of e = pane \<and> raw_of e = raw) (rev (escalations s))"

definition get_escalation_resolution :: "str \<Rightarrow> str \<Rightarrow> 'a guard_state_scheme \<Rightarrow> str option" where
  "get_escalation_resolution pane raw s = Option.bind (last_row pane raw s) es_resolution"

definition get_escalation_approver :: "str \<Rightarrow> str \<Rightarrow> 'a guard_state_scheme \<Rightarrow> str option" where
  "get_escalation_approver pane raw s = Option.bind (last_row pane raw s) es_approver"

subsection \<open>The log with what became of the escalations\<close>

record audit_view =
  av_row :: audit_row
  av_source :: str
  av_resolution :: "str option"
  av_approver :: "str option"

definition str_upper :: "str \<Rightarrow> str" where
  "str_upper s = map to_upper s"

definition view_of :: "audit_row \<Rightarrow> escalation option \<Rightarrow> audit_view" where
  "view_of r e =
     (let who = Option.bind e es_approver in
      \<lparr>av_row = r,
       av_source = (if who = Some ''human-tui'' \<or> who = Some ''pane-direct'' then ''HUMAN''
                    else if who = Some ''gatekeeper'' then ''LLM'' else ar_source r),
       av_resolution = Option.bind e es_resolution, av_approver = who\<rparr>)"

text \<open>\<open>LEFT JOIN\<close>: a row without a partner stays.\<close>

definition joined :: "escalation list \<Rightarrow> audit_row \<Rightarrow> audit_view list" where
  "joined es r =
     (case filter (\<lambda>e. pane_of e = en_pane (ar_entry r) \<and> raw_of e = en_raw (ar_entry r)) es of
        [] \<Rightarrow> [view_of r None]
      | ps \<Rightarrow> map (\<lambda>e. view_of r (Some e)) ps)"

definition get_recent_audit_logs ::
    "int \<Rightarrow> str \<Rightarrow> str \<Rightarrow> str \<Rightarrow> int \<Rightarrow> 'a guard_state_scheme \<Rightarrow> audit_view list" where
  "get_recent_audit_logs n decision pane layer offset s =
     (let keep = (\<lambda>r. (decision = [] \<or> en_decision (ar_entry r) = str_upper decision)
            \<and> (pane = [] \<or> en_pane (ar_entry r) = pane)
            \<and> (layer = [] \<or> str_upper (en_layer (ar_entry r)) = str_upper layer))
      in take (nat (max 1 n)) (drop (nat (max 0 offset))
           (concat (map (joined (escalations s)) (rev (filter keep (audit_rows (tables s))))))))"

subsection \<open>Operations\<close>

datatype esc_op =
    Enqueue esc_request
  | Pending str bool "(str \<times> str option) list option"
  | Deliver nat
  | Resolve resolve_args
  | Cleanup cleanup_args
  | Adjudicate adjudication_args
  | Opinion nat str

fun apply_esc :: "'w guard_world_scheme \<Rightarrow> int \<Rightarrow> esc_op \<Rightarrow> 'a guard_state_scheme \<Rightarrow> 'a guard_state_scheme" where
  "apply_esc w now (Enqueue rq) s = snd (enqueue_pending_escalation w now rq s)"
| "apply_esc w now (Pending pane d panes) s = snd (get_pending_escalations now pane d panes s)"
| "apply_esc w now (Deliver i) s = mark_escalation_delivered now i s"
| "apply_esc w now (Resolve a) s = resolve_escalation w now a s"
| "apply_esc w now (Cleanup a) s = snd (cleanup_escalations now a s)"
| "apply_esc w now (Adjudicate a) s = record_adjudication w now a s"
| "apply_esc w now (Opinion i note) s = record_human_opinion now i note s"

definition run_esc :: "'w guard_world_scheme \<Rightarrow> (int \<times> esc_op) list \<Rightarrow> 'a guard_state_scheme \<Rightarrow> 'a guard_state_scheme" where
  "run_esc w ops s = fold (\<lambda>(now, op). apply_esc w now op) ops s"

lemma run_esc_simps [simp]:
  "run_esc w [] s = s" "run_esc w (ops @ [(now, op)]) s = apply_esc w now op (run_esc w ops s)"
  by (simp_all add: run_esc_def)

subsection \<open>Trust comes from people\<close>

text \<open>Everything that later audits trust: cached verdicts and approved patterns, the memory of the
  panes, the policies of the workspaces.\<close>

definition trust_of :: "'a guard_state_scheme \<Rightarrow>
    (str \<times> mem_entry) list \<times> (str \<times> eval_row) list \<times> ((str \<times> str) \<times> mem_record) list \<times> ((str \<times> str) \<times> mem_record) list \<times> policy_store" where
  "trust_of s = (lru s, rows s, exact s, templates s, policies s)"

definition acts_for_person :: "esc_op \<Rightarrow> 'a guard_state_scheme \<Rightarrow> bool" where
  "acts_for_person op s \<longleftrightarrow>
     (case op of
        Resolve a \<Rightarrow> remembers a
      | Adjudicate a \<Rightarrow> (case adjudicated_row a s of Some e \<Rightarrow> grants_trust a e | None \<Rightarrow> False)
      | _ \<Rightarrow> False)"

lemma trust_of_upd [simp]:
  "trust_of (s\<lparr>escalations := es\<rparr>) = trust_of s" "trust_of (s\<lparr>esc_seq := n\<rparr>) = trust_of s"
  "trust_of (s\<lparr>adjudications := as\<rparr>) = trust_of s" "trust_of (s\<lparr>adj_seq := n\<rparr>) = trust_of s"
  "trust_of (s\<lparr>tables := t\<rparr>) = trust_of s"
  by (simp_all add: trust_of_def)

lemma cleanup_trust [simp]: "trust_of (snd (cleanup_escalations now a s)) = trust_of s"
  by (simp add: cleanup_escalations_def Let_def split: option.splits)

lemma cleanup_when_trust [simp]: "trust_of (cleanup_when now ids status s) = trust_of s"
  by (simp add: cleanup_when_def)

lemma trust_step: "\<not> acts_for_person op s \<Longrightarrow> trust_of (apply_esc w now op s) = trust_of s"
proof (cases op)
  case (Adjudicate a)
  assume "\<not> acts_for_person op s"
  with Adjudicate have "record_adjudication w now a s =
      (let s1 = log_adjudication (aj_id a) (aj_pane a) (aj_agent a) (aj_action a) (Some (aj_feedback a)) (aj_approver a) (aj_note a) now s
       in if aj_id a = 0 then s1 else s1\<lparr>escalations := update_where (\<lambda>e. es_id e = aj_id a) (disposed a) (escalations s1)\<rparr>)"
    by (auto simp: record_adjudication_def Let_def acts_for_person_def split: option.splits)
  with Adjudicate show ?thesis by (simp add: Let_def log_adjudication_def)
qed (auto simp: acts_for_person_def enqueue_pending_escalation_def get_pending_escalations_def mark_escalation_delivered_def
    resolve_escalation_def record_human_opinion_def log_adjudication_def Let_def split: option.splits)


definition adjudicates :: "esc_op \<Rightarrow> 'a guard_state_scheme \<Rightarrow> str \<Rightarrow> bool" where
  "adjudicates op s key \<longleftrightarrow>
     (\<exists>a e. op = Adjudicate a \<and> adjudicated_row a s = Some e \<and> aj_action a = ''APPROVE'' \<and> aj_approver a = ''human-tui''
        \<and> approval_key (normalize_command (raw_of e)) (aj_pane a) = key)"

lemma log_entries_rows [simp]: "rows (fold (\<lambda>r. log_entry w now (f r)) rs s) = rows s"
  by (induction rs arbitrary: s) (simp_all add: log_entry_def)

lemma promote_rows [simp]: "rows (maybe_promote_workspace_rule w now p s) = rows s"
  by (simp add: maybe_promote_workspace_rule_def Let_def split: option.splits prod.splits)

lemma record_approval_rows:
  "map_of (rows (record_approval h pane raw layer reason cwd now ttl s)) k = map_of (rows s) k
     \<or> (\<exists>p f. k = pane_mem_key p f)"
  by (auto simp: record_approval_def Let_def update_conv)

lemma approval_key_not_memory: "approval_key p sc \<noteq> pane_mem_key q f"
  by (simp add: approval_key_def pane_mem_key_def)

lemma remembered_rows:
  "map_of (rows (fold (\<lambda>e. record_pane_approval w now (pane_of e) (raw_of e)) es s)) (approval_key p sc) = map_of (rows s) (approval_key p sc)"
proof (induction es arbitrary: s)
  case (Cons e es)
  from record_approval_rows [of "sha w" "pane_of e" "raw_of e" "''HUMAN_APPROVAL''" "''Approved by human operator''" "[]" now PANE_MEMORY_TTL s "approval_key p sc"]
  have "map_of (rows (record_pane_approval w now (pane_of e) (raw_of e) s)) (approval_key p sc) = map_of (rows s) (approval_key p sc)"
    using approval_key_not_memory by (auto simp: record_pane_approval_def)
  with Cons.IH [of "record_pane_approval w now (pane_of e) (raw_of e) s"] show ?case by simp
qed simp

lemma approvals_step:
  assumes "approved_row (rows (apply_esc w now op s)) (approval_key p sc) t"
  shows "approved_row (rows s) (approval_key p sc) t \<or> adjudicates op s (approval_key p sc)"
proof (cases "acts_for_person op s")
  case False
  from trust_step [OF this, of w now] have "rows (apply_esc w now op s) = rows s" by (simp add: trust_of_def)
  with assms show ?thesis by simp
next
  case True
  then consider a where "op = Resolve a" | a e where "op = Adjudicate a" "adjudicated_row a s = Some e" "grants_trust a e"
    by (auto simp: acts_for_person_def split: esc_op.splits option.splits)
  then show ?thesis
  proof cases
    case 1
    with assms show ?thesis by (simp add: resolve_escalation_def approved_row_def remembered_rows Let_def)
  next
    case 2
    then have "rows (apply_esc w now op s) = rows (record_human_approval_pattern (normalize_command (raw_of e)) (aj_pane a) now (approval_ttl w)
        (log_adjudication (aj_id a) (aj_pane a) (aj_agent a) (aj_action a) (Some (aj_feedback a)) (aj_approver a) (aj_note a) now s))"
      by (simp add: record_adjudication_def Let_def record_human_approval_pattern_def log_adjudication_def split: option.splits)
    with assms 2 show ?thesis
      by (auto simp: record_human_approval_pattern_def log_adjudication_def Let_def approved_row_def update_conv adjudicates_def grants_trust_def
          split: if_splits)
  qed
qed


subsection \<open>One row per request\<close>

definition well_queued :: "'a guard_state_scheme \<Rightarrow> bool" where
  "well_queued s \<longleftrightarrow> distinct (map es_id (escalations s)) \<and> distinct (map (\<lambda>e. (pane_of e, es_hash e)) (escalations s))
     \<and> (\<forall>e \<in> set (escalations s). es_id e \<le> esc_seq s)"

text \<open>A change of rows that keeps their identity.\<close>

definition keeps_identity :: "(escalation \<Rightarrow> escalation) \<Rightarrow> bool" where
  "keeps_identity f \<longleftrightarrow> (\<forall>e. es_id (f e) = es_id e \<and> pane_of (f e) = pane_of e \<and> es_hash (f e) = es_hash e)"

lemma identity_changes [simp, intro]:
  "keeps_identity (closed_by_cleanup status now)" "keeps_identity (resolved a now)" "keeps_identity (disposed b)"
  "keeps_identity (\<lambda>e. e\<lparr>es_status := st, es_delivered := d, es_moved := m\<rparr>)"
  by (simp_all add: keeps_identity_def closed_by_cleanup_def resolved_def disposed_def pane_of_def)

lemma map_update_where: "keeps_identity f \<Longrightarrow>
    map es_id (update_where p f es) = map es_id es \<and> map (\<lambda>e. (pane_of e, es_hash e)) (update_where p f es) = map (\<lambda>e. (pane_of e, es_hash e)) es"
  by (simp add: update_where_def keeps_identity_def)

lemma queued_update: "well_queued s \<Longrightarrow> keeps_identity f \<Longrightarrow> well_queued (s\<lparr>escalations := update_where p f (escalations s)\<rparr>)"
proof -
  assume q: "well_queued s" and k: "keeps_identity f"
  have "\<forall>e \<in> set (update_where p f (escalations s)). es_id e \<le> esc_seq s"
    using q k by (auto simp: well_queued_def update_where_def keeps_identity_def)
  with q map_update_where [OF k, of p "escalations s"] show ?thesis by (simp add: well_queued_def)
qed

lemma queued_filter: "well_queued s \<Longrightarrow> well_queued (s\<lparr>escalations := filter p (escalations s)\<rparr>)"
  by (auto simp: well_queued_def distinct_map inj_on_def)

lemma queued_ext: "escalations s' = escalations s \<Longrightarrow> esc_seq s' = esc_seq s \<Longrightarrow> well_queued s' = well_queued s"
  by (simp add: well_queued_def)

lemma queued_cleanup: "well_queued s \<Longrightarrow> well_queued (snd (cleanup_escalations now a s))"
  by (auto simp: cleanup_escalations_def Let_def queued_update queued_filter split: option.splits)

lemma reopened_identity: "same_slot (rq_pane rq) h e \<Longrightarrow>
    es_id (reopened rq now e) = es_id e \<and> pane_of (reopened rq now e) = pane_of e \<and> es_hash (reopened rq now e) = es_hash e"
  by (simp add: reopened_def same_slot_def pane_of_def)

lemma queued_enqueue: "well_queued s \<Longrightarrow> well_queued (snd (enqueue_pending_escalation w now rq s))"
proof (cases "find (same_slot (rq_pane rq) (command_hash w (rq_raw rq))) (escalations s)")
  case None
  assume q: "well_queued s"
  from None have "(rq_pane rq, command_hash w (rq_raw rq)) \<notin> set (map (\<lambda>e. (pane_of e, es_hash e)) (escalations s))"
    by (auto simp: find_None_iff same_slot_def)
  with q None show ?thesis
    by (auto simp: well_queued_def enqueue_pending_escalation_def Let_def new_escalation_def pane_of_def)
next
  case (Some e)
  assume q: "well_queued s"
  let ?p = "same_slot (rq_pane rq) (command_hash w (rq_raw rq))"
  have m: "map es_id (update_where ?p (reopened rq now) es) = map es_id es"
    "map (\<lambda>e. (pane_of e, es_hash e)) (update_where ?p (reopened rq now) es) = map (\<lambda>e. (pane_of e, es_hash e)) es" for es
    using reopened_identity by (auto simp: update_where_def)
  have b: "\<forall>e \<in> set (update_where ?p (reopened rq now) (escalations s)). es_id e \<le> Suc (esc_seq s)"
    using q reopened_identity by (fastforce simp: update_where_def well_queued_def)
  from q Some m b show ?thesis by (simp add: well_queued_def enqueue_pending_escalation_def Let_def)
qed

lemma pane_memory_queue [simp]:
  "escalations (fold (\<lambda>e. record_pane_approval w now (pane_of e) (raw_of e)) es s) = escalations s"
  "esc_seq (fold (\<lambda>e. record_pane_approval w now (pane_of e) (raw_of e)) es s) = esc_seq s"
  by (induction es arbitrary: s) (simp_all add: record_pane_approval_def record_approval_def Let_def)

lemma log_entries_queue [simp]:
  "escalations (fold (\<lambda>r. log_entry w now (f r)) rs s) = escalations s" "esc_seq (fold (\<lambda>r. log_entry w now (f r)) rs s) = esc_seq s"
  by (induction rs arbitrary: s) (simp_all add: log_entry_def)

lemma promote_queue [simp]:
  "escalations (maybe_promote_workspace_rule w now p s) = escalations s" "esc_seq (maybe_promote_workspace_rule w now p s) = esc_seq s"
  by (simp_all add: maybe_promote_workspace_rule_def Let_def split: option.splits prod.splits)

lemma adjudication_queue:
  "escalations (record_adjudication w now a s) =
     (if aj_id a = 0 then escalations s else update_where (\<lambda>e. es_id e = aj_id a) (disposed a) (escalations s))"
  "esc_seq (record_adjudication w now a s) = esc_seq s"
  by (simp_all add: record_adjudication_def Let_def log_adjudication_def record_human_approval_pattern_def split: option.splits)

lemma queued_step: "well_queued s \<Longrightarrow> well_queued (apply_esc w now op s)"
proof (cases op)
  case (Adjudicate a)
  assume q: "well_queued s"
  have "well_queued (record_adjudication w now a s) =
      well_queued (if aj_id a = 0 then s else s\<lparr>escalations := update_where (\<lambda>e. es_id e = aj_id a) (disposed a) (escalations s)\<rparr>)"
    by (rule queued_ext) (simp_all add: adjudication_queue)
  with q Adjudicate show ?thesis by (simp add: queued_update)
next
  case (Resolve a)
  assume q: "well_queued s"
  have "well_queued (resolve_escalation w now a s) = well_queued (s\<lparr>escalations := update_where (resolved_row a) (resolved a now) (escalations s)\<rparr>)"
    by (rule queued_ext) (simp_all add: resolve_escalation_def Let_def)
  with q Resolve show ?thesis by (simp add: queued_update)
next
  case (Opinion i said)
  assume q: "well_queued s"
  have "well_queued (record_human_opinion now i said s) = well_queued s"
    by (rule queued_ext) (simp_all add: record_human_opinion_def log_adjudication_def split: option.splits)
  with q Opinion show ?thesis by simp
qed (auto simp: queued_enqueue queued_cleanup queued_update mark_escalation_delivered_def get_pending_escalations_def cleanup_when_def
    Let_def split: option.splits)

lemma queued_run: "well_queued s \<Longrightarrow> well_queued (run_esc w ops s)"
  by (induction ops rule: rev_induct) (auto simp: queued_step)

lemma filter_slot:
  "distinct (map (\<lambda>e. (pane_of e, es_hash e)) es) \<Longrightarrow> e \<in> set es \<Longrightarrow> same_slot pane h e \<Longrightarrow> filter (same_slot pane h) es = [e]"
proof (induction es)
  case (Cons x es)
  show ?case
  proof (cases "x = e")
    case True
    with Cons.prems have "\<forall>y \<in> set es. \<not> same_slot pane h y" by (auto simp: same_slot_def image_iff)
    with True Cons.prems(3) show ?thesis by (simp add: filter_empty_conv)
  next
    case False
    with Cons.prems have "e \<in> set es" by simp
    with Cons.prems have "\<not> same_slot pane h x" by (auto simp: same_slot_def image_iff)
    with Cons.IH Cons.prems \<open>e \<in> set es\<close> show ?thesis by simp
  qed
qed simp

text \<open>
  After any history of operations on an empty queue, a request that is queued has exactly one
  row, whose id the operation returns: it is pending, and nothing is left of an earlier
  disposition, so an old approval does not answer for the new request.
\<close>

lemma requeued_request_is_open:
  assumes "escalations s = []" and "enqueue_pending_escalation w now rq (run_esc w ops s) = (i, s')"
  shows "\<exists>e. filter (same_slot (rq_pane rq) (command_hash w (rq_raw rq))) (escalations s') = [e]
    \<and> es_id e = i \<and> es_status e = ''PENDING'' \<and> es_resolution e = None \<and> es_approver e = None \<and> es_delivered e = None
    \<and> filter (\<lambda>e. \<not> same_slot (rq_pane rq) (command_hash w (rq_raw rq)) e) (escalations s')
      = filter (\<lambda>e. \<not> same_slot (rq_pane rq) (command_hash w (rq_raw rq)) e) (escalations (run_esc w ops s))"
proof -
  let ?p = "same_slot (rq_pane rq) (command_hash w (rq_raw rq))" and ?t = "run_esc w ops s"
  have q: "well_queued ?t" by (rule queued_run) (simp add: well_queued_def assms(1))
  show ?thesis
  proof (cases "find ?p (escalations ?t)")
    case None
    then have "filter ?p (escalations ?t) = []" by (auto simp: find_None_iff filter_empty_conv)
    with None assms(2) show ?thesis
      by (auto simp: enqueue_pending_escalation_def Let_def new_escalation_def same_slot_def pane_of_def)
  next
    case (Some e)
    then have e: "e \<in> set (escalations ?t)" "?p e" by (auto simp: find_Some_iff)
    have r: "?p (reopened rq now x) \<longleftrightarrow> ?p x" if "?p x" for x
      using that reopened_identity [OF that, of now] by (simp add: same_slot_def)
    have "filter ?p (update_where ?p (reopened rq now) es) = map (reopened rq now) (filter ?p es)" for es
      by (induction es) (auto simp: update_where_def r)
    moreover have "filter (\<lambda>x. \<not> ?p x) (update_where ?p (reopened rq now) es) = filter (\<lambda>x. \<not> ?p x) es" for es
      by (induction es) (auto simp: update_where_def r)
    ultimately show ?thesis using Some assms(2) filter_slot [of "escalations ?t", OF _ e] q
      by (auto simp: enqueue_pending_escalation_def Let_def well_queued_def reopened_def)
  qed
qed

subsection \<open>The view of the live panes\<close>

definition is_live :: "(str \<times> str option) list \<Rightarrow> escalation \<Rightarrow> bool" where
  "is_live panes e \<longleftrightarrow> \<not> is_dead panes e \<and> \<not> is_ghost panes e"

lemma cleanup_when_rows:
  "escalations (cleanup_when now ids status s) = update_where (\<lambda>e. es_id e \<in> set ids) (closed_by_cleanup status now) (escalations s)"
  by (simp add: cleanup_when_def cleanup_escalations_def cleanup_ids_def Let_def update_where_def)

lemma same_id: "distinct (map es_id es) \<Longrightarrow> a \<in> set es \<Longrightarrow> b \<in> set es \<Longrightarrow> es_id a = es_id b \<Longrightarrow> a = b"
  by (auto simp: distinct_map dest: inj_onD)

lemma closed_not_wanted: "status = ''CANCELLED'' \<or> status = ''SESSION_MISMATCH'' \<Longrightarrow> \<not> is_wanted d (closed_by_cleanup status now e)"
  by (auto simp: is_wanted_def closed_by_cleanup_def)

lemma filter_map_view:
  "(\<And>e. e \<in> set xs \<Longrightarrow> (P e \<Longrightarrow> L e) \<Longrightarrow> f e = e) \<Longrightarrow> (\<And>e. e \<in> set xs \<Longrightarrow> P e \<Longrightarrow> \<not> L e \<Longrightarrow> \<not> P (f e))
     \<Longrightarrow> filter P (map f xs) = filter (\<lambda>e. P e \<and> L e) xs"
proof (induction xs)
  case (Cons x xs)
  then have "filter P (map f xs) = filter (\<lambda>e. P e \<and> L e) xs" by simp
  moreover have "f x = x" if "P x \<Longrightarrow> L x" using Cons.prems(1) [of x] that by simp
  moreover have "\<not> P (f x)" if "P x" "\<not> L x" using Cons.prems(2) [of x] that by simp
  ultimately show ?case by (cases "P x"; cases "L x") simp_all
qed simp

text \<open>
  A view of the queue that is given the live panes hands out exactly the wanted rows whose
  pane lives on in the same session, unchanged, and closes the others: the next view gives the
  same rows and changes nothing more.
\<close>

lemma live_view_is_stable:
  assumes "escalations s = []" and "get_pending_escalations now pane d (Some m) (run_esc w ops s) = (es, s')"
  shows "es = filter (\<lambda>e. is_wanted d e \<and> (pane = [] \<or> pane_of e = pane) \<and> is_live m e) (escalations (run_esc w ops s))
    \<and> es = filter (\<lambda>e. is_wanted d e \<and> (pane = [] \<or> pane_of e = pane)) (escalations s')
    \<and> get_pending_escalations later pane d (Some m) s' = (es, s')"
proof -
  let ?t = "run_esc w ops s" and ?q = "\<lambda>e. is_wanted d e \<and> (pane = [] \<or> pane_of e = pane)"
  have q: "well_queued ?t" by (rule queued_run) (simp add: well_queued_def assms(1))
  then have id: "distinct (map es_id (escalations ?t))" by (simp add: well_queued_def)
  let ?dead = "map es_id (filter (is_dead m) (filter ?q (escalations ?t)))"
    and ?ghost = "map es_id (filter (\<lambda>e. \<not> is_dead m e \<and> is_ghost m e) (filter ?q (escalations ?t)))"
  have es: "es = filter (\<lambda>e. ?q e \<and> is_live m e) (escalations ?t)"
    using assms(2) by (auto simp: get_pending_escalations_def is_live_def Let_def intro: filter_cong)
  have s': "s' = cleanup_when now ?dead ''CANCELLED'' (cleanup_when now ?ghost ''SESSION_MISMATCH'' ?t)"
    using assms(2) by (simp add: get_pending_escalations_def Let_def)
  let ?close = "\<lambda>e. if es_id e \<in> set ?ghost then closed_by_cleanup ''SESSION_MISMATCH'' now e else e"
  let ?final = "\<lambda>e. if es_id (?close e) \<in> set ?dead then closed_by_cleanup ''CANCELLED'' now (?close e) else ?close e"
  have rows: "escalations s' = map ?final (escalations ?t)"
    by (simp add: s' cleanup_when_rows update_where_def comp_def)
  have dead: "es_id e \<in> set ?dead \<longleftrightarrow> ?q e \<and> is_dead m e" if "e \<in> set (escalations ?t)" for e
    using same_id [OF id that] that by auto
  have ghost: "es_id e \<in> set ?ghost \<longleftrightarrow> ?q e \<and> \<not> is_dead m e \<and> is_ghost m e" if "e \<in> set (escalations ?t)" for e
    using same_id [OF id that] that by auto
  have cid: "es_id (?close e) = es_id e" for e by (simp add: closed_by_cleanup_def)
  have live: "?final e = e" if "e \<in> set (escalations ?t)" "?q e \<Longrightarrow> is_live m e" for e
    using that dead [OF that(1)] ghost [OF that(1)] by (auto simp: is_live_def)
  have gone: "\<not> is_wanted d (?final e)" if "e \<in> set (escalations ?t)" "?q e" "\<not> is_live m e" for e
    using that dead [OF that(1)] ghost [OF that(1)] cid [of e] closed_not_wanted by (auto simp: is_live_def)
  have view: "filter ?q (escalations s') = es"
    unfolding rows es by (rule filter_map_view) (use live gone in blast)+
  have none: "filter (is_dead m) es = []" "filter (\<lambda>e. \<not> is_dead m e \<and> is_ghost m e) es = []" "filter (\<lambda>e. \<not> is_dead m e \<and> \<not> is_ghost m e) es = es"
    unfolding es by (auto simp: is_live_def filter_empty_conv intro: filter_cong)
  have "get_pending_escalations later pane d (Some m) s' = (es, s')"
    by (simp only: get_pending_escalations_def Let_def option.case view none list.map cleanup_when_def simp_thms if_True)
  with es view show ?thesis by simp
qed

subsection \<open>Batches\<close>

definition first_keys :: "'k list \<Rightarrow> 'k list" where
  "first_keys ks = rev (remdups (rev ks))"

lemma first_keys_snoc: "first_keys (ks @ [k]) = (if k \<in> set ks then first_keys ks else first_keys ks @ [k])"
  by (simp add: first_keys_def)

definition group_of :: "escalation list \<Rightarrow> str \<times> str \<Rightarrow> esc_group" where
  "group_of es k = (let items = filter (\<lambda>e. group_key e = k) es in
     \<lparr>gr_key = k, gr_count = length items, gr_items = items, gr_sample = raw_of (hd items)\<rparr>)"

lemma add_to_groups:
  "distinct ks \<Longrightarrow> (\<And>k. k \<in> set ks \<Longrightarrow> filter (\<lambda>e. group_key e = k) es \<noteq> []) \<Longrightarrow>
     (group_key e \<notin> set ks \<Longrightarrow> filter (\<lambda>x. group_key x = group_key e) es = []) \<Longrightarrow>
     add_to_group e (map (group_of es) ks) = map (group_of (es @ [e])) (if group_key e \<in> set ks then ks else ks @ [group_key e])"
proof (induction ks)
  case Nil
  then show ?case by (simp add: group_of_def Let_def)
next
  case (Cons k ks)
  show ?case
  proof (cases "k = group_key e")
    case True
    have same: "group_of (es @ [e]) k' = group_of es k'" if "k' \<noteq> group_key e" for k'
      using that by (simp add: group_of_def)
    from Cons.prems(1) True have "group_key e \<notin> set ks" by simp
    then have "map (group_of (es @ [e])) ks = map (group_of es) ks" using same by (intro map_cong [OF refl]) metis
    moreover from Cons.prems(2) [of k] True have "filter (\<lambda>x. group_key x = group_key e) es \<noteq> []" by simp
    ultimately show ?thesis using True by (simp add: group_of_def Let_def hd_append)
  next
    case False
    then have "group_of (es @ [e]) k = group_of es k" "gr_key (group_of es k) \<noteq> group_key e" by (simp_all add: group_of_def Let_def)
    with False Cons show ?thesis by auto
  qed
qed

text \<open>
  Batches lose nothing and mix nothing: there is one group per layer and normalised command, in
  the order of the first request of each, and it holds exactly the requests with that key, in
  the order of the queue, with their number and the first command as the sample.
\<close>

lemma batches_partition_the_queue:
  "group_pending_escalations es = map (group_of es) (first_keys (map group_key es))"
proof (induction es rule: rev_induct)
  case Nil
  then show ?case by (simp add: group_pending_escalations_def first_keys_def)
next
  case (snoc e es)
  let ?ks = "first_keys (map group_key es)"
  have k: "distinct ?ks" "set ?ks = group_key ` set es" by (simp_all add: first_keys_def)
  have "add_to_group e (map (group_of es) ?ks) = map (group_of (es @ [e])) (if group_key e \<in> set ?ks then ?ks else ?ks @ [group_key e])"
    by (rule add_to_groups) (use k in \<open>auto simp: filter_empty_conv image_iff\<close>)
  moreover have "first_keys (map group_key (es @ [e])) = (if group_key e \<in> set ?ks then ?ks else ?ks @ [group_key e])"
    using k(2) by (simp add: first_keys_snoc)
  moreover have "group_pending_escalations (es @ [e]) = add_to_group e (group_pending_escalations es)"
    by (simp add: group_pending_escalations_def)
  ultimately show ?case by (simp only: snoc)
qed

subsection \<open>A batch is promoted as a whole or not at all\<close>

definition policy_text :: "'b policy_store_scheme \<Rightarrow> str \<Rightarrow> str option" where
  "policy_text ps path = map_option pf_text (map_of (policy_files ps) path)"

lemma load_policy_files: "policy_files (snd (load_policy w path s)) = policy_files s"
  by (simp add: load_policy_def split: option.splits prod.splits)

lemma promote_refused: "promote_rule w fr path n rule now s = (False, s') \<Longrightarrow> policy_files s' = policy_files s"
  using load_policy_files [of w path s]
  by (auto simp: promote_rule_def Let_def split: if_splits option.splits bool.splits prod.splits json.splits)

lemma promote_other: "promote_rule w fr path n rule now s = (b, s') \<Longrightarrow> p \<noteq> path \<Longrightarrow> policy_text s' p = policy_text s p"
  using load_policy_files [of w path s]
  by (auto simp: promote_rule_def Let_def policy_text_def write_policy_def update_conv
      split: if_splits option.splits bool.splits prod.splits json.splits)

lemma promote_accepted:
  assumes "promote_rule w fr path n rule now s = (True, s')" and "jget ''pattern'' rule = JStr pat"
  shows "\<not> denylist_blocks w (jget ''action_type'' rule) pat \<and> \<not> is_overbroad_pattern pat \<and> is_dir w (parent_dir path)"
  using assms by (auto simp: promote_rule_def Let_def split: if_splits option.splits prod.splits json.splits)

definition acceptable_rule :: "'w file_world_scheme \<Rightarrow> derived_rule \<Rightarrow> bool" where
  "acceptable_rule w r \<longleftrightarrow> \<not> denylist_blocks w (JStr (dr_action r)) (dr_pattern r) \<and> \<not> is_overbroad_pattern (dr_pattern r)"

lemma staged_fields: "jget ''pattern'' (staged_rule w now p i r) = JStr (dr_pattern r)"
    "jget ''action_type'' (staged_rule w now p i r) = JStr (dr_action r)"
  by (simp_all add: staged_rule_def)

lemma promote_all_other: "promote_all w path now rs s = (b, s') \<Longrightarrow> p \<noteq> path \<Longrightarrow> policy_text s' p = policy_text s p"
proof (induction rs arbitrary: s)
  case (Cons r rs)
  obtain c s1 where p: "promote_rule w (show_rat w) path [] r now s = (c, s1)" by (cases "promote_rule w (show_rat w) path [] r now s")
  with Cons show ?case by (cases c) (auto dest: promote_other)
qed simp

lemma promote_all_no_dir:
  "promote_all w path now rs s = (False, s') \<Longrightarrow> \<not> is_dir w (parent_dir path) \<Longrightarrow> policy_files s' = policy_files s"
  by (cases rs) (auto simp: promote_rule_def)

lemma promote_all_accepted:
  "promote_all w path now (map (\<lambda>(i, r). staged_rule w now p i r) irs) s = (True, s') \<Longrightarrow> list_all (acceptable_rule w) (map snd irs)"
proof (induction irs arbitrary: s)
  case (Cons ir irs)
  obtain i r where ir: "ir = (i, r)" by (cases ir)
  obtain c s1 where c: "promote_rule w (show_rat w) path [] (staged_rule w now p i r) now s = (c, s1)"
    by (cases "promote_rule w (show_rat w) path [] (staged_rule w now p i r) now s")
  with Cons.prems ir have ok: "c" "promote_all w path now (map (\<lambda>(i, r). staged_rule w now p i r) irs) s1 = (True, s')"
    by (cases c; simp)+
  from promote_accepted [of w "show_rat w" path "[]" "staged_rule w now p i r" now s s1] c ok(1)
  have "acceptable_rule w r" by (simp add: staged_fields acceptable_rule_def)
  with Cons.IH [OF ok(2)] ir show ?case by simp
qed simp

lemma rolled_back:
  assumes "promote_all w path now rs s = (False, s')"
  shows "policy_text (roll_back w path now (policy_text s path) s') = policy_text s"
proof
  fix p
  show "policy_text (roll_back w path now (policy_text s path) s') p = policy_text s p"
  proof (cases "is_dir w (parent_dir path)")
    case True
    with promote_all_other [OF assms, of p] show ?thesis
      by (cases "policy_text s path"; cases "p = path")
        (auto simp: roll_back_def restore_policy_def policy_text_def update_conv delete_conv)
  next
    case False
    from promote_all_no_dir [OF assms False] False show ?thesis
      by (cases "policy_text s path"; cases "p = path")
        (auto simp: roll_back_def restore_policy_def policy_text_def delete_conv)
  qed
qed

lemma log_entries_logged [simp]:
  "length (audit_rows (tables (fold (\<lambda>r. log_entry w now (f r)) rs s))) = length (audit_rows (tables s)) + length rs"
  "policies (fold (\<lambda>r. log_entry w now (f r)) rs s) = policies s"
  by (induction rs arbitrary: s) (simp_all add: log_entry_def record_audit_log_def Let_def)

text \<open>
  C32: Promoting the rules of an approved dialog is all or nothing: either every policy file keeps
  its text and nothing is logged, or every rule of the batch passed the denylist, the author
  was an agent or a person, and the log has one row per rule.
\<close>

theorem promotion_is_all_or_nothing:
  "policy_text (policies (maybe_promote_workspace_rule w now p s)) = policy_text (policies s)
     \<and> tables (maybe_promote_workspace_rule w now p s) = tables s
   \<or> list_all (acceptable_rule w) (derive_workspace_rule w (pm_raw p) (pm_layer p)) \<and> pm_origin p \<in> {''A'', ''H''}
     \<and> length (audit_rows (tables (maybe_promote_workspace_rule w now p s)))
       = length (audit_rows (tables s)) + length (derive_workspace_rule w (pm_raw p) (pm_layer p))"
proof (cases "promotion_path w p")
  case None
  then show ?thesis by (simp add: maybe_promote_workspace_rule_def)
next
  case (Some path)
  let ?rules = "derive_workspace_rule w (pm_raw p) (pm_layer p)"
  obtain ok ps where ok: "promote_all w path now (map (\<lambda>(i, r). staged_rule w now p i r) (enumerate 0 ?rules)) (policies s) = (ok, ps)"
    by (cases "promote_all w path now (map (\<lambda>(i, r). staged_rule w now p i r) (enumerate 0 ?rules)) (policies s)")
  show ?thesis
  proof (cases ok)
    case True
    with ok have "list_all (acceptable_rule w) (map snd (enumerate 0 ?rules))" by (intro promote_all_accepted) simp
    moreover have "pm_origin p = ''A'' \<or> pm_origin p = ''H''" using Some by (auto simp: promotion_path_def split: if_splits)
    ultimately show ?thesis using Some ok True by (simp add: maybe_promote_workspace_rule_def)
  next
    case False
    with ok rolled_back [of w path now _ "policies s" ps]
    have "policy_text (roll_back w path now (map_option pf_text (map_of (policy_files (policies s)) path)) ps) = policy_text (policies s)"
      by (simp add: policy_text_def [of "policies s" path])
    with Some ok False show ?thesis by (simp add: maybe_promote_workspace_rule_def)
  qed
qed


subsection \<open>Witnesses\<close>

definition guard_demo :: guard_world where
  "guard_demo = audit_world.extend (judge_world.extend (judge_demo True [])
       \<lparr>complexity_tax_enabled = True, complexity_threshold = 5, origin_weighting_enabled = True\<rparr>)
     \<lparr>gw_tables = table_demo, approval_ttl = 3600, fresh_id = (\<lambda>_. []), iso_time = (\<lambda>_. []), show_rat = (\<lambda>_. [])\<rparr>"

definition guard_state_demo :: guard_state where
  "guard_state_demo = audit_state.extend (judge_state.extend judge_state_demo \<lparr>policies = \<lparr>policy_files = [], policy_memo = []\<rparr>\<rparr>)
     \<lparr>tables = no_tables, escalations = [], esc_seq = 0, adjudications = [], adj_seq = 0\<rparr>"

definition request_demo :: esc_request where
  "request_demo = \<lparr>rq_pane = ''p1'', rq_raw = ''make'', rq_reason = [], rq_layer = ''NOT_ALLOWLISTED'', rq_agent = ''a'', rq_session = None,
     rq_snapshot = None, rq_cwd = None, rq_origin = Some ''A'', rq_capture = None, rq_relation = None, rq_ambiguous = False, rq_raw_evaluated = False\<rparr>"

definition approval_demo :: adjudication_args where
  "approval_demo = \<lparr>aj_id = 1, aj_pane = ''p1'', aj_agent = ''a'', aj_action = ''APPROVE'', aj_feedback = [], aj_origin = ''A'',
     aj_approver = ''human-tui'', aj_note = None\<rparr>"

lemma guard_demo_fields:
  "approval_ttl guard_demo = 3600" "rows guard_state_demo = []" "escalations guard_state_demo = []" "esc_seq guard_state_demo = 0"
  by (simp_all add: guard_demo_def guard_state_demo_def audit_world.extend_def audit_state.extend_def judge_state.extend_def judge_state_demo_def)

lemma enqueued_demo:
  "enqueue_pending_escalation guard_demo now request_demo guard_state_demo
     = (1, guard_state_demo\<lparr>escalations := [new_escalation request_demo (command_hash guard_demo ''make'') now 1], esc_seq := 1\<rparr>)"
  by (simp add: enqueue_pending_escalation_def Let_def guard_demo_fields request_demo_def)

lemma run_two: "run_esc w [(a, x), (b, y)] s = apply_esc w b y (apply_esc w a x s)"
  by (simp add: run_esc_def)


lemma requeued_request_is_open_witness:
  "\<exists>e. filter (same_slot ''p1'' (command_hash guard_demo ''make''))
        (escalations (snd (enqueue_pending_escalation guard_demo 5 request_demo (run_esc guard_demo [(1, Enqueue request_demo)] guard_state_demo)))) = [e]
     \<and> es_status e = ''PENDING''"
  using requeued_request_is_open [of guard_state_demo guard_demo 5 request_demo "[(1, Enqueue request_demo)]", OF guard_demo_fields(3) prod.collapse [symmetric]]
  by (auto simp: request_demo_def)

lemma live_view_is_stable_witness:
  "get_pending_escalations 9 [] False (Some [(''p1'', None)]) (snd (get_pending_escalations 5 [] False (Some [(''p1'', None)])
      (run_esc guard_demo [(1, Enqueue request_demo)] guard_state_demo)))
   = get_pending_escalations 5 [] False (Some [(''p1'', None)]) (run_esc guard_demo [(1, Enqueue request_demo)] guard_state_demo)"
  using live_view_is_stable [of guard_state_demo 5 "[]" False "[(''p1'', None)]" guard_demo "[(1, Enqueue request_demo)]",
    OF guard_demo_fields(3) prod.collapse [symmetric], of 9]
  by simp

text \<open>The purge of terminal rows never reaches those that were closed for another session.\<close>

lemma mismatched_rows_stay: "es_status e = ''SESSION_MISMATCH'' \<Longrightarrow> \<not> is_purged now e"
  by (simp add: is_purged_def)

text \<open>A resolution that names a pane and a hash remembers the command of a row that is closed.\<close>

lemma closed_row_is_remembered:
  "rs_id a = 0 \<Longrightarrow> rs_hash a \<noteq> [] \<Longrightarrow> same_slot (rs_pane a) (rs_hash a) e \<Longrightarrow> \<not> is_open e \<Longrightarrow> remembered_row a e \<and> \<not> resolved_row a e"
  by (simp add: remembered_row_def resolved_row_def)

end
