(* ===== verification/RequestMatch.thy ===== *)
theory RequestMatch
  imports PyAudit WorkspaceAllowlist
begin

text \<open>
  Is the dialog on the screen still the request that was approved?  From
  \<open>scripts/adapters/request_match.py\<close>: the payload of a dialog without its visual margin, the
  normal form of a request, and the directional comparison of the approved request with the
  text read from the screen.  What the file system knows (home directories, the current
  directory, symbolic links) is a record of functions.
\<close>

record match_world =
  expand_user :: "str \<Rightarrow> str"
  current_dir :: str
  real_path :: "str \<Rightarrow> str option"
  min_prefix_len :: int

subsection \<open>Normal forms\<close>

definition unix_newlines :: "str \<Rightarrow> str" where
  "unix_newlines s = str_replace [cr] [nl] (str_replace [cr, nl] [nl] s)"

definition without_margin :: "str \<Rightarrow> str list \<Rightarrow> str list" where
  "without_margin margin ls =
     (case ls of [] \<Rightarrow> []
      | l # rest \<Rightarrow> l # map (\<lambda>x. if starts_with x margin then drop (length margin) x else x) rest)"

definition preserve_executable_payload :: "str \<Rightarrow> str \<Rightarrow> str" where
  "preserve_executable_payload payload margin =
     (let p = unix_newlines payload in
      strip (if margin \<noteq> [] then str_join [nl] (without_margin margin (split_char nl p)) else dedent p))"

text \<open>
  \<open>spacing_go q esc pending started s\<close>: the open quotation, whether the next character is
  escaped, whether a blank is due, whether something was written.
\<close>

fun spacing_go :: "char option \<Rightarrow> bool \<Rightarrow> bool \<Rightarrow> bool \<Rightarrow> str \<Rightarrow> str" where
  "spacing_go q esc pending started [] = []"
| "spacing_go q esc pending started (c # cs) =
     (let due = (if pending then '' '' else []) in
      if esc then c # spacing_go q False pending True cs
      else if c = bslash \<and> q \<noteq> Some squote then c # spacing_go q True pending True cs
      else if c = squote \<or> c = dquote then
        due @ c # spacing_go (if q = None then Some c else if q = Some c then None else q) False False True cs
      else if is_space c then
        (if q \<noteq> None then c # spacing_go q False pending True cs else spacing_go q False started started cs)
      else due @ c # spacing_go q False False True cs)"

definition norm_shell_spacing :: "str \<Rightarrow> str" where
  "norm_shell_spacing s = strip (spacing_go None False False False s)"

definition PROMPT_RE :: regex where
  "PROMPT_RE = re_c ''^%$%s+''"

definition HEREDOC_RE :: regex where
  \<open>HEREDOC_RE = re_c ''<<-?%s*(['"]?)([A-Za-z_][A-Za-z0-9_]*)%1[^%n]*%n''\<close>

definition heredoc_closer :: "str \<Rightarrow> regex" where
  "heredoc_closer delim = re_cm (''^%t*'' @ re_escape delim @ ''[ %t]*$'')"

definition drop_prompt :: "str \<Rightarrow> str" where
  "drop_prompt s = re_sub PROMPT_RE (\<lambda>_. []) (strip (unix_newlines s))"

definition norm_req_cmd :: "str \<Rightarrow> str" where
  "norm_req_cmd cmd =
     (let s = drop_prompt cmd in
      case re_search HEREDOC_RE s of
        None \<Rightarrow> norm_shell_spacing s
      | Some opener \<Rightarrow>
          (case re_search (heredoc_closer (the (m_group opener 2))) (drop (m_end opener) s) of
             None \<Rightarrow> norm_shell_spacing s
           | Some closer \<Rightarrow>
               let body_start = m_end opener; body_end = body_start + m_end closer;
                   suffix = norm_shell_spacing (drop body_end s)
               in norm_shell_spacing (take (body_start - 1) s) @ [nl]
                  @ drop body_start (take body_end s) @ (if suffix \<noteq> [] then '' '' @ suffix else [])))"

subsection \<open>Truncated and wrapped renderings\<close>

definition is_prefix_truncated :: "int \<Rightarrow> str \<Rightarrow> str \<Rightarrow> bool" where
  "is_prefix_truncated least approved screen \<longleftrightarrow>
     \<not> int (length approved) < least
     \<and> length screen < length approved \<and> starts_with approved screen \<and> is_space (approved ! length screen)"

definition WRAP_RE :: regex where
  "WRAP_RE = re_c ''[%r%n][ %t]*''"

definition is_soft_wrap_equivalent :: "str \<Rightarrow> str \<Rightarrow> bool" where
  "is_soft_wrap_equivalent approved_raw screen_raw \<longleftrightarrow>
     nl \<notin> set approved_raw \<and> cr \<notin> set approved_raw \<and> (cr \<in> set screen_raw \<or> nl \<in> set screen_raw)
     \<and> norm_req_cmd approved_raw
         \<in> {norm_req_cmd (re_sub WRAP_RE (\<lambda>_. []) screen_raw), norm_req_cmd (re_sub WRAP_RE (\<lambda>_. '' '') screen_raw)}"

subsection \<open>Directories\<close>

definition has_glob :: "str \<Rightarrow> bool" where
  "has_glob p \<longleftrightarrow> list_ex (\<lambda>c. c \<in> set ''*?['') p"

text \<open>\<open>os.path.normpath\<close>, \<open>abspath\<close> and \<open>dirname\<close> on POSIX; \<open>done\<close> holds the kept parts, last first.\<close>

fun norm_parts :: "bool \<Rightarrow> str list \<Rightarrow> str list \<Rightarrow> str list" where
  "norm_parts rooted kept [] = rev kept"
| "norm_parts rooted kept (p # ps) =
     (if p = [] \<or> p = ''.'' then norm_parts rooted kept ps
      else if p \<noteq> ''..'' \<or> (\<not> rooted \<and> kept = []) \<or> (kept \<noteq> [] \<and> hd kept = ''..'') then norm_parts rooted (p # kept) ps
      else norm_parts rooted (tl kept) ps)"

definition leading_slashes :: "str \<Rightarrow> str" where
  "leading_slashes p =
     (if starts_with p ''//'' \<and> \<not> starts_with p ''///'' then ''//'' else if starts_with p ''/'' then ''/'' else [])"

definition normpath :: "str \<Rightarrow> str" where
  "normpath p =
     (let q = leading_slashes p @ str_join ''/'' (norm_parts (starts_with p ''/'') [] (split_char (CHR ''/'') p))
      in if q = [] then ''.'' else q)"

definition abspath :: "match_world \<Rightarrow> str \<Rightarrow> str" where
  "abspath w p = normpath (if starts_with p ''/'' then p
     else if p = [] \<or> ends_with (current_dir w) ''/'' then current_dir w @ p else current_dir w @ ''/'' @ p)"

definition dirname :: "str \<Rightarrow> str" where
  "dirname p =
     (let head = rev (dropWhile (\<lambda>c. c \<noteq> CHR ''/'') (rev p)) in
      if list_all (\<lambda>c. c = CHR ''/'') head then head else rstrip_chars ''/'' head)"

definition norm_path :: "match_world \<Rightarrow> str \<Rightarrow> str" where
  "norm_path w p =
     (let q = abspath w (expand_user w p) in
      if has_glob q then normpath q
      else (case real_path w q of Some r \<Rightarrow> r | None \<Rightarrow> normpath q))"

definition path_segments :: "str \<Rightarrow> str list" where
  "path_segments p = filter (\<lambda>x. x \<noteq> []) (split_char (CHR ''/'') p)"

definition glob_segments_match :: "str \<Rightarrow> str \<Rightarrow> bool" where
  "glob_segments_match path pattern \<longleftrightarrow>
     length (path_segments path) = length (path_segments pattern)
     \<and> list_all (\<lambda>(seg, pat). fnmatch seg pat) (zip (path_segments path) (path_segments pattern))"

definition ACCESS_DIR_RE :: regex where
  "ACCESS_DIR_RE = re_ci ''^access_directory%s+(.+)$''"

text \<open>The path of a directory request.\<close>

definition access_path :: "str \<Rightarrow> str option" where
  "access_path cmd = Option.bind (re_match ACCESS_DIR_RE cmd) (\<lambda>m. m_group m 1)"

definition is_path_inclusive :: "match_world \<Rightarrow> str \<Rightarrow> str \<Rightarrow> bool" where
  "is_path_inclusive w approved screen =
     (case (access_path approved, access_path screen) of
        (Some a, Some b) \<Rightarrow>
          (let pa = norm_path w a; pb = norm_path w b in
           if pa = pb then True
           else if has_glob pb then glob_segments_match pa pb
           else dirname pa = pb)
      | _ \<Rightarrow> False)"

definition same_request :: "match_world \<Rightarrow> str \<Rightarrow> str \<Rightarrow> bool" where
  "same_request w approved_cmd screen_cmd =
     (let approved = norm_req_cmd approved_cmd; screen = norm_req_cmd screen_cmd in
      if approved = [] \<or> screen = [] then False
      else if approved = screen then True
      else if is_soft_wrap_equivalent approved_cmd screen_cmd then True
      else if is_prefix_truncated (min_prefix_len w) approved screen then True
      else is_path_inclusive w approved screen)"

subsection \<open>What a substitution keeps\<close>

lemma re_sub_filter:
  assumes "\<And>m. m \<in> set (re_finditer p s) \<Longrightarrow> filter Q (f m) = filter Q (m_text m)"
  shows "filter Q (re_sub p f s) = filter Q s"
proof -
  have in_gaps: "snd ` set (gaps k ms) \<subseteq> set ms" for k ms
    by (induction ms arbitrary: k) auto
  have "map (\<lambda>(t, m). filter Q (t @ f m)) (gaps 0 (re_finditer p s))
      = map (\<lambda>(t, m). filter Q (t @ m_text m)) (gaps 0 (re_finditer p s))"
    using assms in_gaps [of 0 "re_finditer p s"] by (auto simp: image_subset_iff)
  then have "filter Q (concat (map (\<lambda>(t, m). t @ f m) (gaps 0 (re_finditer p s))))
      = filter Q (concat (map (\<lambda>(t, m). t @ m_text m) (gaps 0 (re_finditer p s))))"
    by (auto simp: filter_concat comp_def split_def intro!: arg_cong [where f = concat])
  then have "filter Q (re_sub p f s)
      = filter Q (concat (map (\<lambda>(t, m). t @ m_text m) (gaps 0 (re_finditer p s))) @ tail_after (re_finditer p s) s)"
    by (simp add: re_sub_def Let_def)
  also have "concat (map (\<lambda>(t, m). t @ m_text m) (gaps 0 (re_finditer p s))) @ tail_after (re_finditer p s) s = s"
    using finditer_rebuild [of "[]" p False s] by (simp add: re_finditer_def tail_after_def)
  finally show ?thesis .
qed

lemma search_from_lang: "search_from p adv b r = Some m \<Longrightarrow> rx_lang (rg_ic p) (rg_rx p) (m_text m)"
proof (induction p adv b r rule: search_from.induct)
  case (1 p adv b r)
  let ?xs = "if adv then filter (\<lambda>st. fst (snd st) \<noteq> r) (rx_at p b r) else rx_at p b r"
  show ?case
  proof (cases ?xs)
    case Nil
    with "1.prems" obtain c cs where "r = c # cs" "search_from p False (c # b) cs = Some m"
      by (auto simp: search_from.simps [of p adv b r] split: list.splits)
    with "1.IH" [OF Nil] show ?thesis by simp
  next
    case (Cons st rest)
    then have "st \<in> set ?xs" by simp
    then have "st \<in> set (rx_ends (rg_ic p) (rg_ml p) (rg_rx p) (b, r, []))" by (auto simp: rx_at_def split: if_splits)
    from rx_ends_lang [OF this] have "rx_lang (rg_ic p) (rg_rx p) (take (length r - length (fst (snd st))) r)"
      by (auto simp: steps_def)
    moreover from "1.prems" Cons have "m = mk_mtch b r st" by (simp add: search_from.simps [of p adv b r])
    ultimately show ?thesis by (simp add: mk_mtch_def split: prod.splits)
  qed
qed

lemma finditer_from_lang: "m \<in> set (finditer_from p adv b r) \<Longrightarrow> rx_lang (rg_ic p) (rg_rx p) (m_text m)"
proof (induction p adv b r rule: finditer_from.induct)
  case (1 p adv b r)
  then show ?case
    by (cases "search_from p adv b r") (auto simp: finditer_from.simps [of p adv b r] dest: search_from_lang)
qed

subsection \<open>The ink of a text\<close>

text \<open>The characters that show on a screen, blanks left out.\<close>

definition ink :: "str \<Rightarrow> str" where
  "ink s = filter (\<lambda>c. \<not> is_space c) s"

lemma ink_simps [simp]:
  "ink [] = []" "ink (a @ b) = ink a @ ink b" "ink (c # s) = (if is_space c then ink s else c # ink s)"
  by (simp_all add: ink_def)

lemma ink_lstrip [simp]: "ink (lstrip s) = ink s"
  by (induction s) (auto simp: lstrip_def)

lemma ink_rev [simp]: "ink (rev s) = rev (ink s)"
  by (simp add: ink_def rev_filter)

lemma ink_rstrip [simp]: "ink (rstrip s) = ink s"
  using ink_lstrip [of "rev s"] by (simp add: rstrip_def lstrip_def)

lemma ink_strip [simp]: "ink (strip s) = ink s"
  by (simp add: strip_def)

lemma blanks [simp]: "is_space CHR '' ''" "is_space nl" "is_space cr"
  by code_simp+

lemma no_blanks [simp]: "\<not> is_space bslash" "\<not> is_space squote" "\<not> is_space dquote" "\<not> is_space CHR ''$''"
  by code_simp+

lemma ink_spacing [simp]: "ink (spacing_go q esc pending started s) = ink s"
  by (induction q esc pending started s rule: spacing_go.induct) (auto simp: Let_def)

lemma ink_norm_spacing [simp]: "ink (norm_shell_spacing s) = ink s"
  by (simp add: norm_shell_spacing_def)

lemma ink_replace_from:
  "old \<noteq> [] \<Longrightarrow> ink old = [] \<Longrightarrow> ink new = [] \<Longrightarrow> ink (take n s) = [] \<Longrightarrow> ink (replace_from n old new s) = ink s"
proof (induction n old new s rule: replace_from.induct)
  case (3 old new x xs)
  show ?case
  proof (cases "prefix old (x # xs) \<and> old \<noteq> []")
    case True
    then obtain o' t where "old = x # o'" "xs = o' @ t" by (cases old) (auto elim: prefixE)
    with 3 True show ?thesis by (auto split: if_splits)
  next
    case False
    then show ?thesis using 3 by (auto split: if_splits)
  qed
qed (auto split: if_splits)

lemma ink_unix [simp]: "ink (unix_newlines s) = ink s"
  by (simp add: unix_newlines_def str_replace_def ink_replace_from)

lemma ink_blank: "ink s = [] \<longleftrightarrow> list_all is_space s"
  by (auto simp: ink_def list_all_iff filter_empty_conv)

lemma PROMPT_rx: "PROMPT_RE = \<lparr>rg_rx = RSeq RBol (RSeq (RSet False [CLit CHR ''$'']) (RRep (RSet False [CSpace]) 1 None True)),
    rg_ic = False, rg_ml = False\<rparr>"
  by code_simp

lemma WRAP_rx: "WRAP_RE = \<lparr>rg_rx = RSeq (RSet False [CLit cr, CLit nl]) (RRep (RSet False [CLit CHR '' '', CLit CHR 0x09]) 0 None True),
    rg_ic = False, rg_ml = False\<rparr>"
  by code_simp

lemma prompt_at_start: "b \<noteq> [] \<Longrightarrow> search_from PROMPT_RE adv b r = None"
proof (induction r arbitrary: adv b)
  case Nil
  then show ?case by (simp add: search_from.simps rx_at_def PROMPT_rx)
next
  case (Cons c r)
  then have "search_from PROMPT_RE False (c # b) r = None" by simp
  with Cons.prems show ?case by (simp add: search_from.simps [of _ _ _ "c # r"] rx_at_def PROMPT_rx)
qed

lemma ink_drop_prompt: "\<exists>d \<in> {[], ''$''}. ink s = d @ ink (drop_prompt s)"
proof -
  let ?s = "strip (unix_newlines s)"
  show ?thesis
  proof (cases "search_from PROMPT_RE False [] ?s")
    case None
    then show ?thesis
      by (auto simp: drop_prompt_def re_sub_def re_finditer_def finditer_from.simps [of _ False "[]" ?s] tail_after_def
          intro!: bexI [of _ "[]"])
  next
    case (Some m)
    obtain u where u: "m_text m = CHR ''$'' # u" "list_all is_space u"
    proof -
      from search_from_lang [OF Some] obtain u where u: "m_text m = CHR ''$'' # u" "rx_lang False (RRep (RSet False [CSpace]) 1 None True) u"
        by (auto simp: PROMPT_rx set_has_def)
      from rx_lang_class [OF u(2)] have "list_all is_space u" by (simp add: set_has_def list_all_iff)
      with u(1) that show ?thesis by blast
    qed
    then have "finditer_from PROMPT_RE False [] ?s = [m]"
      by (simp add: finditer_from.simps [of _ False "[]" ?s] Some finditer_from.simps [of _ False "_ # _"]
          finditer_from.simps [of _ False "_ @ _"] prompt_at_start)
    then have d: "drop_prompt s = m_pre m @ m_post m"
      by (simp add: drop_prompt_def re_sub_def re_finditer_def tail_after_def)
    have "m_pre m = []"
    proof (cases "rx_at PROMPT_RE [] ?s")
      case Nil
      with Some have False
        by (auto simp: search_from.simps [of _ False "[]" ?s] prompt_at_start split: list.splits)
      then show ?thesis ..
    next
      case (Cons st sts)
      with Some show ?thesis
        by (auto simp: search_from.simps [of _ False "[]" ?s] mk_mtch_def split: prod.splits)
    qed
    with d search_from_parts [OF Some] have "?s = m_text m @ drop_prompt s" by simp
    then have "ink ?s = ink (m_text m) @ ink (drop_prompt s)" by (metis ink_simps(2))
    with u show ?thesis by (simp add: ink_blank [THEN iffD2])
  qed
qed

text \<open>The last part of a sequence of patterns.\<close>

fun last_part :: "rx \<Rightarrow> rx" where
  "last_part (RSeq p q) = last_part q"
| "last_part p = p"

lemma last_part_lang: "rx_lang ic p w \<Longrightarrow> \<exists>u v. w = u @ v \<and> rx_lang ic (last_part p) v"
proof (induction p arbitrary: w rule: last_part.induct)
  case (1 p q)
  then obtain a b where "w = a @ b" "rx_lang ic q b" by auto
  with "1.IH" [of b] show ?case by (metis append.assoc last_part.simps(1))
qed (rule exI [of _ "[]"], rule exI, rule conjI, rule append_Nil [symmetric], simp only: last_part.simps)+

lemma heredoc_newline:
  assumes "re_search HEREDOC_RE s = Some m"
  shows "\<exists>u. m_text m = u @ [nl]"
proof -
  have "last_part (rg_rx HEREDOC_RE) = RSet False [CLit nl]" by code_simp
  moreover from assms have "rx_lang (rg_ic HEREDOC_RE) (rg_rx HEREDOC_RE) (m_text m)" by (simp add: re_search_def search_from_lang)
  moreover have "rg_ic HEREDOC_RE = False" by code_simp
  ultimately show ?thesis using last_part_lang by (fastforce simp: set_has_def)
qed

lemma ink_norm_req: "ink (norm_req_cmd cmd) = ink (drop_prompt cmd)"
proof -
  let ?s = "drop_prompt cmd"
  show ?thesis
  proof (cases "re_search HEREDOC_RE ?s")
    case None
    then show ?thesis by (simp add: norm_req_cmd_def Let_def)
  next
    case (Some m)
    show ?thesis
    proof (cases "re_search (heredoc_closer (the (m_group m 2))) (drop (m_end m) ?s)")
      case None
      with Some show ?thesis by (simp add: norm_req_cmd_def Let_def)
    next
      case (Some c)
      from heredoc_newline [OF \<open>re_search HEREDOC_RE ?s = Some m\<close>] obtain u where u: "m_text m = u @ [nl]" by blast
      have s: "?s = m_pre m @ u @ nl # m_post m" using re_search_parts [OF \<open>re_search HEREDOC_RE ?s = Some m\<close>] u by simp
      have e: "m_end m = Suc (length (m_pre m @ u))" by (simp add: m_end_def u)
      let ?k = "m_end m + m_end c"
      have a: "take (m_end m - 1) ?s = m_pre m @ u" and b: "drop (m_end m) ?s = m_post m"
        by (simp_all add: s e)
      have split: "m_post m = drop (m_end m) (take ?k ?s) @ drop ?k ?s"
        using append_take_drop_id [of "m_end c" "drop (m_end m) ?s"] by (simp add: b [symmetric] drop_take add.commute)
      have "ink (norm_req_cmd cmd) = ink (m_pre m @ u) @ ink (drop (m_end m) (take ?k ?s)) @ ink (drop ?k ?s)"
      proof (cases "norm_shell_spacing (drop ?k ?s) = []")
        case True
        then have "ink (drop ?k ?s) = []" using ink_norm_spacing [of "drop ?k ?s"] by simp
        with True \<open>re_search HEREDOC_RE ?s = Some m\<close> Some a show ?thesis by (simp add: norm_req_cmd_def Let_def)
      next
        case False
        with \<open>re_search HEREDOC_RE ?s = Some m\<close> Some a show ?thesis by (simp add: norm_req_cmd_def Let_def)
      qed
      also have "\<dots> = ink ?s" using split by (metis (no_types, lifting) append.assoc blanks(2) ink_simps(2,3) s)
      finally show ?thesis .
    qed
  qed
qed

subsection \<open>Directories above directories\<close>

lemma split_char_append [simp]: "split_char c (a @ c # b) = split_char c a @ split_char c b"
  by (induction a) (auto split: list.splits)

lemma path_segments_append [simp]: "path_segments (a @ CHR ''/'' # b) = path_segments a @ path_segments b"
  by (simp add: path_segments_def)

lemma path_segments_Nil [simp]: "path_segments [] = []"
  by (simp add: path_segments_def)

lemma path_segments_plain: "CHR ''/'' \<notin> set t \<Longrightarrow> path_segments t = (if t = [] then [] else [t])"
proof -
  have "CHR ''/'' \<notin> set t \<Longrightarrow> split_char (CHR ''/'') t = [t]" by (induction t) auto
  then show "CHR ''/'' \<notin> set t \<Longrightarrow> path_segments t = (if t = [] then [] else [t])" by (simp add: path_segments_def)
qed

lemma path_segments_rstrip [simp]: "path_segments (rstrip_chars ''/'' p) = path_segments p"
proof (induction p rule: rev_induct)
  case (snoc c p)
  then show ?case using path_segments_append [of p "[]"] by (cases "c = CHR ''/''") (simp_all add: rstrip_chars_def)
qed (simp add: rstrip_chars_def)

lemma dirname_parts: "path_segments (dirname p) = path_segments p \<or> path_segments (dirname p) = butlast (path_segments p)"
proof -
  let ?t = "rev (takeWhile (\<lambda>c. c \<noteq> CHR ''/'') (rev p))" and ?h = "rev (dropWhile (\<lambda>c. c \<noteq> CHR ''/'') (rev p))"
  have p: "p = ?h @ ?t" using takeWhile_dropWhile_id [of "\<lambda>c. c \<noteq> CHR ''/''" "rev p"] by (metis rev_append rev_rev_ident)
  have t: "CHR ''/'' \<notin> set ?t" by (auto dest: set_takeWhileD)
  have d: "path_segments (dirname p) = path_segments ?h" by (simp add: dirname_def Let_def)
  show ?thesis
  proof (cases "dropWhile (\<lambda>c. c \<noteq> CHR ''/'') (rev p)")
    case Nil
    then have "p = ?t" using p by (simp only: Nil rev.simps append_Nil)
    with t have "CHR ''/'' \<notin> set p" by simp
    with d Nil show ?thesis by (simp add: path_segments_plain)
  next
    case (Cons c h)
    then have "c = CHR ''/''" using hd_dropWhile [of "\<lambda>c. c \<noteq> CHR ''/''" "rev p"] by auto
    with Cons have h: "?h = rev h @ ''/''" by simp
    have "path_segments p = path_segments (rev h) @ path_segments ?t" by (subst p) (simp add: h)
    moreover have "path_segments ?h = path_segments (rev h)" by (simp add: h)
    ultimately show ?thesis using d path_segments_plain [OF t] by (auto split: if_splits)
  qed
qed

text \<open>A directory that may stand for another one: the same, its parent, or a pattern that matches it.\<close>

definition same_scope :: "str list \<Rightarrow> str list \<Rightarrow> bool" where
  "same_scope approved screen \<longleftrightarrow>
     screen = approved \<or> screen = butlast approved
     \<or> length screen = length approved \<and> list_all (\<lambda>(seg, pat). fnmatch seg pat) (zip approved screen)"

lemma inclusive_scope:
  assumes "is_path_inclusive w a s"
  obtains p q where "access_path a = Some p" and "access_path s = Some q"
    and "same_scope (path_segments (norm_path w p)) (path_segments (norm_path w q))"
  using assms dirname_parts
  by (auto simp: is_path_inclusive_def same_scope_def Let_def glob_segments_match_def split: option.splits if_splits) metis+

lemma ink_norm: "\<exists>d \<in> {[], ''$''}. ink s = d @ ink (norm_req_cmd s)"
  using ink_drop_prompt [of s] by (simp add: ink_norm_req)

lemma ink_wrap:
  assumes "list_all is_space t"
  shows "ink (re_sub WRAP_RE (\<lambda>_. t) s) = ink s"
  unfolding ink_def
proof (rule re_sub_filter)
  fix m assume "m \<in> set (re_finditer WRAP_RE s)"
  then have "rx_lang False (rg_rx WRAP_RE) (m_text m)"
    using finditer_from_lang [of m WRAP_RE False "[]" s] by (simp add: re_finditer_def WRAP_rx)
  then have "list_all is_space (m_text m)"
    by (rule rx_over_lang [rotated]) (auto simp: WRAP_rx set_has_def is_space_def)
  with assms show "filter (\<lambda>c. \<not> is_space c) t = filter (\<lambda>c. \<not> is_space c) (m_text m)"
    by (simp add: ink_blank [unfolded ink_def, THEN iffD2])
qed

text \<open>
  C25: A screen that passes for the approved request shows nothing that was not approved: up to
  the prompt sign and blanks its characters are the first characters of the approved request.
  The only exception is a request for a directory, whose screen may name the same directory,
  its parent, or a pattern of the same depth that matches it.
\<close>

theorem screen_adds_nothing:
  assumes "same_request w approved screen"
  shows "(\<exists>d \<in> {[], ''$''}. \<exists>e \<in> {[], ''$''}. \<exists>x y. ink screen = d @ x \<and> ink approved = e @ x @ y)
    \<or> (\<exists>p q. access_path (norm_req_cmd approved) = Some p \<and> access_path (norm_req_cmd screen) = Some q
          \<and> same_scope (path_segments (norm_path w p)) (path_segments (norm_path w q)))"
proof -
  let ?a = "norm_req_cmd approved" and ?s = "norm_req_cmd screen"
  from assms consider "?a = ?s" | "is_soft_wrap_equivalent approved screen"
    | "is_prefix_truncated (min_prefix_len w) ?a ?s" | "is_path_inclusive w ?a ?s"
    by (auto simp: same_request_def Let_def split: if_splits)
  then show ?thesis
  proof cases
    case 1
    with ink_norm [of approved] ink_norm [of screen] show ?thesis by (metis append_Nil2)
  next
    case 2
    then have "\<exists>t. list_all is_space t \<and> ?a = norm_req_cmd (re_sub WRAP_RE (\<lambda>_. t) screen)"
      by (auto simp: is_soft_wrap_equivalent_def intro: exI [of _ "[]"] exI [of _ "'' ''"])
    then obtain t where "list_all is_space t" and "?a = norm_req_cmd (re_sub WRAP_RE (\<lambda>_. t) screen)" by blast
    with ink_norm [of approved] ink_norm [of "re_sub WRAP_RE (\<lambda>_. t) screen"] show ?thesis
      by (metis append_Nil2 ink_wrap)
  next
    case 3
    then obtain y where "?a = ?s @ y" by (auto simp: is_prefix_truncated_def starts_with_def prefix_def)
    with ink_norm [of approved] ink_norm [of screen] show ?thesis by (metis ink_simps(2))
  next
    case 4
    then show ?thesis by (meson inclusive_scope)
  qed
qed

subsection \<open>Concrete requests\<close>

definition match_demo :: match_world where
  "match_demo = \<lparr>expand_user = id, current_dir = ''/work'', real_path = Some, min_prefix_len = 16\<rparr>"

theorem screen_adds_nothing_witness:
  "(\<exists>d \<in> {[], ''$''}. \<exists>e \<in> {[], ''$''}. \<exists>x y. ink ''$  pytest   -q'' = d @ x \<and> ink ''pytest -q tests/unit'' = e @ x @ y)
    \<or> (\<exists>p q. access_path (norm_req_cmd ''pytest -q tests/unit'') = Some p \<and> access_path (norm_req_cmd ''$  pytest   -q'') = Some q
          \<and> same_scope (path_segments (norm_path match_demo p)) (path_segments (norm_path match_demo q)))"
proof (rule screen_adds_nothing)
  show "same_request match_demo ''pytest -q tests/unit'' ''$  pytest   -q''" by code_simp
qed

text \<open>
  The comparison takes separators of commands for layout: outside quotations a newline is a
  blank, so a screen with two commands passes for one approved command, and a blank before a
  backslash moves behind the escaped character or vanishes, so a screen that names a directory
  and a file passes for one that names a file in the directory.
\<close>

lemma screen_may_split_words:
  "same_request w ''echo done rm -rf build'' (''echo done'' @ [nl] @ ''rm -rf build'')
   \<and> same_request w (''rm -r build/'' @ [bslash] @ ''* x'') (''rm -r build/ '' @ [bslash] @ ''* x'')"
proof
  have eq: "norm_req_cmd a \<noteq> [] \<and> norm_req_cmd b = norm_req_cmd a \<Longrightarrow> same_request w a b" for a b
    by (simp add: same_request_def Let_def)
  show "same_request w ''echo done rm -rf build'' (''echo done'' @ [nl] @ ''rm -rf build'')"
    by (rule eq) code_simp
  show "same_request w (''rm -r build/'' @ [bslash] @ ''* x'') (''rm -r build/ '' @ [bslash] @ ''* x'')"
    by (rule eq) code_simp
qed

text \<open>A pattern of the same depth may name more than the approved directory.\<close>

lemma pattern_widens_directory:
  "same_request match_demo ''access_directory /tmp'' ''access_directory /*''"
  by code_simp

end
