(* ===== verification/CaptureEvaluator.thy ===== *)
theory CaptureEvaluator
  imports RequestMatch Escalations AuditSpec
begin

text \<open>
  The verdict on a dialog.  \<open>scripts/adapters/capture_evaluator.py\<close> audits both representations
  of a request, the rendered one and the canonical one; the watcher
  (\<open>scripts/cmd/schengen_watcher.py\<close>, \<open>evaluate\<close> in \<open>main\<close>) adds the dialog that could not be
  expanded and the allowlists of the user.
\<close>

subsection \<open>Both representations\<close>

record provenance =
  pv_source :: str
  pv_relation :: str
  pv_raw_evaluated :: bool

type_synonym judged_answer = "answer \<times> taxonomy"
type_synonym captured = "judged_answer \<times> provenance"

definition CONCRETE_DANGER_LAYERS :: "decision_layer list" where
  "CONCRETE_DANGER_LAYERS =
     [MANAGED_GIT_GUARD, SAST_SHELLCHECK, SAST_SEMGREP, SHELL_CRITICAL, SANDBOX_GUARD, PYTHON_AST, SECRET_GUARD,
      LLM_INSPECTOR, GRAY_ZONE_MATRIX, PACKAGE_GUARD]"

definition with_provenance :: "judged_answer \<Rightarrow> str \<Rightarrow> str \<Rightarrow> bool \<Rightarrow> captured" where
  "with_provenance v source relation evaluated =
     (v, \<lparr>pv_source = source, pv_relation = relation, pv_raw_evaluated = evaluated\<rparr>)"

definition ambiguous :: "str option \<Rightarrow> origin \<Rightarrow> str \<Rightarrow> str \<Rightarrow> judged_answer" where
  "ambiguous shadow org cmd reason =
     ((False, reason, NORMALIZATION_AMBIGUOUS), derive_taxonomy shadow cmd NORMALIZATION_AMBIGUOUS False reason org)"

definition concrete_block :: "str \<times> judged_answer \<Rightarrow> judged_answer option" where
  "concrete_block lv =
     (case lv of (label, (ok, reason, layer), tx) \<Rightarrow>
        if \<not> ok \<and> layer \<in> set CONCRETE_DANGER_LAYERS
        then Some ((False, label @ '' representation blocked: '' @ reason, layer), tx) else None)"

definition known :: "str option \<Rightarrow> str" where
  "known c = (case c of Some x \<Rightarrow> x | None \<Rightarrow> [])"

text \<open>The audit is an argument, as in the source; it threads the stores.\<close>

definition evaluate_capture_pair ::
    "str option \<Rightarrow> match_world \<Rightarrow> (str \<Rightarrow> 's \<Rightarrow> judged_answer \<times> 's) \<Rightarrow> origin \<Rightarrow> str option \<Rightarrow> str option \<Rightarrow> str \<Rightarrow> 's \<Rightarrow> captured \<times> 's" where
  "evaluate_capture_pair shadow mw audit org raw canonical source s =
     (let r = known raw; c = known canonical in
      if r = [] \<or> c = [] then
        (with_provenance (ambiguous shadow org (if c \<noteq> [] then c else r)
           ''Normalization ambiguous: rendered or canonical request is unavailable'') source ''unavailable'' False, s)
      else (let (rv, s1) = audit r s; (cv, s2) = (if r = c then (rv, s1) else audit c s1);
                relation = (if same_request mw c r then ''same'' else ''different'')
            in (case first_some concrete_block [(''rendered'', rv), (''canonical'', cv)] of
                  Some v \<Rightarrow> with_provenance v source relation True
                | None \<Rightarrow>
                    if relation \<noteq> ''same'' \<or> source \<in> {''visible-mismatch'', ''visible-unparsed''}
                    then with_provenance (ambiguous shadow org c
                           ''Normalization ambiguous: rendered and canonical requests do not have the same identity'') source relation True
                    else with_provenance cv source relation True, s2)))"

subsection \<open>The evaluation of the watcher\<close>

text \<open>
  A dialog that could not be expanded gets a result of three fields, every other one of four.
  A value \<open>None\<close> of \<open>watcher_evaluate\<close> is an exception of the allowlists.
\<close>

datatype evaluation = Triple answer | Quad judged_answer "provenance option"

definition TRUNCATED_DIALOG_REASON :: str where
  "TRUNCATED_DIALOG_REASON = ''Truncated dialog could not be expanded; requires human review''"

definition truncated_evaluate_result :: evaluation where
  "truncated_evaluate_result = Triple (False, TRUNCATED_DIALOG_REASON, NOT_ALLOWLISTED)"

text \<open>The reason of the first list that lets the command through.\<close>

definition allowlisted :: "'w guard_world_scheme \<Rightarrow> str \<Rightarrow> guard_tables \<Rightarrow> str option option" where
  "allowlisted w cmd t =
     (case check_persisted_allowlist cmd t of
        Some None \<Rightarrow> check_url_allowlist (gw_tables w) cmd t
      | v \<Rightarrow> v)"

definition watcher_evaluate ::
    "'w guard_world_scheme \<Rightarrow> match_world \<Rightarrow> audit_args \<Rightarrow> bool \<Rightarrow> str option \<Rightarrow> str \<Rightarrow> str \<Rightarrow> 'a guard_state_scheme
     \<Rightarrow> (evaluation \<times> 'a guard_state_scheme) option" where
  "watcher_evaluate w mw a truncated raw req source s =
     (if truncated then Some (truncated_evaluate_result, s)
      else (case evaluate_capture_pair (shadow_env w) mw (audit_shell_command_with_taxonomy w a) (aa_origin a) raw (Some req) source s of
        ((((ok, reason, layer), tx), pv), t) \<Rightarrow>
          if \<not> ok \<and> layer = NOT_ALLOWLISTED then
            (case allowlisted w req (tables t) of
               None \<Rightarrow> None
             | Some None \<Rightarrow> Some (Quad ((ok, reason, layer), tx) (Some pv), t)
             | Some (Some why) \<Rightarrow>
                 Some (Quad ((True, why, ALLOWLIST), derive_taxonomy (shadow_env w) req ALLOWLIST True why HUMAN) None, t))
          else Some (Quad ((ok, reason, layer), tx) (Some pv), t)))"

subsection \<open>Where an approval comes from\<close>

text \<open>The verdict on a pair is that of the canonical text, unless something objected.\<close>

definition passes_pair :: "match_world \<Rightarrow> (str \<Rightarrow> 's \<Rightarrow> judged_answer \<times> 's) \<Rightarrow> str option \<Rightarrow> str \<Rightarrow> str \<Rightarrow> 's \<Rightarrow> judged_answer \<Rightarrow> 's \<Rightarrow> bool" where
  "passes_pair mw audit raw c source s v t \<longleftrightarrow>
     (\<exists>r s1. raw = Some r \<and> r \<noteq> [] \<and> c \<noteq> [] \<and> same_request mw c r \<and> source \<noteq> ''visible-mismatch'' \<and> source \<noteq> ''visible-unparsed''
        \<and> concrete_block (''rendered'', fst (audit r s)) = None \<and> concrete_block (''canonical'', v) = None
        \<and> s1 \<in> {s, snd (audit r s)} \<and> audit c s1 = (v, t))"

lemma passes_pairD:
  assumes "passes_pair mw audit raw c source s v t"
  shows "\<exists>r. raw = Some r \<and> same_request mw c r" and "source \<noteq> ''visible-mismatch''" and "source \<noteq> ''visible-unparsed''"
  using assms unfolding passes_pair_def by blast+

lemma pair_cases:
  assumes "evaluate_capture_pair shadow mw audit org raw (Some c) source s = ((v, pv), t)"
  shows "passes_pair mw audit raw c source s v t
    \<or> \<not> fst (fst v) \<and> snd (snd (fst v)) \<noteq> NOT_ALLOWLISTED"
proof (cases "known raw = [] \<or> c = []")
  case True
  with assms show ?thesis by (auto simp: evaluate_capture_pair_def Let_def known_def with_provenance_def ambiguous_def)
next
  case False
  then obtain r where r: "raw = Some r" "r \<noteq> []" "c \<noteq> []" by (cases raw) (auto simp: known_def)
  obtain rv s1 where a1: "audit r s = (rv, s1)" by (metis prod.collapse)
  obtain cv s2 where a2: "(if r = c then (rv, s1) else audit c s1) = (cv, s2)" by (metis prod.collapse)
  let ?rel = "if same_request mw c r then ''same'' else ''different''"
  have e: "((v, pv), t) = (case first_some concrete_block [(''rendered'', rv), (''canonical'', cv)] of
        Some v \<Rightarrow> with_provenance v source ?rel True
      | None \<Rightarrow> if ?rel \<noteq> ''same'' \<or> source \<in> {''visible-mismatch'', ''visible-unparsed''}
          then with_provenance (ambiguous shadow org c
                 ''Normalization ambiguous: rendered and canonical requests do not have the same identity'') source ?rel True
          else with_provenance cv source ?rel True, s2)"
    using assms r by (simp add: evaluate_capture_pair_def Let_def known_def a1 a2)
  show ?thesis
  proof (cases "first_some concrete_block [(''rendered'', rv), (''canonical'', cv)]")
    case (Some b)
    then obtain lv where "concrete_block lv = Some b" using first_some_SomeD by metis
    then have "\<not> fst (fst b) \<and> snd (snd (fst b)) \<noteq> NOT_ALLOWLISTED"
      by (auto simp: concrete_block_def CONCRETE_DANGER_LAYERS_def split: prod.splits if_splits)
    with e Some show ?thesis by (simp add: with_provenance_def)
  next
    case None
    then have n: "concrete_block (''rendered'', rv) = None" "concrete_block (''canonical'', cv) = None"
      unfolding first_some_None by simp_all
    show ?thesis
    proof (cases "same_request mw c r \<and> source \<noteq> ''visible-mismatch'' \<and> source \<noteq> ''visible-unparsed''")
      case True
      with e None have v: "v = cv" "t = s2" by (auto simp: with_provenance_def)
      have "\<exists>s0 \<in> {s, s1}. audit c s0 = (cv, s2)" using a1 a2 by (cases "r = c") auto
      with True n r v a1 show ?thesis unfolding passes_pair_def by auto
    next
      case False
      with e None have "v = ambiguous shadow org c ''Normalization ambiguous: rendered and canonical requests do not have the same identity''"
        by (auto simp: with_provenance_def split: if_splits)
      then show ?thesis by (simp add: ambiguous_def)
    qed
  qed
qed

text \<open>The stores in which an approval may be granted.\<close>

definition clean_world :: "'w guard_world_scheme \<Rightarrow> 'a guard_state_scheme \<Rightarrow> bool" where
  "clean_world w s \<longleftrightarrow> only_refusals s \<and> colon_free (sha w) \<and> \<not> is_shadow_mode (shadow_env w)"

lemma with_taxonomy_plain:
  assumes "\<not> is_shadow_mode (shadow_env w)" and "audit_shell_command_with_taxonomy w a cmd s = ((v, tx), t)"
  shows "audit_shell_command w a cmd s = (v, t)"
  using assms by (auto simp: audit_shell_command_with_taxonomy_def Let_def split: prod.splits)

lemma pair_audited:
  assumes "passes_pair mw (audit_shell_command_with_taxonomy w a) raw c source s (v, tx) t" and "clean_world w s"
  obtains r s0 where "raw = Some r" and "same_request mw c r" and "only_refusals s0" and "audit_shell_command w a c s0 = (v, t)"
    and "s0 \<in> {s, snd (audit_shell_command w a r s)}"
proof -
  from assms(1) obtain r s1 where r: "raw = Some r" "same_request mw c r"
      "s1 \<in> {s, snd (audit_shell_command_with_taxonomy w a r s)}" "audit_shell_command_with_taxonomy w a c s1 = ((v, tx), t)"
    by (auto simp: passes_pair_def)
  obtain v1 u where u: "audit_shell_command w a r s = (v1, u)" by (metis prod.collapse)
  then have e: "snd (audit_shell_command_with_taxonomy w a r s) = u"
    by (auto simp: audit_shell_command_with_taxonomy_def Let_def split: prod.splits)
  with r(3) audit_refusals [OF u] assms(2) have "only_refusals s1" by (auto simp: clean_world_def)
  with that r e u with_taxonomy_plain [OF _ r(4)] assms(2) show ?thesis by (simp add: clean_world_def)
qed

lemma approval_has_ground:
  fixes s t :: "'a guard_state_scheme"
  assumes "watcher_evaluate w mw a truncated raw req source s = Some (Quad ((True, reason, layer), tx) pv, t)"
    and "clean_world w s"
  shows "\<not> truncated \<and> source \<noteq> ''visible-mismatch'' \<and> source \<noteq> ''visible-unparsed''
    \<and> (\<exists>r. raw = Some r \<and> same_request mw req r)
    \<and> (layer = ALLOWLIST \<and> allowlisted w req (tables t) = Some (Some reason)
       \<or> (\<exists>s0 \<in> {s, snd (audit_shell_command w a (known raw) s)}. only_refusals s0 \<and>
            (if strip req = [] \<or> \<not> re_found DYNAMIC_SUBSTITUTION_PATTERN req then licensed w a (strip req) s0 layer
             else \<exists>res. resolve_dynamic_substitutions_locally w req MAX_HOPS = Inr res
               \<and> (if re_found DYNAMIC_SUBSTITUTION_PATTERN res then layer = LLM_INSPECTOR else \<exists>l. licensed w a (strip res) s0 l))))"
proof -
  obtain ok rs ly tx0 pv0 u where p: "evaluate_capture_pair (shadow_env w) mw (audit_shell_command_with_taxonomy w a) (aa_origin a)
      raw (Some req) source s = ((((ok, rs, ly), tx0), pv0), u)" by (metis prod.collapse)
  from assms(1) have tr: "\<not> truncated" by (auto simp: watcher_evaluate_def truncated_evaluate_result_def)
  with assms(1) p consider (audit) "ok" "rs = reason" "ly = layer" "u = t"
    | (list) "\<not> ok" "ly = NOT_ALLOWLISTED" "layer = ALLOWLIST" "allowlisted w req (tables t) = Some (Some reason)"
    by (auto simp: watcher_evaluate_def split: if_splits option.splits)
  then show ?thesis
  proof cases
    case audit
    with pair_cases [OF p] have pp: "passes_pair mw (audit_shell_command_with_taxonomy w a) raw req source s ((True, reason, layer), tx0) t" by simp
    from pair_audited [OF this assms(2)] obtain r s0 where r: "raw = Some r" "same_request mw req r" "only_refusals s0"
        "audit_shell_command w a req s0 = ((True, reason, layer), t)" "s0 \<in> {s, snd (audit_shell_command w a r s)}" by metis
    have "colon_free (sha w)" using assms(2) by (simp add: clean_world_def)
    note g = approval_grounds [OF r(4,3) this]
    show ?thesis
      using r(5) by (intro conjI disjI2 bexI [of _ s0] tr passes_pairD [OF pp] r(3) g [THEN conjunct2, THEN conjunct2]) (simp add: r(1) known_def)
  next
    case list
    with pair_cases [OF p] have "passes_pair mw (audit_shell_command_with_taxonomy w a) raw req source s ((ok, rs, ly), tx0) u" by auto
    from list tr passes_pairD [OF this] show ?thesis by simp
  qed
qed


lemma clean_demo: "clean_world guard_demo guard_state_demo"
proof -
  have "\<not> is_shadow_mode None" by code_simp
  then show ?thesis
    by (simp add: clean_world_def only_refusals_def colon_free_def shadow_env_def guard_demo_def guard_state_demo_def
        audit_world.extend_def audit_state.extend_def judge_state.extend_def judge_state_demo_def audit_demo_def judge_world.extend_def
        judge_demo_def py_world.extend_def)
qed

lemma survey_text: "strip ''feedback_survey_skip'' = ''feedback_survey_skip''"
  "re_found DYNAMIC_SUBSTITUTION_PATTERN ''feedback_survey_skip'' = False"
  "same_request match_demo ''feedback_survey_skip'' ''feedback_survey_skip''"
  by code_simp+

lemma survey_evaluated:
  assumes "aa_origin a = HUMAN \<or> aa_origin a = AGENT"
  shows "\<exists>reason tx pv. watcher_evaluate guard_demo match_demo a False (Some ''feedback_survey_skip'') ''feedback_survey_skip''
      ''visible-fallback'' guard_state_demo = Some (Quad ((True, reason, FAST_TRACK_AST), tx) pv, guard_state_demo)"
proof -
  let ?c = "''feedback_survey_skip''"
  obtain reason where a: "audit_shell_command guard_demo a ?c guard_state_demo = ((True, reason, FAST_TRACK_AST), guard_state_demo)"
    using assms by (elim disjE) (simp_all add: audit_shell_command_def audit_static_shell_command_def survey_text)
  from clean_demo have t: "audit_shell_command_with_taxonomy guard_demo a ?c guard_state_demo
      = (((True, reason, FAST_TRACK_AST), derive_taxonomy (shadow_env guard_demo) ?c FAST_TRACK_AST True reason (aa_origin a)), guard_state_demo)"
    by (simp add: audit_shell_command_with_taxonomy_def a)
  show ?thesis
    by (simp add: watcher_evaluate_def evaluate_capture_pair_def known_def t survey_text concrete_block_def with_provenance_def)
qed


text \<open>
  What the audit says about the rendered text counts only in the layers of the list: whatever
  other objection it has (an obligation to ask, the complexity tax, a refusal of the judge), the
  pair is approved when the canonical text is, although the rendered text is what runs.
\<close>

lemma rendered_objection_may_be_lost:
  assumes "r \<noteq> []" and "c \<noteq> []" and "r \<noteq> c" and "same_request mw c r"
    and "audit r s = (((False, why, layer), tx), s1)" and "layer \<notin> set CONCRETE_DANGER_LAYERS"
    and "audit c s1 = (((True, reason, l), tc), t)"
  shows "fst (evaluate_capture_pair shadow mw audit org (Some r) (Some c) ''recent-unwrapped'' s)
    = (((True, reason, l), tc), \<lparr>pv_source = ''recent-unwrapped'', pv_relation = ''same'', pv_raw_evaluated = True\<rparr>)"
  using assms
  by (simp add: evaluate_capture_pair_def known_def Let_def concrete_block_def with_provenance_def)

text \<open>An audit that approves \<open>echo\<close> with plain arguments and asks for everything else.\<close>

definition echo_audit :: "str \<Rightarrow> nat \<Rightarrow> judged_answer \<times> nat" where
  "echo_audit cmd s =
     (let ok = starts_with cmd ''echo '' \<and> nl \<notin> set cmd; layer = (if ok then FAST_TRACK_AST else NOT_ALLOWLISTED)
      in (((ok, cmd, layer), derive_taxonomy None cmd layer ok cmd AGENT), Suc s))"

lemma rendered_objection_may_be_lost_witness:
  "fst (fst (fst (fst (evaluate_capture_pair None match_demo echo_audit AGENT (Some (''echo done'' @ [nl] @ ''make x''))
      (Some ''echo done make x'') ''recent-unwrapped'' 0))))"
proof -
  have m: "same_request match_demo ''echo done make x'' (''echo done'' @ [nl] @ ''make x'')" by code_simp
  have c: "nl \<in> set (''echo done'' @ [nl] @ ''make x'')" "starts_with ''echo done make x'' ''echo ''" "nl \<notin> set ''echo done make x''"
    by code_simp+
  have n: "NOT_ALLOWLISTED \<notin> set CONCRETE_DANGER_LAYERS" by code_simp
  show ?thesis
    by (subst rendered_objection_may_be_lost [OF _ _ _ m _ n]) (use c in \<open>auto simp: echo_audit_def Let_def\<close>)
qed

end
