(* ===== verification/AgentAdapters.thy ===== *)
theory AgentAdapters
  imports RequestMatch
begin

text \<open>
  Reading the dialogs of the agents (\<open>scripts/adapters/agent_adapters/\<close>): \<open>base.py\<close>, the
  interface and the request that is taken for canonical; \<open>agy.py\<close> and \<open>codex.py\<close>, what their
  panes show.  \<open>OpenCode\<close> holds the third adapter.  A text is the sequence of its UTF-8 bytes,
  so a glyph of the source is a short text here, a class of glyphs an alternative, and slices
  that count characters count the bytes that begin one.
\<close>

subsection \<open>Texts of a pane\<close>

definition begins_char :: "char \<Rightarrow> bool" where
  "begins_char c \<longleftrightarrow> \<not> (CHR 0x80 \<le> c \<and> c \<le> CHR 0xBF)"

text \<open>\<open>s[:n]\<close> and \<open>s[-n:]\<close> in characters.\<close>

fun first_chars :: "nat \<Rightarrow> str \<Rightarrow> str" where
  "first_chars n [] = []"
| "first_chars 0 (c # cs) = (if begins_char c then [] else c # first_chars 0 cs)"
| "first_chars (Suc n) (c # cs) = c # first_chars (if begins_char c then n else Suc n) cs"

fun last_chars_of :: "nat \<Rightarrow> str \<Rightarrow> str" where
  "last_chars_of n [] = []"
| "last_chars_of 0 (c # cs) = []"
| "last_chars_of (Suc n) (c # cs) = c # last_chars_of (if begins_char c then n else Suc n) cs"

definition last_chars :: "nat \<Rightarrow> str \<Rightarrow> str" where
  "last_chars n s = rev (last_chars_of n (rev s))"

text \<open>The text from the last occurrence of a marker on (\<open>s[s.rfind(m):]\<close>).\<close>

fun last_at :: "str \<Rightarrow> str \<Rightarrow> str option" where
  "last_at m [] = (if m = [] then Some [] else None)"
| "last_at m (c # cs) =
     (case last_at m cs of Some t \<Rightarrow> Some t | None \<Rightarrow> if prefix m (c # cs) then Some (c # cs) else None)"

definition from_last :: "str \<Rightarrow> str \<Rightarrow> str" where
  "from_last m s = (case last_at m s of Some t \<Rightarrow> t | None \<Rightarrow> s)"

definition last_lines :: "nat \<Rightarrow> str \<Rightarrow> str list" where
  "last_lines n s = (let ls = splitlines s in drop (length ls - n) ls)"

definition footer_is_live :: "str \<Rightarrow> str \<Rightarrow> bool" where
  "footer_is_live t marker = list_ex (contains marker) (last_lines 8 t)"

definition matched_group :: "mtch \<Rightarrow> nat \<Rightarrow> str" where
  "matched_group m n = (case m_group m n of Some t \<Rightarrow> t | None \<Rightarrow> [])"

text \<open>The glyphs of the dialogs.\<close>

definition glyph :: "char \<Rightarrow> char \<Rightarrow> str" where
  "glyph a b = [CHR 0xE2, a, b]"

definition FOCUS :: str where "FOCUS = glyph CHR 0x80 CHR 0xBA"
definition RULE_GLYPH :: str where "RULE_GLYPH = glyph CHR 0x94 CHR 0x80"
definition BULLET :: str where "BULLET = glyph CHR 0x97 CHR 0x8F"
definition MIDLINE_DOTS :: str where "MIDLINE_DOTS = glyph CHR 0x8B CHR 0xAF"
definition DOTS :: str where "DOTS = glyph CHR 0x80 CHR 0xA6"

definition NAVIGATE :: str where
  "NAVIGATE = glyph CHR 0x86 CHR 0x91 @ ''/'' @ glyph CHR 0x86 CHR 0x93 @ '' Navigate''"

subsection \<open>The interface of an adapter\<close>

text \<open>
  \<open>ad_pending c t\<close> is \<open>get_pending_request\<close> when the structured channel of the pane holds the
  command \<open>c\<close> (\<open>None\<close> without a fresh event); only OpenCode has such a channel.
\<close>

record agent_adapter =
  ad_kind :: str
  ad_markers :: "str list"
  ad_parse :: "str \<Rightarrow> str option"
  ad_pending :: "str option \<Rightarrow> str \<Rightarrow> str option"
  ad_live :: "str \<Rightarrow> bool"
  ad_question :: "str \<Rightarrow> bool"
  ad_truncated :: "str \<Rightarrow> bool"

definition present :: "str option \<Rightarrow> bool" where
  "present r \<longleftrightarrow> r \<noteq> None \<and> r \<noteq> Some []"

text \<open>
  \<open>get_canonical_request\<close>: \<open>recent\<close> is what the soft-wrap-aware buffer shows, \<open>c\<close> and \<open>c'\<close> what
  the channel holds at the two readings.
\<close>

definition get_canonical_request ::
    "match_world \<Rightarrow> agent_adapter \<Rightarrow> str option \<Rightarrow> str option \<Rightarrow> str \<Rightarrow> str \<Rightarrow> str option \<times> str" where
  "get_canonical_request w ad c c' visible recent =
     (let v = ad_pending ad c visible in
      if \<not> present v \<and> \<not> (ad_live ad visible \<or> ad_question ad visible) then (None, ''visible'')
      else if \<not> present v then (None, ''visible-unparsed'')
      else if recent \<noteq> [] then
        (let r = ad_pending ad c' recent in
         if present r \<and> same_request w (the r) (the v) then (r, ''recent-unwrapped'')
         else if present r then (v, ''visible-mismatch'')
         else (v, ''visible-fallback''))
      else (v, ''visible-fallback''))"

subsection \<open>AGY\<close>

definition QUESTION_RE :: regex where
  "QUESTION_RE = re_c ''Question%s+%d+/%d+:%s*(.+)''"

definition LIVE_TAIL_MARKERS :: "str list" where
  "LIVE_TAIL_MARKERS =
     [''Requesting permission for:'', ''Do you want to proceed?'', ''Execute command?'',
      ''Do you want to run'', ''Accept this file edit?'', ''Accept this change?'',
      ''Pending edit'', ''Allow creation of this file?'', ''Allow creation'',
      ''Yes, allow creation'']"

definition agy_markers :: "str list" where
  "agy_markers =
     [''Requesting permission for:'', ''Do you want to proceed?'', ''Do you want to run'', ''Execute command?'',
      ''> 1. Yes'', ''Accept this file edit?'', ''Accept this change?'', ''Pending edit'',
      ''Allow creation of this file?'', ''Allow creation'', ''Yes, allow creation'',
      ''How'' @ [squote] @ ''s the CLI experience so far?'', ''[0] Skip'', ''Press enter to continue'',
      ''[y/N]'', ''[Y/n]'', NAVIGATE]"

definition agy_dialog_is_live :: "str \<Rightarrow> bool" where
  "agy_dialog_is_live t =
     (let tail = last_chars 400 t; block = str_join [nl] (last_lines 8 t) in
      footer_is_live t ''esc Skip'' \<or> footer_is_live t ''Press enter to continue''
      \<or> footer_is_live t ''Do you want to proceed?'' \<or> footer_is_live t NAVIGATE
      \<or> list_ex (\<lambda>m. contains m tail) LIVE_TAIL_MARKERS
      \<or> contains ''[0] Skip'' tail
      \<or> re_found (re_c ''>%s*%d+%.'') tail
      \<or> re_found (re_cm ''^%s*%d+%.%s+Yes%b'') block
      \<or> re_found (re_c ''%[[Yy]/[Nn]%]'') tail)"

definition agy_question_is_live :: "str \<Rightarrow> bool" where
  "agy_question_is_live t \<longleftrightarrow> footer_is_live t ''esc Skip'' \<and> re_found QUESTION_RE t"

definition agy_is_truncated :: "str \<Rightarrow> bool" where
  "agy_is_truncated t = re_found (re_c (''(?:'' @ MIDLINE_DOTS @ ''|'' @ DOTS @ '')%s*(?:%d+%s*)?lines?%s*hidden'')) t"

definition as_question :: "str \<Rightarrow> str" where
  "as_question q = (if q \<noteq> [] then ''question: '' @ q else ''question'')"

definition first_match :: "regex list \<Rightarrow> str \<Rightarrow> mtch option" where
  "first_match ps t = first_some (\<lambda>p. re_search p t) ps"

definition file_or_unknown :: "mtch option \<Rightarrow> str" where
  "file_or_unknown m = (case m of Some m \<Rightarrow> strip (matched_group m 1) | None \<Rightarrow> ''unknown_file'')"

definition agy_standard :: "str \<Rightarrow> str option" where
  "agy_standard t =
     (let region = from_last ''Requesting permission for:'' t in
      map_option (\<lambda>m. preserve_executable_payload (matched_group m 1) [])
        (first_match [re_c ''Requesting permission for:%s*%n([%s%S]*?)%n%s*Do you want to proceed%?'',
                      re_c ''Requesting permission for:%s*%n([%s%S]*?)%n%s*(> 1%. Yes|Do you want to proceed)''] region))"

definition agy_edit :: "str \<Rightarrow> str option" where
  "agy_edit t =
     (if contains ''Accept this file edit?'' t \<or> contains ''Accept this change?'' t \<or> contains ''Pending edit'' t
      then Some (''edit_file '' @ file_or_unknown (first_match
        [re_c (''Pending edit%s*%n(?:'' @ RULE_GLYPH @ ''|-)+%s*%n%s*([^%n%s]+)''),
         re_c ''(/[^%s]+%.[a-zA-Z0-9_%-%.]+)%s+[+-]%d+''] t))
      else None)"

definition agy_creation :: "str \<Rightarrow> str option" where
  "agy_creation t =
     (if contains ''Allow creation of this file?'' t \<or> contains ''Allow creation'' t \<or> contains ''Yes, allow creation'' t
      then Some (''create_file '' @ file_or_unknown (first_match
        [re_c ''WriteToFile%(([^%)]+)%)'', re_c ''Creating file:%s*([^%n%s]+)'', re_c ''(/[^%s]+%.[a-zA-Z0-9_%-%.]+)''] t))
      else None)"

definition RUN_RE :: regex where
  \<open>RUN_RE = re_c (''Do you want to run%s*['"'' @ [btick] @ '']([%s%S]*?)['"'' @ [btick] @ '']%?'')\<close>

definition EXECUTE_RE :: regex where
  "EXECUTE_RE = re_c ''(?:Execute[%s%w?]*|Run%s*command%??):%s*%n([%s%S]*?)%n%s*%[[Yy]/[Nn]%]''"

definition PY_HEREDOC_RE :: regex where
  \<open>PY_HEREDOC_RE = re_c ''(python[0-9.]*%s+(?:-%s*)?<<-?%s*['"]?([A-Za-z0-9_]+)['"]?[%s%S]*?%n%s*%2)''\<close>

definition BASH_CALL_RE :: regex where
  "BASH_CALL_RE = re_c (BULLET @ ''%s*Bash%(([%s%S]*?)%)'')"

definition agy_menu :: "str \<Rightarrow> str option" where
  "agy_menu t =
     (if contains ''> 1. Yes'' t \<or> contains ''Do you want to proceed?'' t then
        (case re_search PY_HEREDOC_RE t of
           Some m \<Rightarrow> Some (strip (matched_group m 1))
         | None \<Rightarrow> (let bs = re_finditer BASH_CALL_RE t in
             if bs = [] then None else Some (strip (matched_group (last bs) 1))))
      else None)"

definition SURVEY_RE :: regex where
  "SURVEY_RE = re_c (''How'' @ [squote] @ ''s the CLI experience so far%?[%s%S]*?%[0%]%s*Skip'')"

definition agy_parse :: "str \<Rightarrow> str option" where
  "agy_parse t =
     (case (if footer_is_live t ''esc Skip'' then re_search QUESTION_RE t else None) of
        Some m \<Rightarrow> Some (as_question (strip (matched_group m 1)))
      | None \<Rightarrow> first_some (\<lambda>f. f t)
          [agy_standard, agy_edit, agy_creation,
           \<lambda>t. map_option (\<lambda>m. strip (matched_group m 1)) (re_search RUN_RE t),
           \<lambda>t. map_option (\<lambda>m. strip (matched_group m 1)) (re_search EXECUTE_RE t),
           agy_menu,
           \<lambda>t. if re_found SURVEY_RE (str_join [nl] (last_lines 15 t)) then Some ''feedback_survey_skip'' else None])"

definition agy :: agent_adapter where
  "agy = \<lparr>ad_kind = ''agy'', ad_markers = agy_markers, ad_parse = agy_parse, ad_pending = (\<lambda>_. agy_parse),
     ad_live = agy_dialog_is_live, ad_question = agy_question_is_live, ad_truncated = agy_is_truncated\<rparr>"

text \<open>The key that approves: the survey is skipped, everything else confirmed.\<close>

definition agy_approval_key :: "str \<Rightarrow> str" where
  "agy_approval_key req = (if req = ''feedback_survey_skip'' then ''0'' else ''enter'')"

text \<open>
  The answer of an injection, given whether the key was delivered, and the key; a rejection does
  not look at the delivery.
\<close>

definition after_key :: "bool \<Rightarrow> str \<Rightarrow> bool \<times> str" where
  "after_key sent answer = (if sent then (True, answer) else (False, ''delivery unknown: herdr CLI failure or timeout''))"

definition agy_inject_approval :: "bool \<Rightarrow> str \<Rightarrow> (bool \<times> str) \<times> str" where
  "agy_inject_approval sent req = (after_key sent ''approved'', agy_approval_key req)"

definition inject_escape :: "(bool \<times> str) \<times> str" where
  "inject_escape = ((True, ''rejected (escape dismiss)''), ''escape'')"

subsection \<open>Codex\<close>

definition re_cim :: "str \<Rightarrow> regex" where
  "re_cim p = (re_ci p)\<lparr>rg_ml := True\<rparr>"

definition QUESTION_HEADER_RE :: regex where
  "QUESTION_HEADER_RE = re_c ''Question%s+%d+%s*/%s*%d+%s*%([^)]*%)''"

definition OPTION_ROW_RE :: regex where
  "OPTION_ROW_RE = re_c (''^(?:'' @ FOCUS @ '')?%s*%d+%.%s'')"

definition ACTIVE_CHOICE_RE :: regex where
  "ACTIVE_CHOICE_RE = re_cm (''^%s*'' @ FOCUS @ ''%s*%d+%.'')"

text \<open>A frame glyph: the second row of the box drawing characters, as bytes.\<close>

definition FRAME :: str where
  "FRAME = [CHR 0xE2, CHR 0x94, CHR ''['', CHR 0x82, CHR 0x9C, CHR 0x94, CHR 0x80, CHR 0x8C, CHR 0xAC, CHR 0x90,
     CHR 0xA4, CHR 0xB4, CHR 0xBC, CHR '']'']"

definition EDIT_DEST_RE :: regex where
  "EDIT_DEST_RE = re_cim (''^(?:'' @ FRAME @ ''|%s)*(?:Destination|File):%s*(.+?)%s*(?:'' @ FRAME @ '')*$'')"

definition CODEX_DIALOG_HEADERS :: "str list" where
  "CODEX_DIALOG_HEADERS =
     [''Would you like to run the following command?'', ''Do you want to approve network access'',
      ''Would you like to send input to terminal'', ''Would you like to make the following edits?'',
      ''Would you like to grant these permissions?'']"

definition codex_markers :: "str list" where
  "codex_markers =
     [''Would you like to run the following command?'', ''Do you want to approve network access'',
      ''Would you like to send input to terminal'', ''Would you like to grant these permissions?'',
      ''Would you like to make the following edits?'', ''needs your approval.'', ''Yes, proceed'',
      ''Press enter to confirm or esc to cancel'', ''enter to submit answer'']"

text \<open>The region of the last header: of the regions of all headers the shortest.\<close>

definition shorter :: "str option \<Rightarrow> str option \<Rightarrow> str option" where
  "shorter best t =
     (case (best, t) of
        (Some b, Some u) \<Rightarrow> if length u < length b then t else best
      | (None, _) \<Rightarrow> t
      | (_, None) \<Rightarrow> best)"

definition latest_dialog_region :: "str \<Rightarrow> str" where
  "latest_dialog_region t =
     (case foldl (\<lambda>best h. shorter best (last_at h t)) None CODEX_DIALOG_HEADERS of Some r \<Rightarrow> r | None \<Rightarrow> t)"

fun codex_question_lines :: "str list \<Rightarrow> str list \<Rightarrow> str list" where
  "codex_question_lines acc [] = acc"
| "codex_question_lines acc (l # ls) =
     (let st = strip l in
      if st = [] then (if acc \<noteq> [] then acc else codex_question_lines acc ls)
      else if re_matches OPTION_ROW_RE st \<or> contains ''enter to submit answer'' st \<or> contains ''esc to interrupt'' st then acc
      else codex_question_lines (acc @ [st]) ls)"

definition squeeze :: "str \<Rightarrow> str" where
  "squeeze s = strip (re_sub (class_plus [CSpace]) (\<lambda>_. '' '') s)"

definition extract_codex_question_text :: "str \<Rightarrow> str" where
  "extract_codex_question_text t =
     (case re_search QUESTION_HEADER_RE t of
        None \<Rightarrow> []
      | Some m \<Rightarrow> first_chars 160 (squeeze (str_join '' '' (codex_question_lines [] (splitlines (m_post m))))))"

definition EXEC_RE :: regex where
  "EXEC_RE = re_cm (''^([ %t]*)%$%s+([%s%S]*?)%n[ %t]*(?:'' @ FOCUS @ ''|>)?%s*1%.%s*Yes'')"

definition codex_command :: "str \<Rightarrow> str option" where
  "codex_command region =
     (case re_search EXEC_RE region of
        None \<Rightarrow> None
      | Some m \<Rightarrow> (let cmd = preserve_executable_payload (matched_group m 2) (matched_group m 1) in
          if cmd \<noteq> [] then Some cmd else None))"

definition NETWORK_RE :: regex where
  \<open>NETWORK_RE = re_c ''network access to%s*"([^"]+)"''\<close>

definition TERMINAL_RE :: regex where
  "TERMINAL_RE = re_c ''send input to terminal%s+(%d+)''"

definition PATCH_RE :: regex where
  "PATCH_RE = re_cm ''^%*%*%* (Add|Update|Delete) File: (.+)$''"

definition edit_of_patches :: "(str \<times> str) list \<Rightarrow> str" where
  "edit_of_patches es =
     (case es of
        [(verb, path)] \<Rightarrow> if verb = ''Add'' \<or> verb = ''Update'' then ''edit_file '' @ strip path else ''edit_file''
      | _ \<Rightarrow> ''edit_file'')"

definition edit_of_destinations :: "str list \<Rightarrow> str" where
  "edit_of_destinations ds = (case ds of [] \<Rightarrow> ''edit_file'' | _ \<Rightarrow> ''edit_file '' @ str_join [nl] ds)"

text \<open>The branch for permission grants at the end of the source follows a return and is never reached.\<close>

definition codex_edit :: "str \<Rightarrow> str option" where
  "codex_edit t =
     (case last_at ''Would you like to make the following edits?'' t of
        None \<Rightarrow> None
      | Some region \<Rightarrow>
          if \<not> re_found ACTIVE_CHOICE_RE region then None
          else (let es = map (\<lambda>m. (matched_group m 1, matched_group m 2)) (re_finditer PATCH_RE region) in
            if es \<noteq> [] then Some (edit_of_patches es)
            else Some (edit_of_destinations (map (\<lambda>m. strip (matched_group m 1)) (re_finditer EDIT_DEST_RE region)))))"

definition codex_parse :: "str \<Rightarrow> str option" where
  "codex_parse t =
     (if footer_is_live t ''enter to submit answer'' then Some (as_question (extract_codex_question_text t))
      else (let region = latest_dialog_region t in
        if \<not> footer_is_live region ''Press enter to confirm or esc to cancel'' then None
        else first_some (\<lambda>f. f region)
          [codex_command,
           \<lambda>r. map_option (\<lambda>m. ''network_access '' @ matched_group m 1) (re_search NETWORK_RE r),
           \<lambda>r. map_option (\<lambda>m. ''stdin_terminal '' @ matched_group m 1) (re_search TERMINAL_RE r),
           \<lambda>_. codex_edit t]))"

definition codex_dialog_is_live :: "str \<Rightarrow> bool" where
  "codex_dialog_is_live t \<longleftrightarrow>
     footer_is_live t ''Press enter to confirm or esc to cancel'' \<and> re_found ACTIVE_CHOICE_RE (latest_dialog_region t)"

definition codex_question_is_live :: "str \<Rightarrow> bool" where
  "codex_question_is_live t = footer_is_live t ''enter to submit answer''"

definition codex :: agent_adapter where
  "codex = \<lparr>ad_kind = ''codex'', ad_markers = codex_markers, ad_parse = codex_parse, ad_pending = (\<lambda>_. codex_parse),
     ad_live = codex_dialog_is_live, ad_question = codex_question_is_live, ad_truncated = (\<lambda>_. False)\<rparr>"

definition codex_inject_approval :: "bool \<Rightarrow> (bool \<times> str) \<times> str" where
  "codex_inject_approval sent = (after_key sent ''approved (y)'', ''y'')"

subsection \<open>The contract of an adapter\<close>

text \<open>
  What the watcher relies on: without a structured channel the pending request is what the
  pane shows, and a live question is never reported as a command.
\<close>

locale dialog_reader =
  fixes ad :: agent_adapter
  assumes pending_parse: "ad_pending ad None t = ad_parse ad t"
    and question_parses: "ad_question ad t \<Longrightarrow> \<exists>q. ad_parse ad t = Some q \<and> starts_with q ''question''"
begin

lemma question_not_command: "ad_question ad t \<Longrightarrow> ad_parse ad t = Some r \<Longrightarrow> starts_with r ''question''"
  using question_parses by fastforce

lemma canonical_grounded:
  assumes "get_canonical_request w ad None c' visible recent = (Some r, src)"
  obtains v where "ad_parse ad visible = Some v" and "v \<noteq> []" and "r = v \<or> same_request w r v"
    and "ad_question ad visible \<longrightarrow> starts_with v ''question''"
proof -
  from assms have "present (ad_parse ad visible)"
    by (auto simp: get_canonical_request_def Let_def pending_parse split: if_splits)
  then obtain v where v: "ad_parse ad visible = Some v" "v \<noteq> []" by (cases "ad_parse ad visible") (auto simp: present_def)
  with assms have "r = v \<or> same_request w r v"
    by (auto simp: get_canonical_request_def Let_def pending_parse present_def split: if_splits)
  with v question_not_command that show ?thesis by blast
qed

end

lemma as_question_starts [simp]: "starts_with (as_question q) ''question''"
  using starts_with_append [of "''question''" "'': '' @ q"] starts_with_append [of "''question''" "[]"]
  by (auto simp: as_question_def)

interpretation agy_reader: dialog_reader agy
proof
  show "ad_pending agy None t = ad_parse agy t" for t by (simp add: agy_def)
  show "\<exists>q. ad_parse agy t = Some q \<and> starts_with q ''question''" if "ad_question agy t" for t
    using that by (auto simp: agy_def agy_parse_def agy_question_is_live_def re_found_def)
qed

interpretation codex_reader: dialog_reader codex
proof
  show "ad_pending codex None t = ad_parse codex t" for t by (simp add: codex_def)
  show "\<exists>q. ad_parse codex t = Some q \<and> starts_with q ''question''" if "ad_question codex t" for t
    using that by (auto simp: codex_def codex_parse_def codex_question_is_live_def)
qed

text \<open>A request for permissions is never reported: the branch for it cannot be reached.\<close>

lemma permission_grants_unseen:
  "codex_parse (str_join [nl] [''Would you like to grant these permissions?'', ''  network: example.org'',
      FOCUS @ '' 1. Yes, grant'', ''Press enter to confirm or esc to cancel'']) = None"
  by code_simp

end
