(* ===== verification/OpenCode.thy ===== *)
theory OpenCode
  imports AgentAdapters PyJson Compiled
begin

text \<open>
  The adapter for OpenCode (\<open>scripts/adapters/agent_adapters/opencode.py\<close>): cleaning the text of
  its pane, the stage and the request of its dialog, the structured channel on which its plugin
  announces requests and receives decisions, and the ladder that presses \<open>enter\<close> on a live
  dialog.  What the pane shows at the successive readings, the channel and the success of a
  key press are functions of the number of the reading or press.
\<close>

subsection \<open>Cleaning the text of a pane\<close>

definition ANSI_ESCAPE_RE :: regex where
  "ANSI_ESCAPE_RE = re_c ([CHR 0x1B] @ ''%[[0-9;?]*[a-zA-Z]|'' @ [CHR 0x1B] @ ''%][^'' @ [CHR 0x07] @ '']*('' @ [CHR 0x07]
     @ ''|'' @ [CHR 0x1B] @ ''%&)'')"

text \<open>The code points 2500 to 257F and 2580 to 259F as bytes.\<close>

definition BOX_DRAWING_RE :: regex where
  "BOX_DRAWING_RE = re_c ([CHR 0xE2] @ ''(?:['' @ [CHR 0x94, CHR 0x95] @ ''][''
     @ [CHR 0x80, CHR ''-'', CHR 0xBF] @ '']|'' @ [CHR 0x96] @ ''['' @ [CHR 0x80, CHR ''-'', CHR 0x9F] @ ''])'')"

definition strip_ansi :: "str \<Rightarrow> str" where
  "strip_ansi t = re_sub ANSI_ESCAPE_RE (\<lambda>_. []) t"

definition strip_tui :: "str \<Rightarrow> str" where
  "strip_tui t = re_sub BOX_DRAWING_RE (\<lambda>_. []) (strip_ansi t)"

definition COST_METADATA_RE :: regex where
  "COST_METADATA_RE = re_ci ''^%d+(?:%.%d+)?%s*(?:spent|tokens|k|m)?$''"

definition MIDDOT :: str where "MIDDOT = [CHR 0xC2, CHR 0xB7]"

definition leaked_alternatives :: "str list" where
  "leaked_alternatives =
     [''~[^%s]*:[^%s]+'', ''%d[%d,]*%s+tokens?'', ''%d+(?:%.%d+)?'' @ ''%% used'',
      ''%d+(?:%.%d+)?[KM]%s*%(%d+'' @ ''%%'' @ ''%)%s*'' @ MIDDOT @ ''%s*%$[%d.]+'',
      ''%$%d+%.%d+%s+spent'', ''%d+(?:%.%d+)?'' @ ''%% used'', ''LSPs? will activate as files are read'',
      ''%bsalada-nas Connected%b'', glyph CHR 0x80 CHR 0xA2 @ '' pyright'', ''OpenCode %d+%.%d+%.%d+'',
      ''Build '' @ MIDDOT @ '' [^%s]*'', ''esc interrupt'', ''ctrl%+[a-z]+ [a-z]+'', ''%bQUEUED%b'',
      ''%bThinking%b'', ''%bReading file[^%s]*%b'', ''%bWriting command[^%s]*%b'', ''%bLSP%b'', ''%bMCP%b'']"

definition LEAKED_TEXT_RE :: regex where
  "LEAKED_TEXT_RE = re_c (''(?:'' @ str_join ''|'' leaked_alternatives @ '')'')"

definition strip_leaked_text :: "str \<Rightarrow> str" where
  "strip_leaked_text t = re_sub LEAKED_TEXT_RE (\<lambda>_. '' '') t"

definition clean_text :: "str \<Rightarrow> str" where
  "clean_text t = strip_leaked_text (strip_tui t)"

definition looks_like_cost_metadata :: "str \<Rightarrow> bool" where
  "looks_like_cost_metadata cmd = re_matches COST_METADATA_RE (strip cmd)"

text \<open>What the patterns parse to, as code equations.\<close>

lemma LEAKED_TEXT_RE_code [code]: "LEAKED_TEXT_RE = \<lparr>rg_rx =
     alts [seqs (lits ''~'' @ [RRep (RSet True [CSpace]) 0 None True] @ lits '':'' @ [RRep (RSet True [CSpace])
     1 None True]), seqs ([RSet False [CDigit], RRep (RSet False [CDigit, CLit (CHR '','')]) 0 None True,
     blank_plus] @ lits ''token'' @ [RRep (RSet False [CLit (CHR ''s'')]) 0 (Some 1) True]), seqs ([RRep (RSet
     False [CDigit]) 1 None True, RRep (seqs (lits ''.'' @ [RRep (RSet False [CDigit]) 1 None True])) 0 (Some
     1) True, RSet False [CLit (CHR ''%'')]] @ lits '' used''), seqs ([RRep (RSet False [CDigit]) 1 None True,
     RRep (seqs (lits ''.'' @ [RRep (RSet False [CDigit]) 1 None True])) 0 (Some 1) True, RSet False [CLit (CHR
     ''K''), CLit (CHR ''M'')], blank_star] @ lits ''('' @ [RRep (RSet False [CDigit]) 1 None True, RSet False
     [CLit (CHR ''%'')]] @ lits '')'' @ [blank_star, RSet False [CLit (CHR 0xC2)], RSet False [CLit (CHR
     0xB7)], blank_star] @ lits ''$'' @ [RRep (RSet False [CDigit, CLit (CHR ''.'')]) 1 None True]), seqs (lits
     ''$'' @ [RRep (RSet False [CDigit]) 1 None True] @ lits ''.'' @ [RRep (RSet False [CDigit]) 1 None True,
     blank_plus] @ lits ''spent''), seqs ([RRep (RSet False [CDigit]) 1 None True, RRep (seqs (lits ''.'' @
     [RRep (RSet False [CDigit]) 1 None True])) 0 (Some 1) True, RSet False [CLit (CHR ''%'')]] @ lits
     '' used''), seqs (lits ''LSP'' @ [RRep (RSet False [CLit (CHR ''s'')]) 0 (Some 1) True] @ lits
     '' will activate as files are read''), seqs ([RWordB] @ lits ''salada-nas Connected'' @ [RWordB]), seqs
     ([RSet False [CLit (CHR 0xE2)], RSet False [CLit (CHR 0x80)], RSet False [CLit (CHR 0xA2)]] @ lits
     '' pyright''), seqs (lits ''OpenCode '' @ [RRep (RSet False [CDigit]) 1 None True] @ lits ''.'' @ [RRep
     (RSet False [CDigit]) 1 None True] @ lits ''.'' @ [RRep (RSet False [CDigit]) 1 None True]), seqs (lits
     ''Build '' @ [RSet False [CLit (CHR 0xC2)], RSet False [CLit (CHR 0xB7)]] @ lits '' '' @ [RRep (RSet True
     [CSpace]) 0 None True]), word_rx ''esc interrupt'', seqs (lits ''ctrl+'' @ [RRep (RSet False [CRange (CHR
     ''a'') (CHR ''z'')]) 1 None True] @ lits '' '' @ [RRep (RSet False [CRange (CHR ''a'') (CHR ''z'')]) 1
     None True]), seqs ([RWordB] @ lits ''QUEUED'' @ [RWordB]), seqs ([RWordB] @ lits ''Thinking'' @ [RWordB]),
     seqs ([RWordB] @ lits ''Reading file'' @ [RRep (RSet True [CSpace]) 0 None True, RWordB]), seqs ([RWordB]
     @ lits ''Writing command'' @ [RRep (RSet True [CSpace]) 0 None True, RWordB]), seqs ([RWordB] @ lits
     ''LSP'' @ [RWordB]), seqs ([RWordB] @ lits ''MCP'' @ [RWordB])],
     rg_ic = False, rg_ml = False\<rparr>"
  by code_simp

lemma ANSI_ESCAPE_RE_code [code]: "ANSI_ESCAPE_RE = \<lparr>rg_rx =
     alts [seqs ([RSet False [CLit (CHR 0x1B)]] @ lits ''['' @ [RRep (RSet False [CRange (CHR ''0'') (CHR
     ''9''), CLit (CHR '';''), CLit (CHR ''?'')]) 0 None True, RSet False [CRange (CHR ''a'') (CHR ''z''),
     CRange (CHR ''A'') (CHR ''Z'')]]), seqs ([RSet False [CLit (CHR 0x1B)]] @ lits '']'' @ [RRep (RSet True
     [CLit (CHR 0x07)]) 0 None True, RGrp 1 (alts [RSet False [CLit (CHR 0x07)], seqs ([RSet False [CLit (CHR
     0x1B)], RSet False [CLit bslash]])])])],
     rg_ic = False, rg_ml = False\<rparr>"
  by code_simp

lemma BOX_DRAWING_RE_code [code]: "BOX_DRAWING_RE = \<lparr>rg_rx =
     seqs ([RSet False [CLit (CHR 0xE2)], alts [seqs ([RSet False [CLit (CHR 0x94), CLit (CHR 0x95)], RSet
     False [CRange (CHR 0x80) (CHR 0xBF)]]), seqs ([RSet False [CLit (CHR 0x96)], RSet False [CRange (CHR 0x80)
     (CHR 0x9F)]])]]),
     rg_ic = False, rg_ml = False\<rparr>"
  by code_simp

subsection \<open>The text of a question\<close>

definition OPTION_NUM_RE :: regex where
  "OPTION_NUM_RE = re_c ''^%d+%.%s''"

definition indent_of :: "str \<Rightarrow> nat" where
  "indent_of l = length (takeWhile (\<lambda>c. c = CHR '' '' \<or> c = CHR 0x09) l)"

definition is_key_row :: "str \<Rightarrow> bool" where
  "is_key_row st \<longleftrightarrow> contains (glyph CHR 0x86 CHR 0x91 @ glyph CHR 0x86 CHR 0x93) st \<or> contains (glyph CHR 0x87 CHR 0x86) st
     \<or> starts_with st ''enter ''"

text \<open>The lines above the footer from below; \<open>acc\<close> holds the question, first line first.\<close>

fun question_lines :: "nat option \<Rightarrow> str list \<Rightarrow> str list \<Rightarrow> str list" where
  "question_lines oi acc [] = acc"
| "question_lines oi acc (l # ls) =
     (let st = strip l in
      if st = [] then (if acc \<noteq> [] then acc else question_lines oi acc ls)
      else if is_key_row st then question_lines oi acc ls
      else if re_matches OPTION_NUM_RE st then question_lines oi acc ls
      else (case oi of
              Some i \<Rightarrow> if i < indent_of l then question_lines oi acc ls
                        else if indent_of l < i then acc
                        else question_lines oi (st # acc) ls
            | None \<Rightarrow> question_lines oi (st # acc) ls))"

definition extract_question_text :: "str \<Rightarrow> str" where
  "extract_question_text t =
     (case re_search (re_c ''%besc%s+dismiss%b'') t of
        None \<Rightarrow> []
      | Some m \<Rightarrow>
          (let ls = splitlines (m_pre m);
               oi = map_option indent_of (find (\<lambda>l. re_matches OPTION_NUM_RE (strip l)) ls)
           in first_chars 160 (squeeze (str_join '' '' (question_lines oi [] (rev ls))))))"

subsection \<open>Stage and request of the dialog\<close>

datatype dialog_stage = Always_Confirm | Reject_Stage | Permission | Unknown

definition ALWAYS_CONFIRM_MARKERS :: "str list" where
  "ALWAYS_CONFIRM_MARKERS = [''Always allow'', ''until OpenCode is restarted'']"

definition REJECT_MARKERS :: "str list" where
  "REJECT_MARKERS = [''Reject permission'', ''Tell OpenCode what to do differently'']"

definition classify_dialog_stage :: "str \<Rightarrow> dialog_stage" where
  "classify_dialog_stage visible =
     (let tail = from_last ''Permission required'' (clean_text visible) in
      if list_ex (\<lambda>m. contains m tail) ALWAYS_CONFIRM_MARKERS then Always_Confirm
      else if list_ex (\<lambda>m. contains m tail) REJECT_MARKERS then Reject_Stage
      else if contains ''Permission required'' tail \<or> contains ''Allow once'' tail then Permission
      else Unknown)"

definition oc_question_is_live :: "str \<Rightarrow> bool" where
  "oc_question_is_live visible = footer_is_live (clean_text visible) ''esc dismiss''"

text \<open>From the last header to the last \<open>Allow once\<close> behind it.\<close>

definition dialog_region :: "str \<Rightarrow> str" where
  "dialog_region t =
     (let region = from_last ''Permission required'' t in
      case last_at ''Allow once'' t of
        Some u \<Rightarrow> if length u < length region then take (length region - length u) region else region
      | None \<Rightarrow> region)"

definition PROMPT_CMD_RE :: regex where
  "PROMPT_CMD_RE = re_cm ''^([ %t]*)%$%s+([%s%S]+)''"

definition prompt_command :: "str \<Rightarrow> str option" where
  "prompt_command region =
     (case re_search PROMPT_CMD_RE region of
        None \<Rightarrow> None
      | Some m \<Rightarrow> (let cmd = preserve_executable_payload (matched_group m 2) (matched_group m 1) in
          if cmd \<noteq> [] \<and> \<not> looks_like_cost_metadata cmd then Some cmd else None))"

definition ACCESS_EXTERNAL_RE :: regex where
  "ACCESS_EXTERNAL_RE = re_c ''Access external directory%s+([^%&]+?)(?=%n%s*Patterns%b|%s*%&n|$)''"

definition EDIT_PATH_RE :: regex where
  "EDIT_PATH_RE = re_ci ''(?:Edit|Write|Create)%s+(?:file%s+)?([~/][^%n%&]+)''"

definition READ_PATH_RE :: regex where
  "READ_PATH_RE = re_ci ''%bRead%b%s+(?:file%s+)?([~/][^%n%&]+)''"

definition FETCH_URL_RE :: regex where
  "FETCH_URL_RE = re_c ''https?://[^%s)%]]+''"

definition TITLE_COST_RE :: regex where
  "TITLE_COST_RE = re_ci ''^[%d,]+(?:%s+(?:spent|tokens|k|m))?$''"

definition is_title :: "str \<Rightarrow> bool" where
  "is_title l \<longleftrightarrow> \<not> (l = [] \<or> starts_with l ''Permission required'' \<or> starts_with l ''$'') \<and> \<not> re_matches TITLE_COST_RE l"

definition unhandled_title :: "str \<Rightarrow> str option" where
  "unhandled_title region = map_option (\<lambda>t. ''unhandled_dialog '' @ t) (find is_title (map strip (splitlines region)))"

definition region_request :: "str \<Rightarrow> str option" where
  "region_request region =
     first_some (\<lambda>f. f region)
       [prompt_command,
        \<lambda>r. map_option (\<lambda>m. ''access_directory '' @ squeeze (matched_group m 1)) (re_search ACCESS_EXTERNAL_RE r),
        \<lambda>r. map_option (\<lambda>m. ''edit_file '' @ strip (matched_group m 1)) (re_search EDIT_PATH_RE r),
        \<lambda>r. map_option (\<lambda>m. ''read_file '' @ strip (matched_group m 1)) (re_search READ_PATH_RE r),
        \<lambda>r. map_option (\<lambda>m. ''webfetch '' @ strip (m_text m)) (re_search FETCH_URL_RE r),
        \<lambda>r. if re_found (re_ci ''doom%s*loop'') r then Some ''doom_loop'' else None,
        unhandled_title]"

definition oc_parse :: "str \<Rightarrow> str option" where
  "oc_parse visible =
     (let t = clean_text visible in
      if footer_is_live t ''esc dismiss'' then Some (as_question (extract_question_text t))
      else if classify_dialog_stage t \<noteq> Permission then None
      else region_request (dialog_region t))"

text \<open>A command on the channel goes before the text of the pane while a dialog is up.\<close>

definition oc_pending :: "str option \<Rightarrow> str \<Rightarrow> str option" where
  "oc_pending channel visible =
     (if classify_dialog_stage visible = Permission \<and> present channel then channel else oc_parse visible)"

definition opencode :: agent_adapter where
  "opencode = \<lparr>ad_kind = ''opencode'', ad_markers = [''Permission required'', ''Allow once'', ''Allow always''],
     ad_parse = oc_parse, ad_pending = oc_pending, ad_live = (\<lambda>t. classify_dialog_stage t = Permission),
     ad_question = oc_question_is_live, ad_truncated = (\<lambda>_. False)\<rparr>"

subsection \<open>The structured channel\<close>

text \<open>
  Time, the life time of an event, \<open>float\<close> and \<open>str\<close> of JSON values that the plugin does not
  write are parameters.  A value \<open>None\<close> of the following operations stands for an exception.
\<close>

record channel_world =
  channel_now :: rat
  channel_ttl :: rat
  float_value :: "json \<Rightarrow> pyfloat option"
  text_value :: "json \<Rightarrow> str"

definition sanitize_pane_id :: "str \<Rightarrow> str" where
  "sanitize_pane_id pane = map (\<lambda>c. if is_alnum c \<or> c \<in> set ''._-'' then c else CHR ''_'') (if pane = [] then ''unknown'' else pane)"

definition older_than :: "rat \<Rightarrow> rat \<Rightarrow> pyfloat \<Rightarrow> bool" where
  "older_than ttl now t = (case t of Fin v \<Rightarrow> ttl < now - v | PInf \<Rightarrow> False | NInf \<Rightarrow> True | NaN \<Rightarrow> False)"

definition text_of :: "channel_world \<Rightarrow> json \<Rightarrow> str" where
  "text_of w v = (case v of JStr s \<Rightarrow> s | _ \<Rightarrow> text_value w v)"

definition float_of_value :: "channel_world \<Rightarrow> json \<Rightarrow> pyfloat option" where
  "float_of_value w v = (case v of JInt i \<Rightarrow> Some (float_of (of_int i)) | JFloat f \<Rightarrow> Some f | _ \<Rightarrow> float_value w v)"

definition stamp_of :: "channel_world \<Rightarrow> json \<Rightarrow> pyfloat option" where
  "stamp_of w event =
     (case event of
        JObj ms \<Rightarrow> (case map_of ms ''ts'' of None \<Rightarrow> Some (Fin 0) | Some v \<Rightarrow> float_of_value w v)
      | _ \<Rightarrow> None)"

text \<open>\<open>file\<close> is the text of the file of the pane, if it can be read.\<close>

definition read_channel_event :: "channel_world \<Rightarrow> str option \<Rightarrow> json option option" where
  "read_channel_event w file =
     (case Option.bind file json_loads of
        None \<Rightarrow> Some None
      | Some d \<Rightarrow>
          if \<not> is_obj d \<or> \<not> truthy (jget ''permission'' d) then Some None
          else (case stamp_of w d of
              None \<Rightarrow> None
            | Some t \<Rightarrow> Some (if older_than (channel_ttl w) (channel_now w) t then None else Some d)))"

definition first_truthy :: "json list \<Rightarrow> json option" where
  "first_truthy vs = find truthy vs"

text \<open>\<open>xs[0] if xs else None\<close>.\<close>

fun head_value :: "json \<Rightarrow> json option" where
  "head_value (JArr (x # xs)) = Some x"
| "head_value (JStr (c # cs)) = Some (JStr [c])"
| "head_value v = (if truthy v then None else Some JNull)"

definition patterns_of :: "json \<Rightarrow> json list" where
  "patterns_of event = (case jget ''patterns'' event of JArr xs \<Rightarrow> xs | _ \<Rightarrow> [])"

definition metadata_of :: "json \<Rightarrow> json option" where
  "metadata_of event =
     (let m = jget ''metadata'' event in if \<not> truthy m then Some (JObj []) else if is_obj m then Some m else None)"

definition head_pattern :: "json \<Rightarrow> json" where
  "head_pattern event = (case patterns_of event of [] \<Rightarrow> JNull | p # _ \<Rightarrow> p)"

definition labelled :: "channel_world \<Rightarrow> str \<Rightarrow> json option \<Rightarrow> str option" where
  "labelled w label v = map_option (\<lambda>x. label @ text_of w x) v"

text \<open>A command that is not a text fails where it is compared, here at once.\<close>

definition bash_request :: "channel_world \<Rightarrow> json \<Rightarrow> json \<Rightarrow> str option option" where
  "bash_request w meta event =
     (let cmd = jget ''command'' meta in
      if truthy cmd then (case cmd of JStr s \<Rightarrow> Some (Some s) | _ \<Rightarrow> None)
      else (let joined = strip (str_join '' '' (map (text_of w) (patterns_of event))) in
            Some (if joined = [] then None else Some joined)))"

definition directory_request :: "channel_world \<Rightarrow> json \<Rightarrow> json \<Rightarrow> str option option" where
  "directory_request w meta event =
     (case first_truthy [jget ''filepath'' meta, jget ''parentDir'' meta] of
        Some p \<Rightarrow> Some (labelled w ''access_directory '' (Some p))
      | None \<Rightarrow>
          (case head_value (jget ''directories'' meta) of
             None \<Rightarrow> None
           | Some d \<Rightarrow> Some (labelled w ''access_directory '' (first_truthy [d, head_pattern event]))))"

definition channel_event_to_req_cmd :: "channel_world \<Rightarrow> json \<Rightarrow> str option option" where
  "channel_event_to_req_cmd w event =
     (let perm = (case event of JObj ms \<Rightarrow> (case map_of ms ''permission'' of Some p \<Rightarrow> p | None \<Rightarrow> JStr []) | _ \<Rightarrow> JStr []) in
      case metadata_of event of
        None \<Rightarrow> None
      | Some meta \<Rightarrow>
          if perm = JStr ''bash'' then bash_request w meta event
          else if perm = JStr ''external_directory'' then directory_request w meta event
          else if perm \<in> {JStr ''edit'', JStr ''write''} then
            Some (labelled w ''edit_file '' (first_truthy [jget ''filepath'' meta, head_pattern event]))
          else if perm = JStr ''read'' then Some (labelled w ''read_file '' (first_truthy [head_pattern event]))
          else if perm = JStr ''webfetch'' then Some (labelled w ''webfetch '' (first_truthy [head_pattern event]))
          else if truthy perm then Some (Some (''unhandled_dialog '' @ text_of w perm))
          else Some None)"

text \<open>The decision that the plugin will find; a failed write is ignored.\<close>

definition decision_record :: "channel_world \<Rightarrow> str \<Rightarrow> json \<Rightarrow> str \<Rightarrow> json" where
  "decision_record w pane permission_id response =
     JObj [(''pane_id'', JStr pane), (''permission_id'', permission_id), (''response'', JStr response),
           (''ts'', JFloat (Fin (channel_now w)))]"

definition SKIP_CHANGED :: str where "SKIP_CHANGED = ''SKIP_DIALOG_CHANGED''"

definition matches_live :: "match_world \<Rightarrow> str \<Rightarrow> str option \<Rightarrow> bool" where
  "matches_live mw req live = same_request mw req (case live of Some r \<Rightarrow> r | None \<Rightarrow> [])"

text \<open>\<open>channel_approve\<close>: the answer, and the decision that was written.\<close>

definition oc_channel_approve ::
    "channel_world \<Rightarrow> match_world \<Rightarrow> str \<Rightarrow> str option \<Rightarrow> str \<Rightarrow> ((bool \<times> str) \<times> json option) option" where
  "oc_channel_approve w mw pane file req =
     (case read_channel_event w file of
        None \<Rightarrow> None
      | Some None \<Rightarrow> Some ((False, ''no channel permission''), None)
      | Some (Some event) \<Rightarrow>
          if \<not> truthy (jget ''permission_id'' event) then Some ((False, ''no channel permission''), None)
          else (case channel_event_to_req_cmd w event of
              None \<Rightarrow> None
            | Some live \<Rightarrow>
                if \<not> matches_live mw req live then Some ((False, SKIP_CHANGED), None)
                else Some ((True, ''permission.reply decision written (permission_id bound)''),
                           Some (decision_record w pane (jget ''permission_id'' event) ''once''))))"

definition oc_inject_reject ::
    "channel_world \<Rightarrow> match_world \<Rightarrow> str \<Rightarrow> str option \<Rightarrow> str \<Rightarrow> ((bool \<times> str) \<times> (json option \<times> str list)) option" where
  "oc_inject_reject w mw pane file req =
     (case read_channel_event w file of
        None \<Rightarrow> None
      | Some ev \<Rightarrow>
          (case ev of
             Some event \<Rightarrow>
               if truthy (jget ''permission_id'' event) then
                 (case channel_event_to_req_cmd w event of
                    None \<Rightarrow> None
                  | Some live \<Rightarrow>
                      if \<not> matches_live mw req live then Some ((False, SKIP_CHANGED), (None, []))
                      else Some ((True, ''permission.reply reject decision written (permission_id bound)''),
                                 (Some (decision_record w pane (jget ''permission_id'' event) ''reject''), [])))
               else Some ((True, ''rejected (escape dismiss)''), (None, [''escape'']))
           | None \<Rightarrow> Some ((True, ''rejected (escape dismiss)''), (None, [''escape'']))))"

subsection \<open>The injection ladder\<close>

fun stage_name :: "dialog_stage \<Rightarrow> str" where
  "stage_name Always_Confirm = ''always_confirm''"
| "stage_name Reject_Stage = ''reject''"
| "stage_name Permission = ''permission''"
| "stage_name Unknown = ''unknown''"

fun decide_opencode_injection :: "dialog_stage \<Rightarrow> str" where
  "decide_opencode_injection Always_Confirm = ''always_abort''"
| "decide_opencode_injection Permission = ''not_registered''"
| "decide_opencode_injection _ = ''dialogue_gone''"

datatype inject_verdict = Approved_Once | Always_Abort | Reject_Abort | Not_Registered

definition resolve_opencode_injection :: "dialog_stage list \<Rightarrow> inject_verdict \<times> str" where
  "resolve_opencode_injection stages =
     (if Always_Confirm \<in> set stages then (Always_Abort, ''post-inject: '' @ quoted ''always'' @ '' confirmation detected; aborted via escape'')
      else if Reject_Stage \<in> set stages then
        (Reject_Abort, ''post-inject: '' @ quoted ''reject'' @ '' confirmation detected (human residual cursor); aborted via escape'')
      else if stages \<noteq> [] \<and> last stages = Permission then
        (Not_Registered, ''post-inject: dialog still at '' @ quoted ''permission'' @ '' after bounded re-poll; enter not registered'')
      else if length stages \<ge> 2 \<and> last stages = Unknown \<and> last (butlast stages) = Unknown then
        (Approved_Once, ''once approved (dialog cleared for 2 consecutive polls, no always/reject confirm)'')
      else (Not_Registered, ''post-inject: dialog not confirmed cleared after bounded re-poll; enter not registered''))"

text \<open>
  The pane, and the command on its channel, at the \<open>k\<close>-th reading; whether the \<open>p\<close>-th \<open>enter\<close>
  was delivered, and how many readings fit into the time that is polled after it.
\<close>

record ladder_world =
  text_at :: "nat \<Rightarrow> str"
  channel_at :: "nat \<Rightarrow> str option"
  delivered :: "nat \<Rightarrow> bool"
  polls_after :: "nat \<Rightarrow> nat"

text \<open>Keys that were sent, with the number of the last reading before.\<close>

datatype key_press = Enter nat | Escape nat

definition stage_at :: "ladder_world \<Rightarrow> nat \<Rightarrow> dialog_stage" where
  "stage_at w k = classify_dialog_stage (text_at w k)"

fun poll_stages :: "ladder_world \<Rightarrow> nat \<Rightarrow> nat \<Rightarrow> nat \<Rightarrow> dialog_stage list" where
  "poll_stages w k unknowns 0 = []"
| "poll_stages w k unknowns (Suc n) =
     (let st = stage_at w k in
      if st = Unknown then
        (if Suc unknowns \<ge> 2 then [st] else st # poll_stages w (Suc k) (Suc unknowns) n)
      else if st = Always_Confirm \<or> st = Reject_Stage then [st]
      else st # poll_stages w (Suc k) 0 n)"

definition shows_request :: "ladder_world \<Rightarrow> match_world \<Rightarrow> str \<Rightarrow> nat \<Rightarrow> bool" where
  "shows_request w mw req k = matches_live mw req (oc_pending (channel_at w k) (text_at w k))"

fun ladder :: "ladder_world \<Rightarrow> match_world \<Rightarrow> str \<Rightarrow> nat \<Rightarrow> nat \<Rightarrow> nat \<Rightarrow> bool \<Rightarrow> str \<Rightarrow> (bool \<times> str) \<times> key_press list" where
  "ladder w mw req 0 k p injected reason =
     ((False, if injected then reason else ''post-inject: dialog stage unknown; approval not confirmed''), [])"
| "ladder w mw req (Suc n) k p injected reason =
     (if stage_at w k = Unknown then ladder w mw req n (Suc k) p injected reason
      else if stage_at w k \<noteq> Permission then
        ((False, ''post-inject: dialog moved to '' @ quoted (stage_name (stage_at w k)) @ '' before inject; aborted''), [])
      else if \<not> shows_request w mw req k then ((False, SKIP_CHANGED), [])
      else if \<not> delivered w p then ((False, ''send-keys failed (herdr CLI error); enter not delivered''), [Enter k])
      else (let stages = poll_stages w (Suc k) 0 (polls_after w p); k' = k + length stages in
            case resolve_opencode_injection stages of
              (Approved_Once, why) \<Rightarrow> ((True, why), [Enter k])
            | (Not_Registered, why) \<Rightarrow>
                (let rest = ladder w mw req n (Suc k') (Suc p) True why in (fst rest, Enter k # snd rest))
            | (_, why) \<Rightarrow> ((False, why), [Enter k, Escape k'])))"

definition oc_inject_approval :: "ladder_world \<Rightarrow> match_world \<Rightarrow> int \<Rightarrow> str \<Rightarrow> (bool \<times> str) \<times> key_press list" where
  "oc_inject_approval w mw attempts req =
     ladder w mw req (nat (max 1 attempts)) 0 0 False
       ''post-inject: dialog not confirmed cleared after bounded re-poll; enter not registered''"

subsection \<open>What the ladder guarantees\<close>

fun is_enter :: "key_press \<Rightarrow> bool" where
  "is_enter (Enter k) = True"
| "is_enter (Escape k) = False"

definition confirms :: "dialog_stage \<Rightarrow> bool" where
  "confirms st \<longleftrightarrow> st = Always_Confirm \<or> st = Reject_Stage"

lemma poll_stages_are: "i < length (poll_stages w k u n) \<Longrightarrow> poll_stages w k u n ! i = stage_at w (k + i)"
proof (induction w k u n arbitrary: i rule: poll_stages.induct)
  case (2 w k u n)
  then show ?case by (cases i) (auto simp: Let_def split: if_splits)
qed simp

lemma resolve_approved:
  assumes "resolve_opencode_injection sts = (Approved_Once, why)"
  obtains m where "length sts = Suc (Suc m)" and "sts ! m = Unknown" and "sts ! Suc m = Unknown" and "\<forall>st \<in> set sts. \<not> confirms st"
proof -
  from assms have r: "2 \<le> length sts" "last sts = Unknown" "last (butlast sts) = Unknown"
      "Always_Confirm \<notin> set sts" "Reject_Stage \<notin> set sts"
    by (auto simp: resolve_opencode_injection_def split: if_splits)
  then obtain m where m: "length sts = Suc (Suc m)" by (metis add_2_eq_Suc le_Suc_ex)
  have "sts \<noteq> []" "butlast sts \<noteq> []" using m by (auto simp: butlast_conv_take)
  with r m have "sts ! Suc m = Unknown" "sts ! m = Unknown"
    by (simp_all add: last_conv_nth nth_butlast)
  with that m r show ?thesis by (auto simp: confirms_def)
qed

text \<open>A dialog that left the screen after an \<open>enter\<close>, without a confirmation screen in between.\<close>

definition cleared_after :: "ladder_world \<Rightarrow> nat \<Rightarrow> bool" where
  "cleared_after w k \<longleftrightarrow>
     (\<exists>j > k. stage_at w j = Unknown \<and> stage_at w (Suc j) = Unknown \<and> (\<forall>i. k < i \<and> i \<le> Suc j \<longrightarrow> \<not> confirms (stage_at w i)))"

lemma approved_cleared:
  assumes "resolve_opencode_injection (poll_stages w (Suc k) 0 n) = (Approved_Once, why)"
  shows "cleared_after w k"
proof -
  let ?sts = "poll_stages w (Suc k) 0 n"
  from resolve_approved [OF assms] obtain m where r: "length ?sts = Suc (Suc m)" "?sts ! m = Unknown" "?sts ! Suc m = Unknown"
    "\<forall>st \<in> set ?sts. \<not> confirms st" by blast
  have at: "?sts ! i = stage_at w (Suc k + i)" if "i < length ?sts" for i using that by (rule poll_stages_are)
  let ?j = "Suc k + m"
  have "stage_at w ?j = Unknown" "stage_at w (Suc ?j) = Unknown"
    using r at [of m] at [of "Suc m"] by simp_all
  moreover have "\<not> confirms (stage_at w i)" if "k < i" "i \<le> Suc ?j" for i
  proof -
    from that r(1) have "i - Suc k < length ?sts" "Suc k + (i - Suc k) = i" by auto
    with at [of "i - Suc k"] r(4) nth_mem [of "i - Suc k" ?sts] show ?thesis by metis
  qed
  ultimately show ?thesis unfolding cleared_after_def by (intro exI [of _ ?j]) auto
qed

definition verified_enter :: "ladder_world \<Rightarrow> match_world \<Rightarrow> str \<Rightarrow> key_press \<Rightarrow> bool" where
  "verified_enter w mw req key = (case key of Enter k \<Rightarrow> stage_at w k = Permission \<and> shows_request w mw req k | Escape k \<Rightarrow> True)"

lemma ladder_verified:
  "ladder w mw req n k p injected reason = ((ok, why), keys) \<Longrightarrow>
     length (filter is_enter keys) \<le> n \<and> list_all (verified_enter w mw req) keys
     \<and> (ok \<longrightarrow> (\<exists>i. keys \<noteq> [] \<and> last keys = Enter i \<and> cleared_after w i))"
proof (induction n arbitrary: k p injected reason ok why keys)
  case (Suc n)
  consider (unknown) "stage_at w k = Unknown" | (other) "stage_at w k \<noteq> Unknown" "stage_at w k \<noteq> Permission"
    | (changed) "stage_at w k = Permission" "\<not> shows_request w mw req k"
    | (lost) "stage_at w k = Permission" "shows_request w mw req k" "\<not> delivered w p"
    | (sent) "stage_at w k = Permission" "shows_request w mw req k" "delivered w p" by blast
  then show ?case
  proof cases
    case unknown
    with Suc show ?thesis by (fastforce simp: le_SucI)
  next
    case sent
    let ?sts = "poll_stages w (Suc k) 0 (polls_after w p)"
    obtain v r where r: "resolve_opencode_injection ?sts = (v, r)" by fastforce
    have e: "verified_enter w mw req (Enter k)" using sent by (simp add: verified_enter_def)
    show ?thesis
    proof (cases v)
      case Approved_Once
      with Suc.prems sent r approved_cleared [of w k "polls_after w p" r] e show ?thesis by (auto simp: Let_def)
    next
      case Not_Registered
      obtain x keys' where rest: "ladder w mw req n (Suc (k + length ?sts)) (Suc p) True r = (x, keys')" by fastforce
      from Suc.prems sent r rest Not_Registered have "x = (ok, why)" and k: "keys = Enter k # keys'" by (simp_all add: Let_def)
      have "length (filter is_enter keys') \<le> n \<and> list_all (verified_enter w mw req) keys'
          \<and> (ok \<longrightarrow> (\<exists>i. keys' \<noteq> [] \<and> last keys' = Enter i \<and> cleared_after w i))"
        using Suc.IH [OF rest [unfolded \<open>x = (ok, why)\<close>]] .
      with k e show ?thesis by auto
    qed (use Suc.prems sent r e in \<open>auto simp: Let_def verified_enter_def\<close>)
  qed (use Suc.prems in \<open>auto simp: verified_enter_def\<close>)
qed simp

interpretation opencode_reader: dialog_reader opencode
proof
  show "ad_pending opencode None t = ad_parse opencode t" for t by (simp add: opencode_def oc_pending_def present_def)
  show "\<exists>q. ad_parse opencode t = Some q \<and> starts_with q ''question''" if "ad_question opencode t" for t
    using that by (simp add: opencode_def oc_parse_def oc_question_is_live_def Let_def)
qed

subsection \<open>Properties\<close>


definition dialog_demo :: "str list \<Rightarrow> str" where
  "dialog_demo body = str_join [nl] ([''Permission required''] @ body @ [''Allow once''])"

definition ladder_demo :: ladder_world where
  "ladder_demo = \<lparr>text_at = (\<lambda>k. if k = 0 then dialog_demo [''$ ls -l''] else ''ready''),
     channel_at = (\<lambda>_. None), delivered = (\<lambda>_. True), polls_after = (\<lambda>_. 10)\<rparr>"


lemma agy_spoofed: "agy_parse (str_join [nl] [''Requesting permission for:'', ''ls'', ''Do you want to proceed?'', ''rm x'',
      ''Do you want to proceed?'', ''> 1. Yes'']) = Some ''ls''"
  by code_simp

lemma codex_spoofed: "codex_parse (str_join [nl] [''Would you like to run the following command?'', ''$ ls'', ''1. Yes'', ''rm x'',
      FOCUS @ '' 1. Yes'', ''Press enter to confirm or esc to cancel'']) = Some ''ls''"
  by code_simp

lemma opencode_header_spoofed: "oc_parse (dialog_demo [''$ rm x;echo Permission required'', ''$ ls'']) = Some ''ls''"
  by code_simp

lemma opencode_status_spoofed: "oc_parse (dialog_demo [''$ ls ~;rm$IFS/;:x'']) = Some ''ls''"
  by code_simp

text \<open>
  The text of a command can make every adapter report another command than the one that the
  dialog asks for: a line of the command that looks like the end of the dialog ends it, one
  that looks like its header begins it anew, and a word that looks like the status bar is
  left out.
\<close>

lemma command_text_spoofs_dialog:
  "agy_parse (str_join [nl] [''Requesting permission for:'', ''ls'', ''Do you want to proceed?'', ''rm x'',
      ''Do you want to proceed?'', ''> 1. Yes'']) = Some ''ls''
   \<and> codex_parse (str_join [nl] [''Would you like to run the following command?'', ''$ ls'', ''1. Yes'', ''rm x'',
      FOCUS @ '' 1. Yes'', ''Press enter to confirm or esc to cancel'']) = Some ''ls''
   \<and> oc_parse (dialog_demo [''$ rm x;echo Permission required'', ''$ ls'']) = Some ''ls''
   \<and> oc_parse (dialog_demo [''$ ls ~;rm$IFS/;:x'']) = Some ''ls''"
  by (intro conjI agy_spoofed codex_spoofed opencode_header_spoofed opencode_status_spoofed)

text \<open>
  While an event is on the channel, the reading that precedes a key press does not look at the
  command on the screen: whatever dialog is up passes for the approved request.
\<close>

lemma channel_answers_for_screen:
  assumes "classify_dialog_stage visible = Permission" and "norm_req_cmd req \<noteq> []"
  shows "matches_live mw req (oc_pending (Some req) visible)"
proof -
  have "norm_req_cmd [] = []" by code_simp
  with assms(2) have "present (Some req)" by (auto simp: present_def)
  with assms(1) have "oc_pending (Some req) visible = Some req" by (simp add: oc_pending_def)
  with assms(2) show ?thesis by (simp add: matches_live_def same_request_def)
qed

lemma channel_answers_for_screen_witness:
  "matches_live match_demo ''ls'' (oc_pending (Some ''ls'') (dialog_demo [''$ rm x'']))"
proof (rule channel_answers_for_screen)
  show "classify_dialog_stage (dialog_demo [''$ rm x'']) = Permission" by code_simp
  show "norm_req_cmd ''ls'' \<noteq> []" by code_simp
qed

end
