(* ===== verification/AutoAdvance.thy ===== *)
theory AutoAdvance
  imports CaptureEvaluator OpenCode
begin

text \<open>
  The coordinator for dialogs that were replaced while a request was being evaluated
  (\<open>scripts/adapters/auto_advance.py\<close>): each hop reads the live dialog, evaluates the new request
  from scratch and, when it is safe, approves it, within a budget of hops and time.  What the
  pane shows at each hop, the clock, the exceptions of the parts and the answers of the
  adapter's approval operations are functions of the number of the hop.
\<close>

datatype outcome = Not_Trampolined | Advanced_Safe | Advanced_Unsafe | Budget_Exhausted | Parse_Failed

record advance_result =
  av_outcome :: outcome
  av_request :: "str option"
  av_safe :: "bool option"
  av_reason :: str
  av_layer :: "decision_layer option"
  av_taxonomy :: "(taxonomy \<times> provenance) option"

text \<open>
  \<open>hop_text\<close> and \<open>hop_recent\<close> are the two readings of the pane, \<open>hop_channels\<close> the commands on the
  channel at these readings; the flags say that parsing or evaluation raises an exception and
  that the deadline has passed at the beginning of the hop or after the evaluation.
\<close>

record advance_world =
  hop_text :: "nat \<Rightarrow> str option"
  hop_recent :: "nat \<Rightarrow> str"
  hop_channels :: "nat \<Rightarrow> str option \<times> str option"
  parse_raises :: "nat \<Rightarrow> bool"
  audit_raises :: "nat \<Rightarrow> bool"
  late_at_start :: "nat \<Rightarrow> bool"
  late_after_audit :: "nat \<Rightarrow> bool"
  try_channel :: "nat \<Rightarrow> str \<Rightarrow> (bool \<times> str) option"
  try_keys :: "nat \<Rightarrow> str \<Rightarrow> (bool \<times> str) option"

definition failed_parse :: "str option \<Rightarrow> str \<Rightarrow> advance_result" where
  "failed_parse req reason =
     \<lparr>av_outcome = Parse_Failed, av_request = req, av_safe = Some False, av_reason = reason, av_layer = None, av_taxonomy = None\<rparr>"

definition not_trampolined :: "str option \<Rightarrow> str \<Rightarrow> advance_result" where
  "not_trampolined req reason =
     \<lparr>av_outcome = Not_Trampolined, av_request = req, av_safe = Some False, av_reason = reason, av_layer = None, av_taxonomy = None\<rparr>"

definition advanced :: "str \<Rightarrow> captured \<Rightarrow> advance_result" where
  "advanced req cap =
     (case cap of (((ok, reason, layer), tx), pv) \<Rightarrow>
        \<lparr>av_outcome = (if ok then Advanced_Safe else Advanced_Unsafe), av_request = Some req, av_safe = Some ok,
         av_reason = reason, av_layer = Some layer, av_taxonomy = Some (tx, pv)\<rparr>)"

definition hop_request :: "advance_world \<Rightarrow> match_world \<Rightarrow> agent_adapter \<Rightarrow> nat \<Rightarrow> str \<Rightarrow> str option \<times> str" where
  "hop_request w mw ad k visible =
     get_canonical_request mw ad (fst (hop_channels w k)) (snd (hop_channels w k)) visible (hop_recent w k)"

definition auto_advance_once ::
    "advance_world \<Rightarrow> match_world \<Rightarrow> agent_adapter option \<Rightarrow> (str \<Rightarrow> 's \<Rightarrow> judged_answer \<times> 's) \<Rightarrow> str option
     \<Rightarrow> str \<Rightarrow> nat \<Rightarrow> 's \<Rightarrow> advance_result \<times> 's" where
  "auto_advance_once w mw adapter audit shadow prev k s =
     (case hop_text w k of
        None \<Rightarrow> (failed_parse None ''pane read failed (fail-closed)'', s)
      | Some visible \<Rightarrow>
          (case adapter of
             None \<Rightarrow> (failed_parse None ''no adapter registered for agent kind'', s)
           | Some ad \<Rightarrow>
               if parse_raises w k then (failed_parse None ''dialog re-parse failed (fail-closed)'', s)
               else (case hop_request w mw ad k visible of
                   (None, source) \<Rightarrow> (not_trampolined None ''no pending request in live pane text'', s)
                 | (Some req, source) \<Rightarrow>
                     if same_request mw prev req
                     then (not_trampolined (Some req) ''live dialog still shows the same request; not trampolined'', s)
                     else if audit_raises w k then (failed_parse (Some req) ''evaluator exception (fail-closed)'', s)
                     else (case evaluate_capture_pair shadow mw audit AGENT (ad_parse ad visible) (Some req) source s of
                         (cap, s') \<Rightarrow> (advanced req cap, s')))))"

text \<open>Delivered, changed again, and the reason.\<close>

definition inject_safe_command :: "advance_world \<Rightarrow> bool \<Rightarrow> nat \<Rightarrow> str \<Rightarrow> bool \<times> bool \<times> str" where
  "inject_safe_command w has_adapter k req =
     (if \<not> has_adapter then (False, False, ''no adapter'')
      else (case try_channel w k req of
          None \<Rightarrow> (False, False, ''inject exception (fail-closed)'')
        | Some (approved, why) \<Rightarrow>
            if approved then (True, False, ''channel approve delivered'')
            else if why = SKIP_CHANGED then (False, True, ''dialog trampolined again before channel approve'')
            else (case try_keys w k req of
                None \<Rightarrow> (False, False, ''inject exception (fail-closed)'')
              | Some (ok, why') \<Rightarrow>
                  if ok then (True, False, ''keystroke inject delivered'')
                  else if why' = SKIP_CHANGED then (False, True, ''dialog trampolined again before keystroke inject'')
                  else (False, False, if why' = [] then ''inject failed'' else why'))))"

definition exhausted :: "str option \<Rightarrow> str \<Rightarrow> advance_result option \<Rightarrow> advance_result" where
  "exhausted req reason r =
     \<lparr>av_outcome = Budget_Exhausted, av_request = req, av_safe = Some False, av_reason = reason,
      av_layer = Option.bind r av_layer, av_taxonomy = Option.bind r av_taxonomy\<rparr>"

text \<open>
  The loop with \<open>n\<close> hops left besides the present one; the answer, the stores, and the approvals
  that were attempted, each with its hop.
\<close>

fun advance_loop ::
    "advance_world \<Rightarrow> match_world \<Rightarrow> agent_adapter option \<Rightarrow> (str \<Rightarrow> 's \<Rightarrow> judged_answer \<times> 's) \<Rightarrow> str option
     \<Rightarrow> nat \<Rightarrow> nat \<Rightarrow> str \<Rightarrow> advance_result option \<Rightarrow> 's \<Rightarrow> (advance_result \<times> 's) \<times> (nat \<times> str) list" where
  "advance_loop w mw adapter audit shadow n k prev last_safe s =
     (if late_at_start w k then
        ((exhausted (Option.bind last_safe av_request) ''auto-advance deadline exceeded; escalating (fail-closed)'' last_safe, s), [])
      else (case auto_advance_once w mw adapter audit shadow prev k s of
        (result, s') \<Rightarrow>
          if av_outcome result \<noteq> Advanced_Safe then
            ((if av_outcome result = Not_Trampolined \<and> last_safe \<noteq> None then the last_safe else result, s'), [])
          else if late_after_audit w k then
            ((exhausted (av_request result) ''auto-advance deadline exceeded during evaluation; escalating (fail-closed)'' (Some result), s'), [])
          else (case n of
              0 \<Rightarrow> ((exhausted (av_request result) ''auto-advance hop budget exhausted; escalating new dialog (fail-closed)'' (Some result), s'), [])
            | Suc m \<Rightarrow>
                (let req = the (av_request result) in
                 case inject_safe_command w (adapter \<noteq> None) k req of
                   (injected, skipped, why) \<Rightarrow>
                     if skipped \<or> injected then
                       (let rest = advance_loop w mw adapter audit shadow m (Suc k) req (if skipped then last_safe else Some result) s'
                        in (fst rest, (k, req) # snd rest))
                     else ((result\<lparr>av_outcome := Advanced_Unsafe, av_safe := Some False,
                              av_reason := ''auto-advance inject failed for new dialog: '' @ why\<rparr>, s'), [(k, req)])))))"

declare advance_loop.simps [simp del]

definition run_auto_advance ::
    "advance_world \<Rightarrow> match_world \<Rightarrow> agent_adapter option \<Rightarrow> (str \<Rightarrow> 's \<Rightarrow> judged_answer \<times> 's) \<Rightarrow> str option
     \<Rightarrow> int \<Rightarrow> str \<Rightarrow> 's \<Rightarrow> (advance_result \<times> 's) \<times> (nat \<times> str) list" where
  "run_auto_advance w mw adapter audit shadow max_hops prev s =
     advance_loop w mw adapter audit shadow (nat (max 1 max_hops) - 1) 0 prev None s"

subsection \<open>What is approved\<close>

text \<open>
  The ground of an approval: at this hop the dialog on the screen asked for the command, it is not
  the one that was approved before, and the evaluation of both representations found it safe.
\<close>

definition fresh_ground :: "advance_world \<Rightarrow> match_world \<Rightarrow> agent_adapter option \<Rightarrow> (str \<Rightarrow> 's \<Rightarrow> judged_answer \<times> 's) \<Rightarrow> nat \<Rightarrow> str \<Rightarrow> bool" where
  "fresh_ground w mw adapter audit k req \<longleftrightarrow>
     \<not> late_at_start w k \<and> \<not> late_after_audit w k
     \<and> (\<exists>ad visible source s reason layer tx t. adapter = Some ad \<and> hop_text w k = Some visible
          \<and> hop_request w mw ad k visible = (Some req, source)
          \<and> passes_pair mw audit (ad_parse ad visible) req source s ((True, reason, layer), tx) t)"

lemma once_safe:
  assumes "auto_advance_once w mw adapter audit shadow prev k s = (result, s')" and "av_outcome result = Advanced_Safe"
    and "\<not> late_at_start w k" and "\<not> late_after_audit w k"
  shows "av_request result \<noteq> None \<and> av_safe result = Some True \<and> fresh_ground w mw adapter audit k (the (av_request result))"
proof -
  from assms(1,2) obtain ad visible req source cap where a: "adapter = Some ad" "hop_text w k = Some visible"
      "hop_request w mw ad k visible = (Some req, source)"
      "evaluate_capture_pair shadow mw audit AGENT (ad_parse ad visible) (Some req) source s = (cap, s')" "result = advanced req cap"
    by (auto simp: auto_advance_once_def failed_parse_def not_trampolined_def split: option.splits prod.splits if_splits)
  obtain ok reason layer tx pv where cap: "cap = (((ok, reason, layer), tx), pv)" by (metis prod.collapse)
  from a(5) cap assms(2) have r: "ok" "av_request result = Some req" "av_safe result = Some True"
    by (simp_all add: advanced_def split: if_splits)
  from pair_cases [OF a(4) [unfolded cap]] r(1)
  have "passes_pair mw audit (ad_parse ad visible) req source s ((True, reason, layer), tx) s'" by simp
  with a(1-3) assms(3,4) have "fresh_ground w mw adapter audit k req" unfolding fresh_ground_def by blast
  with r show ?thesis by simp
qed

lemma advance_loop_grounded:
  assumes "advance_loop w mw adapter audit shadow n k prev last_safe s = ((result, t), trail)"
  shows "length trail \<le> n \<and> list_all (\<lambda>(i, req). fresh_ground w mw adapter audit i req) trail
    \<and> map fst trail = [k ..< k + length trail]
    \<and> (av_outcome result = Advanced_Safe \<longrightarrow> last_safe = Some result \<or> av_request result \<in> Some ` snd ` set trail)"
  using assms
proof (induction n arbitrary: k prev last_safe s trail)
  case 0
  then show ?case
    by (auto simp: advance_loop.simps [of _ _ _ _ _ 0] exhausted_def split: if_splits prod.splits)
next
  case (Suc m)
  show ?case
  proof (cases "late_at_start w k")
    case True
    with Suc.prems show ?thesis by (auto simp: advance_loop.simps [of _ _ _ _ _ "Suc m"] exhausted_def)
  next
    case False
    obtain r s' where o: "auto_advance_once w mw adapter audit shadow prev k s = (r, s')" by (metis prod.collapse)
    show ?thesis
    proof (cases "av_outcome r = Advanced_Safe \<and> \<not> late_after_audit w k")
      case no: False
      with Suc.prems False o show ?thesis
        by (auto simp: advance_loop.simps [of _ _ _ _ _ "Suc m"] exhausted_def split: if_splits)
    next
      case yes: True
      with once_safe [OF o] False have g: "av_request r \<noteq> None" "fresh_ground w mw adapter audit k (the (av_request r))" by auto
      obtain inj sk why where i: "inject_safe_command w (adapter \<noteq> None) k (the (av_request r)) = (inj, sk, why)" by (metis prod.collapse)
      show ?thesis
      proof (cases "sk \<or> inj")
        case False
        with Suc.prems \<open>\<not> late_at_start w k\<close> o yes i g show ?thesis
          by (auto simp: advance_loop.simps [of _ _ _ _ _ "Suc m"])
      next
        case True
        obtain x trail' where rest: "advance_loop w mw adapter audit shadow m (Suc k) (the (av_request r)) (if sk then last_safe else Some r) s' = (x, trail')"
          by (metis prod.collapse)
        with Suc.prems \<open>\<not> late_at_start w k\<close> o yes i True have t: "x = (result, t)" "trail = (k, the (av_request r)) # trail'"
          by (auto simp: advance_loop.simps [of _ _ _ _ _ "Suc m"] Let_def)
        from Suc.IH [OF rest [unfolded t(1)]] have ih: "length trail' \<le> m"
          "list_all (\<lambda>(i, req). fresh_ground w mw adapter audit i req) trail'" "map fst trail' = [Suc k ..< Suc k + length trail']"
          "av_outcome result = Advanced_Safe \<longrightarrow> (if sk then last_safe else Some r) = Some result \<or> av_request result \<in> Some ` snd ` set trail'"
          by blast+
        have "map fst trail = [k ..< k + length trail]" using ih(3) t(2) by (simp add: upt_rec [of k] del: upt_Suc)
        moreover have "length trail \<le> Suc m" "list_all (\<lambda>(i, req). fresh_ground w mw adapter audit i req) trail"
          using ih(1,2) t(2) g by simp_all
        moreover have "av_outcome result = Advanced_Safe \<longrightarrow> last_safe = Some result \<or> av_request result \<in> Some ` snd ` set trail"
          using ih(4) t(2) g(1) by (cases sk) (auto simp: image_iff)
        ultimately show ?thesis by blast
      qed
    qed
  qed
qed

text \<open>
  C27: The coordinator stays within its budget and never inherits an approval: it approves fewer
  dialogs than it has hops, at most one at each hop, none after the deadline, and each one only
  after the dialog that the pane shows at this hop was evaluated from scratch and found safe;
  when it reports success, the command that it names is one of those.
\<close>

theorem auto_advance_is_bounded:
  assumes "run_auto_advance w mw adapter audit shadow max_hops prev s = ((result, t), trail)"
  shows "length trail < nat (max 1 max_hops) \<and> distinct (map fst trail)
    \<and> (\<forall>(k, req) \<in> set trail. fresh_ground w mw adapter audit k req)
    \<and> (av_outcome result = Advanced_Safe \<longrightarrow> av_request result \<in> Some ` snd ` set trail)"
proof -
  note g = advance_loop_grounded [OF assms [unfolded run_auto_advance_def]]
  have "distinct (map fst trail)" using g by simp
  then show ?thesis using g by (auto simp: list_all_iff)
qed

text \<open>A pane that asks for \<open>echo\<close> after the approved command and then for nothing.\<close>

definition advance_demo :: advance_world where
  "advance_demo = \<lparr>hop_text = (\<lambda>k. Some (if k = 0 then str_join [nl] [''Requesting permission for:'', ''echo b'', ''Do you want to proceed?''] else ''ready'')),
     hop_recent = (\<lambda>_. []), hop_channels = (\<lambda>_. (None, None)), parse_raises = (\<lambda>_. False), audit_raises = (\<lambda>_. False),
     late_at_start = (\<lambda>_. False), late_after_audit = (\<lambda>_. False), try_channel = (\<lambda>_ _. Some (False, ''not supported'')),
     try_keys = (\<lambda>_ _. Some (True, ''approved''))\<rparr>"

lemma advance_demo_run:
  "av_outcome (fst (fst (run_auto_advance advance_demo match_demo (Some agy) echo_audit None 3 ''make x'' 0))) = Advanced_Safe"
  by code_simp

theorem auto_advance_is_bounded_witness:
  "\<exists>k req. fresh_ground advance_demo match_demo (Some agy) echo_audit k req"
proof -
  obtain result t trail where e: "run_auto_advance advance_demo match_demo (Some agy) echo_audit None 3 ''make x'' 0 = ((result, t), trail)"
    by (metis prod.collapse)
  with advance_demo_run have "av_outcome result = Advanced_Safe" by simp
  with auto_advance_is_bounded [OF e] show ?thesis by fastforce
qed

end
