(* ===== verification/PaneIdentity.thy ===== *)
theory PaneIdentity
  imports OpenCode
begin

text \<open>
  Which agent a pane belongs to: the registry of adapters, the workaround for an AGY process
  that shows up as a shell (\<open>scripts/adapters/shell_wrapper_identity.py\<close>) and the resolution in
  the watcher (\<open>resolve_watcher_agent_kind\<close> of \<open>scripts/cmd/schengen_watcher.py\<close>).  The metadata
  of a pane is a JSON value.
\<close>

subsection \<open>The registry\<close>

definition registry :: "agent_adapter list" where
  "registry = [agy, codex, opencode]"

definition target_agent_kinds :: "str list" where
  "target_agent_kinds = map ad_kind registry"

definition get_adapter :: "str \<Rightarrow> agent_adapter option" where
  "get_adapter kind = find (\<lambda>ad. ad_kind ad = kind) registry"

subsection \<open>The shell wrapper\<close>

definition TRUSTED_AGY_SESSION_SOURCE :: str where
  "TRUSTED_AGY_SESSION_SOURCE = ''herdr:antigravity_cli''"

definition PROCESS_INFO_MAX_CHARS :: nat where
  "PROCESS_INFO_MAX_CHARS = 65536"

definition is_agy_shell_wrapper_candidate :: "json \<Rightarrow> bool" where
  "is_agy_shell_wrapper_candidate info \<longleftrightarrow>
     is_obj info \<and> jget ''agent'' info \<in> {JNull, JStr [], JStr ''shell'', JStr ''unknown''}
     \<and> jget ''display_agent'' info = JStr ''agy''
     \<and> (let session = jget ''agent_session'' info in
          is_obj session \<and> jget ''agent'' session = JStr ''agy'' \<and> jget ''source'' session = JStr TRUSTED_AGY_SESSION_SOURCE)"

definition num_chars :: "str \<Rightarrow> nat" where
  "num_chars s = length (filter begins_char s)"

text \<open>\<open>out\<close> is the output of \<open>herdr pane process-info\<close>, if there is any.\<close>

definition get_pane_process_info :: "json \<Rightarrow> str option \<Rightarrow> json option" where
  "get_pane_process_info pane_id out =
     (case pane_id of
        JStr p \<Rightarrow>
          if p = [] \<or> CHR 0x00 \<in> set p \<or> \<not> present out \<or> PROCESS_INFO_MAX_CHARS < num_chars (the out) then None
          else (let result = (case json_loads (the out) of Some d \<Rightarrow> jget ''result'' d | None \<Rightarrow> JNull);
                    info = jget ''process_info'' result
                in if is_obj result \<and> jget ''type'' result = JStr ''pane_process_info'' \<and> is_obj info then Some info else None)
      | _ \<Rightarrow> None)"

fun is_text_or_absent :: "json \<Rightarrow> bool" where
  "is_text_or_absent JNull = True"
| "is_text_or_absent (JStr s) = True"
| "is_text_or_absent v = False"

fun is_argv :: "json \<Rightarrow> bool" where
  "is_argv JNull = True"
| "is_argv (JArr []) = True"
| "is_argv (JArr (JStr s # xs)) = True"
| "is_argv v = False"

definition well_formed_process :: "json \<Rightarrow> bool" where
  "well_formed_process p \<longleftrightarrow>
     is_obj p \<and> is_text_or_absent (jget ''name'' p) \<and> is_text_or_absent (jget ''argv0'' p) \<and> is_argv (jget ''argv'' p)"

definition executables_of :: "json \<Rightarrow> str list" where
  "executables_of p =
     (if jget ''name'' p \<noteq> JStr ''agy'' then []
      else (case jget ''argv0'' p of JStr s \<Rightarrow> [s] | _ \<Rightarrow> []) @ (case jget ''argv'' p of JArr (JStr s # _) \<Rightarrow> [s] | _ \<Rightarrow> []))"

definition basename :: "str \<Rightarrow> str" where
  "basename p = rev (takeWhile (\<lambda>c. c \<noteq> CHR ''/'') (rev p))"

definition is_agy_executable :: "str \<Rightarrow> bool" where
  "is_agy_executable p \<longleftrightarrow> p \<noteq> [] \<and> CHR 0x00 \<notin> set p \<and> basename p = ''agy''"

definition foreground_has_agy_executable :: "json option \<Rightarrow> bool" where
  "foreground_has_agy_executable info =
     (case Option.bind info (\<lambda>i. Some (jget ''foreground_processes'' i)) of
        Some (JArr ps) \<Rightarrow> ps \<noteq> [] \<and> list_all well_formed_process ps \<and> list_ex is_agy_executable (concat (map executables_of ps))
      | _ \<Rightarrow> False)"

definition resolve_agent_kind :: "json \<Rightarrow> bool \<Rightarrow> json option \<Rightarrow> str option" where
  "resolve_agent_kind info live process_info =
     (if \<not> live \<or> \<not> is_agy_shell_wrapper_candidate info then None
      else if foreground_has_agy_executable process_info then Some ''agy'' else None)"

subsection \<open>The watcher\<close>

definition agent_matches :: "json \<Rightarrow> str list \<Rightarrow> bool" where
  "agent_matches kind wanted = (case kind of JStr k \<Rightarrow> k \<in> set wanted | _ \<Rightarrow> False)"

definition may_be_shell_wrapper :: "json \<Rightarrow> bool" where
  "may_be_shell_wrapper info \<longleftrightarrow> is_obj info \<and> jget ''agent'' info \<in> {JNull, JStr [], JStr ''shell'', JStr ''unknown''}"

text \<open>
  \<open>helper\<close>: the workaround is installed; \<open>query\<close> answers the question for the processes of the
  pane, which is asked last.
\<close>

definition resolve_watcher_agent_kind ::
    "bool \<Rightarrow> (str \<Rightarrow> str option) \<Rightarrow> json \<Rightarrow> str list \<Rightarrow> str option \<Rightarrow> str option" where
  "resolve_watcher_agent_kind helper query info wanted visible =
     (if \<not> is_obj info then None
      else (let raw = jget ''agent'' info in
        if (case raw of JStr k \<Rightarrow> k \<in> set target_agent_kinds | _ \<Rightarrow> False)
        then (if agent_matches raw wanted then (case raw of JStr k \<Rightarrow> Some k | _ \<Rightarrow> None) else None)
        else if \<not> may_be_shell_wrapper info \<or> \<not> agent_matches (JStr ''agy'') wanted then None
        else if \<not> helper then None
        else if \<not> is_agy_shell_wrapper_candidate info then None
        else (case visible of
            None \<Rightarrow> None
          | Some t \<Rightarrow>
              if present (agy_parse t) \<and> agy_dialog_is_live t \<and> \<not> agy_question_is_live t
              then resolve_agent_kind info True
                     (get_pane_process_info (jget ''pane_id'' info) (case jget ''pane_id'' info of JStr p \<Rightarrow> query p | _ \<Rightarrow> None))
              else None)))"

text \<open>
  The panes that wait for an approval: their status says so, or their text shows a marker of
  the adapter.  \<open>long_text\<close> and \<open>short_text\<close> are the readings of 80 and of 50 lines.
\<close>

definition waits_for_approval ::
    "bool \<Rightarrow> (str \<Rightarrow> str option) \<Rightarrow> (str \<Rightarrow> str) \<Rightarrow> (str \<Rightarrow> str) \<Rightarrow> str list \<Rightarrow> json \<Rightarrow> bool" where
  "waits_for_approval helper query long_text short_text wanted pane =
     (let pane_id = (case jget ''pane_id'' pane of JStr p \<Rightarrow> p | _ \<Rightarrow> []);
          direct = resolve_watcher_agent_kind helper query pane wanted None;
          visible = (if direct = None \<and> may_be_shell_wrapper pane then Some (long_text pane_id) else None);
          kind = (if visible \<noteq> None then resolve_watcher_agent_kind helper query pane wanted visible else direct)
      in case kind of
           None \<Rightarrow> False
         | Some k \<Rightarrow>
             jget ''agent_status'' pane = JStr ''blocked''
             \<or> (case get_adapter k of None \<Rightarrow> False
                | Some ad \<Rightarrow> (let t = (case visible of Some v \<Rightarrow> v | None \<Rightarrow> short_text pane_id)
                             in list_ex (\<lambda>m. contains m t) (ad_markers ad))))"

definition find_blocked_panes ::
    "bool \<Rightarrow> (str \<Rightarrow> str option) \<Rightarrow> (str \<Rightarrow> str) \<Rightarrow> (str \<Rightarrow> str) \<Rightarrow> str list \<Rightarrow> str list \<Rightarrow> json list \<Rightarrow> str list" where
  "find_blocked_panes helper query long_text short_text wanted excluded panes =
     remdups (map (\<lambda>p. case jget ''pane_id'' p of JStr i \<Rightarrow> i | _ \<Rightarrow> [])
       (filter (\<lambda>p. (case jget ''pane_id'' p of JStr i \<Rightarrow> i | _ \<Rightarrow> []) \<notin> set excluded
                   \<and> waits_for_approval helper query long_text short_text wanted p) panes))"

subsection \<open>Properties\<close>

lemma get_adapter_registered: "get_adapter k = Some ad \<Longrightarrow> ad \<in> set registry \<and> ad_kind ad = k"
  by (auto simp: get_adapter_def find_Some_iff)

text \<open>
  C26: Only registered agents are served.  The kind of a pane is one that the caller asked for;
  unless the metadata names it, it is \<open>agy\<close>, the session metadata is the trusted one, the pane
  shows a live permission dialog that is not a question, and a foreground process named
  \<open>agy\<close> runs an executable of this name.
\<close>

theorem pane_identity_is_corroborated:
  assumes "resolve_watcher_agent_kind helper query info wanted visible = Some k"
  shows "k \<in> set wanted \<and> k \<in> set target_agent_kinds
    \<and> (jget ''agent'' info = JStr k
       \<or> k = ''agy'' \<and> jget ''source'' (jget ''agent_session'' info) = JStr TRUSTED_AGY_SESSION_SOURCE
         \<and> (\<exists>t. visible = Some t \<and> agy_dialog_is_live t \<and> \<not> agy_question_is_live t)
         \<and> (\<exists>p out pi ps proc path. jget ''pane_id'' info = JStr p \<and> query p = Some out
              \<and> get_pane_process_info (JStr p) (Some out) = Some pi \<and> jget ''foreground_processes'' pi = JArr ps
              \<and> proc \<in> set ps \<and> jget ''name'' proc = JStr ''agy'' \<and> path \<in> set (executables_of proc) \<and> basename path = ''agy''))"
proof (cases "\<exists>r. jget ''agent'' info = JStr r \<and> r \<in> set target_agent_kinds")
  case True
  with assms show ?thesis by (auto simp: resolve_watcher_agent_kind_def Let_def agent_matches_def split: if_splits)
next
  case False
  with assms obtain t pi where r: "visible = Some t" "agy_dialog_is_live t" "\<not> agy_question_is_live t" "''agy'' \<in> set wanted"
      "is_agy_shell_wrapper_candidate info" "resolve_agent_kind info True pi = Some k"
      "pi = get_pane_process_info (jget ''pane_id'' info) (case jget ''pane_id'' info of JStr p \<Rightarrow> query p | _ \<Rightarrow> None)"
    by (auto simp: resolve_watcher_agent_kind_def Let_def agent_matches_def split: if_splits option.splits json.splits)
  then have k: "k = ''agy''" "foreground_has_agy_executable pi" by (auto simp: resolve_agent_kind_def split: if_splits)
  then obtain info' ps where p: "pi = Some info'" "jget ''foreground_processes'' info' = JArr ps"
      "list_ex is_agy_executable (concat (map executables_of ps))"
    by (auto simp: foreground_has_agy_executable_def split: option.splits json.splits Option.bind_splits)
  then obtain proc path where e: "proc \<in> set ps" "path \<in> set (executables_of proc)" "basename path = ''agy''"
    by (auto simp: list_ex_iff is_agy_executable_def)
  then have n: "jget ''name'' proc = JStr ''agy''" by (auto simp: executables_of_def split: if_splits)
  from r(7) p(1) obtain i out where i: "jget ''pane_id'' info = JStr i" "query i = Some out"
    by (auto simp: get_pane_process_info_def present_def split: json.splits if_splits)
  have "''agy'' \<in> set target_agent_kinds" by code_simp
  moreover have "jget ''source'' (jget ''agent_session'' info) = JStr TRUSTED_AGY_SESSION_SOURCE"
    using r(5) by (simp add: is_agy_shell_wrapper_candidate_def Let_def)
  moreover have "\<exists>p out pi ps proc path. jget ''pane_id'' info = JStr p \<and> query p = Some out
      \<and> get_pane_process_info (JStr p) (Some out) = Some pi \<and> jget ''foreground_processes'' pi = JArr ps
      \<and> proc \<in> set ps \<and> jget ''name'' proc = JStr ''agy'' \<and> path \<in> set (executables_of proc) \<and> basename path = ''agy''"
    by (intro exI [of _ i] exI [of _ out] exI [of _ info'] exI [of _ ps] exI [of _ proc] exI [of _ path]) (use p e n i r(7) in simp)
  ultimately show ?thesis using r(1-4) k(1) by blast
qed

definition wrapper_info_demo :: json where
  "wrapper_info_demo = JObj [(''pane_id'', JStr ''p1''), (''agent'', JStr ''shell''), (''display_agent'', JStr ''agy''),
     (''agent_session'', JObj [(''agent'', JStr ''agy''), (''source'', JStr TRUSTED_AGY_SESSION_SOURCE)])]"

definition process_reply_demo :: str where
  \<open>process_reply_demo = ''{"result":{"type":"pane_process_info","process_info":{"foreground_processes":[{"name":"agy","argv0":"/opt/agy"}]}}}''\<close>

definition agy_dialog_demo :: str where
  "agy_dialog_demo = str_join [nl] [''Requesting permission for:'', ''ls'', ''Do you want to proceed?'']"

lemma target_kinds: "target_agent_kinds = [''agy'', ''codex'', ''opencode'']"
  by code_simp

lemma wrapper_demo_dialog:
  "agy_parse agy_dialog_demo = Some ''ls''" "agy_dialog_is_live agy_dialog_demo" "\<not> agy_question_is_live agy_dialog_demo"
  by code_simp+

definition process_info_demo :: json where
  "process_info_demo = JObj [(''foreground_processes'', JArr [JObj [(''name'', JStr ''agy''), (''argv0'', JStr ''/opt/agy'')]])]"

lemma process_reply_parsed:
  "json_loads process_reply_demo
     = Some (JObj [(''result'', JObj [(''type'', JStr ''pane_process_info''), (''process_info'', process_info_demo)])])"
  by code_simp

lemma process_reply_short: "\<not> PROCESS_INFO_MAX_CHARS < num_chars process_reply_demo" "process_reply_demo \<noteq> []"
proof -
  have "length process_reply_demo = 115" by (simp add: process_reply_demo_def)
  then have "num_chars process_reply_demo \<le> 115" using length_filter_le [of begins_char process_reply_demo] by (simp add: num_chars_def)
  then show "\<not> PROCESS_INFO_MAX_CHARS < num_chars process_reply_demo" by (simp add: PROCESS_INFO_MAX_CHARS_def)
  show "process_reply_demo \<noteq> []" by (simp add: process_reply_demo_def)
qed

lemma wrapper_demo_process:
  "resolve_agent_kind wrapper_info_demo True (get_pane_process_info (JStr ''p1'') (Some process_reply_demo)) = Some ''agy''"
proof -
  have "foreground_has_agy_executable (Some process_info_demo)" "is_agy_shell_wrapper_candidate wrapper_info_demo"
    "is_obj process_info_demo" by code_simp+
  moreover have "get_pane_process_info (JStr ''p1'') (Some process_reply_demo) = Some process_info_demo"
    using \<open>is_obj process_info_demo\<close> by (simp add: get_pane_process_info_def process_reply_parsed process_reply_short present_def)
  ultimately show ?thesis by (simp add: resolve_agent_kind_def)
qed

lemma wrapper_demo:
  "resolve_watcher_agent_kind True (\<lambda>_. Some process_reply_demo) wrapper_info_demo [''agy''] (Some agy_dialog_demo) = Some ''agy''"
proof -
  have info: "is_obj wrapper_info_demo" "jget ''agent'' wrapper_info_demo = JStr ''shell''" "jget ''pane_id'' wrapper_info_demo = JStr ''p1''"
    "is_agy_shell_wrapper_candidate wrapper_info_demo" "may_be_shell_wrapper wrapper_info_demo" by code_simp+
  then show ?thesis
    by (simp add: resolve_watcher_agent_kind_def target_kinds agent_matches_def wrapper_demo_dialog wrapper_demo_process present_def)
qed

theorem pane_identity_is_corroborated_witness:
  "''agy'' \<in> set target_agent_kinds
    \<and> (jget ''agent'' wrapper_info_demo = JStr ''agy'' \<or> (\<exists>t. Some agy_dialog_demo = Some t \<and> agy_dialog_is_live t))"
  using pane_identity_is_corroborated [OF wrapper_demo] by blast

end
