(* ===== verification/Watcher.thy ===== *)
theory Watcher
  imports CaptureEvaluator PaneIdentity
begin

text \<open>
  The watcher (\<open>scripts/cmd/schengen_watcher.py\<close>): who owns the request of a pane while it is
  evaluated and reviewed (\<open>InspectorCoordinator\<close>), what happens to a finished evaluation
  (\<open>drain_completed_inspections\<close>), the publication of one request at a time for review, and one
  poll of a pane in the main loop with its debounced eviction of answered dialogs.  What the
  panes show at each look, the clock and the answers of the adapters are parameters.
\<close>

subsection \<open>The coordinator\<close>

record watch_request =
  wr_cmd :: str
  wr_seq :: json
  wr_status :: str
  wr_info :: json
  wr_text :: str

text \<open>
  What the closure of an evaluation captures, and a future that is running, or done with a
  result (on the left the text of an exception).
\<close>

record job =
  jb_raw :: "str option"
  jb_request :: str
  jb_source :: str
  jb_cwd :: str
  jb_kind :: str
  jb_truncated :: bool

datatype future = Running | Done "str + evaluation"

record human_request =
  hr_pane :: str
  hr_request :: watch_request
  hr_live_info :: json
  hr_reason :: str
  hr_layer :: decision_layer
  hr_taxonomy :: "(taxonomy \<times> provenance option) option"

text \<open>The dictionaries keep the order of insertion; a trace is what telemetry noted.\<close>

record inspector =
  in_flight :: "(str \<times> (watch_request \<times> job \<times> future)) list"
  owned :: "(str \<times> (watch_request \<times> str)) list"
  human_queue :: "human_request list"
  active_human :: "(str \<times> str) option"
  completed_traces :: "(str \<times> str) list"
  queued_traces :: "(str \<times> str) list"

definition no_inspections :: inspector where
  "no_inspections = \<lparr>in_flight = [], owned = [], human_queue = [], active_human = None, completed_traces = [], queued_traces = []\<rparr>"

text \<open>\<open>accepted\<close>: the executor takes the job; otherwise the exception is passed on (\<open>None\<close>).\<close>

definition submit :: "bool \<Rightarrow> str \<Rightarrow> watch_request \<Rightarrow> job \<Rightarrow> inspector \<Rightarrow> (bool \<times> inspector) option \<times> inspector" where
  "submit accepted pane r j i =
     (if map_of (owned i) pane \<noteq> None then (Some (False, i), i)
      else if \<not> accepted then
        (None, i\<lparr>in_flight := AList.delete pane (in_flight i), owned := AList.delete pane (owned i)\<rparr>)
      else (let i' = i\<lparr>owned := AList.update pane (r, ''in_flight'') (owned i),
                       in_flight := AList.update pane (r, j, Running) (in_flight i)\<rparr> in (Some (True, i'), i')))"

text \<open>A worker finishes; the completed inspections, in the order of the dictionary.\<close>

definition finish :: "str \<Rightarrow> str + evaluation \<Rightarrow> inspector \<Rightarrow> inspector" where
  "finish pane res i =
     (case map_of (in_flight i) pane of
        Some (r, j, Running) \<Rightarrow> i\<lparr>in_flight := AList.update pane (r, j, Done res) (in_flight i)\<rparr>
      | _ \<Rightarrow> i)"

definition completed_now :: "inspector \<Rightarrow> (str \<times> watch_request \<times> (str + evaluation)) list" where
  "completed_now i =
     concat (map (\<lambda>(p, r, j, f). case f of Done res \<Rightarrow> [(p, r, res)] | Running \<Rightarrow> []) (in_flight i))"

definition take_completed :: "str \<Rightarrow> str \<Rightarrow> inspector \<Rightarrow> inspector" where
  "take_completed trace pane i =
     i\<lparr>in_flight := AList.delete pane (in_flight i), completed_traces := AList.update pane trace (completed_traces i)\<rparr>"

text \<open>An exception of the evaluation is a refusal without a taxonomy.\<close>

definition failed_closed :: "str \<Rightarrow> answer" where
  "failed_closed exc = (False, ''Inspector failed closed: '' @ exc, SHELL_CRITICAL)"

definition pop_completed_trace :: "str \<Rightarrow> inspector \<Rightarrow> str \<times> inspector" where
  "pop_completed_trace pane i =
     ((case map_of (completed_traces i) pane of Some t \<Rightarrow> t | None \<Rightarrow> []), i\<lparr>completed_traces := AList.delete pane (completed_traces i)\<rparr>)"

definition queue_trace :: "str \<Rightarrow> str \<Rightarrow> inspector \<Rightarrow> inspector" where
  "queue_trace pane t i = (if t \<noteq> [] then i\<lparr>queued_traces := AList.update pane t (queued_traces i)\<rparr> else i)"

definition pop_queued_trace :: "str \<Rightarrow> inspector \<Rightarrow> str \<times> inspector" where
  "pop_queued_trace pane i =
     ((case map_of (queued_traces i) pane of Some t \<Rightarrow> t | None \<Rightarrow> []), i\<lparr>queued_traces := AList.delete pane (queued_traces i)\<rparr>)"

definition set_state :: "str \<Rightarrow> watch_request \<Rightarrow> str \<Rightarrow> inspector \<Rightarrow> inspector" where
  "set_state pane r st i =
     (case map_of (owned i) pane of
        Some (r', _) \<Rightarrow> if r' = r then i\<lparr>owned := AList.update pane (r, st) (owned i)\<rparr> else i
      | None \<Rightarrow> i)"

definition release :: "str \<Rightarrow> watch_request option \<Rightarrow> inspector \<Rightarrow> inspector" where
  "release pane r i =
     (case map_of (owned i) pane of
        Some (r', _) \<Rightarrow>
          if r = None \<or> r = Some r' then
            i\<lparr>owned := AList.delete pane (owned i), completed_traces := AList.delete pane (completed_traces i),
              queued_traces := AList.delete pane (queued_traces i)\<rparr>
          else i
      | None \<Rightarrow> i)"

definition evict_active :: "(str \<Rightarrow> str \<Rightarrow> bool) \<Rightarrow> inspector \<Rightarrow> (str \<times> str) option \<times> inspector" where
  "evict_active alive i =
     (case active_human i of
        Some (p, c) \<Rightarrow> if alive p c then (None, i) else (Some (p, c), (release p None i)\<lparr>active_human := None\<rparr>)
      | None \<Rightarrow> (None, i))"

definition evict_stale_human_requests :: "(str \<Rightarrow> str \<Rightarrow> bool) \<Rightarrow> inspector \<Rightarrow> (str \<times> str) option \<times> inspector" where
  "evict_stale_human_requests alive i =
     (case evict_active alive i of
        (cancelled, i1) \<Rightarrow>
          (let live = (\<lambda>h. alive (hr_pane h) (wr_cmd (hr_request h)));
               i2 = fold (\<lambda>h. if live h then id else release (hr_pane h) None) (human_queue i1) i1
           in (cancelled, i2\<lparr>human_queue := filter live (human_queue i1)\<rparr>)))"

subsection \<open>Dialogs that were answered in the pane\<close>

text \<open>What the watcher remembers of the last prompt of a pane.\<close>

record prompt =
  pr_cmd :: str
  pr_seq :: json
  pr_status :: str
  pr_safe :: bool
  pr_alert :: int

definition seq_of :: "json \<Rightarrow> json" where
  "seq_of info =
     (case info of JObj ms \<Rightarrow> (case map_of ms ''state_change_seq'' of Some v \<Rightarrow> v | None \<Rightarrow> JInt 0) | _ \<Rightarrow> JInt 0)"

definition status_of :: "json \<Rightarrow> str" where
  "status_of info = (case jget ''agent_status'' info of JStr s \<Rightarrow> s | _ \<Rightarrow> [])"

definition NON_BLOCKED_STATUSES :: "str list" where
  "NON_BLOCKED_STATUSES = [''working'', ''idle'', ''done'']"

definition norm_agent_status :: "str \<Rightarrow> str" where
  "norm_agent_status st = str_lower (strip st)"

definition GONE_UNSURE :: str where
  "GONE_UNSURE = ''state changed, dialog not live''"

definition should_evict_pane_direct ::
    "prompt option \<Rightarrow> json \<Rightarrow> str \<Rightarrow> str option \<Rightarrow> agent_adapter option \<Rightarrow> bool \<times> str" where
  "should_evict_pane_direct cached info t req ad =
     (case cached of
        None \<Rightarrow> (False, ''no unsafe escalation'')
      | Some c \<Rightarrow>
          if pr_safe c then (False, ''no unsafe escalation'')
          else (case ad of
              None \<Rightarrow> (False, ''no adapter'')
            | Some a \<Rightarrow>
                if present req \<and> pr_cmd c \<noteq> [] \<and> req \<noteq> Some (pr_cmd c) then (False, ''command changed'')
                else if \<not> ad_live a t \<and> \<not> present req then (True, ''dialog gone'')
                else if norm_agent_status (pr_status c) = ''blocked'' \<and> norm_agent_status (status_of info) \<in> set NON_BLOCKED_STATUSES
                  \<and> \<not> ad_live a t then (True, ''agent left blocked'')
                else if seq_of info \<noteq> pr_seq c \<and> \<not> ad_live a t then (True, GONE_UNSURE)
                else (False, ''still live'')))"

type_synonym streaks = "(str \<times> nat) list"

definition streak :: "streaks \<Rightarrow> str \<Rightarrow> nat" where
  "streak c pane = (case map_of c pane of Some n \<Rightarrow> n | None \<Rightarrow> 0)"

definition at_least_once :: "int \<Rightarrow> nat" where
  "at_least_once n = nat (max 1 n)"

definition pane_direct_maybe_evict ::
    "int \<Rightarrow> str \<Rightarrow> prompt option \<Rightarrow> json \<Rightarrow> str \<Rightarrow> str option \<Rightarrow> agent_adapter option \<Rightarrow> streaks \<Rightarrow> (bool \<times> str) \<times> streaks" where
  "pane_direct_maybe_evict polls pane cached info t req ad c =
     (case should_evict_pane_direct cached info t req ad of
        (gone, reason) \<Rightarrow>
          if \<not> gone then ((False, reason), AList.delete pane c)
          else if reason = GONE_UNSURE \<and> Suc (streak c pane) < at_least_once polls
          then ((False, ''debounced (not-live poll '' @ show_nat (Suc (streak c pane)) @ ''/'' @ show_int polls @ '')''),
                AList.update pane (Suc (streak c pane)) c)
          else ((True, reason), AList.delete pane c))"

definition should_evict_stale_escalation :: "prompt option \<Rightarrow> str \<Rightarrow> bool" where
  "should_evict_stale_escalation cached st =
     (case cached of
        None \<Rightarrow> False
      | Some c \<Rightarrow> \<not> pr_safe c \<and> norm_agent_status (pr_status c) = ''blocked'' \<and> norm_agent_status st \<in> set NON_BLOCKED_STATUSES)"

definition resolve_defaults :: "str \<Rightarrow> resolve_args" where
  "resolve_defaults pane = \<lparr>rs_pane = pane, rs_hash = [], rs_id = 0, rs_status = ''RESOLVED'', rs_approval = False,
     rs_approver = None, rs_resolution = None\<rparr>"

definition resolved_in_pane :: "str \<Rightarrow> str \<Rightarrow> resolve_args" where
  "resolved_in_pane pane resolution = (resolve_defaults pane)\<lparr>rs_resolution := Some resolution, rs_approver := Some ''pane-direct''\<rparr>"

definition resolve_cleared_dialog ::
    "'w judge_world_scheme \<Rightarrow> int \<Rightarrow> str \<Rightarrow> prompt option \<Rightarrow> 'a guard_state_scheme \<Rightarrow> 'a guard_state_scheme" where
  "resolve_cleared_dialog w now pane cached s =
     (case cached of
        None \<Rightarrow> s
      | Some c \<Rightarrow> resolve_escalation w now
          (if starts_with (pr_cmd c) ''question'' then resolved_in_pane pane ''ANSWERED''
           else if \<not> pr_safe c then resolved_in_pane pane ''APPROVED''
           else (resolve_defaults pane)\<lparr>rs_approver := Some ''other''\<rparr>) s)"

text \<open>
  The sweep over the queued questions: \<open>info\<close> and \<open>shown\<close> are what a pane reports and shows
  (\<open>JNull\<close>, \<open>None\<close>: unknown).  The first component says whether the question is resolved now.
\<close>

definition question_gone :: "(str \<Rightarrow> json) \<Rightarrow> (str \<Rightarrow> str option) \<Rightarrow> str \<Rightarrow> bool option" where
  "question_gone info shown pane =
     (if \<not> truthy (info pane) then None
      else if status_of (info pane) = ''blocked'' then Some False
      else (case get_adapter (case jget ''agent'' (info pane) of JStr k \<Rightarrow> k | _ \<Rightarrow> []) of
          None \<Rightarrow> None
        | Some ad \<Rightarrow> map_option (\<lambda>t. \<not> ad_question ad t) (shown pane)))"

definition question_poll :: "int \<Rightarrow> str \<Rightarrow> bool option \<Rightarrow> streaks \<Rightarrow> bool \<times> streaks" where
  "question_poll polls pane gone c =
     (case gone of
        None \<Rightarrow> (False, c)
      | Some False \<Rightarrow> (False, AList.delete pane c)
      | Some True \<Rightarrow>
          if at_least_once polls \<le> Suc (streak c pane) then (True, AList.delete pane c)
          else (False, AList.update pane (Suc (streak c pane)) c))"

definition sweep_one ::
    "'w judge_world_scheme \<Rightarrow> int \<Rightarrow> int \<Rightarrow> (str \<Rightarrow> json) \<Rightarrow> (str \<Rightarrow> str option) \<Rightarrow> escalation
     \<Rightarrow> nat \<times> streaks \<times> 'a guard_state_scheme \<Rightarrow> nat \<times> streaks \<times> 'a guard_state_scheme" where
  "sweep_one w now polls info shown e st =
     (case st of (n, c, s) \<Rightarrow>
        if rq_layer (es_request e) \<noteq> ''QUESTION'' \<or> pane_of e = [] then st
        else (case question_poll polls (pane_of e) (question_gone info shown (pane_of e)) c of
            (False, c') \<Rightarrow> (n, c', s)
          | (True, c') \<Rightarrow> (Suc n, c', resolve_escalation w now ((resolved_in_pane (pane_of e) ''ANSWERED'')\<lparr>rs_id := es_id e\<rparr>) s)))"

definition sweep_answered_questions ::
    "'w judge_world_scheme \<Rightarrow> int \<Rightarrow> int \<Rightarrow> (str \<Rightarrow> json) \<Rightarrow> (str \<Rightarrow> str option)
     \<Rightarrow> streaks \<Rightarrow> 'a guard_state_scheme \<Rightarrow> nat \<times> streaks \<times> 'a guard_state_scheme" where
  "sweep_answered_questions w now polls info shown c s =
     (case get_pending_escalations now [] False None s of
        (es, s') \<Rightarrow> fold (sweep_one w now polls info shown) es (0, c, s'))"

subsection \<open>Debouncing\<close>

text \<open>
  What the two debounced decisions have in common: an unsure observation counts, every other
  one resets the count, one that says nothing keeps it.
\<close>

definition after_polls :: "('o \<Rightarrow> streaks \<Rightarrow> bool \<times> streaks) \<Rightarrow> 'o list \<Rightarrow> streaks \<Rightarrow> streaks" where
  "after_polls poll xs c = fold (\<lambda>x c. snd (poll x c)) xs c"

definition trailing :: "('o \<Rightarrow> bool) \<Rightarrow> ('o \<Rightarrow> bool) \<Rightarrow> 'o list \<Rightarrow> nat" where
  "trailing silent gone xs = length (takeWhile gone (rev (filter (\<lambda>x. \<not> silent x) xs)))"

lemma after_polls_simps [simp]:
  "after_polls poll [] c = c"
  "after_polls poll (xs @ ys) c = after_polls poll ys (after_polls poll xs c)"
  "after_polls poll (x # xs) c = after_polls poll xs (snd (poll x c))"
  by (simp_all add: after_polls_def)

lemma trailing_simps [simp]:
  "trailing silent gone [] = 0"
  "silent x \<Longrightarrow> trailing silent gone (xs @ [x]) = trailing silent gone xs"
  "\<not> silent x \<Longrightarrow> trailing silent gone (xs @ [x]) = (if gone x then Suc (trailing silent gone xs) else 0)"
  by (simp_all add: trailing_def)

lemma streak_simps [simp]:
  "streak (AList.delete k c) k = 0"
  "streak (AList.update k n c) k = n"
  by (simp_all add: streak_def delete_conv' update_conv')

locale debouncer =
  fixes poll :: "'o \<Rightarrow> streaks \<Rightarrow> bool \<times> streaks"
    and key :: str
    and polls :: nat
    and silent :: "'o \<Rightarrow> bool"
    and gone :: "'o \<Rightarrow> bool"
  assumes positive: "0 < polls"
    and silent_keeps: "silent x \<Longrightarrow> poll x c = (False, c)"
    and gone_counts: "\<not> silent x \<Longrightarrow> gone x \<Longrightarrow>
      poll x c = (if polls \<le> Suc (streak c key) then (True, AList.delete key c) else (False, AList.update key (Suc (streak c key)) c))"
    and other_resets: "\<not> silent x \<Longrightarrow> \<not> gone x \<Longrightarrow> streak (snd (poll x c)) key = 0"
begin

lemma streak_is_earned: "streak c key = 0 \<Longrightarrow> streak (after_polls poll xs c) key \<le> trailing silent gone xs"
proof (induction xs rule: rev_induct)
  case (snoc x xs)
  then show ?case
    by (cases "silent x"; cases "gone x") (simp_all add: silent_keeps gone_counts other_resets)
qed simp

lemma fires_late:
  assumes "streak c key = 0" and "\<not> silent x" and "gone x" and "fst (poll x (after_polls poll xs c))"
  shows "polls \<le> trailing silent gone (xs @ [x])"
  using assms streak_is_earned [OF assms(1), of xs] by (simp add: gone_counts split: if_splits)

lemma counts_up:
  assumes "\<forall>x \<in> set xs. \<not> silent x \<and> gone x" and "\<And>i. i < length xs \<Longrightarrow> \<not> fst (poll (xs ! i) (after_polls poll (take i xs) c))"
  shows "streak (after_polls poll xs c) key = streak c key + length xs"
  using assms
proof (induction xs rule: rev_induct)
  case (snoc x xs)
  have "streak (after_polls poll xs c) key = streak c key + length xs"
  proof (rule snoc.IH)
    show "\<not> fst (poll (xs ! i) (after_polls poll (take i xs) c))" if "i < length xs" for i
      using snoc.prems(2) [of i] that by (simp add: nth_append)
  qed (use snoc.prems(1) in simp)
  with snoc.prems(1) snoc.prems(2) [of "length xs"] show ?case
    by (simp add: gone_counts split: if_splits)
qed simp

lemma fires_in_time:
  assumes "\<forall>x \<in> set xs. \<not> silent x \<and> gone x" and "polls \<le> length xs"
  shows "\<exists>i < length xs. fst (poll (xs ! i) (after_polls poll (take i xs) c))"
proof (rule ccontr)
  assume "\<not> ?thesis"
  then have no: "\<not> fst (poll (xs ! i) (after_polls poll (take i xs) c))" if "i < length xs" for i using that by blast
  obtain m where m: "length xs = Suc m" using assms(2) positive by (cases "length xs") auto
  have "streak (after_polls poll (take m xs) c) key = streak c key + length (take m xs)"
  proof (rule counts_up)
    show "\<forall>x \<in> set (take m xs). \<not> silent x \<and> gone x" using assms(1) by (blast dest: in_set_takeD)
    show "\<not> fst (poll (take m xs ! i) (after_polls poll (take i (take m xs)) c))" if "i < length (take m xs)" for i
      using no [of i] that m by (simp add: min_def)
  qed
  moreover have "\<not> silent (xs ! m) \<and> gone (xs ! m)" using assms(1) m by simp
  ultimately show False using no [of m] m assms(2) by (simp add: gone_counts)
qed

end

text \<open>One poll of a pane: what is cached, the pane, its text, the request, the adapter.\<close>

type_synonym observation = "prompt option \<times> json \<times> str \<times> str option \<times> agent_adapter option"

definition pane_direct_poll :: "int \<Rightarrow> str \<Rightarrow> observation \<Rightarrow> streaks \<Rightarrow> bool \<times> streaks" where
  "pane_direct_poll polls pane x c =
     (case x of (cached, info, t, req, ad) \<Rightarrow> (case pane_direct_maybe_evict polls pane cached info t req ad c of ((gone, _), c') \<Rightarrow> (gone, c')))"

definition unsure :: "observation \<Rightarrow> bool" where
  "unsure x = (case x of (cached, info, t, req, ad) \<Rightarrow> should_evict_pane_direct cached info t req ad = (True, GONE_UNSURE))"

lemma unsure_counts:
  assumes "unsure x"
  shows "pane_direct_poll polls pane x c =
    (if at_least_once polls \<le> Suc (streak c pane) then (True, AList.delete pane c) else (False, AList.update pane (Suc (streak c pane)) c))"
proof (cases x)
  case (fields cached info t req ad)
  with assms have "should_evict_pane_direct cached info t req ad = (True, GONE_UNSURE)" by (simp add: unsure_def)
  with fields show ?thesis by (simp add: pane_direct_poll_def pane_direct_maybe_evict_def)
qed

lemma sure_resets:
  assumes "\<not> unsure x"
  shows "streak (snd (pane_direct_poll polls pane x c)) pane = 0"
proof (cases x)
  case (fields cached info t req ad)
  obtain g why where g: "should_evict_pane_direct cached info t req ad = (g, why)" by (cases "should_evict_pane_direct cached info t req ad")
  with assms fields have "\<not> g \<or> why \<noteq> GONE_UNSURE" by (simp add: unsure_def)
  then show ?thesis unfolding fields pane_direct_poll_def pane_direct_maybe_evict_def prod.case g
    by (cases g) simp_all
qed

lemma at_least_once_positive [simp]: "0 < at_least_once n"
  by (simp add: at_least_once_def)

interpretation pane_eviction: debouncer "pane_direct_poll polls pane" pane "at_least_once polls" "\<lambda>_. False" unsure for polls pane
  by unfold_locales (simp_all only: unsure_counts sure_resets at_least_once_positive simp_thms)

interpretation question_sweep: debouncer "question_poll polls pane" pane "at_least_once polls" "\<lambda>g. g = None" "\<lambda>g. g = Some True" for polls pane
proof unfold_locales
  show "streak (snd (question_poll polls pane g c)) pane = 0" if "g \<noteq> None" "g \<noteq> Some True" for g c
    using that by (cases g) (simp_all add: question_poll_def)
qed (simp_all add: question_poll_def)

text \<open>
  C28: A request whose dialog only seems to be gone is taken for answered by the person no
  earlier than at the configured number of consecutive polls that all found it so; one
  redraw does not suffice.
\<close>

theorem eviction_is_debounced:
  assumes "streak c pane = 0" and "unsure x" and "fst (pane_direct_poll polls pane x (after_polls (pane_direct_poll polls pane) xs c))"
  shows "at_least_once polls \<le> trailing (\<lambda>_. False) unsure (xs @ [x])"
  using pane_eviction.fires_late [OF assms(1) _ assms(2,3)] by simp

text \<open>
  A question that was answered in its pane is resolved: among as many consecutive polls
  as configured that find its dialog gone there is one that resolves it.
\<close>

lemma answered_question_is_resolved:
  "\<exists>i < at_least_once polls.
     fst (question_poll polls pane (Some True) (after_polls (question_poll polls pane) (replicate i (Some True)) c))"
proof -
  let ?xs = "replicate (at_least_once polls) (Some True)"
  have "\<exists>i < length ?xs. fst (question_poll polls pane (?xs ! i) (after_polls (question_poll polls pane) (take i ?xs) c))"
    by (rule question_sweep.fires_in_time) simp_all
  then show ?thesis by (auto simp: min_def)
qed

text \<open>A request of a person's review whose dialog is gone at two polls.\<close>

definition gone_demo :: observation where
  "gone_demo = (Some \<lparr>pr_cmd = ''make x'', pr_seq = JInt 1, pr_status = ''blocked'', pr_safe = False, pr_alert = 0\<rparr>,
     JObj [(''agent_status'', JStr ''blocked''), (''state_change_seq'', JInt 2)], [], Some ''make x'', Some agy)"

theorem eviction_is_debounced_witness: "at_least_once 2 \<le> trailing (\<lambda>_. False) unsure [gone_demo, gone_demo]"
proof -
  have u: "unsure gone_demo" by code_simp
  have "fst (pane_direct_poll 2 ''wP:p1'' gone_demo (after_polls (pane_direct_poll 2 ''wP:p1'') [gone_demo] []))" by code_simp
  from eviction_is_debounced [OF _ u this] show ?thesis by (simp add: streak_def)
qed

end
