(* ===== verification/WatcherLoop.thy ===== *)
theory WatcherLoop
  imports Watcher
begin

text \<open>
  The main loop of the watcher (\<open>scripts/cmd/schengen_watcher.py\<close>): the finished evaluations
  (\<open>drain_completed_inspections\<close>), the publication of one request at a time for review, and
  one poll of a pane, as steps over the coordinator, the tables and the remembered prompts.
  The evaluations of the workers are atomic steps between the others.
\<close>

subsection \<open>What a pane shows\<close>

text \<open>
  The metadata of a pane; its visible text, the soft-wrap-aware one and the commands on the
  channel at the \<open>k\<close>-th look; the answers for the shell wrapper; the setting and the operations
  of the adapter (\<open>None\<close>: an exception) and how many looks fit into the confirmation.
\<close>

record live_world =
  lv_info :: json
  lv_text :: "nat \<Rightarrow> str"
  lv_recent :: "nat \<Rightarrow> str"
  lv_channels :: "nat \<Rightarrow> str option \<times> str option"
  lv_helper :: bool
  lv_query :: "str \<Rightarrow> str option"
  lv_opt_in :: bool
  lv_confirm :: nat
  lv_channel :: "str \<Rightarrow> (bool \<times> str) option"
  lv_keys :: "str \<Rightarrow> (bool \<times> str) option"

definition kind_for :: "'v live_world_scheme \<Rightarrow> json \<Rightarrow> str option" where
  "kind_for v info =
     (if truthy info then resolve_watcher_agent_kind (lv_helper v) (lv_query v) info target_agent_kinds (Some (lv_text v 0)) else None)"

definition look :: "'v live_world_scheme \<Rightarrow> match_world \<Rightarrow> agent_adapter \<Rightarrow> nat \<Rightarrow> str option \<times> str" where
  "look v mw ad k = get_canonical_request mw ad (fst (lv_channels v k)) (snd (lv_channels v k)) (lv_text v k) (lv_recent v k)"

definition live_request :: "'v live_world_scheme \<Rightarrow> match_world \<Rightarrow> json \<Rightarrow> str option" where
  "live_request v mw info =
     (case Option.bind (kind_for v info) get_adapter of None \<Rightarrow> None | Some ad \<Rightarrow> fst (look v mw ad 0))"

subsection \<open>Delivery of an approval\<close>

datatype attempt = Reply | Keys nat
datatype delivery = Deferred | Failed str | Carried_On

fun looks_until_gone :: "(nat \<Rightarrow> str option) \<Rightarrow> nat \<Rightarrow> nat \<Rightarrow> nat" where
  "looks_until_gone shown k 0 = k"
| "looks_until_gone shown k (Suc n) = (if shown k = None then Suc k else looks_until_gone shown (Suc k) n)"

text \<open>
  The reply over the channel, when it is switched on: whether the request changed, the number
  of the next look, and what was sent.  One more look follows the confirmation, for the log.
\<close>

definition channel_phase :: "'v live_world_scheme \<Rightarrow> (nat \<Rightarrow> str option) \<Rightarrow> str \<Rightarrow> (bool \<times> nat \<times> attempt list) option" where
  "channel_phase v shown req =
     (if \<not> lv_opt_in v then Some (False, 1, [])
      else (case lv_channel v req of
          None \<Rightarrow> None
        | Some (ok, why) \<Rightarrow>
            Some (why = SKIP_CHANGED, if ok then Suc (looks_until_gone shown 1 (lv_confirm v)) else 1, if ok then [Reply] else [])))"

definition deliver :: "'v live_world_scheme \<Rightarrow> (nat \<Rightarrow> str option) \<Rightarrow> str \<Rightarrow> (delivery \<times> attempt list) option" where
  "deliver v shown req =
     (case channel_phase v shown req of
        None \<Rightarrow> None
      | Some (True, k, sent) \<Rightarrow> Some (Deferred, sent)
      | Some (False, k, sent) \<Rightarrow>
          if shown k = Some req then
            (case lv_keys v req of
               None \<Rightarrow> None
             | Some (ok, why) \<Rightarrow>
                 Some (if ok then Carried_On else if why = SKIP_CHANGED then Deferred else if why = [] then Carried_On else Failed why,
                       sent @ [Keys k]))
          else Some (if shown k = None then Carried_On else Deferred, sent))"

subsection \<open>The state of the watcher\<close>

record watcher_state =
  ws_gate :: guard_state
  ws_inspector :: inspector
  ws_prompts :: "(str \<times> prompt) list"
  ws_gone :: streaks
  ws_questions :: streaks

type_synonym verdict_tax = "(taxonomy \<times> provenance option) option"

definition drain_entry :: "str \<Rightarrow> str \<Rightarrow> str \<Rightarrow> str \<Rightarrow> str \<Rightarrow> decision_layer \<Rightarrow> verdict_tax \<Rightarrow> audit_entry" where
  "drain_entry pane cmd decision reason agent layer tax =
     \<lparr>en_pane = pane, en_raw = cmd, en_decision = decision, en_reason = reason, en_agent = agent, en_layer = layer_value layer,
      en_origin = (case tax of Some (t, _) \<Rightarrow> origin_value (tx_origin t) | None \<Rightarrow> ''A''),
      en_consequence = (case tax of Some (t, _) \<Rightarrow> consequence_value (tx_consequence t) | None \<Rightarrow> ''NONE''),
      en_mechanism = (case tax of Some (t, _) \<Rightarrow> tx_mechanism t | None \<Rightarrow> ''none''),
      en_gate = (case tax of Some (t, _) \<Rightarrow> gate_state_value (tx_gate_state t) | None \<Rightarrow> ''ENFORCE''),
      en_shadow = (case tax of Some (t, _) \<Rightarrow> tx_shadow_mode t | None \<Rightarrow> False),
      en_scope = ''SESSION_TRANSIENT'', en_source = None, en_revision = None\<rparr>"

definition logged :: "guard_world \<Rightarrow> int \<Rightarrow> audit_entry \<Rightarrow> watcher_state \<Rightarrow> watcher_state" where
  "logged g now e s = s\<lparr>ws_gate := log_entry g now e (ws_gate s)\<rparr>"

definition SNAPSHOT_CHARS :: nat where
  "SNAPSHOT_CHARS = 8000"

definition session_of :: "json \<Rightarrow> str option" where
  "session_of info = (case jget ''value'' (jget ''agent_session'' info) of JStr u \<Rightarrow> Some u | _ \<Rightarrow> None)"

definition text_else :: "str \<Rightarrow> json \<Rightarrow> str" where
  "text_else d v = (case v of JStr t \<Rightarrow> if t = [] then d else t | _ \<Rightarrow> d)"

definition cwd_of :: "json \<Rightarrow> str" where
  "cwd_of info = text_else (text_else [] (jget ''cwd'' info)) (jget ''foreground_cwd'' info)"

definition author_of :: "str \<Rightarrow> str" where
  "author_of kind = (if kind = ''human'' then ''H'' else ''A'')"

definition escalate_request ::
    "guard_world \<Rightarrow> int \<Rightarrow> str \<Rightarrow> json \<Rightarrow> str \<Rightarrow> str \<Rightarrow> str \<Rightarrow> str \<Rightarrow> str \<Rightarrow> verdict_tax \<Rightarrow> guard_state \<Rightarrow> nat \<times> guard_state" where
  "escalate_request g now pane info req reason layer kind t tax s =
     (let snap = last_chars SNAPSHOT_CHARS (strip t); pv = Option.bind tax snd in
      enqueue_pending_escalation g now
        \<lparr>rq_pane = pane, rq_raw = req, rq_reason = reason, rq_layer = layer, rq_agent = kind, rq_session = session_of info,
         rq_snapshot = (if snap = [] then None else Some snap), rq_cwd = Some (cwd_of info), rq_origin = Some (author_of kind),
         rq_capture = map_option pv_source pv, rq_relation = map_option pv_relation pv,
         rq_ambiguous = (layer = layer_value NORMALIZATION_AMBIGUOUS),
         rq_raw_evaluated = (case pv of Some p \<Rightarrow> pv_raw_evaluated p | None \<Rightarrow> False)\<rparr> s)"

definition prompt_of :: "watch_request \<Rightarrow> bool \<Rightarrow> int \<Rightarrow> prompt" where
  "prompt_of r ok now = \<lparr>pr_cmd = wr_cmd r, pr_seq = wr_seq r, pr_status = wr_status r, pr_safe = ok, pr_alert = now\<rparr>"

definition noted :: "str \<Rightarrow> prompt \<Rightarrow> watcher_state \<Rightarrow> watcher_state" where
  "noted pane p s = s\<lparr>ws_prompts := AList.update pane p (ws_prompts s)\<rparr>"

definition with_inspector :: "(inspector \<Rightarrow> inspector) \<Rightarrow> watcher_state \<Rightarrow> watcher_state" where
  "with_inspector f s = s\<lparr>ws_inspector := f (ws_inspector s)\<rparr>"

definition with_gate :: "(guard_state \<Rightarrow> guard_state) \<Rightarrow> watcher_state \<Rightarrow> watcher_state" where
  "with_gate f s = s\<lparr>ws_gate := f (ws_gate s)\<rparr>"

subsection \<open>Finished evaluations\<close>

text \<open>The four fields of a result; a result of three fields raises an exception (\<open>None\<close>).\<close>

definition unpacked :: "str + evaluation \<Rightarrow> (answer \<times> verdict_tax) option" where
  "unpacked res =
     (case res of
        Inl exc \<Rightarrow> Some (failed_closed exc, None)
      | Inr (Triple _) \<Rightarrow> None
      | Inr (Quad (v, t) pv) \<Rightarrow> Some (v, Some (t, pv)))"

definition delegate :: "guard_world \<Rightarrow> int \<Rightarrow> str \<Rightarrow> json \<Rightarrow> str \<Rightarrow> watch_request \<Rightarrow> answer \<Rightarrow> verdict_tax \<Rightarrow> str \<Rightarrow> watcher_state \<Rightarrow> watcher_state" where
  "delegate g now pane info kind r v tax trace s =
     (case v of (_, reason, layer) \<Rightarrow>
        with_inspector (\<lambda>i. set_state pane r ''queued'' (queue_trace pane trace
            (i\<lparr>human_queue := human_queue i @ [\<lparr>hr_pane = pane, hr_request = r, hr_live_info = info, hr_reason = reason,
                 hr_layer = layer, hr_taxonomy = tax\<rparr>]\<rparr>)))
          (logged g now (drain_entry pane (wr_cmd r) ''MANUAL_DELEGATED'' reason kind layer tax) s))"

definition deferral :: "str \<Rightarrow> str" where
  "deferral reason = strip (''dialog changed mid-evaluation; approval not delivered: '' @ reason)"

definition settle :: "guard_world \<Rightarrow> int \<Rightarrow> str \<Rightarrow> json \<Rightarrow> str \<Rightarrow> watch_request \<Rightarrow> answer \<Rightarrow> verdict_tax \<Rightarrow> delivery \<Rightarrow> watcher_state \<Rightarrow> watcher_state" where
  "settle g now pane info kind r v tax d s =
     (case v of (_, reason, layer) \<Rightarrow>
        with_inspector (release pane (Some r))
          (case d of
             Deferred \<Rightarrow> logged g now (drain_entry pane (wr_cmd r) ''AUTO_DEFERRED'' (deferral reason) kind layer tax) s
           | Failed why \<Rightarrow>
               noted pane (prompt_of r False now)
                 (with_gate (\<lambda>t. snd (escalate_request g now pane info (wr_cmd r) why ''OPENCODE_FAILSAFE'' kind (wr_text r) tax t)) s)
           | Carried_On \<Rightarrow>
               with_gate (resolve_escalation g now ((resolve_defaults pane)\<lparr>rs_approver := Some ''machine''\<rparr>))
                 (noted pane (prompt_of r True now)
                   (logged g now (drain_entry pane (wr_cmd r) ''AUTO_APPROVED'' reason kind layer tax) s))))"

definition drain_one ::
    "guard_world \<Rightarrow> match_world \<Rightarrow> int \<Rightarrow> bool \<Rightarrow> str \<Rightarrow> 'v live_world_scheme \<Rightarrow> str \<times> watch_request \<times> (str + evaluation) \<Rightarrow> watcher_state
     \<Rightarrow> (watcher_state \<times> attempt list) option" where
  "drain_one g mw now dry trace v c s0 =
     (case c of (pane, r, res) \<Rightarrow>
        (let popped = pop_completed_trace pane (take_completed trace pane (ws_inspector s0));
             s = s0\<lparr>ws_inspector := snd popped\<rparr>; info = lv_info v; kind = kind_for v info in
         if live_request v mw info \<noteq> Some (wr_cmd r) then Some (with_inspector (release pane (Some r)) s, [])
         else (case unpacked res of
             None \<Rightarrow> None
           | Some ((ok, reason, layer), tax) \<Rightarrow>
               if \<not> ok then Some (delegate g now pane info (known kind) r (ok, reason, layer) tax (fst popped) s, [])
               else (case (if dry then Some (Carried_On, []) else deliver v (\<lambda>k. fst (look v mw (the (get_adapter (the kind))) k)) (wr_cmd r)) of
                   None \<Rightarrow> None
                 | Some (d, sent) \<Rightarrow> Some (settle g now pane info (known kind) r (ok, reason, layer) tax d s, sent)))))"

text \<open>All that have finished at the beginning of a cycle, in order; an exception ends the daemon.\<close>

fun drain_list ::
    "guard_world \<Rightarrow> match_world \<Rightarrow> int \<Rightarrow> bool \<Rightarrow> str \<Rightarrow> (str \<Rightarrow> live_world) \<Rightarrow> (str \<times> watch_request \<times> (str + evaluation)) list \<Rightarrow> watcher_state
     \<Rightarrow> (watcher_state \<times> (str \<times> str \<times> attempt) list) option" where
  "drain_list g mw now dry trace v [] s = Some (s, [])"
| "drain_list g mw now dry trace v (c # cs) s =
     (case drain_one g mw now dry trace (v (fst c)) c s of
        None \<Rightarrow> None
      | Some (s', sent) \<Rightarrow>
          map_option (\<lambda>(t, later). (t, map (\<lambda>a. (fst c, wr_cmd (fst (snd c)), a)) sent @ later)) (drain_list g mw now dry trace v cs s'))"

definition drain_completed_inspections ::
    "guard_world \<Rightarrow> match_world \<Rightarrow> int \<Rightarrow> bool \<Rightarrow> str \<Rightarrow> (str \<Rightarrow> live_world) \<Rightarrow> watcher_state \<Rightarrow> (watcher_state \<times> (str \<times> str \<times> attempt) list) option" where
  "drain_completed_inspections g mw now dry trace v s = drain_list g mw now dry trace v (completed_now (ws_inspector s)) s"

subsection \<open>Publication for review\<close>

definition cancel_stale_human_escalation :: "guard_world \<Rightarrow> int \<Rightarrow> str \<Rightarrow> str \<Rightarrow> guard_state \<Rightarrow> guard_state" where
  "cancel_stale_human_escalation g now pane cmd =
     resolve_escalation g now ((resolve_defaults pane)\<lparr>rs_hash := command_hash g cmd, rs_status := ''CANCELLED'', rs_approver := Some ''other''\<rparr>)"

definition human_request_is_live :: "match_world \<Rightarrow> (str \<Rightarrow> live_world) \<Rightarrow> str \<Rightarrow> str \<Rightarrow> bool" where
  "human_request_is_live mw v pane cmd \<longleftrightarrow> live_request (v pane) mw (lv_info (v pane)) = Some cmd"

definition evict_stale :: "guard_world \<Rightarrow> match_world \<Rightarrow> int \<Rightarrow> (str \<Rightarrow> live_world) \<Rightarrow> watcher_state \<Rightarrow> watcher_state" where
  "evict_stale g mw now v s =
     (case evict_stale_human_requests (human_request_is_live mw v) (ws_inspector s) of
        (cancelled, i) \<Rightarrow>
          (let s1 = s\<lparr>ws_inspector := i\<rparr> in
           case cancelled of None \<Rightarrow> s1 | Some (p, c) \<Rightarrow> with_gate (cancel_stale_human_escalation g now p c) s1))"

text \<open>
  The next request of the queue, looked at again with the metadata of the time of its
  evaluation; a request that is not shown any more is dropped.
\<close>

definition publish_next :: "guard_world \<Rightarrow> match_world \<Rightarrow> int \<Rightarrow> (str \<Rightarrow> live_world) \<Rightarrow> watcher_state \<Rightarrow> watcher_state" where
  "publish_next g mw now v s =
     (case (active_human (ws_inspector s), human_queue (ws_inspector s)) of
        (None, h # hs) \<Rightarrow>
          (let pane = hr_pane h; r = hr_request h; info = hr_live_info h;
               s1 = with_inspector (\<lambda>i. i\<lparr>human_queue := hs\<rparr>) s
           in if live_request (v pane) mw info \<noteq> Some (wr_cmd r) then s1
              else noted pane (prompt_of r False now)
                (with_inspector (\<lambda>i. set_state pane (r\<lparr>wr_info := info\<rparr>) ''active''
                    ((snd (pop_queued_trace pane i))\<lparr>active_human := Some (pane, wr_cmd r)\<rparr>))
                  (with_gate (\<lambda>t. snd (escalate_request g now pane info (wr_cmd r) (hr_reason h) (layer_value (hr_layer h))
                      (known (kind_for (v pane) info)) (wr_text r) (hr_taxonomy h) t)) s1)))
      | _ \<Rightarrow> s)"

subsection \<open>One poll of a pane\<close>

text \<open>
  The expanded dialog and the command on the channel then, the directory of the process,
  whether the executor takes a job, and the settings of the eviction.
\<close>

record poll_world = live_world +
  pw_expanded :: "str option"
  pw_channel :: "str option"
  pw_cwd :: str
  pw_accepted :: bool
  pw_evict :: bool
  pw_polls :: int

definition maybe_expand_truncated_dialog ::
    "agent_adapter \<Rightarrow> str option \<Rightarrow> str option \<Rightarrow> str \<Rightarrow> str \<Rightarrow> str \<times> str \<times> bool" where
  "maybe_expand_truncated_dialog ad channel expanded t req =
     (if \<not> ad_truncated ad t then (t, req, False)
      else if present expanded \<and> \<not> ad_truncated ad (the expanded) \<and> present (ad_pending ad channel (the expanded))
      then (the expanded, the (ad_pending ad channel (the expanded)), False)
      else (t, req, True))"

definition poll_kind :: "'v live_world_scheme \<Rightarrow> str option" where
  "poll_kind v =
     (case resolve_watcher_agent_kind (lv_helper v) (lv_query v) (lv_info v) target_agent_kinds None of
        Some k \<Rightarrow> Some k
      | None \<Rightarrow> if may_be_shell_wrapper (lv_info v) then kind_for v (lv_info v) else None)"

definition forget_pane :: "str \<Rightarrow> watcher_state \<Rightarrow> watcher_state" where
  "forget_pane pane s =
     with_inspector (\<lambda>i. release pane None (case active_human i of
         Some (p, _) \<Rightarrow> if p = pane then i\<lparr>active_human := None\<rparr> else i | None \<Rightarrow> i)) s"

definition drop_prompt_of :: "str \<Rightarrow> watcher_state \<Rightarrow> watcher_state" where
  "drop_prompt_of pane s = s\<lparr>ws_prompts := AList.delete pane (ws_prompts s), ws_gone := AList.delete pane (ws_gone s)\<rparr>"

definition cleared :: "guard_world \<Rightarrow> int \<Rightarrow> str \<Rightarrow> watcher_state \<Rightarrow> watcher_state" where
  "cleared g now pane s =
     forget_pane pane
       (case map_of (ws_prompts s) pane of
          None \<Rightarrow> s
        | Some c \<Rightarrow> drop_prompt_of pane (with_gate (resolve_cleared_dialog g now pane (Some c)) s))"

definition evicted :: "guard_world \<Rightarrow> int \<Rightarrow> str \<Rightarrow> watcher_state \<Rightarrow> watcher_state" where
  "evicted g now pane s =
     forget_pane pane (drop_prompt_of pane (with_gate (resolve_escalation g now (resolved_in_pane pane ''APPROVED'')) s))"

definition same_prompt :: "prompt option \<Rightarrow> str \<Rightarrow> json \<Rightarrow> bool" where
  "same_prompt cached req info =
     (case cached of None \<Rightarrow> False | Some c \<Rightarrow> pr_cmd c = req \<and> pr_seq c = seq_of info \<and> pr_status c = status_of info)"

definition question_summary :: "str \<Rightarrow> str" where
  "question_summary req =
     (let q = (if starts_with req ''question:'' then strip (drop 9 req) else []) in if q = [] then ''(no text extracted)'' else q)"

definition surface_question :: "guard_world \<Rightarrow> int \<Rightarrow> str \<Rightarrow> json \<Rightarrow> str \<Rightarrow> str \<Rightarrow> str \<Rightarrow> watcher_state \<Rightarrow> watcher_state" where
  "surface_question g now pane info kind req t s =
     (if same_prompt (map_of (ws_prompts s) pane) req info then s
      else noted pane \<lparr>pr_cmd = req, pr_seq = seq_of info, pr_status = status_of info, pr_safe = True, pr_alert = 0\<rparr>
        (with_gate (\<lambda>u. snd (enqueue_pending_escalation g now
            \<lparr>rq_pane = pane, rq_raw = req, rq_reason = ''Agent asked the user a question: '' @ question_summary req,
             rq_layer = ''QUESTION'', rq_agent = kind, rq_session = session_of info, rq_snapshot = Some t,
             rq_cwd = Some (cwd_of info), rq_origin = Some (author_of kind), rq_capture = None, rq_relation = None,
             rq_ambiguous = False, rq_raw_evaluated = False\<rparr> u)) s))"

definition reminded :: "int \<Rightarrow> str \<Rightarrow> watcher_state \<Rightarrow> watcher_state" where
  "reminded now pane s =
     (case map_of (ws_prompts s) pane of
        None \<Rightarrow> s
      | Some c \<Rightarrow> if \<not> pr_safe c \<and> 30 < now - pr_alert c then noted pane (c\<lparr>pr_alert := now\<rparr>) s else s)"

definition submit_request :: "'v poll_world_scheme \<Rightarrow> agent_adapter \<Rightarrow> str \<Rightarrow> str \<Rightarrow> str \<Rightarrow> str \<Rightarrow> watcher_state \<Rightarrow> watcher_state option" where
  "submit_request v ad pane kind req source s =
     (case maybe_expand_truncated_dialog ad (pw_channel v) (pw_expanded v) (lv_text v 0) req of
        (t, req', folded) \<Rightarrow>
          map_option (\<lambda>(_, i). s\<lparr>ws_inspector := i\<rparr>)
            (fst (submit (pw_accepted v) pane
              \<lparr>wr_cmd = req', wr_seq = seq_of (lv_info v), wr_status = status_of (lv_info v), wr_info = lv_info v, wr_text = t\<rparr>
              \<lparr>jb_raw = ad_parse ad t, jb_request = req', jb_source = source, jb_cwd = text_else (pw_cwd v) (JStr (cwd_of (lv_info v))),
               jb_kind = kind, jb_truncated = folded\<rparr>
              (ws_inspector s))))"

text \<open>A value \<open>None\<close> is the exception of an executor that takes no more jobs.\<close>

definition poll_pane :: "guard_world \<Rightarrow> match_world \<Rightarrow> int \<Rightarrow> 'v poll_world_scheme \<Rightarrow> str \<Rightarrow> watcher_state \<Rightarrow> watcher_state option" where
  "poll_pane g mw now v pane s =
     (case (if truthy (lv_info v) then poll_kind v else None) of
        None \<Rightarrow> Some s
      | Some kind \<Rightarrow> (case get_adapter kind of
            None \<Rightarrow> Some s
          | Some ad \<Rightarrow> (case look v mw ad 0 of (request, source) \<Rightarrow>
              if \<not> present request then Some (cleared g now pane s)
              else (let req = the request; info = lv_info v; cached = map_of (ws_prompts s) pane;
                        ((gone, why), c) = (if pw_evict v
                          then pane_direct_maybe_evict (max 1 (pw_polls v)) pane cached info (lv_text v 0) request (Some ad) (ws_gone s)
                          else ((False, []), ws_gone s));
                        s1 = s\<lparr>ws_gone := c\<rparr>
                    in if gone then Some (evicted g now pane s1)
                       else if starts_with why ''debounced'' then Some s1
                       else if starts_with req ''question'' then Some (surface_question g now pane info kind req (lv_text v 0) s1)
                       else if same_prompt cached req info then Some (reminded now pane s1)
                       else submit_request v ad pane kind req source s1))))"

subsection \<open>Runs\<close>

definition job_args :: "str \<Rightarrow> str \<Rightarrow> job \<Rightarrow> audit_args" where
  "job_args effort pane j = \<lparr>aa_cwd = jb_cwd j, aa_scope = pane, aa_agent = jb_kind j,
     aa_origin = (if jb_kind j = ''human'' then HUMAN else AGENT), aa_effort = effort\<rparr>"

definition evaluated :: "guard_world \<Rightarrow> match_world \<Rightarrow> str \<Rightarrow> str \<Rightarrow> job \<Rightarrow> guard_state \<Rightarrow> (evaluation \<times> guard_state) option" where
  "evaluated g mw effort pane j t =
     watcher_evaluate g mw (job_args effort pane j) (jb_truncated j) (jb_raw j) (jb_request j) (jb_source j) t"

text \<open>A worker runs the evaluation of a pane; \<open>exc\<close> is the text of its exception, if it raises one.\<close>

definition run_job :: "guard_world \<Rightarrow> match_world \<Rightarrow> str \<Rightarrow> str \<Rightarrow> str \<Rightarrow> watcher_state \<Rightarrow> watcher_state" where
  "run_job g mw effort exc pane s =
     (case map_of (in_flight (ws_inspector s)) pane of
        Some (r, j, Running) \<Rightarrow>
          (case evaluated g mw effort pane j (ws_gate s) of
             None \<Rightarrow> with_inspector (finish pane (Inl exc)) s
           | Some (res, t) \<Rightarrow> with_inspector (finish pane (Inr res)) (s\<lparr>ws_gate := t\<rparr>))
      | _ \<Rightarrow> s)"

text \<open>
  The steps, in any order and at any time, with the world of the time; what was sent to which
  pane for which request is the label.  Other processes may change the tables and stores as
  long as no approval enters the caches.
\<close>

inductive watch_step ::
    "(int \<Rightarrow> guard_world) \<Rightarrow> match_world \<Rightarrow> bool \<Rightarrow> watcher_state \<Rightarrow> (str \<times> str \<times> attempt) list \<Rightarrow> watcher_state \<Rightarrow> bool"
  for G mw dry where
  Drain: "drain_completed_inspections (G now) mw now dry trace v s = Some (s', sent) \<Longrightarrow> watch_step G mw dry s sent s'"
| Stale: "watch_step G mw dry s [] (evict_stale (G now) mw now v s)"
| Publish: "watch_step G mw dry s [] (publish_next (G now) mw now v s)"
| Poll: "poll_pane (G now) mw now (pv :: poll_world) pane s = Some s' \<Longrightarrow> watch_step G mw dry s [] s'"
| Sweep: "sweep_answered_questions (G now) now polls info shown (ws_questions s) (ws_gate s) = (n, c, t) \<Longrightarrow>
    watch_step G mw dry s [] (s\<lparr>ws_questions := c, ws_gate := t\<rparr>)"
| Evaluate: "watch_step G mw dry s [] (run_job (G now) mw effort exc pane s)"
| Other: "only_refusals t \<Longrightarrow> watch_step G mw dry s [] (s\<lparr>ws_gate := t\<rparr>)"

inductive watch_run ::
    "(int \<Rightarrow> guard_world) \<Rightarrow> match_world \<Rightarrow> bool \<Rightarrow> watcher_state \<Rightarrow> (str \<times> str \<times> attempt) list \<Rightarrow> watcher_state \<Rightarrow> bool"
  for G mw dry s0 where
  Start: "watch_run G mw dry s0 [] s0"
| Step: "watch_run G mw dry s0 sent s \<Longrightarrow> watch_step G mw dry s new t \<Longrightarrow> watch_run G mw dry s0 (sent @ new) t"

inductive_cases watch_stepE: "watch_step G mw dry s sent t"

subsection \<open>What the steps keep\<close>

lemma inspector_simps [simp]:
  "in_flight (release pane ro i) = in_flight i"
  "in_flight (set_state pane r st i) = in_flight i"
  "in_flight (queue_trace pane t i) = in_flight i"
  "in_flight (snd (pop_queued_trace pane i)) = in_flight i"
  "in_flight (snd (pop_completed_trace pane i)) = in_flight i"
  by (simp_all add: release_def set_state_def queue_trace_def pop_queued_trace_def pop_completed_trace_def split: option.splits)

lemma fold_release_in_flight [simp]: "in_flight (fold (\<lambda>h. if f h then id else release (hr_pane h) None) hs i) = in_flight i"
  by (induction hs arbitrary: i) simp_all

lemma evict_in_flight:
  "evict_stale_human_requests alive i = (c, i') \<Longrightarrow> in_flight i' = in_flight i"
  by (auto simp: evict_stale_human_requests_def evict_active_def Let_def split: option.splits if_splits prod.splits)

lemma gate_upd [simp]: "ws_inspector (with_gate f s) = ws_inspector s" "ws_gate (with_gate f s) = f (ws_gate s)"
  "ws_inspector (with_inspector h s) = h (ws_inspector s)" "ws_gate (with_inspector h s) = ws_gate s"
  "ws_inspector (noted pane p s) = ws_inspector s" "ws_gate (noted pane p s) = ws_gate s"
  "ws_inspector (logged g now e s) = ws_inspector s" "ws_gate (logged g now e s) = log_entry g now e (ws_gate s)"
  by (simp_all add: with_gate_def with_inspector_def noted_def logged_def)

lemma gate_refusals [simp]:
  "only_refusals (log_entry g now e t) = only_refusals t"
  "only_refusals (snd (escalate_request g now pane info req reason layer kind shot tax t)) = only_refusals t"
  "only_refusals (snd (enqueue_pending_escalation g now rq t)) = only_refusals t"
  by (simp_all add: only_refusals_def log_entry_def escalate_request_def enqueue_pending_escalation_def Let_def split: option.splits)

lemma resolve_refusals [simp]: "\<not> remembers a \<Longrightarrow> only_refusals (resolve_escalation g now a t) = only_refusals t"
  by (simp add: resolve_escalation_def only_refusals_def)

lemma machine_forgets [simp]:
  "\<not> remembers ((resolve_defaults pane)\<lparr>rs_approver := Some p\<rparr>)"
  "\<not> remembers (resolved_in_pane pane res)"
  "\<not> remembers ((resolved_in_pane pane res)\<lparr>rs_id := n\<rparr>)"
  "\<not> remembers ((resolve_defaults pane)\<lparr>rs_hash := h, rs_status := st, rs_approver := Some p\<rparr>)"
  by (simp_all add: remembers_def resolve_defaults_def resolved_in_pane_def)

subsection \<open>Results belong to requests\<close>

text \<open>
  An entry of the dictionary of evaluations: the job is about the request, and an approval is
  the result of an evaluation of the job in stores of the run (\<open>R\<close>).
\<close>

definition backed :: "(int \<Rightarrow> guard_world) \<Rightarrow> match_world \<Rightarrow> (guard_state \<Rightarrow> bool) \<Rightarrow> str \<times> watch_request \<times> job \<times> future \<Rightarrow> bool" where
  "backed G mw R x \<longleftrightarrow>
     (case x of (pane, r, j, f) \<Rightarrow> jb_request j = wr_cmd r
        \<and> (\<forall>reason layer tx pv. f = Done (Inr (Quad ((True, reason, layer), tx) pv)) \<longrightarrow>
            (\<exists>now effort t0 t. R t0
               \<and> evaluated (G now) mw effort pane j t0 = Some (Quad ((True, reason, layer), tx) pv, t))))"

definition sound_state :: "(int \<Rightarrow> guard_world) \<Rightarrow> match_world \<Rightarrow> (guard_state \<Rightarrow> bool) \<Rightarrow> watcher_state \<Rightarrow> bool" where
  "sound_state G mw R s \<longleftrightarrow> only_refusals (ws_gate s) \<and> (\<forall>x \<in> set (in_flight (ws_inspector s)). backed G mw R x)"

lemma in_set_update: "x \<in> set (AList.update k v xs) \<Longrightarrow> x = (k, v) \<or> x \<in> set xs"
  by (induction xs) (auto split: if_splits)

lemma in_set_delete: "x \<in> set (AList.delete k xs) \<Longrightarrow> x \<in> set xs"
  by (simp add: AList.delete_eq)

lemma sound_keeps:
  assumes "sound_state G mw R s" and "only_refusals (ws_gate s) \<Longrightarrow> only_refusals (ws_gate t)"
    and "set (in_flight (ws_inspector t)) \<subseteq> set (in_flight (ws_inspector s))"
  shows "sound_state G mw R t"
  using assms unfolding sound_state_def by blast

lemma pair_refusals:
  assumes "evaluate_capture_pair shadow mw (audit_shell_command_with_taxonomy w a) org raw c source s = (v, t)"
    and "only_refusals s" and "colon_free (sha w)"
  shows "only_refusals t"
proof -
  have step: "only_refusals u'" if "audit_shell_command_with_taxonomy w a x u = (y, u')" "only_refusals u" for x u y u'
  proof -
    obtain z u1 where z: "audit_shell_command w a x u = (z, u1)" by (metis prod.collapse)
    with that(1) have "u' = u1" by (auto simp: audit_shell_command_with_taxonomy_def Let_def split: prod.splits if_splits)
    with audit_refusals [OF z that(2) assms(3)] show ?thesis by simp
  qed
  obtain rv s1 where r: "audit_shell_command_with_taxonomy w a (known raw) s = (rv, s1)" by (metis prod.collapse)
  obtain cv s2 where c: "audit_shell_command_with_taxonomy w a (known c) s1 = (cv, s2)" by (metis prod.collapse)
  have "t \<in> {s, s1, s2}" using assms(1) r c
    by (cases "known raw = known c") (auto simp: evaluate_capture_pair_def Let_def split: if_splits option.splits)
  with step [OF r assms(2)] step [OF c step [OF r assms(2)]] assms(2) show ?thesis by auto
qed

lemma evaluated_refusals:
  assumes "evaluated g mw effort pane j s = Some (res, t)" and "only_refusals s" and "colon_free (sha g)"
  shows "only_refusals t"
proof -
  obtain v pv u where p: "evaluate_capture_pair (shadow_env g) mw (audit_shell_command_with_taxonomy g (job_args effort pane j))
      (aa_origin (job_args effort pane j)) (jb_raw j) (Some (jb_request j)) (jb_source j) s = ((v, pv), u)" by (metis prod.collapse)
  obtain ok reason layer tx where v: "v = ((ok, reason, layer), tx)" by (metis prod.collapse)
  have "t = s \<or> t = u" using assms(1) p
    by (auto simp: evaluated_def watcher_evaluate_def v split: if_splits option.splits)
  with pair_refusals [OF p assms(2,3)] assms(2) show ?thesis by auto
qed

lemma run_job_sound:
  assumes "sound_state G mw R s" and "colon_free (sha (G now))" and R: "R (ws_gate s)"
  shows "sound_state G mw R (run_job (G now) mw effort exc pane s)"
proof (cases "\<exists>r j. map_of (in_flight (ws_inspector s)) pane = Some (r, j, Running)")
  case True
  then obtain r j where m: "map_of (in_flight (ws_inspector s)) pane = Some (r, j, Running)" by blast
  with assms(1) have j: "jb_request j = wr_cmd r" by (force simp: sound_state_def backed_def dest: map_of_SomeD)
  have fin: "x = (pane, r, j, Done res) \<or> x \<in> set (in_flight (ws_inspector s))"
    if "x \<in> set (in_flight (finish pane res (ws_inspector s)))" for x res
    using that m by (auto simp: finish_def dest: in_set_update)
  show ?thesis
  proof (cases "evaluated (G now) mw effort pane j (ws_gate s)")
    case None
    have "backed G mw R (pane, r, j, Done (Inl exc))" using j by (simp add: backed_def)
    with assms(1) m None show ?thesis by (auto simp: run_job_def sound_state_def dest!: fin)
  next
    case (Some e)
    then obtain res t where e: "evaluated (G now) mw effort pane j (ws_gate s) = Some (res, t)" by (cases e) simp
    have o: "only_refusals (ws_gate s)" using assms(1) by (simp add: sound_state_def)
    have "backed G mw R (pane, r, j, Done (Inr res))" unfolding backed_def using j e R by auto
    with assms m e evaluated_refusals [OF e o assms(2)] show ?thesis by (auto simp: run_job_def sound_state_def dest!: fin)
  qed
next
  case False
  then have "run_job (G now) mw effort exc pane s = s" by (auto simp: run_job_def split: option.splits prod.splits future.splits)
  with assms(1) show ?thesis by simp
qed

lemma settle_keeps [simp]:
  "in_flight (ws_inspector (settle g now pane info kind r v tax d s)) = in_flight (ws_inspector s)"
  "only_refusals (ws_gate (settle g now pane info kind r v tax d s)) = only_refusals (ws_gate s)"
  by (cases v; cases d; simp add: settle_def)+

lemma delegate_keeps [simp]:
  "in_flight (ws_inspector (delegate g now pane info kind r v tax trace s)) = in_flight (ws_inspector s)"
  "only_refusals (ws_gate (delegate g now pane info kind r v tax trace s)) = only_refusals (ws_gate s)"
  by (cases v; simp add: delegate_def)+

lemma approving_result:
  assumes "unpacked res = Some ((True, reason, layer), tax)"
  obtains tx pv where "res = Inr (Quad ((True, reason, layer), tx) pv)"
  using assms by (auto simp: unpacked_def failed_closed_def split: sum.splits evaluation.splits prod.splits)

lemma drained:
  assumes "drain_one g mw now dry trace v (pane, r, res) s = Some (t, sent)"
  shows "only_refusals (ws_gate t) = only_refusals (ws_gate s)"
    and "in_flight (ws_inspector t) = AList.delete pane (in_flight (ws_inspector s))"
    and "sent \<noteq> [] \<Longrightarrow> \<not> dry \<and> live_request v mw (lv_info v) = Some (wr_cmd r)
      \<and> (\<exists>reason layer tx pv. res = Inr (Quad ((True, reason, layer), tx) pv))"
proof -
  let ?live = "live_request v mw (lv_info v) = Some (wr_cmd r)"
  have "only_refusals (ws_gate t) = only_refusals (ws_gate s)
    \<and> in_flight (ws_inspector t) = AList.delete pane (in_flight (ws_inspector s))
    \<and> (sent \<noteq> [] \<longrightarrow> \<not> dry \<and> ?live \<and> (\<exists>reason layer tax. unpacked res = Some ((True, reason, layer), tax)))"
    using assms by (auto simp: drain_one_def Let_def take_completed_def split: if_splits option.splits)
  then show "only_refusals (ws_gate t) = only_refusals (ws_gate s)"
    and "in_flight (ws_inspector t) = AList.delete pane (in_flight (ws_inspector s))"
    and "sent \<noteq> [] \<Longrightarrow> \<not> dry \<and> ?live \<and> (\<exists>reason layer tx pv. res = Inr (Quad ((True, reason, layer), tx) pv))"
    by (auto elim: approving_result)
qed

lemma drained_list:
  assumes "drain_list g mw now dry trace v cs s = Some (t, sent)"
  shows "only_refusals (ws_gate t) = only_refusals (ws_gate s)
    \<and> set (in_flight (ws_inspector t)) \<subseteq> set (in_flight (ws_inspector s))
    \<and> (\<forall>(pane, req, a) \<in> set sent. \<not> dry \<and> (\<exists>r reason layer tx pv.
          (pane, r, Inr (Quad ((True, reason, layer), tx) pv)) \<in> set cs \<and> wr_cmd r = req))"
  using assms
proof (induction cs arbitrary: s sent)
  case (Cons c cs)
  obtain pane r res where c: "c = (pane, r, res)" by (cases c)
  from Cons.prems c obtain s1 now_sent rest where d: "drain_one g mw now dry trace (v pane) (pane, r, res) s = Some (s1, now_sent)"
    and l: "drain_list g mw now dry trace v cs s1 = Some (t, rest)"
    and e: "sent = map (\<lambda>a. (pane, wr_cmd r, a)) now_sent @ rest"
    by (auto split: option.splits)
  have sub: "set (in_flight (ws_inspector s1)) \<subseteq> set (in_flight (ws_inspector s))"
    using drained(2) [OF d] by (auto dest: in_set_delete)
  have first: "\<not> dry \<and> (\<exists>reason layer tx pv. res = Inr (Quad ((True, reason, layer), tx) pv))" if "now_sent \<noteq> []"
    using drained(3) [OF d that] by blast
  from Cons.IH [OF l] sub drained(1) [OF d] first show ?case unfolding c e by fastforce
qed simp

lemma completed_in_flight:
  "(pane, r, res) \<in> set (completed_now i) \<Longrightarrow> \<exists>j. (pane, r, j, Done res) \<in> set (in_flight i)"
  by (auto simp: completed_now_def split: future.splits)

lemma evict_stale_keeps [simp]:
  "in_flight (ws_inspector (evict_stale g mw now v s)) = in_flight (ws_inspector s)"
  "only_refusals (ws_gate (evict_stale g mw now v s)) = only_refusals (ws_gate s)"
  by (auto simp: evict_stale_def Let_def cancel_stale_human_escalation_def evict_in_flight split: prod.splits option.splits)

lemma publish_keeps [simp]:
  "in_flight (ws_inspector (publish_next g mw now v s)) = in_flight (ws_inspector s)"
  "only_refusals (ws_gate (publish_next g mw now v s)) = only_refusals (ws_gate s)"
  by (simp_all add: publish_next_def Let_def split: option.split list.split)

lemma resolve_cleared_refusals [simp]: "only_refusals (resolve_cleared_dialog g now pane c t) = only_refusals t"
  by (simp add: resolve_cleared_dialog_def split: option.split)

lemma forget_keeps [simp]:
  "in_flight (ws_inspector (forget_pane pane s)) = in_flight (ws_inspector s)"
  "ws_gate (forget_pane pane s) = ws_gate s"
  "in_flight (ws_inspector (drop_prompt_of pane s)) = in_flight (ws_inspector s)"
  "ws_gate (drop_prompt_of pane s) = ws_gate s"
  by (auto simp: forget_pane_def drop_prompt_of_def split: option.split)

lemma poll_branches_keep [simp]:
  "in_flight (ws_inspector (cleared g now pane s)) = in_flight (ws_inspector s)"
  "only_refusals (ws_gate (cleared g now pane s)) = only_refusals (ws_gate s)"
  "in_flight (ws_inspector (evicted g now pane s)) = in_flight (ws_inspector s)"
  "only_refusals (ws_gate (evicted g now pane s)) = only_refusals (ws_gate s)"
  "in_flight (ws_inspector (surface_question g now pane info kind req shot s)) = in_flight (ws_inspector s)"
  "only_refusals (ws_gate (surface_question g now pane info kind req shot s)) = only_refusals (ws_gate s)"
  "in_flight (ws_inspector (reminded now pane s)) = in_flight (ws_inspector s)"
  "ws_gate (reminded now pane s) = ws_gate s"
  by (simp_all add: cleared_def evicted_def surface_question_def reminded_def split: option.split)

lemma submitted:
  assumes "submit_request v ad pane kind req source s = Some t"
  shows "ws_gate t = ws_gate s
    \<and> (\<forall>x \<in> set (in_flight (ws_inspector t)). x \<in> set (in_flight (ws_inspector s))
        \<or> (\<exists>r j. x = (pane, r, j, Running) \<and> jb_request j = wr_cmd r))"
  using assms
  by (auto simp: submit_request_def submit_def Let_def split: prod.splits if_splits dest!: in_set_update)

lemma poll_cases:
  assumes "poll_pane g mw now v pane s = Some t"
  obtains "t = s" | "t = cleared g now pane s"
    | kind ad req source c u where "u = s\<lparr>ws_gone := c\<rparr>" and "t = evicted g now pane u \<or> t = u
        \<or> t = surface_question g now pane (lv_info v) kind req (lv_text v 0) u \<or> t = reminded now pane u
        \<or> submit_request v ad pane kind req source u = Some t"
proof (cases "if truthy (lv_info v) then poll_kind v else None")
  case None
  with assms that(1) show ?thesis by (simp add: poll_pane_def)
next
  case (Some kind)
  show ?thesis
  proof (cases "get_adapter kind")
    case None
    with assms Some that(1) show ?thesis by (simp add: poll_pane_def)
  next
    case a: (Some ad)
    obtain request source where l: "look v mw ad 0 = (request, source)" by (metis prod.collapse)
    obtain gone why c where e: "(if pw_evict v
          then pane_direct_maybe_evict (max 1 (pw_polls v)) pane (map_of (ws_prompts s) pane) (lv_info v) (lv_text v 0) request (Some ad) (ws_gone s)
          else ((False, []), ws_gone s)) = ((gone, why), c)" by (metis prod.collapse)
    have body: "(if \<not> present request then Some (cleared g now pane s)
       else if gone then Some (evicted g now pane (s\<lparr>ws_gone := c\<rparr>))
       else if starts_with why ''debounced'' then Some (s\<lparr>ws_gone := c\<rparr>)
       else if starts_with (the request) ''question'' then Some (surface_question g now pane (lv_info v) kind (the request) (lv_text v 0) (s\<lparr>ws_gone := c\<rparr>))
       else if same_prompt (map_of (ws_prompts s) pane) (the request) (lv_info v) then Some (reminded now pane (s\<lparr>ws_gone := c\<rparr>))
       else submit_request v ad pane kind (the request) source (s\<lparr>ws_gone := c\<rparr>)) = Some t"
      using assms unfolding poll_pane_def Some option.case a l prod.case Let_def e by simp
    show ?thesis
    proof (cases "present request")
      case False
      with body that(2) show ?thesis by simp
    next
      case True
      from body True show ?thesis
        by (intro that(3) [of "s\<lparr>ws_gone := c\<rparr>" c kind "the request" ad source] refl) (auto split: if_splits)
    qed
  qed
qed

lemma poll_sound:
  assumes "poll_pane g mw now v pane s = Some t" and "sound_state G mw R s"
  shows "sound_state G mw R t"
  using assms(1)
proof (cases rule: poll_cases)
  case (3 kind ad req source c u)
  have u: "ws_gate u = ws_gate s" "ws_inspector u = ws_inspector s" using 3(1) by simp_all
  from 3(2) show ?thesis
  proof (elim disjE)
    assume "submit_request v ad pane kind req source u = Some t"
    from submitted [OF this] u assms(2) show ?thesis unfolding sound_state_def by (fastforce simp: backed_def)
  qed (use assms(2) u in \<open>simp_all add: sound_state_def\<close>)
qed (use assms(2) in \<open>simp_all add: sound_state_def\<close>)

lemma fold_sweep_refusals:
  "only_refusals (snd (snd (fold (sweep_one g now polls info shown) es st))) = only_refusals (snd (snd st))"
proof (induction es arbitrary: st)
  case (Cons e es)
  have "only_refusals (snd (snd (sweep_one g now polls info shown e st))) = only_refusals (snd (snd st))"
    by (cases st) (simp add: sweep_one_def split: prod.split bool.split)
  with Cons show ?case by simp
qed simp

lemma sweep_refusals:
  "sweep_answered_questions g now polls info shown c s = (n, c', t) \<Longrightarrow> only_refusals t = only_refusals s"
  using fold_sweep_refusals [of g now polls info shown _ "(0, c, s)"]
  by (auto simp: sweep_answered_questions_def get_pending_escalations_def dest: arg_cong [where f = "\<lambda>x. only_refusals (snd (snd x))"])

lemma step_sound:
  assumes "watch_step G mw dry s sent t" and "sound_state G mw R s" and "\<And>n. colon_free (sha (G n))" and "R (ws_gate s)"
  shows "sound_state G mw R t"
  using assms(1)
proof cases
  case (Drain now trace v)
  from drained_list [OF Drain [unfolded drain_completed_inspections_def]] assms(2) show ?thesis unfolding sound_state_def by blast
next
  case (Stale now v)
  with assms(2) show ?thesis by (simp add: sound_state_def)
next
  case (Publish now v)
  with assms(2) show ?thesis by (simp add: sound_state_def)
next
  case (Poll now pv pane)
  from poll_sound [OF Poll(2) assms(2)] show ?thesis .
next
  case (Sweep now polls info shown n c u)
  with assms(2) sweep_refusals [OF Sweep(3)] show ?thesis by (simp add: sound_state_def)
next
  case (Evaluate now effort exc pane)
  with run_job_sound [OF assms(2,3,4)] show ?thesis by simp
next
  case (Other u)
  with assms(2) show ?thesis by (simp add: sound_state_def)
qed

definition stores_of_run :: "(int \<Rightarrow> guard_world) \<Rightarrow> match_world \<Rightarrow> bool \<Rightarrow> watcher_state \<Rightarrow> guard_state \<Rightarrow> bool" where
  "stores_of_run G mw dry s0 t \<longleftrightarrow> (\<exists>sent u. watch_run G mw dry s0 sent u \<and> ws_gate u = t)"

lemma run_sound:
  assumes "watch_run G mw dry s0 sent s" and "sound_state G mw (stores_of_run G mw dry s0) s0" and "\<And>n. colon_free (sha (G n))"
  shows "sound_state G mw (stores_of_run G mw dry s0) s"
  using assms(1)
proof induction
  case Start
  show ?case by (rule assms(2))
next
  case (Step sent s new t)
  from Step(1) have "stores_of_run G mw dry s0 (ws_gate s)" unfolding stores_of_run_def by blast
  from step_sound [OF Step(2) Step(3) assms(3) this] show ?case .
qed

lemma sent_is_backed:
  assumes "watch_step G mw dry s sent t" and "sound_state G mw R s" and "(pane, req, a) \<in> set sent"
  shows "\<not> dry \<and> (\<exists>now effort j t0 t reason layer tx pv. jb_request j = req \<and> R t0
    \<and> evaluated (G now) mw effort pane j t0 = Some (Quad ((True, reason, layer), tx) pv, t))"
  using assms(1)
proof cases
  case (Drain now trace v)
  from drained_list [OF Drain [unfolded drain_completed_inspections_def]] assms(3)
  obtain r reason layer tx pv where d: "\<not> dry" "(pane, r, Inr (Quad ((True, reason, layer), tx) pv)) \<in> set (completed_now (ws_inspector s))"
      "wr_cmd r = req" by blast
  from completed_in_flight [OF d(2)] assms(2) obtain j where "backed G mw R (pane, r, j, Done (Inr (Quad ((True, reason, layer), tx) pv)))"
    unfolding sound_state_def by blast
  with d show ?thesis unfolding backed_def by (simp only: prod.case) metis
qed (use assms(3) in simp_all)

lemma run_sent_is_backed:
  assumes "watch_run G mw dry s0 sent s" and "sound_state G mw (stores_of_run G mw dry s0) s0" and "\<And>n. colon_free (sha (G n))"
    and "(pane, req, a) \<in> set sent"
  shows "\<not> dry \<and> (\<exists>now effort j t0 t reason layer tx pv. jb_request j = req \<and> stores_of_run G mw dry s0 t0
    \<and> evaluated (G now) mw effort pane j t0 = Some (Quad ((True, reason, layer), tx) pv, t))"
  using assms(1,4)
proof induction
  case (Step sent s new t)
  from run_sound [OF Step(1) assms(2,3)] have "sound_state G mw (stores_of_run G mw dry s0) s" .
  with Step sent_is_backed [OF Step(2)] show ?case by (metis Un_iff set_append)
qed simp

subsection \<open>Properties\<close>

text \<open>
  The ground of an approval of \<open>req\<close> given for the pane by an evaluation in the stores \<open>t0\<close> that
  leads to \<open>t\<close>: an entry of the lists of the user, or a licence of the specification of the audit.
\<close>

definition grounds :: "guard_world \<Rightarrow> audit_args \<Rightarrow> str \<Rightarrow> str \<Rightarrow> guard_state \<Rightarrow> guard_state \<Rightarrow> bool" where
  "grounds g a raw req t0 t \<longleftrightarrow>
     (\<exists>reason. allowlisted g req (tables t) = Some (Some reason))
     \<or> (\<exists>layer. \<exists>s1 \<in> {t0, snd (audit_shell_command g a raw t0)}.
          if strip req = [] \<or> \<not> re_found DYNAMIC_SUBSTITUTION_PATTERN req then licensed g a (strip req) s1 layer
          else \<exists>res. resolve_dynamic_substitutions_locally g req MAX_HOPS = Inr res
            \<and> (if re_found DYNAMIC_SUBSTITUTION_PATTERN res then layer = LLM_INSPECTOR else \<exists>l. licensed g a (strip res) s1 l))"


lemma keys_at_sight: "deliver v shown req = Some (d, sent) \<Longrightarrow> Keys k \<in> set sent \<Longrightarrow> shown k = Some req"
  by (auto simp: deliver_def channel_phase_def split: option.splits prod.splits bool.splits if_splits)

lemma nothing_sent: "deliver v shown req = Some (Carried_On, []) \<Longrightarrow> \<exists>k. shown k = None"
  by (auto simp: deliver_def channel_phase_def split: option.splits prod.splits bool.splits if_splits)

text \<open>The rows that a step adds to the log.\<close>

definition log_of :: "watcher_state \<Rightarrow> audit_entry list" where
  "log_of s = map ar_entry (audit_rows (tables (ws_gate s)))"

lemma pane_memory_tables [simp]: "tables (fold (\<lambda>e. record_pane_approval w now (pane_of e) (raw_of e)) es s) = tables s"
  by (induction es arbitrary: s) (simp_all add: record_pane_approval_def record_approval_def Let_def)

lemma log_of_simps [simp]:
  "log_of (with_inspector h s) = log_of s"
  "log_of (s\<lparr>ws_inspector := i\<rparr>) = log_of s"
  "log_of (noted pane p s) = log_of s"
  "log_of (logged g now e s) = log_of s @ [e]"
  "log_of (with_gate (resolve_escalation g now ra) s) = log_of s"
  "log_of (with_gate (\<lambda>u. snd (escalate_request g now pane info req reason layer kind shot tax u)) s) = log_of s"
  by (simp_all add: log_of_def with_inspector_def noted_def logged_def log_entry_def record_audit_log_def with_gate_def
      resolve_escalation_def escalate_request_def enqueue_pending_escalation_def Let_def split: option.split)

lemma drain_entry_fields [simp]:
  "en_pane (drain_entry pane req decision reason agent layer tax) = pane"
  "en_raw (drain_entry pane req decision reason agent layer tax) = req"
  "en_decision (drain_entry pane req decision reason agent layer tax) = decision"
  by (simp_all add: drain_entry_def)

lemma some_truth [simp]: "\<exists>b. b" "\<exists>b. \<not> b"
  by blast+

text \<open>What may be written to the log about a finished evaluation, given what was sent.\<close>

definition honest :: "bool \<Rightarrow> bool \<Rightarrow> attempt list \<Rightarrow> (nat \<Rightarrow> str option) \<Rightarrow> str \<Rightarrow> bool" where
  "honest dry ok sent shown decision \<longleftrightarrow>
     (if ok then decision = ''AUTO_APPROVED'' \<and> (dry \<or> sent \<noteq> [] \<or> (\<exists>k. shown k = None)) \<or> decision = ''AUTO_DEFERRED''
      else decision = ''MANUAL_DELEGATED'' \<and> sent = [])"

lemma settled_log:
  "log_of (settle g now pane info kind r (True, reason, layer) tax d s) = log_of s @
     (case d of Deferred \<Rightarrow> [drain_entry pane (wr_cmd r) ''AUTO_DEFERRED'' (deferral reason) kind layer tax]
         | Failed _ \<Rightarrow> [] | Carried_On \<Rightarrow> [drain_entry pane (wr_cmd r) ''AUTO_APPROVED'' reason kind layer tax])"
  by (cases d) (simp_all add: settle_def)


subsection \<open>A run\<close>

text \<open>A pane of the terminal client that shows its survey.\<close>

definition survey_demo :: str where
  "survey_demo = ''How'' @ [squote] @ ''s the CLI experience so far?'' @ [nl] @ ''[0] Skip''"

definition pane_demo :: json where
  "pane_demo = JObj [(''agent'', JStr ''agy'')]"

definition live_demo :: live_world where
  "live_demo = \<lparr>lv_info = pane_demo, lv_text = (\<lambda>_. survey_demo), lv_recent = (\<lambda>_. []), lv_channels = (\<lambda>_. (None, None)),
     lv_helper = False, lv_query = (\<lambda>_. None), lv_opt_in = False, lv_confirm = 0, lv_channel = (\<lambda>_. None),
     lv_keys = (\<lambda>_. Some (True, ''approved''))\<rparr>"

definition poll_demo :: poll_world where
  "poll_demo = live_world.extend live_demo \<lparr>pw_expanded = None, pw_channel = None, pw_cwd = ''/w'', pw_accepted = True,
     pw_evict = True, pw_polls = 2\<rparr>"

definition start_demo :: watcher_state where
  "start_demo = \<lparr>ws_gate = guard_state_demo, ws_inspector = no_inspections, ws_prompts = [], ws_gone = [], ws_questions = []\<rparr>"

definition request_of_demo :: watch_request where
  "request_of_demo = \<lparr>wr_cmd = ''feedback_survey_skip'', wr_seq = JInt 0, wr_status = [], wr_info = pane_demo, wr_text = survey_demo\<rparr>"

definition job_demo :: job where
  "job_demo = \<lparr>jb_raw = Some ''feedback_survey_skip'', jb_request = ''feedback_survey_skip'', jb_source = ''visible-fallback'',
     jb_cwd = ''/w'', jb_kind = ''agy'', jb_truncated = False\<rparr>"

lemma survey_parsed: "agy_parse survey_demo = Some ''feedback_survey_skip''" "agy_is_truncated survey_demo = False"
  by code_simp+

lemma agy_served: "get_adapter ''agy'' = Some agy" "kind_for live_demo pane_demo = Some ''agy''" "poll_kind poll_demo = Some ''agy''"
proof -
  show "get_adapter ''agy'' = Some agy" by (simp add: get_adapter_def registry_def agy_def)
  show "kind_for live_demo pane_demo = Some ''agy''" "poll_kind poll_demo = Some ''agy''"
    by (simp_all add: kind_for_def poll_kind_def live_demo_def poll_demo_def live_world.extend_def pane_demo_def
        resolve_watcher_agent_kind_def target_kinds agent_matches_def)
qed

lemma poll_demo_fields [simp]:
  "lv_info poll_demo = pane_demo" "lv_text poll_demo k = survey_demo" "lv_recent poll_demo k = []"
  "lv_channels poll_demo k = (None, None)" "pw_accepted poll_demo" "pw_cwd poll_demo = ''/w''" "pw_evict poll_demo"
  by (simp_all add: poll_demo_def live_world.extend_def live_demo_def)

lemma survey_seen:
  "look live_demo match_demo agy k = (Some ''feedback_survey_skip'', ''visible-fallback'')"
  "look poll_demo match_demo agy k = (Some ''feedback_survey_skip'', ''visible-fallback'')"
  by (simp_all add: look_def live_demo_def get_canonical_request_def agy_def survey_parsed present_def)

lemma pane_demo_fields: "truthy pane_demo" "seq_of pane_demo = JInt 0" "status_of pane_demo = []" "cwd_of pane_demo = []"
  by code_simp+

lemma first_poll:
  "poll_pane guard_demo match_demo now poll_demo ''wP:p1'' start_demo
     = Some (start_demo\<lparr>ws_inspector := no_inspections\<lparr>owned := [(''wP:p1'', request_of_demo, ''in_flight'')],
          in_flight := [(''wP:p1'', request_of_demo, job_demo, Running)]\<rparr>\<rparr>)"
proof -
  have c: "starts_with ''no unsafe escalation'' ''debounced'' = False" "starts_with ''feedback_survey_skip'' ''question'' = False" by code_simp+
  have t: "ad_truncated agy survey_demo = False" "ad_parse agy survey_demo = Some ''feedback_survey_skip''"
    by (simp_all add: agy_def survey_parsed)
  show ?thesis
    by (simp add: poll_pane_def pane_demo_fields agy_served survey_seen present_def start_demo_def c pane_direct_maybe_evict_def
        should_evict_pane_direct_def same_prompt_def submit_request_def maybe_expand_truncated_dialog_def t submit_def
        no_inspections_def Let_def text_else_def request_of_demo_def job_demo_def)
qed

definition queued_demo :: "future \<Rightarrow> watcher_state" where
  "queued_demo f = start_demo\<lparr>ws_inspector := no_inspections\<lparr>owned := [(''wP:p1'', request_of_demo, ''in_flight'')],
     in_flight := [(''wP:p1'', request_of_demo, job_demo, f)]\<rparr>\<rparr>"

lemma evaluation_demo:
  obtains reason tx pv where "run_job guard_demo match_demo effort exc ''wP:p1'' (queued_demo Running)
      = queued_demo (Done (Inr (Quad ((True, reason, FAST_TRACK_AST), tx) pv)))"
proof -
  have "aa_origin (job_args effort ''wP:p1'' job_demo) = HUMAN \<or> aa_origin (job_args effort ''wP:p1'' job_demo) = AGENT"
    by (simp add: job_args_def)
  from survey_evaluated [OF this] obtain reason tx pv where
    e: "evaluated guard_demo match_demo effort ''wP:p1'' job_demo guard_state_demo = Some (Quad ((True, reason, FAST_TRACK_AST), tx) pv, guard_state_demo)"
    by (auto simp: evaluated_def job_demo_def)
  show ?thesis
    by (rule that [of reason tx pv])
      (simp add: run_job_def queued_demo_def e finish_def with_inspector_def start_demo_def no_inspections_def)
qed

lemma live_request_demo: "live_request live_demo match_demo pane_demo = Some ''feedback_survey_skip''"
  by (simp add: live_request_def agy_served survey_seen)

lemma live_info_demo [simp]: "lv_info live_demo = pane_demo"
  by (simp add: live_demo_def)

lemma sent_demo:
  assumes "unpacked res = Some ((True, reason, layer), tax)"
  shows "\<exists>t. drain_one guard_demo match_demo 0 False [] live_demo (''wP:p1'', request_of_demo, res) s = Some (t, [Keys 1])"
proof -
  have "deliver live_demo (\<lambda>k. fst (look live_demo match_demo agy k)) ''feedback_survey_skip'' = Some (Carried_On, [Keys 1])"
    by (simp add: deliver_def channel_phase_def survey_seen) (simp add: live_demo_def)
  then show ?thesis
    by (simp add: drain_one_def Let_def live_request_demo agy_served assms request_of_demo_def)
qed

lemma run_demo:
  "\<exists>t. watch_run (\<lambda>_. guard_demo) match_demo False start_demo [(''wP:p1'', ''feedback_survey_skip'', Keys 1)] t"
proof -
  let ?G = "\<lambda>_ :: int. guard_demo"
  obtain reason tx pv where e: "run_job guard_demo match_demo [] [] ''wP:p1'' (queued_demo Running)
      = queued_demo (Done (Inr (Quad ((True, reason, FAST_TRACK_AST), tx) pv)))" by (rule evaluation_demo)
  let ?res = "Inr (Quad ((True, reason, FAST_TRACK_AST), tx) pv) :: str + evaluation"
  have "watch_step ?G match_demo False start_demo [] (queued_demo Running)"
    unfolding queued_demo_def by (rule watch_step.Poll [where now = 0, OF first_poll])
  from watch_run.Step [OF watch_run.Start this] have r1: "watch_run ?G match_demo False start_demo [] (queued_demo Running)" by simp
  have "watch_step ?G match_demo False (queued_demo Running) [] (queued_demo (Done ?res))"
    using watch_step.Evaluate [of ?G match_demo False "queued_demo Running" 0 "[]" "[]" "''wP:p1''"] by (simp add: e)
  from watch_run.Step [OF r1 this] have r2: "watch_run ?G match_demo False start_demo [] (queued_demo (Done ?res))" by simp
  have "unpacked ?res = Some ((True, reason, FAST_TRACK_AST), Some (tx, pv))" by (simp add: unpacked_def)
  from sent_demo [OF this] obtain t where d:
    "drain_one guard_demo match_demo 0 False [] live_demo (''wP:p1'', request_of_demo, ?res) (queued_demo (Done ?res)) = Some (t, [Keys 1])" by blast
  have "completed_now (ws_inspector (queued_demo (Done ?res))) = [(''wP:p1'', request_of_demo, ?res)]"
    by (simp add: completed_now_def queued_demo_def)
  with d have "drain_completed_inspections guard_demo match_demo 0 False [] (\<lambda>_. live_demo) (queued_demo (Done ?res))
      = Some (t, [(''wP:p1'', ''feedback_survey_skip'', Keys 1)])"
    by (simp add: drain_completed_inspections_def request_of_demo_def)
  from watch_run.Step [OF r2 watch_step.Drain [where G = ?G and now = 0, OF this]] show ?thesis by auto
qed



subsection \<open>Where the loop departs from its comments\<close>

text \<open>
  C35: A dialog that stays folded ends the daemon.  Its evaluation returns three fields; if
  the dialog is still shown when the evaluation is drained, the unpacking into four raises an
  exception that nothing catches, instead of the refusal that the comments promise.
\<close>

theorem truncated_dialog_stops_the_watcher:
  assumes "in_flight (ws_inspector s) = [(pane, r, j, Running)]" and "jb_truncated j"
    and "live_request (v pane) mw (lv_info (v pane)) = Some (wr_cmd r)"
  shows "drain_completed_inspections g mw now dry trace v (run_job g' mw effort exc pane s) = None"
proof -
  have "evaluated g' mw effort pane j (ws_gate s) = Some (truncated_evaluate_result, ws_gate s)"
    by (simp add: evaluated_def watcher_evaluate_def assms(2))
  then have "completed_now (ws_inspector (run_job g' mw effort exc pane s)) = [(pane, r, Inr truncated_evaluate_result)]"
    by (simp add: run_job_def assms(1) finish_def completed_now_def)
  then show ?thesis
    by (simp add: drain_completed_inspections_def drain_one_def Let_def assms(3) unpacked_def truncated_evaluate_result_def)
qed

theorem truncated_dialog_stops_the_watcher_witness:
  "drain_completed_inspections guard_demo match_demo 0 False [] (\<lambda>_. live_demo) (run_job guard_demo match_demo [] [] ''wP:p1''
     (start_demo\<lparr>ws_inspector := no_inspections\<lparr>in_flight := [(''wP:p1'', request_of_demo, job_demo\<lparr>jb_truncated := True\<rparr>, Running)]\<rparr>\<rparr>)) = None"
  by (rule truncated_dialog_stops_the_watcher [where r = request_of_demo and j = "job_demo\<lparr>jb_truncated := True\<rparr>"])
    (simp_all add: live_request_demo request_of_demo_def)

text \<open>
  A dialog that vanished counts as approved.  If the approved request is live when the
  drain begins and gone at the next look, nothing is sent, but the log says
  \<open>AUTO_APPROVED\<close> and the queued requests of the pane are resolved; the comments allow this
  row only after a verified injection.
\<close>

lemma vanished_dialog_is_logged_as_approved:
  assumes "unpacked res = Some ((True, reason, layer), tax)" and "\<not> lv_opt_in v"
    and "kind_for v (lv_info v) = Some kind" and "get_adapter kind = Some ad"
    and "fst (look v mw ad 0) = Some (wr_cmd r)" and "fst (look v mw ad 1) = None"
  shows "\<exists>t. drain_one g mw now False trace v (pane, r, res) s = Some (t, []) \<and> en_decision (last (log_of t)) = ''AUTO_APPROVED''"
proof -
  have d: "deliver v (\<lambda>k. fst (look v mw ad k)) (wr_cmd r) = Some (Carried_On, [])"
    using assms(2,6) by (simp add: deliver_def channel_phase_def)
  have l: "live_request v mw (lv_info v) = Some (wr_cmd r)" by (simp add: live_request_def assms(3-5))
  show ?thesis
    by (simp add: drain_one_def Let_def l assms(1,3,4) d settled_log)
qed

lemma vanished_dialog_is_logged_as_approved_witness:
  "\<exists>t. drain_one guard_demo match_demo 0 False [] (live_demo\<lparr>lv_text := (\<lambda>k. if k = 0 then survey_demo else [])\<rparr>)
      (''wP:p1'', request_of_demo, Inr (Quad ((True, [], ALLOWLIST), derive_taxonomy None [] ALLOWLIST True [] HUMAN) None)) start_demo = Some (t, [])
    \<and> en_decision (last (log_of t)) = ''AUTO_APPROVED''"
proof -
  let ?v = "live_demo\<lparr>lv_text := (\<lambda>k. if k = 0 then survey_demo else [])\<rparr>"
  have e: "agy_parse [] = None" "agy_dialog_is_live [] = False" "agy_question_is_live [] = False" by code_simp+
  have i: "lv_info ?v = pane_demo" by (simp add: live_demo_def)
  have k: "kind_for ?v (lv_info ?v) = Some ''agy''"
    using agy_served(2) by (simp add: kind_for_def live_demo_def pane_demo_fields(1))
  have s: "fst (look ?v match_demo agy 0) = Some (wr_cmd request_of_demo)" "fst (look ?v match_demo agy 1) = None"
    by (simp_all add: look_def live_demo_def get_canonical_request_def agy_def survey_parsed present_def e request_of_demo_def)
  show ?thesis
    by (rule vanished_dialog_is_logged_as_approved [OF _ _ k agy_served(1) s]) (simp_all add: unpacked_def live_demo_def)
qed

text \<open>
  A request that is not shown any more when its turn comes is dropped from the queue, but the
  pane stays owned: no other request of the pane is evaluated until its dialog has cleared.
\<close>

lemma dropped_request_keeps_pane:
  assumes "active_human (ws_inspector s) = None" and "human_queue (ws_inspector s) = h # hs"
    and "map_of (owned (ws_inspector s)) (hr_pane h) = Some held"
    and "live_request (v (hr_pane h)) mw (hr_live_info h) \<noteq> Some (wr_cmd (hr_request h))"
  shows "human_queue (ws_inspector (publish_next g mw now v s)) = hs
    \<and> fst (submit accepted (hr_pane h) r j (ws_inspector (publish_next g mw now v s)))
      = Some (False, ws_inspector (publish_next g mw now v s))"
  using assms by (simp add: publish_next_def Let_def submit_def with_inspector_def)

end
