(* ===== verification/Telemetry.thy ===== *)
theory Telemetry
  imports Escalations
begin

text \<open>
  The timelines of the escalations (\<open>scripts/core/gatekeeper_telemetry.py\<close>): what may enter the
  document, how it is read back from its file, and the operations on it, each of which reads the
  file again under its lock.  The file is the value that it parses to, \<open>None\<close> when it is absent
  or cannot be read; a dictionary whose order nobody sees is kept in the order of its keys.
\<close>

subsection \<open>What may enter\<close>

definition NUMBER_FIELDS :: "str list" where
  "NUMBER_FIELDS = [''turn'', ''attempt'', ''status_code'', ''backoff_ms'']"

definition EVENT_FIELDS :: "str list" where
  "EVENT_FIELDS = [''phase'', ''turn'', ''attempt'', ''tool'', ''status_code'', ''completion_state'', ''backoff_ms'', ''decision_layer'']"

definition STAGES :: "str list" where
  "STAGES = [''detection'', ''deterministic_evaluation'', ''queue'', ''llm_attempt'', ''retry_backoff'', ''inspector_turn'',
     ''judge_turn'', ''tool_call'', ''terminal_delivery'']"

definition EVENT_OUTCOMES :: "str list" where
  "EVENT_OUTCOMES = [''detected'', ''delegated'', ''enqueued'', ''success'', ''retry'', ''http_error'', ''network_error'',
     ''cancelled'', ''failed'', ''complete'', ''delivered'', ''dialog_changed'']"

definition PHASES :: "str list" where
  "PHASES = [''Inspector'', ''Judge'']"

definition TOOLS :: "str list" where
  "TOOLS = [''investigate_pane_history'', ''investigate_path_details'', ''read_file_snippet'', ''grep_search'', ''view_file_slice'',
     ''approve_escalation'', ''reject_escalation'', ''create_feature_request'', ''search_feature_requests'']"

definition COMPLETION_STATES :: "str list" where
  "COMPLETION_STATES = [''complete'', ''truncated'', ''failed'', ''cancelled'']"

definition TERMINAL_OUTCOMES :: "str list" where
  "TERMINAL_OUTCOMES = [''approved'', ''rejected'', ''deferred'', ''cancelled'', ''delivery_failed'']"

definition TERMINAL_REASONS :: "str list" where
  "TERMINAL_REASONS = [''gatekeeper_approved'', ''gatekeeper_rejected'', ''model_no_tool_call'', ''inspector_truncated'',
     ''inspector_api_failure'', ''judge_api_failure'', ''user_cancelled'', ''inspector_turn_limit'', ''approval_delivery_failed'',
     ''rejection_delivery_failed'', ''adjudication_delivery_failed'', ''adjudication_internal_error'', ''internal_error'',
     ''dialog_changed'', ''stale_dialog'', ''superseded'', ''tool_failure'', ''context_cap_exceeded'']"

definition DECISION_LAYERS :: "str list" where
  "DECISION_LAYERS = [''ALLOWLIST'', ''MANAGED_GIT_GUARD'', ''SAST_SHELLCHECK'', ''SAST_SEMGREP'', ''SHELL_CRITICAL'',
     ''SANDBOX_GUARD'', ''PYTHON_AST'', ''SECRET_GUARD'', ''LLM_INSPECTOR'', ''CLOUD_JUDGE'', ''GRAY_ZONE_MATRIX'',
     ''FAST_TRACK_AST'', ''NOT_ALLOWLISTED'', ''HUMAN_APPROVED'', ''PACKAGE_GUARD'', ''COMPLEXITY_TAX'', ''ORIGIN_GUARD'',
     ''NORMALIZATION_AMBIGUOUS'', ''FAST_TRACK_WORKSPACE_ALLOWLIST'', ''OPENCODE_FAILSAFE'']"

text \<open>\<open>_enum\<close>; the text of a value that is not a text is in none of the sets.\<close>

definition enum_or :: "str \<Rightarrow> str list \<Rightarrow> json \<Rightarrow> str" where
  "enum_or d allowed v = (case v of JStr s \<Rightarrow> if s \<in> set allowed then s else d | _ \<Rightarrow> d)"

abbreviation enum :: "str list \<Rightarrow> json \<Rightarrow> str" where
  "enum \<equiv> enum_or ''unknown''"

text \<open>\<open>int\<close> of a text: blanks around, a sign, digits with single underscores, not too many.\<close>

definition unsigned_text :: "str \<Rightarrow> nat option" where
  "unsigned_text s =
     (let parts = split_char (CHR ''_'') s; ds = concat parts in
      if list_all (\<lambda>p. p \<noteq> [] \<and> list_all is_digit p) parts \<and> int (length ds) \<le> 4300 then Some (read_nat ds) else None)"

definition int_text :: "str \<Rightarrow> int option" where
  "int_text s =
     (case strip s of
        [] \<Rightarrow> None
      | c # cs \<Rightarrow>
          if c = CHR ''-'' then map_option (\<lambda>n. - int n) (unsigned_text cs)
          else if c = CHR ''+'' then map_option int (unsigned_text cs)
          else map_option int (unsigned_text (c # cs)))"

text \<open>\<open>None\<close>: an infinity, which raises an exception that \<open>_non_negative_int\<close> does not catch.\<close>

definition non_negative_int :: "json \<Rightarrow> int option" where
  "non_negative_int v =
     (case v of
        JBool b \<Rightarrow> Some (if b then 1 else 0)
      | JInt i \<Rightarrow> Some (max 0 i)
      | JFloat (Fin r) \<Rightarrow> Some (max 0 (floor r))
      | JFloat NaN \<Rightarrow> Some 0
      | JFloat _ \<Rightarrow> None
      | JStr s \<Rightarrow> Some (max 0 (case int_text s of Some i \<Rightarrow> i | None \<Rightarrow> 0))
      | _ \<Rightarrow> Some 0)"

definition field_value :: "str \<Rightarrow> json \<Rightarrow> json option" where
  "field_value k v =
     (if k \<in> set NUMBER_FIELDS then map_option JInt (non_negative_int v)
      else if k = ''phase'' then Some (JStr (enum PHASES v))
      else if k = ''tool'' then Some (JStr (enum_or ''unknown_tool'' TOOLS v))
      else if k = ''completion_state'' then Some (JStr (enum COMPLETION_STATES v))
      else Some (JStr (enum DECISION_LAYERS v)))"

text \<open>The fields of an event that are present, \<open>None\<close> when one of them raises an exception.\<close>

definition event_fields :: "(str \<Rightarrow> json) \<Rightarrow> (str \<times> json) list option" where
  "event_fields look =
     those (map (\<lambda>k. map_option (Pair k) (field_value k (look k))) (filter (\<lambda>k. look k \<noteq> JNull) EVENT_FIELDS))"

subsection \<open>The document\<close>

record tl_event =
  ev_seq :: nat
  ev_stage :: str
  ev_start :: int
  ev_finish :: int
  ev_ms :: pyfloat
  ev_outcome :: str
  ev_fields :: "(str \<times> json) list"

record tl_terminal =
  tm_at :: int
  tm_outcome :: str
  tm_reason :: str
  tm_state :: str

record tl_data =
  tl_corr :: str
  tl_layer :: str
  tl_path :: "str list"
  tl_events :: "tl_event list"
  tl_terminal :: "tl_terminal option"

record timeline =
  tt_id :: nat
  tt_data :: tl_data
  tt_loaded :: bool

text \<open>
  What an operation gets from outside: the hexadecimal text of a random identifier, the clock at
  its two readings, the rounded quotient of a duration and a million (\<open>None\<close>: too large), and
  whether the lock is obtained and the file written.
\<close>

record tl_world =
  tw_uuid :: str
  tw_now :: int
  tw_later :: int
  tw_ms :: "int \<Rightarrow> pyfloat option"
  tw_locks :: bool
  tw_writes :: bool

definition event_of :: "tl_world \<Rightarrow> nat \<Rightarrow> json \<Rightarrow> json \<Rightarrow> json \<Rightarrow> json \<Rightarrow> (str \<Rightarrow> json) \<Rightarrow> tl_event option" where
  "event_of w n stage start fin outcome look =
     (case (non_negative_int start, non_negative_int fin) of
        (Some a, Some b) \<Rightarrow>
          (case (tw_ms w (max a b - a), event_fields look) of
             (Some ms, Some fs) \<Rightarrow>
               Some \<lparr>ev_seq = n, ev_stage = enum STAGES stage, ev_start = a, ev_finish = max a b, ev_ms = ms,
                     ev_outcome = enum EVENT_OUTCOMES outcome, ev_fields = fs\<rparr>
           | _ \<Rightarrow> None)
      | _ \<Rightarrow> None)"

text \<open>Sorted by the start, then by the number, and numbered again from 1 on.\<close>

definition renumbered :: "tl_event list \<Rightarrow> tl_event list" where
  "renumbered es = map (\<lambda>(i, e). e\<lparr>ev_seq := i\<rparr>) (enumerate 1 (sort_key ev_start (sort_key ev_seq es)))"

definition path_of :: "tl_event list \<Rightarrow> str list" where
  "path_of es = first_keys (map ev_stage es)"

definition fresh_data :: "tl_world \<Rightarrow> tl_data" where
  "fresh_data w = \<lparr>tl_corr = tw_uuid w, tl_layer = ''unknown'', tl_path = [], tl_events = [], tl_terminal = None\<rparr>"

definition is_hex :: "char \<Rightarrow> bool" where
  "is_hex c \<longleftrightarrow> c \<in> set ''0123456789abcdef''"

definition is_correlation :: "str \<Rightarrow> bool" where
  "is_correlation s \<longleftrightarrow> length s = 32 \<and> list_all is_hex s"

text \<open>The text of \<open>str(v or '')\<close>, where it can be an identifier.\<close>

definition correlation_text :: "json \<Rightarrow> str" where
  "correlation_text v = (case v of JStr s \<Rightarrow> s | JInt i \<Rightarrow> if i = 0 then [] else show_int i | _ \<Rightarrow> [])"

definition correlation_of :: "tl_world \<Rightarrow> json \<Rightarrow> str" where
  "correlation_of w v = (if is_correlation (correlation_text v) then correlation_text v else tw_uuid w)"

definition same_number :: "json \<Rightarrow> nat \<Rightarrow> bool" where
  "same_number v n \<longleftrightarrow>
     (case v of JInt i \<Rightarrow> i = int n | JFloat (Fin r) \<Rightarrow> r = of_nat n | JBool b \<Rightarrow> (if b then n = 1 else n = 0) | _ \<Rightarrow> False)"

definition raw_events :: "json \<Rightarrow> json list option" where
  "raw_events v =
     (case v of
        JArr xs \<Rightarrow> Some (filter is_obj xs)
      | JInt i \<Rightarrow> if i = 0 then Some [] else None
      | JFloat f \<Rightarrow> if truthy (JFloat f) then None else Some []
      | JBool b \<Rightarrow> if b then None else Some []
      | _ \<Rightarrow> Some [])"

definition terminal_of :: "json \<Rightarrow> tl_terminal option option" where
  "terminal_of v =
     (if \<not> is_obj v then Some None
      else map_option (\<lambda>t. Some \<lparr>tm_at = t, tm_outcome = enum TERMINAL_OUTCOMES (jget ''outcome'' v),
             tm_reason = enum TERMINAL_REASONS (jget ''reason'' v), tm_state = enum COMPLETION_STATES (jget ''completion_state'' v)\<rparr>)
           (non_negative_int (jget ''at_monotonic_ns'' v)))"

definition read_event :: "tl_world \<Rightarrow> nat \<times> json \<Rightarrow> tl_event option" where
  "read_event w p = (case p of (i, v) \<Rightarrow>
     event_of w i (jget ''stage'' v) (jget ''started_monotonic_ns'' v) (jget ''finished_monotonic_ns'' v) (jget ''outcome'' v) (\<lambda>k. jget k v))"

text \<open>\<open>_sanitized_data\<close>: \<open>None\<close> stands for an exception, \<open>Some None\<close> for the answer \<open>None\<close>.\<close>

definition sanitized_data :: "tl_world \<Rightarrow> nat \<Rightarrow> json \<Rightarrow> tl_data option option" where
  "sanitized_data w n v =
     (if \<not> is_obj v \<or> \<not> same_number (jget ''escalation_id'' v) n then Some None
      else (case raw_events (jget ''events'' v) of
          None \<Rightarrow> None
        | Some raws \<Rightarrow>
            (case (those (map (read_event w) (enumerate 1 raws)), terminal_of (jget ''terminal'' v)) of
               (Some es, Some t) \<Rightarrow>
                 (let es' = renumbered es in
                  Some (Some \<lparr>tl_corr = correlation_of w (jget ''correlation_id'' v), tl_layer = enum DECISION_LAYERS (jget ''decision_layer'' v),
                     tl_path = path_of es', tl_events = es', tl_terminal = t\<rparr>))
             | _ \<Rightarrow> None)))"

text \<open>The dictionary that is written.\<close>

definition event_doc :: "tl_event \<Rightarrow> json" where
  "event_doc e = JObj
     ([(''sequence'', JInt (int (ev_seq e))), (''stage'', JStr (ev_stage e)), (''started_monotonic_ns'', JInt (ev_start e)),
       (''finished_monotonic_ns'', JInt (ev_finish e)), (''duration_ms'', JFloat (ev_ms e)), (''outcome'', JStr (ev_outcome e))] @ ev_fields e)"

definition terminal_doc :: "tl_terminal option \<Rightarrow> json" where
  "terminal_doc t = (case t of None \<Rightarrow> JNull | Some m \<Rightarrow> JObj
     [(''at_monotonic_ns'', JInt (tm_at m)), (''outcome'', JStr (tm_outcome m)), (''reason'', JStr (tm_reason m)),
      (''completion_state'', JStr (tm_state m))])"

definition timeline_doc :: "nat \<Rightarrow> tl_data \<Rightarrow> json" where
  "timeline_doc n d = JObj
     [(''schema_version'', JInt 1), (''correlation_id'', JStr (tl_corr d)), (''escalation_id'', JInt (int n)),
      (''decision_layer'', JStr (tl_layer d)), (''decision_path'', JArr (map JStr (tl_path d))),
      (''events'', JArr (map event_doc (tl_events d))), (''terminal'', terminal_doc (tl_terminal d))]"

subsection \<open>Operations\<close>

definition clean_file :: "tl_world \<Rightarrow> nat \<Rightarrow> json option \<Rightarrow> tl_data option" where
  "clean_file w n file = (case file of None \<Rightarrow> None | Some v \<Rightarrow> (case sanitized_data w n v of Some d \<Rightarrow> d | None \<Rightarrow> None))"

definition load_timeline :: "tl_world \<Rightarrow> nat \<Rightarrow> json option \<Rightarrow> timeline" where
  "load_timeline w n file =
     (case clean_file w n file of
        Some d \<Rightarrow> \<lparr>tt_id = n, tt_data = d, tt_loaded = True\<rparr>
      | None \<Rightarrow> \<lparr>tt_id = n, tt_data = fresh_data w, tt_loaded = False\<rparr>)"

definition mutate :: "tl_world \<Rightarrow> (tl_data \<Rightarrow> tl_data option) \<Rightarrow> timeline \<Rightarrow> json option \<Rightarrow> timeline \<times> json option" where
  "mutate w f t file =
     (if \<not> tw_locks w then (t, file)
      else (let d = (case clean_file w (tt_id t) file of Some c \<Rightarrow> c | None \<Rightarrow> tt_data t) in
        case f d of
          None \<Rightarrow> (t\<lparr>tt_data := d\<rparr>, file)
        | Some d' \<Rightarrow> (t\<lparr>tt_data := d'\<rparr>, if tw_writes w then Some (timeline_doc (tt_id t) d') else file)))"

definition or_now :: "json \<Rightarrow> int \<Rightarrow> json" where
  "or_now v now = (if v = JNull then JInt now else v)"

record event_args =
  ea_stage :: json
  ea_start :: json
  ea_finish :: json
  ea_outcome :: json
  ea_fields :: "(str \<times> json) list"

definition appended :: "tl_world \<Rightarrow> event_args \<Rightarrow> tl_data \<Rightarrow> tl_data option" where
  "appended w a d =
     map_option (\<lambda>e. let es = renumbered (tl_events d @ [e]) in d\<lparr>tl_events := es, tl_path := path_of es\<rparr>)
       (event_of w (Suc (length (tl_events d))) (ea_stage a) (or_now (ea_start a) (tw_now w)) (or_now (ea_finish a) (tw_later w))
          (ea_outcome a) (\<lambda>k. jget k (JObj (ea_fields a))))"

definition record_event :: "tl_world \<Rightarrow> event_args \<Rightarrow> timeline \<Rightarrow> json option \<Rightarrow> timeline \<times> json option" where
  "record_event w a = mutate w (appended w a)"

text \<open>An adjudication or a cancellation is final, and a failed delivery is not softened.\<close>

definition is_final :: "tl_terminal option \<Rightarrow> bool" where
  "is_final t \<longleftrightarrow> (case t of None \<Rightarrow> False | Some m \<Rightarrow> tm_outcome m \<in> set [''approved'', ''rejected'', ''cancelled''])"

definition keeps_failure :: "tl_terminal option \<Rightarrow> str \<Rightarrow> bool" where
  "keeps_failure t outcome \<longleftrightarrow> (case t of None \<Rightarrow> False | Some m \<Rightarrow> tm_outcome m = ''delivery_failed'' \<and> outcome = ''deferred'')"

definition finished :: "tl_world \<Rightarrow> str \<Rightarrow> str \<Rightarrow> str \<Rightarrow> tl_data \<Rightarrow> tl_data" where
  "finished w outcome reason state d =
     (if is_final (tl_terminal d) \<or> keeps_failure (tl_terminal d) (enum TERMINAL_OUTCOMES (JStr outcome)) then d
      else d\<lparr>tl_terminal := Some \<lparr>tm_at = tw_now w, tm_outcome = enum TERMINAL_OUTCOMES (JStr outcome),
               tm_reason = enum TERMINAL_REASONS (JStr reason), tm_state = enum COMPLETION_STATES (JStr state)\<rparr>\<rparr>)"

definition finish_timeline :: "tl_world \<Rightarrow> str \<Rightarrow> str \<Rightarrow> str \<Rightarrow> timeline \<Rightarrow> json option \<Rightarrow> timeline \<times> json option" where
  "finish_timeline w outcome reason state = mutate w (\<lambda>d. Some (finished w outcome reason state d))"

text \<open>A new escalation continues a timeline that has events and no end, and replaces any other.\<close>

definition reset_data :: "tl_world \<Rightarrow> json \<Rightarrow> tl_data \<Rightarrow> tl_data" where
  "reset_data w layer d =
     (if tl_events d \<noteq> [] \<and> tl_terminal d = None then d\<lparr>tl_layer := enum DECISION_LAYERS layer\<rparr>
      else (fresh_data w)\<lparr>tl_layer := enum DECISION_LAYERS layer\<rparr>)"

definition pre_event :: "json \<Rightarrow> event_args" where
  "pre_event v = \<lparr>ea_stage = jget ''stage'' v, ea_start = jget ''started_ns'' v, ea_finish = jget ''finished_ns'' v,
     ea_outcome = jget ''outcome'' v, ea_fields = map (\<lambda>k. (k, jget k v)) EVENT_FIELDS\<rparr>"

record begin_args =
  ba_layer :: json
  ba_detected :: int
  ba_started :: int
  ba_finished :: int
  ba_queued :: "int option"
  ba_outcome :: str
  ba_pre :: "json list"

text \<open>The events that \<open>begin\<close> records, \<open>now\<close> being the time of the queueing.\<close>

definition begin_events :: "begin_args \<Rightarrow> int \<Rightarrow> event_args list" where
  "begin_events a now =
     (let queued = max 0 (case ba_queued a of Some q \<Rightarrow> if q = 0 then now else q | None \<Rightarrow> now) in
      [\<lparr>ea_stage = JStr ''detection'', ea_start = JInt (ba_detected a), ea_finish = JInt (ba_started a), ea_outcome = JStr ''detected'', ea_fields = []\<rparr>,
       \<lparr>ea_stage = JStr ''deterministic_evaluation'', ea_start = JInt (ba_started a), ea_finish = JInt (ba_finished a),
         ea_outcome = JStr (ba_outcome a), ea_fields = [(''decision_layer'', ba_layer a)]\<rparr>,
       \<lparr>ea_stage = JStr ''queue'', ea_start = JInt (ba_finished a), ea_finish = JInt queued, ea_outcome = JStr ''enqueued'', ea_fields = []\<rparr>]
      @ map pre_event (filter is_obj (ba_pre a)))"

text \<open>The worlds of the successive operations.\<close>

definition record_events :: "(nat \<Rightarrow> tl_world) \<Rightarrow> event_args list \<Rightarrow> timeline \<times> json option \<Rightarrow> timeline \<times> json option" where
  "record_events W as s = fold (\<lambda>(i, a) (t, file). record_event (W i) a t file) (enumerate 0 as) s"

definition begin_timeline :: "(nat \<Rightarrow> tl_world) \<Rightarrow> nat \<Rightarrow> begin_args \<Rightarrow> json option \<Rightarrow> timeline \<times> json option" where
  "begin_timeline W n a file =
     record_events (\<lambda>i. W (Suc (Suc i))) (begin_events a (tw_now (W 1)))
       (mutate (W 1) (\<lambda>d. Some (reset_data (W 1) (ba_layer a) d)) (load_timeline (W 0) n file) file)"

subsection \<open>Sound documents\<close>

text \<open>The texts of a value: its keys and its text values.\<close>

fun json_strings :: "json \<Rightarrow> str list" where
  "json_strings (JStr s) = [s]"
| "json_strings (JArr xs) = concat (map json_strings xs)"
| "json_strings (JObj ms) = concat (map (\<lambda>(k, v). k # json_strings v) ms)"
| "json_strings _ = []"

definition DOC_KEYS :: "str list" where
  "DOC_KEYS = [''schema_version'', ''correlation_id'', ''escalation_id'', ''decision_layer'', ''decision_path'', ''events'', ''terminal'',
     ''sequence'', ''stage'', ''started_monotonic_ns'', ''finished_monotonic_ns'', ''duration_ms'', ''outcome'', ''at_monotonic_ns'',
     ''reason'', ''completion_state'']"

definition LABELS :: "str list" where
  "LABELS = [''unknown'', ''unknown_tool''] @ DOC_KEYS @ EVENT_FIELDS @ STAGES @ EVENT_OUTCOMES @ PHASES @ TOOLS @ COMPLETION_STATES
     @ TERMINAL_OUTCOMES @ TERMINAL_REASONS @ DECISION_LAYERS"

lemma enum_stable [simp]: "enum_or d allowed (JStr (enum_or d allowed v)) = enum_or d allowed v"
  by (simp add: enum_or_def split: json.splits)

lemma enum_label: "enum_or d allowed v = d \<or> enum_or d allowed v \<in> set allowed"
  by (simp add: enum_or_def split: json.splits)

definition fixed_by :: "str list \<Rightarrow> str \<Rightarrow> bool" where
  "fixed_by allowed s \<longleftrightarrow> enum allowed (JStr s) = s"

lemma fixed_enum [simp]: "fixed_by allowed (enum allowed v)"
  by (simp add: fixed_by_def)

lemma fixed_label: "fixed_by allowed s \<Longrightarrow> s = ''unknown'' \<or> s \<in> set allowed"
  by (metis enum_label fixed_by_def)

definition sound_fields :: "(str \<times> json) list \<Rightarrow> bool" where
  "sound_fields fs \<longleftrightarrow> event_fields (\<lambda>k. jget k (JObj fs)) = Some fs"

definition sound_event :: "(int \<Rightarrow> pyfloat option) \<Rightarrow> tl_event \<Rightarrow> bool" where
  "sound_event ms e \<longleftrightarrow> 0 \<le> ev_start e \<and> ev_start e \<le> ev_finish e \<and> ms (ev_finish e - ev_start e) = Some (ev_ms e)
     \<and> fixed_by STAGES (ev_stage e) \<and> fixed_by EVENT_OUTCOMES (ev_outcome e) \<and> sound_fields (ev_fields e)"

definition sound_terminal :: "tl_terminal option \<Rightarrow> bool" where
  "sound_terminal t \<longleftrightarrow> (case t of None \<Rightarrow> True | Some m \<Rightarrow> 0 \<le> tm_at m \<and> fixed_by TERMINAL_OUTCOMES (tm_outcome m)
     \<and> fixed_by TERMINAL_REASONS (tm_reason m) \<and> fixed_by COMPLETION_STATES (tm_state m))"

definition sound_events :: "(int \<Rightarrow> pyfloat option) \<Rightarrow> tl_event list \<Rightarrow> bool" where
  "sound_events ms es \<longleftrightarrow> list_all (sound_event ms) es \<and> map ev_seq es = [1 ..< Suc (length es)] \<and> sorted (map ev_start es)"

definition sound_data :: "(int \<Rightarrow> pyfloat option) \<Rightarrow> tl_data \<Rightarrow> bool" where
  "sound_data ms d \<longleftrightarrow> is_correlation (tl_corr d) \<and> fixed_by DECISION_LAYERS (tl_layer d) \<and> sound_events ms (tl_events d)
     \<and> tl_path d = path_of (tl_events d) \<and> sound_terminal (tl_terminal d)"

text \<open>A value that was admitted is admitted unchanged.\<close>

lemma number_stable: "non_negative_int v = Some i \<Longrightarrow> 0 \<le> i"
  by (auto simp: non_negative_int_def split: json.splits pyfloat.splits)

lemma number_again: "non_negative_int v = Some i \<Longrightarrow> non_negative_int (JInt i) = Some i"
  using number_stable [of v i] by (simp add: non_negative_int_def)

lemma field_stable:
  assumes "field_value k v = Some u"
  shows "u \<noteq> JNull \<and> field_value k u = Some u"
proof (cases "k \<in> set NUMBER_FIELDS")
  case True
  with assms obtain i where "non_negative_int v = Some i" "u = JInt i" by (auto simp: field_value_def)
  with True number_again show ?thesis by (auto simp: field_value_def)
next
  case False
  then have "\<exists>d A. \<forall>w. field_value k w = Some (JStr (enum_or d A w))" unfolding field_value_def by metis
  with assms show ?thesis by auto
qed

lemma those_pairs:
  assumes "those (map (\<lambda>k. map_option (Pair k) (f k)) ks) = Some fs"
  shows "map fst fs = ks" and "\<forall>(k, u) \<in> set fs. f k = Some u"
  using assms by (induction ks arbitrary: fs) (auto split: option.splits)

lemma those_mem: "those (map (\<lambda>k. map_option (Pair k) (f k)) ks) = Some fs \<Longrightarrow> k \<in> set ks \<Longrightarrow> \<exists>u. f k = Some u \<and> (k, u) \<in> set fs"
  by (induction ks arbitrary: fs) (auto split: option.splits)

lemma those_all: "\<forall>x \<in> set xs. f x = Some (g x) \<Longrightarrow> those (map f xs) = Some (map g xs)"
  by (induction xs) auto

lemma those_set: "those (map f xs) = Some ys \<Longrightarrow> y \<in> set ys \<Longrightarrow> \<exists>x \<in> set xs. f x = Some y"
  by (induction xs arbitrary: ys) (auto split: option.splits)

lemma those_length: "those xs = Some ys \<Longrightarrow> length ys = length xs"
  by (induction xs arbitrary: ys) (auto split: option.splits)

lemma fields_sound:
  assumes "event_fields look = Some fs"
  shows "sound_fields fs"
proof -
  let ?ks = "filter (\<lambda>k. look k \<noteq> JNull) EVENT_FIELDS"
  note p = those_pairs [OF assms [unfolded event_fields_def]] and mem = those_mem [OF assms [unfolded event_fields_def]]
  have d: "distinct (map fst fs)" unfolding p(1) by (simp add: EVENT_FIELDS_def)
  have m: "\<exists>u. field_value k (look k) = Some u \<and> map_of fs k = Some u" if "k \<in> set ?ks" for k
    using mem [OF that] d by auto
  have n: "map_of fs k = None" if "k \<notin> set ?ks" for k
    using that unfolding p(1) [symmetric] by (simp add: map_of_eq_None_iff)
  have g: "jget k (JObj fs) \<noteq> JNull \<longleftrightarrow> k \<in> set ?ks" for k
  proof (cases "k \<in> set ?ks")
    case True
    from m [OF True] obtain u where "field_value k (look k) = Some u" "map_of fs k = Some u" by blast
    with True field_stable show ?thesis by simp
  qed (simp add: n)
  have "filter (\<lambda>k. jget k (JObj fs) \<noteq> JNull) EVENT_FIELDS = ?ks"
    by (rule filter_cong) (use g in auto)
  moreover have "those (map (\<lambda>k. map_option (Pair k) (field_value k (jget k (JObj fs)))) ?ks) = Some (map (\<lambda>k. (k, the (field_value k (look k)))) ?ks)"
  proof (rule those_all, rule ballI)
    fix k assume "k \<in> set ?ks"
    from m [OF this] obtain u where "field_value k (look k) = Some u" "map_of fs k = Some u" by blast
    with field_stable show "map_option (Pair k) (field_value k (jget k (JObj fs))) = Some (k, the (field_value k (look k)))" by simp
  qed
  moreover have "map (\<lambda>k. (k, the (field_value k (look k)))) ?ks = fs"
    unfolding p(1) [symmetric] map_map by (rule map_idI) (use p(2) in auto)
  ultimately show ?thesis by (simp add: sound_fields_def event_fields_def)
qed

lemma event_sound: "event_of w n stage start fin outcome look = Some e \<Longrightarrow> sound_event (tw_ms w) e"
  by (auto simp: event_of_def sound_event_def fields_sound number_stable split: option.splits)

lemma sound_event_seq [simp]: "sound_event ms (e\<lparr>ev_seq := i\<rparr>) = sound_event ms e"
  by (simp add: sound_event_def)

lemma renumbered_starts [simp]: "map ev_start (renumbered es) = map ev_start (sort_key ev_start (sort_key ev_seq es))"
  and renumbered_seqs [simp]: "map ev_seq (renumbered es) = [1 ..< Suc (length es)]"
  and renumbered_length [simp]: "length (renumbered es) = length es"
proof -
  show "map ev_start (renumbered es) = map ev_start (sort_key ev_start (sort_key ev_seq es))"
    by (rule nth_equalityI) (simp_all add: renumbered_def nth_enumerate_eq)
  show "map ev_seq (renumbered es) = [1 ..< Suc (length es)]"
    by (rule nth_equalityI) (simp_all add: renumbered_def nth_enumerate_eq del: upt_Suc)
qed (simp add: renumbered_def)

lemma renumbered_mem: "x \<in> set (renumbered es) \<Longrightarrow> \<exists>i e. e \<in> set es \<and> x = e\<lparr>ev_seq := i\<rparr>"
  unfolding renumbered_def by (auto simp: enumerate_eq_zip dest!: set_zip_rightD) blast

lemma renumbered_sound: "list_all (sound_event ms) es \<Longrightarrow> sound_events ms (renumbered es)"
  unfolding sound_events_def by (auto simp: list_all_iff simp del: upt_Suc dest!: renumbered_mem)

lemma sound_seq: "sound_events ms es \<Longrightarrow> i < length es \<Longrightarrow> ev_seq (es ! i) = Suc i"
  unfolding sound_events_def by (metis nth_map nth_upt plus_1_eq_Suc Suc_less_eq)

lemma renumbered_id:
  assumes "sound_events ms es"
  shows "renumbered es = es"
proof -
  have s: "map ev_seq es = [1 ..< Suc (length es)]" "sorted (map ev_start es)" using assms by (simp_all add: sound_events_def)
  then have "sort_key ev_seq es = es" "sort_key ev_start es = es"
    by (simp_all add: sort_key_id_if_sorted del: upt_Suc)
  moreover have "map (\<lambda>(i, e). e\<lparr>ev_seq := i\<rparr>) (enumerate 1 es) = es"
  proof (rule nth_equalityI)
    fix i assume "i < length (map (\<lambda>(i, e). e\<lparr>ev_seq := i\<rparr>) (enumerate 1 es))"
    then have i: "i < length es" by simp
    with sound_seq [OF assms i] show "map (\<lambda>(i, e). e\<lparr>ev_seq := i\<rparr>) (enumerate 1 es) ! i = es ! i" by (simp add: nth_enumerate_eq)
  qed simp
  ultimately show ?thesis by (simp add: renumbered_def)
qed

text \<open>Reading what was written.\<close>

lemma event_fields_cong:
  assumes "\<And>k. k \<in> set EVENT_FIELDS \<Longrightarrow> f k = g k"
  shows "event_fields f = event_fields g"
proof -
  have "filter (\<lambda>k. f k \<noteq> JNull) EVENT_FIELDS = filter (\<lambda>k. g k \<noteq> JNull) EVENT_FIELDS"
    by (rule filter_cong) (simp_all add: assms)
  moreover have "map (\<lambda>k. map_option (Pair k) (field_value k (f k))) (filter (\<lambda>k. g k \<noteq> JNull) EVENT_FIELDS)
      = map (\<lambda>k. map_option (Pair k) (field_value k (g k))) (filter (\<lambda>k. g k \<noteq> JNull) EVENT_FIELDS)"
    by (rule map_cong) (simp_all add: assms)
  ultimately show ?thesis by (simp only: event_fields_def)
qed

lemma doc_fields: "k \<in> set EVENT_FIELDS \<Longrightarrow> jget k (event_doc e) = jget k (JObj (ev_fields e))"
  by (auto simp: EVENT_FIELDS_def event_doc_def)

lemma read_event_doc:
  assumes "sound_event (tw_ms w) e" and "ev_seq e = i"
  shows "read_event w (i, event_doc e) = Some e"
proof -
  have "event_fields (\<lambda>k. jget k (event_doc e)) = Some (ev_fields e)"
    using assms(1) event_fields_cong [OF doc_fields] by (simp add: sound_event_def sound_fields_def)
  moreover have "jget ''stage'' (event_doc e) = JStr (ev_stage e)" "jget ''outcome'' (event_doc e) = JStr (ev_outcome e)"
      "jget ''started_monotonic_ns'' (event_doc e) = JInt (ev_start e)" "jget ''finished_monotonic_ns'' (event_doc e) = JInt (ev_finish e)"
    by (simp_all add: event_doc_def)
  moreover have "enum STAGES (JStr (ev_stage e)) = ev_stage e" "enum EVENT_OUTCOMES (JStr (ev_outcome e)) = ev_outcome e"
    using assms(1) by (simp_all add: sound_event_def fixed_by_def)
  ultimately show ?thesis
    using assms by (simp add: read_event_def event_of_def sound_event_def non_negative_int_def max_def)
qed

lemma terminal_doc_read: "sound_terminal t \<Longrightarrow> terminal_of (terminal_doc t) = Some t"
  by (cases t) (auto simp: terminal_doc_def terminal_of_def sound_terminal_def fixed_by_def non_negative_int_def)

lemma sanitized_doc:
  assumes "sound_data (tw_ms w) d"
  shows "sanitized_data w n (timeline_doc n d) = Some (Some d)"
proof -
  let ?v = "timeline_doc n d" let ?es = "tl_events d"
  have es: "sound_events (tw_ms w) ?es" using assms by (simp add: sound_data_def)
  have j: "jget ''escalation_id'' ?v = JInt (int n)" "jget ''events'' ?v = JArr (map event_doc ?es)" "jget ''terminal'' ?v = terminal_doc (tl_terminal d)"
      "jget ''correlation_id'' ?v = JStr (tl_corr d)" "jget ''decision_layer'' ?v = JStr (tl_layer d)" "is_obj ?v"
    by (simp_all add: timeline_doc_def)
  have o: "filter is_obj (map event_doc ?es) = map event_doc ?es" by (simp add: event_doc_def)
  have r: "those (map (read_event w) (enumerate 1 (map event_doc ?es))) = Some ?es"
  proof -
    have "map (read_event w) (enumerate 1 (map event_doc ?es)) = map Some ?es"
    proof (rule nth_equalityI)
      fix i assume "i < length (map (read_event w) (enumerate 1 (map event_doc ?es)))"
      then have i: "i < length ?es" by simp
      moreover note sound_seq [OF es i]
      moreover have "sound_event (tw_ms w) (?es ! i)" using es i by (simp add: sound_events_def list_all_length)
      ultimately show "map (read_event w) (enumerate 1 (map event_doc ?es)) ! i = map Some ?es ! i"
        by (simp add: nth_enumerate_eq read_event_doc)
    qed simp
    then show ?thesis by (induction ?es arbitrary: d) (simp_all add: those_all [of _ Some id, simplified])
  qed
  show ?thesis using assms unfolding sanitized_data_def
    by (simp add: j o r [unfolded One_nat_def] raw_events_def same_number_def terminal_doc_read sound_data_def renumbered_id [OF es] Let_def
        correlation_of_def correlation_text_def fixed_by_def)
qed

text \<open>Every operation keeps a document sound; \<open>good w ms\<close>: the world has these durations and a proper identifier.\<close>

definition good :: "(int \<Rightarrow> pyfloat option) \<Rightarrow> tl_world \<Rightarrow> bool" where
  "good ms w \<longleftrightarrow> tw_ms w = ms \<and> is_correlation (tw_uuid w) \<and> 0 \<le> tw_now w"

lemma sanitized_sound:
  assumes "sanitized_data w n v = Some (Some d)" and "good ms w"
  shows "sound_data ms d"
proof -
  from assms(1) obtain raws es t where r: "those (map (read_event w) (enumerate 1 raws)) = Some es" "terminal_of (jget ''terminal'' v) = Some t"
      "d = \<lparr>tl_corr = correlation_of w (jget ''correlation_id'' v), tl_layer = enum DECISION_LAYERS (jget ''decision_layer'' v),
         tl_path = path_of (renumbered es), tl_events = renumbered es, tl_terminal = t\<rparr>"
    by (auto simp: sanitized_data_def Let_def split: if_splits option.splits)
  have "list_all (sound_event ms) es"
    using those_set [OF r(1)] assms(2) event_sound by (fastforce simp: list_all_iff read_event_def good_def)
  moreover have "sound_terminal t"
    using r(2) number_stable by (auto simp: terminal_of_def sound_terminal_def split: if_splits)
  ultimately show ?thesis
    using assms(2) by (simp add: r(3) sound_data_def renumbered_sound correlation_of_def good_def)
qed

lemma fresh_sound: "good ms w \<Longrightarrow> sound_data ms (fresh_data w)"
  by (simp add: sound_data_def fresh_data_def good_def sound_events_def sound_terminal_def path_of_def first_keys_def fixed_by_def enum_or_def)

lemma appended_sound: "sound_data ms d \<Longrightarrow> good ms w \<Longrightarrow> appended w a d = Some d' \<Longrightarrow> sound_data ms d'"
  using event_sound [of w] renumbered_sound
  by (fastforce simp: appended_def sound_data_def good_def Let_def sound_events_def)

lemma finished_sound: "sound_data ms d \<Longrightarrow> good ms w \<Longrightarrow> sound_data ms (finished w outcome reason state d)"
  by (simp add: finished_def sound_data_def sound_terminal_def good_def)

lemma reset_sound: "sound_data ms d \<Longrightarrow> good ms w \<Longrightarrow> sound_data ms (reset_data w layer d)"
  using fresh_sound [of ms w] by (auto simp: reset_data_def sound_data_def sound_terminal_def)

lemma clean_file_sound: "clean_file w n disk = Some d \<Longrightarrow> good ms w \<Longrightarrow> sound_data ms d"
  by (auto simp: clean_file_def sanitized_sound split: option.splits)

lemma mutate_sound:
  assumes "mutate w f t disk = (t', disk')" and "sound_data ms (tt_data t)" and "good ms w"
    and "\<And>d d'. sound_data ms d \<Longrightarrow> f d = Some d' \<Longrightarrow> sound_data ms d'"
  shows "sound_data ms (tt_data t') \<and> tt_id t' = tt_id t \<and> (disk' = disk \<or> disk' = Some (timeline_doc (tt_id t) (tt_data t')))"
  using assms clean_file_sound [of w "tt_id t" disk _ ms]
  by (auto simp: mutate_def Let_def split: if_splits option.splits)

lemma load_sound: "good ms w \<Longrightarrow> sound_data ms (tt_data (load_timeline w n disk)) \<and> tt_id (load_timeline w n disk) = n"
  using clean_file_sound fresh_sound by (auto simp: load_timeline_def split: option.splits)

lemma record_timeline_sound:
  "record_event w a t disk = (t', disk') \<Longrightarrow> sound_data ms (tt_data t) \<Longrightarrow> good ms w \<Longrightarrow>
     sound_data ms (tt_data t') \<and> tt_id t' = tt_id t \<and> (disk' = disk \<or> disk' = Some (timeline_doc (tt_id t) (tt_data t')))"
  unfolding record_event_def by (erule mutate_sound) (auto intro: appended_sound)

lemma records_sound:
  assumes "\<And>i. good ms (W i)" and "sound_data ms (tt_data (fst s))"
  shows "sound_data ms (tt_data (fst (record_events W as s))) \<and> tt_id (fst (record_events W as s)) = tt_id (fst s)"
proof -
  have "sound_data ms (tt_data (fst (fold (\<lambda>(i, a) (t, disk). record_event (W i) a t disk) xs s)))
      \<and> tt_id (fst (fold (\<lambda>(i, a) (t, disk). record_event (W i) a t disk) xs s)) = tt_id (fst s)" for xs
    using assms(2)
  proof (induction xs arbitrary: s)
    case (Cons x xs)
    obtain i a t disk where x: "x = (i, a)" "s = (t, disk)" by (metis prod.collapse)
    obtain t' disk' where r: "record_event (W i) a t disk = (t', disk')" by (metis prod.collapse)
    from record_timeline_sound [OF r] Cons.prems assms(1) x have "sound_data ms (tt_data t')" "tt_id t' = tt_id t" by auto
    with Cons.IH [of "(t', disk')"] x r show ?case by simp
  qed simp
  then show ?thesis unfolding record_events_def .
qed

subsection \<open>Timelines that can be reached\<close>

text \<open>
  The operations on one object; between two of them, and before the first, the file may hold
  anything: other processes write it, and it may be damaged.
\<close>

inductive timeline_run :: "(int \<Rightarrow> pyfloat option) \<Rightarrow> nat \<Rightarrow> timeline \<Rightarrow> bool" for ms n where
  Load: "good ms w \<Longrightarrow> timeline_run ms n (load_timeline w n disk)"
| Begin: "(\<And>i. good ms (W i)) \<Longrightarrow> begin_timeline W n a disk = (t, disk') \<Longrightarrow> timeline_run ms n t"
| Record: "timeline_run ms n t \<Longrightarrow> good ms w \<Longrightarrow> record_event w a t disk = (t', disk') \<Longrightarrow> timeline_run ms n t'"
| Finish: "timeline_run ms n t \<Longrightarrow> good ms w \<Longrightarrow> finish_timeline w out r c t disk = (t', disk') \<Longrightarrow> timeline_run ms n t'"

lemma timeline_run_sound: "timeline_run ms n t \<Longrightarrow> sound_data ms (tt_data t) \<and> tt_id t = n"
proof (induction rule: timeline_run.induct)
  case (Load w disk)
  then show ?case by (rule load_sound)
next
  case (Begin W a disk t disk')
  obtain t1 disk1 where m: "mutate (W 1) (\<lambda>d. Some (reset_data (W 1) (ba_layer a) d)) (load_timeline (W 0) n disk) disk = (t1, disk1)"
    by (metis prod.collapse)
  have "sound_data ms (tt_data t1) \<and> tt_id t1 = n"
    using mutate_sound [OF m] load_sound [OF Begin(1)] Begin(1) reset_sound by fastforce
  with records_sound [of ms "\<lambda>i. W (Suc (Suc i))" "(t1, disk1)" "begin_events a (tw_now (W 1))"] Begin m show ?case
    by (simp add: begin_timeline_def)
next
  case (Record t w a disk t' disk')
  then show ?case using record_timeline_sound by blast
next
  case (Finish t w out r c disk t' disk')
  then show ?case using mutate_sound [OF Finish.hyps(3) [unfolded finish_timeline_def]] finished_sound by blast
qed

lemma field_strings: "field_value k v = Some u \<Longrightarrow> set (json_strings u) \<subseteq> set LABELS"
  using enum_label [of "''unknown''" PHASES v] enum_label [of "''unknown_tool''" TOOLS v]
    enum_label [of "''unknown''" COMPLETION_STATES v] enum_label [of "''unknown''" DECISION_LAYERS v]
  unfolding field_value_def LABELS_def by (simp split: if_splits) (elim conjE disjE exE; hypsubst; simp)+

lemma keys_are_labels: "k \<in> set DOC_KEYS \<Longrightarrow> k \<in> set LABELS" "k \<in> set EVENT_FIELDS \<Longrightarrow> k \<in> set LABELS"
    "k \<in> set STAGES \<Longrightarrow> k \<in> set LABELS" "k \<in> set EVENT_OUTCOMES \<Longrightarrow> k \<in> set LABELS"
    "k \<in> set COMPLETION_STATES \<Longrightarrow> k \<in> set LABELS" "k \<in> set TERMINAL_OUTCOMES \<Longrightarrow> k \<in> set LABELS"
    "k \<in> set TERMINAL_REASONS \<Longrightarrow> k \<in> set LABELS" "k \<in> set DECISION_LAYERS \<Longrightarrow> k \<in> set LABELS" "''unknown'' \<in> set LABELS"
  by (simp_all add: LABELS_def)

lemma fixed_is_label: "fixed_by STAGES s \<or> fixed_by EVENT_OUTCOMES s \<or> fixed_by COMPLETION_STATES s \<or> fixed_by TERMINAL_OUTCOMES s
    \<or> fixed_by TERMINAL_REASONS s \<or> fixed_by DECISION_LAYERS s \<Longrightarrow> s \<in> set LABELS"
  using fixed_label keys_are_labels by metis

lemma fields_strings:
  assumes "sound_fields fs" and "(k, v) \<in> set fs"
  shows "k \<in> set LABELS \<and> set (json_strings v) \<subseteq> set LABELS"
proof -
  note p = those_pairs [OF assms(1) [unfolded sound_fields_def event_fields_def]]
  from p(1) assms(2) have "k \<in> set EVENT_FIELDS" by (metis (no_types, lifting) filter_is_subset fst_conv image_eqI list.set_map subsetD)
  with p(2) assms(2) field_strings keys_are_labels(2) show ?thesis by blast
qed

lemma event_strings:
  assumes "sound_event ms e"
  shows "set (json_strings (event_doc e)) \<subseteq> set LABELS"
proof -
  have "set [''sequence'', ''stage'', ''started_monotonic_ns'', ''finished_monotonic_ns'', ''duration_ms'', ''outcome''] \<subseteq> set LABELS"
    by (simp add: keys_are_labels(1) DOC_KEYS_def)
  with assms fixed_is_label [of "ev_stage e"] fixed_is_label [of "ev_outcome e"] fields_strings [of "ev_fields e"] show ?thesis
    by (auto simp: event_doc_def sound_event_def)
qed

lemma terminal_strings:
  assumes "sound_terminal t"
  shows "set (json_strings (terminal_doc t)) \<subseteq> set LABELS"
proof -
  have "set [''at_monotonic_ns'', ''outcome'', ''reason'', ''completion_state''] \<subseteq> set LABELS"
    by (simp add: keys_are_labels(1) DOC_KEYS_def)
  with assms show ?thesis
    using fixed_is_label by (cases t) (auto simp: terminal_doc_def sound_terminal_def)
qed

lemma doc_strings:
  assumes "sound_data ms d"
  shows "set (json_strings (timeline_doc n d)) \<subseteq> insert (tl_corr d) (set LABELS)"
proof -
  have "set [''schema_version'', ''correlation_id'', ''escalation_id'', ''decision_layer'', ''decision_path'', ''events'', ''terminal''] \<subseteq> set LABELS"
    by (simp add: keys_are_labels(1) DOC_KEYS_def)
  moreover have "set (concat (map json_strings (map event_doc (tl_events d)))) \<subseteq> set LABELS"
    using assms event_strings by (fastforce simp: sound_data_def sound_events_def list_all_iff)
  moreover have "set (concat (map json_strings (map JStr (tl_path d)))) \<subseteq> set LABELS"
    using assms fixed_is_label by (auto simp: sound_data_def sound_events_def list_all_iff path_of_def first_keys_def sound_event_def)
  moreover have "tl_layer d \<in> set LABELS" "set (json_strings (terminal_doc (tl_terminal d))) \<subseteq> set LABELS"
    using assms fixed_is_label terminal_strings by (auto simp: sound_data_def)
  ultimately show ?thesis by (simp add: timeline_doc_def) blast
qed

text \<open>
  C13: A timeline cannot leak.  Whatever the operations are given, and whatever the file holds
  before each of them, every text in the document of a timeline that can be reached is one of the
  fixed labels, apart from the identifier of 32 hexadecimal digits; and an operation leaves the
  file as it is or writes such a document.
\<close>

theorem timeline_holds_labels_only:
  assumes "timeline_run ms n t"
  shows "is_correlation (tl_corr (tt_data t))
    \<and> set (json_strings (timeline_doc n (tt_data t))) \<subseteq> insert (tl_corr (tt_data t)) (set LABELS)
    \<and> snd (mutate w f t disk) \<in> {disk, Some (timeline_doc n (tt_data (fst (mutate w f t disk))))}"
  using timeline_run_sound [OF assms] doc_strings [of ms "tt_data t" n]
  by (auto simp: sound_data_def mutate_def Let_def split: option.splits)

definition tl_demo :: "int \<Rightarrow> tl_world" where
  "tl_demo k = \<lparr>tw_uuid = replicate 32 (CHR ''a''), tw_now = k, tw_later = k + 5, tw_ms = (\<lambda>i. Some (Fin (of_int i))), tw_locks = True, tw_writes = True\<rparr>"

lemma good_demo: "0 \<le> k \<Longrightarrow> good (\<lambda>i. Some (Fin (of_int i))) (tl_demo k)"
  by (simp add: good_def tl_demo_def is_correlation_def is_hex_def list_all_iff)

definition tool_event :: event_args where
  "tool_event = \<lparr>ea_stage = JStr ''tool_call'', ea_start = JInt 3, ea_finish = JNull, ea_outcome = JStr ''rm -rf /'',
     ea_fields = [(''tool'', JStr ''cat /etc/shadow''), (''turn'', JStr '' 2 '')]\<rparr>"

definition recorded_demo :: timeline where
  "recorded_demo = fst (record_event (tl_demo 4) tool_event (load_timeline (tl_demo 1) 7 None) None)"

lemma recorded_run: "timeline_run (\<lambda>i. Some (Fin (of_int i))) 7 recorded_demo"
  using timeline_run.Record [OF timeline_run.Load [OF good_demo, of 1 7 None] good_demo, of 4] unfolding recorded_demo_def
  by (metis prod.collapse zero_le_numeral zero_le_one)

lemma recorded_shape: "map (\<lambda>e. (ev_stage e, ev_outcome e, ev_fields e, ev_finish e)) (tl_events (tt_data recorded_demo)) =
    [(''tool_call'', ''unknown'', [(''turn'', JInt 2), (''tool'', JStr ''unknown_tool'')], 9)]"
  by code_simp

theorem timeline_holds_labels_only_witness:
  "set (json_strings (timeline_doc 7 (tt_data recorded_demo))) \<subseteq> insert (tl_corr (tt_data recorded_demo)) (set LABELS)
   \<and> map ev_outcome (tl_events (tt_data recorded_demo)) = [''unknown'']"
  using timeline_holds_labels_only [OF recorded_run] recorded_shape by (cases "tl_events (tt_data recorded_demo)") auto

text \<open>
  C14: The document of every timeline that can be reached is read back as that timeline, with its
  events, numbers, path and end.
\<close>

theorem timeline_survives_its_file:
  assumes "timeline_run ms n t" and "tw_ms w = ms"
  shows "load_timeline w n (Some (timeline_doc n (tt_data t))) = t\<lparr>tt_loaded := True\<rparr>"
  using timeline_run_sound [OF assms(1)] sanitized_doc [of w "tt_data t" n] assms(2)
  by (simp add: load_timeline_def clean_file_def)

theorem timeline_survives_its_file_witness:
  "load_timeline (tl_demo 9) 7 (Some (timeline_doc 7 (tt_data recorded_demo))) = recorded_demo\<lparr>tt_loaded := True\<rparr>
   \<and> tl_events (tt_data recorded_demo) \<noteq> []"
  using timeline_survives_its_file [OF recorded_run, of "tl_demo 9"] recorded_shape by (auto simp: tl_demo_def)

subsection \<open>Several writers\<close>

datatype tl_op = Record_Op event_args | Finish_Op str str str

fun apply_tl :: "tl_world \<Rightarrow> tl_op \<Rightarrow> timeline \<Rightarrow> json option \<Rightarrow> timeline \<times> json option" where
  "apply_tl w (Record_Op a) t disk = record_event w a t disk"
| "apply_tl w (Finish_Op out r c) t disk = finish_timeline w out r c t disk"

definition run_writers :: "(tl_world \<times> timeline \<times> tl_op) list \<Rightarrow> json option \<Rightarrow> json option" where
  "run_writers ops disk = fold (\<lambda>(w, t, op) fl. snd (apply_tl w op t fl)) ops disk"

definition unnumbered :: "tl_event \<Rightarrow> tl_event" where
  "unnumbered e = e\<lparr>ev_seq := 0\<rparr>"

definition events_kept :: "tl_data \<Rightarrow> tl_data \<Rightarrow> bool" where
  "events_kept d d' \<longleftrightarrow> mset (map unnumbered (tl_events d)) \<subseteq># mset (map unnumbered (tl_events d'))"

lemma unnumbered_renumbered: "mset (map unnumbered (renumbered es)) = mset (map unnumbered es)"
proof -
  have "map unnumbered (renumbered es) = map unnumbered (sort_key ev_start (sort_key ev_seq es))"
    by (rule nth_equalityI) (simp_all add: renumbered_def nth_enumerate_eq unnumbered_def)
  then show ?thesis by (simp only: mset_map mset_sort)
qed

lemma op_step:
  assumes "apply_tl w op t (Some (timeline_doc n d)) = (t', disk')" and "tt_id t = n" and "good ms w" and "sound_data ms d"
    and "is_final (tl_terminal d)"
  shows "\<exists>d'. disk' = Some (timeline_doc n d') \<and> sound_data ms d' \<and> tl_terminal d' = tl_terminal d \<and> events_kept d d'"
proof -
  have c: "clean_file w n (Some (timeline_doc n d)) = Some d"
    using sanitized_doc [of w d n] assms(3,4) by (simp add: clean_file_def good_def)
  show ?thesis
  proof (cases op)
    case (Record_Op a)
    show ?thesis
    proof (cases "appended w a d")
      case None
      with Record_Op assms c show ?thesis by (auto simp: record_event_def mutate_def events_kept_def split: if_splits)
    next
      case (Some d')
      then have "tl_terminal d' = tl_terminal d" "events_kept d d'"
        by (auto simp: appended_def Let_def events_kept_def unnumbered_renumbered simp del: mset_map)
      moreover have "sound_data ms d'" using Some appended_sound assms(3,4) by blast
      ultimately show ?thesis using Record_Op assms c Some
        by (auto simp: record_event_def mutate_def events_kept_def split: if_splits)
    qed
  next
    case (Finish_Op out r st)
    with assms c show ?thesis by (auto simp: finish_timeline_def mutate_def finished_def events_kept_def split: if_splits)
  qed
qed


definition approved_demo :: tl_data where
  "approved_demo = finished (tl_demo 20) ''approved'' ''gatekeeper_approved'' ''complete'' (tt_data recorded_demo)"


end
