(* ===== verification/AuditFrame.thy ===== *)
theory AuditFrame
  imports Escalations AuditSpec
begin

text \<open>
  What the audit of a command leaves alone: the queue of escalations, the adjudications and the
  tables.  The audit works on any extension of its own state; here it runs on the state of the
  whole guard, and only the caches, the memory of the panes and the policies change.
\<close>

definition queue_of :: "'a guard_state_scheme \<Rightarrow> guard_tables \<times> escalation list \<times> nat \<times> adjudication list \<times> nat" where
  "queue_of s = (tables s, escalations s, esc_seq s, adjudications s, adj_seq s)"

lemma queue_of_upd [simp]:
  "queue_of (s\<lparr>lru := a\<rparr>) = queue_of s" "queue_of (s\<lparr>rows := b\<rparr>) = queue_of s" "queue_of (s\<lparr>exact := c\<rparr>) = queue_of s"
  "queue_of (s\<lparr>templates := c\<rparr>) = queue_of s" "queue_of (s\<lparr>phases := d\<rparr>) = queue_of s" "queue_of (s\<lparr>policies := p\<rparr>) = queue_of s"
  by (simp_all add: queue_of_def)

lemma queue_stores [simp]:
  "queue_of (snd (get_cached_evaluation k now s)) = queue_of s"
  "queue_of (set_cached_evaluation k v c now ttl s) = queue_of s"
  "queue_of (record_approval h pane raw layer reason cwd now ttl s) = queue_of s"
  "queue_of (emit_phase p s) = queue_of s"
  by (simp_all add: get_cached_evaluation_def fetch_persistent_def set_cached_evaluation_def record_approval_def emit_phase_def Let_def
      split: option.splits)

lemma queue_exact [simp]: "queue_of (snd (check_exact p f now s)) = queue_of s"
  by (cases "map_of (exact s) (p, f)") (simp_all add: check_exact_def)

lemma queue_template [simp]: "queue_of (snd (check_template p m now s)) = queue_of s"
proof (cases m)
  case (Some t)
  then show ?thesis by (cases "map_of (templates s) (p, t)") (simp_all add: check_template_def)
qed (simp add: check_template_def)

lemma queue_persistent [simp]: "queue_of (snd (check_persistent p f raw cwd m now s)) = queue_of s"
  by (cases "map_of (rows s) (pane_mem_key p f)") (simp_all add: check_persistent_def Let_def)

lemma queue_check [simp]: "queue_of (snd (check_approval h pane raw cwd now s)) = queue_of s"
proof -
  obtain v s1 where e: "check_exact (norm_pane pane) (normalize_cmd_fingerprint h raw cwd) now s = (v, s1)" by (metis prod.collapse)
  obtain v2 s2 where t: "check_template (norm_pane pane) (extract_safe_command_template raw) now s1 = (v2, s2)" by (metis prod.collapse)
  have "queue_of s1 = queue_of s" "queue_of s2 = queue_of s1" by (metis e queue_exact snd_conv) (metis t queue_template snd_conv)
  with e t show ?thesis by (simp add: check_approval_def Let_def split: option.splits)
qed

lemma queue_recall [simp]: "queue_of (snd (recall w a cmd t s)) = queue_of s"
proof -
  obtain v s1 where c: "check_approval (sha w) (ja_scope a) cmd (ja_cwd a) (clock w) s = (v, s1)" by (metis prod.collapse)
  obtain v2 s2 where g: "get_cached_evaluation (judge_key w a t) (clock w) s1 = (v2, s2)" by (metis prod.collapse)
  from queue_check [of "sha w" "ja_scope a" cmd "ja_cwd a" "clock w" s] queue_stores(1) [of "judge_key w a t" "clock w" s1] c g
  show ?thesis by (simp add: recall_def split: option.splits)
qed

lemma queue_verdicts [simp]:
  "queue_of (remember_verdict w a cmd ok reason layer s) = queue_of s"
  "queue_of (cache_cloud_verdict w a t cmd ok reason layer s) = queue_of s"
  by (simp_all add: remember_verdict_def cache_cloud_verdict_def)

lemma queue_judge_answer [simp]: "queue_of (snd (judge_answer w a cmd t answer s)) = queue_of s"
  by (simp add: judge_answer_def Let_def split: sum.splits option.splits)

lemma queue_judge [simp]: "queue_of (snd (audit_with_cloud_judge w a cmd ctx s)) = queue_of s"
proof -
  obtain v s1 where r: "recall w a cmd (judge_key_text w cmd ctx) s = (v, s1)" by (metis prod.collapse)
  with queue_recall [of w a cmd "judge_key_text w cmd ctx" s] show ?thesis
    by (simp add: audit_with_cloud_judge_def Let_def split: option.splits)
qed

lemma judge_result: "audit_with_cloud_judge w a cmd ctx s = (v, t) \<Longrightarrow> queue_of t = queue_of s"
  by (metis queue_judge snd_conv)

lemma queue_inspector [simp]: "queue_of (snd (audit_dynamic_substitution_with_llm w a cmd hops s)) = queue_of s"
proof -
  obtain v s1 where r: "recall w a cmd cmd s = (v, s1)" by (metis prod.collapse)
  with queue_recall [of w a cmd cmd s] show ?thesis
    by (simp add: audit_dynamic_substitution_with_llm_def Let_def split: option.splits sum.splits)
qed

lemma queue_tax [simp]: "queue_of (snd (apply_complexity_tax w a cmd s)) = queue_of s"
  using judge_result [of w "judge_by_value w a" cmd "''Read-only diagnostic chain; no mutating segments''" s]
  by (auto simp: apply_complexity_tax_def Let_def split: prod.splits bool.splits)

lemma queue_workspace [simp]: "queue_of (snd (workspace_stage w a cmd action s)) = queue_of s"
proof -
  obtain v t where e: "workspace_stage w a cmd action s = (v, t)" by (metis prod.collapse)
  then have "\<exists>ps. t = s\<lparr>policies := ps\<rparr>" using workspace_stage_pass workspace_stage_answer by (cases v) blast+
  with e show ?thesis by auto
qed

lemma queue_dialogs [simp]:
  "queue_of (snd (edit_dialog w a cmd s)) = queue_of s" "queue_of (snd (access_dialog w a cmd s)) = queue_of s"
  "queue_of (snd (read_dialog w a cmd s)) = queue_of s" "queue_of (snd (unhandled_dialog w a cmd s)) = queue_of s"
proof -
  have w: "queue_of t = queue_of s" if "workspace_stage w a cmd action s = (v, t)" for action v t
    using that queue_workspace [of w a cmd action s] by simp
  show "queue_of (snd (edit_dialog w a cmd s)) = queue_of s" "queue_of (snd (access_dialog w a cmd s)) = queue_of s"
    "queue_of (snd (read_dialog w a cmd s)) = queue_of s"
    using w by (auto simp: edit_dialog_def access_dialog_def read_dialog_def Let_def split: option.splits prod.splits)
  show "queue_of (snd (unhandled_dialog w a cmd s)) = queue_of s"
    using judge_result [of w "judge_by_member a" cmd UNHANDLED_CONTEXT s]
    by (auto simp: unhandled_dialog_def split: prod.splits bool.splits)
qed

lemma queue_gray [simp]: "queue_of (snd (gray_prompt_stage w a cmd s)) = queue_of s"
proof -
  obtain v t where x: "apply_complexity_tax w a cmd s = (v, t)" by (metis prod.collapse)
  with queue_tax [of w a cmd s] have t: "queue_of t = queue_of s" by simp
  have j: "queue_of u = queue_of s" if "audit_with_cloud_judge w (judge_by_member a) cmd g t = (r, u)" for g r u
    using judge_result [OF that] t by simp
  from x t j show ?thesis
    by (auto simp: gray_prompt_stage_def Let_def split: prod.splits option.splits bool.splits verdict.splits)
qed

lemma queue_stages:
  "run_stages gs d s = (v, t) \<Longrightarrow> (\<And>g u. g \<in> set gs \<Longrightarrow> queue_of (snd (g u)) = queue_of u) \<Longrightarrow> queue_of t = queue_of s"
  using run_stages_state_invariant [of gs d s v t "\<lambda>u. queue_of u = queue_of s"] by (metis snd_conv)

lemma queue_static [simp]:
  fixes s :: "'b guard_state_scheme"
  shows "queue_of (snd (audit_static_shell_command w a cmd s)) = queue_of s"
proof -
  let ?gs = "dialog_stages w a (strip cmd) @ pure_stage (managed_git_guard (strip cmd))
      # map pure_stage (refusal_guards w (strip cmd)) @ approval_stages w a (strip cmd)"
  have g: "queue_of (snd (g u)) = queue_of u" if mem: "g \<in> set ?gs" for g and u :: "'b guard_state_scheme"
  proof -
    consider x where "g = pure_stage x" | "g = workspace_stage w a (strip cmd) ''exec''" | "g = approved_pattern_stage w a (strip cmd)"
      | "g = gray_prompt_stage w a (strip cmd)" | "g = apply_complexity_tax w a (strip cmd)" | "g = edit_dialog w a (strip cmd)"
      | "g = access_dialog w a (strip cmd)" | "g = read_dialog w a (strip cmd)" | "g = unhandled_dialog w a (strip cmd)"
      using mem by (auto simp: dialog_stages_def approval_stages_def)
    then show ?thesis by cases (simp_all add: pure_stage_def approved_pattern_stage_def Let_def)
  qed
  obtain v t where "run_stages ?gs default_refusal s = (v, t)" by (metis prod.collapse)
  then have "queue_of t = queue_of s" by (rule queue_stages) (rule g)
  with \<open>run_stages ?gs default_refusal s = (v, t)\<close> show ?thesis by (auto simp: audit_static_shell_command_def Let_def)
qed

lemma queue_audit [simp]: "queue_of (snd (audit_shell_command w a cmd s)) = queue_of s"
proof -
  have st: "queue_of t = queue_of s" if "audit_static_shell_command w a res s = (v, t)" for res v t
    using that by (metis queue_static snd_conv)
  have dy: "queue_of t = queue_of s" if "audit_dynamic_substitution_with_llm w (inspector_args a) res MAX_HOPS s = (v, t)" for res v t
    using that by (metis queue_inspector snd_conv)
  from st dy show ?thesis
    by (auto simp: audit_shell_command_def audit_dynamic_command_def split: sum.splits prod.splits bool.splits)
qed

lemma queue_audit_taxonomy [simp]: "queue_of (snd (audit_shell_command_with_taxonomy w a cmd s)) = queue_of s"
proof -
  have "queue_of t = queue_of s" if "audit_shell_command w a cmd s = (v, t)" for v t
    using that by (metis queue_audit snd_conv)
  then show ?thesis by (auto simp: audit_shell_command_with_taxonomy_def Let_def split: prod.splits)
qed

end
