(* ===== verification/Gatekeeper.thy ===== *)
theory Gatekeeper
  imports Telemetry AutoAdvance PaneIdentity AuditFrame
begin

text \<open>
  The adjudications of \<open>scripts/tools/schengen_agent_llm.py\<close>: delivery of an approval or a
  rejection to a pane, the tools \<open>approve_escalation\<close> and \<open>reject_escalation\<close> with the repair
  of requests that changed meanwhile, and the two operations on the batch at the head of the
  queue.  \<open>AgentChat\<close> holds the conversation with the model that calls the tools.
\<close>

subsection \<open>The pane\<close>

text \<open>What is done to a pane: a key, a text that is typed, a prompt, a decision for the channel.\<close>

datatype pane_act = Key str | Note str | Prompt str | Decision json

record cli_result =
  cr_out :: str
  cr_err :: str
  cr_code :: int

text \<open>
  What one delivery meets: the channel and its file, the screens of the ladder, whether Herdr
  takes a key that the adapters of AGY and Codex send, which direct calls raise an exception,
  and the answers to the two calls for Codex (\<open>None\<close>: an exception with the text \<open>pw_exc\<close>).
\<close>

record pane_world =
  pw_match :: match_world
  pw_channel :: channel_world
  pw_file :: "str option"
  pw_ladder :: ladder_world
  pw_attempts :: int
  pw_sent :: bool
  pw_raises :: "pane_act \<Rightarrow> bool"
  pw_ready :: "cli_result option"
  pw_prompted :: "cli_result option"
  pw_exc :: str

text \<open>Direct calls in a row: the first one that raises is the last one.\<close>

fun raw_sends :: "pane_world \<Rightarrow> pane_act list \<Rightarrow> bool \<times> pane_act list" where
  "raw_sends p [] = (True, [])"
| "raw_sends p (a # as) = (if pw_raises p a then (False, [a]) else (let (ok, sent) = raw_sends p as in (ok, a # sent)))"

text \<open>The answer (\<open>None\<close>: an exception) and what was done.\<close>

type_synonym injection = "(bool \<times> str) option \<times> pane_act list"

definition after_sends :: "pane_world \<Rightarrow> pane_act list \<Rightarrow> bool \<times> str \<Rightarrow> injection" where
  "after_sends p as r = (case raw_sends p as of (ok, sent) \<Rightarrow> (if ok then Some r else None, sent))"

fun pressed :: "key_press \<Rightarrow> pane_act" where
  "pressed (Enter k) = Key ''enter''"
| "pressed (Escape k) = Key ''escape''"

definition by_channel :: "pane_world \<Rightarrow> str \<Rightarrow> str \<Rightarrow> str \<Rightarrow> injection" where
  "by_channel p kind pane req =
     (if kind \<noteq> ''opencode'' then (Some (False, ''not supported''), [])
      else (case oc_channel_approve (pw_channel p) (pw_match p) pane (pw_file p) req of
          None \<Rightarrow> (None, [])
        | Some (r, decision) \<Rightarrow> (Some r, case decision of None \<Rightarrow> [] | Some j \<Rightarrow> [Decision j])))"

definition by_keys :: "pane_world \<Rightarrow> str \<Rightarrow> str \<Rightarrow> injection" where
  "by_keys p kind req =
     (if kind = ''agy'' then (case agy_inject_approval (pw_sent p) req of (r, k) \<Rightarrow> (Some r, [Key k]))
      else if kind = ''codex'' then (case codex_inject_approval (pw_sent p) of (r, k) \<Rightarrow> (Some r, [Key k]))
      else (case oc_inject_approval (pw_ladder p) (pw_match p) (pw_attempts p) req of (r, ks) \<Rightarrow> (Some r, map pressed ks)))"

definition rejected_by :: "pane_world \<Rightarrow> str \<Rightarrow> str \<Rightarrow> str \<Rightarrow> injection" where
  "rejected_by p kind pane req =
     (if kind = ''agy'' \<or> kind = ''codex'' then (case inject_escape of (r, k) \<Rightarrow> after_sends p [Key k] r)
      else (case oc_inject_reject (pw_channel p) (pw_match p) pane (pw_file p) req of
          None \<Rightarrow> (None, [])
        | Some (r, (Some j, _)) \<Rightarrow> (Some r, [Decision j])
        | Some (r, (None, ks)) \<Rightarrow> after_sends p (map Key ks) r))"

definition gatekeeper_note :: "str \<Rightarrow> str" where
  "gatekeeper_note feedback = ''# [SECURITY GATEKEEPER]: '' @ feedback"

definition has_adapter :: "str \<Rightarrow> bool" where
  "has_adapter kind \<longleftrightarrow> kind \<in> set [''agy'', ''codex'', ''opencode'']"

definition inject_approval :: "pane_world \<Rightarrow> str \<Rightarrow> str \<Rightarrow> str \<Rightarrow> str \<Rightarrow> bool \<Rightarrow> injection" where
  "inject_approval p pane kind req feedback instruct =
     (if pane = [] then (Some (False, ''no target pane''), [])
      else if kind = ''agy'' \<and> instruct \<and> feedback \<noteq> [] then
        after_sends p [Key ''tab'', Note (gatekeeper_note feedback), Key ''enter''] (True, [])
      else if \<not> has_adapter kind then after_sends p [Key ''enter''] (True, [])
      else (case by_channel p kind pane req of
          (None, sent) \<Rightarrow> (None, sent)
        | (Some (True, why), sent) \<Rightarrow> (Some (True, []), sent)
        | (Some (False, why), sent) \<Rightarrow> (case by_keys p kind req of (r, keys) \<Rightarrow> (r, sent @ keys))))"

text \<open>\<open>_herdr_cli_failure\<close>: empty when the call succeeded.\<close>

definition exit_text :: "str \<Rightarrow> int \<Rightarrow> str" where
  "exit_text raw code = (if raw = [] then ''exit '' @ show_int code else raw)"

definition herdr_cli_failure :: "channel_world \<Rightarrow> cli_result \<Rightarrow> str" where
  "herdr_cli_failure w r =
     (let raw = strip (if cr_out r \<noteq> [] then cr_out r else cr_err r) in
      case json_loads raw of
        None \<Rightarrow> if cr_code r \<noteq> 0 then exit_text raw (cr_code r) else ''invalid Herdr JSON response''
      | Some payload \<Rightarrow>
          (let e = jget ''error'' payload in
           if truthy e then
             (if is_obj e then
                (let code = (if truthy (jget ''code'' e) then text_of w (jget ''code'' e) else ''herdr_error'');
                     message = strip (if truthy (jget ''message'' e) then text_of w (jget ''message'' e) else [])
                 in if message \<noteq> [] then code @ '': '' @ message else code)
              else text_of w e)
           else if cr_code r \<noteq> 0 then exit_text raw (cr_code r)
           else (case payload of JObj ms \<Rightarrow> if map_of ms ''result'' = None then ''missing Herdr result'' else []
                 | _ \<Rightarrow> ''missing Herdr result'')))"

definition codex_instruction :: "pane_world \<Rightarrow> str \<Rightarrow> (bool \<times> str) \<times> pane_act list" where
  "codex_instruction p note =
     (case pw_ready p of
        None \<Rightarrow> ((False, ''codex prompt readiness failed: '' @ pw_exc p), [])
      | Some ready \<Rightarrow>
          if herdr_cli_failure (pw_channel p) ready \<noteq> [] then
            ((False, ''codex prompt readiness failed: '' @ herdr_cli_failure (pw_channel p) ready), [])
          else (case pw_prompted p of
              None \<Rightarrow> ((False, ''codex rejection prompt failed: '' @ pw_exc p), [Prompt note])
            | Some r \<Rightarrow>
                if herdr_cli_failure (pw_channel p) r \<noteq> [] then
                  ((False, ''codex rejection prompt failed: '' @ herdr_cli_failure (pw_channel p) r), [Prompt note])
                else ((True, ''rejection delivered''), [Prompt note])))"

definition REJECT_NOT_IMPLEMENTED :: str where
  "REJECT_NOT_IMPLEMENTED = ''not implemented''"

text \<open>The dismissal, whether the adapter did it, and then the instruction for the agent.\<close>

definition dismiss :: "pane_world \<Rightarrow> str \<Rightarrow> str \<Rightarrow> str \<Rightarrow> (bool \<times> str) option \<times> bool \<times> pane_act list" where
  "dismiss p pane kind req =
     (let escape = (\<lambda>sent. case raw_sends p [Key ''escape''] of (ok, s) \<Rightarrow> (if ok then Some (True, []) else None, False, sent @ s)) in
      if \<not> has_adapter kind then escape []
      else (case rejected_by p kind pane req of
          (None, sent) \<Rightarrow> (None, False, sent)
        | (Some (True, why), sent) \<Rightarrow> (Some (True, why), True, sent)
        | (Some (False, why), sent) \<Rightarrow> if why \<noteq> REJECT_NOT_IMPLEMENTED then (Some (False, why), False, sent) else escape sent))"

definition inject_rejection :: "pane_world \<Rightarrow> str \<Rightarrow> str \<Rightarrow> str \<Rightarrow> str \<Rightarrow> bool \<Rightarrow> bool \<Rightarrow> injection" where
  "inject_rejection p pane kind req feedback instruct after_adapter =
     (if pane = [] then (Some (False, ''no target pane''), [])
      else (case dismiss p pane kind req of
          (None, _, sent) \<Rightarrow> (None, sent)
        | (Some (False, why), _, sent) \<Rightarrow> (Some (False, why), sent)
        | (Some (True, _), handled, sent) \<Rightarrow>
            if instruct \<and> feedback \<noteq> [] \<and> (after_adapter \<or> \<not> handled) then
              (if kind = ''codex'' then
                 (case codex_instruction p (gatekeeper_note feedback) of (r, extra) \<Rightarrow> (Some r, sent @ extra))
               else (case after_sends p [Note (gatekeeper_note feedback), Key ''enter''] (True, ''rejection delivered'') of
                   (r, extra) \<Rightarrow> (r, sent @ extra)))
            else (Some (True, ''rejection delivered''), sent)))"

subsection \<open>Arguments of a tool call\<close>

definition DEFAULT_FEEDBACK :: str where
  "DEFAULT_FEEDBACK = ''Approved by security gatekeeper.''"

definition blank_controls :: "str \<Rightarrow> str" where
  "blank_controls s = map (\<lambda>c. if of_char c < (0x20 :: nat) \<or> of_char c = (0x7F :: nat) then CHR '' '' else c) s"

definition sanitize_feedback :: "str \<Rightarrow> str" where
  "sanitize_feedback s =
     (if s = [] then DEFAULT_FEEDBACK
      else first_chars 256 (strip (re_sub (re_c ''%s+'') (\<lambda>_. '' '') (blank_controls s))))"

text \<open>\<open>None\<close>: the value raises an exception, a numeral with too many digits or a feedback that is no text.\<close>

definition id_argument :: "json \<Rightarrow> nat option" where
  "id_argument v =
     (case v of
        JInt i \<Rightarrow> Some (if 0 \<le> i then nat i else 0)
      | JStr s \<Rightarrow> if s = [] \<or> \<not> list_all is_digit s then Some 0 else if int (length s) \<le> 4300 then Some (read_nat s) else None
      | _ \<Rightarrow> Some 0)"

definition feedback_argument :: "str \<Rightarrow> str \<Rightarrow> json \<Rightarrow> str option" where
  "feedback_argument other d args =
     (case first_truthy [jget ''english_feedback'' args, jget other args] of
        None \<Rightarrow> Some (sanitize_feedback d)
      | Some (JStr s) \<Rightarrow> Some (sanitize_feedback s)
      | Some _ \<Rightarrow> None)"

subsection \<open>The queue\<close>

text \<open>
  The stores, the time, the settings for the delivery of instructions, and for each escalation
  the pane that a delivery meets and what an advance meets.
\<close>

record gate_world =
  gt_guard :: guard_world
  gt_now :: int
  gt_start :: int
  gt_end :: int
  gt_approve_note :: bool
  gt_reject_note :: bool
  gt_pane :: "nat \<Rightarrow> pane_world"
  gt_advance :: "nat \<Rightarrow> advance_world"
  gt_hops :: int
  gt_effort :: str

definition get_current_command_escalation :: "guard_state \<Rightarrow> escalation option" where
  "get_current_command_escalation s =
     (case fst (get_pending_command_escalations 0 [] False None s) of [] \<Rightarrow> None | e # _ \<Rightarrow> Some e)"

definition get_oldest_question_escalation :: "guard_state \<Rightarrow> escalation option" where
  "get_oldest_question_escalation s =
     find (\<lambda>e. rq_layer (es_request e) = ''QUESTION'') (fst (get_pending_escalations 0 [] False None s))"

text \<open>What the tools read of the row; without a row, the defaults.\<close>

definition target_of :: "escalation option \<Rightarrow> str \<times> str \<times> str \<times> str" where
  "target_of e =
     (case e of None \<Rightarrow> ([], ''agy'', [], [])
      | Some e \<Rightarrow> (pane_of e, rq_agent (es_request e), raw_of e, case rq_cwd (es_request e) of Some c \<Rightarrow> c | None \<Rightarrow> []))"

definition resolve_id :: "nat \<Rightarrow> str \<Rightarrow> str \<Rightarrow> bool \<Rightarrow> str option \<Rightarrow> str option \<Rightarrow> resolve_args" where
  "resolve_id i pane status yes approver resolution =
     \<lparr>rs_pane = pane, rs_hash = [], rs_id = i, rs_status = status, rs_approval = yes, rs_approver = approver, rs_resolution = resolution\<rparr>"

definition superseded :: "nat \<Rightarrow> resolve_args" where
  "superseded i = resolve_id i [] ''CANCELLED'' False (Some ''other'') (Some ''SUPERSEDED'')"

definition adjudicated :: "nat \<Rightarrow> str \<Rightarrow> str \<Rightarrow> str \<Rightarrow> str \<Rightarrow> str \<Rightarrow> str option \<Rightarrow> adjudication_args" where
  "adjudicated i pane kind action feedback approver note =
     \<lparr>aj_id = i, aj_pane = pane, aj_agent = kind, aj_action = action, aj_feedback = feedback, aj_origin = ''A'',
      aj_approver = approver, aj_note = note\<rparr>"

subsection \<open>A request that changed meanwhile\<close>

definition advance_for :: "gate_world \<Rightarrow> nat \<Rightarrow> str \<times> str \<times> str \<times> str \<Rightarrow> guard_state \<Rightarrow> (advance_result \<times> guard_state) \<times> (nat \<times> str) list" where
  "advance_for G i target s =
     (case target of (pane, kind, req, cwd) \<Rightarrow>
        run_auto_advance (gt_advance G i) (pw_match (gt_pane G i)) (get_adapter kind)
          (audit_shell_command_with_taxonomy (gt_guard G)
             \<lparr>aa_cwd = cwd, aa_scope = pane, aa_agent = kind, aa_origin = AGENT, aa_effort = gt_effort G\<rparr>)
          (shadow_env (gt_guard G)) (gt_hops G) req s)"

definition advance_entry :: "str \<Rightarrow> str \<Rightarrow> advance_result \<Rightarrow> audit_entry" where
  "advance_entry pane kind aa =
     \<lparr>en_pane = pane, en_raw = the (av_request aa), en_decision = ''AUTO_APPROVED'', en_reason = av_reason aa, en_agent = kind,
      en_layer = (case av_layer aa of Some l \<Rightarrow> layer_value l | None \<Rightarrow> ''FAST_TRACK_AST''), en_origin = ''A'',
      en_consequence = (case av_taxonomy aa of Some (t, _) \<Rightarrow> consequence_value (tx_consequence t) | None \<Rightarrow> ''NONE''),
      en_mechanism = ''auto-advance'',
      en_gate = (case av_taxonomy aa of Some (t, _) \<Rightarrow> gate_state_value (tx_gate_state t) | None \<Rightarrow> ''ENFORCE''),
      en_shadow = (case av_taxonomy aa of Some (t, _) \<Rightarrow> tx_shadow_mode t | None \<Rightarrow> False),
      en_scope = ''SESSION_TRANSIENT'', en_source = None, en_revision = None\<rparr>"

fun outcome_name :: "outcome \<Rightarrow> str" where
  "outcome_name Not_Trampolined = ''not_trampolined''"
| "outcome_name Advanced_Safe = ''advanced_safe''"
| "outcome_name Advanced_Unsafe = ''advanced_unsafe''"
| "outcome_name Budget_Exhausted = ''budget_exhausted''"
| "outcome_name Parse_Failed = ''parse_failed''"

definition advance_request :: "str \<Rightarrow> str \<Rightarrow> str \<Rightarrow> advance_result \<Rightarrow> esc_request" where
  "advance_request pane kind cwd aa =
     \<lparr>rq_pane = pane, rq_raw = the (av_request aa),
      rq_reason = (if av_reason aa \<noteq> [] then av_reason aa else ''auto-advance blocked ('' @ outcome_name (av_outcome aa) @ '')''),
      rq_layer = (case av_layer aa of Some l \<Rightarrow> layer_value l | None \<Rightarrow> ''NOT_ALLOWLISTED''), rq_agent = kind, rq_session = None,
      rq_snapshot = None, rq_cwd = Some cwd, rq_origin = Some ''A'', rq_capture = None, rq_relation = None, rq_ambiguous = False,
      rq_raw_evaluated = False\<rparr>"

datatype follow_up = Advanced str | Blocked str | Still_Pending

text \<open>The old request is superseded, and the new one was approved by the coordinator or is queued.\<close>

definition reconcile :: "gate_world \<Rightarrow> nat \<Rightarrow> str \<times> str \<times> str \<times> str \<Rightarrow> guard_state \<Rightarrow> (follow_up \<times> guard_state) \<times> (nat \<times> str) list" where
  "reconcile G i target s =
     (case target of (pane, kind, req, cwd) \<Rightarrow> case advance_for G i target s of ((aa, s1), trail) \<Rightarrow>
        let moved = (av_outcome aa \<noteq> Not_Trampolined \<and> present (av_request aa));
            s2 = (if moved then resolve_escalation (gt_guard G) (gt_now G) (superseded i) s1 else s1)
        in (if av_outcome aa = Advanced_Safe then
              (Advanced (the (av_request aa)), log_entry (gt_guard G) (gt_now G) (advance_entry pane kind aa) s2)
            else if moved then
              (Blocked (the (av_request aa)), snd (enqueue_pending_escalation (gt_guard G) (gt_now G) (advance_request pane kind cwd aa) s2))
            else (Still_Pending, s2),
            trail))"

subsection \<open>The tools\<close>

datatype tool_reply =
    Not_Head nat "nat option"
  | Approved nat
  | Rejected nat
  | Auto_Advanced nat str
  | Advance_Blocked nat str
  | Dialog_Changed
  | Not_Delivered str
  | Errored
  | Information str

text \<open>The reply (\<open>None\<close>: an exception), the stores, what was done to which pane, what an advance
  approved, and what goes to the timeline.\<close>

record tool_run =
  tr_reply :: "tool_reply option"
  tr_state :: guard_state
  tr_acts :: "(str \<times> pane_act) list"
  tr_trail :: "(nat \<times> str) list"
  tr_timeline :: "tl_op list"

definition only_reply :: "tool_reply option \<Rightarrow> guard_state \<Rightarrow> tool_run" where
  "only_reply r s = \<lparr>tr_reply = r, tr_state = s, tr_acts = [], tr_trail = [], tr_timeline = []\<rparr>"

definition delivery_event :: "gate_world \<Rightarrow> str \<Rightarrow> tl_op" where
  "delivery_event G outcome = Record_Op \<lparr>ea_stage = JStr ''terminal_delivery'', ea_start = JInt (gt_start G), ea_finish = JInt (gt_end G),
     ea_outcome = JStr outcome, ea_fields = []\<rparr>"

definition internal_error :: tl_op where
  "internal_error = Finish_Op ''deferred'' ''adjudication_internal_error'' ''failed''"

definition approver_of :: "json \<Rightarrow> str" where
  "approver_of args = (if truthy (jget ''directive'' args) then ''human-tui'' else ''gatekeeper'')"

definition note_of :: "json \<Rightarrow> str \<Rightarrow> str option" where
  "note_of args feedback = (if truthy (jget ''directive'' args) then Some feedback else None)"

definition approval_ops :: "int \<Rightarrow> nat \<Rightarrow> str \<Rightarrow> str \<Rightarrow> str \<Rightarrow> str \<Rightarrow> str option \<Rightarrow> (int \<times> esc_op) list" where
  "approval_ops now i pane kind feedback approver note =
     [(now, Resolve (resolve_id i [] ''RESOLVED'' True None None)), (now, Adjudicate (adjudicated i pane kind ''APPROVE'' feedback approver note))]"

definition rejection_ops :: "int \<Rightarrow> nat \<Rightarrow> str \<Rightarrow> str \<Rightarrow> str \<Rightarrow> str option \<Rightarrow> (int \<times> esc_op) list" where
  "rejection_ops now i pane feedback approver note =
     [(now, Resolve (resolve_id i [] ''CANCELLED'' False None None)), (now, Adjudicate (adjudicated i pane [] ''REJECT'' feedback approver note))]"

text \<open>After the delivery was confirmed: the record, and the instruction, which comes last.\<close>

definition record_approval_of :: "gate_world \<Rightarrow> json \<Rightarrow> nat \<Rightarrow> str \<times> str \<times> str \<times> str \<Rightarrow> str \<Rightarrow> pane_act list \<Rightarrow> guard_state \<Rightarrow> tool_run" where
  "record_approval_of G args i target feedback sent s =
     (case target of (pane, kind, req, cwd) \<Rightarrow>
        let s' = run_esc (gt_guard G) (approval_ops (gt_now G) i pane kind feedback (approver_of args) (note_of args feedback)) s;
            done_ops = [delivery_event G ''delivered'', Finish_Op ''approved'' ''gatekeeper_approved'' ''complete'']
        in case (if gt_approve_note G \<and> feedback \<noteq> [] then raw_sends (gt_pane G i) [Note (gatekeeper_note feedback), Key ''enter''] else (True, [])) of
             (ok, extra) \<Rightarrow>
               \<lparr>tr_reply = Some (if ok then Approved i else Errored), tr_state = s', tr_acts = map (Pair pane) (sent @ extra), tr_trail = [],
                tr_timeline = (if ok then done_ops else done_ops @ [internal_error])\<rparr>)"

definition changed_meanwhile :: "gate_world \<Rightarrow> nat \<Rightarrow> str \<times> str \<times> str \<times> str \<Rightarrow> pane_act list \<Rightarrow> guard_state \<Rightarrow> tool_run" where
  "changed_meanwhile G i target sent s =
     (case reconcile G i target s of ((what, s'), trail) \<Rightarrow>
        (case what of
           Advanced req \<Rightarrow> \<lparr>tr_reply = Some (Auto_Advanced i req), tr_state = s', tr_acts = map (Pair (fst target)) sent, tr_trail = trail,
             tr_timeline = [delivery_event G ''dialog_changed'', Finish_Op ''cancelled'' ''superseded'' ''complete'']\<rparr>
         | Blocked req \<Rightarrow> \<lparr>tr_reply = Some (Advance_Blocked i req), tr_state = s', tr_acts = map (Pair (fst target)) sent, tr_trail = trail,
             tr_timeline = [delivery_event G ''dialog_changed'', Finish_Op ''cancelled'' ''superseded'' ''complete'']\<rparr>
         | Still_Pending \<Rightarrow> \<lparr>tr_reply = Some Dialog_Changed, tr_state = s', tr_acts = map (Pair (fst target)) sent, tr_trail = trail,
             tr_timeline = [delivery_event G ''dialog_changed'', Finish_Op ''deferred'' ''dialog_changed'' ''complete'']\<rparr>))"

definition failed_delivery :: "gate_world \<Rightarrow> str \<Rightarrow> str \<Rightarrow> str \<Rightarrow> pane_act list \<Rightarrow> guard_state \<Rightarrow> tool_run" where
  "failed_delivery G pane why reason sent s =
     \<lparr>tr_reply = Some (Not_Delivered (if why = [] then ''no adapter'' else why)), tr_state = s, tr_acts = map (Pair pane) sent, tr_trail = [],
      tr_timeline = [delivery_event G ''failed'', Finish_Op ''delivery_failed'' reason ''complete'']\<rparr>"

definition raised_inside :: "str \<Rightarrow> pane_act list \<Rightarrow> guard_state \<Rightarrow> tool_run" where
  "raised_inside pane sent s = \<lparr>tr_reply = Some Errored, tr_state = s, tr_acts = map (Pair pane) sent, tr_trail = [], tr_timeline = [internal_error]\<rparr>"

text \<open>The check of the head, common to both tools; \<open>act\<close> gets the number and the target.\<close>

definition at_head :: "json \<Rightarrow> str \<Rightarrow> str \<Rightarrow> (nat \<Rightarrow> str \<times> str \<times> str \<times> str \<Rightarrow> str \<Rightarrow> tool_run) \<Rightarrow> guard_state \<Rightarrow> tool_run" where
  "at_head args other d act s =
     (case (id_argument (jget ''escalation_id'' args), feedback_argument other d args) of
        (Some i, Some feedback) \<Rightarrow>
          (let active = map_option es_id (get_current_command_escalation s) in
           if active \<noteq> Some i then only_reply (Some (Not_Head i active)) s
           else act i (target_of (if 0 < i then row_with_id i (escalations s) else None)) feedback)
      | _ \<Rightarrow> only_reply None s)"

definition approve_tool :: "gate_world \<Rightarrow> json \<Rightarrow> guard_state \<Rightarrow> tool_run" where
  "approve_tool G args s =
     at_head args ''feedback'' DEFAULT_FEEDBACK
       (\<lambda>i target feedback. case target of (pane, kind, req, cwd) \<Rightarrow>
          case inject_approval (gt_pane G i) pane kind req feedback (gt_approve_note G) of
            (None, sent) \<Rightarrow> raised_inside pane sent s
          | (Some (True, why), sent) \<Rightarrow> record_approval_of G args i target feedback sent s
          | (Some (False, why), sent) \<Rightarrow>
              if why = SKIP_CHANGED then changed_meanwhile G i target sent s
              else failed_delivery G pane why ''approval_delivery_failed'' sent s) s"

definition reject_tool :: "gate_world \<Rightarrow> json \<Rightarrow> guard_state \<Rightarrow> tool_run" where
  "reject_tool G args s =
     at_head args ''reason'' ''Rejected by security gatekeeper.''
       (\<lambda>i target feedback. case target of (pane, kind, req, cwd) \<Rightarrow>
          case inject_rejection (gt_pane G i) pane kind req feedback (gt_reject_note G) True of
            (None, sent) \<Rightarrow> raised_inside pane sent s
          | (Some (True, why), sent) \<Rightarrow>
              \<lparr>tr_reply = Some (Rejected i),
               tr_state = run_esc (gt_guard G) (rejection_ops (gt_now G) i pane feedback (approver_of args) (note_of args feedback)) s,
               tr_acts = map (Pair pane) sent, tr_trail = [],
               tr_timeline = [delivery_event G ''delivered'', Finish_Op ''rejected'' ''gatekeeper_rejected'' ''complete'']\<rparr>
          | (Some (False, why), sent) \<Rightarrow> failed_delivery G pane why ''rejection_delivery_failed'' sent s) s"

text \<open>
  \<open>info\<close> stands for the other tools, which read the repository and the panes or write feature
  requests; arguments that are no dictionary raise an exception.
\<close>

definition execute_tool_call :: "(str \<Rightarrow> json \<Rightarrow> str option) \<Rightarrow> gate_world \<Rightarrow> str \<Rightarrow> json \<Rightarrow> guard_state \<Rightarrow> tool_run" where
  "execute_tool_call info G name args s =
     (if name = ''approve_escalation'' then (if is_obj args then approve_tool G args s else only_reply None s)
      else if name = ''reject_escalation'' then (if is_obj args then reject_tool G args s else only_reply None s)
      else only_reply (map_option Information (info name args)) s)"

subsection \<open>Batches\<close>

record batch_run =
  bt_state :: guard_state
  bt_resolved :: "nat list"
  bt_deferred :: "nat list"
  bt_acts :: "(str \<times> pane_act) list"
  bt_trail :: "(nat \<times> str) list"
  bt_raised :: bool

definition start_batch :: "guard_state \<Rightarrow> batch_run" where
  "start_batch s = \<lparr>bt_state = s, bt_resolved = [], bt_deferred = [], bt_acts = [], bt_trail = [], bt_raised = False\<rparr>"

definition batch_ops :: "int \<Rightarrow> escalation \<Rightarrow> str \<Rightarrow> (int \<times> esc_op) list" where
  "batch_ops now e feedback =
     [(now, Resolve (resolve_id (es_id e) (pane_of e) ''RESOLVED'' True (Some ''human-tui'') None)),
      (now, Adjudicate (adjudicated (es_id e) (pane_of e) (rq_agent (es_request e)) ''APPROVE'' feedback ''human-tui'' (Some feedback)))]"

definition approve_item :: "gate_world \<Rightarrow> str \<Rightarrow> escalation \<Rightarrow> batch_run \<Rightarrow> batch_run" where
  "approve_item G feedback e b =
     (let i = es_id e; target = target_of (Some e); pane = pane_of e in
      case inject_approval (gt_pane G i) pane (rq_agent (es_request e)) (raw_of e) feedback (gt_approve_note G) of
        (None, sent) \<Rightarrow> b\<lparr>bt_acts := bt_acts b @ map (Pair pane) sent, bt_raised := True\<rparr>
      | (Some (True, why), sent) \<Rightarrow>
          b\<lparr>bt_state := run_esc (gt_guard G) (batch_ops (gt_now G) e feedback) (bt_state b),
            bt_resolved := bt_resolved b @ [i], bt_acts := bt_acts b @ map (Pair pane) sent\<rparr>
      | (Some (False, why), sent) \<Rightarrow>
          if why \<noteq> SKIP_CHANGED then b\<lparr>bt_deferred := bt_deferred b @ [i], bt_acts := bt_acts b @ map (Pair pane) sent\<rparr>
          else (case reconcile G i target (bt_state b) of ((what, s'), trail) \<Rightarrow>
            (case what of
               Advanced req \<Rightarrow> b\<lparr>bt_state := s', bt_resolved := bt_resolved b @ [i], bt_acts := bt_acts b @ map (Pair pane) sent,
                 bt_trail := bt_trail b @ trail\<rparr>
             | _ \<Rightarrow> b\<lparr>bt_state := s', bt_deferred := bt_deferred b @ [i], bt_acts := bt_acts b @ map (Pair pane) sent,
                 bt_trail := bt_trail b @ trail\<rparr>)))"

text \<open>An exception ends the loop.\<close>

fun approve_items :: "gate_world \<Rightarrow> str \<Rightarrow> escalation list \<Rightarrow> batch_run \<Rightarrow> batch_run" where
  "approve_items G feedback [] b = b"
| "approve_items G feedback (e # es) b =
     (let b' = approve_item G feedback e b in if bt_raised b' then b' else approve_items G feedback es b')"

definition head_batch :: "guard_state \<Rightarrow> escalation list" where
  "head_batch s =
     (case group_pending_escalations (fst (get_pending_command_escalations 0 [] False None s)) of [] \<Rightarrow> [] | g # _ \<Rightarrow> gr_items g)"

definition approve_batch_escalations :: "gate_world \<Rightarrow> str \<Rightarrow> guard_state \<Rightarrow> batch_run" where
  "approve_batch_escalations G feedback s = approve_items G (sanitize_feedback feedback) (head_batch s) (start_batch s)"

definition batch_rejection_ops :: "int \<Rightarrow> escalation \<Rightarrow> str \<Rightarrow> (int \<times> esc_op) list" where
  "batch_rejection_ops now e feedback =
     [(now, Resolve (resolve_id (es_id e) (pane_of e) ''CANCELLED'' False (Some ''human-tui'') None)),
      (now, Adjudicate (adjudicated (es_id e) (pane_of e) (rq_agent (es_request e)) ''REJECT'' feedback ''human-tui'' (Some feedback)))]"

text \<open>An exception defers the item here.\<close>

definition reject_item :: "gate_world \<Rightarrow> str \<Rightarrow> escalation \<Rightarrow> batch_run \<Rightarrow> batch_run" where
  "reject_item G feedback e b =
     (let i = es_id e; pane = pane_of e in
      case inject_rejection (gt_pane G i) pane (rq_agent (es_request e)) (raw_of e) feedback (gt_reject_note G) False of
        (Some (True, why), sent) \<Rightarrow>
          b\<lparr>bt_state := run_esc (gt_guard G) (batch_rejection_ops (gt_now G) e feedback) (bt_state b),
            bt_resolved := bt_resolved b @ [i], bt_acts := bt_acts b @ map (Pair pane) sent\<rparr>
      | (_, sent) \<Rightarrow> b\<lparr>bt_deferred := bt_deferred b @ [i], bt_acts := bt_acts b @ map (Pair pane) sent\<rparr>)"

definition reject_batch_escalations :: "gate_world \<Rightarrow> str \<Rightarrow> guard_state \<Rightarrow> batch_run" where
  "reject_batch_escalations G feedback s = fold (reject_item G (sanitize_feedback feedback)) (head_batch s) (start_batch s)"

subsection \<open>What the operations change\<close>

lemma pair_keeps:
  assumes "\<And>cmd u. I u \<Longrightarrow> I (snd (audit cmd u))" and "evaluate_capture_pair shadow mw audit org raw canonical source s = (cap, t)" and "I s"
  shows "I t"
proof (cases "known raw = [] \<or> known canonical = []")
  case True
  with assms(2,3) show ?thesis by (auto simp: evaluate_capture_pair_def Let_def)
next
  case False
  let ?s1 = "snd (audit (known raw) s)"
  let ?s2 = "if known raw = known canonical then ?s1 else snd (audit (known canonical) ?s1)"
  have "t = ?s2" using assms(2) False
    by (simp add: evaluate_capture_pair_def Let_def split: prod.splits if_splits)
  with assms(1,3) show ?thesis by simp
qed

lemma once_keeps:
  assumes "\<And>cmd u. I u \<Longrightarrow> I (snd (audit cmd u))" and "auto_advance_once w mw adapter audit shadow prev k s = (r, t)" and "I s"
  shows "I t"
proof -
  from assms(2) have "t = s \<or> (\<exists>raw req source cap. evaluate_capture_pair shadow mw audit AGENT raw req source s = (cap, t))"
    by (auto simp: auto_advance_once_def split: option.splits if_splits prod.splits)
  then show ?thesis
  proof
    assume "\<exists>raw req source cap. evaluate_capture_pair shadow mw audit AGENT raw req source s = (cap, t)"
    then obtain raw req source cap where e: "evaluate_capture_pair shadow mw audit AGENT raw req source s = (cap, t)" by blast
    show ?thesis by (rule pair_keeps [where I = I, OF assms(1) e assms(3)])
  qed (simp add: assms(3))
qed

lemma loop_keeps:
  assumes "\<And>cmd u. I u \<Longrightarrow> I (snd (audit cmd u))" and "advance_loop w mw adapter audit shadow n k prev last_safe s = ((r, t), trail)" and "I s"
  shows "I t"
  using assms(2,3)
proof (induction n arbitrary: k prev last_safe s trail)
  case 0
  obtain r1 s1 where o: "auto_advance_once w mw adapter audit shadow prev k s = (r1, s1)" by (metis prod.collapse)
  have "I s1" using once_keeps [where I = I] assms(1) o 0(2) by blast
  with o 0 show ?case
    by (auto simp: advance_loop.simps [of _ _ _ _ _ 0] split: if_splits)
next
  case (Suc m)
  obtain r1 s1 where o: "auto_advance_once w mw adapter audit shadow prev k s = (r1, s1)" by (metis prod.collapse)
  have s1: "I s1" using once_keeps [where I = I] assms(1) o Suc.prems(2) by blast
  obtain inj sk why where i: "inject_safe_command w (adapter \<noteq> None) k (the (av_request r1)) = (inj, sk, why)" by (metis prod.collapse)
  obtain x trail' where rest: "advance_loop w mw adapter audit shadow m (Suc k) (the (av_request r1)) (if sk then last_safe else Some r1) s1 = (x, trail')"
    by (metis prod.collapse)
  obtain r2 t2 where x: "x = (r2, t2)" by (metis prod.collapse)
  show ?case
  proof (cases "av_outcome r1 = Advanced_Safe \<and> \<not> late_after_audit w k \<and> \<not> late_at_start w k \<and> (sk \<or> inj)")
    case True
    with Suc.prems(1) o i rest x have e: "t = t2" "r = r2" by (auto simp: advance_loop.simps [of _ _ _ _ _ "Suc m"] Let_def)
    from rest x e have "advance_loop w mw adapter audit shadow m (Suc k) (the (av_request r1)) (if sk then last_safe else Some r1) s1 = ((r, t), trail')"
      by simp
    from Suc.IH [OF this s1] show ?thesis .
  next
    case False
    with Suc.prems o i s1 show ?thesis by (auto simp: advance_loop.simps [of _ _ _ _ _ "Suc m"] Let_def split: if_splits)
  qed
qed

lemma advance_queue: "advance_for G i target s = ((aa, t), trail) \<Longrightarrow> queue_of t = queue_of s"
  unfolding advance_for_def run_auto_advance_def
  by (cases target) (auto elim!: loop_keeps [where I = "\<lambda>u. queue_of u = queue_of s", rotated])

lemma rows_update: "e' \<in> set (update_where p f es) \<Longrightarrow> e' \<in> set es \<or> (\<exists>e \<in> set es. p e \<and> e' = f e)"
  by (auto simp: update_where_def split: if_splits)

lemma rows_enqueue:
  "e' \<in> set (escalations (snd (enqueue_pending_escalation w now rq s))) \<Longrightarrow>
     e' \<in> set (escalations s) \<or> es_status e' = ''PENDING'' \<and> pane_of e' = rq_pane rq \<and> es_id e' \<in> insert (Suc (esc_seq s)) (es_id ` set (escalations s))"
  by (auto simp: enqueue_pending_escalation_def Let_def new_escalation_def reopened_def pane_of_def dest!: rows_update split: option.splits)

lemma memory_adjudications [simp]:
  "adjudications (fold (\<lambda>e. record_pane_approval w now (pane_of e) (raw_of e)) es s) = adjudications s"
  "adj_seq (fold (\<lambda>e. record_pane_approval w now (pane_of e) (raw_of e)) es s) = adj_seq s"
  by (induction es arbitrary: s) (simp_all add: record_pane_approval_def record_approval_def Let_def)

lemma entries_adjudications [simp]:
  "adjudications (fold (\<lambda>r. log_entry w now (f r)) rs s) = adjudications s" "adj_seq (fold (\<lambda>r. log_entry w now (f r)) rs s) = adj_seq s"
  by (induction rs arbitrary: s) (simp_all add: log_entry_def)

lemma promote_adjudications [simp]:
  "adjudications (maybe_promote_workspace_rule w now p s) = adjudications s" "adj_seq (maybe_promote_workspace_rule w now p s) = adj_seq s"
  by (simp_all add: maybe_promote_workspace_rule_def Let_def split: option.splits prod.splits)

definition entry_for :: "int \<Rightarrow> adjudication_args \<Rightarrow> nat \<Rightarrow> adjudication" where
  "entry_for now a n = \<lparr>ad_id = Suc n, ad_escalation = aj_id a, ad_pane = aj_pane a, ad_agent = aj_agent a, ad_action = aj_action a,
     ad_feedback = Some (aj_feedback a), ad_approver = aj_approver a, ad_note = aj_note a, ad_time = now\<rparr>"

lemma adjudications_record: "adjudications (record_adjudication w now a t) = adjudications t @ [entry_for now a (adj_seq t)]"
  by (simp add: record_adjudication_def Let_def log_adjudication_def record_human_approval_pattern_def entry_for_def split: option.splits)

text \<open>A resolution of one row and its adjudication.\<close>

lemma disposition:
  assumes "i \<noteq> 0"
  shows "escalations (run_esc w [(now, Resolve (resolve_id i pane st yes who res)), (now, Adjudicate (adjudicated i pane' kind act fb who' note'))] s)
      = update_where (\<lambda>e. es_id e = i) (\<lambda>e. disposed (adjudicated i pane' kind act fb who' note') (resolved (resolve_id i pane st yes who res) now e)) (escalations s)"
    and "adjudications (run_esc w [(now, Resolve (resolve_id i pane st yes who res)), (now, Adjudicate (adjudicated i pane' kind act fb who' note'))] s)
      = adjudications s @ [entry_for now (adjudicated i pane' kind act fb who' note') (adj_seq s)]"
    and "esc_seq (run_esc w [(now, Resolve (resolve_id i pane st yes who res)), (now, Adjudicate (adjudicated i pane' kind act fb who' note'))] s) = esc_seq s"
proof -
  let ?r = "resolve_id i pane st yes who res" and ?a = "adjudicated i pane' kind act fb who' note'"
  have "resolved_row ?r = (\<lambda>e. es_id e = i)" using assms by (intro ext) (simp add: resolved_row_def resolve_id_def)
  then have r: "escalations (resolve_escalation w now ?r s) = update_where (\<lambda>e. es_id e = i) (resolved ?r now) (escalations s)"
    "adjudications (resolve_escalation w now ?r s) = adjudications s" "adj_seq (resolve_escalation w now ?r s) = adj_seq s"
    "esc_seq (resolve_escalation w now ?r s) = esc_seq s"
    by (simp_all add: resolve_escalation_def Let_def)
  have a: "aj_id ?a = i" by (simp add: adjudicated_def)
  show "adjudications (run_esc w [(now, Resolve ?r), (now, Adjudicate ?a)] s) = adjudications s @ [entry_for now ?a (adj_seq s)]"
    by (simp add: run_esc_def adjudications_record r)
  show "escalations (run_esc w [(now, Resolve ?r), (now, Adjudicate ?a)] s)
      = update_where (\<lambda>e. es_id e = i) (\<lambda>e. disposed ?a (resolved ?r now e)) (escalations s)"
    using assms by (simp add: run_esc_def adjudication_queue a r) (auto simp: update_where_def resolved_def)
  show "esc_seq (run_esc w [(now, Resolve ?r), (now, Adjudicate ?a)] s) = esc_seq s"
    by (simp add: run_esc_def adjudication_queue r)
qed

subsection \<open>Adjudications follow deliveries\<close>

text \<open>The queue is well formed and its rows are numbered from 1 on.\<close>

definition numbered :: "'a guard_state_scheme \<Rightarrow> bool" where
  "numbered s \<longleftrightarrow> well_queued s \<and> (\<forall>e \<in> set (escalations s). es_id e \<noteq> 0)"

definition approval_delivered :: "gate_world \<Rightarrow> str \<Rightarrow> escalation \<Rightarrow> bool" where
  "approval_delivered G feedback e \<longleftrightarrow>
     (\<exists>why sent. inject_approval (gt_pane G (es_id e)) (pane_of e) (rq_agent (es_request e)) (raw_of e) feedback (gt_approve_note G) = (Some (True, why), sent))"

definition rejection_delivered :: "gate_world \<Rightarrow> str \<Rightarrow> bool \<Rightarrow> escalation \<Rightarrow> bool" where
  "rejection_delivered G feedback after_adapter e \<longleftrightarrow>
     (\<exists>why sent. inject_rejection (gt_pane G (es_id e)) (pane_of e) (rq_agent (es_request e)) (raw_of e) feedback (gt_reject_note G) after_adapter
        = (Some (True, why), sent))"

text \<open>What may become of the row \<open>e\<close>, or be queued for its pane.\<close>

definition outcome_of :: "bool \<Rightarrow> bool \<Rightarrow> escalation \<Rightarrow> escalation \<Rightarrow> bool" where
  "outcome_of yes no e e' \<longleftrightarrow>
     (es_status e' = ''RESOLVED'' \<and> es_id e' = es_id e \<and> yes)
   \<or> (es_status e' = ''CANCELLED'' \<and> es_id e' = es_id e \<and> (no \<or> es_resolution e' = Some ''SUPERSEDED''))
   \<or> (es_status e' = ''PENDING'' \<and> pane_of e' = pane_of e)"

lemma outcome_mono: "outcome_of y n e e' \<Longrightarrow> (y \<Longrightarrow> y') \<Longrightarrow> (n \<Longrightarrow> n') \<Longrightarrow> outcome_of y' n' e e'"
  by (auto simp: outcome_of_def)

lemma queue_parts: "queue_of t = queue_of s \<Longrightarrow> escalations t = escalations s \<and> adjudications t = adjudications s \<and> adj_seq t = adj_seq s \<and> esc_seq t = esc_seq s"
  by (simp add: queue_of_def)

lemma numbered_ext: "escalations t = escalations s \<Longrightarrow> esc_seq t = esc_seq s \<Longrightarrow> numbered t = numbered s"
  by (simp add: numbered_def well_queued_def)

lemma numbered_changed:
  assumes "escalations t = update_where p f (escalations s)" and "esc_seq t = esc_seq s" and "keeps_identity f" and "numbered s"
  shows "numbered t"
proof -
  have "numbered (s\<lparr>escalations := update_where p f (escalations s)\<rparr>)"
    using assms(3,4) by (auto simp: numbered_def queued_update keeps_identity_def dest!: rows_update)
  with assms(1,2) numbered_ext [of t "s\<lparr>escalations := update_where p f (escalations s)\<rparr>"] show ?thesis by simp
qed

lemma numbered_enqueue: "numbered s \<Longrightarrow> numbered (snd (enqueue_pending_escalation w now rq s))"
  unfolding numbered_def by (auto simp: queued_enqueue dest!: rows_enqueue)

lemma superseded_rows:
  assumes "i \<noteq> 0"
  shows "escalations (resolve_escalation w now (superseded i) s) = update_where (\<lambda>e. es_id e = i) (resolved (superseded i) now) (escalations s)"
    and "adjudications (resolve_escalation w now (superseded i) s) = adjudications s"
    and "esc_seq (resolve_escalation w now (superseded i) s) = esc_seq s"
proof -
  have "resolved_row (superseded i) = (\<lambda>e. es_id e = i)" using assms by (intro ext) (simp add: resolved_row_def superseded_def resolve_id_def)
  then show "escalations (resolve_escalation w now (superseded i) s) = update_where (\<lambda>e. es_id e = i) (resolved (superseded i) now) (escalations s)"
    "adjudications (resolve_escalation w now (superseded i) s) = adjudications s" "esc_seq (resolve_escalation w now (superseded i) s) = esc_seq s"
    by (simp_all add: resolve_escalation_def Let_def)
qed

lemma numbered_superseded: "numbered s \<Longrightarrow> i \<noteq> 0 \<Longrightarrow> numbered (resolve_escalation w now (superseded i) s)"
  by (rule numbered_changed [OF superseded_rows(1,3)]) simp_all

lemma reconciled:
  assumes "reconcile G (es_id e) (target_of (Some e)) s = ((what, s'), trail)" and "numbered s" and "es_id e \<noteq> 0"
  shows "adjudications s' = adjudications s \<and> numbered s'
    \<and> (\<forall>e' \<in> set (escalations s'). e' \<in> set (escalations s) \<or> outcome_of False False e e')"
proof -
  obtain aa s1 tr where a: "advance_for G (es_id e) (target_of (Some e)) s = ((aa, s1), tr)" by (metis prod.collapse)
  from queue_parts [OF advance_queue [OF a]] have q: "escalations s1 = escalations s" "adjudications s1 = adjudications s" "esc_seq s1 = esc_seq s" by auto
  define moved where "moved \<longleftrightarrow> av_outcome aa \<noteq> Not_Trampolined \<and> present (av_request aa)"
  define s2 where "s2 = (if moved then resolve_escalation (gt_guard G) (gt_now G) (superseded (es_id e)) s1 else s1)"
  have n1: "numbered s1" using assms(2) q numbered_ext by blast
  have n2: "numbered s2" unfolding s2_def by (simp add: numbered_superseded [OF n1 assms(3)] n1)
  have r2: "adjudications s2 = adjudications s" unfolding s2_def by (simp add: superseded_rows(2) [OF assms(3)] q)
  have c2: "e' \<in> set (escalations s) \<or> outcome_of False False e e'" if "e' \<in> set (escalations s2)" for e'
    using that q superseded_rows(1) [OF assms(3), of "gt_guard G" "gt_now G" s1]
    by (auto simp: s2_def outcome_of_def resolved_def superseded_def resolve_id_def coalesce_def split: if_splits dest!: rows_update)
  obtain pane kind req cwd where t: "target_of (Some e) = (pane, kind, req, cwd)" "pane = pane_of e" by (simp add: target_of_def)
  let ?rq = "advance_request pane kind cwd aa"
  have "s' = log_entry (gt_guard G) (gt_now G) (advance_entry pane kind aa) s2 \<or> s' = s2
      \<or> s' = snd (enqueue_pending_escalation (gt_guard G) (gt_now G) ?rq s2)"
    using assms(1) a t by (auto simp: reconcile_def Let_def s2_def moved_def split: if_splits)
  then show ?thesis
  proof (elim disjE)
    assume "s' = log_entry (gt_guard G) (gt_now G) (advance_entry pane kind aa) s2"
    then have l: "escalations s' = escalations s2" "adjudications s' = adjudications s2" "esc_seq s' = esc_seq s2" by (simp_all add: log_entry_def)
    with n2 numbered_ext [of s' s2] r2 c2 show ?thesis by simp
  next
    assume e: "s' = snd (enqueue_pending_escalation (gt_guard G) (gt_now G) ?rq s2)"
    have "adjudications s' = adjudications s2" by (simp add: e enqueue_pending_escalation_def Let_def split: option.splits)
    moreover have "numbered s'" using n2 numbered_enqueue e by blast
    moreover have "e' \<in> set (escalations s) \<or> outcome_of False False e e'" if "e' \<in> set (escalations s')" for e'
      using rows_enqueue [OF that [unfolded e]] c2 t(2) by (auto simp: outcome_of_def advance_request_def)
    ultimately show ?thesis using r2 by simp
  qed (use n2 r2 c2 in simp)
qed

lemma disposed_rows:
  assumes "i \<noteq> 0" and "e' \<in> set (escalations (run_esc w [(now, Resolve (resolve_id i pane st yes who res)), (now, Adjudicate (adjudicated i pane' kind act fb who' note'))] s))"
  shows "e' \<in> set (escalations s) \<or> es_id e' = i \<and> es_status e' = st"
  using assms(2) unfolding disposition(1) [OF assms(1)] by (auto simp: disposed_def resolved_def resolve_id_def dest!: rows_update)

lemma numbered_run: "numbered s \<Longrightarrow> i \<noteq> 0 \<Longrightarrow>
    numbered (run_esc w [(now, Resolve (resolve_id i pane st yes who res)), (now, Adjudicate (adjudicated i pane' kind act fb who' note'))] s)"
  by (rule numbered_changed [OF disposition(1,3)]) (simp_all add: keeps_identity_def disposed_def resolved_def pane_of_def)

lemma head_row:
  assumes "get_current_command_escalation s = Some e" and "numbered s"
  shows "e \<in> set (escalations s)" and "es_id e \<noteq> 0" and "row_with_id (es_id e) (escalations s) = Some e"
    and "rq_layer (es_request e) \<noteq> ''QUESTION''" and "es_status e = ''PENDING''"
proof -
  have "e \<in> set (fst (get_pending_command_escalations 0 [] False None s))"
    using assms(1) by (auto simp: get_current_command_escalation_def split: list.splits)
  then show m: "e \<in> set (escalations s)" and "rq_layer (es_request e) \<noteq> ''QUESTION''" and "es_status e = ''PENDING''"
    by (auto simp: get_pending_command_escalations_def get_pending_escalations_def Let_def is_wanted_def)
  with assms(2) show "es_id e \<noteq> 0" by (auto simp: numbered_def)
  have d: "distinct (map es_id (escalations s))" using assms(2) by (simp add: numbered_def well_queued_def)
  show "row_with_id (es_id e) (escalations s) = Some e"
  proof (cases "row_with_id (es_id e) (escalations s)")
    case None
    with m show ?thesis by (auto simp: row_with_id_def find_None_iff)
  next
    case (Some e2)
    then have "e2 \<in> set (escalations s)" "es_id e2 = es_id e" by (auto simp: row_with_id_def find_Some_iff)
    with m d same_id Some show ?thesis by metis
  qed
qed

text \<open>The target of a tool call at the head is the head itself.\<close>

lemma at_head_cases:
  assumes "numbered s"
  shows "(\<exists>r. at_head args other d act s = only_reply r s)
    \<or> (\<exists>e fb. get_current_command_escalation s = Some e \<and> id_argument (jget ''escalation_id'' args) = Some (es_id e)
         \<and> feedback_argument other d args = Some fb \<and> at_head args other d act s = act (es_id e) (target_of (Some e)) fb)"
proof -
  consider r where "at_head args other d act s = only_reply r s"
    | i fb where "id_argument (jget ''escalation_id'' args) = Some i" "feedback_argument other d args = Some fb"
        "map_option es_id (get_current_command_escalation s) = Some i"
        "at_head args other d act s = act i (target_of (if 0 < i then row_with_id i (escalations s) else None)) fb"
  proof (cases "id_argument (jget ''escalation_id'' args)"; cases "feedback_argument other d args")
    fix i fb assume a: "id_argument (jget ''escalation_id'' args) = Some i" "feedback_argument other d args = Some fb"
    show thesis
      by (cases "map_option es_id (get_current_command_escalation s) = Some i") (use a that in \<open>simp_all add: at_head_def Let_def\<close>)
  qed (use that(1) in \<open>simp_all add: at_head_def\<close>)
  then show ?thesis
  proof cases
    case 2
    then obtain e where e: "get_current_command_escalation s = Some e" "es_id e = i" by auto
    from head_row(2,3) [OF e(1) assms] e(2) 2(4) have "at_head args other d act s = act (es_id e) (target_of (Some e)) fb" by simp
    with 2 e show ?thesis by (intro disjI2 exI [of _ e] exI [of _ fb]) simp
  qed blast
qed

definition tool_feedback :: "str \<Rightarrow> json \<Rightarrow> str option" where
  "tool_feedback name args =
     (if name = ''approve_escalation'' then feedback_argument ''feedback'' DEFAULT_FEEDBACK args
      else feedback_argument ''reason'' ''Rejected by security gatekeeper.'' args)"

definition confirmed :: "gate_world \<Rightarrow> str \<Rightarrow> str \<Rightarrow> escalation \<Rightarrow> bool" where
  "confirmed G name feedback e \<longleftrightarrow>
     (if name = ''approve_escalation'' then approval_delivered G feedback e
      else name = ''reject_escalation'' \<and> rejection_delivered G feedback True e)"

text \<open>The adjudications after a tool call that was carried out for the head \<open>e\<close>.\<close>

definition adjudications_after :: "gate_world \<Rightarrow> str \<Rightarrow> json \<Rightarrow> str \<Rightarrow> escalation \<Rightarrow> guard_state \<Rightarrow> adjudication list" where
  "adjudications_after G name args feedback e s =
     (if confirmed G name feedback e
      then adjudications s @ [entry_for (gt_now G) (adjudicated (es_id e) (pane_of e)
             (if name = ''approve_escalation'' then rq_agent (es_request e) else [])
             (if name = ''approve_escalation'' then ''APPROVE'' else ''REJECT'') feedback (approver_of args) (note_of args feedback)) (adj_seq s)]
      else adjudications s)"

lemma approve_tool_effect:
  assumes "numbered s"
  shows "(\<exists>r. approve_tool G args s = only_reply r s)
    \<or> (\<exists>e fb. get_current_command_escalation s = Some e \<and> tool_feedback ''approve_escalation'' args = Some fb
         \<and> adjudications (tr_state (approve_tool G args s)) = adjudications_after G ''approve_escalation'' args fb e s
         \<and> numbered (tr_state (approve_tool G args s))
         \<and> (\<forall>e' \<in> set (escalations (tr_state (approve_tool G args s))). e' \<in> set (escalations s) \<or> outcome_of (approval_delivered G fb e) False e e'))"
proof -
  let ?act = "\<lambda>i target feedback. case target of (pane, kind, req, cwd) \<Rightarrow>
          case inject_approval (gt_pane G i) pane kind req feedback (gt_approve_note G) of
            (None, sent) \<Rightarrow> raised_inside pane sent s
          | (Some (True, why), sent) \<Rightarrow> record_approval_of G args i target feedback sent s
          | (Some (False, why), sent) \<Rightarrow>
              if why = SKIP_CHANGED then changed_meanwhile G i target sent s
              else failed_delivery G pane why ''approval_delivery_failed'' sent s"
  from at_head_cases [OF assms, of args "''feedback''" DEFAULT_FEEDBACK ?act]
  consider r where "approve_tool G args s = only_reply r s"
    | e fb where "get_current_command_escalation s = Some e" "tool_feedback ''approve_escalation'' args = Some fb"
        "approve_tool G args s = ?act (es_id e) (target_of (Some e)) fb"
    by (auto simp: approve_tool_def tool_feedback_def)
  then show ?thesis
  proof cases
    case (2 e fb)
    note h = head_row(2) [OF 2(1) assms]
    obtain res sent where i: "inject_approval (gt_pane G (es_id e)) (pane_of e) (rq_agent (es_request e)) (raw_of e) fb (gt_approve_note G) = (res, sent)"
      by (metis prod.collapse)
    consider (raised) "res = None" | (yes) why where "res = Some (True, why)" | (changed) "res = Some (False, SKIP_CHANGED)"
      | (failed) why where "res = Some (False, why)" "why \<noteq> SKIP_CHANGED"
      by (metis (full_types) option.exhaust surj_pair)
    then have "adjudications (tr_state (approve_tool G args s)) = adjudications_after G ''approve_escalation'' args fb e s
       \<and> numbered (tr_state (approve_tool G args s))
       \<and> (\<forall>e' \<in> set (escalations (tr_state (approve_tool G args s))). e' \<in> set (escalations s) \<or> outcome_of (approval_delivered G fb e) False e e')"
    proof cases
      case raised
      with 2(3) i assms show ?thesis
        by (simp add: target_of_def raised_inside_def adjudications_after_def confirmed_def approval_delivered_def)
    next
      case (yes why)
      let ?s' = "run_esc (gt_guard G) (approval_ops (gt_now G) (es_id e) (pane_of e) (rq_agent (es_request e)) fb (approver_of args) (note_of args fb)) s"
      have st: "tr_state (approve_tool G args s) = ?s'"
        using 2(3) i yes by (simp add: target_of_def record_approval_of_def Let_def split: prod.splits)
      have d: "approval_delivered G fb e" using i yes by (simp add: approval_delivered_def)
      have "adjudications ?s' = adjudications_after G ''approve_escalation'' args fb e s" "numbered ?s'"
        using d h assms by (simp_all add: approval_ops_def disposition(2) numbered_run adjudications_after_def confirmed_def)
      moreover have "e' \<in> set (escalations s) \<or> outcome_of (approval_delivered G fb e) False e e'" if "e' \<in> set (escalations ?s')" for e'
        using disposed_rows [OF h that [unfolded approval_ops_def]] d by (auto simp: outcome_of_def)
      ultimately show ?thesis unfolding st by blast
    next
      case changed
      obtain what s' trail where r: "reconcile G (es_id e) (target_of (Some e)) s = ((what, s'), trail)" by (metis prod.collapse)
      have st: "tr_state (approve_tool G args s) = s'"
        using 2(3) i changed r by (cases what) (simp_all add: target_of_def changed_meanwhile_def)
      have "\<not> approval_delivered G fb e" using i changed by (simp add: approval_delivered_def)
      with reconciled [OF r assms h] st show ?thesis
        by (auto simp: adjudications_after_def confirmed_def intro: outcome_mono)
    next
      case (failed why)
      with 2(3) i assms show ?thesis
        by (simp add: target_of_def failed_delivery_def adjudications_after_def confirmed_def approval_delivered_def)
    qed
    with 2 show ?thesis by blast
  qed blast
qed

lemma reject_tool_effect:
  assumes "numbered s"
  shows "(\<exists>r. reject_tool G args s = only_reply r s)
    \<or> (\<exists>e fb. get_current_command_escalation s = Some e \<and> tool_feedback ''reject_escalation'' args = Some fb
         \<and> adjudications (tr_state (reject_tool G args s)) = adjudications_after G ''reject_escalation'' args fb e s
         \<and> numbered (tr_state (reject_tool G args s))
         \<and> (\<forall>e' \<in> set (escalations (tr_state (reject_tool G args s))). e' \<in> set (escalations s) \<or> outcome_of False (rejection_delivered G fb True e) e e'))"
proof -
  let ?act = "\<lambda>i target feedback. case target of (pane, kind, req, cwd) \<Rightarrow>
          case inject_rejection (gt_pane G i) pane kind req feedback (gt_reject_note G) True of
            (None, sent) \<Rightarrow> raised_inside pane sent s
          | (Some (True, why), sent) \<Rightarrow>
              \<lparr>tr_reply = Some (Rejected i),
               tr_state = run_esc (gt_guard G) (rejection_ops (gt_now G) i pane feedback (approver_of args) (note_of args feedback)) s,
               tr_acts = map (Pair pane) sent, tr_trail = [],
               tr_timeline = [delivery_event G ''delivered'', Finish_Op ''rejected'' ''gatekeeper_rejected'' ''complete'']\<rparr>
          | (Some (False, why), sent) \<Rightarrow> failed_delivery G pane why ''rejection_delivery_failed'' sent s"
  from at_head_cases [OF assms, of args "''reason''" "''Rejected by security gatekeeper.''" ?act]
  consider r where "reject_tool G args s = only_reply r s"
    | e fb where "get_current_command_escalation s = Some e" "tool_feedback ''reject_escalation'' args = Some fb"
        "reject_tool G args s = ?act (es_id e) (target_of (Some e)) fb"
    by (auto simp: reject_tool_def tool_feedback_def)
  then show ?thesis
  proof cases
    case (2 e fb)
    note h = head_row(2) [OF 2(1) assms]
    obtain res sent where i: "inject_rejection (gt_pane G (es_id e)) (pane_of e) (rq_agent (es_request e)) (raw_of e) fb (gt_reject_note G) True = (res, sent)"
      by (metis prod.collapse)
    consider (raised) "res = None" | (yes) why where "res = Some (True, why)" | (failed) why where "res = Some (False, why)"
      by (metis (full_types) option.exhaust surj_pair)
    then have "adjudications (tr_state (reject_tool G args s)) = adjudications_after G ''reject_escalation'' args fb e s
       \<and> numbered (tr_state (reject_tool G args s))
       \<and> (\<forall>e' \<in> set (escalations (tr_state (reject_tool G args s))). e' \<in> set (escalations s) \<or> outcome_of False (rejection_delivered G fb True e) e e')"
    proof cases
      case (yes why)
      let ?s' = "run_esc (gt_guard G) (rejection_ops (gt_now G) (es_id e) (pane_of e) fb (approver_of args) (note_of args fb)) s"
      have st: "tr_state (reject_tool G args s) = ?s'" using 2(3) i yes by (simp add: target_of_def)
      have d: "rejection_delivered G fb True e" using i yes by (simp add: rejection_delivered_def)
      have "adjudications ?s' = adjudications_after G ''reject_escalation'' args fb e s" "numbered ?s'"
        using d h assms by (simp_all add: rejection_ops_def disposition(2) numbered_run adjudications_after_def confirmed_def)
      moreover have "e' \<in> set (escalations s) \<or> outcome_of False (rejection_delivered G fb True e) e e'" if "e' \<in> set (escalations ?s')" for e'
        using disposed_rows [OF h that [unfolded rejection_ops_def]] d by (auto simp: outcome_of_def)
      ultimately show ?thesis unfolding st by blast
    qed (use 2(3) i assms in \<open>simp_all add: target_of_def raised_inside_def failed_delivery_def adjudications_after_def confirmed_def rejection_delivered_def\<close>)
    with 2 show ?thesis by blast
  qed blast
qed

lemma tool_call_effect:
  assumes "numbered s" and "r = execute_tool_call info G name args s"
  shows "tr_state r = s \<or> (\<exists>e fb. get_current_command_escalation s = Some e \<and> tool_feedback name args = Some fb
      \<and> adjudications (tr_state r) = adjudications_after G name args fb e s
      \<and> (\<forall>e' \<in> set (escalations (tr_state r)). e' \<in> set (escalations s)
            \<or> outcome_of (name = ''approve_escalation'' \<and> approval_delivered G fb e) (name = ''reject_escalation'' \<and> rejection_delivered G fb True e) e e'))"
proof -
  consider "name = ''approve_escalation''" "is_obj args" | "name = ''reject_escalation''" "is_obj args" | "tr_state r = s"
    using assms(2) by (auto simp: execute_tool_call_def only_reply_def split: if_splits)
  then show ?thesis
  proof cases
    case 1
    with assms(2) have "r = approve_tool G args s" by (simp add: execute_tool_call_def)
    with approve_tool_effect [OF assms(1), of G args] 1 show ?thesis by (auto simp: only_reply_def)
  next
    case 2
    with assms(2) have "r = reject_tool G args s" by (simp add: execute_tool_call_def)
    with reject_tool_effect [OF assms(1), of G args] 2 show ?thesis by (auto simp: only_reply_def)
  qed simp
qed


subsection \<open>The batch at the head\<close>

lemma last_remdups: "xs \<noteq> [] \<Longrightarrow> last (remdups xs) = last xs"
  by (induction xs) auto

lemma head_batch_group:
  "set (head_batch s) = (case get_current_command_escalation s of None \<Rightarrow> {}
     | Some h \<Rightarrow> {e \<in> set (fst (get_pending_command_escalations 0 [] False None s)). group_key e = group_key h})"
proof -
  define es where "es = fst (get_pending_command_escalations 0 [] False None s)"
  show ?thesis
  proof (cases es)
    case Nil
    then show ?thesis by (simp add: head_batch_def get_current_command_escalation_def flip: es_def) (simp add: group_pending_escalations_def)
  next
    case (Cons h t)
    have "first_keys (map group_key es) \<noteq> []" using Cons by (simp add: first_keys_def)
    moreover have "hd (first_keys (map group_key es)) = group_key h"
      using Cons by (simp add: first_keys_def hd_rev last_remdups)
    ultimately obtain ks where "first_keys (map group_key es) = group_key h # ks" by (metis list.exhaust_sel)
    then have "head_batch s = filter (\<lambda>e. group_key e = group_key h) es"
      by (simp add: head_batch_def batches_partition_the_queue group_of_def Let_def flip: es_def)
    with Cons show ?thesis by (auto simp: get_current_command_escalation_def simp flip: es_def)
  qed
qed

lemma approve_item_effect:
  assumes "numbered (bt_state b)" and "es_id e \<noteq> 0"
  shows "numbered (bt_state (approve_item G fb e b))
    \<and> (\<forall>e' \<in> set (escalations (bt_state (approve_item G fb e b))). e' \<in> set (escalations (bt_state b)) \<or> outcome_of (approval_delivered G fb e) False e e')
    \<and> adjudications (bt_state (approve_item G fb e b)) = adjudications (bt_state b) @
        (if approval_delivered G fb e
         then [entry_for (gt_now G) (adjudicated (es_id e) (pane_of e) (rq_agent (es_request e)) ''APPROVE'' fb ''human-tui'' (Some fb)) (adj_seq (bt_state b))]
         else [])"
proof -
  let ?b = "approve_item G fb e b"
  obtain res sent where i: "inject_approval (gt_pane G (es_id e)) (pane_of e) (rq_agent (es_request e)) (raw_of e) fb (gt_approve_note G) = (res, sent)"
    by (metis prod.collapse)
  consider (raised) "res = None" | (yes) why where "res = Some (True, why)" | (changed) "res = Some (False, SKIP_CHANGED)"
    | (failed) why where "res = Some (False, why)" "why \<noteq> SKIP_CHANGED"
    by (metis (full_types) option.exhaust surj_pair)
  then show ?thesis
  proof cases
    case (yes why)
    have st: "bt_state ?b = run_esc (gt_guard G) (batch_ops (gt_now G) e fb) (bt_state b)"
      using i yes by (simp add: approve_item_def Let_def)
    have d: "approval_delivered G fb e" using i yes by (simp add: approval_delivered_def)
    have "e' \<in> set (escalations (bt_state b)) \<or> outcome_of (approval_delivered G fb e) False e e'" if "e' \<in> set (escalations (bt_state ?b))" for e'
      using disposed_rows [OF assms(2) that [unfolded st batch_ops_def]] d by (auto simp: outcome_of_def)
    then show ?thesis unfolding st batch_ops_def using assms d by (simp add: numbered_run disposition(2))
  next
    case changed
    obtain what s' trail where r: "reconcile G (es_id e) (target_of (Some e)) (bt_state b) = ((what, s'), trail)" by (metis prod.collapse)
    have st: "bt_state ?b = s'" using i changed r by (cases what) (simp_all add: approve_item_def Let_def)
    have "\<not> approval_delivered G fb e" using i changed by (simp add: approval_delivered_def)
    with reconciled [OF r assms] st show ?thesis by (auto intro: outcome_mono)
  qed (use i assms in \<open>simp_all add: approve_item_def Let_def approval_delivered_def\<close>)
qed

lemma approve_items_effect:
  assumes "numbered (bt_state b)" and "\<forall>e \<in> set es. es_id e \<noteq> 0"
  shows "(\<forall>e' \<in> set (escalations (bt_state (approve_items G fb es b))). e' \<in> set (escalations (bt_state b)) \<or> (\<exists>e \<in> set es. outcome_of (approval_delivered G fb e) False e e'))
    \<and> (\<exists>new. adjudications (bt_state (approve_items G fb es b)) = adjudications (bt_state b) @ new
         \<and> (\<forall>a \<in> set new. \<exists>e \<in> set es. approval_delivered G fb e \<and> ad_escalation a = es_id e \<and> ad_action a = ''APPROVE'' \<and> ad_approver a = ''human-tui''))"
  using assms
proof (induction es arbitrary: b)
  case (Cons e es)
  let ?b = "approve_item G fb e b"
  note st = approve_item_effect [OF Cons.prems(1), of e G fb]
  have e: "es_id e \<noteq> 0" using Cons.prems(2) by simp
  note st = approve_item_effect [OF Cons.prems(1) e, of G fb]
  have one: "\<exists>new. adjudications (bt_state ?b) = adjudications (bt_state b) @ new
      \<and> (\<forall>a \<in> set new. approval_delivered G fb e \<and> ad_escalation a = es_id e \<and> ad_action a = ''APPROVE'' \<and> ad_approver a = ''human-tui'')"
    using st by (simp add: entry_for_def adjudicated_def)
  show ?case
  proof (cases "bt_raised ?b")
    case True
    with st one show ?thesis by (auto simp: Let_def)
  next
    case False
    note ih = Cons.IH [OF st [THEN conjunct1]]
    have "(\<forall>e' \<in> set (escalations (bt_state (approve_items G fb es ?b))). e' \<in> set (escalations (bt_state ?b)) \<or> (\<exists>x \<in> set es. outcome_of (approval_delivered G fb x) False x e'))
        \<and> (\<exists>new. adjudications (bt_state (approve_items G fb es ?b)) = adjudications (bt_state ?b) @ new
         \<and> (\<forall>a \<in> set new. \<exists>x \<in> set es. approval_delivered G fb x \<and> ad_escalation a = es_id x \<and> ad_action a = ''APPROVE'' \<and> ad_approver a = ''human-tui''))"
      using ih Cons.prems(2) by simp
    then obtain n2 where n2: "adjudications (bt_state (approve_items G fb es ?b)) = adjudications (bt_state ?b) @ n2"
        "\<forall>a \<in> set n2. \<exists>x \<in> set es. approval_delivered G fb x \<and> ad_escalation a = es_id x \<and> ad_action a = ''APPROVE'' \<and> ad_approver a = ''human-tui''"
        "\<forall>e' \<in> set (escalations (bt_state (approve_items G fb es ?b))). e' \<in> set (escalations (bt_state ?b)) \<or> (\<exists>x \<in> set es. outcome_of (approval_delivered G fb x) False x e')"
      by blast
    from one obtain n1 where n1: "adjudications (bt_state ?b) = adjudications (bt_state b) @ n1"
      "\<forall>a \<in> set n1. approval_delivered G fb e \<and> ad_escalation a = es_id e \<and> ad_action a = ''APPROVE'' \<and> ad_approver a = ''human-tui''" by blast
    have "approve_items G fb (e # es) b = approve_items G fb es ?b" using False by (simp add: Let_def)
    moreover have "\<exists>new. adjudications (bt_state (approve_items G fb es ?b)) = adjudications (bt_state b) @ new
        \<and> (\<forall>a \<in> set new. \<exists>x \<in> set (e # es). approval_delivered G fb x \<and> ad_escalation a = es_id x \<and> ad_action a = ''APPROVE'' \<and> ad_approver a = ''human-tui'')"
      by (rule exI [of _ "n1 @ n2"]) (use n1 n2 in auto)
    moreover have "\<forall>e' \<in> set (escalations (bt_state (approve_items G fb es ?b))). e' \<in> set (escalations (bt_state b)) \<or> (\<exists>x \<in> set (e # es). outcome_of (approval_delivered G fb x) False x e')"
      using n2(3) st by (metis list.set_intros)
    ultimately show ?thesis by simp
  qed
qed simp

text \<open>
  C11: Approving the batch approves the batch.  It acts on the pending commands that share the
  layer and the pattern of the head, never on a question; only such rows change: one is resolved
  when its approval was delivered, or superseded, or a new request of its pane is queued; and
  every adjudication that is added belongs to a request of the batch whose approval was delivered.
\<close>

theorem batch_stays_in_its_group:
  assumes "numbered s" and "b = approve_batch_escalations G feedback s"
  shows "(\<forall>e \<in> set (head_batch s). e \<in> set (escalations s) \<and> es_status e = ''PENDING'' \<and> rq_layer (es_request e) \<noteq> ''QUESTION''
        \<and> (\<exists>h. get_current_command_escalation s = Some h \<and> group_key e = group_key h))
    \<and> (\<forall>e' \<in> set (escalations (bt_state b)). e' \<in> set (escalations s)
        \<or> (\<exists>e \<in> set (head_batch s). outcome_of (approval_delivered G (sanitize_feedback feedback) e) False e e'))
    \<and> (\<exists>new. adjudications (bt_state b) = adjudications s @ new
        \<and> (\<forall>a \<in> set new. \<exists>e \<in> set (head_batch s). approval_delivered G (sanitize_feedback feedback) e \<and> ad_escalation a = es_id e
              \<and> ad_action a = ''APPROVE'' \<and> ad_approver a = ''human-tui''))"
proof -
  have h: "\<forall>e \<in> set (head_batch s). e \<in> set (escalations s) \<and> es_status e = ''PENDING'' \<and> rq_layer (es_request e) \<noteq> ''QUESTION''
        \<and> (\<exists>h. get_current_command_escalation s = Some h \<and> group_key e = group_key h)"
    by (auto simp: head_batch_group get_pending_command_escalations_def get_pending_escalations_def Let_def is_wanted_def split: option.splits)
  have "numbered (bt_state (start_batch s))" "\<forall>e \<in> set (head_batch s). es_id e \<noteq> 0"
    using h assms(1) by (auto simp: start_batch_def numbered_def)
  from approve_items_effect [OF this, of G "sanitize_feedback feedback"] h show ?thesis
    unfolding assms(2) approve_batch_escalations_def by (simp add: start_batch_def)
qed

subsection \<open>Provenance\<close>

text \<open>What a call needs to be carried out as an approval.\<close>

definition approves_head :: "gate_world \<Rightarrow> json \<Rightarrow> guard_state \<Rightarrow> escalation \<Rightarrow> str \<Rightarrow> bool" where
  "approves_head G args s e fb \<longleftrightarrow> get_current_command_escalation s = Some e \<and> id_argument (jget ''escalation_id'' args) = Some (es_id e)
     \<and> tool_feedback ''approve_escalation'' args = Some fb \<and> approval_delivered G fb e"

lemma approves_head_state:
  assumes "approves_head G args s e fb" and "numbered s"
  shows "tr_state (approve_tool G args s)
    = run_esc (gt_guard G) (approval_ops (gt_now G) (es_id e) (pane_of e) (rq_agent (es_request e)) fb (approver_of args) (note_of args fb)) s"
proof -
  from assms(1) obtain why sent where i: "inject_approval (gt_pane G (es_id e)) (pane_of e) (rq_agent (es_request e)) (raw_of e) fb (gt_approve_note G)
      = (Some (True, why), sent)" "get_current_command_escalation s = Some e" "id_argument (jget ''escalation_id'' args) = Some (es_id e)"
      "feedback_argument ''feedback'' DEFAULT_FEEDBACK args = Some fb"
    by (auto simp: approves_head_def approval_delivered_def tool_feedback_def)
  from head_row(2,3) [OF i(2) assms(2)] i show ?thesis
    by (simp add: approve_tool_def at_head_def Let_def target_of_def record_approval_of_def split: prod.splits)
qed

lemma row_after_update: "row_with_id i es = Some e \<Longrightarrow> keeps_identity f \<Longrightarrow> row_with_id i (update_where (\<lambda>e. es_id e = i) f es) = Some (f e)"
  by (induction es) (auto simp: row_with_id_def update_where_def keeps_identity_def split: if_splits)

text \<open>
  C22: The model can claim to speak for the person.  The provenance of an approval is an argument
  of the tool call, which the model writes: with \<open>directive\<close> its own call counts as an
  adjudication by a person, and the pattern of the command is trusted in this pane; without it,
  the same call creates no trust.
\<close>

theorem directive_argument_grants_trust:
  assumes "numbered s" and "approves_head G args s e fb" and "raw_of e \<noteq> []" and "t < gt_now G + approval_ttl (gt_guard G)"
  shows "if truthy (jget ''directive'' args)
    then has_human_approval_pattern (normalize_command (raw_of e)) (pane_of e) t (tr_state (approve_tool G args s))
    else trust_of (tr_state (approve_tool G args s)) = trust_of s"
proof -
  let ?w = "gt_guard G" and ?now = "gt_now G" and ?i = "es_id e"
  let ?r = "resolve_id ?i [] ''RESOLVED'' True None None"
  let ?a = "adjudicated ?i (pane_of e) (rq_agent (es_request e)) ''APPROVE'' fb (approver_of args) (note_of args fb)"
  let ?s1 = "resolve_escalation ?w ?now ?r s"
  have st: "tr_state (approve_tool G args s) = record_adjudication ?w ?now ?a ?s1"
    unfolding approves_head_state [OF assms(2,1)] by (simp add: approval_ops_def run_esc_def)
  have e: "get_current_command_escalation s = Some e" using assms(2) by (simp add: approves_head_def)
  note h = head_row [OF e assms(1)]
  have nr: "\<not> acts_for_person (Resolve ?r) s" by (simp add: acts_for_person_def remembers_def resolve_id_def)
  have "resolved_row ?r = (\<lambda>e. es_id e = ?i)" using h(2) by (intro ext) (simp add: resolved_row_def resolve_id_def)
  then have "escalations ?s1 = update_where (\<lambda>x. es_id x = ?i) (resolved ?r ?now) (escalations s)"
    by (simp add: resolve_escalation_def Let_def)
  then have row: "adjudicated_row ?a ?s1 = Some (resolved ?r ?now e)"
    using h(2,3) row_after_update by (simp add: adjudicated_row_def adjudicated_def)
  have raw: "raw_of (resolved ?r ?now e) = raw_of e" by (simp add: raw_of_def resolved_def)
  show ?thesis
  proof (cases "truthy (jget ''directive'' args)")
    case False
    then have "\<not> acts_for_person (Adjudicate ?a) ?s1"
      unfolding acts_for_person_def esc_op.case row option.case by (simp add: grants_trust_def adjudicated_def approver_of_def)
    from trust_step [OF this, of ?w ?now] trust_step [OF nr, of ?w ?now] False show ?thesis unfolding st by simp
  next
    case True
    then have "grants_trust ?a (resolved ?r ?now e)"
      using assms(3) by (simp add: grants_trust_def adjudicated_def approver_of_def raw)
    then have "rows (record_adjudication ?w ?now ?a ?s1) = rows (record_human_approval_pattern (normalize_command (raw_of e)) (pane_of e) ?now (approval_ttl ?w)
        (log_adjudication ?i (pane_of e) (rq_agent (es_request e)) ''APPROVE'' (Some fb) (approver_of args) (note_of args fb) ?now ?s1))"
      using row raw by (simp add: record_adjudication_def Let_def adjudicated_def record_human_approval_pattern_def log_adjudication_def)
    with assms(4) True show ?thesis
      unfolding st by (auto simp: has_human_approval_pattern_def approved_row_def record_human_approval_pattern_def Let_def update_conv split: option.splits)
  qed
qed

subsection \<open>Approvals that nobody checks\<close>

lemma blind_keys:
  assumes "kind = ''agy'' \<or> kind = ''codex''" and "pane \<noteq> []" and "pw_sent p"
  shows "\<exists>why. inject_approval p pane kind req fb False = (Some (True, why), [Key (if kind = ''agy'' then agy_approval_key req else ''y'')])"
  using assms by (auto simp: inject_approval_def has_adapter_def by_channel_def by_keys_def agy_inject_approval_def codex_inject_approval_def after_key_def)

text \<open>
  C23: An approval for AGY or Codex is recorded whatever the pane shows.  If only Herdr takes the
  key, the tool reports success, presses the approving key and resolves the head, for every
  content \<open>p\<close> of the pane, of the channel and of the ladder: another dialog that has appeared
  meanwhile is approved in its place.
\<close>

theorem approval_may_be_blind:
  assumes "numbered s" and "get_current_command_escalation s = Some e" and "id_argument (jget ''escalation_id'' args) = Some (es_id e)"
    and "tool_feedback ''approve_escalation'' args = Some fb" and "rq_agent (es_request e) \<in> {''agy'', ''codex''}" and "pane_of e \<noteq> []"
    and "\<not> gt_approve_note G" and "pw_sent p"
  shows "case approve_tool (G\<lparr>gt_pane := (gt_pane G)(es_id e := p)\<rparr>) args s of r \<Rightarrow>
      tr_reply r = Some (Approved (es_id e))
      \<and> tr_acts r = [(pane_of e, Key (if rq_agent (es_request e) = ''agy'' then agy_approval_key (raw_of e) else ''y''))]
      \<and> tr_state r = run_esc (gt_guard G)
          (approval_ops (gt_now G) (es_id e) (pane_of e) (rq_agent (es_request e)) fb (approver_of args) (note_of args fb)) s"
proof -
  from assms(5) have "rq_agent (es_request e) = ''agy'' \<or> rq_agent (es_request e) = ''codex''" by blast
  from blind_keys [OF this assms(6,8), of "raw_of e" fb] obtain why where i:
    "inject_approval p (pane_of e) (rq_agent (es_request e)) (raw_of e) fb False
      = (Some (True, why), [Key (if rq_agent (es_request e) = ''agy'' then agy_approval_key (raw_of e) else ''y'')])" by blast
  have f: "feedback_argument ''feedback'' DEFAULT_FEEDBACK args = Some fb" using assms(4) by (simp add: tool_feedback_def)
  note h = head_row(2,3) [OF assms(2,1)]
  show ?thesis
    unfolding approve_tool_def at_head_def f option.case assms(2,3) Let_def
    using h i assms(7) by (simp add: target_of_def record_approval_of_def Let_def split del: if_split)
qed

text \<open>With the instruction switched on, AGY gets it twice, each time with an \<open>enter\<close>.\<close>

lemma note_is_sent_twice:
  assumes "numbered s" and "get_current_command_escalation s = Some e" and "id_argument (jget ''escalation_id'' args) = Some (es_id e)"
    and "tool_feedback ''approve_escalation'' args = Some fb" and "rq_agent (es_request e) = ''agy''" and "pane_of e \<noteq> []" and "fb \<noteq> []"
    and "gt_approve_note G" and "\<And>a. \<not> pw_raises (gt_pane G (es_id e)) a"
  shows "tr_acts (approve_tool G args s) =
     map (Pair (pane_of e)) [Key ''tab'', Note (gatekeeper_note fb), Key ''enter'', Note (gatekeeper_note fb), Key ''enter'']"
proof -
  have f: "feedback_argument ''feedback'' DEFAULT_FEEDBACK args = Some fb" using assms(4) by (simp add: tool_feedback_def)
  note h = head_row(2,3) [OF assms(2,1)]
  show ?thesis
    unfolding approve_tool_def at_head_def f option.case assms(2,3) Let_def
    using h assms(5-9) by (simp add: target_of_def record_approval_of_def Let_def inject_approval_def after_sends_def)
qed

subsection \<open>Witnesses\<close>

definition agy_request :: esc_request where
  "agy_request = request_demo\<lparr>rq_agent := ''agy''\<rparr>"

definition escalation_demo :: escalation where
  "escalation_demo = new_escalation agy_request (command_hash guard_demo ''make'') 0 1"

definition waiting_demo :: guard_state where
  "waiting_demo = guard_state_demo\<lparr>escalations := [escalation_demo], esc_seq := 1\<rparr>"

definition pane_world_demo :: pane_world where
  "pane_world_demo = \<lparr>pw_match = match_demo,
     pw_channel = \<lparr>channel_now = 0, channel_ttl = 0, float_value = (\<lambda>_. None), text_value = (\<lambda>_. [])\<rparr>,
     pw_file = None, pw_ladder = ladder_demo, pw_attempts = 3, pw_sent = True, pw_raises = (\<lambda>_. False), pw_ready = None, pw_prompted = None,
     pw_exc = []\<rparr>"

definition gate_demo :: gate_world where
  "gate_demo = \<lparr>gt_guard = guard_demo, gt_now = 5, gt_start = 0, gt_end = 0, gt_approve_note = False, gt_reject_note = True,
     gt_pane = (\<lambda>_. pane_world_demo), gt_advance = (\<lambda>_. advance_demo), gt_hops = 3, gt_effort = ''low''\<rparr>"

definition call_demo :: json where
  "call_demo = JObj [(''escalation_id'', JStr ''1''), (''directive'', JBool True)]"

lemma call_demo_arguments: "id_argument (jget ''escalation_id'' call_demo) = Some 1"
    "feedback_argument ''feedback'' DEFAULT_FEEDBACK call_demo = Some DEFAULT_FEEDBACK" "truthy (jget ''directive'' call_demo)"
  by code_simp+

lemma demo_row: "es_id escalation_demo = 1" "pane_of escalation_demo = ''p1''"
    "raw_of escalation_demo = ''make''" "rq_agent (es_request escalation_demo) = ''agy''"
    "rq_layer (es_request escalation_demo) = ''NOT_ALLOWLISTED''" "es_status escalation_demo = ''PENDING''"
  by (simp_all add: escalation_demo_def new_escalation_def agy_request_def request_demo_def pane_of_def raw_of_def)

lemma waiting_demo_head: "get_current_command_escalation waiting_demo = Some escalation_demo"
  by (simp add: get_current_command_escalation_def get_pending_command_escalations_def get_pending_escalations_def waiting_demo_def Let_def
      is_wanted_def demo_row)

lemma waiting_demo_numbered: "numbered waiting_demo"
  by (simp add: numbered_def well_queued_def waiting_demo_def demo_row)

lemma demo_feedback: "tool_feedback ''approve_escalation'' call_demo = Some DEFAULT_FEEDBACK"
  by (simp add: tool_feedback_def call_demo_arguments)

lemma demo_blind: "tr_reply (approve_tool gate_demo call_demo waiting_demo) = Some (Approved 1)
    \<and> tr_acts (approve_tool gate_demo call_demo waiting_demo) = [(''p1'', Key ''enter'')]"
  unfolding approve_tool_def at_head_def call_demo_arguments option.case waiting_demo_head Let_def
  using head_row(3) [OF waiting_demo_head waiting_demo_numbered]
  by (simp add: demo_row target_of_def inject_approval_def gate_demo_def has_adapter_def by_channel_def by_keys_def agy_inject_approval_def
      after_key_def pane_world_demo_def agy_approval_key_def record_approval_of_def Let_def)

theorem approval_may_be_blind_witness:
  "tr_reply (approve_tool (gate_demo\<lparr>gt_pane := (gt_pane gate_demo)(1 := pane_world_demo\<lparr>pw_ladder := ladder_demo\<lparr>text_at := (\<lambda>_. ''rm -rf build'')\<rparr>\<rparr>)\<rparr>)
      call_demo waiting_demo) = Some (Approved 1)"
  using approval_may_be_blind [OF waiting_demo_numbered waiting_demo_head, of call_demo DEFAULT_FEEDBACK gate_demo
      "pane_world_demo\<lparr>pw_ladder := ladder_demo\<lparr>text_at := (\<lambda>_. ''rm -rf build'')\<rparr>\<rparr>"]
  by (simp add: demo_row call_demo_arguments demo_feedback gate_demo_def pane_world_demo_def)

lemma demo_approves: "approves_head gate_demo call_demo waiting_demo escalation_demo DEFAULT_FEEDBACK"
  by (simp add: approves_head_def waiting_demo_head call_demo_arguments demo_feedback demo_row approval_delivered_def inject_approval_def gate_demo_def
      has_adapter_def by_channel_def by_keys_def agy_inject_approval_def after_key_def pane_world_demo_def)

theorem directive_argument_grants_trust_witness:
  "has_human_approval_pattern (normalize_command ''make'') ''p1'' 10 (tr_state (approve_tool gate_demo call_demo waiting_demo))"
proof -
  have "(10 :: int) < gt_now gate_demo + approval_ttl (gt_guard gate_demo)" by (simp add: gate_demo_def guard_demo_fields)
  with directive_argument_grants_trust [OF waiting_demo_numbered demo_approves, of 10] show ?thesis
    by (simp add: demo_row call_demo_arguments)
qed


theorem batch_stays_in_its_group_witness:
  "\<exists>new. adjudications (bt_state (approve_batch_escalations gate_demo ''ok'' waiting_demo)) = adjudications waiting_demo @ new
     \<and> (\<forall>a \<in> set new. \<exists>e \<in> set (head_batch waiting_demo). ad_escalation a = es_id e) \<and> head_batch waiting_demo \<noteq> []"
proof -
  have "set (head_batch waiting_demo) \<noteq> {}"
    unfolding head_batch_group waiting_demo_head option.case
    by (auto simp: get_pending_command_escalations_def get_pending_escalations_def waiting_demo_def Let_def is_wanted_def demo_row
        intro!: exI [of _ "escalation_demo"])
  with batch_stays_in_its_group [OF waiting_demo_numbered refl, of gate_demo "''ok''"] show ?thesis by force
qed

end
