(* ===== verification/HumanDirectives.thy ===== *)
theory HumanDirectives
  imports Gatekeeper
begin

text \<open>
  What a person types to approve or reject: \<open>scripts/core/human_directives.py\<close> and the branch of
  the terminal interface (\<open>_process_user_chat_impl\<close> of \<open>scripts/cmd/schengen_tui.py\<close>) that carries a
  directive out without the model.  The Korean utterances are their UTF-8 bytes; case folding is
  that of ASCII letters.
\<close>

subsection \<open>Parsing\<close>

record human_directive =
  hd_action :: str
  hd_id :: "nat option"
  hd_feedback :: str
  hd_source :: str

definition SLASH_RE :: regex where
  "SLASH_RE = re_ci ''^/(approve|reject)(?:%s+(%d+))?(?:%s+(.+))?$''"

definition APPROVE_ENGLISH :: "str list" where
  "APPROVE_ENGLISH =
    [''approve'', ''approve it'', ''approve it that'' @ [squote] @ ''s fine'', ''allow'', ''allow it'', ''proceed'', ''go ahead'',
     ''run it'', ''yes'', ''yes do it'']"

definition APPROVE_KOREAN :: "str list" where
  "APPROVE_KOREAN =
    [[CHR 0xEC, CHR 0x8A, CHR 0xB9, CHR 0xEC, CHR 0x9D, CHR 0xB8],
     [CHR 0xEC, CHR 0x8A, CHR 0xB9, CHR 0xEC, CHR 0x9D, CHR 0xB8, CHR 0xED, CHR 0x95, CHR 0xB4],
     [CHR 0xEC, CHR 0x8A, CHR 0xB9, CHR 0xEC, CHR 0x9D, CHR 0xB8, CHR 0xED, CHR 0x95, CHR 0xB4, CHR 0xEC, CHR 0xA4, CHR 0x98],
     [CHR 0xEC, CHR 0x8A, CHR 0xB9, CHR 0xEC, CHR 0x9D, CHR 0xB8, CHR 0xED, CHR 0x95, CHR 0xB4, CHR 0xEC, CHR 0xA3, CHR 0xBC, CHR 0xEC, CHR 0x84, CHR 0xB8, CHR 0xEC, CHR 0x9A, CHR 0x94],
     [CHR 0xEC, CHR 0x8A, CHR 0xB9, CHR 0xEC, CHR 0x9D, CHR 0xB8, CHR 0xED, CHR 0x95, CHR 0x98, CHR 0xEB, CHR 0x9D, CHR 0xBC],
     [CHR 0xEC, CHR 0x8A, CHR 0xB9, CHR 0xEC, CHR 0x9D, CHR 0xB8, CHR 0xED, CHR 0x95, CHR 0x98, CHR 0xEC, CHR 0x84, CHR 0xB8, CHR 0xEC, CHR 0x9A, CHR 0x94],
     [CHR 0xEC, CHR 0xA7, CHR 0x84, CHR 0xED, CHR 0x96, CHR 0x89],
     [CHR 0xEC, CHR 0xA7, CHR 0x84, CHR 0xED, CHR 0x96, CHR 0x89, CHR 0xED, CHR 0x95, CHR 0xB4],
     [CHR 0xEC, CHR 0xA7, CHR 0x84, CHR 0xED, CHR 0x96, CHR 0x89, CHR 0xED, CHR 0x95, CHR 0xB4, CHR 0xEC, CHR 0xA4, CHR 0x98],
     [CHR 0xEC, CHR 0xA7, CHR 0x84, CHR 0xED, CHR 0x96, CHR 0x89, CHR 0xED, CHR 0x95, CHR 0xB4, CHR 0xEC, CHR 0xA3, CHR 0xBC, CHR 0xEC, CHR 0x84, CHR 0xB8, CHR 0xEC, CHR 0x9A, CHR 0x94],
     [CHR 0xEC, CHR 0xA7, CHR 0x84, CHR 0xED, CHR 0x96, CHR 0x89, CHR 0xED, CHR 0x95, CHR 0x98, CHR 0xEB, CHR 0x9D, CHR 0xBC],
     [CHR 0xEC, CHR 0xA7, CHR 0x84, CHR 0xED, CHR 0x96, CHR 0x89, CHR 0xED, CHR 0x95, CHR 0x98, CHR 0xEC, CHR 0x84, CHR 0xB8, CHR 0xEC, CHR 0x9A, CHR 0x94],
     [CHR 0xEC, CHR 0xA7, CHR 0x84, CHR 0xED, CHR 0x96, CHR 0x89, CHR 0xED, CHR 0x95, CHR 0x98, CHR 0xEC, CHR 0x9E, CHR 0x90],
     [CHR 0xEC, CHR 0x8B, CHR 0xA4, CHR 0xED, CHR 0x96, CHR 0x89],
     [CHR 0xEC, CHR 0x8B, CHR 0xA4, CHR 0xED, CHR 0x96, CHR 0x89, CHR 0xED, CHR 0x95, CHR 0xB4],
     [CHR 0xEC, CHR 0x8B, CHR 0xA4, CHR 0xED, CHR 0x96, CHR 0x89, CHR 0xED, CHR 0x95, CHR 0xB4, CHR 0xEC, CHR 0xA4, CHR 0x98],
     [CHR 0xEC, CHR 0x8B, CHR 0xA4, CHR 0xED, CHR 0x96, CHR 0x89, CHR 0xED, CHR 0x95, CHR 0xB4, CHR 0xEC, CHR 0xA3, CHR 0xBC, CHR 0xEC, CHR 0x84, CHR 0xB8, CHR 0xEC, CHR 0x9A, CHR 0x94],
     [CHR 0xED, CHR 0x97, CHR 0x88, CHR 0xEC, CHR 0x9A, CHR 0xA9],
     [CHR 0xED, CHR 0x97, CHR 0x88, CHR 0xEC, CHR 0x9A, CHR 0xA9, CHR 0xED, CHR 0x95, CHR 0xB4],
     [CHR 0xED, CHR 0x97, CHR 0x88, CHR 0xEC, CHR 0x9A, CHR 0xA9, CHR 0xED, CHR 0x95, CHR 0xB4, CHR 0xEC, CHR 0xA3, CHR 0xBC, CHR 0xEC, CHR 0x84, CHR 0xB8, CHR 0xEC, CHR 0x9A, CHR 0x94]]"

definition REJECT_ENGLISH :: "str list" where
  "REJECT_ENGLISH =
    [''reject'', ''reject it'', ''block'', ''block it'', ''stop'', ''do not run it'', ''don'' @ [squote] @ ''t run it'', ''no'']"

definition REJECT_KOREAN :: "str list" where
  "REJECT_KOREAN =
    [[CHR 0xEA, CHR 0xB1, CHR 0xB0, CHR 0xEC, CHR 0xA0, CHR 0x88],
     [CHR 0xEA, CHR 0xB1, CHR 0xB0, CHR 0xEC, CHR 0xA0, CHR 0x88, CHR 0xED, CHR 0x95, CHR 0xB4],
     [CHR 0xEA, CHR 0xB1, CHR 0xB0, CHR 0xEC, CHR 0xA0, CHR 0x88, CHR 0xED, CHR 0x95, CHR 0xB4, CHR 0xEC, CHR 0xA4, CHR 0x98],
     [CHR 0xEA, CHR 0xB1, CHR 0xB0, CHR 0xEC, CHR 0xA0, CHR 0x88, CHR 0xED, CHR 0x95, CHR 0xB4, CHR 0xEC, CHR 0xA3, CHR 0xBC, CHR 0xEC, CHR 0x84, CHR 0xB8, CHR 0xEC, CHR 0x9A, CHR 0x94],
     [CHR 0xEC, CHR 0xB0, CHR 0xA8, CHR 0xEB, CHR 0x8B, CHR 0xA8],
     [CHR 0xEC, CHR 0xB0, CHR 0xA8, CHR 0xEB, CHR 0x8B, CHR 0xA8, CHR 0xED, CHR 0x95, CHR 0xB4],
     [CHR 0xEC, CHR 0xB0, CHR 0xA8, CHR 0xEB, CHR 0x8B, CHR 0xA8, CHR 0xED, CHR 0x95, CHR 0xB4, CHR 0xEC, CHR 0xA3, CHR 0xBC, CHR 0xEC, CHR 0x84, CHR 0xB8, CHR 0xEC, CHR 0x9A, CHR 0x94],
     [CHR 0xEC, CHR 0xA4, CHR 0x91, CHR 0xEB, CHR 0x8B, CHR 0xA8],
     [CHR 0xEC, CHR 0xA4, CHR 0x91, CHR 0xEB, CHR 0x8B, CHR 0xA8, CHR 0xED, CHR 0x95, CHR 0xB4],
     [CHR 0xEC, CHR 0xB7, CHR 0xA8, CHR 0xEC, CHR 0x86, CHR 0x8C],
     [CHR 0xEC, CHR 0xB7, CHR 0xA8, CHR 0xEC, CHR 0x86, CHR 0x8C, CHR 0xED, CHR 0x95, CHR 0xB4],
     [CHR 0xEC, CHR 0x8B, CHR 0xA4, CHR 0xED, CHR 0x96, CHR 0x89, CHR 0xED, CHR 0x95, CHR 0x98, CHR 0xEC, CHR 0xA7, CHR 0x80, CHR 0xEB, CHR 0xA7, CHR 0x88],
     [CHR 0xEC, CHR 0x8B, CHR 0xA4, CHR 0xED, CHR 0x96, CHR 0x89, CHR 0xED, CHR 0x95, CHR 0x98, CHR 0xEC, CHR 0xA7, CHR 0x80] @ '' '' @ [CHR 0xEB, CHR 0xA7, CHR 0x88],
     [CHR 0xEC, CHR 0x8A, CHR 0xB9, CHR 0xEC, CHR 0x9D, CHR 0xB8, CHR 0xED, CHR 0x95, CHR 0x98, CHR 0xEC, CHR 0xA7, CHR 0x80, CHR 0xEB, CHR 0xA7, CHR 0x88],
     [CHR 0xEC, CHR 0x8A, CHR 0xB9, CHR 0xEC, CHR 0x9D, CHR 0xB8, CHR 0xED, CHR 0x95, CHR 0x98, CHR 0xEC, CHR 0xA7, CHR 0x80] @ '' '' @ [CHR 0xEB, CHR 0xA7, CHR 0x88]]"

definition approve_phrase :: "str \<Rightarrow> bool" where
  "approve_phrase p \<longleftrightarrow> p \<in> set APPROVE_ENGLISH \<or> p \<in> set APPROVE_KOREAN"

definition reject_phrase :: "str \<Rightarrow> bool" where
  "reject_phrase p \<longleftrightarrow> p \<in> set REJECT_ENGLISH \<or> p \<in> set REJECT_KOREAN"

text \<open>The stops include the ideographic full stop and the wide exclamation mark, the commas the wide one.\<close>

definition STOPS_RE :: regex where
  "STOPS_RE = re_c (''(?:[.!]|'' @ [CHR 0xE3, CHR 0x80, CHR 0x82] @ ''|'' @ [CHR 0xEF, CHR 0xBC, CHR 0x81] @ '')+$'')"

definition COMMA_RE :: regex where
  "COMMA_RE = re_c (''(?:,|'' @ [CHR 0xEF, CHR 0xBC, CHR 0x8C] @ '')%s*'')"

definition normalize_phrase :: "str \<Rightarrow> str" where
  "normalize_phrase t =
     strip (re_sub (re_c ''%s+'') (\<lambda>_. '' '')
       (re_sub COMMA_RE (\<lambda>_. '' '') (re_sub STOPS_RE (\<lambda>_. []) (str_lower (strip t)))))"

definition capitalized :: "str \<Rightarrow> str" where
  "capitalized s = (case s of [] \<Rightarrow> [] | c # cs \<Rightarrow> to_upper c # cs)"

definition parse_human_directive :: "str \<Rightarrow> nat option \<Rightarrow> human_directive option" where
  "parse_human_directive text_in active =
     (let t = strip text_in in
      case re_fullmatch SLASH_RE t of
        Some m \<Rightarrow>
          (let action = str_lower (matched_group m 1); said = matched_group m 3 in
           Some \<lparr>hd_action = action, hd_id = (if matched_group m 2 \<noteq> [] then Some (read_nat (matched_group m 2)) else active),
                 hd_feedback = (if said \<noteq> [] then said else capitalized action @ ''d via deterministic TUI directive''),
                 hd_source = ''slash''\<rparr>)
      | None \<Rightarrow>
          (let phrase = normalize_phrase t in
           if approve_phrase phrase then Some \<lparr>hd_action = ''approve'', hd_id = active, hd_feedback = t, hd_source = ''free-text''\<rparr>
           else if reject_phrase phrase then Some \<lparr>hd_action = ''reject'', hd_id = active, hd_feedback = t, hd_source = ''free-text''\<rparr>
           else None))"

subsection \<open>Carrying a directive out\<close>

datatype directive_reply = No_Directive | Observer | No_Command | Other_Command nat nat | Ran "tool_reply option"

definition directive_call :: "human_directive \<Rightarrow> nat \<Rightarrow> json" where
  "directive_call d i = JObj [(''escalation_id'', JInt (int i)), (''english_feedback'', JStr (hd_feedback d)), (''directive'', JBool True)]"

definition typed_directive :: "str \<Rightarrow> str \<Rightarrow> guard_state \<Rightarrow> human_directive option" where
  "typed_directive author typed s =
     (case (if author = ''user'' then parse_human_directive typed None else None) of
        None \<Rightarrow> None
      | Some d \<Rightarrow> if hd_id d = None then parse_human_directive typed (map_option es_id (get_current_command_escalation s)) else Some d)"

text \<open>\<open>controller\<close>: this instance leads; the message is kept as an opinion before the tool runs.\<close>

definition run_directive :: "gate_world \<Rightarrow> bool \<Rightarrow> str \<Rightarrow> str \<Rightarrow> guard_state \<Rightarrow> directive_reply \<times> tool_run" where
  "run_directive G controller author msg s =
     (case typed_directive author (strip msg) s of
        None \<Rightarrow> (No_Directive, only_reply None s)
      | Some d \<Rightarrow>
          if \<not> controller then (Observer, only_reply None s)
          else (case (hd_id d, get_current_command_escalation s) of
              (Some i, Some e) \<Rightarrow>
                if i = 0 then (No_Command, only_reply None s)
                else if i \<noteq> es_id e then (Other_Command i (es_id e), only_reply None s)
                else (let r = execute_tool_call (\<lambda>_ _. None) G (hd_action d @ ''_escalation'') (directive_call d i)
                            (record_human_opinion (gt_now G) i msg s)
                      in (Ran (tr_reply r), r))
            | _ \<Rightarrow> (No_Command, only_reply None s)))"

subsection \<open>What a directive can do\<close>

lemma opinion_keeps:
  "escalations (record_human_opinion now i said s) = escalations s" "esc_seq (record_human_opinion now i said s) = esc_seq s"
  by (simp_all add: record_human_opinion_def log_adjudication_def split: option.splits)

lemma opinion_adjudications:
  "\<exists>new. adjudications (record_human_opinion now i said s) = adjudications s @ new
     \<and> (\<forall>a \<in> set new. ad_escalation a = i \<and> ad_approver a = ''human-tui'' \<and> ad_action a = ''HUMAN_OPINION'')"
  by (simp add: record_human_opinion_def log_adjudication_def split: option.splits)

lemma head_cong: "escalations s = escalations t \<Longrightarrow> get_current_command_escalation s = get_current_command_escalation t"
  by (simp add: get_current_command_escalation_def get_pending_command_escalations_def get_pending_escalations_def Let_def)

lemma directive_approver: "approver_of (directive_call d i) = ''human-tui''"
  by (simp add: approver_of_def directive_call_def)


lemma yes_is_a_directive: "typed_directive ''user'' (strip ''yes'') waiting_demo = Some \<lparr>hd_action = ''approve'', hd_id = Some 1, hd_feedback = ''yes'', hd_source = ''free-text''\<rparr>"
proof -
  have "parse_human_directive (strip ''yes'') None = Some \<lparr>hd_action = ''approve'', hd_id = None, hd_feedback = ''yes'', hd_source = ''free-text''\<rparr>"
    and "parse_human_directive (strip ''yes'') (Some 1) = Some \<lparr>hd_action = ''approve'', hd_id = Some 1, hd_feedback = ''yes'', hd_source = ''free-text''\<rparr>"
    by code_simp+
  then show ?thesis by (simp add: typed_directive_def waiting_demo_head demo_row)
qed

lemma yes_is_recorded: "adjudications (tr_state (snd (run_directive gate_demo True ''user'' ''yes'' waiting_demo))) \<noteq> adjudications waiting_demo"
proof
  let ?r = "snd (run_directive gate_demo True ''user'' ''yes'' waiting_demo)" and ?s1 = "record_human_opinion (gt_now gate_demo) 1 ''yes'' waiting_demo"
  assume eq: "adjudications (tr_state ?r) = adjudications waiting_demo"
  have r: "?r = execute_tool_call (\<lambda>_ _. None) gate_demo (''approve'' @ ''_escalation'')
      (directive_call \<lparr>hd_action = ''approve'', hd_id = Some 1, hd_feedback = ''yes'', hd_source = ''free-text''\<rparr> 1) ?s1"
    unfolding run_directive_def yes_is_a_directive waiting_demo_head by (simp add: demo_row Let_def)
  have n1: "numbered ?s1" using waiting_demo_numbered numbered_ext [of ?s1 waiting_demo] by (simp add: opinion_keeps)
  have new: "length (adjudications ?s1) > length (adjudications waiting_demo)"
    by (simp add: record_human_opinion_def row_with_id_def log_adjudication_def waiting_demo_def demo_row)
  have "length (adjudications (tr_state ?r)) \<ge> length (adjudications ?s1)"
    using tool_call_effect [OF n1 r] by (auto simp: adjudications_after_def)
  with eq new show False by simp
qed


text \<open>A hash sign before the number hides it: the directive then names the command at the head.\<close>

lemma hash_names_the_head:
  "map_option hd_id (parse_human_directive ''/approve 12'' (Some 7)) = Some (Some 12)"
  "map_option hd_id (parse_human_directive ''/approve #12'' (Some 7)) = Some (Some 7)"
  by code_simp+

end
