(* ===== verification/ContextBudget.thy ===== *)
theory ContextBudget
  imports HumanDirectives "HOL-Library.List_Lexorder"
begin

text \<open>
  The context of the conversation with the model (\<open>scripts/tools/schengen_agent_llm.py\<close>): the
  relation of tool calls and their results, the two stages that compact results, and the budget
  of a phase, from its configuration to the preparation of a request.  Lengths count characters,
  sizes count bytes.
\<close>

subsection \<open>Messages\<close>

definition char_count :: "str \<Rightarrow> int" where
  "char_count s = int (length (filter begins_char s))"

text \<open>\<open>json.dumps(..., ensure_ascii=False)\<close> on one line, with the separators of items and of keys.\<close>

fun flat_dump :: "str \<Rightarrow> str \<Rightarrow> (rat \<Rightarrow> str) \<Rightarrow> json \<Rightarrow> str" where
  "flat_dump isep ksep fr JNull = ''null''"
| "flat_dump isep ksep fr (JBool b) = (if b then ''true'' else ''false'')"
| "flat_dump isep ksep fr (JInt i) = show_int i"
| "flat_dump isep ksep fr (JFloat NaN) = ''NaN''"
| "flat_dump isep ksep fr (JFloat PInf) = ''Infinity''"
| "flat_dump isep ksep fr (JFloat NInf) = ''-Infinity''"
| "flat_dump isep ksep fr (JFloat (Fin v)) = fr v"
| "flat_dump isep ksep fr (JStr s) = json_str s"
| "flat_dump isep ksep fr (JArr xs) = ''['' @ sep_by isep (map (flat_dump isep ksep fr) xs) @ '']''"
| "flat_dump isep ksep fr (JObj xs) = ''{'' @ sep_by isep (map (\<lambda>(k, v). json_str k @ ksep @ flat_dump isep ksep fr v) xs) @ ''}''"

text \<open>\<open>sort_keys=True\<close>.\<close>

fun sorted_json :: "json \<Rightarrow> json" where
  "sorted_json (JArr xs) = JArr (map sorted_json xs)"
| "sorted_json (JObj xs) = JObj (sort_key fst (map (\<lambda>(k, v). (k, sorted_json v)) xs))"
| "sorted_json v = v"

text \<open>
  What the code gets from the library: the text of a float and of a value that is no text, and
  the hash.
\<close>

record context_world =
  cx_float :: "rat \<Rightarrow> str"
  cx_text :: "json \<Rightarrow> str"
  cx_sha :: "str \<Rightarrow> str"

definition packed :: "context_world \<Rightarrow> json \<Rightarrow> str" where
  "packed w v = flat_dump '','' '':'' (cx_float w) (sorted_json v)"

definition canonical_prompt_bytes :: "context_world \<Rightarrow> json list \<Rightarrow> json list option \<Rightarrow> int" where
  "canonical_prompt_bytes w ms tools =
     int (length (packed w (JObj ((''messages'', JArr ms) # (case tools of None \<Rightarrow> [] | Some ts \<Rightarrow> [(''tools'', JArr ts)])))))"

text \<open>\<open>len(str(v or ""))\<close>.\<close>

definition value_chars :: "context_world \<Rightarrow> json \<Rightarrow> int" where
  "value_chars w v = (if truthy v then char_count (case v of JStr s \<Rightarrow> s | _ \<Rightarrow> cx_text w v) else 0)"

definition message_chars :: "context_world \<Rightarrow> json list \<Rightarrow> int" where
  "message_chars w ms = sum_list (map (\<lambda>m. value_chars w (jget ''content'' m) + value_chars w (jget ''tool_calls'' m)) ms)"

subsection \<open>Calls and results\<close>

text \<open>The number and the name of a call.\<close>

definition call_of :: "json \<Rightarrow> (str \<times> str) option" where
  "call_of c =
     (case (jget ''id'' c, jget ''name'' (jget ''function'' c)) of
        (JStr i, JStr n) \<Rightarrow> if i \<noteq> [] \<and> n \<noteq> [] then Some (i, n) else None
      | _ \<Rightarrow> None)"

text \<open>The names of calls, the positions of results, and the rounds with the position of their message.\<close>

record tool_rounds =
  rn_names :: "(str \<times> str) list"
  rn_results :: "(str \<times> nat) list"
  rn_rounds :: "(nat \<times> str list) list"

fun add_calls :: "json list \<Rightarrow> (str \<times> str) list \<Rightarrow> (str \<times> str) list option" where
  "add_calls [] names = Some names"
| "add_calls (c # cs) names =
     (case call_of c of
        None \<Rightarrow> None
      | Some (i, n) \<Rightarrow> if i \<in> fst ` set names then None else add_calls cs (names @ [(i, n)]))"

definition scan_message :: "nat \<Rightarrow> json \<Rightarrow> tool_rounds \<Rightarrow> tool_rounds option" where
  "scan_message k m r =
     (if jget ''role'' m = JStr ''assistant'' \<and> truthy (jget ''tool_calls'' m) then
        (case jget ''tool_calls'' m of
           JArr cs \<Rightarrow> map_option (\<lambda>names. r\<lparr>rn_names := names, rn_rounds := rn_rounds r @ [(k, map fst (drop (length (rn_names r)) names))]\<rparr>)
             (add_calls cs (rn_names r))
         | _ \<Rightarrow> None)
      else if jget ''role'' m = JStr ''tool'' then
        (case jget ''tool_call_id'' m of
           JStr i \<Rightarrow> if i \<in> fst ` set (rn_names r) \<and> i \<notin> fst ` set (rn_results r)
             then Some (r\<lparr>rn_results := rn_results r @ [(i, k)]\<rparr>) else None
         | _ \<Rightarrow> None)
      else Some r)"

fun scan_messages :: "nat \<Rightarrow> json list \<Rightarrow> tool_rounds \<Rightarrow> tool_rounds option" where
  "scan_messages k [] r = Some r"
| "scan_messages k (m # ms) r = (case scan_message k m r of None \<Rightarrow> None | Some r' \<Rightarrow> scan_messages (Suc k) ms r')"

definition tool_relationships :: "json list \<Rightarrow> tool_rounds option" where
  "tool_relationships ms =
     (case scan_messages 0 ms \<lparr>rn_names = [], rn_results = [], rn_rounds = []\<rparr> of
        None \<Rightarrow> None
      | Some r \<Rightarrow> if fst ` set (rn_names r) = fst ` set (rn_results r) then Some r else None)"

subsection \<open>The first stage\<close>

definition COMPACTION_TRIGGER_TOTAL_CHARS :: int where
  "COMPACTION_TRIGGER_TOTAL_CHARS = 12000"

definition COMPACTION_TOOL_RESULT_THRESHOLD :: int where
  "COMPACTION_TOOL_RESULT_THRESHOLD = 1000"

definition EXCERPT_CHARS :: nat where
  "EXCERPT_CHARS = 300"

definition status_of_text :: "(json \<Rightarrow> bool) \<Rightarrow> str \<Rightarrow> (str \<times> json) list" where
  "status_of_text ok content =
     (case json_loads content of
        Some v \<Rightarrow> if is_obj v \<and> ok (jget ''status'' v) then [(''status'', jget ''status'' v)] else []
      | None \<Rightarrow> [])"

definition is_scalar :: "json \<Rightarrow> bool" where
  "is_scalar v \<longleftrightarrow> (case v of JBool b \<Rightarrow> True | JInt i \<Rightarrow> True | JFloat f \<Rightarrow> True | JStr s \<Rightarrow> True | _ \<Rightarrow> False)"

definition obsolete_record :: "context_world \<Rightarrow> str \<Rightarrow> str \<Rightarrow> str \<Rightarrow> json" where
  "obsolete_record w name i content =
     JObj ([(''_compacted'', JBool True), (''tool'', JStr name), (''tool_call_id'', JStr i),
            (''original_char_count'', JInt (char_count content)), (''sha256'', JStr (cx_sha w content)),
            (''head_excerpt'', JStr (first_chars EXCERPT_CHARS content)), (''tail_excerpt'', JStr (last_chars EXCERPT_CHARS content)),
            (''notice'', JStr ''[COMPACTED OBSOLETE OBSERVATION: Full raw payload preserved in local JSONL transcript]'')]
           @ status_of_text is_scalar content)"

definition with_content :: "str \<Rightarrow> json \<Rightarrow> json" where
  "with_content s m = (case m of JObj ms \<Rightarrow> JObj (AList.update ''content'' (JStr s) ms) | _ \<Rightarrow> m)"

definition result_text :: "json list \<Rightarrow> nat \<Rightarrow> str option" where
  "result_text ms k = (if k < length ms then (case jget ''content'' (ms ! k) of JStr s \<Rightarrow> Some s | _ \<Rightarrow> None) else None)"

definition latest_round :: "tool_rounds \<Rightarrow> (nat \<times> str list) option" where
  "latest_round r = (if rn_rounds r = [] then None else Some (last (rn_rounds r)))"

text \<open>The positions of the latest round: its message and its results.\<close>

definition latest_positions :: "tool_rounds \<Rightarrow> nat \<times> str list \<Rightarrow> nat list" where
  "latest_positions r l = fst l # map (\<lambda>i. the (map_of (rn_results r) i)) (snd l)"

text \<open>The results that are replaced: of earlier rounds, long, in the order of the results.\<close>

definition obsolete_results :: "json list \<Rightarrow> tool_rounds \<Rightarrow> nat \<times> str list \<Rightarrow> (str \<times> nat) list" where
  "obsolete_results ms r l =
     filter (\<lambda>(i, k). i \<notin> set (snd l) \<and> (case result_text ms k of None \<Rightarrow> False | Some s \<Rightarrow> char_count s > COMPACTION_TOOL_RESULT_THRESHOLD))
       (rn_results r)"

definition replaced :: "(str \<Rightarrow> str \<Rightarrow> str \<Rightarrow> json) \<Rightarrow> context_world \<Rightarrow> tool_rounds \<Rightarrow> (str \<times> nat) list \<Rightarrow> json list \<Rightarrow> json list" where
  "replaced rec w r hits ms =
     fold (\<lambda>(i, k) out. out[k := with_content (packed w (rec (the (map_of (rn_names r) i)) i (the (result_text ms k)))) (ms ! k)]) hits ms"

record compaction_stats =
  cs_before :: int
  cs_after :: int
  cs_results :: nat
  cs_warning :: str

definition compact_tool_observations :: "context_world \<Rightarrow> bool \<Rightarrow> json list \<Rightarrow> json list \<times> compaction_stats" where
  "compact_tool_observations w oversized ms =
     (let before = message_chars w ms;
          st = \<lparr>cs_before = before, cs_after = before, cs_results = 0, cs_warning = []\<rparr> in
      if before \<le> COMPACTION_TRIGGER_TOTAL_CHARS then (ms, st)
      else (case tool_relationships ms of
          None \<Rightarrow> (ms, st)
        | Some r \<Rightarrow>
            (case latest_round r of
               None \<Rightarrow> (ms, st)
             | Some l \<Rightarrow>
                 (let big = message_chars w (map (nth ms) (latest_positions r l)) > COMPACTION_TRIGGER_TOTAL_CHARS;
                      st' = (if big then st\<lparr>cs_warning := ''latest_tool_round_exceeds_compaction_budget''\<rparr> else st);
                      hits = obsolete_results ms r l; out = replaced (obsolete_record w) w r hits ms in
                  if big \<and> \<not> oversized then (ms, st')
                  else if hits = [] then (ms, st')
                  else (out, st'\<lparr>cs_after := message_chars w out, cs_results := length hits\<rparr>)))))"

subsection \<open>The second stage\<close>

definition scalar_status :: "json \<Rightarrow> bool" where
  "scalar_status v \<longleftrightarrow> (case v of JBool b \<Rightarrow> True | JInt i \<Rightarrow> True | JFloat (Fin r) \<Rightarrow> True | JStr s \<Rightarrow> True | _ \<Rightarrow> False)"

definition latest_round_compaction_record :: "context_world \<Rightarrow> str \<Rightarrow> str \<Rightarrow> str \<Rightarrow> json" where
  "latest_round_compaction_record w name i content =
     JObj ([(''_compacted'', JBool True), (''tool'', JStr name), (''tool_call_id'', JStr i),
            (''original_byte_count'', JInt (int (length content))), (''sha256'', JStr (cx_sha w content)),
            (''head_excerpt'', JStr (first_chars EXCERPT_CHARS (redact_for_cloud content))),
            (''tail_excerpt'', JStr (last_chars EXCERPT_CHARS (redact_for_cloud content))),
            (''notice'', JStr ''[COMPACTED LATEST-ROUND OBSERVATION: Full raw payload retained only in local JSONL transcript]'')]
           @ status_of_text scalar_status content)"

text \<open>The error, or the messages and how many results were replaced.\<close>

definition compact_latest_complete_tool_round :: "context_world \<Rightarrow> json list \<Rightarrow> str + json list \<times> nat" where
  "compact_latest_complete_tool_round w ms =
     (case tool_relationships ms of
        None \<Rightarrow> Inl ''MALFORMED_TOOL_RELATIONSHIP''
      | Some r \<Rightarrow>
          (case latest_round r of
             None \<Rightarrow> Inl ''NO_COMPLETE_TOOL_ROUND''
           | Some (m, ids) \<Rightarrow>
               (let hits = map (\<lambda>i. (i, the (map_of (rn_results r) i))) ids in
                if list_ex (\<lambda>(i, k). result_text ms k = None) hits then Inl ''MALFORMED_TOOL_RESULT''
                else Inr (replaced (latest_round_compaction_record w) w r hits ms, length ids))))"

subsection \<open>The budget of a phase\<close>

definition CONTEXT_WINDOW_MIN_TOKENS :: nat where
  "CONTEXT_WINDOW_MIN_TOKENS = 8192"

definition CONTEXT_INPUT_CAP_MAX :: int where
  "CONTEXT_INPUT_CAP_MAX = 262144"

definition CONTEXT_COMPLETION_RESERVE :: int where
  "CONTEXT_COMPLETION_RESERVE = 4096"

text \<open>The declared window, the cap of the input, the state, and a code for the log.\<close>

definition context_window_config :: "str option \<Rightarrow> int \<times> int \<times> str \<times> str" where
  "context_window_config raw =
     (case raw of
        None \<Rightarrow> (0, 0, ''disabled_missing'', ''CONTEXT_WINDOW_MISSING'')
      | Some s \<Rightarrow>
          if \<not> (4 \<le> char_count s \<and> char_count s \<le> 10) \<or> \<not> list_all is_digit s \<or> read_nat s < CONTEXT_WINDOW_MIN_TOKENS
          then (0, 0, ''disabled_invalid'', ''CONTEXT_WINDOW_INVALID'')
          else (int (read_nat s), min CONTEXT_INPUT_CAP_MAX (int (read_nat s) - CONTEXT_COMPLETION_RESERVE), ''configured'', []))"

definition MIN_COMPLETION_MAX_TOKENS :: int where
  "MIN_COMPLETION_MAX_TOKENS = 64"

definition MAX_COMPLETION_MAX_TOKENS :: int where
  "MAX_COMPLETION_MAX_TOKENS = 4096"

text \<open>A numeral with more than 4300 digits raises an exception (\<open>None\<close>).\<close>

definition completion_token_limit :: "str option \<Rightarrow> int \<Rightarrow> int option" where
  "completion_token_limit raw d =
     (case raw of
        None \<Rightarrow> Some d
      | Some s \<Rightarrow>
          if s = [] \<or> \<not> list_all is_digit s then Some d
          else if int (length s) > 4300 then None
          else if MIN_COMPLETION_MAX_TOKENS \<le> int (read_nat s) \<and> int (read_nat s) \<le> MAX_COMPLETION_MAX_TOKENS then Some (int (read_nat s))
          else Some d)"

definition usage_token :: "json \<Rightarrow> int" where
  "usage_token v = (case v of JInt i \<Rightarrow> if 0 \<le> i then i else 0 | _ \<Rightarrow> 0)"

text \<open>The last sample is the size of a request and the number of tokens the provider counted for it.\<close>

record context_budget =
  cb_window :: int
  cb_cap :: int
  cb_estimate :: int
  cb_headroom :: int
  cb_state :: str
  cb_defers :: nat
  cb_sample :: "(int \<times> int) option"
  cb_deltas :: "int list"
  cb_prepared :: "int option"

definition fresh_budget :: "str option \<Rightarrow> context_budget" where
  "fresh_budget raw =
     (case context_window_config raw of (window, cap, state, _) \<Rightarrow>
        \<lparr>cb_window = window, cb_cap = cap, cb_estimate = 0, cb_headroom = 0, cb_state = state, cb_defers = 0,
         cb_sample = None, cb_deltas = [], cb_prepared = None\<rparr>)"

definition estimate_input_tokens :: "context_budget \<Rightarrow> int \<Rightarrow> int" where
  "estimate_input_tokens b bytes =
     (case cb_sample b of
        None \<Rightarrow> bytes
      | Some (last_size, last_tokens) \<Rightarrow> min bytes (last_tokens + max 0 (bytes - last_size)))"

definition growth_headroom :: "context_budget \<Rightarrow> int" where
  "growth_headroom b = fold max (cb_deltas b) (min (cb_cap b div 4) 4096)"

definition record_context_usage :: "json \<Rightarrow> context_budget \<Rightarrow> context_budget" where
  "record_context_usage tokens b =
     (if cb_cap b = 0 then b
      else (let b' = b\<lparr>cb_prepared := None\<rparr> in
        case (tokens, cb_prepared b) of
          (JInt n, Some bytes) \<Rightarrow>
            if n < 0 then b'
            else (let deltas = (case cb_sample b of
                    Some (_, last_tokens) \<Rightarrow> if n > last_tokens then cb_deltas b @ [n - last_tokens] else cb_deltas b
                  | None \<Rightarrow> cb_deltas b)
                  in b'\<lparr>cb_deltas := drop (length deltas - 4) deltas, cb_sample := Some (bytes, n)\<rparr>)
        | _ \<Rightarrow> b'))"

subsection \<open>Preparing a request\<close>

text \<open>What is counted of compactions, and the entries of the transcript: role, content, calls.\<close>

record compaction_meter =
  cm_events :: nat
  cm_results :: nat
  cm_saved :: int
  cm_warning :: str

type_synonym transcript_entry = "str \<times> json \<times> json"

definition system_entry :: "context_world \<Rightarrow> (str \<times> json) list \<Rightarrow> transcript_entry" where
  "system_entry w members = (''system'', JStr (packed w (JObj members)), JNull)"

definition compact_messages_for_request ::
    "context_world \<Rightarrow> bool \<Rightarrow> json list \<Rightarrow> compaction_meter \<Rightarrow> json list \<times> nat \<times> compaction_meter \<times> transcript_entry list" where
  "compact_messages_for_request w oversized ms m =
     (case compact_tool_observations w oversized ms of (out, st) \<Rightarrow>
        let m1 = (if cs_warning st \<noteq> [] then m\<lparr>cm_warning := cs_warning st\<rparr> else m) in
        if cs_results st = 0 then (out, 0, m1, [])
        else (out, cs_results st,
          m1\<lparr>cm_events := Suc (cm_events m1), cm_results := cm_results m1 + cs_results st, cm_saved := cm_saved m1 + (cs_before st - cs_after st)\<rparr>,
          [system_entry w [(''event'', JStr ''context_compaction''),
             (''before_chars'', JInt (cs_before st)), (''after_chars'', JInt (cs_after st)),
             (''compacted_tool_results'', JInt (int (cs_results st))), (''warning'', JStr (cs_warning st))]]))"

record prepared =
  pr_messages :: "json list"
  pr_budget :: context_budget
  pr_meter :: compaction_meter
  pr_log :: "transcript_entry list"
  pr_deferred :: bool

definition defer_over_context_cap :: "context_world \<Rightarrow> str \<Rightarrow> str \<Rightarrow> context_budget \<Rightarrow> context_budget \<times> transcript_entry" where
  "defer_over_context_cap w phase diagnostic b =
     (b\<lparr>cb_state := ''deferred_over_cap'', cb_defers := Suc (cb_defers b), cb_prepared := None\<rparr>,
      system_entry w [(''event'', JStr ''context_budget_defer''), (''code'', JStr ''CONTEXT_CAP_EXCEEDED''), (''phase'', JStr phase),
        (''diagnostic'', JStr diagnostic), (''input_estimate_tokens'', JInt (cb_estimate b)),
        (''growth_headroom_tokens'', JInt (cb_headroom b)), (''effective_input_cap_tokens'', JInt (cb_cap b))])"

text \<open>A deferral ends the timeline as \<open>context_cap_exceeded\<close>; the caller does it.\<close>

definition prepare_context_request ::
    "context_world \<Rightarrow> str \<Rightarrow> json list \<Rightarrow> json list option \<Rightarrow> context_budget \<Rightarrow> compaction_meter \<Rightarrow> prepared" where
  "prepare_context_request w phase ms tools b m =
     (case compact_messages_for_request w (cb_cap b \<noteq> 0) ms m of (stage1, n1, m1, log1) \<Rightarrow>
      if cb_cap b = 0 then \<lparr>pr_messages = stage1, pr_budget = b, pr_meter = m1, pr_log = log1, pr_deferred = False\<rparr>
      else
        (let bytes = canonical_prompt_bytes w stage1 tools; headroom = growth_headroom b;
             b1 = b\<lparr>cb_estimate := estimate_input_tokens b bytes, cb_headroom := headroom\<rparr> in
         if cb_estimate b1 + headroom \<le> cb_cap b then
           \<lparr>pr_messages = stage1, pr_budget = b1\<lparr>cb_state := (if n1 \<noteq> 0 then ''stage1_compacted'' else ''within_budget''), cb_prepared := Some bytes\<rparr>,
            pr_meter = m1, pr_log = log1, pr_deferred = False\<rparr>
         else (case compact_latest_complete_tool_round w stage1 of
             Inl why \<Rightarrow> (case defer_over_context_cap w phase why b1 of (b2, entry) \<Rightarrow>
               \<lparr>pr_messages = stage1, pr_budget = b2, pr_meter = m1, pr_log = log1 @ [entry], pr_deferred = True\<rparr>)
           | Inr (stage2, n2) \<Rightarrow>
               (let bytes2 = canonical_prompt_bytes w stage2 tools; saved = max 0 (bytes - bytes2);
                    m2 = m1\<lparr>cm_events := Suc (cm_events m1), cm_results := cm_results m1 + n2, cm_saved := cm_saved m1 + saved\<rparr>;
                    log2 = log1 @ [system_entry w [(''event'', JStr ''context_compaction_stage2''),
                      (''compacted_tool_results'', JInt (int n2)), (''bytes_saved'', JInt saved)]];
                    b2 = b1\<lparr>cb_estimate := estimate_input_tokens b1 bytes2\<rparr> in
                if cb_estimate b2 + headroom > cb_cap b then
                  (case defer_over_context_cap w phase ''STILL_OVER_CAP'' b2 of (b3, entry) \<Rightarrow>
                     \<lparr>pr_messages = stage2, pr_budget = b3, pr_meter = m2, pr_log = log2 @ [entry], pr_deferred = True\<rparr>)
                else \<lparr>pr_messages = stage2, pr_budget = b2\<lparr>cb_state := ''stage2_compacted'', cb_prepared := Some bytes2\<rparr>,
                       pr_meter = m2, pr_log = log2, pr_deferred = False\<rparr>))))"

subsection \<open>What compaction keeps\<close>

text \<open>A message is kept, or it is the result of a tool and has another text.\<close>

definition kept :: "json \<Rightarrow> json \<Rightarrow> bool" where
  "kept m m' \<longleftrightarrow> m' = m \<or> (jget ''role'' m = JStr ''tool'' \<and> (\<exists>s. m' = with_content s m))"

lemma with_content_get: "key \<noteq> ''content'' \<Longrightarrow> jget key (with_content s m) = jget key m"
  by (cases m) (simp_all add: with_content_def update_conv)

lemma with_content_twice: "with_content s (with_content t m) = with_content s m"
  by (cases m) (simp_all add: with_content_def update_last)

lemma kept_refl: "kept m m"
  by (simp add: kept_def)

lemma kept_trans: "kept a b \<Longrightarrow> kept b c \<Longrightarrow> kept a c"
  by (auto simp: kept_def with_content_twice)

lemma kept_get: "kept m m' \<Longrightarrow> key \<noteq> ''content'' \<Longrightarrow> jget key m' = jget key m"
  by (auto simp: kept_def with_content_get)

lemma scan_kept: "list_all2 kept ms ms' \<Longrightarrow> scan_messages k ms' r = scan_messages k ms r"
proof (induction arbitrary: k r rule: list_all2_induct)
  case (Cons m ms m' ms')
  have "scan_message k m' r = scan_message k m r" using kept_get [OF Cons.hyps(1)] by (simp add: scan_message_def)
  with Cons.IH show ?case by (simp split: option.splits)
qed simp

lemma relationships_kept: "list_all2 kept ms ms' \<Longrightarrow> tool_relationships ms' = tool_relationships ms"
  by (simp add: tool_relationships_def scan_kept)

text \<open>What the scan has found up to a position.\<close>

definition placed :: "json list \<Rightarrow> tool_rounds \<Rightarrow> bool" where
  "placed ms r \<longleftrightarrow>
     (\<forall>i k. (i, k) \<in> set (rn_results r) \<longrightarrow> k < length ms \<and> jget ''role'' (ms ! k) = JStr ''tool'' \<and> jget ''tool_call_id'' (ms ! k) = JStr i)
     \<and> (\<forall>k ids. (k, ids) \<in> set (rn_rounds r) \<longrightarrow> k < length ms \<and> jget ''role'' (ms ! k) = JStr ''assistant'' \<and> set ids \<subseteq> fst ` set (rn_names r))"

lemma add_calls_extends: "add_calls cs names = Some names' \<Longrightarrow> \<exists>new. names' = names @ new"
proof (induction cs arbitrary: names)
  case (Cons c cs)
  then obtain i n where "add_calls cs (names @ [(i, n)]) = Some names'" by (auto split: option.splits if_splits prod.splits)
  from Cons.IH [OF this] show ?case by auto
qed simp

lemma placed_later: "placed pre r \<Longrightarrow> placed (pre @ [m]) r"
proof -
  assume p: "placed pre r"
  have at: "(pre @ [m]) ! k = pre ! k" "k < length (pre @ [m])" if "k < length pre" for k using that by (simp_all add: nth_append)
  show ?thesis unfolding placed_def
  proof (intro conjI allI impI)
    fix i k assume "(i, k) \<in> set (rn_results r)"
    with p have *: "k < length pre" "jget ''role'' (pre ! k) = JStr ''tool''" "jget ''tool_call_id'' (pre ! k) = JStr i" unfolding placed_def by blast+
    then show "k < length (pre @ [m])" "jget ''role'' ((pre @ [m]) ! k) = JStr ''tool''" "jget ''tool_call_id'' ((pre @ [m]) ! k) = JStr i"
      using at by simp_all
  next
    fix k ids assume "(k, ids) \<in> set (rn_rounds r)"
    with p have *: "k < length pre" "jget ''role'' (pre ! k) = JStr ''assistant''" "set ids \<subseteq> fst ` set (rn_names r)" unfolding placed_def by blast+
    then show "k < length (pre @ [m])" "jget ''role'' ((pre @ [m]) ! k) = JStr ''assistant''" "set ids \<subseteq> fst ` set (rn_names r)"
      using at by simp_all
  qed
qed

lemma placed_result:
  "placed (pre @ [m]) r \<Longrightarrow> jget ''role'' m = JStr ''tool'' \<Longrightarrow> jget ''tool_call_id'' m = JStr i \<Longrightarrow>
     placed (pre @ [m]) (r\<lparr>rn_results := rn_results r @ [(i, length pre)]\<rparr>)"
  by (simp add: placed_def)

lemma placed_round:
  "placed (pre @ [m]) r \<Longrightarrow> jget ''role'' m = JStr ''assistant'' \<Longrightarrow>
     placed (pre @ [m]) (r\<lparr>rn_names := rn_names r @ new, rn_rounds := rn_rounds r @ [(length pre, map fst new)]\<rparr>)"
  unfolding placed_def by (simp add: image_Un) blast

lemma scan_placed:
  "scan_messages (length pre) ms r = Some r' \<Longrightarrow> placed pre r \<Longrightarrow> placed (pre @ ms) r'"
proof (induction ms arbitrary: pre r)
  case (Cons m ms)
  then obtain r1 where r1: "scan_message (length pre) m r = Some r1" "scan_messages (length (pre @ [m])) ms r1 = Some r'"
    by (auto split: option.splits)
  have "placed (pre @ [m]) r1"
  proof -
    have old: "placed (pre @ [m]) r" using Cons.prems(2) by (rule placed_later)
    consider cs names where "jget ''role'' m = JStr ''assistant''" "add_calls cs (rn_names r) = Some names"
        "r1 = r\<lparr>rn_names := names, rn_rounds := rn_rounds r @ [(length pre, map fst (drop (length (rn_names r)) names))]\<rparr>"
      | i where "jget ''role'' m = JStr ''tool''" "jget ''tool_call_id'' m = JStr i" "r1 = r\<lparr>rn_results := rn_results r @ [(i, length pre)]\<rparr>"
      | "r1 = r"
    proof (cases "jget ''role'' m = JStr ''assistant'' \<and> truthy (jget ''tool_calls'' m)")
      case True
      with r1(1) obtain cs where "jget ''tool_calls'' m = JArr cs"
        by (cases "jget ''tool_calls'' m") (simp_all add: scan_message_def)
      with True r1(1) that(1) show ?thesis by (auto simp: scan_message_def)
    next
      case False
      show ?thesis
      proof (cases "jget ''role'' m = JStr ''tool''")
        case True
        with r1(1) obtain i where "jget ''tool_call_id'' m = JStr i"
          by (cases "jget ''tool_call_id'' m") (simp_all add: scan_message_def)
        with True r1(1) that(2) show ?thesis by (simp add: scan_message_def split: if_splits)
      next
        case not_tool: False
        have "scan_message (length pre) m r = Some r" unfolding scan_message_def by (simp only: False not_tool if_False)
        with r1(1) that(3) show ?thesis by simp
      qed
    qed
    then show ?thesis
    proof cases
      case 1
      obtain new where "names = rn_names r @ new" using add_calls_extends [OF 1(2)] by blast
      with 1 placed_round [OF old 1(1), of new] show ?thesis by simp
    next
      case 2
      with placed_result [OF old 2(1,2)] show ?thesis by simp
    qed (simp add: old)
  qed
  from Cons.IH [OF r1(2) this] show ?case by simp
qed simp

lemma relationships_placed: "tool_relationships ms = Some r \<Longrightarrow> placed ms r \<and> fst ` set (rn_names r) = fst ` set (rn_results r)"
  using scan_placed [of "[]" ms _ r] by (auto simp: tool_relationships_def placed_def split: option.splits if_splits)

lemma replaced_parts:
  "length (replaced rec w r hits ms) = length ms
   \<and> (\<forall>k < length ms. replaced rec w r hits ms ! k = ms ! k
       \<or> (\<exists>i. (i, k) \<in> set hits \<and> replaced rec w r hits ms ! k = with_content (packed w (rec (the (map_of (rn_names r) i)) i (the (result_text ms k)))) (ms ! k)))"
proof -
  let ?f = "\<lambda>i k. with_content (packed w (rec (the (map_of (rn_names r) i)) i (the (result_text ms k)))) (ms ! k)"
  have "length out = length ms \<Longrightarrow> (\<forall>k < length ms. out ! k = ms ! k \<or> (\<exists>i. (i, k) \<in> set done_hits \<and> out ! k = ?f i k)) \<Longrightarrow>
      (let out' = fold (\<lambda>(i, k) out. out[k := ?f i k]) hits out in
       length out' = length ms \<and> (\<forall>k < length ms. out' ! k = ms ! k \<or> (\<exists>i. (i, k) \<in> set (done_hits @ hits) \<and> out' ! k = ?f i k)))"
    for out done_hits
  proof (induction hits arbitrary: out done_hits)
    case (Cons h hits)
    obtain i k where h: "h = (i, k)" by (cases h)
    have "length (out[k := ?f i k]) = length ms" using Cons.prems by simp
    moreover have "\<forall>j < length ms. out[k := ?f i k] ! j = ms ! j \<or> (\<exists>i'. (i', j) \<in> set (done_hits @ [h]) \<and> out[k := ?f i k] ! j = ?f i' j)"
    proof (intro allI impI)
      fix j assume j: "j < length ms"
      show "out[k := ?f i k] ! j = ms ! j \<or> (\<exists>i'. (i', j) \<in> set (done_hits @ [h]) \<and> out[k := ?f i k] ! j = ?f i' j)"
      proof (cases "j = k")
        case True
        with h j Cons.prems(1) have "(i, j) \<in> set (done_hits @ [h])" "out[k := ?f i k] ! j = ?f i j" by simp_all
        then show ?thesis by blast
      next
        case False
        with Cons.prems(2) j show ?thesis by fastforce
      qed
    qed
    ultimately show ?case using Cons.IH [of "out[k := ?f i k]" "done_hits @ [h]"] h by simp
  qed (simp add: Let_def)
  from this [of ms "[]"] show ?thesis by (simp add: replaced_def Let_def)
qed

lemma replaced_kept:
  assumes "tool_relationships ms = Some r" and "\<And>i k. (i, k) \<in> set hits \<Longrightarrow> (i, k) \<in> set (rn_results r)"
  shows "list_all2 kept ms (replaced rec w r hits ms)"
proof -
  have "kept (ms ! k) (replaced rec w r hits ms ! k)" if k: "k < length ms" for k
  proof (cases "replaced rec w r hits ms ! k = ms ! k")
    case False
    with replaced_parts [of rec w r hits ms] k obtain i s
      where "(i, k) \<in> set hits" "replaced rec w r hits ms ! k = with_content s (ms ! k)" by blast
    with assms(2) relationships_placed [OF assms(1)] show ?thesis by (auto simp: kept_def placed_def)
  qed (simp add: kept_refl)
  with replaced_parts [of rec w r hits ms] show ?thesis by (simp add: list_all2_conv_all_nth)
qed

lemma first_stage_kept: "list_all2 kept ms (fst (compact_tool_observations w oversized ms))"
proof -
  have id: "list_all2 kept ms ms" by (simp add: list_all2_conv_all_nth kept_refl)
  have "list_all2 kept ms (replaced (obsolete_record w) w r (obsolete_results ms r l) ms)" if "tool_relationships ms = Some r" for r l
    using replaced_kept [OF that, of "obsolete_results ms r l"] by (simp add: obsolete_results_def)
  with id show ?thesis by (simp add: compact_tool_observations_def Let_def split: option.splits)
qed

lemma second_stage_kept:
  assumes "compact_latest_complete_tool_round w ms = Inr (out, n)"
  shows "list_all2 kept ms out"
proof -
  obtain r m ids where r: "tool_relationships ms = Some r" "latest_round r = Some (m, ids)"
      "out = replaced (latest_round_compaction_record w) w r (map (\<lambda>i. (i, the (map_of (rn_results r) i))) ids) ms"
    using assms by (auto simp: compact_latest_complete_tool_round_def Let_def split: option.splits if_splits)
  have "(m, ids) \<in> set (rn_rounds r)" using r(2) by (metis latest_round_def last_in_set option.distinct(1) option.inject)
  with relationships_placed [OF r(1)] have "set ids \<subseteq> fst ` set (rn_results r)" unfolding placed_def by blast
  then have "(i, the (map_of (rn_results r) i)) \<in> set (rn_results r)" if "i \<in> set ids" for i
    using that by (metis map_of_SomeD map_of_eq_None_iff option.exhaust_sel subsetD)
  then show ?thesis unfolding r(3) by (intro replaced_kept [OF r(1)]) auto
qed

text \<open>In the first stage the latest round stays as it is.\<close>

lemma latest_round_stays:
  assumes r: "tool_relationships ms = Some r" and l: "latest_round r = Some l" and k: "k \<in> set (latest_positions r l)"
  shows "fst (compact_tool_observations w oversized ms) ! k = ms ! k"
proof -
  have p: "placed ms r" "fst ` set (rn_names r) = fst ` set (rn_results r)" using relationships_placed [OF r] by simp_all
  have m: "(fst l, snd l) \<in> set (rn_rounds r)" using l by (auto simp: latest_round_def split: if_splits)
  with p have head: "fst l < length ms" "jget ''role'' (ms ! fst l) = JStr ''assistant''" "set (snd l) \<subseteq> fst ` set (rn_results r)"
    unfolding placed_def by blast+
  have free: "(i, k) \<notin> set (obsolete_results ms r l)" for i
  proof
    assume "(i, k) \<in> set (obsolete_results ms r l)"
    then have hit: "(i, k) \<in> set (rn_results r)" "i \<notin> set (snd l)" by (simp_all add: obsolete_results_def)
    with p have role: "jget ''role'' (ms ! k) = JStr ''tool''" "jget ''tool_call_id'' (ms ! k) = JStr i" unfolding placed_def by blast+
    from k consider "k = fst l" | j where "j \<in> set (snd l)" "k = the (map_of (rn_results r) j)" by (auto simp: latest_positions_def)
    then show False
    proof cases
      case 1
      with head role show False by simp
    next
      case 2
      then have "(j, k) \<in> set (rn_results r)" using head(3) by (metis map_of_SomeD map_of_eq_None_iff option.exhaust_sel subsetD)
      with p have "jget ''tool_call_id'' (ms ! k) = JStr j" unfolding placed_def by blast
      with role 2 hit show False by simp
    qed
  qed
  have "k < length ms"
  proof -
    from k consider "k = fst l" | j where "j \<in> set (snd l)" "k = the (map_of (rn_results r) j)" by (auto simp: latest_positions_def)
    then show ?thesis
    proof cases
      case 2
      then have "(j, k) \<in> set (rn_results r)" using head(3) by (metis map_of_SomeD map_of_eq_None_iff option.exhaust_sel subsetD)
      with p show ?thesis unfolding placed_def by blast
    qed (use head in simp)
  qed
  with free replaced_parts [of "obsolete_record w" w r "obsolete_results ms r l" ms]
  have "replaced (obsolete_record w) w r (obsolete_results ms r l) ms ! k = ms ! k" by blast
  then show ?thesis using r l by (simp add: compact_tool_observations_def Let_def)
qed

lemma stage_result: "fst (compact_messages_for_request w oversized ms m) = fst (compact_tool_observations w oversized ms)"
  by (simp add: compact_messages_for_request_def Let_def split: prod.splits)

lemma prepared_messages:
  assumes stage1: "stage1 = fst (compact_tool_observations w (cb_cap b \<noteq> 0) ms)"
  shows "pr_messages (prepare_context_request w phase ms tools b m) = stage1
    \<or> (cb_cap b \<noteq> 0 \<and> estimate_input_tokens b (canonical_prompt_bytes w stage1 tools) + growth_headroom b > cb_cap b
        \<and> (\<exists>n. compact_latest_complete_tool_round w stage1 = Inr (pr_messages (prepare_context_request w phase ms tools b m), n)))"
proof -
  obtain s n1 m1 log1 where c: "compact_messages_for_request w (cb_cap b \<noteq> 0) ms m = (s, n1, m1, log1)" by (metis prod_cases4)
  with stage_result [of w "cb_cap b \<noteq> 0" ms m] have s: "s = stage1" by (simp add: stage1)
  show ?thesis unfolding prepare_context_request_def c s
    by (simp add: Let_def defer_over_context_cap_def estimate_input_tokens_def split: sum.splits prod.splits)
qed

text \<open>
  C17: Compaction keeps the evidence in shape.  Whatever the context of a request is cut down to,
  every message is still there in its place; only texts of tool results are replaced, calls and
  results are related as before, and unless the budget is exceeded after the first stage the
  latest round of calls and results is untouched.
\<close>

theorem compaction_keeps_the_round:
  assumes "p = prepare_context_request w phase ms tools b m"
  shows "list_all2 kept ms (pr_messages p) \<and> tool_relationships (pr_messages p) = tool_relationships ms
    \<and> (\<forall>r l k. tool_relationships ms = Some r \<longrightarrow> latest_round r = Some l \<longrightarrow> k \<in> set (latest_positions r l) \<longrightarrow>
         pr_messages p ! k = ms ! k
         \<or> (cb_cap b \<noteq> 0 \<and> estimate_input_tokens b (canonical_prompt_bytes w (fst (compact_tool_observations w True ms)) tools) + growth_headroom b > cb_cap b))"
proof -
  have 1: "list_all2 kept ms (fst (compact_tool_observations w (cb_cap b \<noteq> 0) ms))" by (rule first_stage_kept)
  from prepared_messages [OF refl, of w phase ms tools b m] have kept: "list_all2 kept ms (pr_messages p)"
    unfolding assms using 1 second_stage_kept list_all2_trans [of kept kept kept] kept_trans by metis
  show ?thesis
  proof (intro conjI allI impI)
    fix r l k
    assume "tool_relationships ms = Some r" "latest_round r = Some l" "k \<in> set (latest_positions r l)"
    from latest_round_stays [OF this] prepared_messages [OF refl, of w phase ms tools b m]
    show "pr_messages p ! k = ms ! k \<or> (cb_cap b \<noteq> 0
        \<and> estimate_input_tokens b (canonical_prompt_bytes w (fst (compact_tool_observations w True ms)) tools) + growth_headroom b > cb_cap b)"
      unfolding assms by (cases "cb_cap b = 0") auto
  qed (use kept relationships_kept in blast)+
qed

text \<open>A conversation of two rounds, the first one with a long result.\<close>

definition long_text :: str where
  "long_text = replicate 13000 (CHR ''x'')"

definition tool_message :: "str \<Rightarrow> str \<Rightarrow> json" where
  "tool_message i s = JObj [(''role'', JStr ''tool''), (''tool_call_id'', JStr i), (''content'', JStr s)]"

definition call_message :: "str \<Rightarrow> json" where
  "call_message i = JObj [(''role'', JStr ''assistant''),
     (''tool_calls'', JArr [JObj [(''id'', JStr i), (''function'', JObj [(''name'', JStr ''grep_search'')])]])]"

definition rounds_demo :: "json list" where
  "rounds_demo = [call_message ''a'', tool_message ''a'' long_text, call_message ''b'', tool_message ''b'' ''ok'']"

definition context_demo :: context_world where
  "context_demo = \<lparr>cx_float = (\<lambda>_. ''0''), cx_text = (\<lambda>_. []), cx_sha = (\<lambda>_. ''00'')\<rparr>"

definition meter_demo :: compaction_meter where
  "meter_demo = \<lparr>cm_events = 0, cm_results = 0, cm_saved = 0, cm_warning = []\<rparr>"

lemma rounds_demo_relationships:
  "tool_relationships rounds_demo = Some \<lparr>rn_names = [(''a'', ''grep_search''), (''b'', ''grep_search'')], rn_results = [(''a'', 1), (''b'', 3)],
     rn_rounds = [(0, [''a'']), (2, [''b''])]\<rparr>"
  by (simp add: tool_relationships_def rounds_demo_def scan_message_def call_message_def tool_message_def call_of_def insert_commute)

lemma packed_obj: "\<exists>t. packed w (JObj members) = CHR ''{'' # t"
  by (simp add: packed_def)

lemma rounds_demo_shrinks:
  "pr_messages (prepare_context_request context_demo ''inspector'' rounds_demo None (fresh_budget None) meter_demo) ! 1 \<noteq> rounds_demo ! 1"
proof -
  let ?r = "\<lparr>rn_names = [(''a'', ''grep_search''), (''b'', ''grep_search'')], rn_results = [(''a'', 1), (''b'', 3)],
     rn_rounds = [(0, [''a'']), (2, [''b''])]\<rparr>"
  have long: "char_count long_text = 13000" "long_text \<noteq> []" "hd long_text = CHR ''x''"
    by (simp_all add: char_count_def long_text_def begins_char_def)
  have chars: "message_chars context_demo rounds_demo > COMPACTION_TRIGGER_TOTAL_CHARS"
      "\<not> message_chars context_demo (map (nth rounds_demo) (latest_positions ?r (2, [''b'']))) > COMPACTION_TRIGGER_TOTAL_CHARS"
    by (simp_all add: message_chars_def rounds_demo_def call_message_def tool_message_def value_chars_def long context_demo_def char_count_def [of "[]"]
        char_count_def [of "''ok''"] begins_char_def COMPACTION_TRIGGER_TOTAL_CHARS_def latest_positions_def)
  have hits: "obsolete_results rounds_demo ?r (2, [''b'']) = [(''a'', 1)]"
    by (simp add: obsolete_results_def result_text_def rounds_demo_def tool_message_def call_message_def long COMPACTION_TOOL_RESULT_THRESHOLD_def)
  let ?t = "packed context_demo (obsolete_record context_demo ''grep_search'' ''a'' long_text)"
  have shown: "result_text rounds_demo (Suc 0) = Some long_text" "length rounds_demo = 4"
    by (simp_all add: result_text_def rounds_demo_def tool_message_def call_message_def)
  have last: "latest_round ?r = Some (2, [''b''])" by (simp add: latest_round_def)
  have rec: "replaced (obsolete_record context_demo) context_demo ?r [(''a'', 1)] rounds_demo = rounds_demo[1 := with_content ?t (rounds_demo ! 1)]"
    using shown by (simp add: replaced_def)
  have small: "message_chars context_demo rounds_demo \<le> COMPACTION_TRIGGER_TOTAL_CHARS \<longleftrightarrow> False"
    unfolding not_less [symmetric] using chars(1) by (simp only: not_True_eq_False)
  have "fst (compact_tool_observations context_demo False rounds_demo) = rounds_demo[1 := with_content ?t (rounds_demo ! 1)]"
    unfolding compact_tool_observations_def Let_def rounds_demo_relationships option.case last hits rec
    by (simp only: chars small if_False simp_thms list.distinct fst_conv)
  then have "fst (compact_tool_observations context_demo False rounds_demo) ! 1 = with_content ?t (rounds_demo ! 1)" using shown by simp
  moreover have "pr_messages (prepare_context_request context_demo ''inspector'' rounds_demo None (fresh_budget None) meter_demo)
      = fst (compact_tool_observations context_demo False rounds_demo)"
    using prepared_messages [OF refl, where w = context_demo and phase = "''inspector''" and ms = rounds_demo and tools = None
        and b = "fresh_budget None" and m = meter_demo] by (simp add: fresh_budget_def context_window_config_def)
  moreover obtain t where "?t = CHR ''{'' # t" unfolding obsolete_record_def using packed_obj by blast
  then have head: "hd ?t = CHR ''{''" by simp
  have "?t \<noteq> long_text"
  proof
    assume "?t = long_text"
    with head long(3) have "CHR ''{'' = CHR ''x''" by metis
    then show False by simp
  qed
  then have "with_content ?t (rounds_demo ! 1) \<noteq> rounds_demo ! 1"
    by (simp add: rounds_demo_def tool_message_def with_content_def)
  ultimately show ?thesis by simp
qed

theorem compaction_keeps_the_round_witness:
  "pr_messages (prepare_context_request context_demo ''inspector'' rounds_demo None (fresh_budget None) meter_demo) ! 3 = rounds_demo ! 3"
proof -
  have "latest_round \<lparr>rn_names = [(''a'', ''grep_search''), (''b'', ''grep_search'')], rn_results = [(''a'', 1), (''b'', 3)],
     rn_rounds = [(0, [''a'']), (2, [''b''])]\<rparr> = Some (2, [''b''])" by (simp add: latest_round_def)
  moreover have "3 \<in> set (latest_positions \<lparr>rn_names = [(''a'', ''grep_search''), (''b'', ''grep_search'')], rn_results = [(''a'', 1), (''b'', 3)],
     rn_rounds = [(0, [''a'']), (2, [''b''])]\<rparr> (2, [''b'']))" by (simp add: latest_positions_def)
  moreover have "cb_cap (fresh_budget None) = 0" by (simp add: fresh_budget_def context_window_config_def)
  ultimately show ?thesis
    using compaction_keeps_the_round [where w = context_demo and phase = "''inspector''" and ms = rounds_demo and tools = None
        and b = "fresh_budget None" and m = meter_demo, OF refl] rounds_demo_relationships
    by blast
qed

subsection \<open>What fits the budget\<close>

text \<open>The budgets of a run: requests are prepared, and the usage of answers is recorded.\<close>

inductive budget_run :: "context_world \<Rightarrow> context_budget \<Rightarrow> bool" for w where
  Fresh: "budget_run w (fresh_budget raw)"
| Prepared: "budget_run w b \<Longrightarrow> budget_run w (pr_budget (prepare_context_request w phase ms tools b m))"
| Used: "budget_run w b \<Longrightarrow> budget_run w (record_context_usage tokens b)"

definition sound_budget :: "context_budget \<Rightarrow> bool" where
  "sound_budget b \<longleftrightarrow> (cb_cap b = 0 \<or> (CONTEXT_COMPLETION_RESERVE \<le> cb_cap b \<and> cb_cap b \<le> CONTEXT_INPUT_CAP_MAX
      \<and> cb_cap b + CONTEXT_COMPLETION_RESERVE \<le> cb_window b))
    \<and> (\<forall>d \<in> set (cb_deltas b). 0 < d) \<and> length (cb_deltas b) \<le> 4
    \<and> (case cb_sample b of None \<Rightarrow> True | Some (n, t) \<Rightarrow> 0 \<le> t)"

lemma fresh_sound_budget: "sound_budget (fresh_budget raw)"
  by (auto simp: sound_budget_def fresh_budget_def context_window_config_def CONTEXT_WINDOW_MIN_TOKENS_def CONTEXT_INPUT_CAP_MAX_def
      CONTEXT_COMPLETION_RESERVE_def split: option.splits if_splits)

lemma prepared_budget:
  "cb_cap (pr_budget (prepare_context_request w phase ms tools b m)) = cb_cap b
   \<and> cb_window (pr_budget (prepare_context_request w phase ms tools b m)) = cb_window b
   \<and> cb_deltas (pr_budget (prepare_context_request w phase ms tools b m)) = cb_deltas b
   \<and> cb_sample (pr_budget (prepare_context_request w phase ms tools b m)) = cb_sample b"
  by (simp add: prepare_context_request_def defer_over_context_cap_def Let_def split: prod.splits sum.splits)

lemma used_sound: "sound_budget b \<Longrightarrow> sound_budget (record_context_usage tokens b)"
proof -
  assume b: "sound_budget b"
  consider "record_context_usage tokens b = b" | "record_context_usage tokens b = b\<lparr>cb_prepared := None\<rparr>"
    | n bytes ds where "0 \<le> n" "\<forall>d \<in> set ds. 0 < d"
        "record_context_usage tokens b = b\<lparr>cb_prepared := None, cb_deltas := drop (length ds - 4) ds, cb_sample := Some (bytes, n)\<rparr>"
  proof (cases "cb_cap b = 0")
    case False
    show ?thesis
    proof (cases tokens)
      case (JInt n)
      show ?thesis
      proof (cases "cb_prepared b")
        case (Some bytes)
        let ?ds = "case cb_sample b of Some (_, t) \<Rightarrow> if n > t then cb_deltas b @ [n - t] else cb_deltas b | None \<Rightarrow> cb_deltas b"
        have "\<forall>d \<in> set ?ds. 0 < d" using b by (auto simp: sound_budget_def split: option.splits prod.splits)
        with False JInt Some that(2) that(3) [of n ?ds bytes] show ?thesis
          by (cases "n < 0") (simp_all add: record_context_usage_def Let_def)
      qed (use False JInt that(2) in \<open>simp add: record_context_usage_def Let_def\<close>)
    qed (use False that(2) in \<open>simp_all add: record_context_usage_def Let_def\<close>)
  qed (use that(1) in \<open>simp add: record_context_usage_def\<close>)
  then show ?thesis
  proof cases
    case 3
    have "\<forall>d \<in> set (drop (length ds - 4) ds). 0 < d" using 3(2) by (meson in_set_dropD)
    with 3 b show ?thesis by (simp add: sound_budget_def)
  qed (use b in \<open>simp_all add: sound_budget_def\<close>)
qed

lemma budget_run_sound: "budget_run w b \<Longrightarrow> sound_budget b"
proof (induction rule: budget_run.induct)
  case (Prepared b phase ms tools m)
  with prepared_budget [of w phase ms tools b m] show ?case by (simp add: sound_budget_def)
qed (simp_all add: fresh_sound_budget used_sound)

lemma fold_max: "(x :: int) \<le> fold max ds x \<and> (\<forall>d \<in> set ds. d \<le> fold max ds x)"
proof (induction ds arbitrary: x)
  case (Cons d ds)
  from Cons.IH [of "max d x"] show ?case by simp
qed simp


lemma json_escape_length: "length (json_escape c) \<le> 6"
  by (simp add: json_escape_def)

lemma json_str_length: "length (json_str s) \<le> 6 * length s + 2"
proof -
  have "length (concat (map json_escape s)) \<le> 6 * length s"
    by (induction s) (use json_escape_length in \<open>auto intro: add_mono\<close>)
  then show ?thesis by (simp add: json_str_def)
qed

definition hello_demo :: "json list" where
  "hello_demo = [JObj [(''role'', JStr ''user''), (''content'', JStr ''hello'')]]"

lemma hello_is_sent:
  "cb_cap (fresh_budget (Some ''8192'')) = 4096"
  "pr_deferred (prepare_context_request context_demo ''inspector'' hello_demo None (fresh_budget (Some ''8192'')) meter_demo) = False"
proof -
  let ?b = "fresh_budget (Some ''8192'')"
  have b: "?b = \<lparr>cb_window = 8192, cb_cap = 4096, cb_estimate = 0, cb_headroom = 0, cb_state = ''configured'', cb_defers = 0,
      cb_sample = None, cb_deltas = [], cb_prepared = None\<rparr>"
    by (simp add: fresh_budget_def context_window_config_def char_count_def begins_char_def is_digit_def read_nat_def digit_val_def
        CONTEXT_WINDOW_MIN_TOKENS_def CONTEXT_INPUT_CAP_MAX_def CONTEXT_COMPLETION_RESERVE_def)
  then show cap: "cb_cap ?b = 4096" by simp
  have "message_chars context_demo hello_demo \<le> COMPACTION_TRIGGER_TOTAL_CHARS"
    by (simp add: message_chars_def hello_demo_def value_chars_def char_count_def begins_char_def COMPACTION_TRIGGER_TOTAL_CHARS_def)
  then have one: "compact_messages_for_request context_demo True hello_demo meter_demo = (hello_demo, 0, meter_demo, [])"
    by (simp add: compact_messages_for_request_def compact_tool_observations_def Let_def)
  have fits: "estimate_input_tokens ?b (canonical_prompt_bytes context_demo hello_demo None) + growth_headroom ?b \<le> 4096"
  proof -
    have "growth_headroom ?b = 1024" "cb_sample ?b = None" unfolding b by (simp_all add: growth_headroom_def)
    moreover have "canonical_prompt_bytes context_demo hello_demo None \<le> 3072"
    proof -
      have "packed context_demo (JObj [(''messages'', JArr hello_demo)])
          = CHR ''{'' # json_str ''messages'' @ '':[{'' @ json_str ''content'' @ '':'' @ json_str ''hello'' @ '','' @ json_str ''role'' @ '':'' @ json_str ''user'' @ ''}]}''"
        by (simp add: packed_def hello_demo_def context_demo_def)
      then show ?thesis
        using json_str_length [of "''messages''"] json_str_length [of "''content''"] json_str_length [of "''hello''"]
          json_str_length [of "''role''"] json_str_length [of "''user''"]
        by (simp add: canonical_prompt_bytes_def)
    qed
    ultimately show ?thesis by (simp add: estimate_input_tokens_def)
  qed
  show "pr_deferred (prepare_context_request context_demo ''inspector'' hello_demo None ?b meter_demo) = False"
    unfolding prepare_context_request_def using one cap fits by (simp add: Let_def)
qed


end
