(* ===== verification/AgentPrompts.thy ===== *)
theory AgentPrompts
  imports ContextBudget
begin

text \<open>
  The texts of the conversation with the model (\<open>scripts/tools/schengen_agent_llm.py\<close>): the
  tools that are offered, the instructions, the block with the escalation under review, the line
  that announces a call, and the cleaning of an answer.  Characters outside ASCII are their UTF-8
  bytes.
\<close>

subsection \<open>The tools on offer\<close>

definition TOOL_investigate_pane_history :: json where
  "TOOL_investigate_pane_history =
     JObj [(''type'', JStr ''function''),
       (''function'', JObj [(''name'', JStr ''investigate_pane_history''),
           (''description'', JStr (''Inspect terminal text or full script dump of the target worker pane (especially for AGY multi-line scripts) to'' @
               '' verify developer intent before adjudication.'')),
           (''parameters'', JObj [(''type'', JStr ''object''),
               (''properties'', JObj [(''pane_id'', JObj [(''type'', JStr ''string''),
                       (''description'', JStr (''Target pane ID (e.g. '' @ [squote] @ ''w1D:p1'' @ [squote] @ '').''))]),
                   (''lines'', JObj [(''type'', JStr ''integer''),
                       (''description'', JStr ''Number of recent lines to read (default: 100).''),
                       (''default'', JInt 100)]),
                   (''full_dump'', JObj [(''type'', JStr ''boolean''),
                       (''description'', JStr ''If true, read complete scrollback script buffer (ctrl+g dump) for AGY panes.''),
                       (''default'', JBool False)])]),
               (''required'', JArr [JStr ''pane_id''])])])]"

definition TOOL_investigate_path_details :: json where
  "TOOL_investigate_path_details =
     JObj [(''type'', JStr ''function''),
       (''function'', JObj [(''name'', JStr ''investigate_path_details''),
           (''description'', JStr ''Inspect target filesystem state (existence, directory/file type, size, Git status, sibling backup files).''),
           (''parameters'', JObj [(''type'', JStr ''object''),
               (''properties'', JObj [(''target_path'', JObj [(''type'', JStr ''string''),
                       (''description'', JStr ''Filesystem path to inspect.'')])]),
               (''required'', JArr [JStr ''target_path''])])])]"

definition TOOL_read_file_snippet :: json where
  "TOOL_read_file_snippet =
     JObj [(''type'', JStr ''function''),
       (''function'', JObj [(''name'', JStr ''read_file_snippet''),
           (''description'', JStr ''Safely read up to 8KB of a file or script to inspect its payload before approval.''),
           (''parameters'', JObj [(''type'', JStr ''object''),
               (''properties'', JObj [(''target_path'', JObj [(''type'', JStr ''string''),
                       (''description'', JStr ''Path of the file to inspect.'')])]),
               (''required'', JArr [JStr ''target_path''])])])]"

definition TOOL_grep_search :: json where
  "TOOL_grep_search =
     JObj [(''type'', JStr ''function''),
       (''function'', JObj [(''name'', JStr ''grep_search''),
           (''description'', JStr (''Search the active escalation'' @ [squote] @ ''s Git worktree with a bounded regular expression to verify one specific named red flag.'')),
           (''parameters'', JObj [(''type'', JStr ''object''),
               (''properties'', JObj [(''query'', JObj [(''type'', JStr ''string''),
                       (''description'', JStr ''Regular expression to search for.''),
                       (''minLength'', JInt 1),
                       (''maxLength'', JInt 512)]),
                   (''relative_path'', JObj [(''type'', JStr ''string''),
                       (''description'', JStr ''Optional path relative to the active Git worktree root.''),
                       (''default'', JStr ''.''),
                       (''maxLength'', JInt 1024)]),
                   (''case_sensitive'', JObj [(''type'', JStr ''boolean''),
                       (''description'', JStr ''Use case-sensitive matching (default: false).''),
                       (''default'', JBool False)]),
                   (''max_results'', JObj [(''type'', JStr ''integer''),
                       (''description'', JStr ''Maximum total match lines to return (default: 20, max: 50).''),
                       (''default'', JInt 20),
                       (''minimum'', JInt 1),
                       (''maximum'', JInt 50)])]),
               (''required'', JArr [JStr ''query''])])])]"

definition TOOL_view_file_slice :: json where
  "TOOL_view_file_slice =
     JObj [(''type'', JStr ''function''),
       (''function'', JObj [(''name'', JStr ''view_file_slice''),
           (''description'', JStr (''Read a bounded, numbered text slice from a specific grep_search hit in the active escalation'' @ [squote] @ ''s Git worktree.'')),
           (''parameters'', JObj [(''type'', JStr ''object''),
               (''properties'', JObj [(''relative_path'', JObj [(''type'', JStr ''string''),
                       (''description'', JStr ''File path relative to the active Git worktree root.''),
                       (''maxLength'', JInt 1024)]),
                   (''start_line'', JObj [(''type'', JStr ''integer''),
                       (''description'', JStr ''First line to read, 1-based and inclusive (default: 1).''),
                       (''default'', JInt 1),
                       (''minimum'', JInt 1),
                       (''maximum'', JInt 1000000)]),
                   (''end_line'', JObj [(''type'', JStr ''integer''),
                       (''description'', JStr ''Last line to read, 1-based and inclusive (default: 100; at most 100 lines).''),
                       (''default'', JInt 100),
                       (''minimum'', JInt 1),
                       (''maximum'', JInt 1000000)])]),
               (''required'', JArr [JStr ''relative_path''])])])]"

definition TOOL_find_by_name :: json where
  "TOOL_find_by_name =
     JObj [(''type'', JStr ''function''),
       (''function'', JObj [(''name'', JStr ''find_by_name''),
           (''description'', JStr (''Find one exact basename in a bounded portion of the active escalation'' @ [squote] @ ''s Git worktree without following symlinks.'')),
           (''parameters'', JObj [(''type'', JStr ''object''),
               (''properties'', JObj [(''name'', JObj [(''type'', JStr ''string''),
                       (''description'', JStr ''Exact case-sensitive basename to find; glob and regular-expression matching are unsupported.''),
                       (''minLength'', JInt 1),
                       (''maxLength'', JInt 255)]),
                   (''relative_path'', JObj [(''type'', JStr ''string''),
                       (''description'', JStr ''Optional directory relative to the active Git worktree root.''),
                       (''default'', JStr ''.''),
                       (''maxLength'', JInt 1024)]),
                   (''entry_type'', JObj [(''type'', JStr ''string''),
                       (''description'', JStr ''Restrict matches to files or directories (default: any).''),
                       (''enum'', JArr [JStr ''any'', JStr ''file'', JStr ''directory'']),
                       (''default'', JStr ''any'')])]),
               (''required'', JArr [JStr ''name'']),
               (''additionalProperties'', JBool False)])])]"

definition TOOL_git_diff_stat :: json where
  "TOOL_git_diff_stat =
     JObj [(''type'', JStr ''function''),
       (''function'', JObj [(''name'', JStr ''git_diff_stat''),
           (''description'', JStr (''Summarize changed-file counts and line totals for the active escalation'' @ [squote] @ ''s Git worktree without returning diff content.'')),
           (''parameters'', JObj [(''type'', JStr ''object''),
               (''properties'', JObj []),
               (''required'', JArr []),
               (''additionalProperties'', JBool False)])])]"

definition TOOL_approve_escalation :: json where
  "TOOL_approve_escalation =
     JObj [(''type'', JStr ''function''),
       (''function'', JObj [(''name'', JStr ''approve_escalation''),
           (''description'', JStr (''Approve the escalation and send approval keystrokes (Tab Amend + Enter for AGY) along with an English Security'' @ '' Gatekeeper note.'')),
           (''parameters'', JObj [(''type'', JStr ''object''),
               (''properties'', JObj [(''escalation_id'', JObj [(''type'', JStr ''integer''),
                       (''description'', JStr ''Escalation ID to approve.'')]),
                   (''english_feedback'', JObj [(''type'', JStr ''string''),
                       (''description'', JStr (''Concise, professional English security note for the worker agent (e.g. '' @ [squote] @
                           ''Approved. Target does not exist (0B). Avoid habituated -rf flags.'' @ [squote] @ '').''))]),
                   (''directive'', JObj [(''type'', JStr ''boolean''),
                       (''description'', JStr (''true when executing an explicit human directive (/approve, /reject, or free-text). Records approver='' @ [squote] @ ''human-tui'' @
                           [squote] @ ''. false/omitted for autonomous obvious-safe approve or autonomous critical reject (approver='' @ [squote] @ ''gatekeeper'' @
                           [squote] @ '').'')),
                       (''default'', JBool False)])]),
               (''required'', JArr [JStr ''escalation_id'', JStr ''english_feedback''])])])]"

definition TOOL_reject_escalation :: json where
  "TOOL_reject_escalation =
     JObj [(''type'', JStr ''function''),
       (''function'', JObj [(''name'', JStr ''reject_escalation''),
           (''description'', JStr (''Reject the escalation and send '' @ [squote] @ ''escape'' @ [squote] @ '' key to target pane along with an English rejection reason.'')),
           (''parameters'', JObj [(''type'', JStr ''object''),
               (''properties'', JObj [(''escalation_id'', JObj [(''type'', JStr ''integer''),
                       (''description'', JStr ''Escalation ID to reject.'')]),
                   (''english_feedback'', JObj [(''type'', JStr ''string''),
                       (''description'', JStr ''Concise, professional English guidance explaining why the command was rejected and suggesting alternatives.'')]),
                   (''directive'', JObj [(''type'', JStr ''boolean''),
                       (''description'', JStr (''true when executing an explicit human directive (/approve, /reject, or free-text). Records approver='' @ [squote] @ ''human-tui'' @
                           [squote] @ ''. false/omitted for autonomous obvious-safe approve or autonomous critical reject (approver='' @ [squote] @ ''gatekeeper'' @
                           [squote] @ '').'')),
                       (''default'', JBool False)])]),
               (''required'', JArr [JStr ''escalation_id'', JStr ''english_feedback''])])])]"

definition TOOL_create_feature_request :: json where
  "TOOL_create_feature_request =
     JObj [(''type'', JStr ''function''),
       (''function'', JObj [(''name'', JStr ''create_feature_request''),
           (''description'', JStr (''Record a user feature request, enhancement proposal, or self-improvement task into the independent SQLite back'' @ ''log queue.'')),
           (''parameters'', JObj [(''type'', JStr ''object''),
               (''properties'', JObj [(''title'', JObj [(''type'', JStr ''string''),
                       (''description'', JStr ''Concise title of the requested feature or improvement.'')]),
                   (''description'', JObj [(''type'', JStr ''string''),
                       (''description'', JStr ''Detailed explanation, rationale, user context, or acceptance criteria.'')]),
                   (''priority'', JObj [(''type'', JStr ''string''),
                       (''enum'', JArr [JStr ''LOW'', JStr ''NORMAL'', JStr ''HIGH'', JStr ''CRITICAL'']),
                       (''description'', JStr ''Priority level of the feature request (default: NORMAL).'')]),
                   (''category'', JObj [(''type'', JStr ''string''),
                       (''description'', JStr ''Category tag (e.g. UI, SECURITY, LLM, WORKFLOW).'')])]),
               (''required'', JArr [JStr ''title''])])])]"

definition TOOL_search_feature_requests :: json where
  "TOOL_search_feature_requests =
     JObj [(''type'', JStr ''function''),
       (''function'', JObj [(''name'', JStr ''search_feature_requests''),
           (''description'', JStr (''Search existing feature requests using FTS5 CJK trigram similarity search to check for duplicates or related i'' @ ''mprovement ideas.'')),
           (''parameters'', JObj [(''type'', JStr ''object''),
               (''properties'', JObj [(''query'', JObj [(''type'', JStr ''string''),
                       (''description'', JStr ''Search query or keywords.'')]),
                   (''limit'', JObj [(''type'', JStr ''integer''),
                       (''description'', JStr ''Max results to return (default: 5).'')])]),
               (''required'', JArr [JStr ''query''])])])]"

definition GUARD_TOOLS :: "json list" where
  "GUARD_TOOLS =
     [TOOL_investigate_pane_history, TOOL_investigate_path_details, TOOL_read_file_snippet, TOOL_grep_search,
      TOOL_view_file_slice, TOOL_find_by_name, TOOL_git_diff_stat, TOOL_approve_escalation,
      TOOL_reject_escalation, TOOL_create_feature_request, TOOL_search_feature_requests]"

subsection \<open>Instructions\<close>

definition ANSWER_LANGUAGE_MAP :: "(str \<times> str) list" where
  "ANSWER_LANGUAGE_MAP =
     [(''english'', ''concise professional English''),
      (''korean'', [CHR 0xEA, CHR 0xB0, CHR 0x84, CHR 0xEA, CHR 0xB2, CHR 0xB0, CHR 0xED, CHR 0x95, CHR 0x98, CHR 0xEA, CHR 0xB3, CHR 0xA0] @ '' '' @
        [CHR 0xEA, CHR 0xB1, CHR 0xB4, CHR 0xEC, CHR 0xA1, CHR 0xB0, CHR 0xED, CHR 0x95, CHR 0x9C] @ '' '' @
        [CHR 0xED, CHR 0x95, CHR 0x9C, CHR 0xEA, CHR 0xB5, CHR 0xAD, CHR 0xEC, CHR 0x96, CHR 0xB4] @ '' (dry Korean)''),
      (''japanese'', [CHR 0xE7, CHR 0xB0, CHR 0xA1, CHR 0xE6, CHR 0xBD, CHR 0x94, CHR 0xE3, CHR 0x81, CHR 0xA7, CHR 0xE6, CHR 0xB7, CHR 0xA1, CHR 0xE3, CHR 0x80, CHR 0x85, CHR 0xE3, CHR 0x81, CHR 0xA8, CHR 0xE3, CHR 0x81, CHR 0x97, CHR 0xE3, CHR 0x81, CHR 0x9F, CHR 0xE6, CHR 0x97, CHR 0xA5, CHR 0xE6, CHR 0x9C, CHR 0xAC, CHR 0xE8, CHR 0xAA, CHR 0x9E] @
        '' (dry Japanese)'')]"

definition IDLE_PROMPT :: "str \<Rightarrow> str" where
  "IDLE_PROMPT lang =
     ''You are the autonomous Security Gatekeeper & Inspector Agent for Herdr SmartGate.'' @ [nl] @
     ''There are currently NO active pending escalations.'' @ [nl] @
     ''All previous tasks are finished. If the user asks questions, answer them in '' @ lang @ ''.''"

definition ADVISORY_PROTOCOL :: "str" where
  "ADVISORY_PROTOCOL =
     ''['' @ [CHR 0xF0, CHR 0x9F, CHR 0x94, CHR 0xAC] @ '' ADVISORY SECURITY REVIEW PROTOCOL]:'' @ [nl, nl] @ ''STEP 0 '' @
     [CHR 0xE2, CHR 0x80, CHR 0x94] @ '' RISK BRIEFING (produce this BEFORE any action):'' @ [nl] @
     ''- Decompose the command into risk segments and state your understanding factually. Mark each PRESENT or ABSENT'' @
     '' with its consequence (NONE | EXFIL | DEST | INT | AVAIL | PERS):'' @ [nl] @
     ''  1. CHAINED SEGMENTS: `;` `&&` `||` `|` pipes, subshells, `xargs`, `eval`, sequencing.'' @ [nl] @
     ''  2. MUTATIONS: writes, deletes, truncates, moves, chmod/chown, or any irreversible filesystem/state change.'' @ [nl] @
     ''  3. NETWORK EGRESS: curl/wget/nc/ssh/scp/rsync/git-push or outbound network/HTTP.'' @ [nl] @
     ''  4. SENSITIVE PATHS: secrets (`.env`, `id_*`, tokens, keys) or system roots (`/etc`, `/System`, `/var`, `/usr'' @
     ''`, `/dev`, `/volume*`, Keychain, TCC).'' @ [nl] @
     ''  5. SUBSTITUTIONS: `$(...)`, backticks, `<(...)`, env-var expansion, dynamic payload injection.'' @ [nl] @
     ''- This briefing is your ADVISORY REPORT to the human. It is NOT itself a verdict and NOT a gate '' @ [CHR 0xE2, CHR 0x80, CHR 0x94] @
     '' do not use it to force a rejection.'' @ [nl, nl] @ ''STEP 1 '' @ [CHR 0xE2, CHR 0x80, CHR 0x94] @
     '' INVESTIGATION (optional; use tools to verify facts):'' @ [nl] @
     ''- Verify unverified claims with `investigate_path_details`, `investigate_pane_history`, or `read_file_snippet`'' @ '' as appropriate.'' @
     [nl] @ ''- Use `grep_search` only for a specific, named, unresolved red flag inside the active Git worktree. Broad or e'' @
     ''xploratory searches are forbidden.'' @ [nl] @
     ''- Use `view_file_slice` only to inspect a specific file and line range returned by `grep_search`; it is not a '' @
     ''general file browser.'' @ [nl] @
     ''- Use `find_by_name` only for one exact, specifically named, unresolved repository target. Glob, regex, and br'' @
     ''oad enumeration are forbidden.'' @ [nl] @
     ''- Use `git_diff_stat` only for a concrete unexpected-scope or mass-change red flag around commit or push. It r'' @
     ''eturns advisory metadata, not diff content, and never proves payload safety.'' @ [nl] @
     ''- You may skip tools when the command is Tier B (obvious-safe) or Tier A (unambiguous critical) with certainty'' @ ''. '' @ [dquote] @
     ''It looks simple'' @ [dquote] @ '' alone is NOT a skip reason '' @ [CHR 0xE2, CHR 0x80, CHR 0x94] @
     '' the command must match the closed Tier-B form.'' @ [nl, nl] @ ''STEP 2 '' @ [CHR 0xE2, CHR 0x80, CHR 0x94] @
     '' TRIAGE (choose exactly one tier, driven by the Decision Layer). OVERALL BIAS '' @ [CHR 0xE2, CHR 0x80, CHR 0x94] @
     '' APPROVE BY DEFAULT: you are a flow-enabler, not a blocker. Withhold approval only on a concrete, named red fl'' @ ''ag '' @
     [CHR 0xE2, CHR 0x80, CHR 0x94] @ '' never on vague unease, and never because you cannot prove a negative.'' @ [nl] @ ''- Tier A '' @
     [CHR 0xE2, CHR 0x80, CHR 0x94] @
     '' UNAMBIGUOUS CRITICAL (denylist): Decision Layer is one of SHELL_CRITICAL, SECRET_GUARD, SANDBOX_GUARD, PYTHON'' @
     ''_AST, ORIGIN_GUARD. For these ONLY you MAY autonomously call `reject_escalation`. Always include the STEP 0 br'' @
     ''iefing in your response.'' @ [nl] @ ''- Tier B '' @ [CHR 0xE2, CHR 0x80, CHR 0x94] @
     '' OBVIOUS-SAFE: Decision Layer is NOT_ALLOWLISTED AND the command matches the closed obvious-safe form (see bel'' @
     ''ow). For these ONLY you MAY autonomously call `approve_escalation` with a concise note; do NOT open investigat'' @ ''ion loops.'' @ [nl] @
     ''- Tier C '' @ [CHR 0xE2, CHR 0x80, CHR 0x94] @
     '' GRAY-ZONE / AMBIGUOUS / COMPLEX (everything else). These are ordinary developer operations '' @ [CHR 0xE2, CHR 0x80, CHR 0x94] @
     '' `git add <paths>`, `git commit -m '' @ [dquote] @ ''...'' @ [dquote] @
     ''`, `git pull --ff-only`, `mkdir`, file edits, test runs. Your DEFAULT is to APPROVE. After a quick red-flag sc'' @
     ''an (STEP 0), if you find NO concrete red flag '' @ [CHR 0xE2, CHR 0x80, CHR 0x94] @
     '' a destructive/irreversible flag (`--hard`, `--force`, `clean -f`, `--amend`, `reset`, `checkout --`), network'' @
     '' egress, a sensitive path, or a `$()`/backtick substitution '' @ [CHR 0xE2, CHR 0x80, CHR 0x94] @
     '' call `approve_escalation` immediately. Do NOT require proof of safety: require EVIDENCE OF DANGER to withhold'' @
     '' approval. Skip investigation tools for routine reversible operations. Only a specific, unresolved red flag ju'' @ ''stifies deferring '' @
     [CHR 0xE2, CHR 0x80, CHR 0x94] @ '' and even then, NEVER call `reject_escalation`; present the risk and wait for the human.'' @ [nl, nl] @
     ''[OBVIOUS-SAFE FORM (Tier B) '' @ [CHR 0xE2, CHR 0x80, CHR 0x94] @ '' closed, never weakens the denylist]:'' @ [nl] @
     ''- Single segment: no `|`, `&`, `;`, `&&`, `||`, no shell newline separators, no `$(...)`/backticks, no `>`/`<`'' @ '' redirection.'' @
     [nl] @ ''- AND one of:'' @ [nl] @
     ''  * a version/help query: `<interpreter> --version|-v|-V|version|--help|-h` (e.g. `node --version`, `python --'' @
     ''version`, `git --version`, `rustc --version`);'' @ [nl] @
     ''  * a read-only builtin/utility with no dangerous flags: `ls`, `pwd`, `echo <text>`, `which <x>`, `cat|head|ta'' @
     ''il|grep <path>` on a NON-sensitive, non-root path;'' @ [nl] @
     ''  * a read-only git query: `git status|log|diff|show|branch|tag|remote -v`.'' @ [nl] @
     ''- NEVER Tier B if Decision Layer is a denylist layer, or the command touches a sensitive/system path, mutates,'' @
     '' or egresses. A denylist layer ALWAYS wins over obvious-safe.'' @ [nl, nl] @ ''STEP 3 '' @ [CHR 0xE2, CHR 0x80, CHR 0x94] @
     '' HUMAN DIRECTIVE (always binding '' @ [CHR 0xE2, CHR 0x80, CHR 0x94] @ '' never override):'' @ [nl] @
     ''- The human is the final decision authority. Their expressed decision ALWAYS wins over your Tier A/B/C assessm'' @ ''ent.'' @ [nl] @
     ''- A directive may arrive as `/approve <id> [reason]`, `/reject <id> [reason]`, OR any free-text message expres'' @
     ''sing intent to allow/proceed/run/approve (or block/reject/stop) the current escalation.'' @ [nl] @
     ''- When you detect a directive, EXECUTE it: call `approve_escalation` (approval) or `reject_escalation` (reject'' @
     ''ion) with `directive=true`.'' @ [nl] @ ''- Record your INDEPENDENT confirmation in `english_feedback` (do NOT echo the human'' @ [squote] @
     ''s words verbatim): name the risk segments you found, state the residual risk if your assessment conflicts, and'' @
     '' affirm the directive was executed. You do NOT override the human.'' @ [nl] @
     ''- NO AUTONOMOUS REJECT (restored): do NOT call `reject_escalation` on your own judgment for any Tier-C command'' @
     ''. Autonomous APPROVAL of a red-flag-free Tier-C command is the default (see STEP 2); only the REJECT decision '' @
     ''is reserved for the human or Tier A. Autonomous reject is permitted ONLY for Tier A.'' @ [nl, nl] @ ''STEP 4 '' @
     [CHR 0xE2, CHR 0x80, CHR 0x94] @ '' FEEDBACK FORMAT:'' @ [nl] @
     ''- `english_feedback` MUST be professional English and embed a condensed risk-segment summary. Examples:'' @ [nl] @
     ''  - Approve (obvious-safe): `Approved. Segments: chained=none, mutation=none, egress=none, sensitive=none, sub'' @ ''stitution=none.`'' @
     [nl] @ ''  - Approve (human directive): `Executed human approval. Segments: mutation=rm -rf /tmp/foo. Residual risk: no'' @
     ''ne beyond /tmp/foo.`'' @ [nl] @
     ''  - Reject (critical): `Rejected. Segments: mutation=rm -rf /; sensitive=/. Alternative: <safe alternative>.`'' @ [nl] @
     ''- Your final text response to the human MUST begin with the STEP 0 risk-segment briefing, then the triage tier'' @
     '', then the verdict (or the deferral note).''"

definition READ_ONLY_PROTOCOL :: "str \<Rightarrow> str" where
  "READ_ONLY_PROTOCOL lang =
     ''['' @ [CHR 0xF0, CHR 0x9F, CHR 0x94, CHR 0xAC] @ '' READ-ONLY INTERPRETATION MODE (NO ADJUDICATION)]:'' @ [nl] @
     ''- The current escalation is a HUMAN QUESTION dialog, not a command to approve.'' @ [nl] @
     ''- You have NO approve/reject capability this turn '' @ [CHR 0xE2, CHR 0x80, CHR 0x94] @ '' do NOT attempt to adjudicate.'' @ [nl] @
     ''- Interpret the question and its surrounding context, and suggest how the human should answer it in the agent '' @ ''pane, in '' @ lang @
     ''.''"

definition GATEKEEPER_PROMPT :: "str \<Rightarrow> str \<Rightarrow> str" where
  "GATEKEEPER_PROMPT lang protocol =
     ''You are the autonomous Security Gatekeeper & Inspector Agent for Herdr SmartGate.'' @ [nl, nl] @ ''['' @
     [CHR 0xF0, CHR 0x9F, CHR 0x97, CHR 0xA3, CHR 0xEF, CHR 0xB8, CHR 0x8F] @ '' ANSWER LANGUAGE]:'' @ [nl] @
     ''- Render your FINAL response, risk report, and any explanation to the human user in '' @ lang @ ''.'' @ [nl, nl] @ protocol @ [nl, nl] @
     ''[NORMALIZATION SAFETY CONTRACT]:'' @ [nl] @ ''- You may suggest a reconstructed command only as advisory text.'' @ [nl] @
     ''- Never treat your reconstruction as executable or adjudicated. Every candidate'' @ [nl] @
     ''  must re-enter deterministic capture, normalization, denylist, and TOCTOU guards.'' @ [nl]"

definition build_system_prompt :: "str \<Rightarrow> bool \<Rightarrow> bool \<Rightarrow> str" where
  "build_system_prompt language allow has_active =
     (let lang = (case map_of ANSWER_LANGUAGE_MAP language of Some l \<Rightarrow> l | None \<Rightarrow> the (map_of ANSWER_LANGUAGE_MAP ''korean'')) in
      if \<not> has_active then IDLE_PROMPT lang
      else GATEKEEPER_PROMPT lang (if allow then ADVISORY_PROTOCOL else READ_ONLY_PROTOCOL lang))"

text \<open>\<open>GUARD_TOOLS\<close> without the two that adjudicate, unless they are allowed.\<close>

definition tool_name :: "json \<Rightarrow> json" where
  "tool_name d = jget ''name'' (jget ''function'' d)"

definition ADJUDICATING :: "str list" where
  "ADJUDICATING = [''approve_escalation'', ''reject_escalation'']"

definition tools_for :: "bool \<Rightarrow> json list" where
  "tools_for allow = filter (\<lambda>d. allow \<or> tool_name d \<notin> JStr ` set ADJUDICATING) GUARD_TOOLS"

subsection \<open>The escalation under review\<close>

definition or_unknown :: "str option \<Rightarrow> str \<Rightarrow> str" where
  "or_unknown v d = (case v of Some s \<Rightarrow> if s = [] then d else s | None \<Rightarrow> d)"

definition py_bool :: "bool \<Rightarrow> str" where
  "py_bool b = (if b then ''True'' else ''False'')"

definition BEGIN_DATA :: str where
  "BEGIN_DATA = ''[BEGIN UNTRUSTED ESCALATION DATA UNDER REVIEW]''"

definition END_DATA :: str where
  "END_DATA = ''[END UNTRUSTED ESCALATION DATA UNDER REVIEW]''"

definition command_line :: "str \<Rightarrow> str" where
  "command_line raw =
     (if nl \<in> set raw then ''- Canonical Command:'' @ [nl] @ ''```bash'' @ [nl] @ raw @ [nl] @ ''```''
      else ''- Canonical Command: `'' @ raw @ ''`'')"

definition escalation_context_block :: "escalation \<Rightarrow> guard_state \<Rightarrow> str" where
  "escalation_context_block e s =
     (let rq = es_request e in
      str_join [nl]
       [BEGIN_DATA,
        ''['' @ [CHR 0xF0, CHR 0x9F, CHR 0x8E, CHR 0xAF] @ '' CURRENT ACTIVE ESCALATION TARGET]:'',
        ''- Escalation ID: #'' @ show_nat (es_id e),
        ''- Target Pane: '' @ pane_of e @ '' ('' @ rq_agent rq @ '')'',
        command_line (raw_of e),
        ''- Command Representation: canonical (the only executable candidate)'',
        ''- Capture Source: '' @ or_unknown (rq_capture rq) ''unknown'',
        ''- Normalization Relation: '' @ or_unknown (rq_relation rq) ''unknown'',
        ''- Normalization Ambiguous: '' @ py_bool (rq_ambiguous rq),
        ''- Raw Capture Evaluated: '' @ py_bool (rq_raw_evaluated rq),
        ''- Intercepted Reason: '' @ rq_reason rq,
        ''- Detected Target: `'' @ or_unknown (snd (classify_operation (raw_of e))) ''unknown'' @ ''`'',
        ''- Decision Layer: '' @ rq_layer rq,
        ''- Human Opinion Recorded: '' @ py_bool (has_human_opinion (es_id e) s),
        END_DATA])"

definition build_escalation_context_block :: "escalation option \<Rightarrow> guard_state \<Rightarrow> str" where
  "build_escalation_context_block active s = (case active of None \<Rightarrow> [] | Some e \<Rightarrow> escalation_context_block e s)"

subsection \<open>The announcement of a call\<close>

definition arg_or :: "str \<Rightarrow> json \<Rightarrow> json \<Rightarrow> json" where
  "arg_or k d args = (case args of JObj ms \<Rightarrow> (case map_of ms k of Some v \<Rightarrow> v | None \<Rightarrow> d) | _ \<Rightarrow> d)"

definition arg_text :: "context_world \<Rightarrow> json \<Rightarrow> str" where
  "arg_text w v = (case v of JStr s \<Rightarrow> s | _ \<Rightarrow> cx_text w v)"

text \<open>The note of an approval, cut at 60; \<open>None\<close>: it has no length, or is a long dictionary, which has no slices.\<close>

definition short_note :: "context_world \<Rightarrow> json \<Rightarrow> str option" where
  "short_note w note =
     (let dash = '' '' @ [CHR 0xE2, CHR 0x80, CHR 0x94] @ '' *''; dots = [CHR 0xE2, CHR 0x80, CHR 0xA6] @ ''*'' in
      case note of
        JStr s \<Rightarrow> Some (if char_count s > 60 then dash @ first_chars 60 s @ dots else dash @ s @ ''*'')
      | JArr xs \<Rightarrow> Some (if length xs > 60 then dash @ arg_text w (JArr (take 60 xs)) @ dots else dash @ arg_text w note @ ''*'')
      | JObj ms \<Rightarrow> if length ms > 60 then None else Some (dash @ arg_text w note @ ''*'')
      | _ \<Rightarrow> None)"

definition format_tool_call_beautified :: "context_world \<Rightarrow> str \<Rightarrow> json \<Rightarrow> str option" where
  "format_tool_call_beautified w name args =
     (let arg = (\<lambda>k d. arg_text w (arg_or k (JStr d) args)) in
      if name = ''git_diff_stat'' then Some ([CHR 0xF0, CHR 0x9F, CHR 0x93, CHR 0x8A] @ '' **[Git Diff Stat]**: active worktree'')
      else if name \<notin> set [''investigate_path_details'', ''investigate_pane_history'', ''read_file_snippet'', ''grep_search'', ''view_file_slice'',
           ''find_by_name'', ''approve_escalation'', ''reject_escalation'', ''create_feature_request'', ''search_feature_requests''] then
        Some ([CHR 0xE2, CHR 0x9A, CHR 0x99, CHR 0xEF, CHR 0xB8, CHR 0x8F] @ '' **[Inspector]**: `'' @ name @ ''` `''
          @ flat_dump '', '' '': '' (cx_float w) args @ ''`'')
      else if \<not> is_obj args then None
      else if name = ''investigate_path_details'' then
        Some ([CHR 0xF0, CHR 0x9F, CHR 0x94, CHR 0x8D] @ '' **[Path Check]**: `'' @ arg ''target_path'' [] @ ''`'')
      else if name = ''investigate_pane_history'' then
        Some ([CHR 0xF0, CHR 0x9F, CHR 0x93, CHR 0x9C] @ '' **[Pane Buffer]**: `'' @ arg ''pane_id'' [] @ ''` ('' @ arg_text w (arg_or ''lines'' (JInt 100) args) @ '' lines''
          @ (if truthy (jget ''full_dump'' args) then '' '' @ [CHR 0xC2, CHR 0xB7] @ '' scrollback'' else []) @ '')'')
      else if name = ''read_file_snippet'' then
        Some ([CHR 0xF0, CHR 0x9F, CHR 0x93, CHR 0x84] @ '' **[File Read]**: `'' @ arg ''target_path'' [] @ ''`'')
      else if name = ''grep_search'' then
        Some ([CHR 0xF0, CHR 0x9F, CHR 0x94, CHR 0x8E] @ '' **[Repository Search]**: `'' @ arg ''query'' [] @ ''` in `'' @ arg ''relative_path'' ''.'' @ ''`'')
      else if name = ''view_file_slice'' then
        Some ([CHR 0xF0, CHR 0x9F, CHR 0x93, CHR 0x96] @ '' **[Repository Slice]**: `'' @ arg ''relative_path'' [] @ ''` lines ''
          @ arg_text w (arg_or ''start_line'' (JInt 1) args) @ ''-'' @ arg_text w (arg_or ''end_line'' (JInt 100) args))
      else if name = ''find_by_name'' then
        Some ([CHR 0xF0, CHR 0x9F, CHR 0xA7, CHR 0xAD] @ '' **[Repository Find]**: `'' @ arg ''name'' [] @ ''` under `'' @ arg ''relative_path'' ''.'' @ ''`'')
      else if name = ''approve_escalation'' then
        map_option (\<lambda>short. [CHR 0xE2, CHR 0x9C, CHR 0x85] @ '' **[Auto Approve]**: Escalation `#'' @ arg ''escalation_id'' [] @ ''`'' @ short)
          (short_note w (arg_or ''english_feedback'' (JStr []) args))
      else if name = ''reject_escalation'' then
        Some ([CHR 0xF0, CHR 0x9F, CHR 0x9B, CHR 0x91] @ '' **[Action Reject]**: Escalation `#'' @ arg ''escalation_id'' [] @ ''` '' @ [CHR 0xE2, CHR 0x80, CHR 0x94]
          @ '' *'' @ arg ''english_feedback'' [] @ ''*'')
      else if name = ''create_feature_request'' then
        Some ([CHR 0xF0, CHR 0x9F, CHR 0x92, CHR 0xA1] @ '' **[Feature Queued]**: `'' @ arg ''title'' [] @ ''` *(Priority: '' @ arg ''priority'' ''NORMAL'' @ '')*'')
      else Some ([CHR 0xF0, CHR 0x9F, CHR 0x94, CHR 0x8E] @ '' **[Backlog Search]**: *'' @ [dquote] @ arg ''query'' [] @ [dquote] @ ''*''))"

subsection \<open>Cleaning an answer\<close>

definition WIDE_BAR :: str where
  "WIDE_BAR = [CHR 0xEF, CHR 0xBD, CHR 0x9C]"

definition CLEANING :: "(regex \<times> str) list" where
  "CLEANING =
     [(re_c (''<%/?(?:'' @ WIDE_BAR @ ''|%|){1,4}[^>]*>''), []),
      (re_c (''<(?:'' @ WIDE_BAR @ ''|%|)[^>]+>''), []),
      (re_c (''<%/(?:'' @ WIDE_BAR @ ''|%|)[^>]+>''), []),
      (re_ci ''<%/?%s*(?:invoke|parameter|tool_call|tool_calls|tool_response|tool_outputs|function_call|function|call|result|thought|thinking|artifact)[^>]*>'', []),
      (re_ci ''<%?xml.*?%?>'', []),
      (re_c ''<%/%S+>'', []),
      (re_c ''```json%s*%{(?:.|%n)*?%}%s*```'', []),
      (re_c ''%n{3,}'', [nl, nl])]"

definition unwrapped :: "str \<Rightarrow> str" where
  "unwrapped s =
     (if starts_with s (''```markdown'' @ [nl]) \<and> ends_with s (nl # ''```'') then strip (drop 12 (take (length s - 4) s))
      else if starts_with s (''```'' @ [nl]) \<and> ends_with s (nl # ''```'') then strip (drop 4 (take (length s - 4) s))
      else s)"

definition clean_llm_response :: "str \<Rightarrow> str" where
  "clean_llm_response s = (if s = [] then [] else unwrapped (strip (fold (\<lambda>(r, t). re_sub r (\<lambda>_. t)) CLEANING s)))"

text \<open>
  The block is a template: what is above and below the command does not depend on it, and the
  command stands in it as it is.  A command may therefore hold the line that ends the untrusted
  data, and what follows it there reads as if it came from the program.
\<close>

lemma block_shape: "\<exists>above below. escalation_context_block e s = above @ command_line (raw_of e) @ below @ END_DATA"
proof -
  have "\<exists>above below. str_join [nl] [a, b, c, d, x, f, g, h, i, j, k, l, m, n, z] = above @ x @ below @ z"
    for a b c d x f g h i j k l m n z :: str
    by (intro exI [of _ "a @ [nl] @ b @ [nl] @ c @ [nl] @ d @ [nl]"]
        exI [of _ "[nl] @ f @ [nl] @ g @ [nl] @ h @ [nl] @ i @ [nl] @ j @ [nl] @ k @ [nl] @ l @ [nl] @ m @ [nl] @ n @ [nl]"]) simp
  then show ?thesis unfolding escalation_context_block_def Let_def by blast
qed

lemma command_may_end_the_data:
  assumes "raw_of e = pre @ END_DATA @ post"
  shows "\<exists>before after. escalation_context_block e s = before @ END_DATA @ post @ after @ END_DATA"
proof -
  obtain above below where b: "escalation_context_block e s = above @ command_line (raw_of e) @ below @ END_DATA" using block_shape by blast
  have "\<exists>u v. command_line r = u @ r @ v" for r
  proof (cases "nl \<in> set r")
    case True
    then show ?thesis
      by (intro exI [of _ "''- Canonical Command:'' @ [nl] @ ''```bash'' @ [nl]"] exI [of _ "[nl] @ ''```''"]) (simp add: command_line_def)
  next
    case False
    then show ?thesis by (intro exI [of _ "''- Canonical Command: `''"] exI [of _ "''`''"]) (simp add: command_line_def)
  qed
  then obtain u v where "command_line (raw_of e) = u @ raw_of e @ v" by blast
  with b assms have "escalation_context_block e s = (above @ u @ pre) @ END_DATA @ post @ (v @ below) @ END_DATA" by simp
  then show ?thesis by blast
qed

end
