(* ===== verification/AgentChat.thy ===== *)
theory AgentChat
  imports AgentPrompts
begin

text \<open>
  The conversation with the model: \<open>SchengenAgentChat.send_message\<close> of
  \<open>scripts/tools/schengen_agent_llm.py\<close>, with the retries of a request, the turns of the
  inspector, the execution of the calls it asks for, the judge, and the entry of the audit log
  for an answer without a call.  What the provider answers, when the user cancels, times, panes
  and files are functions of the world; the events of a timeline are its operations in
  \<open>Telemetry\<close>.
\<close>

subsection \<open>The world and the configuration\<close>

text \<open>
  What one attempt gives: a response with status 200 and its decoded body (\<open>None\<close>: no JSON),
  another status with its \<open>Retry-After\<close> and text, an exception of the HTTP library, the
  cancellation of the task, or another exception.
\<close>

datatype chat_answer = Good "json option" | Status int "str option" str | Net str | Task_Cancelled | Other_Exception

text \<open>Where the flag of the user is read: at the start of a turn, before an attempt and after its response, and after a failure.\<close>

datatype chat_point = Turn_Start nat | Before_Attempt str nat nat | After_Response str nat nat | After_Failure str nat

record chat_world =
  cw_http :: "str \<Rightarrow> nat \<Rightarrow> nat \<Rightarrow> json \<Rightarrow> chat_answer"
  cw_cancelled :: "chat_point \<Rightarrow> bool"
  cw_jitter :: "str \<Rightarrow> nat \<Rightarrow> nat \<Rightarrow> rat"
  cw_times :: "str \<Rightarrow> str \<Rightarrow> nat \<Rightarrow> nat \<Rightarrow> int \<times> int"
  cw_info :: "str \<Rightarrow> json \<Rightarrow> str option"
  cw_gate :: "nat \<Rightarrow> nat \<Rightarrow> gate_world"
  cw_context :: context_world
  cw_guard :: guard_world
  cw_now :: int
  cw_language :: str
  cw_announce :: bool
  cw_error :: str

record chat_config =
  cg_inspector_key :: str
  cg_inspector_url :: str
  cg_inspector_model :: str
  cg_inspector_tokens :: int
  cg_judge_key :: str
  cg_judge_url :: str
  cg_judge_model :: str
  cg_judge_tokens :: int

record token_meter =
  tk_calls :: int
  tk_prompt :: int
  tk_completion :: int
  tk_cached :: int
  tk_inspector_in :: int
  tk_inspector_out :: int
  tk_judge_in :: int
  tk_judge_out :: int

text \<open>What the object keeps between messages.\<close>

record chat =
  ch_history :: "json list"
  ch_current :: "nat option"
  ch_tokens :: token_meter
  ch_meter :: compaction_meter
  ch_inspector :: context_budget
  ch_judge :: context_budget
  ch_log :: "transcript_entry list"

text \<open>
  One conversation: the object, the stores, the messages, the requests that were sent, the calls
  that were executed (turn, position, call), what was done to panes, and the operations on the timeline.
\<close>

record conversation =
  cv_chat :: chat
  cv_state :: guard_state
  cv_messages :: "json list"
  cv_posts :: "(str \<times> nat \<times> nat) list"
  cv_executed :: "(nat \<times> nat \<times> json) list"
  cv_acts :: "(str \<times> pane_act) list"
  cv_timeline :: "tl_op list"

datatype chat_end = Said str | Raised | Task_Ended

subsection \<open>Events\<close>

definition chat_event :: "str \<Rightarrow> json \<times> json \<Rightarrow> str \<Rightarrow> (str \<times> json) list \<Rightarrow> tl_op" where
  "chat_event stage tm outcome members = Record_Op \<lparr>ea_stage = JStr stage, ea_start = fst tm, ea_finish = snd tm,
     ea_outcome = JStr outcome, ea_fields = members\<rparr>"

definition timed :: "chat_world \<Rightarrow> str \<Rightarrow> str \<Rightarrow> nat \<Rightarrow> nat \<Rightarrow> json \<times> json" where
  "timed W stage phase turn n = (case cw_times W stage phase turn n of (a, b) \<Rightarrow> (JInt a, JInt b))"

definition attempt_event :: "str \<Rightarrow> nat \<Rightarrow> nat \<Rightarrow> json \<times> json \<Rightarrow> str \<Rightarrow> (str \<times> json) list \<Rightarrow> tl_op" where
  "attempt_event phase turn attempt tm outcome extra =
     chat_event ''llm_attempt'' tm outcome ([(''phase'', JStr phase), (''turn'', JInt (int turn)), (''attempt'', JInt (int attempt))] @ extra)"

text \<open>\<open>round(delay * 1000)\<close>, halves to the even neighbour.\<close>

definition milliseconds :: "rat \<Rightarrow> int" where
  "milliseconds r =
     (let y = 1000 * r; f = floor y; d = y - of_int f in
      if d < 1 / 2 then f else if d > 1 / 2 then f + 1 else if even f then f else f + 1)"

definition backoff_event :: "chat_world \<Rightarrow> str \<Rightarrow> nat \<Rightarrow> nat \<Rightarrow> rat \<Rightarrow> tl_op" where
  "backoff_event W phase turn attempt delay =
     chat_event ''retry_backoff'' (timed W ''retry_backoff'' phase turn attempt) ''complete''
       [(''phase'', JStr phase), (''turn'', JInt (int turn)), (''attempt'', JInt (int attempt)), (''backoff_ms'', JInt (milliseconds delay))]"

definition turn_event :: "chat_world \<Rightarrow> str \<Rightarrow> nat \<Rightarrow> str \<Rightarrow> str \<Rightarrow> tl_op" where
  "turn_event W phase turn outcome state =
     (let stage = (if phase = ''Judge'' then ''judge_turn'' else ''inspector_turn'') in
      chat_event stage (timed W stage phase turn 0) outcome
        [(''phase'', JStr phase), (''turn'', JInt (int turn)), (''completion_state'', JStr state)])"

definition WARNING :: str where
  "WARNING = [CHR 0xE2, CHR 0x9A, CHR 0xA0, CHR 0xEF, CHR 0xB8, CHR 0x8F] @ '' ''"

definition STOPPED :: str where
  "STOPPED = [CHR 0xF0, CHR 0x9F, CHR 0x9B, CHR 0x91] @ '' [Interrupted]: ''"

definition CONTEXT_CAP_EXCEEDED_RESPONSE :: str where
  "CONTEXT_CAP_EXCEEDED_RESPONSE = WARNING @ ''[CONTEXT_CAP_EXCEEDED] The configured provider context budget cannot fit this request after bounded ''
     @ ''evidence compaction. The escalation remains pending for human review.''"

subsection \<open>A request with its retries\<close>

datatype posted = Answered "json option" | Gave_Up str | Interrupted chat_end

definition MAX_ATTEMPTS :: nat where
  "MAX_ATTEMPTS = 10"

text \<open>One attempt: the result, or \<open>None\<close> and the delay before the next one.\<close>

definition http_attempt :: "chat_world \<Rightarrow> str \<Rightarrow> nat \<Rightarrow> json \<Rightarrow> nat \<Rightarrow> bool \<Rightarrow> (posted option \<times> rat) \<times> (str \<times> nat \<times> nat) list \<times> tl_op list" where
  "http_attempt W phase turn payload n is_last =
     (let sent = [(phase, turn, n)]; jitter = cw_jitter W phase turn n;
          aborted = (Some (Gave_Up (STOPPED @ ''LLM call was aborted by user.'')), 0);
          event = (\<lambda>outcome extra. [attempt_event phase turn n (timed W ''llm_attempt'' phase turn n) outcome extra])
      in
      if cw_cancelled W (Before_Attempt phase turn n) then (aborted, [], [attempt_event phase turn n (JNull, JNull) ''cancelled'' []])
      else (case cw_http W phase turn n payload of
          Task_Cancelled \<Rightarrow> ((Some (Interrupted Task_Ended), 0), sent, [])
        | Other_Exception \<Rightarrow> ((Some (Interrupted Raised), 0), sent, [])
        | Net why \<Rightarrow>
            if is_last then ((Some (Gave_Up (WARNING @ phase @ '' Network/API Error after 10 retries: '' @ why)), 0), sent, event ''network_error'' [])
            else ((None, backoff n jitter), sent, event ''retry'' [])
        | Good body \<Rightarrow>
            if cw_cancelled W (After_Response phase turn n) then (aborted, sent, event ''cancelled'' [(''status_code'', JInt 200)])
            else ((Some (Answered body), 0), sent, event ''success'' [(''status_code'', JInt 200)])
        | Status code retry_after why \<Rightarrow>
            if cw_cancelled W (After_Response phase turn n) then (aborted, sent, event ''cancelled'' [(''status_code'', JInt code)])
            else if code \<in> set RETRYABLE_HTTP_STATUSES \<and> \<not> is_last then
              ((None, retry_sleep retry_after n jitter), sent, event ''retry'' [(''status_code'', JInt code)])
            else ((Some (Gave_Up (WARNING @ phase @ '' API Error ('' @ show_int code @ ''): '' @ why)), 0), sent,
              event ''http_error'' [(''status_code'', JInt code)])))"

text \<open>\<open>left\<close> attempts remain after the one with this number.  The result, the requests that were sent, and the events.\<close>

fun attempts :: "chat_world \<Rightarrow> str \<Rightarrow> nat \<Rightarrow> json \<Rightarrow> nat \<Rightarrow> nat \<Rightarrow> posted \<times> (str \<times> nat \<times> nat) list \<times> tl_op list" where
  "attempts W phase turn payload n 0 =
     (case http_attempt W phase turn payload n True of ((r, _), ps, es) \<Rightarrow>
        ((case r of Some a \<Rightarrow> a | None \<Rightarrow> Gave_Up (WARNING @ phase @ '' Error: Max retries exceeded'')), ps, es))"
| "attempts W phase turn payload n (Suc left) =
     (case http_attempt W phase turn payload n False of ((r, delay), ps, es) \<Rightarrow>
        (case r of
           Some a \<Rightarrow> (a, ps, es)
         | None \<Rightarrow> (case attempts W phase turn payload (Suc n) left of
             (a, ps', es') \<Rightarrow> (a, ps @ ps', es @ backoff_event W phase turn n delay # es'))))"

definition post_with_adaptive_retry :: "chat_world \<Rightarrow> str \<Rightarrow> nat \<Rightarrow> json \<Rightarrow> conversation \<Rightarrow> posted \<times> conversation" where
  "post_with_adaptive_retry W phase turn payload c =
     (case attempts W phase turn payload 1 (MAX_ATTEMPTS - 1) of (r, ps, es) \<Rightarrow>
        (r, c\<lparr>cv_posts := cv_posts c @ ps, cv_timeline := cv_timeline c @ es\<rparr>))"

subsection \<open>An answer without a call\<close>

definition record_model_no_tool_call :: "guard_world \<Rightarrow> int \<Rightarrow> escalation \<Rightarrow> str \<Rightarrow> guard_state \<Rightarrow> guard_state" where
  "record_model_no_tool_call w now e phase s =
     (if list_ex (\<lambda>r. en_pane (ar_entry r) = pane_of e \<and> en_raw (ar_entry r) = raw_of e \<and> en_decision (ar_entry r) = ''MODEL_NO_TOOL_CALL''
          \<and> es_started e \<le> ar_time r) (audit_rows (tables s)) then s
      else log_entry w now
        \<lparr>en_pane = pane_of e, en_raw = raw_of e, en_decision = ''MODEL_NO_TOOL_CALL'',
         en_reason = phase @ '' returned briefing text without an adjudication tool call; escalation remains pending for human review'',
         en_agent = rq_agent (es_request e), en_layer = rq_layer (es_request e), en_origin = or_unknown (rq_origin (es_request e)) ''A'',
         en_consequence = ''NONE'', en_mechanism = str_lower phase @ ''-no-tool-call'', en_gate = ''ENFORCE'', en_shadow = False,
         en_scope = ''SESSION_TRANSIENT'', en_source = Some ''LLM'', en_revision = None\<rparr> s)"

subsection \<open>Reading an answer\<close>

text \<open>The number of prompt tokens as it was sent, and the counts of the prompt, the completion and the cache.\<close>

definition usage_of :: "json \<Rightarrow> json \<times> int \<times> int \<times> int" where
  "usage_of data =
     (let usage = jget ''usage'' data; hit = jget ''prompt_cache_hit_tokens'' usage;
          cached = jget ''cached_tokens'' (jget ''prompt_tokens_details'' usage)
      in (jget ''prompt_tokens'' usage, usage_token (jget ''prompt_tokens'' usage), usage_token (jget ''completion_tokens'' usage),
          usage_token (if truthy hit then hit else cached)))"

definition meter_usage :: "str \<Rightarrow> json \<Rightarrow> chat \<Rightarrow> chat" where
  "meter_usage phase data h =
     (case usage_of data of (raw, p, c, k) \<Rightarrow>
        let t = ch_tokens h;
            h' = h\<lparr>ch_tokens := t\<lparr>tk_calls := tk_calls t + 1, tk_prompt := tk_prompt t + p, tk_completion := tk_completion t + c, tk_cached := tk_cached t + k\<rparr>\<rparr>
        in if phase = ''Judge'' then h'\<lparr>ch_judge := record_context_usage raw (ch_judge h')\<rparr>
           else h'\<lparr>ch_inspector := record_context_usage raw (ch_inspector h')\<rparr>)"

definition spent :: "str \<Rightarrow> json \<Rightarrow> chat \<Rightarrow> chat" where
  "spent phase data h =
     (case usage_of data of (raw, p, c, k) \<Rightarrow> let t = ch_tokens h in
        h\<lparr>ch_tokens := (if phase = ''Judge'' then t\<lparr>tk_judge_in := tk_judge_in t + p, tk_judge_out := tk_judge_out t + c\<rparr>
          else t\<lparr>tk_inspector_in := tk_inspector_in t + p, tk_inspector_out := tk_inspector_out t + c\<rparr>)\<rparr>)"

text \<open>\<open>data["choices"][0]\<close>, where it is a dictionary.\<close>

definition first_choice :: "json \<Rightarrow> json option" where
  "first_choice data =
     (case jget ''choices'' data of JArr (c # _) \<Rightarrow> if is_obj c then Some c else None | _ \<Rightarrow> None)"

definition is_cut :: "json \<Rightarrow> bool" where
  "is_cut choice \<longleftrightarrow> jget ''finish_reason'' choice = JStr ''length''"

subsection \<open>The result of a call\<close>

definition shown_number :: "nat option \<Rightarrow> str" where
  "shown_number i = (case i of Some n \<Rightarrow> show_nat n | None \<Rightarrow> ''None'')"

definition tool_error :: "str \<Rightarrow> json" where
  "tool_error why = JObj [(''status'', JStr ''error''), (''error'', JStr why)]"

text \<open>The document that a tool answers with; \<open>s\<close> are the stores before the call, \<open>cw_error\<close> is the text of an exception.\<close>

definition reply_json :: "chat_world \<Rightarrow> gate_world \<Rightarrow> str \<Rightarrow> json \<Rightarrow> guard_state \<Rightarrow> tool_reply \<Rightarrow> json" where
  "reply_json W G name args s reply =
     (let i = the (id_argument (jget ''escalation_id'' args));
          target = target_of (if 0 < i then row_with_id i (escalations s) else None);
          pane = fst target; kind = fst (snd target);
          feedback = the (tool_feedback name args);
          aa = fst (fst (advance_for G i target s));
          done_json = (\<lambda>status action more. JObj ([(''status'', JStr status), (''action'', JStr action), (''escalation_id'', JInt (int i)),
             (''target_pane'', JStr pane)] @ more)) in
      case reply of
        Not_Head n active \<Rightarrow> tool_error (''Escalation #'' @ show_nat n @ '' is not the current active FIFO head (active: #'' @ shown_number active @ '').'')
      | Approved n \<Rightarrow> JObj [(''status'', JStr ''success''), (''escalation_id'', JInt (int n)), (''target_pane'', JStr pane),
          (''action'', JStr ''APPROVED''), (''feedback'', JStr feedback)]
      | Rejected n \<Rightarrow> JObj [(''status'', JStr ''success''), (''escalation_id'', JInt (int n)), (''target_pane'', JStr pane),
          (''action'', JStr ''REJECTED''), (''feedback'', JStr feedback)]
      | Auto_Advanced n req \<Rightarrow> done_json ''success'' ''AUTO_ADVANCED'' [(''new_escalation'', JStr req), (''reason'', JStr (av_reason aa))]
      | Advance_Blocked n req \<Rightarrow> done_json ''advanced_unsafe'' ''AUTO_ADVANCE_BLOCKED'' [(''new_escalation'', JStr req), (''reason'', JStr (av_reason aa))]
      | Dialog_Changed \<Rightarrow> tool_error (''approval deferred ('' @ kind @ ''): dialog changed mid-evaluation; re-polling'')
      | Not_Delivered why \<Rightarrow> tool_error ((if name = ''reject_escalation'' then ''rejection'' else ''approval'') @ '' injection failed ('' @ kind @ ''): '' @ why)
      | Errored \<Rightarrow> tool_error (cw_error W)
      | Information t \<Rightarrow> JStr t)"

text \<open>
  \<open>json.dumps\<close> without \<open>ensure_ascii=False\<close>, which the code uses for exceptions: the code points
  of a text, and their escapes, a pair of surrogates above the first plane.
\<close>

definition lead_bits :: "char \<Rightarrow> nat" where
  "lead_bits c =
     (if c < CHR 0x80 then of_char c else if c < CHR 0xE0 then of_char c mod 32 else if c < CHR 0xF0 then of_char c mod 16 else of_char c mod 8)"

fun code_points_from :: "nat \<Rightarrow> str \<Rightarrow> nat list" where
  "code_points_from n [] = [n]"
| "code_points_from n (c # cs) =
     (if begins_char c then n # code_points_from (lead_bits c) cs else code_points_from (64 * n + of_char c mod 64) cs)"

definition code_points :: "str \<Rightarrow> nat list" where
  "code_points s = (case s of [] \<Rightarrow> [] | c # cs \<Rightarrow> code_points_from (lead_bits c) cs)"

definition unicode_escape :: "nat \<Rightarrow> str" where
  "unicode_escape n = [bslash, CHR ''u'', hex_digit (n div 4096), hex_digit (n div 256 mod 16), hex_digit (n div 16 mod 16), hex_digit (n mod 16)]"

definition ascii_escape :: "nat \<Rightarrow> str" where
  "ascii_escape n =
     (if n < 127 then json_escape (char_of n) else if n < 65536 then unicode_escape n
      else unicode_escape (55296 + (n - 65536) div 1024) @ unicode_escape (56320 + (n - 65536) mod 1024))"

definition ascii_str :: "str \<Rightarrow> str" where
  "ascii_str s = dquote # concat (map ascii_escape (code_points s)) @ [dquote]"

definition ascii_object :: "(str \<times> str) list \<Rightarrow> str" where
  "ascii_object members = ''{'' @ sep_by '', '' (map (\<lambda>(k, v). ascii_str k @ '': '' @ ascii_str v) members) @ ''}''"

definition reply_text :: "chat_world \<Rightarrow> gate_world \<Rightarrow> str \<Rightarrow> json \<Rightarrow> guard_state \<Rightarrow> tool_reply \<Rightarrow> str" where
  "reply_text W G name args s reply =
     (case reply of
        Information t \<Rightarrow> t
      | Errored \<Rightarrow> ascii_object [(''status'', ''error''), (''error'', cw_error W)]
      | _ \<Rightarrow> flat_dump '', '' '': '' (cx_float (cw_context W)) (reply_json W G name args s reply))"

definition tool_failed :: "str \<Rightarrow> bool" where
  "tool_failed result \<longleftrightarrow>
     (case json_loads result of
        Some v \<Rightarrow> is_obj v \<and> (truthy (jget ''error'' v) \<or> jget ''status'' v = JStr ''error'')
      | None \<Rightarrow> False)"

text \<open>The name of a call (\<open>None\<close>: an exception) and its arguments, an empty dictionary when they cannot be read.\<close>

definition call_name :: "json \<Rightarrow> json option" where
  "call_name d = (if has_key ''name'' (jget ''function'' d) then Some (jget ''name'' (jget ''function'' d)) else None)"

definition call_args :: "json \<Rightarrow> json" where
  "call_args d =
     (case jget ''arguments'' (jget ''function'' d) of
        JStr s \<Rightarrow> (case json_loads s of Some v \<Rightarrow> v | None \<Rightarrow> JObj [])
      | _ \<Rightarrow> JObj [])"

definition name_text :: "chat_world \<Rightarrow> json \<Rightarrow> str" where
  "name_text W name = arg_text (cw_context W) name"

definition announced :: "chat_world \<Rightarrow> json \<Rightarrow> json \<Rightarrow> bool" where
  "announced W name args \<longleftrightarrow>
     (\<not> cw_announce W \<or> (case name of JStr n \<Rightarrow> format_tool_call_beautified (cw_context W) n args \<noteq> None | _ \<Rightarrow> True))"

definition call_run :: "chat_world \<Rightarrow> gate_world \<Rightarrow> json \<Rightarrow> json \<Rightarrow> guard_state \<Rightarrow> tool_run" where
  "call_run W G name args s =
     (case name of
        JStr n \<Rightarrow> execute_tool_call (cw_info W) G n args s
      | _ \<Rightarrow> only_reply (Some (Information (ascii_object [(''error'', ''Unknown tool: '' @ name_text W name)]))) s)"

definition tool_call_event :: "chat_world \<Rightarrow> nat \<Rightarrow> nat \<Rightarrow> str \<Rightarrow> json \<Rightarrow> tl_op" where
  "tool_call_event W turn k outcome name =
     chat_event ''tool_call'' (timed W ''tool_call'' ''Inspector'' turn k) outcome
       [(''phase'', JStr ''Inspector''), (''turn'', JInt (int turn)), (''tool'', name)]"

text \<open>One call; the result says whether the loop goes on.\<close>

definition run_call :: "chat_world \<Rightarrow> nat \<Rightarrow> nat \<Rightarrow> json \<Rightarrow> conversation \<Rightarrow> chat_end option \<times> conversation" where
  "run_call W turn k d c =
     (case call_name d of
        None \<Rightarrow> (Some Raised, c)
      | Some name \<Rightarrow>
          (let args = call_args d; G = cw_gate W turn k; r = call_run W G name args (cv_state c);
               c1 = c\<lparr>cv_state := tr_state r, cv_executed := cv_executed c @ [(turn, k, d)], cv_acts := cv_acts c @ tr_acts r,
                      cv_timeline := cv_timeline c @ tr_timeline r\<rparr> in
           if \<not> announced W name args then (Some Raised, c)
           else (case tr_reply r of
               None \<Rightarrow> (Some Raised, c1\<lparr>cv_timeline := cv_timeline c1 @ [tool_call_event W turn k ''failed'' name]\<rparr>)
             | Some reply \<Rightarrow>
                 (let result = reply_text W G (name_text W name) args (cv_state c) reply;
                      h = cv_chat c1; h1 = h\<lparr>ch_log := ch_log h @ [(''tool'', JStr result, JNull)]\<rparr>;
                      c2 = c1\<lparr>cv_chat := h1, cv_timeline := cv_timeline c1 @ [tool_call_event W turn k (if tool_failed result then ''failed'' else ''complete'') name]\<rparr> in
                  if \<not> has_key ''id'' d then (Some Raised, c2)
                  else (None, c2\<lparr>cv_messages := cv_messages c2 @ [JObj [(''role'', JStr ''tool''), (''tool_call_id'', jget ''id'' d), (''content'', JStr result)]],
                     cv_chat := (if name \<in> JStr ` set ADJUDICATING then h1\<lparr>ch_history := []\<rparr> else h1)\<rparr>)))))"

fun run_calls :: "chat_world \<Rightarrow> nat \<Rightarrow> nat \<Rightarrow> json list \<Rightarrow> conversation \<Rightarrow> chat_end option \<times> conversation" where
  "run_calls W turn k [] c = (None, c)"
| "run_calls W turn k (d # ds) c =
     (case run_call W turn k d c of
        (Some e, c') \<Rightarrow> (Some e, c')
      | (None, c') \<Rightarrow> run_calls W turn (Suc k) ds c')"


subsection \<open>Turns\<close>

definition said_log :: "str \<Rightarrow> json \<Rightarrow> json \<Rightarrow> conversation \<Rightarrow> conversation" where
  "said_log role content calls c = c\<lparr>cv_chat := (cv_chat c)\<lparr>ch_log := ch_log (cv_chat c) @ [(role, content, calls)]\<rparr>\<rparr>"

definition with_events :: "tl_op list \<Rightarrow> conversation \<Rightarrow> conversation" where
  "with_events es c = c\<lparr>cv_timeline := cv_timeline c @ es\<rparr>"

definition on_chat :: "(chat \<Rightarrow> chat) \<Rightarrow> conversation \<Rightarrow> conversation" where
  "on_chat f c = c\<lparr>cv_chat := f (cv_chat c)\<rparr>"

text \<open>\<open>_prepare_context_request\<close> on the object; the result says whether the request is deferred.\<close>

definition prepare :: "chat_world \<Rightarrow> str \<Rightarrow> json list option \<Rightarrow> conversation \<Rightarrow> bool \<times> conversation" where
  "prepare W phase tools c =
     (let h = cv_chat c; judge = (phase = ''judge'');
          p = prepare_context_request (cw_context W) phase (cv_messages c) tools (if judge then ch_judge h else ch_inspector h) (ch_meter h);
          h1 = h\<lparr>ch_meter := pr_meter p, ch_log := ch_log h @ pr_log p\<rparr>;
          h2 = (if judge then h1\<lparr>ch_judge := pr_budget p\<rparr> else h1\<lparr>ch_inspector := pr_budget p\<rparr>);
          c1 = c\<lparr>cv_chat := h2, cv_messages := pr_messages p\<rparr>
      in if pr_deferred p then (True, with_events [Finish_Op ''deferred'' ''context_cap_exceeded'' ''truncated''] c1) else (False, c1))"

definition request_payload :: "str \<Rightarrow> json list \<Rightarrow> json list option \<Rightarrow> int \<Rightarrow> json" where
  "request_payload model ms tools limit =
     JObj ([(''model'', JStr model), (''messages'', JArr ms)] @ (case tools of None \<Rightarrow> [] | Some ts \<Rightarrow> [(''tools'', JArr ts)])
       @ [(''temperature'', JFloat (Fin 0)), (''max_tokens'', JInt limit), (''stream'', JBool False)])"

definition failed_turn :: "chat_world \<Rightarrow> str \<Rightarrow> nat \<Rightarrow> str \<Rightarrow> conversation \<Rightarrow> conversation" where
  "failed_turn W phase turn reason c =
     (let cancelled = cw_cancelled W (After_Failure phase turn); state = (if cancelled then ''cancelled'' else ''failed'') in
      with_events [turn_event W phase turn ''failed'' state,
        Finish_Op (if cancelled then ''cancelled'' else ''deferred'') (if cancelled then ''user_cancelled'' else reason) state] c)"

definition same_model :: "chat_config \<Rightarrow> bool" where
  "same_model g \<longleftrightarrow> cg_judge_key g = cg_inspector_key g \<and> cg_judge_url g = cg_inspector_url g \<and> cg_judge_model g = cg_inspector_model g"

text \<open>What the inspector said last, or what the judge says: the phase, the message and whether it was cut.\<close>

definition verdict_message :: "chat_world \<Rightarrow> chat_config \<Rightarrow> json \<Rightarrow> json \<Rightarrow> conversation \<Rightarrow> (chat_end + str \<times> json \<times> bool) \<times> conversation" where
  "verdict_message W g data msg c =
     (if same_model g then (Inr (''Inspector'', msg, False), on_chat (spent ''Judge'' data) c)
      else (case prepare W ''judge'' None c of
          (True, c1) \<Rightarrow> (Inl (Said CONTEXT_CAP_EXCEEDED_RESPONSE), c1)
        | (False, c1) \<Rightarrow>
            (case post_with_adaptive_retry W ''Judge'' 1 (request_payload (cg_judge_model g) (cv_messages c1) None (cg_judge_tokens g)) c1 of
               (Interrupted e, c2) \<Rightarrow> (Inl e, c2)
             | (Gave_Up why, c2) \<Rightarrow> (Inl (Said why), failed_turn W ''Judge'' 1 ''judge_api_failure'' c2)
             | (Answered None, c2) \<Rightarrow> (Inl Raised, c2)
             | (Answered (Some verdict_data), c2) \<Rightarrow>
                 if \<not> is_obj verdict_data then (Inl Raised, on_chat (\<lambda>h. h\<lparr>ch_tokens := (ch_tokens h)\<lparr>tk_calls := tk_calls (ch_tokens h) + 1\<rparr>\<rparr>) c2)
                 else (let c3 = on_chat (spent ''Judge'' verdict_data \<circ> meter_usage ''Judge'' verdict_data) c2 in
                   case first_choice verdict_data of
                     None \<Rightarrow> (Inl Raised, c3)
                   | Some choice \<Rightarrow>
                       (let c4 = with_events [turn_event W ''Judge'' 1 ''complete'' (if is_cut choice then ''truncated'' else ''complete'')] c3 in
                        if \<not> is_obj (jget ''message'' choice) then (Inl Raised, c4)
                        else (Inr (''Judge'', jget ''message'' choice, is_cut choice), c4))))))"

definition NO_VERDICT :: str where
  "NO_VERDICT = WARNING @ ''No explicit verdict returned by Inspector/Judge; deferring to human operator.''"

definition cut_notice :: "str \<Rightarrow> int \<Rightarrow> str" where
  "cut_notice phase limit = WARNING @ ''[MAX_TOKENS_REACHED] '' @ phase @ '' completion reached its '' @ show_int limit @ ''-token ceiling''"

definition no_call_notice :: "str \<Rightarrow> str" where
  "no_call_notice phase = WARNING @ ''[MODEL_NO_TOOL_CALL] '' @ phase @ '' supplied advisory text but did not execute an approval or rejection. ''
     @ ''The escalation remains pending.'' @ [nl, nl]"

text \<open>The text that the user gets when the answer has no call.\<close>

definition conclude :: "chat_world \<Rightarrow> chat_config \<Rightarrow> bool \<Rightarrow> escalation option \<Rightarrow> str \<Rightarrow> str \<times> json \<times> bool \<Rightarrow> conversation \<Rightarrow> chat_end \<times> conversation" where
  "conclude W g allow active user verdict c =
     (case verdict of (phase, msg, shortened) \<Rightarrow>
        (let content = jget ''content'' msg in
         case (if \<not> truthy content then Some [] else case content of JStr t \<Rightarrow> Some (clean_llm_response t) | _ \<Rightarrow> None) of
           None \<Rightarrow> (Raised, c)
         | Some cleaned \<Rightarrow>
             (let t0 = (if cleaned = [] then NO_VERDICT else cleaned);
                  t1 = (if shortened then cut_notice ''Judge'' (cg_judge_tokens g) @ ''; the text below is incomplete and the escalation remains pending.'' @ [nl, nl] @ t0 else t0);
                  c1 = (case active of Some e \<Rightarrow> if allow then c\<lparr>cv_state := record_model_no_tool_call (cw_guard W) (cw_now W) e phase (cv_state c)\<rparr> else c | None \<Rightarrow> c);
                  t2 = (if allow \<and> active \<noteq> None then no_call_notice phase @ t1 else t1);
                  c2 = said_log ''assistant'' (JStr t2) JNull c1;
                  c3 = on_chat (\<lambda>h. h\<lparr>ch_history := ch_history h @ [JObj [(''role'', JStr ''user''), (''content'', JStr user)],
                         JObj [(''role'', JStr ''assistant''), (''content'', JStr t2)]]\<rparr>) c2
              in (Said t2, with_events [Finish_Op ''deferred'' ''model_no_tool_call'' (if shortened then ''truncated'' else ''complete'')] c3))))"

text \<open>A turn of the inspector; \<open>None\<close>: calls were executed and the conversation goes on.\<close>

definition read_turn :: "chat_world \<Rightarrow> chat_config \<Rightarrow> bool \<Rightarrow> escalation option \<Rightarrow> str \<Rightarrow> nat \<Rightarrow> json \<Rightarrow> conversation \<Rightarrow> chat_end option \<times> conversation" where
  "read_turn W g allow active user turn data c =
     (case first_choice data of
        None \<Rightarrow> (Some Raised, c)
      | Some choice \<Rightarrow>
          (let c1 = with_events [turn_event W ''Inspector'' turn ''complete'' (if is_cut choice then ''truncated'' else ''complete'')] c;
               c2 = on_chat (spent ''Inspector'' data) c1;
               msg = jget ''message'' choice; calls = jget ''tool_calls'' msg in
           if is_cut choice then
             (let notice = cut_notice ''Inspector'' (cg_inspector_tokens g)
                    @ ''. Any partial tool calls were discarded; the escalation remains pending for human review.''
              in (Some (Said notice), with_events [Finish_Op ''deferred'' ''inspector_truncated'' ''truncated''] (said_log ''assistant'' (JStr notice) JNull c2)))
           else if \<not> is_obj msg then (Some Raised, c1)
           else if \<not> truthy calls then
             (case verdict_message W g data msg c2 of
                (Inl e, c3) \<Rightarrow> (Some e, c3)
              | (Inr v, c3) \<Rightarrow> (case conclude W g allow active user v c3 of (e, c4) \<Rightarrow> (Some e, c4)))
           else (let c3 = said_log ''assistant'' (arg_or ''content'' (JStr []) msg) calls (c2\<lparr>cv_messages := cv_messages c2 @ [msg]\<rparr>) in
             case calls of JArr ds \<Rightarrow> run_calls W turn 0 ds c3 | _ \<Rightarrow> (Some Raised, c3))))"

definition inspector_turn :: "chat_world \<Rightarrow> chat_config \<Rightarrow> bool \<Rightarrow> escalation option \<Rightarrow> str \<Rightarrow> nat \<Rightarrow> conversation \<Rightarrow> chat_end option \<times> conversation" where
  "inspector_turn W g allow active user turn c =
     (if cw_cancelled W (Turn_Start turn) then
        (Some (Said (STOPPED @ ''LLM investigation aborted by user.'')), with_events [Finish_Op ''cancelled'' ''user_cancelled'' ''cancelled''] c)
      else (case prepare W ''inspector'' (Some (tools_for allow)) c of
          (True, c1) \<Rightarrow> (Some (Said CONTEXT_CAP_EXCEEDED_RESPONSE), c1)
        | (False, c1) \<Rightarrow>
            (case post_with_adaptive_retry W ''Inspector'' turn
                (request_payload (cg_inspector_model g) (cv_messages c1) (Some (tools_for allow)) (cg_inspector_tokens g)) c1 of
               (Interrupted e, c2) \<Rightarrow> (Some e, c2)
             | (Gave_Up why, c2) \<Rightarrow> (Some (Said why), failed_turn W ''Inspector'' turn ''inspector_api_failure'' c2)
             | (Answered None, c2) \<Rightarrow> (Some Raised, c2)
             | (Answered (Some data), c2) \<Rightarrow>
                 if \<not> is_obj data then (Some Raised, on_chat (\<lambda>h. h\<lparr>ch_tokens := (ch_tokens h)\<lparr>tk_calls := tk_calls (ch_tokens h) + 1\<rparr>\<rparr>) c2)
                 else read_turn W g allow active user turn data (on_chat (meter_usage ''Inspector'' data) c2))))"

fun turns :: "chat_world \<Rightarrow> chat_config \<Rightarrow> bool \<Rightarrow> escalation option \<Rightarrow> str \<Rightarrow> nat \<Rightarrow> nat \<Rightarrow> conversation \<Rightarrow> chat_end \<times> conversation" where
  "turns W g allow active user turn 0 c =
     (Said ''Investigation and execution completed.'', with_events [Finish_Op ''deferred'' ''inspector_turn_limit'' ''complete''] c)"
| "turns W g allow active user turn (Suc left) c =
     (case inspector_turn W g allow active user turn c of
        (Some e, c') \<Rightarrow> (e, c')
      | (None, c') \<Rightarrow> turns W g allow active user (Suc turn) left c')"

text \<open>An exception ends the timeline on its way out.\<close>

definition closed_by :: "chat_end \<Rightarrow> tl_op list" where
  "closed_by e =
     (case e of
        Said t \<Rightarrow> []
      | Task_Ended \<Rightarrow> [Finish_Op ''cancelled'' ''user_cancelled'' ''cancelled'']
      | Raised \<Rightarrow> [Finish_Op ''deferred'' ''internal_error'' ''failed''])"

definition MAX_TURNS :: nat where
  "MAX_TURNS = 4"

definition opened :: "chat_world \<Rightarrow> bool \<Rightarrow> escalation option \<Rightarrow> str \<Rightarrow> chat \<Rightarrow> guard_state \<Rightarrow> conversation" where
  "opened W allow active user h s =
     (let i = map_option es_id active;
          h1 = (if i \<noteq> ch_current h then h\<lparr>ch_current := i, ch_history := []\<rparr> else h);
          h2 = h1\<lparr>ch_log := ch_log h1 @ [(''user'', JStr user, JNull)]\<rparr>;
          block = build_escalation_context_block active s;
          asked = (if block \<noteq> [] then block @ [nl, nl] @ user else user)
      in \<lparr>cv_chat = h2, cv_state = s,
          cv_messages = JObj [(''role'', JStr ''system''), (''content'', JStr (build_system_prompt (cw_language W) allow (active \<noteq> None)))]
            # ch_history h2 @ [JObj [(''role'', JStr ''user''), (''content'', JStr asked)]],
          cv_posts = [], cv_executed = [], cv_acts = [], cv_timeline = []\<rparr>)"

text \<open>Without an escalation there is no timeline.\<close>

definition send_message :: "chat_world \<Rightarrow> chat_config \<Rightarrow> bool \<Rightarrow> str \<Rightarrow> chat \<Rightarrow> guard_state \<Rightarrow> chat_end \<times> conversation" where
  "send_message W g allow user h s =
     (let active = get_current_command_escalation s in
      if cg_inspector_key g = [] then
        (Said (WARNING @ ''No API key found. Set OPENAI_API_KEY or SCHENGEN_INSPECTOR_API_KEY.''),
         \<lparr>cv_chat = h, cv_state = s, cv_messages = [], cv_posts = [], cv_executed = [], cv_acts = [], cv_timeline = []\<rparr>)
      else (case turns W g allow active user 1 MAX_TURNS (opened W allow active user h s) of
          (e, c) \<Rightarrow> (e, c\<lparr>cv_timeline := (if active = None then [] else cv_timeline c @ closed_by e)\<rparr>)))"


subsection \<open>Requests are bounded\<close>

definition tried :: "str \<Rightarrow> nat \<Rightarrow> nat \<Rightarrow> nat \<Rightarrow> (str \<times> nat \<times> nat) list" where
  "tried phase turn n k = map (\<lambda>i. (phase, turn, i)) [n..<n + k]"

lemma tried_simps [simp]: "tried phase turn n 0 = []" "tried phase turn n (Suc k) = (phase, turn, n) # tried phase turn (Suc n) k"
  by (simp_all add: tried_def upt_conv_Cons)

lemma attempt_facts:
  assumes "http_attempt W phase turn payload n is_last = ((r, delay), ps, es)"
  shows "(ps = [] \<or> ps = [(phase, turn, n)]) \<and> (r = None \<longrightarrow> ps = [(phase, turn, n)] \<and> \<not> is_last)
    \<and> (\<forall>data. r = Some (Answered (Some data)) \<longrightarrow> ps = [(phase, turn, n)] \<and> cw_http W phase turn n payload = Good (Some data))
    \<and> (\<forall>t. r \<noteq> Some (Interrupted (Said t)))"
  using assms by (auto simp: http_attempt_def Let_def split: if_splits chat_answer.splits)

lemma attempts_facts:
  "attempts W phase turn payload n left = (r, ps, es) \<Longrightarrow>
     (\<exists>k \<le> Suc left. ps = tried phase turn n k)
     \<and> (\<forall>data. r = Answered (Some data) \<longrightarrow> (\<exists>m. (phase, turn, m) \<in> set ps \<and> cw_http W phase turn m payload = Good (Some data)))
     \<and> (\<forall>t. r \<noteq> Interrupted (Said t))"
proof (induction left arbitrary: n r ps es)
  case 0
  obtain a delay qs fs where a: "http_attempt W phase turn payload n True = ((a, delay), qs, fs)" by (metis prod.collapse)
  note f = attempt_facts [OF a]
  from 0 a f obtain b where b: "a = Some b" "r = b" "ps = qs" by (cases a) auto
  have "\<exists>k \<le> Suc 0. ps = tried phase turn n k"
    using f b by (elim conjE disjE) (auto intro: exI [of _ 0] exI [of _ "Suc 0"])
  with f b show ?case by auto
next
  case (Suc left)
  obtain a delay qs fs where a: "http_attempt W phase turn payload n False = ((a, delay), qs, fs)" by (metis prod.collapse)
  note f = attempt_facts [OF a]
  show ?case
  proof (cases a)
    case None
    obtain r' ps' es' where rec: "attempts W phase turn payload (Suc n) left = (r', ps', es')" by (metis prod_cases3)
    have e: "r = r'" "ps = (phase, turn, n) # ps'" using Suc.prems a None f rec by auto
    from Suc.IH [OF rec] obtain k where k: "k \<le> Suc left" "ps' = tried phase turn (Suc n) k" by blast
    then have "\<exists>k \<le> Suc (Suc left). ps = tried phase turn n k" using e by (intro exI [of _ "Suc k"]) simp
    with Suc.IH [OF rec] e show ?thesis by auto
  next
    case (Some b)
    then have e: "r = b" "ps = qs" using Suc.prems a by auto
    have "\<exists>k \<le> Suc (Suc left). ps = tried phase turn n k"
      using f e by (elim conjE disjE) (auto intro: exI [of _ 0] exI [of _ "Suc 0"])
    with f e Some show ?thesis by auto
  qed
qed

lemma conversation_simps [simp]:
  "cv_state (with_events es c) = cv_state c" "cv_executed (with_events es c) = cv_executed c" "cv_posts (with_events es c) = cv_posts c"
  "cv_timeline (with_events es c) = cv_timeline c @ es"
  "cv_state (on_chat f c) = cv_state c" "cv_executed (on_chat f c) = cv_executed c" "cv_posts (on_chat f c) = cv_posts c"
  "cv_timeline (on_chat f c) = cv_timeline c"
  "cv_state (said_log role content calls c) = cv_state c" "cv_executed (said_log role content calls c) = cv_executed c"
  "cv_posts (said_log role content calls c) = cv_posts c" "cv_timeline (said_log role content calls c) = cv_timeline c"
  by (simp_all add: with_events_def on_chat_def said_log_def)

definition same_queue :: "conversation \<Rightarrow> conversation \<Rightarrow> bool" where
  "same_queue c c' \<longleftrightarrow> cv_state c' = cv_state c \<and> cv_executed c' = cv_executed c"

definition ends_timeline :: "conversation \<Rightarrow> bool" where
  "ends_timeline c \<longleftrightarrow> (\<exists>ops outcome reason state. cv_timeline c = ops @ [Finish_Op outcome reason state])"

lemma ends_timelineI [intro]: "cv_timeline c = ops @ [Finish_Op outcome reason state] \<Longrightarrow> ends_timeline c"
  by (auto simp: ends_timeline_def)

lemma ends_with_events [simp]: "ends_timeline (with_events [Finish_Op outcome reason state] c)"
  by (auto simp: ends_timeline_def with_events_def)

lemma post_facts:
  assumes "post_with_adaptive_retry W phase turn payload c = (r, c')"
  shows "same_queue c c' \<and> (\<exists>k \<le> 10. cv_posts c' = cv_posts c @ tried phase turn 1 k)
    \<and> (\<forall>data. r = Answered (Some data) \<longrightarrow> (\<exists>m. (phase, turn, m) \<in> set (cv_posts c') \<and> cw_http W phase turn m payload = Good (Some data)))
    \<and> (\<forall>t. r \<noteq> Interrupted (Said t))"
proof -
  obtain r' ps es where a: "attempts W phase turn payload 1 (MAX_ATTEMPTS - 1) = (r', ps, es)" by (metis prod_cases3)
  with assms have c: "r = r'" "c' = c\<lparr>cv_posts := cv_posts c @ ps, cv_timeline := cv_timeline c @ es\<rparr>"
    by (simp_all add: post_with_adaptive_retry_def)
  from attempts_facts [OF a] c show ?thesis by (auto simp: same_queue_def MAX_ATTEMPTS_def)
qed

lemma prepare_facts:
  assumes "prepare W phase tools c = (deferred, c')"
  shows "same_queue c c' \<and> cv_posts c' = cv_posts c \<and> (deferred \<longrightarrow> ends_timeline c')"
  using assms by (auto simp: prepare_def same_queue_def Let_def split: if_splits)


text \<open>What a text that ends the conversation leaves behind.\<close>

definition ended :: "chat_end \<Rightarrow> conversation \<Rightarrow> bool" where
  "ended e c \<longleftrightarrow> (case e of Said t \<Rightarrow> ends_timeline c | _ \<Rightarrow> True)"

lemma ended_simps [simp]: "ended Raised c" "ended Task_Ended c" "ended (Said t) c \<longleftrightarrow> ends_timeline c"
  by (simp_all add: ended_def)

lemma failed_turn_facts: "same_queue c (failed_turn W phase turn reason c) \<and> cv_posts (failed_turn W phase turn reason c) = cv_posts c
    \<and> ends_timeline (failed_turn W phase turn reason c)"
  by (auto simp: failed_turn_def same_queue_def Let_def ends_timeline_def)

lemma verdict_facts:
  assumes "verdict_message W g data msg c = (v, c')"
  shows "same_queue c c' \<and> (\<exists>k \<le> 10. cv_posts c' = cv_posts c @ tried ''Judge'' 1 1 k) \<and> (\<forall>e. v = Inl e \<longrightarrow> ended e c')"
proof (cases "same_model g")
  case True
  with assms show ?thesis by (auto simp: verdict_message_def same_queue_def intro: exI [of _ 0])
next
  case False
  obtain d c1 where p: "prepare W ''judge'' None c = (d, c1)" by (metis prod.collapse)
  note pf = prepare_facts [OF p]
  show ?thesis
  proof (cases d)
    case True
    with assms False p pf show ?thesis by (auto simp: verdict_message_def intro: exI [of _ 0])
  next
    case go: False
    obtain r c2 where q: "post_with_adaptive_retry W ''Judge'' 1 (request_payload (cg_judge_model g) (cv_messages c1) None (cg_judge_tokens g)) c1 = (r, c2)"
      by (metis prod.collapse)
    note qf = post_facts [OF q]
    have base: "same_queue c c2" "\<exists>k \<le> 10. cv_posts c2 = cv_posts c @ tried ''Judge'' 1 1 k" using pf qf go by (auto simp: same_queue_def)
    have "same_queue c2 c' \<and> cv_posts c' = cv_posts c2 \<and> (\<forall>e. v = Inl e \<longrightarrow> ended e c')"
    proof (cases r)
      case (Answered b)
      then show ?thesis
      proof (cases b)
        case (Some vd)
        with Answered assms False p go q show ?thesis
          by (cases "first_choice vd") (auto simp: verdict_message_def same_queue_def Let_def split: if_splits)
      qed (use Answered assms False p go q in \<open>auto simp: verdict_message_def same_queue_def\<close>)
    next
      case (Gave_Up why)
      with assms False p go q failed_turn_facts [of c2 W "''Judge''" 1 "''judge_api_failure''"] show ?thesis
        by (auto simp: verdict_message_def)
    next
      case (Interrupted e)
      with assms False p go q qf show ?thesis by (cases e) (auto simp: verdict_message_def same_queue_def)
    qed
    with base show ?thesis by (auto simp: same_queue_def)
  qed
qed

lemma no_call_entry:
  "adjudications (record_model_no_tool_call w now e phase s) = adjudications s"
  "escalations (record_model_no_tool_call w now e phase s) = escalations s"
  "esc_seq (record_model_no_tool_call w now e phase s) = esc_seq s"
  by (simp_all add: record_model_no_tool_call_def log_entry_def)

lemma conclude_facts:
  assumes "conclude W g allow active user v c = (e, c')"
  shows "adjudications (cv_state c') = adjudications (cv_state c) \<and> escalations (cv_state c') = escalations (cv_state c)
    \<and> esc_seq (cv_state c') = esc_seq (cv_state c) \<and> cv_executed c' = cv_executed c \<and> cv_posts c' = cv_posts c \<and> ended e c'"
proof -
  obtain phase msg shortened where v: "v = (phase, msg, shortened)" by (cases v)
  show ?thesis
  proof (cases "(if \<not> truthy (jget ''content'' msg) then Some [] else case jget ''content'' msg of JStr t \<Rightarrow> Some (clean_llm_response t) | _ \<Rightarrow> None)")
    case None
    with assms v show ?thesis by (simp add: conclude_def Let_def)
  next
    case (Some t)
    with assms v show ?thesis
      by (cases active) (auto simp: conclude_def Let_def no_call_entry intro!: ends_timelineI)
  qed
qed

subsection \<open>Calls\<close>

text \<open>The adjudication that a call of an adjudicating tool makes after a confirmed delivery.\<close>

definition made_by :: "chat_world \<Rightarrow> nat \<times> nat \<times> json \<Rightarrow> adjudication \<Rightarrow> bool" where
  "made_by W x a \<longleftrightarrow>
     (case x of (turn, k, d) \<Rightarrow> \<exists>n fb e. call_name d = Some (JStr n) \<and> n \<in> set ADJUDICATING \<and> confirmed (cw_gate W turn k) n fb e
        \<and> tool_feedback n (call_args d) = Some fb \<and> ad_escalation a = es_id e \<and> ad_approver a = approver_of (call_args d)
        \<and> ad_action a = (if n = ''approve_escalation'' then ''APPROVE'' else ''REJECT''))"

lemma tool_call_keeps_numbers:
  assumes "numbered s" and "r = execute_tool_call info G name args s"
  shows "numbered (tr_state r)"
proof -
  consider "name = ''approve_escalation''" "is_obj args" | "name = ''reject_escalation''" "is_obj args" | "tr_state r = s"
    using assms(2) by (auto simp: execute_tool_call_def only_reply_def split: if_splits)
  then show ?thesis
  proof cases
    case 1
    with assms(2) have "r = approve_tool G args s" by (simp add: execute_tool_call_def)
    with approve_tool_effect [OF assms(1), of G args] assms(1) show ?thesis by (auto simp: only_reply_def)
  next
    case 2
    with assms(2) have "r = reject_tool G args s" by (simp add: execute_tool_call_def)
    with reject_tool_effect [OF assms(1), of G args] assms(1) show ?thesis by (auto simp: only_reply_def)
  qed (simp add: assms(1))
qed

lemma call_adjudications:
  assumes "numbered s" and "call_name d = Some name" and "r = call_run W (cw_gate W turn k) name (call_args d) s"
  shows "numbered (tr_state r) \<and> (\<exists>new. adjudications (tr_state r) = adjudications s @ new \<and> (\<forall>a \<in> set new. made_by W (turn, k, d) a))"
proof (cases "\<exists>n. name = JStr n")
  case False
  then have "tr_state r = s" using assms(3) by (cases name) (simp_all add: call_run_def only_reply_def)
  with assms(1) show ?thesis by simp
next
  case True
  then obtain n where n: "name = JStr n" by blast
  let ?G = "cw_gate W turn k" and ?args = "call_args d"
  have r: "r = execute_tool_call (cw_info W) ?G n ?args s" using assms(3) n by (simp add: call_run_def)
  have num: "numbered (tr_state r)" by (rule tool_call_keeps_numbers [OF assms(1) r])
  from tool_call_effect [OF assms(1) r] show ?thesis
  proof (elim disjE exE conjE)
    assume "tr_state r = s"
    with num show ?thesis by simp
  next
    fix e fb
    assume fb: "tool_feedback n ?args = Some fb" and a: "adjudications (tr_state r) = adjudications_after ?G n ?args fb e s"
    show ?thesis
    proof (cases "confirmed ?G n fb e")
      case False
      with a num show ?thesis by (simp add: adjudications_after_def)
    next
      case True
      then have "n \<in> set ADJUDICATING" by (auto simp: confirmed_def ADJUDICATING_def split: if_splits)
      with True fb assms(2) n have "made_by W (turn, k, d) (entry_for (gt_now ?G) (adjudicated (es_id e) (pane_of e)
             (if n = ''approve_escalation'' then rq_agent (es_request e) else [])
             (if n = ''approve_escalation'' then ''APPROVE'' else ''REJECT'') fb (approver_of ?args) (note_of ?args fb)) (adj_seq s))"
        by (auto simp: made_by_def entry_for_def adjudicated_def)
      with a True num show ?thesis by (simp add: adjudications_after_def)
    qed
  qed
qed

text \<open>Every adjudication since \<open>s\<close> was made by an executed call.\<close>

definition accounted :: "chat_world \<Rightarrow> guard_state \<Rightarrow> conversation \<Rightarrow> bool" where
  "accounted W s c \<longleftrightarrow> numbered (cv_state c)
     \<and> (\<exists>new. adjudications (cv_state c) = adjudications s @ new \<and> (\<forall>a \<in> set new. \<exists>x \<in> set (cv_executed c). made_by W x a))"

lemma accounted_step:
  assumes "accounted W s c" and "numbered (cv_state c')" and "set (cv_executed c) \<union> xs \<subseteq> set (cv_executed c')"
    and "adjudications (cv_state c') = adjudications (cv_state c) @ new" and "\<forall>a \<in> set new. \<exists>x \<in> xs. made_by W x a"
  shows "accounted W s c'"
proof -
  obtain old where old: "adjudications (cv_state c) = adjudications s @ old" "\<forall>a \<in> set old. \<exists>x \<in> set (cv_executed c). made_by W x a"
    using assms(1) by (auto simp: accounted_def)
  have "\<forall>a \<in> set (old @ new). \<exists>x \<in> set (cv_executed c'). made_by W x a" using old(2) assms(3,5) by fastforce
  moreover have "adjudications (cv_state c') = adjudications s @ (old @ new)" using old(1) assms(4) by simp
  ultimately show ?thesis using assms(2) unfolding accounted_def by blast
qed

lemma same_queue_accounted: "same_queue c c' \<Longrightarrow> accounted W s c \<Longrightarrow> accounted W s c'"
  by (simp add: accounted_def same_queue_def)

lemma run_call_facts:
  assumes "run_call W turn k d c = (e, c')"
  shows "(\<forall>t. e \<noteq> Some (Said t)) \<and> cv_posts c' = cv_posts c \<and> (cv_executed c' = cv_executed c \<or> cv_executed c' = cv_executed c @ [(turn, k, d)])
    \<and> (accounted W s c \<longrightarrow> accounted W s c')"
proof (cases "call_name d")
  case None
  with assms show ?thesis by (auto simp: run_call_def)
next
  case (Some name)
  let ?r = "call_run W (cw_gate W turn k) name (call_args d) (cv_state c)"
  show ?thesis
  proof (cases "announced W name (call_args d)")
    case False
    with assms Some show ?thesis by (auto simp: run_call_def Let_def)
  next
    case True
    have parts: "(\<forall>t. e \<noteq> Some (Said t)) \<and> cv_posts c' = cv_posts c \<and> cv_executed c' = cv_executed c @ [(turn, k, d)] \<and> cv_state c' = tr_state ?r"
      using assms Some True by (cases "tr_reply ?r") (auto simp: run_call_def Let_def split: if_splits)
    have "accounted W s c'" if a: "accounted W s c"
    proof -
      have num: "numbered (cv_state c)" using a by (simp add: accounted_def)
      obtain new where new: "numbered (tr_state ?r)" "adjudications (tr_state ?r) = adjudications (cv_state c) @ new"
          "\<forall>x \<in> set new. made_by W (turn, k, d) x"
        using call_adjudications [OF num Some refl, of W turn k] by blast
      show ?thesis by (rule accounted_step [OF a, of c' "{(turn, k, d)}" new]) (use parts new in auto)
    qed
    with parts show ?thesis by blast
  qed
qed

lemma run_calls_facts:
  "run_calls W turn k ds c = (e, c') \<Longrightarrow>
     (\<forall>t. e \<noteq> Some (Said t)) \<and> cv_posts c' = cv_posts c \<and> (accounted W s c \<longrightarrow> accounted W s c')
     \<and> (\<forall>x \<in> set (cv_executed c'). x \<in> set (cv_executed c) \<or> (\<exists>i < length ds. x = (turn, k + i, ds ! i)))"
proof (induction ds arbitrary: k c)
  case (Cons d ds)
  obtain e1 c1 where one: "run_call W turn k d c = (e1, c1)" by (metis prod.collapse)
  note f = run_call_facts [OF one, of s]
  have "set (cv_executed c1) \<subseteq> insert (turn, k, d) (set (cv_executed c))"
    using f by (elim conjE disjE) auto
  moreover have "\<exists>i < length (d # ds). (turn, k, d) = (turn, k + i, (d # ds) ! i)" by (intro exI [of _ 0]) simp
  ultimately have here: "\<forall>x \<in> set (cv_executed c1). x \<in> set (cv_executed c) \<or> (\<exists>i < length (d # ds). x = (turn, k + i, (d # ds) ! i))"
    by blast
  show ?case
  proof (cases e1)
    case (Some x)
    with Cons.prems one f here show ?thesis by auto
  next
    case None
    with Cons.prems one have rest: "run_calls W turn (Suc k) ds c1 = (e, c')" by simp
    have "\<exists>i < length (d # ds). x = (turn, k + i, (d # ds) ! i)" if "i < length ds" "x = (turn, Suc k + i, ds ! i)" for x i
      using that by (intro exI [of _ "Suc i"]) simp
    with Cons.IH [OF rest] f here show ?thesis by (metis (no_types, lifting))
  qed
qed simp


subsection \<open>Turns and the whole conversation\<close>

text \<open>A call that was executed is one of an answer of the inspector that was not cut.\<close>

definition was_asked :: "chat_world \<Rightarrow> (str \<times> nat \<times> nat) list \<Rightarrow> nat \<times> nat \<times> json \<Rightarrow> bool" where
  "was_asked W posts x \<longleftrightarrow>
     (case x of (turn, k, d) \<Rightarrow> \<exists>n payload data choice ds. (''Inspector'', turn, n) \<in> set posts
        \<and> cw_http W ''Inspector'' turn n payload = Good (Some data) \<and> first_choice data = Some choice \<and> \<not> is_cut choice
        \<and> jget ''tool_calls'' (jget ''message'' choice) = JArr ds \<and> k < length ds \<and> ds ! k = d)"

lemma was_asked_later: "was_asked W posts x \<Longrightarrow> set posts \<subseteq> set posts' \<Longrightarrow> was_asked W posts' x"
  unfolding was_asked_def by (auto split: prod.splits) blast

lemma read_turn_facts:
  assumes "read_turn W g allow active user turn data c = (e, c')"
    and "(''Inspector'', turn, n) \<in> set (cv_posts c)" and "cw_http W ''Inspector'' turn n payload = Good (Some data)"
  shows "(\<forall>x. e = Some x \<longrightarrow> ended x c') \<and> (accounted W s c \<longrightarrow> accounted W s c')
    \<and> (\<exists>j \<le> 10. cv_posts c' = cv_posts c @ tried ''Judge'' 1 1 j \<and> (e = None \<longrightarrow> j = 0))
    \<and> (\<forall>x \<in> set (cv_executed c'). x \<in> set (cv_executed c) \<or> was_asked W (cv_posts c) x)"
proof (cases "first_choice data")
  case None
  with assms(1) show ?thesis by (auto simp: read_turn_def intro: exI [of _ 0])
next
  case (Some choice)
  let ?c1 = "with_events [turn_event W ''Inspector'' turn ''complete'' (if is_cut choice then ''truncated'' else ''complete'')] c"
  let ?c2 = "on_chat (spent ''Inspector'' data) ?c1" and ?msg = "jget ''message'' choice"
  let ?calls = "jget ''tool_calls'' ?msg"
  have acc: "accounted W s c \<Longrightarrow> accounted W s ?c2" by (rule same_queue_accounted [of c]) (simp add: same_queue_def)
  show ?thesis
  proof (cases "is_cut choice \<or> \<not> is_obj ?msg")
    case True
    with assms(1) Some have "(\<forall>x. e = Some x \<longrightarrow> ended x c') \<and> same_queue c c' \<and> cv_posts c' = cv_posts c"
      by (auto simp: read_turn_def Let_def same_queue_def split: if_splits)
    then show ?thesis by (auto simp: same_queue_def accounted_def intro: exI [of _ 0])
  next
    case go: False
    show ?thesis
    proof (cases "truthy ?calls")
      case False
      obtain v c3 where v: "verdict_message W g data ?msg ?c2 = (v, c3)" by (metis prod.collapse)
      note vf = verdict_facts [OF v]
      have acc3: "accounted W s c \<Longrightarrow> accounted W s c3" using vf acc same_queue_accounted by blast
      show ?thesis
      proof (cases v)
        case (Inl x)
        with assms(1) Some go False v have "e = Some x" "c' = c3" by (simp_all add: read_turn_def Let_def)
        with vf acc3 Inl show ?thesis by (auto simp: same_queue_def)
      next
        case (Inr m)
        obtain x c4 where x: "conclude W g allow active user m c3 = (x, c4)" by (metis prod.collapse)
        note xf = conclude_facts [OF x]
        from assms(1) Some go False v Inr x have ec: "e = Some x" "c' = c4" by (simp_all add: read_turn_def Let_def)
        have "accounted W s c4" if "accounted W s c3"
          using that xf numbered_ext [of "cv_state c4" "cv_state c3"] by (auto simp: accounted_def)
        with ec vf xf acc3 show ?thesis by (auto simp: same_queue_def)
      qed
    next
      case True
      let ?c3 = "said_log ''assistant'' (arg_or ''content'' (JStr []) ?msg) ?calls (?c2\<lparr>cv_messages := cv_messages ?c2 @ [?msg]\<rparr>)"
      have acc3: "accounted W s c \<Longrightarrow> accounted W s ?c3" by (rule same_queue_accounted [of c]) (simp add: same_queue_def)
      show ?thesis
      proof (cases "\<exists>ds. ?calls = JArr ds")
        case False
        then have "e = Some Raised" "c' = ?c3" using assms(1) Some go True by (cases ?calls; simp add: read_turn_def Let_def)+
        then show ?thesis using acc3 by (auto intro: exI [of _ 0])
      next
        case isarr: True
        then obtain ds where ds: "?calls = JArr ds" by blast
        with assms(1) Some go True have run: "run_calls W turn 0 ds ?c3 = (e, c')" by (simp add: read_turn_def Let_def)
        note rf = run_calls_facts [OF run, of s]
        have "was_asked W (cv_posts c) (turn, 0 + i, ds ! i)" if "i < length ds" for i
          unfolding was_asked_def prod.case add_0 using that assms(2,3) Some go ds by blast
        with rf have "\<forall>x \<in> set (cv_executed c'). x \<in> set (cv_executed c) \<or> was_asked W (cv_posts c) x" by fastforce
        moreover have "\<forall>x. e = Some x \<longrightarrow> ended x c'" using rf by (auto simp: ended_def split: chat_end.splits)
        ultimately show ?thesis using rf acc3 by (auto intro: exI [of _ 0])
      qed
    qed
  qed
qed


lemma inspector_turn_facts:
  assumes "inspector_turn W g allow active user turn c = (e, c')"
  shows "(\<forall>x. e = Some x \<longrightarrow> ended x c') \<and> (accounted W s c \<longrightarrow> accounted W s c')
    \<and> (\<exists>k \<le> 10. \<exists>j \<le> 10. cv_posts c' = cv_posts c @ tried ''Inspector'' turn 1 k @ tried ''Judge'' 1 1 j \<and> (e = None \<longrightarrow> j = 0))
    \<and> (\<forall>x \<in> set (cv_executed c'). x \<in> set (cv_executed c) \<or> was_asked W (cv_posts c') x)"
proof (cases "cw_cancelled W (Turn_Start turn)")
  case True
  with assms have "e = Some (Said (STOPPED @ ''LLM investigation aborted by user.''))"
      "c' = with_events [Finish_Op ''cancelled'' ''user_cancelled'' ''cancelled''] c" by (simp_all add: inspector_turn_def)
  then show ?thesis by (auto simp: accounted_def intro!: exI [of _ "0::nat"])
next
  case on: False
  obtain d c1 where p: "prepare W ''inspector'' (Some (tools_for allow)) c = (d, c1)" by (metis prod.collapse)
  note pf = prepare_facts [OF p]
  have acc1: "accounted W s c \<Longrightarrow> accounted W s c1" using pf same_queue_accounted by blast
  show ?thesis
  proof (cases d)
    case True
    with assms on p have "e = Some (Said CONTEXT_CAP_EXCEEDED_RESPONSE)" "c' = c1" by (simp_all add: inspector_turn_def)
    with True pf acc1 show ?thesis by (auto simp: same_queue_def intro!: exI [of _ "0::nat"])
  next
    case go: False
    let ?pl = "request_payload (cg_inspector_model g) (cv_messages c1) (Some (tools_for allow)) (cg_inspector_tokens g)"
    obtain r c2 where q: "post_with_adaptive_retry W ''Inspector'' turn ?pl c1 = (r, c2)" by (metis prod.collapse)
    note qf = post_facts [OF q]
    have acc2: "accounted W s c \<Longrightarrow> accounted W s c2" using qf acc1 same_queue_accounted by blast
    obtain k where k: "k \<le> 10" "cv_posts c2 = cv_posts c @ tried ''Inspector'' turn 1 k" using pf qf by auto
    have x2: "cv_executed c2 = cv_executed c" using pf qf by (simp add: same_queue_def)
    have quiet: ?thesis if "e = Some x" "ended x c'" "same_queue c2 c'" "cv_posts c' = cv_posts c2" for x
    proof -
      have "accounted W s c \<Longrightarrow> accounted W s c'" using that acc2 same_queue_accounted by blast
      moreover have "\<exists>j \<le> 10. cv_posts c' = cv_posts c @ tried ''Inspector'' turn 1 k @ tried ''Judge'' 1 1 j \<and> (e = None \<longrightarrow> j = 0)"
        using that k by (intro exI [of _ 0]) simp
      moreover have "cv_executed c' = cv_executed c" using that x2 by (simp add: same_queue_def)
      ultimately show ?thesis using that k(1) by auto
    qed
    show ?thesis
    proof (cases r)
      case (Interrupted x)
      with assms on p go q have "e = Some x" "c' = c2" by (simp_all add: inspector_turn_def)
      moreover have "ended x c2" using qf Interrupted by (cases x) auto
      ultimately show ?thesis using quiet by (simp add: same_queue_def)
    next
      case (Gave_Up why)
      with assms on p go q have "e = Some (Said why)" "c' = failed_turn W ''Inspector'' turn ''inspector_api_failure'' c2"
        by (simp_all add: inspector_turn_def)
      then show ?thesis using quiet failed_turn_facts by simp
    next
      case (Answered b)
      show ?thesis
      proof (cases b)
        case None
        with Answered assms on p go q have "e = Some Raised" "c' = c2" by (simp_all add: inspector_turn_def)
        then show ?thesis using quiet by (simp add: same_queue_def)
      next
        case (Some data)
        show ?thesis
        proof (cases "is_obj data")
          case False
          with Some Answered assms on p go q have "e = Some Raised"
              "c' = on_chat (\<lambda>h. h\<lparr>ch_tokens := (ch_tokens h)\<lparr>tk_calls := tk_calls (ch_tokens h) + 1\<rparr>\<rparr>) c2" by (simp_all add: inspector_turn_def)
          then show ?thesis using quiet by (simp add: same_queue_def)
        next
          case True
          let ?c3 = "on_chat (meter_usage ''Inspector'' data) c2"
          from True Some Answered assms on p go q have rd: "read_turn W g allow active user turn data ?c3 = (e, c')" by (simp add: inspector_turn_def)
          obtain n where n: "(''Inspector'', turn, n) \<in> set (cv_posts c2)" "cw_http W ''Inspector'' turn n ?pl = Good (Some data)"
            using qf Answered Some by blast
          have n3: "(''Inspector'', turn, n) \<in> set (cv_posts ?c3)" using n(1) by simp
          note rf = read_turn_facts [OF rd n3 n(2), of s]
          have acc3: "accounted W s c \<Longrightarrow> accounted W s ?c3" using acc2 same_queue_accounted [of c2 ?c3] by (simp add: same_queue_def)
          obtain j where j: "j \<le> 10" "cv_posts c' = cv_posts c2 @ tried ''Judge'' 1 1 j" "e = None \<longrightarrow> j = 0" using rf by auto
          have "\<forall>x \<in> set (cv_executed c'). x \<in> set (cv_executed c2) \<or> was_asked W (cv_posts c2) x" using rf by simp
          then have asked: "\<forall>x \<in> set (cv_executed c'). x \<in> set (cv_executed c) \<or> was_asked W (cv_posts c') x"
            using x2 j(2) was_asked_later [of W "cv_posts c2" _ "cv_posts c'"] by auto
          have "cv_posts c' = cv_posts c @ tried ''Inspector'' turn 1 k @ tried ''Judge'' 1 1 j" using j(2) k(2) by simp
          moreover have "accounted W s c \<longrightarrow> accounted W s c'" using rf acc3 by blast
          ultimately show ?thesis using rf asked k(1) j by blast
        qed
      qed
    qed
  qed
qed


text \<open>The requests of a conversation from a turn on.\<close>

definition possible_posts :: "nat \<Rightarrow> nat \<Rightarrow> (str \<times> nat \<times> nat) set" where
  "possible_posts turn left = {''Inspector''} \<times> {turn..<turn + left} \<times> {1..10} \<union> {''Judge''} \<times> {1} \<times> {1..10}"

lemma tried_set: "k \<le> 10 \<Longrightarrow> set (tried phase turn 1 k) \<subseteq> {phase} \<times> {turn} \<times> {1..10}"
  by (auto simp: tried_def)

lemma tried_distinct: "distinct (tried phase turn n k)"
  by (simp add: tried_def distinct_map inj_on_def)

lemma turns_facts:
  "turns W g allow active user turn left c = (e, c') \<Longrightarrow>
     ended e c' \<and> (accounted W s c \<longrightarrow> accounted W s c')
     \<and> (\<exists>ps. cv_posts c' = cv_posts c @ ps \<and> distinct ps \<and> set ps \<subseteq> possible_posts turn left)
     \<and> (\<forall>x \<in> set (cv_executed c'). x \<in> set (cv_executed c) \<or> was_asked W (cv_posts c') x)"
proof (induction left arbitrary: turn c)
  case 0
  then have "c' = with_events [Finish_Op ''deferred'' ''inspector_turn_limit'' ''complete''] c" "e = Said ''Investigation and execution completed.''" by simp_all
  then show ?case by (simp add: accounted_def)
next
  case (Suc left)
  obtain e1 c1 where one: "inspector_turn W g allow active user turn c = (e1, c1)" by (metis prod.collapse)
  note f = inspector_turn_facts [OF one, of s]
  obtain k j where kj: "k \<le> 10" "j \<le> 10" "cv_posts c1 = cv_posts c @ tried ''Inspector'' turn 1 k @ tried ''Judge'' 1 1 j" "e1 = None \<Longrightarrow> j = 0"
    using f by blast
  have set1: "set (tried ''Inspector'' turn 1 k @ tried ''Judge'' 1 1 j) \<subseteq> possible_posts turn (Suc left)"
    using tried_set [OF kj(1), of "''Inspector''" turn] tried_set [OF kj(2), of "''Judge''" 1] by (fastforce simp: possible_posts_def)
  have d1: "distinct (tried ''Inspector'' turn 1 k @ tried ''Judge'' 1 1 j)"
    using tried_distinct tried_set [OF kj(1), of "''Inspector''" turn] tried_set [OF kj(2), of "''Judge''" 1] by fastforce
  show ?case
  proof (cases e1)
    case (Some x)
    with Suc.prems one have "e = x" "c' = c1" by simp_all
    with f kj set1 d1 Some show ?thesis by blast
  next
    case None
    with Suc.prems one have rest: "turns W g allow active user (Suc turn) left c1 = (e, c')" by simp
    note r = Suc.IH [OF rest]
    obtain ps where ps: "cv_posts c' = cv_posts c1 @ ps" "distinct ps" "set ps \<subseteq> possible_posts (Suc turn) left" using r by blast
    let ?ps = "tried ''Inspector'' turn 1 k @ ps"
    have all: "cv_posts c' = cv_posts c @ ?ps" using ps(1) kj(3) kj(4) [OF None] by simp
    have "set (tried ''Inspector'' turn 1 k) \<inter> possible_posts (Suc turn) left = {}"
      using tried_set [OF kj(1), of "''Inspector''" turn] by (fastforce simp: possible_posts_def)
    with ps have "distinct ?ps" using tried_distinct by auto
    moreover have "set ?ps \<subseteq> possible_posts turn (Suc left)"
    proof -
      have "possible_posts (Suc turn) left \<subseteq> possible_posts turn (Suc left)" by (auto simp: possible_posts_def)
      with ps(3) set1 show ?thesis by auto
    qed
    moreover have "\<forall>x \<in> set (cv_executed c'). x \<in> set (cv_executed c) \<or> was_asked W (cv_posts c') x"
      using r f was_asked_later [of W "cv_posts c1" _ "cv_posts c'"] ps(1) by auto
    ultimately show ?thesis using r f all by blast
  qed
qed

lemma send_message_turns:
  assumes "send_message W g allow user h s = (e, c)" and "cg_inspector_key g \<noteq> []"
  obtains c' where "turns W g allow (get_current_command_escalation s) user 1 MAX_TURNS (opened W allow (get_current_command_escalation s) user h s) = (e, c')"
    and "c = c'\<lparr>cv_timeline := (if get_current_command_escalation s = None then [] else cv_timeline c' @ closed_by e)\<rparr>"
proof -
  obtain x c' where t: "turns W g allow (get_current_command_escalation s) user 1 MAX_TURNS (opened W allow (get_current_command_escalation s) user h s) = (x, c')"
    by (metis prod.collapse)
  with assms show thesis by (intro that [of c']) (auto simp: send_message_def Let_def)
qed

lemma opened_simps [simp]: "cv_state (opened W allow active user h s) = s" "cv_posts (opened W allow active user h s) = []"
    "cv_executed (opened W allow active user h s) = []" "cv_timeline (opened W allow active user h s) = []"
  by (simp_all add: opened_def Let_def)

text \<open>
  Two consequences of the code as it is.  A call of a tool that was not offered is executed like
  any other: with calls in the answer, a turn does not depend on \<open>allow_adjudication\<close>.  And the
  text after a call says that the escalation remains pending, whatever the call did.
\<close>

lemma hidden_tools_still_run:
  assumes "first_choice data = Some choice" and "truthy (jget ''tool_calls'' (jget ''message'' choice))"
  shows "read_turn W g allow active user turn data c = read_turn W g (\<not> allow) active user turn data c"
  using assms by (simp add: read_turn_def Let_def)

lemma briefing_says_pending:
  assumes "conclude W g True (Some e) user (phase, msg, shortened) c = (Said t, c')"
  shows "\<exists>rest. t = no_call_notice phase @ rest"
  using assms by (auto simp: conclude_def Let_def split: if_splits option.splits json.splits)

text \<open>A conversation in which the first answer approves the head of the queue and the next one has no call.\<close>

definition approving_call :: json where
  "approving_call = JObj [(''id'', JStr ''c1''), (''function'', JObj [(''name'', JStr ''approve_escalation''),
     (''arguments'', JStr ''{\"escalation_id\": \"1\", \"directive\": true}'')])]"

definition answer_with :: "(str \<times> json) list \<Rightarrow> json" where
  "answer_with members = JObj [(''choices'', JArr [JObj [(''message'', JObj members)]])]"

definition chat_demo_world :: chat_world where
  "chat_demo_world = \<lparr>cw_http = (\<lambda>phase turn n payload. Good (Some (if turn = 1 \<and> phase = ''Inspector''
       then answer_with [(''tool_calls'', JArr [approving_call])] else answer_with [(''content'', JStr ''done'')]))),
     cw_cancelled = (\<lambda>_. False), cw_jitter = (\<lambda>_ _ _. 0), cw_times = (\<lambda>_ _ _ _. (0, 0)), cw_info = (\<lambda>_ _. None),
     cw_gate = (\<lambda>_ _. gate_demo), cw_context = context_demo, cw_guard = guard_demo, cw_now = 6, cw_language = ''en'',
     cw_announce = False, cw_error = []\<rparr>"

definition chat_demo_config :: chat_config where
  "chat_demo_config = \<lparr>cg_inspector_key = ''k'', cg_inspector_url = ''u'', cg_inspector_model = ''m'', cg_inspector_tokens = 1024,
     cg_judge_key = ''k'', cg_judge_url = ''u'', cg_judge_model = ''m'', cg_judge_tokens = 1024\<rparr>"

definition chat_demo :: chat where
  "chat_demo = \<lparr>ch_history = [], ch_current = None,
     ch_tokens = \<lparr>tk_calls = 0, tk_prompt = 0, tk_completion = 0, tk_cached = 0, tk_inspector_in = 0, tk_inspector_out = 0,
       tk_judge_in = 0, tk_judge_out = 0\<rparr>,
     ch_meter = meter_demo, ch_inspector = fresh_budget None, ch_judge = fresh_budget None, ch_log = []\<rparr>"

lemma approving_call_parts: "call_name approving_call = Some (JStr ''approve_escalation'')" "call_args approving_call = call_demo"
    "has_key ''id'' approving_call"
proof -
  have "json_loads ''{\"escalation_id\": \"1\", \"directive\": true}'' = Some call_demo" unfolding call_demo_def by code_simp
  then show "call_args approving_call = call_demo" by (simp add: call_args_def approving_call_def)
qed (simp_all add: call_name_def approving_call_def has_key_def)

lemma first_answer: "\<lbrakk>cw_http W phase turn n payload = Good b; \<And>p. \<not> cw_cancelled W p\<rbrakk> \<Longrightarrow>
    fst (attempts W phase turn payload n left) = Answered b"
  by (cases left) (simp_all add: http_attempt_def Let_def)

lemma post_result: "fst (post_with_adaptive_retry W phase turn payload c) = fst (attempts W phase turn payload 1 (MAX_ATTEMPTS - 1))"
  by (simp add: post_with_adaptive_retry_def case_prod_beta)

lemma unlimited_request: "cb_cap (ch_inspector (cv_chat c)) = 0 \<Longrightarrow> \<not> fst (prepare W ''inspector'' tools c)"
  by (simp add: prepare_def prepare_context_request_def Let_def split: prod.splits)

lemma demo_call_run:
  assumes "cv_state c = waiting_demo"
  shows "fst (run_call chat_demo_world 1 0 approving_call c) = None
    \<and> adjudications (cv_state (snd (run_call chat_demo_world 1 0 approving_call c))) \<noteq> []"
proof -
  have "execute_tool_call (\<lambda>_ _. None) gate_demo ''approve_escalation'' call_demo waiting_demo = approve_tool gate_demo call_demo waiting_demo"
    by (simp add: execute_tool_call_def call_demo_def)
  then have run: "call_run chat_demo_world gate_demo (JStr ''approve_escalation'') call_demo waiting_demo = approve_tool gate_demo call_demo waiting_demo"
    by (simp add: call_run_def chat_demo_world_def)
  have "adjudications (tr_state (approve_tool gate_demo call_demo waiting_demo)) \<noteq> []"
    unfolding approves_head_state [OF demo_approves waiting_demo_numbered] by (simp add: approval_ops_def disposition(2) demo_row)
  moreover have "announced chat_demo_world n args" "cw_gate chat_demo_world t k = gate_demo" for n args t k
    by (simp_all add: announced_def chat_demo_world_def)
  ultimately show ?thesis using demo_blind run assms by (simp add: run_call_def approving_call_parts Let_def)
qed

lemma demo_first_turn:
  assumes "cv_state c = waiting_demo" and "cb_cap (ch_inspector (cv_chat c)) = 0"
  shows "fst (inspector_turn chat_demo_world chat_demo_config True active user 1 c) = None
    \<and> adjudications (cv_state (snd (inspector_turn chat_demo_world chat_demo_config True active user 1 c))) \<noteq> []"
proof -
  let ?data = "answer_with [(''tool_calls'', JArr [approving_call])]"
  obtain c1 where p: "prepare chat_demo_world ''inspector'' (Some (tools_for True)) c = (False, c1)"
    using unlimited_request [OF assms(2), of chat_demo_world "Some (tools_for True)"] by (metis (full_types) prod.collapse)
  let ?pl = "request_payload (cg_inspector_model chat_demo_config) (cv_messages c1) (Some (tools_for True)) (cg_inspector_tokens chat_demo_config)"
  have "fst (attempts chat_demo_world ''Inspector'' 1 ?pl 1 (MAX_ATTEMPTS - 1)) = Answered (Some ?data)"
    by (rule first_answer) (simp_all add: chat_demo_world_def)
  then have "fst (post_with_adaptive_retry chat_demo_world ''Inspector'' 1 ?pl c1) = Answered (Some ?data)"
    unfolding post_result .
  then obtain c2 where q: "post_with_adaptive_retry chat_demo_world ''Inspector'' 1 ?pl c1 = (Answered (Some ?data), c2)" by (metis prod.collapse)
  have st: "cv_state c2 = waiting_demo" using prepare_facts [OF p] post_facts [OF q] assms(1) by (simp add: same_queue_def)
  have go: "\<not> cw_cancelled chat_demo_world p" for p by (simp add: chat_demo_world_def)
  have turn: "inspector_turn chat_demo_world chat_demo_config True active user 1 c
      = read_turn chat_demo_world chat_demo_config True active user 1 ?data (on_chat (meter_usage ''Inspector'' ?data) c2)"
    using go p q by (simp add: inspector_turn_def answer_with_def)
  obtain c3 where c3: "cv_state c3 = waiting_demo" "read_turn chat_demo_world chat_demo_config True active user 1 ?data (on_chat (meter_usage ''Inspector'' ?data) c2)
      = run_calls chat_demo_world 1 0 [approving_call] c3"
  proof
    let ?msg = "JObj [(''tool_calls'', JArr [approving_call])]"
    let ?c = "on_chat (spent ''Inspector'' ?data) (with_events [turn_event chat_demo_world ''Inspector'' 1 ''complete'' ''complete''] (on_chat (meter_usage ''Inspector'' ?data) c2))"
    let ?c3 = "said_log ''assistant'' (arg_or ''content'' (JStr []) ?msg) (JArr [approving_call]) (?c\<lparr>cv_messages := cv_messages ?c @ [?msg]\<rparr>)"
    show "cv_state ?c3 = waiting_demo" using st by simp
    have parts: "first_choice ?data = Some (JObj [(''message'', ?msg)])" "\<not> is_cut (JObj [(''message'', ?msg)])"
        "jget ''message'' (JObj [(''message'', ?msg)]) = ?msg" "jget ''tool_calls'' ?msg = JArr [approving_call]"
      by (simp_all add: first_choice_def answer_with_def is_cut_def)
    show "read_turn chat_demo_world chat_demo_config True active user 1 ?data (on_chat (meter_usage ''Inspector'' ?data) c2)
        = run_calls chat_demo_world 1 0 [approving_call] ?c3"
      unfolding read_turn_def parts option.case Let_def using parts(2) by simp
  qed
  show ?thesis unfolding turn c3(2) using demo_call_run [OF c3(1)]
    by (cases "run_call chat_demo_world 1 0 approving_call c3") simp
qed

definition demo_run :: "chat_end \<times> conversation" where
  "demo_run = send_message chat_demo_world chat_demo_config True ''triage'' chat_demo waiting_demo"

lemma demo_run_approves: "adjudications (cv_state (snd demo_run)) \<noteq> []"
proof -
  obtain e c where m: "send_message chat_demo_world chat_demo_config True ''triage'' chat_demo waiting_demo = (e, c)" by (metis prod.collapse)
  let ?o = "opened chat_demo_world True (get_current_command_escalation waiting_demo) ''triage'' chat_demo waiting_demo"
  obtain c' where t: "turns chat_demo_world chat_demo_config True (get_current_command_escalation waiting_demo) ''triage'' 1 MAX_TURNS ?o = (e, c')"
    and c: "c = c'\<lparr>cv_timeline := (if get_current_command_escalation waiting_demo = None then [] else cv_timeline c' @ closed_by e)\<rparr>"
    by (rule send_message_turns [OF m]) (simp add: chat_demo_config_def)
  obtain a c1 where one: "inspector_turn chat_demo_world chat_demo_config True (get_current_command_escalation waiting_demo) ''triage'' 1 ?o = (a, c1)"
    by (metis prod.collapse)
  have "cb_cap (ch_inspector (cv_chat ?o)) = 0"
    by (simp add: opened_def Let_def chat_demo_def fresh_budget_def context_window_config_def)
  from demo_first_turn [OF opened_simps(1) this, of "get_current_command_escalation waiting_demo" "''triage''"] one
  have first: "a = None" "adjudications (cv_state c1) \<noteq> []" by simp_all
  have "turns chat_demo_world chat_demo_config True (get_current_command_escalation waiting_demo) ''triage'' 2 3 c1 = (e, c')"
    using t one first(1) by (simp add: MAX_TURNS_def eval_nat_numeral)
  note rest = turns_facts [OF this, of "cv_state c1"]
  have "accounted chat_demo_world waiting_demo ?o" using waiting_demo_numbered by (simp add: accounted_def)
  with inspector_turn_facts [OF one, of waiting_demo] have "numbered (cv_state c1)" by (simp add: accounted_def)
  then have "accounted chat_demo_world (cv_state c1) c1" by (simp add: accounted_def)
  with rest first(2) have "adjudications (cv_state c') \<noteq> []" by (auto simp: accounted_def)
  with m c show ?thesis by (simp add: demo_run_def)
qed

text \<open>
  C15: A conversation is bounded.  Whatever the provider answers, one message of the user causes at
  most four turns of the inspector and one of the judge with ten attempts each, no attempt twice:
  at most fifty requests.
\<close>

theorem conversation_is_bounded:
  "set (cv_posts (snd (send_message W g allow user h s))) \<subseteq> {''Inspector''} \<times> {1..4} \<times> {1..10} \<union> {''Judge''} \<times> {1} \<times> {1..10}
   \<and> distinct (cv_posts (snd (send_message W g allow user h s))) \<and> length (cv_posts (snd (send_message W g allow user h s))) \<le> 50"
proof (cases "cg_inspector_key g = []")
  case True
  then show ?thesis by (simp add: send_message_def Let_def)
next
  case False
  obtain e c where m: "send_message W g allow user h s = (e, c)" by (metis prod.collapse)
  obtain c' where t: "turns W g allow (get_current_command_escalation s) user 1 MAX_TURNS (opened W allow (get_current_command_escalation s) user h s) = (e, c')"
    and c: "c = c'\<lparr>cv_timeline := (if get_current_command_escalation s = None then [] else cv_timeline c' @ closed_by e)\<rparr>"
    using send_message_turns [OF m False] by blast
  let ?all = "{''Inspector''} \<times> {1..(4::nat)} \<times> {1..(10::nat)} \<union> {''Judge''} \<times> {1} \<times> {1..10}"
  have "possible_posts 1 MAX_TURNS = ?all" by (auto simp: possible_posts_def MAX_TURNS_def)
  with turns_facts [OF t, of s] c have p: "set (cv_posts c) \<subseteq> ?all" "distinct (cv_posts c)" by auto
  have "card ?all = 50" by (subst card_Un_disjoint) (auto simp: card_cartesian_product)
  then have "length (cv_posts c) \<le> 50" using p by (metis (no_types, lifting) card_mono distinct_card finite_SigmaI finite_Un finite_atLeastAtMost finite.emptyI finite_insert)
  with p m show ?thesis by simp
qed

text \<open>
  C9: The model adjudicates only by calls.  Every adjudication of a conversation was made by a
  call of an adjudicating tool that an answer of the inspector asked for, an answer that came with
  status 200 and was not cut; its delivery to the pane was confirmed and its provenance is the one
  its arguments claim.  Texts, the judge, failed requests and cancellations adjudicate nothing.
\<close>

theorem model_adjudicates_only_by_calls:
  assumes "numbered s" and "send_message W g allow user h s = (e, c)"
  shows "\<exists>new. adjudications (cv_state c) = adjudications s @ new
    \<and> (\<forall>a \<in> set new. \<exists>x \<in> set (cv_executed c). made_by W x a \<and> was_asked W (cv_posts c) x)"
proof (cases "cg_inspector_key g = []")
  case True
  with assms(2) have "cv_state c = s" by (auto simp: send_message_def Let_def)
  then show ?thesis by simp
next
  case False
  obtain c' where t: "turns W g allow (get_current_command_escalation s) user 1 MAX_TURNS (opened W allow (get_current_command_escalation s) user h s) = (e, c')"
    and c: "c = c'\<lparr>cv_timeline := (if get_current_command_escalation s = None then [] else cv_timeline c' @ closed_by e)\<rparr>"
    using send_message_turns [OF assms(2) False] by blast
  have "accounted W s (opened W allow (get_current_command_escalation s) user h s)" using assms(1) by (simp add: accounted_def)
  with turns_facts [OF t, of s] c show ?thesis by (auto simp: accounted_def)
qed

theorem model_adjudicates_only_by_calls_witness:
  "\<exists>a \<in> set (adjudications (cv_state (snd demo_run))). \<exists>x \<in> set (cv_executed (snd demo_run)). made_by chat_demo_world x a
     \<and> was_asked chat_demo_world (cv_posts (snd demo_run)) x"
proof -
  have run: "send_message chat_demo_world chat_demo_config True ''triage'' chat_demo waiting_demo = (fst demo_run, snd demo_run)"
    by (simp add: demo_run_def)
  have "adjudications waiting_demo = []" by (simp add: waiting_demo_def guard_state_demo_def audit_state.extend_def judge_state.extend_def judge_state_demo_def)
  with model_adjudicates_only_by_calls [OF waiting_demo_numbered run] demo_run_approves show ?thesis by (metis append_Nil list.set_intros(1) neq_Nil_conv)
qed



end
