(* ===== verification/InspectorTools.thy ===== *)
theory InspectorTools
  imports AgentChat
begin

text \<open>
  The reading tools of the inspector (\<open>scripts/tools/schengen_agent_llm.py\<close>): the resolution of a
  path in the worktree of the active request, \<open>grep_search\<close>, \<open>view_file_slice\<close>, \<open>find_by_name\<close>,
  \<open>git_diff_stat\<close>, the tools that look at panes, paths and files, and the backlog tools, as the
  calls that \<open>execute_tool_call\<close> passes to them.  Processes, files and directories are functions
  of the world; \<open>None\<close> is an exception that leaves the tool.  For a request with working directory
  \<open>cwd\<close> the tools \<open>reading_tool w cwd\<close> are what \<open>cw_info\<close> stands for in \<open>AgentChat\<close>.
\<close>

subsection \<open>The world\<close>

text \<open>What \<open>subprocess.run\<close> gives: the exit code with both outputs, or the exception it raises.\<close>

datatype process = Ran int str str | No_Executable | Timed_Out | Os_Error str

text \<open>
  What opening a file gives: whether the first 8192 bytes hold a NUL, the text that the reader can
  deliver, newlines translated, and whether it then meets a byte that cannot be decoded.
\<close>

datatype opened_file = Open_Error str | Not_Regular | Opened bool str bool

datatype entry_kind = Directory | Regular | Symlink | Special | Unreadable

record tools_world = world +
  tw_context :: context_world
  tw_run :: "str list \<Rightarrow> process"
  tw_rg :: "str option"
  tw_open :: "str \<Rightarrow> opened_file"
  tw_open_dir :: "str \<Rightarrow> str list \<Rightarrow> bool"
  tw_scan :: "str \<Rightarrow> str list \<Rightarrow> (str \<times> entry_kind) list option"
  tw_late :: "nat \<Rightarrow> bool"
  tw_pane :: "json \<Rightarrow> json \<Rightarrow> bool \<Rightarrow> str + str \<times> str"
  tw_is_file :: "str \<Rightarrow> bool"
  tw_size :: "str \<Rightarrow> int"
  tw_entries :: "str \<Rightarrow> nat"
  tw_read :: "str \<Rightarrow> str + str"
  tw_create :: "str \<Rightarrow> str \<Rightarrow> str \<Rightarrow> str \<Rightarrow> str + json \<times> json"
  tw_similar :: "str \<Rightarrow> int \<Rightarrow> str + json list"
  tw_type_error :: "json \<Rightarrow> str"

subsection \<open>Answers\<close>

definition flat_json :: "tools_world \<Rightarrow> json \<Rightarrow> str" where
  "flat_json w j = flat_dump '', '' '': '' (cx_float (tw_context w)) j"

definition redacted_json :: "tools_world \<Rightarrow> json \<Rightarrow> str" where
  "redacted_json w j = redact_for_cloud (flat_json w j)"

definition refused_answer :: "tools_world \<Rightarrow> str \<Rightarrow> str" where
  "refused_answer w why = redacted_json w (JObj [(''error'', JStr why)])"

definition ANSWER_LIMIT :: int where
  "ANSWER_LIMIT = 4000"

definition fits :: "tools_world \<Rightarrow> json \<Rightarrow> bool" where
  "fits w j \<longleftrightarrow> char_count (redacted_json w j) \<le> ANSWER_LIMIT"

text \<open>The last step of a tool: an answer that is too long is replaced.\<close>

definition bounded_answer :: "tools_world \<Rightarrow> str \<Rightarrow> json \<Rightarrow> str" where
  "bounded_answer w name j = (if fits w j then redacted_json w j else refused_answer w (name @ '' output exceeded the safe bound''))"

subsection \<open>A path in the worktree\<close>

text \<open>\<open>str(base / relative)\<close> for a root that is not the root of the file system.\<close>

definition path_under :: "str \<Rightarrow> str list \<Rightarrow> str" where
  "path_under base parts = (if parts = [] then base else base @ ''/'' @ str_join ''/'' parts)"

definition is_hidden :: "str \<Rightarrow> bool" where
  "is_hidden part \<longleftrightarrow> starts_with part ''.'' \<and> part \<noteq> ''.''"

definition FORBIDDEN :: str where
  "FORBIDDEN = ''Path traversal or external access forbidden''"

definition resolve_repository_target :: "tools_world \<Rightarrow> str \<Rightarrow> json \<Rightarrow> str + str \<times> str" where
  "resolve_repository_target w cwd raw =
     (case raw of
        JStr given \<Rightarrow>
          if char_count given > 1024 then Inl ''relative_path must be a string of at most 1024 characters''
          else (let rel = (if given = [] then ''.'' else given) in
            if starts_with rel ''~'' \<or> starts_with rel ''/'' \<or> ''..'' \<in> set (path_parts rel) then Inl FORBIDDEN
            else if list_ex is_hidden (path_parts rel) then Inl ''Explicit hidden-path access forbidden''
            else if is_sensitive_target rel then Inl ''Access to sensitive path denied''
            else if cwd = [] then Inl ''Active escalation working directory unavailable''
            else (let here = canonicalize_path w cwd in
              case tw_run w [''git'', ''-C'', here, ''rev-parse'', ''--show-toplevel''] of
                No_Executable \<Rightarrow> Inl ''required executable unavailable''
              | Timed_Out \<Rightarrow> Inl ''Git worktree lookup timed out''
              | Os_Error why \<Rightarrow> Inl why
              | Ran code out err \<Rightarrow>
                  if code \<noteq> 0 \<or> strip out = [] then Inl ''Active escalation is not inside a Git worktree''
                  else (let base = canonicalize_path w (strip out) in
                    if \<not> is_dir w base \<or> base = ''/'' then Inl ''Unsafe Git worktree root''
                    else if \<not> path_within base here then Inl ''Active working directory escaped its Git worktree''
                    else (let target = canonicalize_path w (path_under base (path_parts rel)) in
                      if \<not> path_within base target then Inl FORBIDDEN
                      else if \<not> path_exists w target then Inl ''Search path does not exist''
                      else if is_sensitive_target target then Inl ''Access to sensitive path denied''
                      else Inr (base, target)))))
      | _ \<Rightarrow> Inl ''relative_path must be a string of at most 1024 characters'')"

subsection \<open>\<open>grep_search\<close>\<close>

text \<open>\<open>int(s)\<close> of a text: blanks around it, a sign, at most 4300 digits with single underscores between them.\<close>

fun underscored_digits :: "bool \<Rightarrow> str \<Rightarrow> bool" where
  "underscored_digits after [] = after"
| "underscored_digits after (c # cs) =
     (if is_digit c then underscored_digits True cs else c = CHR ''_'' \<and> after \<and> underscored_digits False cs)"

definition int_of_text :: "str \<Rightarrow> int option" where
  "int_of_text s =
     (let t = strip s; negative = starts_with t ''-''; u = (if negative \<or> starts_with t ''+'' then drop 1 t else t) in
      if underscored_digits False u \<and> length (filter is_digit u) \<le> 4300 then Some ((if negative then -1 else 1) * int (read_nat (filter is_digit u))) else None)"

text \<open>\<open>int(v)\<close>, 20 for a value that has none; \<open>None\<close>: an infinity, whose exception is not caught.\<close>

definition requested_max :: "json \<Rightarrow> int option" where
  "requested_max v =
     (case v of
        JInt i \<Rightarrow> Some i
      | JBool b \<Rightarrow> Some (if b then 1 else 0)
      | JFloat (Fin r) \<Rightarrow> Some (if r < 0 then - floor (- r) else floor r)
      | JFloat NaN \<Rightarrow> Some 20
      | JFloat _ \<Rightarrow> None
      | JStr s \<Rightarrow> Some (case int_of_text s of Some i \<Rightarrow> i | None \<Rightarrow> 20)
      | _ \<Rightarrow> Some 20)"

text \<open>\<open>str.splitlines\<close> with the separators beyond ASCII: next line, line and paragraph separator.\<close>

definition py_splitlines :: "str \<Rightarrow> str list" where
  "py_splitlines s =
     (let sep = [CHR 0x1E] in
      splitlines (str_replace [CHR 0xE2, CHR 0x80, CHR 0xA9] sep (str_replace [CHR 0xE2, CHR 0x80, CHR 0xA8] sep (str_replace [CHR 0xC2, CHR 0x85] sep s))))"

text \<open>\<open>str(Path(s))\<close>; two slashes at the start are kept as they are.\<close>

definition path_text :: "str \<Rightarrow> str" where
  "path_text s =
     (let lead = (if starts_with s ''//'' \<and> \<not> starts_with s ''///'' then ''//'' else if starts_with s ''/'' then ''/'' else []) in
      if lead = [] \<and> path_parts s = [] then ''.'' else lead @ str_join ''/'' (path_parts s))"

text \<open>\<open>path.relative_to(base)\<close> for a path in the root.\<close>

definition display_path :: "str \<Rightarrow> str \<Rightarrow> str" where
  "display_path base p = (if p = base then ''.'' else drop (length base + 1) p)"

datatype rg_report = Rg_Other | Rg_Match str json str | Rg_Raises

text \<open>What a document of \<open>rg --json\<close> reports: path, line number and text of a match.\<close>

definition rg_event :: "json \<Rightarrow> rg_report" where
  "rg_event event =
     (let or_empty = (\<lambda>v. if truthy v then v else JObj []) in
      if \<not> is_obj event then Rg_Raises
      else if jget ''type'' event \<noteq> JStr ''match'' then Rg_Other
      else (let data = or_empty (jget ''data'' event) in
        if \<not> is_obj data then Rg_Raises
        else (let path = or_empty (jget ''path'' data); lines = or_empty (jget ''lines'' data) in
          if \<not> is_obj path \<or> \<not> is_obj lines then Rg_Raises
          else (case (jget ''text'' path, jget ''text'' lines) of
              (JStr p, JStr t) \<Rightarrow> Rg_Match p (if truthy (jget ''line_number'' data) then jget ''line_number'' data else JInt 0) t
            | _ \<Rightarrow> Rg_Other))))"

record grep_state =
  gs_matches :: "str list"
  gs_omitted :: nat
  gs_truncated :: bool

definition grep_doc :: "str \<Rightarrow> str \<Rightarrow> str list \<Rightarrow> nat \<Rightarrow> bool \<Rightarrow> json" where
  "grep_doc query raw matches omitted truncated = JObj [(''query'', JStr query), (''relative_path'', JStr raw),
     (''matches'', JArr (map JStr matches)), (''match_count'', JInt (int (length matches))),
     (''sensitive_matches_omitted'', JInt (int omitted)), (''truncated'', JBool truncated)]"

text \<open>\<open>f"{v}"\<close>.\<close>

definition shown_json :: "tools_world \<Rightarrow> json \<Rightarrow> str" where
  "shown_json w v = (case v of JInt i \<Rightarrow> show_int i | _ \<Rightarrow> arg_text (tw_context w) v)"

datatype 'a line_end = Next 'a | Refuse str | Raise

definition grep_line :: "tools_world \<Rightarrow> str \<Rightarrow> str \<Rightarrow> str \<Rightarrow> int \<Rightarrow> str \<Rightarrow> grep_state \<Rightarrow> grep_state line_end" where
  "grep_line w base query raw limit line g =
     (case json_loads line of
        None \<Rightarrow> Refuse ''Malformed rg output''
      | Some event \<Rightarrow>
          (case rg_event event of
             Rg_Raises \<Rightarrow> Raise
           | Rg_Other \<Rightarrow> Next g
           | Rg_Match p number found \<Rightarrow>
               (let p1 = (if starts_with p ''/'' then path_text p else path_under base (path_parts p)); hit = canonicalize_path w p1;
                    display = display_path base hit;
                    entry = first_chars 2000 (display @ '':'' @ shown_json w number @ '':'' @ rstrip found) in
                if \<not> path_within base hit then Refuse ''rg returned a path outside the active Git worktree''
                else if is_sensitive_target hit \<or> is_sensitive_target display then Next (g\<lparr>gs_omitted := Suc (gs_omitted g)\<rparr>)
                else if int (length (gs_matches g)) \<ge> limit then Next (g\<lparr>gs_truncated := True\<rparr>)
                else if fits w (grep_doc query raw (gs_matches g @ [entry]) (gs_omitted g) (gs_truncated g))
                  then Next (g\<lparr>gs_matches := gs_matches g @ [entry]\<rparr>)
                else Next (g\<lparr>gs_truncated := True\<rparr>))))"

fun grep_lines :: "tools_world \<Rightarrow> str \<Rightarrow> str \<Rightarrow> str \<Rightarrow> int \<Rightarrow> str list \<Rightarrow> grep_state \<Rightarrow> grep_state line_end" where
  "grep_lines w base query raw limit [] g = Next g"
| "grep_lines w base query raw limit (l # ls) g =
     (case grep_line w base query raw limit l g of Next g' \<Rightarrow> grep_lines w base query raw limit ls g' | r \<Rightarrow> r)"

definition rg_command :: "str \<Rightarrow> bool \<Rightarrow> str \<Rightarrow> str \<Rightarrow> str list" where
  "rg_command rg sensitive query target = [rg, ''--json'', ''--no-messages'', ''--color'', ''never'']
     @ (if sensitive then [] else [''--ignore-case'']) @ [''--'', query, target]"

definition no_match_doc :: "str \<Rightarrow> str \<Rightarrow> json" where
  "no_match_doc query raw = JObj [(''query'', JStr query), (''relative_path'', JStr raw), (''matches'', JArr []), (''match_count'', JInt 0),
     (''truncated'', JBool False)]"

definition grep_search :: "tools_world \<Rightarrow> str \<Rightarrow> json \<Rightarrow> str option" where
  "grep_search w cwd args =
     (if \<not> is_obj args then None
      else (case jget ''query'' args of
        JStr query \<Rightarrow>
          if query = [] \<or> char_count query > 512 then Some (refused_answer w ''query must be a non-empty regular expression of at most 512 characters'')
          else (let given = arg_or ''relative_path'' (JStr ''.'') args in
            case resolve_repository_target w cwd given of
              Inl why \<Rightarrow> Some (refused_answer w why)
            | Inr (base, target) \<Rightarrow>
                (let raw = (case given of JStr s \<Rightarrow> s | _ \<Rightarrow> []) in
                 case tw_rg w of
                   None \<Rightarrow> Some (refused_answer w ''rg unavailable'')
                 | Some rg \<Rightarrow>
                     (case requested_max (arg_or ''max_results'' (JInt 20) args) of
                        None \<Rightarrow> None
                      | Some wanted \<Rightarrow>
                          (let limit = max 1 (min 50 wanted) in
                           case tw_run w (rg_command rg (truthy (jget ''case_sensitive'' args)) query target) of
                             No_Executable \<Rightarrow> Some (refused_answer w ''required executable unavailable'')
                           | Timed_Out \<Rightarrow> Some (refused_answer w ''grep_search timed out'')
                           | Os_Error why \<Rightarrow> Some (refused_answer w why)
                           | Ran code out err \<Rightarrow>
                               if code = 1 then Some (redacted_json w (no_match_doc query raw))
                               else if code \<noteq> 0 then
                                 Some (refused_answer w (first_chars 500 (redact_for_cloud (strip (if err = [] then ''rg failed'' else err)))))
                               else (case grep_lines w base query raw limit (py_splitlines out) \<lparr>gs_matches = [], gs_omitted = 0, gs_truncated = False\<rparr> of
                                   Raise \<Rightarrow> None
                                 | Refuse why \<Rightarrow> Some (refused_answer w why)
                                 | Next g \<Rightarrow> Some (bounded_answer w ''grep_search'' (grep_doc query raw (gs_matches g) (gs_omitted g) (gs_truncated g))))))))
      | _ \<Rightarrow> Some (refused_answer w ''query must be a non-empty regular expression of at most 512 characters'')))"

subsection \<open>\<open>view_file_slice\<close>\<close>

text \<open>\<open>handle.readline(n)\<close>: the characters read, and the rest.\<close>

fun readline :: "nat \<Rightarrow> str \<Rightarrow> str \<times> str" where
  "readline n [] = ([], [])"
| "readline n (c # cs) =
     (if begins_char c then
        (case n of 0 \<Rightarrow> ([], c # cs)
         | Suc k \<Rightarrow> if c = nl then ([nl], cs) else (case readline k cs of (a, b) \<Rightarrow> (c # a, b)))
      else (case readline n cs of (a, b) \<Rightarrow> (c # a, b)))"

text \<open>The rest of the line that is skipped: all up to and with the next newline.\<close>

definition after_newline :: "str \<Rightarrow> str" where
  "after_newline s = drop 1 (dropWhile (\<lambda>c. c \<noteq> nl) s)"

definition CUT_MARK :: str where
  "CUT_MARK = DOTS @ '' [TRUNCATED]''"

definition numbered_line :: "nat \<Rightarrow> str \<Rightarrow> str" where
  "numbered_line n t = (let d = show_nat n in replicate (4 - length d) (CHR '' '') @ d @ '' | '' @ t)"

definition BINARY :: str where
  "BINARY = ''Binary file access denied''"

text \<open>
  The loop over the lines: the kept lines and whether one was cut, or the error of the answer.
  When the decoded text ends in a byte that cannot be decoded, reading past it raises.
\<close>

fun slice_lines :: "nat \<Rightarrow> nat \<Rightarrow> bool \<Rightarrow> nat \<Rightarrow> str \<Rightarrow> str + str list \<times> bool" where
  "slice_lines start n bad 0 s = Inr ([], False)"
| "slice_lines start n bad (Suc left) s =
     (case readline 2001 s of (chunk, rest) \<Rightarrow>
        let whole = ends_with chunk [nl]; full = (char_count chunk = 2001); overlong = full \<and> \<not> whole;
            rest' = (if overlong then after_newline rest else rest);
            undecoded = ''Binary or non-UTF-8 file access denied'' in
        if bad \<and> \<not> whole \<and> \<not> full then Inl undecoded
        else if chunk = [] then Inr ([], False)
        else if CHR 0x00 \<in> set chunk then Inl BINARY
        else if bad \<and> overlong \<and> nl \<notin> set rest then Inl undecoded
        else (let retained = first_chars 2000 chunk @ (if overlong then CUT_MARK else []);
                  line = redact_for_cloud (numbered_line (Suc n) (rstrip_chars [cr, nl] retained)) in
          case slice_lines start (Suc n) bad left rest' of
            Inl why \<Rightarrow> Inl why
          | Inr (ls, shortened) \<Rightarrow> Inr (if start \<le> Suc n then line # ls else ls, overlong \<or> shortened)))"

definition slice_doc :: "str \<Rightarrow> nat \<Rightarrow> nat \<Rightarrow> bool \<Rightarrow> str list \<Rightarrow> json" where
  "slice_doc raw start stop shortened ls = JObj [(''relative_path'', JStr raw), (''start_line'', JInt (int start)),
     (''end_line'', JInt (int stop)), (''content'', JArr (map JStr ls)), (''truncated'', JBool shortened)]"

text \<open>The longest run of lines that fits, and whether a line was left out.\<close>

fun bounded_lines :: "(str list \<Rightarrow> bool) \<Rightarrow> str list \<Rightarrow> str list \<Rightarrow> str list \<times> bool" where
  "bounded_lines ok kept_lines [] = (kept_lines, False)"
| "bounded_lines ok kept_lines (l # ls) = (if ok (kept_lines @ [l]) then bounded_lines ok (kept_lines @ [l]) ls else (kept_lines, True))"

text \<open>Lines are removed from the end (the list is reversed) until the marker fits.\<close>

fun popped :: "(str list \<Rightarrow> bool) \<Rightarrow> str list \<Rightarrow> str list" where
  "popped ok [] = []"
| "popped ok (l # ls) = (if ok (rev (l # ls) @ [''[TRUNCATED]'']) then l # ls else popped ok ls)"

definition slice_answer :: "tools_world \<Rightarrow> str \<Rightarrow> nat \<Rightarrow> nat \<Rightarrow> str list \<Rightarrow> bool \<Rightarrow> str" where
  "slice_answer w raw start stop ls cut_line =
     (case bounded_lines (\<lambda>xs. fits w (slice_doc raw start stop cut_line xs)) [] ls of (shown, dropped) \<Rightarrow>
        let shortened = cut_line \<or> dropped;
            final = (if shortened then rev (popped (\<lambda>xs. fits w (slice_doc raw start stop True xs)) (rev shown)) @ [''[TRUNCATED]''] else shown) in
        bounded_answer w ''view_file_slice'' (slice_doc raw start stop shortened final))"

definition view_file_slice :: "tools_world \<Rightarrow> str \<Rightarrow> json \<Rightarrow> str option" where
  "view_file_slice w cwd args =
     (if \<not> is_obj args then None
      else Some (case jget ''relative_path'' args of
          JStr raw \<Rightarrow>
            if raw = [] then refused_answer w ''relative_path must be a non-empty string''
            else (case (arg_or ''start_line'' (JInt 1) args, arg_or ''end_line'' (JInt 100) args) of
                (JInt start, JInt stop) \<Rightarrow>
                  if \<not> (1 \<le> start \<and> start \<le> 1000000 \<and> 1 \<le> stop \<and> stop \<le> 1000000) then
                    refused_answer w ''start_line and end_line must be between 1 and 1000000''
                  else if start > stop then refused_answer w ''start_line must not exceed end_line''
                  else if stop - start + 1 > 100 then refused_answer w ''file slice must contain at most 100 lines''
                  else (case resolve_repository_target w cwd (JStr raw) of
                      Inl why \<Rightarrow> refused_answer w why
                    | Inr (base, target) \<Rightarrow>
                        (case tw_open w target of
                           Open_Error why \<Rightarrow> refused_answer w (''Unable to open repository file safely: '' @ why)
                         | Not_Regular \<Rightarrow> refused_answer w ''Target is not a regular file''
                         | Opened has_nul content bad \<Rightarrow>
                             if has_nul then refused_answer w BINARY
                             else (case slice_lines (nat start) 0 bad (nat stop) content of
                                 Inl why \<Rightarrow> refused_answer w why
                               | Inr (ls, cut_line) \<Rightarrow> slice_answer w raw (nat start) (nat stop) ls cut_line)))
              | _ \<Rightarrow> refused_answer w ''start_line and end_line must be integers'')
        | _ \<Rightarrow> refused_answer w ''relative_path must be a non-empty string''))"

subsection \<open>\<open>find_by_name\<close>\<close>

definition FIND_BY_NAME_MAX_DEPTH :: nat where
  "FIND_BY_NAME_MAX_DEPTH = 16"

definition FIND_BY_NAME_MAX_ENTRIES :: nat where
  "FIND_BY_NAME_MAX_ENTRIES = 10000"

definition FIND_BY_NAME_MAX_MATCHES :: nat where
  "FIND_BY_NAME_MAX_MATCHES = 50"

text \<open>The counters, the matches with their kinds, and how often the clock was read.\<close>

record find_state =
  fd_visited :: nat
  fd_hidden :: nat
  fd_sensitive :: nat
  fd_links :: nat
  fd_truncated :: bool
  fd_matches :: "(str list \<times> entry_kind) list"
  fd_clock :: nat

text \<open>What is looked for, and where: name, kind, the path as given, its parts and the root.\<close>

record find_query =
  fq_name :: str
  fq_type :: str
  fq_raw :: str
  fq_start :: "str list"
  fq_base :: str

definition kind_text :: "entry_kind \<Rightarrow> str" where
  "kind_text k = (case k of Directory \<Rightarrow> ''directory'' | Regular \<Rightarrow> ''file'' | _ \<Rightarrow> ''other'')"

definition shown_path :: "str list \<Rightarrow> str" where
  "shown_path parts = str_join ''/'' parts"

definition find_doc :: "find_query \<Rightarrow> find_state \<Rightarrow> json" where
  "find_doc q f = JObj [(''name'', JStr (fq_name q)), (''relative_path'', JStr (if fq_raw q = [] then ''.'' else fq_raw q)),
     (''entry_type'', JStr (fq_type q)),
     (''matches'', JArr (map (\<lambda>(p, k). JObj [(''path'', JStr (shown_path p)), (''entry_type'', JStr (kind_text k))]) (fd_matches f))),
     (''match_count'', JInt (int (length (fd_matches f)))), (''visited_entries'', JInt (int (fd_visited f))),
     (''hidden_paths_omitted'', JInt (int (fd_hidden f))), (''sensitive_paths_omitted'', JInt (int (fd_sensitive f))),
     (''symlinks_omitted'', JInt (int (fd_links f))), (''truncated'', JBool (fd_truncated f)),
     (''completion_state'', JStr (if fd_truncated f then ''truncated'' else ''complete''))]"

text \<open>How a walk goes on: with the next entry, not at all, or with the exception of the operating system.\<close>

datatype walk_end = Go_On | Stop | Walk_Error

definition stopped :: "find_state \<Rightarrow> walk_end \<times> find_state" where
  "stopped f = (Stop, f\<lparr>fd_truncated := True\<rparr>)"

definition out_of_time :: "tools_world \<Rightarrow> find_state \<Rightarrow> bool \<times> find_state" where
  "out_of_time w f = (tw_late w (fd_clock f), f\<lparr>fd_clock := Suc (fd_clock f)\<rparr>)"

text \<open>An entry that is the one looked for; \<open>Stop\<close>: no room for it.\<close>

definition matched :: "tools_world \<Rightarrow> find_query \<Rightarrow> str list \<Rightarrow> str \<Rightarrow> entry_kind \<Rightarrow> find_state \<Rightarrow> walk_end \<times> find_state" where
  "matched w q path name kind f =
     (if name = fq_name q \<and> (fq_type q = ''any'' \<or> fq_type q = kind_text kind) then
        (if FIND_BY_NAME_MAX_MATCHES \<le> length (fd_matches f) then stopped f
         else if fits w (find_doc q (f\<lparr>fd_matches := fd_matches f @ [(path, kind)]\<rparr>)) then (Go_On, f\<lparr>fd_matches := fd_matches f @ [(path, kind)]\<rparr>)
         else stopped f)
      else (Go_On, f))"

text \<open>
  An entry up to the descent into it; the result says whether it is a directory to descend into.
\<close>

definition look_at :: "tools_world \<Rightarrow> find_query \<Rightarrow> str list \<Rightarrow> str \<times> entry_kind \<Rightarrow> find_state \<Rightarrow> (walk_end \<times> find_state) \<times> bool" where
  "look_at w q rel entry f =
     (case entry of (name, kind) \<Rightarrow> case out_of_time w f of (late, f0) \<Rightarrow>
        let path = rel @ [name]; f1 = f0\<lparr>fd_visited := Suc (fd_visited f0)\<rparr> in
        if late \<or> FIND_BY_NAME_MAX_ENTRIES \<le> fd_visited f0 then (stopped f0, False)
        else if starts_with name ''.'' then ((Go_On, f1\<lparr>fd_hidden := Suc (fd_hidden f1)\<rparr>), False)
        else if is_sensitive_target name \<or> is_sensitive_target (shown_path path) then ((Go_On, f1\<lparr>fd_sensitive := Suc (fd_sensitive f1)\<rparr>), False)
        else if kind = Symlink then ((Go_On, f1\<lparr>fd_links := Suc (fd_links f1)\<rparr>), False)
        else if kind = Unreadable then ((Walk_Error, f1), False)
        else (matched w q path name kind f1, kind = Directory))"

text \<open>
  The walk: \<open>left\<close> directories may still be entered below this one.  A directory is opened without
  following links, then its entries are looked at in the order of their names.
\<close>

function walk :: "tools_world \<Rightarrow> find_query \<Rightarrow> nat \<Rightarrow> str list \<Rightarrow> find_state \<Rightarrow> walk_end \<times> find_state"
and walk_entries :: "tools_world \<Rightarrow> find_query \<Rightarrow> nat \<Rightarrow> str list \<Rightarrow> (str \<times> entry_kind) list \<Rightarrow> find_state \<Rightarrow> walk_end \<times> find_state" where
  "walk w q left rel f =
     (if \<not> tw_open_dir w (fq_base q) rel then (Walk_Error, f)
      else (case out_of_time w f of (late, f0) \<Rightarrow>
        if late then stopped f0
        else (case tw_scan w (fq_base q) rel of
            None \<Rightarrow> (Walk_Error, f0)
          | Some entries \<Rightarrow> walk_entries w q left rel (sort_key fst entries) f0)))"
| "walk_entries w q left rel [] f = (Go_On, f)"
| "walk_entries w q left rel (e # es) f =
     (case look_at w q rel e f of
        ((Go_On, f1), False) \<Rightarrow> walk_entries w q left rel es f1
      | ((Go_On, f1), True) \<Rightarrow>
          (case left of
             0 \<Rightarrow> walk_entries w q left rel es (f1\<lparr>fd_truncated := True\<rparr>)
           | Suc k \<Rightarrow> (case walk w q k (rel @ [fst e]) f1 of
               (Go_On, f2) \<Rightarrow> walk_entries w q left rel es f2
             | r \<Rightarrow> r))
      | (r, _) \<Rightarrow> r)"
  by pat_completeness auto

termination
  by (relation "measures [\<lambda>x. case x of Inl (w, q, left, rel, f) \<Rightarrow> Suc (2 * left) | Inr (w, q, left, rel, es, f) \<Rightarrow> 2 * left,
      \<lambda>x. case x of Inl _ \<Rightarrow> 0 | Inr (w, q, left, rel, es, f) \<Rightarrow> length es]") auto

definition no_finds :: find_state where
  "no_finds = \<lparr>fd_visited = 0, fd_hidden = 0, fd_sensitive = 0, fd_links = 0, fd_truncated = False, fd_matches = [], fd_clock = 0\<rparr>"

text \<open>\<open>set(args) - {...}\<close> is not empty; \<open>None\<close>: an exception.\<close>

definition unsupported_arguments :: "json \<Rightarrow> bool option" where
  "unsupported_arguments args =
     (let known = {''name'', ''relative_path'', ''entry_type''} in
      case args of
        JObj ms \<Rightarrow> Some (\<not> fst ` set ms \<subseteq> known)
      | JStr s \<Rightarrow> if s = [] then None else Some True
      | JArr xs \<Rightarrow> if list_ex (\<lambda>x. case x of JArr _ \<Rightarrow> True | JObj _ \<Rightarrow> True | _ \<Rightarrow> False) xs \<or> list_all (\<lambda>x. x \<in> JStr ` known) xs then None else Some True
      | _ \<Rightarrow> None)"

definition find_by_name :: "tools_world \<Rightarrow> str \<Rightarrow> json \<Rightarrow> str option" where
  "find_by_name w cwd args =
     (case unsupported_arguments args of
        None \<Rightarrow> None
      | Some True \<Rightarrow> Some (refused_answer w ''find_by_name received an unsupported argument'')
      | Some False \<Rightarrow>
          Some (case jget ''name'' args of
            JStr name \<Rightarrow>
              if name = [] \<or> char_count name > 255 \<or> name = ''.'' \<or> name = ''..'' \<or> CHR ''/'' \<in> set name \<or> CHR 0x00 \<in> set name then
                refused_answer w ''name must be one exact basename of 1 to 255 characters''
              else if starts_with name ''.'' \<or> is_sensitive_target name then refused_answer w ''Hidden or sensitive basename access denied''
              else (case arg_or ''entry_type'' (JStr ''any'') args of
                  JStr ty \<Rightarrow>
                    if ty \<notin> {''any'', ''file'', ''directory''} then refused_answer w ''entry_type must be any, file, or directory''
                    else (let given = arg_or ''relative_path'' (JStr ''.'') args in
                      case resolve_repository_target w cwd given of
                        Inl why \<Rightarrow> refused_answer w why
                      | Inr (base, target) \<Rightarrow>
                          (let raw = (case given of JStr s \<Rightarrow> s | _ \<Rightarrow> []);
                               q = \<lparr>fq_name = name, fq_type = ty, fq_raw = raw, fq_start = path_parts raw, fq_base = base\<rparr> in
                           case walk w q FIND_BY_NAME_MAX_DEPTH (fq_start q) no_finds of
                             (Walk_Error, f) \<Rightarrow> refused_answer w ''Repository path could not be traversed without following symlinks''
                           | (_, f) \<Rightarrow> bounded_answer w ''find_by_name'' (find_doc q f)))
                | _ \<Rightarrow> refused_answer w ''entry_type must be any, file, or directory'')
          | _ \<Rightarrow> refused_answer w ''name must be one exact basename of 1 to 255 characters''))"

subsection \<open>\<open>git_diff_stat\<close>\<close>

definition git_base :: "str \<Rightarrow> str list" where
  "git_base base = [''git'', ''--no-optional-locks'', ''-c'', ''core.fsmonitor=false'', ''-c'', ''submodule.recurse=false'', ''-C'', base]"

definition status_command :: "str \<Rightarrow> str list" where
  "status_command base = git_base base
     @ [''status'', ''--porcelain=v1'', ''-z'', ''--untracked-files=normal'', ''--ignore-submodules=all'', ''--no-renames'']"

definition diff_command :: "str \<Rightarrow> str list" where
  "diff_command base = git_base base
     @ [''diff'', ''--no-ext-diff'', ''--no-textconv'', ''--numstat'', ''--no-renames'', ''--ignore-submodules=all'', ''-z'', ''HEAD'', ''--'']"

text \<open>The records of an output that ends every record with a NUL.\<close>

definition nul_records :: "str \<Rightarrow> str list" where
  "nul_records out = (if out = [] then [] else butlast (split_char (CHR 0x00) out))"

record diff_state =
  ds_status :: "(str \<times> str) list"
  ds_staged :: nat
  ds_unstaged :: nat
  ds_untracked :: nat
  ds_stats :: "(str \<times> (nat \<times> nat) option) list"
  ds_added :: nat
  ds_deleted :: nat
  ds_binary :: nat

definition no_changes :: diff_state where
  "no_changes = \<lparr>ds_status = [], ds_staged = 0, ds_unstaged = 0, ds_untracked = 0, ds_stats = [], ds_added = 0, ds_deleted = 0, ds_binary = 0\<rparr>"

definition counts :: "char \<Rightarrow> nat" where
  "counts c = (if c \<in> set '' ?!'' then 0 else 1)"

fun status_records :: "str list \<Rightarrow> diff_state \<Rightarrow> str + diff_state" where
  "status_records [] d = Inr d"
| "status_records (r # rs) d =
     (let code = take 2 r; path = drop 3 r;
          d1 = d\<lparr>ds_status := AList.update path code (ds_status d)\<rparr>;
          d2 = (if code = ''??'' then d1\<lparr>ds_untracked := Suc (ds_untracked d1)\<rparr>
                else d1\<lparr>ds_staged := ds_staged d1 + counts (code ! 0), ds_unstaged := ds_unstaged d1 + counts (code ! 1)\<rparr>) in
      if length r < 4 \<or> r ! 2 \<noteq> CHR '' '' then Inl ''Malformed git status output''
      else if CHR ''R'' \<in> set code \<or> CHR ''C'' \<in> set code then
        (case rs of
           [] \<Rightarrow> Inl ''Malformed git status rename output''
         | old # rest \<Rightarrow> if old = [] then Inl ''Malformed git status rename output'' else status_records rest d2)
      else status_records rs d2)"

definition diff_record :: "str \<Rightarrow> diff_state \<Rightarrow> str + diff_state" where
  "diff_record r d =
     (let bad = Inl ''Malformed git diff output'' in
      case split_once (CHR 0x09) r of
        None \<Rightarrow> bad
      | Some (added, r1) \<Rightarrow>
          (case split_once (CHR 0x09) r1 of
             None \<Rightarrow> bad
           | Some (deleted, path) \<Rightarrow>
               if path = [] then bad
               else if added = ''-'' \<and> deleted = ''-'' then
                 Inr (d\<lparr>ds_binary := Suc (ds_binary d), ds_stats := AList.update path None (ds_stats d)\<rparr>)
               else if added = [] \<or> deleted = [] \<or> \<not> list_all is_digit added \<or> \<not> list_all is_digit deleted then bad
               else Inr (d\<lparr>ds_added := ds_added d + read_nat added, ds_deleted := ds_deleted d + read_nat deleted,
                     ds_stats := AList.update path (Some (read_nat added, read_nat deleted)) (ds_stats d)\<rparr>)))"

fun diff_records :: "str list \<Rightarrow> diff_state \<Rightarrow> str + diff_state" where
  "diff_records [] d = Inr d"
| "diff_records (r # rs) d = (case diff_record r d of Inl why \<Rightarrow> Inl why | Inr d' \<Rightarrow> diff_records rs d')"

definition all_paths :: "diff_state \<Rightarrow> str list" where
  "all_paths d = sort (remdups (map fst (ds_status d) @ map fst (ds_stats d)))"

definition file_record :: "diff_state \<Rightarrow> str \<Rightarrow> json" where
  "file_record d path = JObj ([(''path'', JStr path)]
     @ (case map_of (ds_status d) path of Some code \<Rightarrow> [(''status'', JStr code)] | None \<Rightarrow> [])
     @ (case map_of (ds_stats d) path of
          Some None \<Rightarrow> [(''binary'', JBool True)]
        | Some (Some (a, b)) \<Rightarrow> [(''additions'', JInt (int a)), (''deletions'', JInt (int b))]
        | None \<Rightarrow> []))"

definition diff_doc :: "diff_state \<Rightarrow> json list \<Rightarrow> bool \<Rightarrow> str \<Rightarrow> json" where
  "diff_doc d listed shortened state =
     (let paths = all_paths d; num = (\<lambda>n. JInt (int n)) in
      JObj [(''clean'', JBool (paths = [])), (''changed_file_count'', num (length paths)), (''staged_entry_count'', num (ds_staged d)),
        (''unstaged_entry_count'', num (ds_unstaged d)), (''untracked_entry_count'', num (ds_untracked d)), (''additions'', num (ds_added d)),
        (''deletions'', num (ds_deleted d)), (''binary_file_count'', num (ds_binary d)),
        (''sensitive_paths_omitted'', num (length (filter is_sensitive_target paths))), (''files'', JArr listed),
        (''truncated'', JBool shortened), (''completion_state'', JStr state)])"

text \<open>The listed files, at most fifty, as long as the answer fits; whether one was left out.\<close>

fun list_files :: "tools_world \<Rightarrow> diff_state \<Rightarrow> str list \<Rightarrow> str list \<Rightarrow> str list \<times> bool" where
  "list_files w d listed [] = (listed, False)"
| "list_files w d listed (p # ps) =
     (if FIND_BY_NAME_MAX_MATCHES \<le> length listed then (listed, True)
      else if fits w (diff_doc d (map (file_record d) (listed @ [p])) False ''complete'') then list_files w d (listed @ [p]) ps
      else (listed, True))"

definition git_diff_stat :: "tools_world \<Rightarrow> str \<Rightarrow> json \<Rightarrow> str" where
  "git_diff_stat w cwd args =
     (if truthy args then refused_answer w ''git_diff_stat accepts no arguments''
      else (case resolve_repository_target w cwd (JStr ''.'') of
          Inl why \<Rightarrow> refused_answer w why
        | Inr (base, target) \<Rightarrow>
            (let failed = (\<lambda>label err. refused_answer w (first_chars 500 (redact_for_cloud (if strip err = [] then label @ '' failed'' else strip err))));
                 caught = (\<lambda>r. case r of No_Executable \<Rightarrow> refused_answer w ''required executable unavailable''
                   | Timed_Out \<Rightarrow> refused_answer w ''git_diff_stat timed out'' | Os_Error why \<Rightarrow> refused_answer w why | Ran c o_out o_err \<Rightarrow> []) in
             case tw_run w (status_command base) of
               Ran code out err \<Rightarrow>
                 (case tw_run w (diff_command base) of
                    Ran code' out' err' \<Rightarrow>
                      if code \<noteq> 0 then failed ''git status'' err
                      else if code' \<noteq> 0 then failed ''git diff'' err'
                      else if (out \<noteq> [] \<and> last out \<noteq> CHR 0x00) \<or> (out' \<noteq> [] \<and> last out' \<noteq> CHR 0x00) then refused_answer w ''Malformed Git metadata output''
                      else (case status_records (nul_records out) no_changes of
                          Inl why \<Rightarrow> refused_answer w why
                        | Inr d1 \<Rightarrow>
                            (case diff_records (nul_records out') d1 of
                               Inl why \<Rightarrow> refused_answer w why
                             | Inr d \<Rightarrow>
                                 (case list_files w d [] (filter (\<lambda>p. \<not> is_sensitive_target p) (all_paths d)) of
                                    (listed, shortened) \<Rightarrow>
                                      bounded_answer w ''git_diff_stat''
                                        (diff_doc d (map (file_record d) listed) shortened (if shortened then ''truncated'' else ''complete'')))))
                  | r \<Rightarrow> caught r)
             | r \<Rightarrow> caught r)))"

subsection \<open>Panes, paths, files and the backlog\<close>

text \<open>The answer for an exception, which is written with escapes.\<close>

definition exception_answer :: "str \<Rightarrow> str" where
  "exception_answer why = ascii_object [(''error'', why)]"

definition investigate_pane_history :: "tools_world \<Rightarrow> json \<Rightarrow> str" where
  "investigate_pane_history w args =
     (let pane = arg_or ''pane_id'' (JStr []) args; lines = arg_or ''lines'' (JInt 100) args; full = truthy (jget ''full_dump'' args) in
      case tw_pane w pane lines full of
        Inl why \<Rightarrow> exception_answer why
      | Inr (raw, source) \<Rightarrow> flat_json w (JObj [(''pane_id'', pane), (''lines_read'', lines), (''full_dump'', JBool full),
          (''capture_source'', JStr source), (''pane_text_snippet'', JStr (last_chars 12000 (redact_for_cloud raw)))]))"

definition investigate_path_details :: "tools_world \<Rightarrow> json \<Rightarrow> str" where
  "investigate_path_details w args =
     (case arg_or ''target_path'' (JStr []) args of
        JStr target \<Rightarrow>
          (let p = canonicalize_path w target; exists = path_exists w p; is_file = exists \<and> tw_is_file w p;
               in_git = is_inside_git_work_tree w p; up = parent_dir p in
           flat_json w (JObj [(''target_path'', JStr p), (''exists'', JBool exists), (''is_dir'', JBool (exists \<and> is_dir w p)), (''is_file'', JBool is_file),
             (''size_bytes'', JInt (if is_file then tw_size w p else 0)), (''resource_tier'', JStr (tier_value (classify_resource_tier w p))),
             (''is_inside_git'', JBool in_git), (''git_clean_and_committed'', JBool (in_git \<and> is_git_clean_and_committed w p)),
             (''parent_exists'', JBool (path_exists w up)),
             (''sibling_count'', JInt (if path_exists w up \<and> is_dir w up then int (tw_entries w up) else 0))]))
      | v \<Rightarrow> exception_answer (tw_type_error w v))"

definition read_file_snippet :: "tools_world \<Rightarrow> json \<Rightarrow> str" where
  "read_file_snippet w args =
     (case arg_or ''target_path'' (JStr []) args of
        JStr target \<Rightarrow>
          (let p = canonicalize_path w target in
           if \<not> path_exists w p \<or> \<not> tw_is_file w p then exception_answer (''File '' @ [CHR 0x27] @ p @ [CHR 0x27] @ '' does not exist or is not a regular file.'')
           else (case tw_read w p of
               Inl why \<Rightarrow> exception_answer why
             | Inr content \<Rightarrow> flat_json w (JObj [(''path'', JStr p), (''content'', JStr (redact_for_cloud (first_chars 8192 content)))])))
      | v \<Rightarrow> exception_answer (tw_type_error w v))"

definition argument_text :: "tools_world \<Rightarrow> str \<Rightarrow> str \<Rightarrow> json \<Rightarrow> str" where
  "argument_text w key d args = shown_json w (arg_or key (JStr d) args)"

definition create_feature_request :: "tools_world \<Rightarrow> json \<Rightarrow> str" where
  "create_feature_request w args =
     (let title = strip (argument_text w ''title'' [] args); desc = strip (argument_text w ''description'' [] args);
          priority = map to_upper (argument_text w ''priority'' ''NORMAL'' args); category = map to_upper (argument_text w ''category'' ''GENERAL'' args) in
      if title = [] then exception_answer ''Title is required for feature request.''
      else (case tw_create w title desc priority category of
          Inl why \<Rightarrow> exception_answer why
        | Inr (i, similar) \<Rightarrow> flat_json w (JObj [(''status'', JStr ''created''), (''id'', i), (''title'', JStr title), (''priority'', JStr priority), (''similar_items'', similar)])))"

definition search_feature_requests :: "tools_world \<Rightarrow> json \<Rightarrow> str" where
  "search_feature_requests w args =
     (let query = strip (argument_text w ''query'' [] args); limit = shown_json w (arg_or ''limit'' (JInt 5) args);
          n = (if limit \<noteq> [] \<and> list_all is_digit limit then int (read_nat limit) else 5) in
      case tw_similar w query n of
        Inl why \<Rightarrow> exception_answer why
      | Inr found \<Rightarrow> flat_json w (JObj [(''query'', JStr query), (''count'', JInt (int (length found))), (''results'', JArr found)]))"

text \<open>The tools of \<open>execute_tool_call\<close> beside the adjudicating ones; all read their arguments from a dictionary.\<close>

definition reading_tool :: "tools_world \<Rightarrow> str \<Rightarrow> str \<Rightarrow> json \<Rightarrow> str option" where
  "reading_tool w cwd name args =
     (let of_dict = (\<lambda>f. if is_obj args then Some (f args) else None) in
      if name = ''investigate_pane_history'' then of_dict (investigate_pane_history w)
      else if name = ''investigate_path_details'' then of_dict (investigate_path_details w)
      else if name = ''read_file_snippet'' then of_dict (read_file_snippet w)
      else if name = ''grep_search'' then grep_search w cwd args
      else if name = ''view_file_slice'' then view_file_slice w cwd args
      else if name = ''find_by_name'' then find_by_name w cwd args
      else if name = ''git_diff_stat'' then Some (git_diff_stat w cwd args)
      else if name = ''create_feature_request'' then of_dict (create_feature_request w)
      else if name = ''search_feature_requests'' then of_dict (search_feature_requests w)
      else Some (exception_answer (''Unknown tool: '' @ name)))"

subsection \<open>What the repository tools show\<close>

lemma bounded_answer_cases: "bounded_answer w name j = redacted_json w j \<and> fits w j \<or> (\<exists>why. bounded_answer w name j = refused_answer w why)"
  by (auto simp: bounded_answer_def)

lemma resolved_target:
  assumes "resolve_repository_target w cwd given = Inr (base, target)"
  shows "path_within base target \<and> path_exists w target \<and> \<not> is_sensitive_target target \<and> is_dir w base \<and> base \<noteq> ''/''
    \<and> path_within base (canonicalize_path w cwd)
    \<and> (\<exists>raw. given = JStr raw \<and> \<not> starts_with raw ''/'' \<and> \<not> starts_with raw ''~''
        \<and> (\<forall>part \<in> set (path_parts raw). part \<noteq> ''..'' \<and> \<not> is_hidden part) \<and> (raw \<noteq> [] \<longrightarrow> \<not> is_sensitive_target raw))"
proof (cases given)
  case (JStr raw)
  have empty: "path_parts [] = []" "\<not> starts_with [] ''/''" "\<not> starts_with [] ''~''" by (simp_all add: path_parts_def starts_with_def)
  show ?thesis
  proof (cases "tw_run w [''git'', ''-C'', canonicalize_path w cwd, ''rev-parse'', ''--show-toplevel'']")
    case (Ran code out err)
    with assms JStr empty show ?thesis
      by (auto simp: resolve_repository_target_def Let_def list_ex_iff split: if_splits)
  qed (use assms JStr in \<open>auto simp: resolve_repository_target_def Let_def split: if_splits\<close>)
qed (use assms in \<open>simp_all add: resolve_repository_target_def\<close>)

text \<open>A line of \<open>grep_search\<close>: a file in the worktree that is not sensitive, its line number and a text.\<close>

definition visible_hit :: "tools_world \<Rightarrow> str \<Rightarrow> str \<Rightarrow> bool" where
  "visible_hit w base entry \<longleftrightarrow>
     (\<exists>hit number found. entry = first_chars 2000 (display_path base hit @ '':'' @ shown_json w number @ '':'' @ rstrip found)
        \<and> path_within base hit \<and> \<not> is_sensitive_target hit \<and> \<not> is_sensitive_target (display_path base hit))"

definition sound_grep :: "tools_world \<Rightarrow> str \<Rightarrow> int \<Rightarrow> grep_state \<Rightarrow> bool" where
  "sound_grep w base limit g \<longleftrightarrow> (\<forall>m \<in> set (gs_matches g). visible_hit w base m) \<and> int (length (gs_matches g)) \<le> limit"

lemma grep_line_sound:
  assumes "grep_line w base query raw limit line g = Next g'" and "sound_grep w base limit g"
  shows "sound_grep w base limit g'"
proof (cases "json_loads line")
  case (Some event)
  show ?thesis
  proof (cases "rg_event event")
    case (Rg_Match p number found)
    let ?p1 = "if starts_with p ''/'' then path_text p else path_under base (path_parts p)"
    let ?hit = "canonicalize_path w ?p1"
    let ?entry = "first_chars 2000 (display_path base ?hit @ '':'' @ shown_json w number @ '':'' @ rstrip found)"
    consider "gs_matches g' = gs_matches g"
      | "gs_matches g' = gs_matches g @ [?entry]" "path_within base ?hit" "\<not> is_sensitive_target ?hit"
        "\<not> is_sensitive_target (display_path base ?hit)" "int (length (gs_matches g)) < limit"
      using assms(1) Some Rg_Match unfolding grep_line_def option.case rg_report.case Let_def
      by (simp split: if_splits) (auto split: if_splits)
    then show ?thesis
    proof cases
      case 2
      then have "visible_hit w base ?entry" unfolding visible_hit_def by blast
      with 2 assms(2) show ?thesis by (auto simp: sound_grep_def)
    qed (use assms(2) in \<open>simp add: sound_grep_def\<close>)
  qed (use assms Some in \<open>simp_all add: grep_line_def\<close>)
qed (use assms in \<open>simp add: grep_line_def\<close>)

lemma grep_lines_sound:
  "grep_lines w base query raw limit ls g = Next g' \<Longrightarrow> sound_grep w base limit g \<Longrightarrow> sound_grep w base limit g'"
proof (induction ls arbitrary: g)
  case (Cons l ls)
  then obtain g1 where g1: "grep_line w base query raw limit l g = Next g1"
    by (cases "grep_line w base query raw limit l g") simp_all
  with Cons grep_line_sound [OF g1] show ?case by simp
qed simp


text \<open>
  The entries that a walk may show: from the start down through directories that are opened
  without following links, each entry neither hidden nor sensitive, by name and by path.
\<close>

inductive reachable_entry :: "tools_world \<Rightarrow> find_query \<Rightarrow> str list \<Rightarrow> entry_kind \<Rightarrow> bool" for w q where
  from_start: "reachable_entry w q (fq_start q) Directory"
| below: "\<lbrakk>reachable_entry w q rel Directory; tw_open_dir w (fq_base q) rel; tw_scan w (fq_base q) rel = Some entries; (name, kind) \<in> set entries;
     \<not> starts_with name ''.''; \<not> is_sensitive_target name; \<not> is_sensitive_target (shown_path (rel @ [name])); kind \<notin> {Symlink, Unreadable}\<rbrakk>
   \<Longrightarrow> reachable_entry w q (rel @ [name]) kind"

inductive_cases below_start: "reachable_entry w q path kind"

definition sound_find :: "tools_world \<Rightarrow> find_query \<Rightarrow> find_state \<Rightarrow> bool" where
  "sound_find w q f \<longleftrightarrow> fd_visited f \<le> 10000 \<and> length (fd_matches f) \<le> 50
     \<and> (\<forall>(p, k) \<in> set (fd_matches f). reachable_entry w q p k \<and> p \<noteq> [] \<and> last p = fq_name q \<and> length p \<le> length (fq_start q) + 17)"

lemma sound_find_frame: "sound_find w q f \<Longrightarrow> fd_matches f' = fd_matches f \<Longrightarrow> fd_visited f' = fd_visited f \<Longrightarrow> sound_find w q f'"
  by (simp add: sound_find_def)

lemma matched_sound:
  assumes "sound_find w q f" and "reachable_entry w q (rel @ [name]) kind" and "length rel \<le> length (fq_start q) + 16"
  shows "sound_find w q (snd (matched w q (rel @ [name]) name kind f))"
proof -
  have grown: "sound_find w q (f\<lparr>fd_matches := fd_matches f @ [(rel @ [name], kind)]\<rparr>)" if "name = fq_name q" "length (fd_matches f) < 50"
    using that assms by (auto simp: sound_find_def)
  show ?thesis
    using assms(1) grown sound_find_frame [OF assms(1), of "f\<lparr>fd_truncated := True\<rparr>"]
    by (auto simp: matched_def stopped_def FIND_BY_NAME_MAX_MATCHES_def)
qed

lemma look_sound:
  assumes "look_at w q rel (name, kind) f = ((e, f'), d)" and "sound_find w q f" and "reachable_entry w q rel Directory"
    and "tw_open_dir w (fq_base q) rel" and "tw_scan w (fq_base q) rel = Some entries" and "(name, kind) \<in> set entries"
    and "length rel \<le> length (fq_start q) + 16"
  shows "sound_find w q f' \<and> (d \<longrightarrow> reachable_entry w q (rel @ [name]) Directory)"
proof -
  let ?f0 = "f\<lparr>fd_clock := Suc (fd_clock f)\<rparr>"
  let ?f1 = "?f0\<lparr>fd_visited := Suc (fd_visited f)\<rparr>"
  have s0: "sound_find w q (?f0\<lparr>fd_truncated := True\<rparr>)" by (rule sound_find_frame [OF assms(2)]) simp_all
  have s1: "sound_find w q ?f1" if "fd_visited f < 10000" using that assms(2) by (simp add: sound_find_def)
  consider (over) "f' = ?f0\<lparr>fd_truncated := True\<rparr>" "\<not> d"
    | (skipped) "fd_visited f < 10000" "fd_matches f' = fd_matches ?f1" "fd_visited f' = fd_visited ?f1" "\<not> d"
    | (seen) "fd_visited f < 10000" "\<not> starts_with name ''.''" "\<not> is_sensitive_target name" "\<not> is_sensitive_target (shown_path (rel @ [name]))"
        "kind \<notin> {Symlink, Unreadable}" "(e, f') = matched w q (rel @ [name]) name kind ?f1" "d = (kind = Directory)"
    using assms(1) unfolding look_at_def out_of_time_def prod.case Let_def stopped_def FIND_BY_NAME_MAX_ENTRIES_def
    by (simp split: if_splits) auto
  then show ?thesis
  proof cases
    case skipped
    with s1 sound_find_frame show ?thesis by blast
  next
    case seen
    have r: "reachable_entry w q (rel @ [name]) kind" by (rule below [OF assms(3-6) seen(2-5)])
    with matched_sound [OF s1 [OF seen(1)] r assms(7)] seen show ?thesis by (metis snd_conv)
  qed (use s0 in simp)
qed

lemma walk_sound:
  "walk w q left rel f = (e, f') \<Longrightarrow> sound_find w q f \<Longrightarrow> reachable_entry w q rel Directory
     \<Longrightarrow> length rel + left \<le> length (fq_start q) + 16 \<Longrightarrow> sound_find w q f'"
  "walk_entries w q left rel es f = (e, f') \<Longrightarrow> sound_find w q f \<Longrightarrow> reachable_entry w q rel Directory
     \<Longrightarrow> length rel + left \<le> length (fq_start q) + 16 \<Longrightarrow> tw_open_dir w (fq_base q) rel \<Longrightarrow> tw_scan w (fq_base q) rel = Some entries
     \<Longrightarrow> set es \<subseteq> set entries \<Longrightarrow> sound_find w q f'"
proof (induction w q left rel f and w q left rel es f arbitrary: e f' and e f' entries rule: walk_walk_entries.induct)
  case (1 w q left rel f)
  let ?f0 = "f\<lparr>fd_clock := Suc (fd_clock f)\<rparr>"
  have s0: "sound_find w q ?f0" "sound_find w q (?f0\<lparr>fd_truncated := True\<rparr>)" by (rule sound_find_frame [OF 1(3)]; simp)+
  show ?case
  proof (cases "\<not> tw_open_dir w (fq_base q) rel \<or> tw_late w (fd_clock f) \<or> tw_scan w (fq_base q) rel = None")
    case True
    with 1(2,3) s0 show ?thesis by (auto simp: out_of_time_def stopped_def split: if_splits)
  next
    case False
    then obtain entries where en: "tw_open_dir w (fq_base q) rel" "\<not> tw_late w (fd_clock f)" "tw_scan w (fq_base q) rel = Some entries" by auto
    with 1(2) have "walk_entries w q left rel (sort_key fst entries) ?f0 = (e, f')" by (simp add: out_of_time_def)
    from 1(1) [OF _ _ _ _ this s0(1) 1(4,5) en(1,3)] en show ?thesis by (simp add: out_of_time_def)
  qed
next
  case (2 w q left rel f)
  then show ?case by simp
next
  case (3 w q left rel en es f)
  obtain name kind where en: "en = (name, kind)" by (cases en)
  obtain e1 f1 d where look: "look_at w q rel en f = ((e1, f1), d)" by (metis prod.collapse)
  have len: "length rel \<le> length (fq_start q) + 16" using "3.prems"(4) by simp
  have s: "sound_find w q f1" "d \<longrightarrow> reachable_entry w q (rel @ [name]) Directory"
    using look_sound [of w q rel name kind f e1 f1 d entries] look en "3.prems" len by auto
  show ?case
  proof (cases e1)
    case Go_On
    show ?thesis
    proof (cases d)
      case False
      with "3.prems" look Go_On have "walk_entries w q left rel es f1 = (e, f')" by simp
      with "3.IH"(4) [OF look [symmetric] refl Go_On _ this s(1)] False "3.prems" show ?thesis by simp
    next
      case True
      show ?thesis
      proof (cases left)
        case 0
        with "3.prems" look Go_On True have go: "walk_entries w q left rel es (f1\<lparr>fd_truncated := True\<rparr>) = (e, f')" by simp
        have "sound_find w q (f1\<lparr>fd_truncated := True\<rparr>)" by (rule sound_find_frame [OF s(1)]) simp_all
        with "3.IH"(1) [OF look [symmetric] refl Go_On _ 0 go] True "3.prems" show ?thesis by simp
      next
        case (Suc k)
        obtain e2 f2 where down: "walk w q k (rel @ [name]) f1 = (e2, f2)" by (metis prod.collapse)
        have s2: "sound_find w q f2"
          using "3.IH"(2) [OF look [symmetric] refl Go_On _ Suc, of e2 f2] down s True en "3.prems"(4) Suc by simp
        show ?thesis
        proof (cases e2)
          case Go_On': Go_On
          with "3.prems" look Go_On True Suc down en have "walk_entries w q left rel es f2 = (e, f')" by simp
          with "3.IH"(3) [OF look [symmetric] refl Go_On _ Suc, of e2 f2] down s2 True Go_On' en "3.prems" show ?thesis by simp
        qed (use "3.prems" look Go_On True Suc down en s2 in simp_all)
      qed
    qed
  qed (use "3.prems" look s in simp_all)
qed

text \<open>
  C20: A search by name shows reachable entries only.  The answer of \<open>find_by_name\<close> is a refusal, or
  lists at most fifty entries of this name after at most ten thousand visits, each reached from the
  start in the worktree through at most seventeen visible entries that are no links.
\<close>

theorem find_shows_reachable_entries:
  assumes "find_by_name w cwd args = Some answer"
  shows "(\<exists>why. answer = refused_answer w why) \<or>
    (\<exists>raw q f target. resolve_repository_target w cwd (JStr raw) = Inr (fq_base q, target) \<and> fq_start q = path_parts raw
       \<and> jget ''name'' args = JStr (fq_name q) \<and> answer = redacted_json w (find_doc q f) \<and> char_count answer \<le> 4000
       \<and> fd_visited f \<le> 10000 \<and> length (fd_matches f) \<le> 50
       \<and> (\<forall>(p, k) \<in> set (fd_matches f). reachable_entry w q p k \<and> p \<noteq> [] \<and> last p = fq_name q \<and> length p \<le> length (fq_start q) + 17))"
proof (cases "\<exists>why. answer = refused_answer w why")
  case False
  have known: "unsupported_arguments args = Some False"
    using assms False by (auto simp: find_by_name_def split: option.splits bool.splits)
  obtain name where name: "jget ''name'' args = JStr name"
    using assms False known by (cases "jget ''name'' args") (auto simp: find_by_name_def)
  have ok: "\<not> (name = [] \<or> char_count name > 255 \<or> name = ''.'' \<or> name = ''..'' \<or> CHR ''/'' \<in> set name \<or> CHR 0x00 \<in> set name)"
      "\<not> (starts_with name ''.'' \<or> is_sensitive_target name)"
    using assms False known name by (auto simp: find_by_name_def split: if_splits)
  obtain ty where ty: "arg_or ''entry_type'' (JStr ''any'') args = JStr ty"
    using assms False known name ok by (cases "arg_or ''entry_type'' (JStr ''any'') args") (auto simp: find_by_name_def)
  have kind: "ty \<in> {''any'', ''file'', ''directory''}"
    using assms False known name ok ty by (auto simp: find_by_name_def split: if_splits)
  obtain base target where res: "resolve_repository_target w cwd (arg_or ''relative_path'' (JStr ''.'') args) = Inr (base, target)"
    using assms False known name ok ty kind
    by (cases "resolve_repository_target w cwd (arg_or ''relative_path'' (JStr ''.'') args)") (auto simp: find_by_name_def)
  then obtain raw where raw: "arg_or ''relative_path'' (JStr ''.'') args = JStr raw" using resolved_target [OF res] by blast
  let ?q = "\<lparr>fq_name = name, fq_type = ty, fq_raw = raw, fq_start = path_parts raw, fq_base = base\<rparr>"
  obtain e f where run: "walk w ?q FIND_BY_NAME_MAX_DEPTH (fq_start ?q) no_finds = (e, f)" by (metis prod.collapse)
  have a: "answer = (case e of Walk_Error \<Rightarrow> refused_answer w ''Repository path could not be traversed without following symlinks''
      | _ \<Rightarrow> bounded_answer w ''find_by_name'' (find_doc ?q f))"
    using assms known name ok ty kind res raw run by (auto simp: find_by_name_def Let_def split: walk_end.splits simp del: walk.simps)
  with False have "answer = bounded_answer w ''find_by_name'' (find_doc ?q f)" by (auto split: walk_end.splits)
  with False have shown: "answer = redacted_json w (find_doc ?q f)" "fits w (find_doc ?q f)" using bounded_answer_cases by metis+
  have "sound_find w ?q f"
    by (rule walk_sound(1) [OF run]) (simp_all add: sound_find_def no_finds_def FIND_BY_NAME_MAX_DEPTH_def from_start [of w ?q, simplified])
  then show ?thesis
    using shown res raw name unfolding sound_find_def fits_def ANSWER_LIMIT_def
    by (intro disjI2 exI [of _ raw] exI [of _ ?q] exI [of _ f] exI [of _ target]) simp
qed simp

subsection \<open>A slice of a file\<close>

lemma readline_line: "\<lbrakk>nl \<notin> set l; char_count l < int n\<rbrakk> \<Longrightarrow> readline n (l @ nl # s) = (l @ [nl], s)"
proof (induction l arbitrary: n)
  case Nil
  then show ?case by (cases n) (simp_all add: begins_char_def char_count_def)
next
  case (Cons c l)
  show ?case
  proof (cases "begins_char c")
    case True
    with Cons.prems obtain k where k: "n = Suc k" by (cases n) (simp_all add: char_count_def)
    moreover have "c \<noteq> nl" using Cons.prems(1) by auto
    ultimately show ?thesis using Cons True by (simp add: char_count_def)
  next
    case False
    with Cons show ?thesis by (simp add: char_count_def)
  qed
qed

lemma first_chars_line: "nl \<notin> set l \<Longrightarrow> char_count l \<le> int n \<Longrightarrow> first_chars n (l @ [nl]) \<in> {l, l @ [nl]}"
proof (induction l arbitrary: n)
  case Nil
  then show ?case by (cases n) (simp_all add: begins_char_def)
next
  case (Cons c l)
  show ?case
  proof (cases n)
    case 0
    with Cons.prems have "\<not> begins_char c" "char_count l \<le> int 0" by (auto simp: char_count_def split: if_splits)
    with Cons.IH [of 0] Cons.prems 0 show ?thesis by auto
  next
    case (Suc k)
    with Cons.prems have "char_count l \<le> int (if begins_char c then k else Suc k)" by (auto simp: char_count_def split: if_splits)
    with Cons.IH Cons.prems Suc show ?thesis by fastforce
  qed
qed

lemma rstrip_newline: "rstrip_chars [cr, nl] (l @ [nl]) = rstrip_chars [cr, nl] l"
  by (simp add: rstrip_chars_def)

definition file_of_lines :: "str list \<Rightarrow> str" where
  "file_of_lines ls = concat (map (\<lambda>l. l @ [nl]) ls)"

definition ordinary_line :: "str \<Rightarrow> bool" where
  "ordinary_line l \<longleftrightarrow> nl \<notin> set l \<and> CHR 0x00 \<notin> set l \<and> char_count l \<le> 2000"

lemma slice_lines_exact:
  "\<forall>l \<in> set ls. ordinary_line l \<Longrightarrow>
     slice_lines start n False left (file_of_lines ls) =
       Inr (map (\<lambda>i. redact_for_cloud (numbered_line (Suc (n + i)) (rstrip_chars [cr, nl] (ls ! i))))
         (filter (\<lambda>i. start \<le> Suc (n + i)) [0..<min left (length ls)]), False)"
proof (induction left arbitrary: n ls)
  case (Suc left)
  show ?case
  proof (cases ls)
    case Nil
    then show ?thesis by (simp add: file_of_lines_def)
  next
    case (Cons l ls')
    with Suc.prems have l: "nl \<notin> set l" "CHR 0x00 \<notin> set l" "char_count l \<le> 2000" and rest: "\<forall>l \<in> set ls'. ordinary_line l"
      by (simp_all add: ordinary_line_def)
    have read: "readline 2001 (file_of_lines (l # ls')) = (l @ [nl], file_of_lines ls')"
      using readline_line [OF l(1), of 2001 "file_of_lines ls'"] l(3) by (simp add: file_of_lines_def)
    have strip: "rstrip_chars [cr, nl] (first_chars 2000 (l @ [nl])) = rstrip_chars [cr, nl] l"
      using first_chars_line [OF l(1), of 2000] l(3) rstrip_newline by auto
    have whole: "ends_with (l @ [nl]) [nl]" by (simp add: ends_with_def)
    have idx: "[0..<min (Suc left) (length (l # ls'))] = 0 # map Suc [0..<min left (length ls')]"
      by (simp add: upt_conv_Cons map_Suc_upt del: upt_Suc)
    show ?thesis
      unfolding Cons slice_lines.simps read prod.case idx
      using Suc.IH [OF rest, of "Suc n"] l(2) strip whole
      by (simp add: Let_def filter_map o_def del: upt_Suc)
  qed
qed simp


subsection \<open>Witnesses\<close>

text \<open>A worktree \<open>/r\<close> with one directory and one file in it, and a search program that reports \<open>found\<close>.\<close>

definition tools_demo :: "str \<Rightarrow> tools_world" where
  "tools_demo found = \<lparr>canon = (\<lambda>p. p), path_exists = (\<lambda>_. True), is_dir = (\<lambda>_. True), is_sock = (\<lambda>_. False), git = (\<lambda>_ _. None),
     tw_context = context_demo,
     tw_run = (\<lambda>command. if hd command = ''git'' then Ran 0 ''/r'' [] else if found = [] then Ran 1 [] [] else Ran 0 found []),
     tw_rg = Some ''rg'', tw_open = (\<lambda>_. Opened False ''x'' False), tw_open_dir = (\<lambda>_ _. True),
     tw_scan = (\<lambda>_ rel. Some (if rel = [] then [(''src'', Directory), (''.git'', Directory)] else if rel = [''src''] then [(''a.py'', Regular)] else [])),
     tw_late = (\<lambda>_. False), tw_pane = (\<lambda>_ _ _. Inl []), tw_is_file = (\<lambda>_. True), tw_size = (\<lambda>_. 0), tw_entries = (\<lambda>_. 0),
     tw_read = (\<lambda>_. Inr ''secret''), tw_create = (\<lambda>_ _ _ _. Inl []), tw_similar = (\<lambda>_ _. Inl []), tw_type_error = (\<lambda>_. [])\<rparr>"

definition search_args :: json where
  "search_args = JObj [(''query'', JStr ''x'')]"

lemma demo_paths_are_ordinary: "\<not> is_sensitive_target ''.''" "\<not> is_sensitive_target ''/r''"
  by code_simp+

lemma demo_resolves: "resolve_repository_target (tools_demo found) ''/r'' (JStr ''.'') = Inr (''/r'', ''/r'')"
proof -
  have parts: "path_parts ''.'' = []" "strip ''/r'' = ''/r''" by code_simp+
  show ?thesis
    by (simp add: resolve_repository_target_def tools_demo_def Let_def parts demo_paths_are_ordinary canonicalize_path_def path_under_def path_within_def
        starts_with_def char_count_def begins_char_def)
qed

lemma demo_search: "grep_search (tools_demo []) ''/r'' search_args = Some (redacted_json (tools_demo []) (no_match_doc ''x'' ''.''))"
proof -
  have fields: "tw_rg (tools_demo []) = Some ''rg''" "tw_run (tools_demo []) (rg_command ''rg'' b q t) = Ran 1 [] []" for b q t
    by (simp_all add: tools_demo_def rg_command_def)
  show ?thesis
    by (simp add: grep_search_def search_args_def arg_or_def demo_resolves requested_max_def fields char_count_def begins_char_def)
qed

definition demo_answer :: str where
  "demo_answer = redacted_json (tools_demo []) (no_match_doc ''x'' ''.'')"


theorem find_shows_reachable_entries_witness:
  "\<exists>answer. find_by_name (tools_demo []) ''/r'' (JObj [(''name'', JStr ''a.py'')]) = Some answer
     \<and> ((\<exists>why. answer = refused_answer (tools_demo []) why) \<or> (\<exists>q f. answer = redacted_json (tools_demo []) (find_doc q f) \<and> length (fd_matches f) \<le> 50))"
proof -
  have "find_by_name (tools_demo []) ''/r'' (JObj [(''name'', JStr ''a.py'')]) \<noteq> None"
    by (simp add: find_by_name_def unsupported_arguments_def)
  then obtain answer where a: "find_by_name (tools_demo []) ''/r'' (JObj [(''name'', JStr ''a.py'')]) = Some answer" by blast
  with find_shows_reachable_entries [OF a] show ?thesis by blast
qed


subsection \<open>Two consequences of the code as it is\<close>

text \<open>
  A snippet has none of the limits of the other tools: every file that can be read is answered,
  where a slice refuses every absolute path.
\<close>

lemma snippet_has_no_limits:
  assumes "canonicalize_path w p = p" and "path_exists w p" and "tw_is_file w p" and "tw_read w p = Inr content"
  shows "read_file_snippet w (JObj [(''target_path'', JStr p)])
    = flat_json w (JObj [(''path'', JStr p), (''content'', JStr (redact_for_cloud (first_chars 8192 content)))])"
  using assms by (simp add: read_file_snippet_def arg_or_def)

lemma slice_refuses_absolute_paths:
  assumes "starts_with p ''/''"
  shows "\<exists>why. view_file_slice w cwd (JObj [(''relative_path'', JStr p)]) = Some (refused_answer w why)"
proof -
  have "\<exists>why. resolve_repository_target w cwd (JStr p) = Inl why"
    using assms resolved_target [of w cwd "JStr p"] by (cases "resolve_repository_target w cwd (JStr p)") auto
  then show ?thesis using assms by (auto simp: view_file_slice_def arg_or_def starts_with_def)
qed

text \<open>A match whose text holds a line separator of Unicode is cut in two, so the search is answered as malformed.\<close>

definition separator_demo :: str where
  "separator_demo = ''{\"type\":\"match\",\"data\":{\"path\":{\"text\":\"/r/a\"},\"lines\":{\"text\":\"x'' @ [CHR 0xE2, CHR 0x80, CHR 0xA8] @ ''y\"}}}''"

lemma separator_breaks_search: "grep_lines w base query raw limit (py_splitlines separator_demo) g = Refuse ''Malformed rg output''"
proof -
  have "py_splitlines separator_demo = [takeWhile (\<lambda>c. c \<noteq> CHR 0xE2) separator_demo, ''y\"}}}'']" by code_simp
  moreover have "json_loads (takeWhile (\<lambda>c. c \<noteq> CHR 0xE2) separator_demo) = None" by code_simp
  ultimately show ?thesis by (simp add: grep_line_def)
qed

end
